(* ===== verification/IRC_Prelude.thy ===== *)
theory IRC_Prelude
  imports Main "HOL-Library.Word"
begin

section \<open>Shared vocabulary of the ScratchIRCd development\<close>

text \<open>
  C strings, the parts of the C library the daemon uses on them, the numeric
  conventions and the theorem collections that the component theories share.

  A C string is a \<^typ>\<open>string\<close> (a list of bytes) without the terminating NUL.  A
  character array of \<open>MAX + 1\<close> bytes filled by \<open>snprintf(buf, sizeof(buf), "%s", x)\<close> keeps
  the first \<open>MAX\<close> bytes of \<open>x\<close>, so it is \<open>take MAX x\<close>.  A possibly null \<open>char *\<close> is a
  \<^typ>\<open>string option\<close>.  \<open>size_t\<close> counters that only grow with a list are \<^typ>\<open>nat\<close>;
  bit sets and budgets keep their C width as words; \<open>time_t\<close> is \<^typ>\<open>int\<close>.
\<close>

unbundle bit_operations_syntax

named_theorems frame_simps
  \<open>which fields of the server state an operation leaves alone\<close>

named_theorems wf_intros
  \<open>preservation of the well-formedness invariants\<close>

named_theorems cstr_simps
  \<open>lengths and characters of C string operations\<close>

named_theorems mode_bits
  \<open>tests of a mode or privilege set as tests of a bit\<close>

type_synonym time_t = int

type_synonym u32 = "32 word"

type_synonym u64 = "64 word"

subsection \<open>Characters\<close>

abbreviation code :: "char \<Rightarrow> nat" where
  "code c \<equiv> of_char c"

abbreviation CR :: char where
  "CR \<equiv> CHR 0x0D"

abbreviation LF :: char where
  "LF \<equiv> CHR 0x0A"

text \<open>\<open>tolower\<close>, \<open>isdigit\<close>, \<open>isalpha\<close>, \<open>isalnum\<close>, \<open>isxdigit\<close> and \<open>isspace\<close> in the C locale.\<close>

definition ascii_lower :: "char \<Rightarrow> char" where
  "ascii_lower c = (if 65 \<le> code c \<and> code c \<le> 90 then char_of (code c + 32) else c)"

definition isdigit :: "char \<Rightarrow> bool" where
  "isdigit c \<longleftrightarrow> 48 \<le> code c \<and> code c \<le> 57"

definition isalpha :: "char \<Rightarrow> bool" where
  "isalpha c \<longleftrightarrow> (65 \<le> code c \<and> code c \<le> 90) \<or> (97 \<le> code c \<and> code c \<le> 122)"

definition isalnum :: "char \<Rightarrow> bool" where
  "isalnum c \<longleftrightarrow> isdigit c \<or> isalpha c"

definition isxdigit :: "char \<Rightarrow> bool" where
  "isxdigit c \<longleftrightarrow> isdigit c \<or> (65 \<le> code c \<and> code c \<le> 70) \<or> (97 \<le> code c \<and> code c \<le> 102)"

definition isspace :: "char \<Rightarrow> bool" where
  "isspace c \<longleftrightarrow> code c = 32 \<or> (9 \<le> code c \<and> code c \<le> 13)"

text \<open>\<open>strcasecmp(a, b) == 0\<close>.\<close>

definition strcaseeq :: "string \<Rightarrow> string \<Rightarrow> bool" where
  "strcaseeq a b \<longleftrightarrow> map ascii_lower a = map ascii_lower b"

text \<open>\<open>strchr(set, c) != NULL\<close> for a non-NUL \<open>c\<close>, and the first character of a C string.\<close>

definition starts_with :: "char list \<Rightarrow> string \<Rightarrow> bool" where
  "starts_with cs s \<longleftrightarrow> (case s of [] \<Rightarrow> False | c # _ \<Rightarrow> c \<in> set cs)"

subsection \<open>Decimal numbers\<close>

text \<open>\<open>%u\<close>, \<open>%zu\<close>, \<open>%lu\<close> and \<open>%d\<close>.\<close>

fun dec :: "nat \<Rightarrow> string" where
  "dec n = (if n < 10 then [char_of (48 + n)] else dec (n div 10) @ [char_of (48 + n mod 10)])"

declare dec.simps [simp del]

definition dec_int :: "int \<Rightarrow> string" where
  "dec_int i = (if i < 0 then CHR ''-'' # dec (nat (- i)) else dec (nat i))"

lemma dec_digits: "c \<in> set (dec n) \<Longrightarrow> isdigit c"
proof (induction n rule: dec.induct)
  case (1 n)
  have "isdigit (char_of (48 + m))" if "m < 10" for m :: nat
    using that by (simp add: isdigit_def)
  then show ?case
    using 1 by (cases "n < 10") (auto simp: dec.simps [of n])
qed

text \<open>
  \<open>strtoul(text, &end, 10)\<close>: leading white space, one optional sign, then digits.  The
  result is the value, whether \<open>errno\<close> was set (overflow), and the unread rest; with no
  digits the whole text is unread.  A minus sign negates the value modulo \<open>2 ^ 64\<close>.
\<close>

definition digit_value :: "string \<Rightarrow> nat" where
  "digit_value ds = foldl (\<lambda>v c. 10 * v + (code c - 48)) 0 ds"

lemma digit_value_dec [simp]: "digit_value (dec n) = n"
proof (induction n rule: dec.induct)
  case (1 n)
  then show ?case
    by (cases "n < 10") (simp_all add: dec.simps [of n] digit_value_def)
qed

lemma dec_inj: "dec m = dec n \<longleftrightarrow> m = n"
  by (metis digit_value_dec)

definition strtoul :: "string \<Rightarrow> nat \<times> bool \<times> string" where
  "strtoul s =
     (let t = dropWhile isspace s;
          neg = (case t of c # _ \<Rightarrow> c = CHR ''-'' | [] \<Rightarrow> False);
          u = (case t of c # r \<Rightarrow> if c = CHR ''-'' \<or> c = CHR ''+'' then r else t | [] \<Rightarrow> t);
          ds = takeWhile isdigit u;
          v = digit_value ds
      in if ds = [] then (0, False, s)
         else if v > 2 ^ 64 - 1 then (2 ^ 64 - 1, True, dropWhile isdigit u)
         else (if neg then (2 ^ 64 - v) mod 2 ^ 64 else v, False, dropWhile isdigit u))"

subsection \<open>Tokens\<close>

text \<open>
  \<open>strtok\<close> on the unread part of the buffer: skip delimiters, return the token and what
  follows the delimiter that ended it; \<open>None\<close> is the null pointer.  \<open>strtok(NULL, "")\<close>
  returns the whole unread rest, or null when nothing is left.
\<close>

definition strtok :: "char list \<Rightarrow> string \<Rightarrow> (string \<times> string) option" where
  "strtok d s =
     (let t = dropWhile (\<lambda>c. c \<in> set d) s
      in if t = [] then None
         else Some (takeWhile (\<lambda>c. c \<notin> set d) t, drop 1 (dropWhile (\<lambda>c. c \<notin> set d) t)))"

definition tok_rest :: "string \<Rightarrow> string option" where
  "tok_rest s = (if s = [] then None else Some s)"

definition tok1 :: "string \<Rightarrow> string option \<times> string" where
  "tok1 s = (case strtok '' '' s of None \<Rightarrow> (None, []) | Some (t, r) \<Rightarrow> (Some t, r))"

lemma strtok_shorter:
  assumes "strtok d s = Some (t, r)"
  shows "length r < length s"
proof -
  let ?t = "dropWhile (\<lambda>c. c \<in> set d) s"
  let ?u = "dropWhile (\<lambda>c. c \<notin> set d) ?t"
  from assms have ne: "?t \<noteq> []" and r: "r = drop 1 ?u"
    by (auto simp: strtok_def Let_def split: if_splits)
  have "length ?u \<le> length ?t" and "length ?t \<le> length s"
    by (rule length_dropWhile_le)+
  moreover have "0 < length ?t"
    using ne by simp
  moreover have "length r = length ?u - 1"
    using r by simp
  ultimately show ?thesis by linarith
qed

text \<open>All tokens of a \<open>for (t = strtok(s, d); t != NULL; t = strtok(NULL, d))\<close> loop.\<close>

function tokens :: "char list \<Rightarrow> string \<Rightarrow> string list" where
  "tokens d s = (case strtok d s of None \<Rightarrow> [] | Some (t, r) \<Rightarrow> t # tokens d r)"
  by pat_completeness auto
termination
  by (relation "measure (\<lambda>(d, s). length s)") (auto dest: strtok_shorter)

declare tokens.simps [simp del]

lemma strtok_token:
  assumes "strtok d s = Some (t, r)"
  shows "t \<noteq> []" and "set t \<inter> set d = {}" and "set t \<subseteq> set s"
proof -
  let ?t = "dropWhile (\<lambda>c. c \<in> set d) s"
  from assms have ne: "?t \<noteq> []" and t: "t = takeWhile (\<lambda>c. c \<notin> set d) ?t"
    by (auto simp: strtok_def Let_def split: if_splits)
  have "hd ?t \<notin> set d"
    using hd_dropWhile [OF ne] by simp
  with ne t show "t \<noteq> []"
    by (cases ?t) auto
  show "set t \<inter> set d = {}"
    using t by (auto dest: set_takeWhileD)
  show "set t \<subseteq> set s"
    using t by (auto dest!: set_takeWhileD dest: set_dropWhileD)
qed

lemma tokens_sound:
  "x \<in> set (tokens d s) \<Longrightarrow> x \<noteq> [] \<and> set x \<inter> set d = {} \<and> set x \<subseteq> set s"
proof (induction d s rule: tokens.induct)
  case (1 d s)
  show ?case
  proof (cases "strtok d s")
    case None
    with "1.prems" show ?thesis by (simp add: tokens.simps [of d s])
  next
    case (Some p)
    obtain t r where p: "p = (t, r)" by fastforce
    with Some have st: "strtok d s = Some (t, r)" by simp
    have rs: "set r \<subseteq> set s"
      using st by (auto simp: strtok_def Let_def split: if_splits dest!: in_set_dropD dest: set_dropWhileD)
    from "1.prems" st have "x = t \<or> x \<in> set (tokens d r)"
      by (simp add: tokens.simps [of d s])
    then show ?thesis
      using strtok_token [OF st] "1.IH" [OF st refl] rs by blast
  qed
qed

text \<open>Joining with a separator, the inverse of \<^const>\<open>tokens\<close> on non-empty separator-free pieces.\<close>

fun join :: "char \<Rightarrow> string list \<Rightarrow> string" where
  "join d [] = []"
| "join d [x] = x"
| "join d (x # y # xs) = x @ d # join d (y # xs)"

lemma join_snoc: "xs \<noteq> [] \<Longrightarrow> join d (xs @ [y]) = join d xs @ d # y"
  by (induction d xs rule: join.induct) simp_all

lemma join_Nil_iff: "\<forall>x\<in>set xs. x \<noteq> [] \<Longrightarrow> join d xs = [] \<longleftrightarrow> xs = []"
  by (induction d xs rule: join.induct) auto

lemma length_join: "length (join d xs) \<le> sum_list (map (\<lambda>x. Suc (length x)) xs)"
  by (induction d xs rule: join.induct) auto

lemma strtok_piece:
  assumes "x \<noteq> []" "d \<notin> set x"
  shows "strtok [d] x = Some (x, [])" and "strtok [d] (x @ d # r) = Some (x, r)"
proof -
  have keep: "dropWhile (\<lambda>c. c \<in> set [d]) (x @ r') = x @ r'" for r'
    using assms by (cases x) auto
  have all: "\<And>c. c \<in> set x \<Longrightarrow> c \<notin> set [d]"
    using assms(2) by auto
  have "takeWhile (\<lambda>c. c \<notin> set [d]) x = x" and "dropWhile (\<lambda>c. c \<notin> set [d]) x = []"
    using all by (simp_all only: takeWhile_eq_all_conv dropWhile_eq_Nil_conv) auto
  then show "strtok [d] x = Some (x, [])"
    unfolding strtok_def Let_def using keep [of "[]"] assms(1) by (simp only: append_Nil2) simp
  have "takeWhile (\<lambda>c. c \<notin> set [d]) (x @ d # r) = x"
    and "dropWhile (\<lambda>c. c \<notin> set [d]) (x @ d # r) = d # r"
    using all takeWhile_append2 [of x "\<lambda>c. c \<notin> set [d]" "d # r"]
      dropWhile_append2 [of x "\<lambda>c. c \<notin> set [d]" "d # r"] by simp_all
  then show "strtok [d] (x @ d # r) = Some (x, r)"
    unfolding strtok_def Let_def using keep [of "d # r"] assms(1) by simp
qed

lemma tokens_join:
  "\<forall>x\<in>set xs. x \<noteq> [] \<and> d \<notin> set x \<Longrightarrow> tokens [d] (join d xs) = xs"
proof (induction d xs rule: join.induct)
  case (1 d)
  then show ?case by (simp add: tokens.simps [of "[d]" "[]"] strtok_def)
next
  case (2 d x)
  then show ?case
    by (simp add: tokens.simps [of "[d]" x] tokens.simps [of "[d]" "[]"] strtok_piece)
       (simp add: strtok_def)
next
  case (3 d x y xs)
  then show ?case
    by (simp add: tokens.simps [of "[d]" "x @ d # join d (y # xs)"] strtok_piece)
qed

subsection \<open>Lists\<close>

lemma dropWhile_shorter: "xs \<noteq> [] \<Longrightarrow> P (hd xs) \<Longrightarrow> length (dropWhile P xs) < length xs"
  by (cases xs) (auto simp: le_imp_less_Suc length_dropWhile_le)

lemma filter_neq_remove1: "distinct xs \<Longrightarrow> remove1 x xs = filter (\<lambda>y. x \<noteq> y) xs"
  by (simp add: distinct_remove1_removeAll removeAll_filter_not_eq)

lemma find_Some_in: "find P xs = Some x \<Longrightarrow> x \<in> set xs \<and> P x"
  by (induction xs) (auto split: if_splits)

lemma find_None_all: "find P xs = None \<longleftrightarrow> (\<forall>x\<in>set xs. \<not> P x)"
  by (induction xs) auto

text \<open>Lists of records with a distinct key.\<close>

lemma filter_key_absent: "k \<notin> f ` set xs \<Longrightarrow> filter (\<lambda>x. f x \<noteq> k) xs = xs"
  by (induction xs) auto

lemma map_key_absent: "k \<notin> f ` set xs \<Longrightarrow> map (\<lambda>x. if f x = k then g x else x) xs = xs"
  by (induction xs) auto

lemma length_filter_key:
  "distinct (map f xs) \<Longrightarrow> k \<in> f ` set xs \<Longrightarrow> Suc (length (filter (\<lambda>x. f x \<noteq> k) xs)) = length xs"
proof (induction xs)
  case (Cons x xs)
  then show ?case
    using filter_key_absent [of "f x" f xs] by (cases "f x = k") auto
qed simp

lemma distinct_map_filter_key: "distinct (map f xs) \<Longrightarrow> distinct (map f (filter P xs))"
  by (induction xs) auto

end
