(* ===== verification/Modes.thy ===== *)
theory Modes
  imports IRC_Prelude
begin

section \<open>Mode bit sets (include/modes.h, src/modes.c)\<close>

text \<open>
  User modes, channel modes and channel privileges as the bit sets the code stores:
  \<open>uint64_t\<close> for modes, \<open>uint32_t\<close> for privileges.  A test of a mode is a test of a bit
  (\<open>mask_bit\<close>), so the policy proofs of the other theories reason about bits.
\<close>

subsection \<open>User modes\<close>

definition CLIENT_MODE_BOT :: u64 where
  "CLIENT_MODE_BOT = push_bit 0 1"

definition CLIENT_MODE_DEAF :: u64 where
  "CLIENT_MODE_DEAF = push_bit 1 1"

definition CLIENT_MODE_GLOBALS :: u64 where
  "CLIENT_MODE_GLOBALS = push_bit 2 1"

definition CLIENT_MODE_HIDE_OPER :: u64 where
  "CLIENT_MODE_HIDE_OPER = push_bit 3 1"

definition CLIENT_MODE_HELPOP :: u64 where
  "CLIENT_MODE_HELPOP = push_bit 4 1"

definition CLIENT_MODE_HIDE_IDLE :: u64 where
  "CLIENT_MODE_HIDE_IDLE = push_bit 5 1"

definition CLIENT_MODE_INVISIBLE :: u64 where
  "CLIENT_MODE_INVISIBLE = push_bit 6 1"

definition CLIENT_MODE_NETADMIN :: u64 where
  "CLIENT_MODE_NETADMIN = push_bit 7 1"

definition CLIENT_MODE_OPER :: u64 where
  "CLIENT_MODE_OPER = push_bit 8 1"

definition CLIENT_MODE_PRIVATE :: u64 where
  "CLIENT_MODE_PRIVATE = push_bit 9 1"

definition CLIENT_MODE_REGONLY_MSG :: u64 where
  "CLIENT_MODE_REGONLY_MSG = push_bit 10 1"

definition CLIENT_MODE_REGISTERED :: u64 where
  "CLIENT_MODE_REGISTERED = push_bit 11 1"

definition CLIENT_MODE_SERVICE :: u64 where
  "CLIENT_MODE_SERVICE = push_bit 12 1"

definition CLIENT_MODE_SERVER_NOTICES :: u64 where
  "CLIENT_MODE_SERVER_NOTICES = push_bit 13 1"

definition CLIENT_MODE_NO_CTCP :: u64 where
  "CLIENT_MODE_NO_CTCP = push_bit 14 1"

definition CLIENT_MODE_VHOST :: u64 where
  "CLIENT_MODE_VHOST = push_bit 15 1"

definition CLIENT_MODE_WEBIRC :: u64 where
  "CLIENT_MODE_WEBIRC = push_bit 16 1"

definition CLIENT_MODE_WHOIS_NOTICE :: u64 where
  "CLIENT_MODE_WHOIS_NOTICE = push_bit 17 1"

definition CLIENT_MODE_WALLOPS :: u64 where
  "CLIENT_MODE_WALLOPS = push_bit 18 1"

definition CLIENT_MODE_CLOAKED :: u64 where
  "CLIENT_MODE_CLOAKED = push_bit 19 1"

definition CLIENT_MODE_SECURE :: u64 where
  "CLIENT_MODE_SECURE = push_bit 20 1"

definition CLIENT_MODE_PRIVATE_DEAF :: u64 where
  "CLIENT_MODE_PRIVATE_DEAF = push_bit 21 1"

definition CLIENT_MODE_CHANNEL_MUTE :: u64 where
  "CLIENT_MODE_CHANNEL_MUTE = push_bit 22 1"

subsection \<open>Channel modes\<close>

definition CHANNEL_MODE_ADMIN_ONLY :: u64 where
  "CHANNEL_MODE_ADMIN_ONLY = push_bit 0 1"

definition CHANNEL_MODE_NO_COLOR :: u64 where
  "CHANNEL_MODE_NO_COLOR = push_bit 1 1"

definition CHANNEL_MODE_INVITE_ONLY :: u64 where
  "CHANNEL_MODE_INVITE_ONLY = push_bit 2 1"

definition CHANNEL_MODE_NO_KNOCK :: u64 where
  "CHANNEL_MODE_NO_KNOCK = push_bit 3 1"

definition CHANNEL_MODE_REGONLY_SPEAK :: u64 where
  "CHANNEL_MODE_REGONLY_SPEAK = push_bit 4 1"

definition CHANNEL_MODE_MODERATED :: u64 where
  "CHANNEL_MODE_MODERATED = push_bit 5 1"

definition CHANNEL_MODE_NO_EXTERNAL :: u64 where
  "CHANNEL_MODE_NO_EXTERNAL = push_bit 6 1"

definition CHANNEL_MODE_OPER_ONLY :: u64 where
  "CHANNEL_MODE_OPER_ONLY = push_bit 7 1"

definition CHANNEL_MODE_PRIVATE :: u64 where
  "CHANNEL_MODE_PRIVATE = push_bit 8 1"

definition CHANNEL_MODE_REGISTERED :: u64 where
  "CHANNEL_MODE_REGISTERED = push_bit 9 1"

definition CHANNEL_MODE_REGONLY_JOIN :: u64 where
  "CHANNEL_MODE_REGONLY_JOIN = push_bit 10 1"

definition CHANNEL_MODE_STRIP_COLOR :: u64 where
  "CHANNEL_MODE_STRIP_COLOR = push_bit 11 1"

definition CHANNEL_MODE_SECRET :: u64 where
  "CHANNEL_MODE_SECRET = push_bit 12 1"

definition CHANNEL_MODE_TOPIC_LOCK :: u64 where
  "CHANNEL_MODE_TOPIC_LOCK = push_bit 13 1"

definition CHANNEL_MODE_NO_NOTICE :: u64 where
  "CHANNEL_MODE_NO_NOTICE = push_bit 14 1"

definition CHANNEL_MODE_NO_INVITE :: u64 where
  "CHANNEL_MODE_NO_INVITE = push_bit 15 1"

definition CHANNEL_MODE_SECURE_ONLY :: u64 where
  "CHANNEL_MODE_SECURE_ONLY = push_bit 16 1"

subsection \<open>Channel privileges\<close>

definition CHANNEL_PRIV_VOICE :: u32 where
  "CHANNEL_PRIV_VOICE = push_bit 0 1"

definition CHANNEL_PRIV_HALFOP :: u32 where
  "CHANNEL_PRIV_HALFOP = push_bit 1 1"

definition CHANNEL_PRIV_OPERATOR :: u32 where
  "CHANNEL_PRIV_OPERATOR = push_bit 2 1"

definition CHANNEL_PRIV_OWNER :: u32 where
  "CHANNEL_PRIV_OWNER = push_bit 3 1"

definition CHANNEL_PRIV_PROTECTED :: u32 where
  "CHANNEL_PRIV_PROTECTED = push_bit 4 1"

lemmas client_mode_defs =
  CLIENT_MODE_BOT_def CLIENT_MODE_DEAF_def CLIENT_MODE_GLOBALS_def
  CLIENT_MODE_HIDE_OPER_def CLIENT_MODE_HELPOP_def CLIENT_MODE_HIDE_IDLE_def
  CLIENT_MODE_INVISIBLE_def CLIENT_MODE_NETADMIN_def CLIENT_MODE_OPER_def
  CLIENT_MODE_PRIVATE_def CLIENT_MODE_REGONLY_MSG_def CLIENT_MODE_REGISTERED_def
  CLIENT_MODE_SERVICE_def CLIENT_MODE_SERVER_NOTICES_def CLIENT_MODE_NO_CTCP_def
  CLIENT_MODE_VHOST_def CLIENT_MODE_WEBIRC_def CLIENT_MODE_WHOIS_NOTICE_def
  CLIENT_MODE_WALLOPS_def CLIENT_MODE_CLOAKED_def CLIENT_MODE_SECURE_def
  CLIENT_MODE_PRIVATE_DEAF_def CLIENT_MODE_CHANNEL_MUTE_def

lemmas channel_mode_defs =
  CHANNEL_MODE_ADMIN_ONLY_def CHANNEL_MODE_NO_COLOR_def CHANNEL_MODE_INVITE_ONLY_def
  CHANNEL_MODE_NO_KNOCK_def CHANNEL_MODE_REGONLY_SPEAK_def CHANNEL_MODE_MODERATED_def
  CHANNEL_MODE_NO_EXTERNAL_def CHANNEL_MODE_OPER_ONLY_def CHANNEL_MODE_PRIVATE_def
  CHANNEL_MODE_REGISTERED_def CHANNEL_MODE_REGONLY_JOIN_def CHANNEL_MODE_STRIP_COLOR_def
  CHANNEL_MODE_SECRET_def CHANNEL_MODE_TOPIC_LOCK_def CHANNEL_MODE_NO_NOTICE_def
  CHANNEL_MODE_NO_INVITE_def CHANNEL_MODE_SECURE_ONLY_def

lemmas privilege_defs =
  CHANNEL_PRIV_VOICE_def CHANNEL_PRIV_HALFOP_def CHANNEL_PRIV_OPERATOR_def
  CHANNEL_PRIV_OWNER_def CHANNEL_PRIV_PROTECTED_def

subsection \<open>Operations\<close>

definition client_mode_has :: "u64 \<Rightarrow> u64 \<Rightarrow> bool" where
  "client_mode_has modes m \<longleftrightarrow> modes AND m \<noteq> 0"

definition client_mode_add :: "u64 \<Rightarrow> u64 \<Rightarrow> u64" where
  "client_mode_add modes m = modes OR m"

definition client_mode_remove :: "u64 \<Rightarrow> u64 \<Rightarrow> u64" where
  "client_mode_remove modes m = modes AND NOT m"

definition channel_mode_has :: "u64 \<Rightarrow> u64 \<Rightarrow> bool" where
  "channel_mode_has modes m \<longleftrightarrow> modes AND m \<noteq> 0"

definition channel_mode_add :: "u64 \<Rightarrow> u64 \<Rightarrow> u64" where
  "channel_mode_add modes m = modes OR m"

definition channel_mode_remove :: "u64 \<Rightarrow> u64 \<Rightarrow> u64" where
  "channel_mode_remove modes m = modes AND NOT m"

definition channel_privilege_has :: "u32 \<Rightarrow> u32 \<Rightarrow> bool" where
  "channel_privilege_has privileges m \<longleftrightarrow> privileges AND m \<noteq> 0"

text \<open>\<open>None\<close> is the NUL character returned for a member without privileges.\<close>

definition channel_privilege_prefix :: "u32 \<Rightarrow> char option" where
  "channel_privilege_prefix p =
     (if p AND CHANNEL_PRIV_OWNER \<noteq> 0 then Some (CHR ''~'')
      else if p AND CHANNEL_PRIV_PROTECTED \<noteq> 0 then Some (CHR ''&'')
      else if p AND CHANNEL_PRIV_OPERATOR \<noteq> 0 then Some (CHR ''@'')
      else if p AND CHANNEL_PRIV_HALFOP \<noteq> 0 then Some (CHR ''%'')
      else if p AND CHANNEL_PRIV_VOICE \<noteq> 0 then Some (CHR ''+'')
      else None)"

definition append_priv :: "u32 \<Rightarrow> nat \<Rightarrow> u32 \<Rightarrow> char \<Rightarrow> string \<Rightarrow> string" where
  "append_priv p buffer_size b letter buf =
     (if p AND b \<noteq> 0 \<and> length buf + 1 < buffer_size then buf @ [letter] else buf)"

text \<open>The text written to the buffer; the number of characters returned is its length.\<close>

definition channel_privilege_format :: "u32 \<Rightarrow> nat \<Rightarrow> string" where
  "channel_privilege_format p buffer_size =
     (if buffer_size = 0 then []
      else append_priv p buffer_size CHANNEL_PRIV_VOICE (CHR ''v'')
           (append_priv p buffer_size CHANNEL_PRIV_HALFOP (CHR ''h'')
           (append_priv p buffer_size CHANNEL_PRIV_OPERATOR (CHR ''o'')
           (append_priv p buffer_size CHANNEL_PRIV_PROTECTED (CHR ''a'')
           (append_priv p buffer_size CHANNEL_PRIV_OWNER (CHR ''q'') [])))))"

definition channel_privilege_rank :: "u32 \<Rightarrow> nat" where
  "channel_privilege_rank p =
     (if p AND CHANNEL_PRIV_OWNER \<noteq> 0 then 5
      else if p AND CHANNEL_PRIV_PROTECTED \<noteq> 0 then 4
      else if p AND CHANNEL_PRIV_OPERATOR \<noteq> 0 then 3
      else if p AND CHANNEL_PRIV_HALFOP \<noteq> 0 then 2
      else if p AND CHANNEL_PRIV_VOICE \<noteq> 0 then 1
      else 0)"

text \<open>The order in which \<open>PREFIX=(qaohv)~&@%+\<close> advertises the privileges.\<close>

definition advertised_prefixes :: "(char \<times> char) list" where
  "advertised_prefixes = zip ''qaohv'' ''~&@%+''"

subsection \<open>Bits\<close>

lemma mask_bit: "(m AND push_bit n 1 \<noteq> 0) = bit m n" for m :: "'a::len word"
  by (simp add: push_bit_eq_mult and_exp_eq_0_iff_not_bit)

lemma mask_bit0: "(m AND push_bit n 1 = 0) = (\<not> bit m n)" for m :: "'a::len word"
  using mask_bit [of m n] by blast

lemmas mode_ops = client_mode_has_def client_mode_add_def client_mode_remove_def
  channel_mode_has_def channel_mode_add_def channel_mode_remove_def channel_privilege_has_def

lemma bit_push_one: "bit (push_bit k 1 :: 'a::len word) n \<longleftrightarrow> n = k \<and> k < LENGTH('a)"
  by (auto simp: bit_exp_iff possible_bit_word)

definition one_hot :: "'a::len word \<Rightarrow> bool" where
  "one_hot b \<longleftrightarrow> (\<exists>k < LENGTH('a). \<forall>n. bit b n \<longleftrightarrow> n = k)"

lemma one_hot_push: "k < LENGTH('a) \<Longrightarrow> one_hot (push_bit k 1 :: 'a::len word)"
  unfolding one_hot_def using bit_push_one by blast

lemma one_hot_and: "one_hot b \<Longrightarrow> p AND b \<noteq> 0 \<and> bit b n \<longleftrightarrow> bit p n \<and> bit b n"
  unfolding one_hot_def using bit_eq_iff [of "p AND b" 0] by (auto simp: bit_and_iff)

declare bit_or_iff [mode_bits] bit_and_iff [mode_bits] bit_not_iff [mode_bits]

lemma client_mode_and [mode_bits]:
  fixes m :: u64
  shows "m AND CLIENT_MODE_BOT = 0 \<longleftrightarrow> \<not> bit m 0"
    and "m AND CLIENT_MODE_DEAF = 0 \<longleftrightarrow> \<not> bit m 1"
    and "m AND CLIENT_MODE_GLOBALS = 0 \<longleftrightarrow> \<not> bit m 2"
    and "m AND CLIENT_MODE_HIDE_OPER = 0 \<longleftrightarrow> \<not> bit m 3"
    and "m AND CLIENT_MODE_HELPOP = 0 \<longleftrightarrow> \<not> bit m 4"
    and "m AND CLIENT_MODE_HIDE_IDLE = 0 \<longleftrightarrow> \<not> bit m 5"
    and "m AND CLIENT_MODE_INVISIBLE = 0 \<longleftrightarrow> \<not> bit m 6"
    and "m AND CLIENT_MODE_NETADMIN = 0 \<longleftrightarrow> \<not> bit m 7"
    and "m AND CLIENT_MODE_OPER = 0 \<longleftrightarrow> \<not> bit m 8"
    and "m AND CLIENT_MODE_PRIVATE = 0 \<longleftrightarrow> \<not> bit m 9"
    and "m AND CLIENT_MODE_REGONLY_MSG = 0 \<longleftrightarrow> \<not> bit m 10"
    and "m AND CLIENT_MODE_REGISTERED = 0 \<longleftrightarrow> \<not> bit m 11"
    and "m AND CLIENT_MODE_SERVICE = 0 \<longleftrightarrow> \<not> bit m 12"
    and "m AND CLIENT_MODE_SERVER_NOTICES = 0 \<longleftrightarrow> \<not> bit m 13"
    and "m AND CLIENT_MODE_NO_CTCP = 0 \<longleftrightarrow> \<not> bit m 14"
    and "m AND CLIENT_MODE_VHOST = 0 \<longleftrightarrow> \<not> bit m 15"
    and "m AND CLIENT_MODE_WEBIRC = 0 \<longleftrightarrow> \<not> bit m 16"
    and "m AND CLIENT_MODE_WHOIS_NOTICE = 0 \<longleftrightarrow> \<not> bit m 17"
    and "m AND CLIENT_MODE_WALLOPS = 0 \<longleftrightarrow> \<not> bit m 18"
    and "m AND CLIENT_MODE_CLOAKED = 0 \<longleftrightarrow> \<not> bit m 19"
    and "m AND CLIENT_MODE_SECURE = 0 \<longleftrightarrow> \<not> bit m 20"
    and "m AND CLIENT_MODE_PRIVATE_DEAF = 0 \<longleftrightarrow> \<not> bit m 21"
    and "m AND CLIENT_MODE_CHANNEL_MUTE = 0 \<longleftrightarrow> \<not> bit m 22"
  by (simp_all only: client_mode_defs mask_bit0)

lemma client_mode_bit [mode_bits]:
  shows "bit CLIENT_MODE_BOT n \<longleftrightarrow> n = 0"
    and "bit CLIENT_MODE_DEAF n \<longleftrightarrow> n = 1"
    and "bit CLIENT_MODE_GLOBALS n \<longleftrightarrow> n = 2"
    and "bit CLIENT_MODE_HIDE_OPER n \<longleftrightarrow> n = 3"
    and "bit CLIENT_MODE_HELPOP n \<longleftrightarrow> n = 4"
    and "bit CLIENT_MODE_HIDE_IDLE n \<longleftrightarrow> n = 5"
    and "bit CLIENT_MODE_INVISIBLE n \<longleftrightarrow> n = 6"
    and "bit CLIENT_MODE_NETADMIN n \<longleftrightarrow> n = 7"
    and "bit CLIENT_MODE_OPER n \<longleftrightarrow> n = 8"
    and "bit CLIENT_MODE_PRIVATE n \<longleftrightarrow> n = 9"
    and "bit CLIENT_MODE_REGONLY_MSG n \<longleftrightarrow> n = 10"
    and "bit CLIENT_MODE_REGISTERED n \<longleftrightarrow> n = 11"
    and "bit CLIENT_MODE_SERVICE n \<longleftrightarrow> n = 12"
    and "bit CLIENT_MODE_SERVER_NOTICES n \<longleftrightarrow> n = 13"
    and "bit CLIENT_MODE_NO_CTCP n \<longleftrightarrow> n = 14"
    and "bit CLIENT_MODE_VHOST n \<longleftrightarrow> n = 15"
    and "bit CLIENT_MODE_WEBIRC n \<longleftrightarrow> n = 16"
    and "bit CLIENT_MODE_WHOIS_NOTICE n \<longleftrightarrow> n = 17"
    and "bit CLIENT_MODE_WALLOPS n \<longleftrightarrow> n = 18"
    and "bit CLIENT_MODE_CLOAKED n \<longleftrightarrow> n = 19"
    and "bit CLIENT_MODE_SECURE n \<longleftrightarrow> n = 20"
    and "bit CLIENT_MODE_PRIVATE_DEAF n \<longleftrightarrow> n = 21"
    and "bit CLIENT_MODE_CHANNEL_MUTE n \<longleftrightarrow> n = 22"
  unfolding client_mode_defs bit_push_one by simp_all

lemma channel_mode_and [mode_bits]:
  fixes m :: u64
  shows "m AND CHANNEL_MODE_ADMIN_ONLY = 0 \<longleftrightarrow> \<not> bit m 0"
    and "m AND CHANNEL_MODE_NO_COLOR = 0 \<longleftrightarrow> \<not> bit m 1"
    and "m AND CHANNEL_MODE_INVITE_ONLY = 0 \<longleftrightarrow> \<not> bit m 2"
    and "m AND CHANNEL_MODE_NO_KNOCK = 0 \<longleftrightarrow> \<not> bit m 3"
    and "m AND CHANNEL_MODE_REGONLY_SPEAK = 0 \<longleftrightarrow> \<not> bit m 4"
    and "m AND CHANNEL_MODE_MODERATED = 0 \<longleftrightarrow> \<not> bit m 5"
    and "m AND CHANNEL_MODE_NO_EXTERNAL = 0 \<longleftrightarrow> \<not> bit m 6"
    and "m AND CHANNEL_MODE_OPER_ONLY = 0 \<longleftrightarrow> \<not> bit m 7"
    and "m AND CHANNEL_MODE_PRIVATE = 0 \<longleftrightarrow> \<not> bit m 8"
    and "m AND CHANNEL_MODE_REGISTERED = 0 \<longleftrightarrow> \<not> bit m 9"
    and "m AND CHANNEL_MODE_REGONLY_JOIN = 0 \<longleftrightarrow> \<not> bit m 10"
    and "m AND CHANNEL_MODE_STRIP_COLOR = 0 \<longleftrightarrow> \<not> bit m 11"
    and "m AND CHANNEL_MODE_SECRET = 0 \<longleftrightarrow> \<not> bit m 12"
    and "m AND CHANNEL_MODE_TOPIC_LOCK = 0 \<longleftrightarrow> \<not> bit m 13"
    and "m AND CHANNEL_MODE_NO_NOTICE = 0 \<longleftrightarrow> \<not> bit m 14"
    and "m AND CHANNEL_MODE_NO_INVITE = 0 \<longleftrightarrow> \<not> bit m 15"
    and "m AND CHANNEL_MODE_SECURE_ONLY = 0 \<longleftrightarrow> \<not> bit m 16"
  by (simp_all only: channel_mode_defs mask_bit0)

lemma channel_mode_bit [mode_bits]:
  shows "bit CHANNEL_MODE_ADMIN_ONLY n \<longleftrightarrow> n = 0"
    and "bit CHANNEL_MODE_NO_COLOR n \<longleftrightarrow> n = 1"
    and "bit CHANNEL_MODE_INVITE_ONLY n \<longleftrightarrow> n = 2"
    and "bit CHANNEL_MODE_NO_KNOCK n \<longleftrightarrow> n = 3"
    and "bit CHANNEL_MODE_REGONLY_SPEAK n \<longleftrightarrow> n = 4"
    and "bit CHANNEL_MODE_MODERATED n \<longleftrightarrow> n = 5"
    and "bit CHANNEL_MODE_NO_EXTERNAL n \<longleftrightarrow> n = 6"
    and "bit CHANNEL_MODE_OPER_ONLY n \<longleftrightarrow> n = 7"
    and "bit CHANNEL_MODE_PRIVATE n \<longleftrightarrow> n = 8"
    and "bit CHANNEL_MODE_REGISTERED n \<longleftrightarrow> n = 9"
    and "bit CHANNEL_MODE_REGONLY_JOIN n \<longleftrightarrow> n = 10"
    and "bit CHANNEL_MODE_STRIP_COLOR n \<longleftrightarrow> n = 11"
    and "bit CHANNEL_MODE_SECRET n \<longleftrightarrow> n = 12"
    and "bit CHANNEL_MODE_TOPIC_LOCK n \<longleftrightarrow> n = 13"
    and "bit CHANNEL_MODE_NO_NOTICE n \<longleftrightarrow> n = 14"
    and "bit CHANNEL_MODE_NO_INVITE n \<longleftrightarrow> n = 15"
    and "bit CHANNEL_MODE_SECURE_ONLY n \<longleftrightarrow> n = 16"
  unfolding channel_mode_defs bit_push_one by simp_all

lemma privilege_and [mode_bits]:
  fixes m :: u32
  shows "m AND CHANNEL_PRIV_VOICE = 0 \<longleftrightarrow> \<not> bit m 0"
    and "m AND CHANNEL_PRIV_HALFOP = 0 \<longleftrightarrow> \<not> bit m 1"
    and "m AND CHANNEL_PRIV_OPERATOR = 0 \<longleftrightarrow> \<not> bit m 2"
    and "m AND CHANNEL_PRIV_OWNER = 0 \<longleftrightarrow> \<not> bit m 3"
    and "m AND CHANNEL_PRIV_PROTECTED = 0 \<longleftrightarrow> \<not> bit m 4"
  by (simp_all only: privilege_defs mask_bit0)

lemma privilege_bit [mode_bits]:
  shows "bit CHANNEL_PRIV_VOICE n \<longleftrightarrow> n = 0"
    and "bit CHANNEL_PRIV_HALFOP n \<longleftrightarrow> n = 1"
    and "bit CHANNEL_PRIV_OPERATOR n \<longleftrightarrow> n = 2"
    and "bit CHANNEL_PRIV_OWNER n \<longleftrightarrow> n = 3"
    and "bit CHANNEL_PRIV_PROTECTED n \<longleftrightarrow> n = 4"
  unfolding privilege_defs bit_push_one by simp_all

text \<open>Ranks as privilege bits.\<close>

lemma rank_ge_operator:
  "3 \<le> channel_privilege_rank p \<longleftrightarrow>
     p AND CHANNEL_PRIV_OWNER \<noteq> 0 \<or> p AND CHANNEL_PRIV_PROTECTED \<noteq> 0 \<or> p AND CHANNEL_PRIV_OPERATOR \<noteq> 0"
  by (simp add: channel_privilege_rank_def)

lemma rank_le_5: "channel_privilege_rank p \<le> 5"
  by (simp add: channel_privilege_rank_def)

lemma and_or_ne_0: "(a OR b) AND c \<noteq> 0 \<longleftrightarrow> a AND c \<noteq> 0 \<or> b AND c \<noteq> (0 :: 'a::len word)"
  by (simp add: bit.conj_disj_distrib2 or_eq_0_iff)

lemma rank_mono: "channel_privilege_rank p \<le> channel_privilege_rank (p OR q)"
  by (auto simp: channel_privilege_rank_def and_or_ne_0)

lemma append_priv_take:
  "append_priv p (Suc m) b l (take m x) = take m (x @ (if p AND b \<noteq> 0 then [l] else []))"
  by (auto simp: append_priv_def min_def)

subsection \<open>Properties\<close>

text \<open>
  The three presentations of a privilege set agree.  The rank indexes the advertised
  prefix list from the bottom, the prefix is the symbol of the first letter that
  \<open>channel_privilege_format\<close> writes, and the letters are exactly the held privileges in the
  advertised order, with as many as fit the buffer.
\<close>

theorem privilege_presentation:
  "channel_privilege_format p n =
     take (n - 1) (filter (\<lambda>l. (CHR ''q'' = l \<and> bit p 3) \<or> (CHR ''a'' = l \<and> bit p 4) \<or>
       (CHR ''o'' = l \<and> bit p 2) \<or> (CHR ''h'' = l \<and> bit p 1) \<or> (CHR ''v'' = l \<and> bit p 0))
       (map fst advertised_prefixes)) \<and>
   channel_privilege_prefix p =
     (if channel_privilege_rank p = 0 then None
      else Some (snd (rev advertised_prefixes ! (channel_privilege_rank p - 1)))) \<and>
   channel_privilege_prefix p =
     (case channel_privilege_format p 6 of [] \<Rightarrow> None | l # _ \<Rightarrow> map_of advertised_prefixes l)"
proof -
  let ?letters = "filter (\<lambda>l. (CHR ''q'' = l \<and> bit p 3) \<or> (CHR ''a'' = l \<and> bit p 4) \<or>
       (CHR ''o'' = l \<and> bit p 2) \<or> (CHR ''h'' = l \<and> bit p 1) \<or> (CHR ''v'' = l \<and> bit p 0))
       (map fst advertised_prefixes)"
  have letters: "?letters = (if bit p 3 then ''q'' else []) @ (if bit p 4 then ''a'' else []) @
      (if bit p 2 then ''o'' else []) @ (if bit p 1 then ''h'' else []) @ (if bit p 0 then ''v'' else [])"
    by (simp add: advertised_prefixes_def)
  have fmt: "channel_privilege_format p n = take (n - 1) ?letters" for n
  proof (cases n)
    case (Suc m)
    have "channel_privilege_format p (Suc m) =
        append_priv p (Suc m) CHANNEL_PRIV_VOICE (CHR ''v'')
          (append_priv p (Suc m) CHANNEL_PRIV_HALFOP (CHR ''h'')
          (append_priv p (Suc m) CHANNEL_PRIV_OPERATOR (CHR ''o'')
          (append_priv p (Suc m) CHANNEL_PRIV_PROTECTED (CHR ''a'')
          (append_priv p (Suc m) CHANNEL_PRIV_OWNER (CHR ''q'') (take m [])))))"
      by (simp add: channel_privilege_format_def)
    also have "\<dots> = take m ?letters"
      unfolding append_priv_take letters mode_bits by (simp only: append_Nil append_assoc not_not)
    finally show ?thesis using Suc by simp
  qed (simp add: channel_privilege_format_def)
  have pref: "channel_privilege_prefix p =
     (if channel_privilege_rank p = 0 then None
      else Some (snd (rev advertised_prefixes ! (channel_privilege_rank p - 1))))"
    by (simp add: channel_privilege_prefix_def channel_privilege_rank_def advertised_prefixes_def)
  have "channel_privilege_prefix p = (case ?letters of [] \<Rightarrow> None | l # _ \<Rightarrow> map_of advertised_prefixes l)"
    unfolding letters by (simp add: channel_privilege_prefix_def mode_bits advertised_prefixes_def)
  moreover have "take (6 - 1) ?letters = ?letters"
    unfolding letters by simp
  ultimately show ?thesis
    using fmt pref by simp
qed

end
