(* ===== verification/Oper.thy ===== *)
theory Oper
  imports Modes
begin

section \<open>Operator permissions and server-notice masks (include/oper.h, src/oper.c)\<close>

text \<open>
  The permission bits of an operator, their textual form in the operator database and the
  letters of the server-notice categories.  \<open>oper_permissions_parse\<close> returns \<open>None\<close> where
  the code returns -1.  The two formatters return the buffer; the count the C functions
  return is its length, except when \<open>oper_permissions_format\<close> stops at an entry that does
  not fit, where the buffer also holds the truncated entry.
\<close>

subsection \<open>Permissions\<close>

definition OPER_PERMISSION_REHASH :: u64 where
  "OPER_PERMISSION_REHASH = push_bit 0 1"

definition OPER_PERMISSION_DIE :: u64 where
  "OPER_PERMISSION_DIE = push_bit 1 1"

definition OPER_PERMISSION_RESTART :: u64 where
  "OPER_PERMISSION_RESTART = push_bit 2 1"

definition OPER_PERMISSION_WALLOPS :: u64 where
  "OPER_PERMISSION_WALLOPS = push_bit 3 1"

definition OPER_PERMISSION_KILL :: u64 where
  "OPER_PERMISSION_KILL = push_bit 4 1"

definition OPER_PERMISSION_KLINE :: u64 where
  "OPER_PERMISSION_KLINE = push_bit 5 1"

definition OPER_PERMISSION_UNKLINE :: u64 where
  "OPER_PERMISSION_UNKLINE = push_bit 6 1"

definition OPER_PERMISSION_ZLINE :: u64 where
  "OPER_PERMISSION_ZLINE = push_bit 7 1"

definition OPER_PERMISSION_OVERRIDE :: u64 where
  "OPER_PERMISSION_OVERRIDE = push_bit 8 1"

definition OPER_PERMISSION_GETHOST :: u64 where
  "OPER_PERMISSION_GETHOST = push_bit 9 1"

definition OPER_PERMISSION_HELPOP :: u64 where
  "OPER_PERMISSION_HELPOP = push_bit 10 1"

definition OPER_PERMISSION_NETADMIN :: u64 where
  "OPER_PERMISSION_NETADMIN = push_bit 11 1"

definition OPER_PERMISSION_GEOBAN :: u64 where
  "OPER_PERMISSION_GEOBAN = push_bit 12 1"

definition OPER_PERMISSION_ELINE :: u64 where
  "OPER_PERMISSION_ELINE = push_bit 13 1"

definition OPER_PERMISSION_STATS :: u64 where
  "OPER_PERMISSION_STATS = push_bit 14 1"

definition OPER_PERMISSION_ALL :: u64 where
  "OPER_PERMISSION_ALL =
     OPER_PERMISSION_REHASH OR
     OPER_PERMISSION_DIE OR
     OPER_PERMISSION_RESTART OR
     OPER_PERMISSION_WALLOPS OR
     OPER_PERMISSION_KILL OR
     OPER_PERMISSION_KLINE OR
     OPER_PERMISSION_UNKLINE OR
     OPER_PERMISSION_ZLINE OR
     OPER_PERMISSION_OVERRIDE OR
     OPER_PERMISSION_GETHOST OR
     OPER_PERMISSION_HELPOP OR
     OPER_PERMISSION_NETADMIN OR
     OPER_PERMISSION_GEOBAN OR
     OPER_PERMISSION_ELINE OR
     OPER_PERMISSION_STATS"

definition permission_names :: "(string \<times> u64) list" where
  "permission_names =
     [(''can_rehash'', OPER_PERMISSION_REHASH),
      (''can_die'', OPER_PERMISSION_DIE),
      (''can_restart'', OPER_PERMISSION_RESTART),
      (''helpop'', OPER_PERMISSION_HELPOP),
      (''can_wallops'', OPER_PERMISSION_WALLOPS),
      (''can_kill'', OPER_PERMISSION_KILL),
      (''can_kline'', OPER_PERMISSION_KLINE),
      (''can_unkline'', OPER_PERMISSION_UNKLINE),
      (''can_zline'', OPER_PERMISSION_ZLINE),
      (''can_eline'', OPER_PERMISSION_ELINE),
      (''can_geoban'', OPER_PERMISSION_GEOBAN),
      (''can_stats'', OPER_PERMISSION_STATS),
      (''get_host'', OPER_PERMISSION_GETHOST),
      (''can_override'', OPER_PERMISSION_OVERRIDE),
      (''netadmin'', OPER_PERMISSION_NETADMIN)]"

definition oper_permission_has :: "u64 \<Rightarrow> u64 \<Rightarrow> bool" where
  "oper_permission_has permissions m \<longleftrightarrow> permissions AND m \<noteq> 0"

definition lookup_permission :: "string \<Rightarrow> u64 option" where
  "lookup_permission name = map_of permission_names name"

fun parse_permission_tokens :: "string list \<Rightarrow> u64 \<Rightarrow> u64 option" where
  "parse_permission_tokens [] result = Some result"
| "parse_permission_tokens (token # ts) result =
     (let name = dropWhile (\<lambda>c. c = CHR '' '' \<or> c = CHR 0x09) token
      in if name = ''oper'' then parse_permission_tokens ts result
         else case lookup_permission name of
                None \<Rightarrow> None
              | Some b \<Rightarrow> parse_permission_tokens ts (result OR b))"

definition oper_permissions_parse :: "string \<Rightarrow> u64 option" where
  "oper_permissions_parse text =
     (if text = [] then Some 0
      else if length text \<ge> 512 then None
      else parse_permission_tokens (tokens '','' text) 0)"

fun format_permissions :: "(string \<times> u64) list \<Rightarrow> u64 \<Rightarrow> nat \<Rightarrow> string \<Rightarrow> string" where
  "format_permissions [] p sz buf = buf"
| "format_permissions ((name, b) # ns) p sz buf =
     (if p AND b = 0 then format_permissions ns p sz buf
      else let piece = (if buf \<noteq> [] then '','' else []) @ name
           in if length piece \<ge> sz - length buf then buf @ take (sz - length buf - 1) piece
              else format_permissions ns p sz (buf @ piece))"

definition oper_permissions_format :: "u64 \<Rightarrow> nat \<Rightarrow> string" where
  "oper_permissions_format p sz =
     (if sz = 0 then [] else format_permissions permission_names p sz [])"

subsection \<open>Server-notice categories\<close>

definition SNOTICE_CONNECTIONS :: u32 where
  "SNOTICE_CONNECTIONS = push_bit 0 1"

definition SNOTICE_OPERATORS :: u32 where
  "SNOTICE_OPERATORS = push_bit 1 1"

definition SNOTICE_KILLS :: u32 where
  "SNOTICE_KILLS = push_bit 2 1"

definition SNOTICE_BANS :: u32 where
  "SNOTICE_BANS = push_bit 3 1"

definition SNOTICE_GEOBANS :: u32 where
  "SNOTICE_GEOBANS = push_bit 4 1"

definition SNOTICE_WEBIRC :: u32 where
  "SNOTICE_WEBIRC = push_bit 5 1"

definition SNOTICE_DNS :: u32 where
  "SNOTICE_DNS = push_bit 6 1"

definition SNOTICE_SECURITY :: u32 where
  "SNOTICE_SECURITY = push_bit 7 1"

definition SNOTICE_ADMIN :: u32 where
  "SNOTICE_ADMIN = push_bit 8 1"

definition SNOTICE_SERVICES :: u32 where
  "SNOTICE_SERVICES = push_bit 9 1"

definition SNOTICE_REGISTRATIONS :: u32 where
  "SNOTICE_REGISTRATIONS = push_bit 10 1"

definition SNOTICE_IDENTITY :: u32 where
  "SNOTICE_IDENTITY = push_bit 11 1"

definition SNOTICE_MODERATION :: u32 where
  "SNOTICE_MODERATION = push_bit 12 1"

definition SNOTICE_FLOOD :: u32 where
  "SNOTICE_FLOOD = push_bit 13 1"

definition SNOTICE_ALL :: u32 where
  "SNOTICE_ALL =
     SNOTICE_CONNECTIONS OR
     SNOTICE_OPERATORS OR
     SNOTICE_KILLS OR
     SNOTICE_BANS OR
     SNOTICE_GEOBANS OR
     SNOTICE_WEBIRC OR
     SNOTICE_DNS OR
     SNOTICE_SECURITY OR
     SNOTICE_ADMIN OR
     SNOTICE_SERVICES OR
     SNOTICE_REGISTRATIONS OR
     SNOTICE_IDENTITY OR
     SNOTICE_MODERATION OR
     SNOTICE_FLOOD"

definition snotice_mask_for_letter :: "char \<Rightarrow> u32" where
  "snotice_mask_for_letter letter =
     (if letter = CHR ''c'' then SNOTICE_CONNECTIONS
      else if letter = CHR ''o'' then SNOTICE_OPERATORS
      else if letter = CHR ''k'' then SNOTICE_KILLS
      else if letter = CHR ''b'' then SNOTICE_BANS
      else if letter = CHR ''g'' then SNOTICE_GEOBANS
      else if letter = CHR ''w'' then SNOTICE_WEBIRC
      else if letter = CHR ''d'' then SNOTICE_DNS
      else if letter = CHR ''s'' then SNOTICE_SECURITY
      else if letter = CHR ''a'' then SNOTICE_ADMIN
      else if letter = CHR ''v'' then SNOTICE_SERVICES
      else if letter = CHR ''r'' then SNOTICE_REGISTRATIONS
      else if letter = CHR ''x'' then SNOTICE_IDENTITY
      else if letter = CHR ''m'' then SNOTICE_MODERATION
      else if letter = CHR ''f'' then SNOTICE_FLOOD
      else 0)"

fun format_letters :: "string \<Rightarrow> u32 \<Rightarrow> nat \<Rightarrow> string \<Rightarrow> string" where
  "format_letters [] m sz buf = buf"
| "format_letters (l # ls) m sz buf =
     (if length buf + 1 < sz
      then format_letters ls m sz (if m AND snotice_mask_for_letter l \<noteq> 0 then buf @ [l] else buf)
      else buf)"

definition snotice_mask_format :: "u32 \<Rightarrow> nat \<Rightarrow> string" where
  "snotice_mask_format m sz =
     (if sz = 0 then [] else format_letters ''cokbgwdsavrxmf'' m sz [])"

lemmas oper_permission_defs =
  OPER_PERMISSION_REHASH_def OPER_PERMISSION_DIE_def OPER_PERMISSION_RESTART_def
  OPER_PERMISSION_WALLOPS_def OPER_PERMISSION_KILL_def OPER_PERMISSION_KLINE_def
  OPER_PERMISSION_UNKLINE_def OPER_PERMISSION_ZLINE_def OPER_PERMISSION_OVERRIDE_def
  OPER_PERMISSION_GETHOST_def OPER_PERMISSION_HELPOP_def OPER_PERMISSION_NETADMIN_def
  OPER_PERMISSION_GEOBAN_def OPER_PERMISSION_ELINE_def OPER_PERMISSION_STATS_def

lemmas snotice_defs =
  SNOTICE_CONNECTIONS_def SNOTICE_OPERATORS_def SNOTICE_KILLS_def SNOTICE_BANS_def
  SNOTICE_GEOBANS_def SNOTICE_WEBIRC_def SNOTICE_DNS_def SNOTICE_SECURITY_def
  SNOTICE_ADMIN_def SNOTICE_SERVICES_def SNOTICE_REGISTRATIONS_def SNOTICE_IDENTITY_def
  SNOTICE_MODERATION_def SNOTICE_FLOOD_def

lemma oper_permission_and [mode_bits]:
  fixes m :: u64
  shows "m AND OPER_PERMISSION_REHASH = 0 \<longleftrightarrow> \<not> bit m 0"
    and "m AND OPER_PERMISSION_DIE = 0 \<longleftrightarrow> \<not> bit m 1"
    and "m AND OPER_PERMISSION_RESTART = 0 \<longleftrightarrow> \<not> bit m 2"
    and "m AND OPER_PERMISSION_WALLOPS = 0 \<longleftrightarrow> \<not> bit m 3"
    and "m AND OPER_PERMISSION_KILL = 0 \<longleftrightarrow> \<not> bit m 4"
    and "m AND OPER_PERMISSION_KLINE = 0 \<longleftrightarrow> \<not> bit m 5"
    and "m AND OPER_PERMISSION_UNKLINE = 0 \<longleftrightarrow> \<not> bit m 6"
    and "m AND OPER_PERMISSION_ZLINE = 0 \<longleftrightarrow> \<not> bit m 7"
    and "m AND OPER_PERMISSION_OVERRIDE = 0 \<longleftrightarrow> \<not> bit m 8"
    and "m AND OPER_PERMISSION_GETHOST = 0 \<longleftrightarrow> \<not> bit m 9"
    and "m AND OPER_PERMISSION_HELPOP = 0 \<longleftrightarrow> \<not> bit m 10"
    and "m AND OPER_PERMISSION_NETADMIN = 0 \<longleftrightarrow> \<not> bit m 11"
    and "m AND OPER_PERMISSION_GEOBAN = 0 \<longleftrightarrow> \<not> bit m 12"
    and "m AND OPER_PERMISSION_ELINE = 0 \<longleftrightarrow> \<not> bit m 13"
    and "m AND OPER_PERMISSION_STATS = 0 \<longleftrightarrow> \<not> bit m 14"
  by (simp_all only: oper_permission_defs mask_bit0)

lemma oper_permission_bit [mode_bits]:
  shows "bit OPER_PERMISSION_REHASH n \<longleftrightarrow> n = 0"
    and "bit OPER_PERMISSION_DIE n \<longleftrightarrow> n = 1"
    and "bit OPER_PERMISSION_RESTART n \<longleftrightarrow> n = 2"
    and "bit OPER_PERMISSION_WALLOPS n \<longleftrightarrow> n = 3"
    and "bit OPER_PERMISSION_KILL n \<longleftrightarrow> n = 4"
    and "bit OPER_PERMISSION_KLINE n \<longleftrightarrow> n = 5"
    and "bit OPER_PERMISSION_UNKLINE n \<longleftrightarrow> n = 6"
    and "bit OPER_PERMISSION_ZLINE n \<longleftrightarrow> n = 7"
    and "bit OPER_PERMISSION_OVERRIDE n \<longleftrightarrow> n = 8"
    and "bit OPER_PERMISSION_GETHOST n \<longleftrightarrow> n = 9"
    and "bit OPER_PERMISSION_HELPOP n \<longleftrightarrow> n = 10"
    and "bit OPER_PERMISSION_NETADMIN n \<longleftrightarrow> n = 11"
    and "bit OPER_PERMISSION_GEOBAN n \<longleftrightarrow> n = 12"
    and "bit OPER_PERMISSION_ELINE n \<longleftrightarrow> n = 13"
    and "bit OPER_PERMISSION_STATS n \<longleftrightarrow> n = 14"
  unfolding oper_permission_defs bit_push_one by simp_all

lemma snotice_and [mode_bits]:
  fixes m :: u32
  shows "m AND SNOTICE_CONNECTIONS = 0 \<longleftrightarrow> \<not> bit m 0"
    and "m AND SNOTICE_OPERATORS = 0 \<longleftrightarrow> \<not> bit m 1"
    and "m AND SNOTICE_KILLS = 0 \<longleftrightarrow> \<not> bit m 2"
    and "m AND SNOTICE_BANS = 0 \<longleftrightarrow> \<not> bit m 3"
    and "m AND SNOTICE_GEOBANS = 0 \<longleftrightarrow> \<not> bit m 4"
    and "m AND SNOTICE_WEBIRC = 0 \<longleftrightarrow> \<not> bit m 5"
    and "m AND SNOTICE_DNS = 0 \<longleftrightarrow> \<not> bit m 6"
    and "m AND SNOTICE_SECURITY = 0 \<longleftrightarrow> \<not> bit m 7"
    and "m AND SNOTICE_ADMIN = 0 \<longleftrightarrow> \<not> bit m 8"
    and "m AND SNOTICE_SERVICES = 0 \<longleftrightarrow> \<not> bit m 9"
    and "m AND SNOTICE_REGISTRATIONS = 0 \<longleftrightarrow> \<not> bit m 10"
    and "m AND SNOTICE_IDENTITY = 0 \<longleftrightarrow> \<not> bit m 11"
    and "m AND SNOTICE_MODERATION = 0 \<longleftrightarrow> \<not> bit m 12"
    and "m AND SNOTICE_FLOOD = 0 \<longleftrightarrow> \<not> bit m 13"
  by (simp_all only: snotice_defs mask_bit0)

lemma snotice_bit [mode_bits]:
  shows "bit SNOTICE_CONNECTIONS n \<longleftrightarrow> n = 0"
    and "bit SNOTICE_OPERATORS n \<longleftrightarrow> n = 1"
    and "bit SNOTICE_KILLS n \<longleftrightarrow> n = 2"
    and "bit SNOTICE_BANS n \<longleftrightarrow> n = 3"
    and "bit SNOTICE_GEOBANS n \<longleftrightarrow> n = 4"
    and "bit SNOTICE_WEBIRC n \<longleftrightarrow> n = 5"
    and "bit SNOTICE_DNS n \<longleftrightarrow> n = 6"
    and "bit SNOTICE_SECURITY n \<longleftrightarrow> n = 7"
    and "bit SNOTICE_ADMIN n \<longleftrightarrow> n = 8"
    and "bit SNOTICE_SERVICES n \<longleftrightarrow> n = 9"
    and "bit SNOTICE_REGISTRATIONS n \<longleftrightarrow> n = 10"
    and "bit SNOTICE_IDENTITY n \<longleftrightarrow> n = 11"
    and "bit SNOTICE_MODERATION n \<longleftrightarrow> n = 12"
    and "bit SNOTICE_FLOOD n \<longleftrightarrow> n = 13"
  unfolding snotice_defs bit_push_one by simp_all

lemma oper_permission_one_hot:
  shows "one_hot OPER_PERMISSION_REHASH"
    and "one_hot OPER_PERMISSION_DIE"
    and "one_hot OPER_PERMISSION_RESTART"
    and "one_hot OPER_PERMISSION_WALLOPS"
    and "one_hot OPER_PERMISSION_KILL"
    and "one_hot OPER_PERMISSION_KLINE"
    and "one_hot OPER_PERMISSION_UNKLINE"
    and "one_hot OPER_PERMISSION_ZLINE"
    and "one_hot OPER_PERMISSION_OVERRIDE"
    and "one_hot OPER_PERMISSION_GETHOST"
    and "one_hot OPER_PERMISSION_HELPOP"
    and "one_hot OPER_PERMISSION_NETADMIN"
    and "one_hot OPER_PERMISSION_GEOBAN"
    and "one_hot OPER_PERMISSION_ELINE"
    and "one_hot OPER_PERMISSION_STATS"
  unfolding oper_permission_defs by ((rule one_hot_push, simp)+)

lemma snotice_one_hot:
  shows "one_hot SNOTICE_CONNECTIONS"
    and "one_hot SNOTICE_OPERATORS"
    and "one_hot SNOTICE_KILLS"
    and "one_hot SNOTICE_BANS"
    and "one_hot SNOTICE_GEOBANS"
    and "one_hot SNOTICE_WEBIRC"
    and "one_hot SNOTICE_DNS"
    and "one_hot SNOTICE_SECURITY"
    and "one_hot SNOTICE_ADMIN"
    and "one_hot SNOTICE_SERVICES"
    and "one_hot SNOTICE_REGISTRATIONS"
    and "one_hot SNOTICE_IDENTITY"
    and "one_hot SNOTICE_MODERATION"
    and "one_hot SNOTICE_FLOOD"
  unfolding snotice_defs by ((rule one_hot_push, simp)+)

subsection \<open>The textual form\<close>

text \<open>The permissions that \<open>oper_permissions_format\<close> writes, in table order.\<close>

definition held_permissions :: "u64 \<Rightarrow> (string \<times> u64) list \<Rightarrow> (string \<times> u64) list" where
  "held_permissions p ns = filter (\<lambda>e. p AND snd e \<noteq> 0) ns"

lemma format_permissions_join:
  assumes "sum_list (map (\<lambda>e. Suc (length (fst e))) ns) + length (join (CHR '','') done) < sz"
    and "\<forall>x\<in>set done. x \<noteq> []" and "\<forall>e\<in>set ns. fst e \<noteq> []"
  shows "format_permissions ns p sz (join (CHR '','') done) =
         join (CHR '','') (done @ map fst (held_permissions p ns))"
  using assms
proof (induction ns arbitrary: "done")
  case Nil
  then show ?case by (simp add: held_permissions_def)
next
  case (Cons e ns)
  obtain n b where e: "e = (n, b)" by fastforce
  have j: "join (CHR '','') (done @ [n]) =
      join (CHR '','') done @ (if join (CHR '','') done \<noteq> [] then '','' else []) @ n"
    using Cons.prems(2) by (cases "done = []") (simp_all add: join_snoc join_Nil_iff)
  have len: "length (join (CHR '','') (done @ [n])) \<le> length (join (CHR '','') done) + Suc (length n)"
    unfolding j by simp
  show ?case
  proof (cases "p AND b = 0")
    case True
    then show ?thesis
      using Cons.IH [of "done"] Cons.prems by (simp add: e held_permissions_def)
  next
    case False
    have "format_permissions ns p sz (join (CHR '','') (done @ [n])) =
        join (CHR '','') ((done @ [n]) @ map fst (held_permissions p ns))"
      using Cons.prems len by (intro Cons.IH) (auto simp: e)
    then show ?thesis
      using False Cons.prems by (auto simp: e held_permissions_def j Let_def)
  qed
qed

lemma parse_permission_tokens_held:
  assumes "\<forall>e\<in>set es. lookup_permission (fst e) = Some (snd e) \<and> fst e \<noteq> ''oper'' \<and>
             dropWhile (\<lambda>c. c = CHR '' '' \<or> c = CHR 0x09) (fst e) = fst e"
  shows "parse_permission_tokens (map fst es) r = Some (foldl (OR) r (map snd es))"
  using assms by (induction es arbitrary: r) (auto simp: Let_def)

lemma bit_foldl_or: "bit (foldl (OR) r bs) n \<longleftrightarrow> bit r n \<or> (\<exists>b\<in>set bs. bit b n)" for r :: "'a::len word"
  by (induction bs arbitrary: r) (auto simp: bit_or_iff)

lemma permission_names_ok:
  "\<forall>e\<in>set permission_names. lookup_permission (fst e) = Some (snd e) \<and> fst e \<noteq> ''oper'' \<and>
     dropWhile (\<lambda>c. c = CHR '' '' \<or> c = CHR 0x09) (fst e) = fst e"
  "\<forall>e\<in>set permission_names. fst e \<noteq> [] \<and> CHR '','' \<notin> set (fst e)"
  by (simp_all add: permission_names_def lookup_permission_def)

lemma foldl_held_permissions:
  "foldl (OR) 0 (map snd (held_permissions p permission_names)) = p AND OPER_PERMISSION_ALL"
proof (rule bit_eqI)
  fix n
  have hot: "p AND snd e \<noteq> 0 \<and> bit (snd e) n \<longleftrightarrow> bit p n \<and> bit (snd e) n"
    if "e \<in> set permission_names" for e
  proof -
    have "\<forall>e\<in>set permission_names. one_hot (snd e)"
      by (simp add: permission_names_def oper_permission_one_hot)
    then show ?thesis
      using one_hot_and that by blast
  qed
  have "bit OPER_PERMISSION_ALL n \<longleftrightarrow> (\<exists>e\<in>set permission_names. bit (snd e) n)"
    by (simp add: permission_names_def OPER_PERMISSION_ALL_def mode_bits) blast
  moreover have "bit (foldl (OR) 0 (map snd (held_permissions p permission_names))) n \<longleftrightarrow>
      (\<exists>e\<in>set permission_names. p AND snd e \<noteq> 0 \<and> bit (snd e) n)"
    unfolding bit_foldl_or held_permissions_def by force
  ultimately show "bit (foldl (OR) 0 (map snd (held_permissions p permission_names))) n =
      bit (p AND OPER_PERMISSION_ALL) n"
    using hot unfolding bit_and_iff by blast
qed

subsection \<open>Properties\<close>

text \<open>
  Permissions survive the operator database.  Formatting a permission set into a field of
  \<open>IRCD_OPER_FLAGS_MAX + 1\<close> bytes and parsing the text again gives the set back, restricted
  to the permissions that exist.
\<close>

theorem oper_permissions_roundtrip:
  "oper_permissions_parse (oper_permissions_format p 256) = Some (p AND OPER_PERMISSION_ALL)"
proof -
  let ?es = "held_permissions p permission_names"
  have sub: "set ?es \<subseteq> set permission_names"
    by (auto simp: held_permissions_def)
  have "sum_list (map (\<lambda>e. Suc (length (fst e))) permission_names) < 256"
    by (simp add: permission_names_def)
  then have fmt: "oper_permissions_format p 256 = join (CHR '','') (map fst ?es)"
    using format_permissions_join [of permission_names "[]" 256 p] permission_names_ok(2)
    by (simp add: oper_permissions_format_def)
  have toks: "tokens '','' (join (CHR '','') (map fst ?es)) = map fst ?es"
    using sub permission_names_ok(2) by (intro tokens_join) auto
  have "length (join (CHR '','') (map fst ?es)) \<le> sum_list (map (\<lambda>x. Suc (length x)) (map fst ?es))"
    by (rule length_join)
  also have "\<dots> \<le> sum_list (map (\<lambda>e. Suc (length (fst e))) permission_names)"
    by (simp add: held_permissions_def o_def sum_list_filter_le_nat)
  also have "\<dots> < 512"
    by (simp add: permission_names_def)
  finally have short: "\<not> length (join (CHR '','') (map fst ?es)) \<ge> 512" by simp
  have parse: "parse_permission_tokens (map fst ?es) 0 = Some (p AND OPER_PERMISSION_ALL)"
    using parse_permission_tokens_held [of ?es 0] sub permission_names_ok(1) foldl_held_permissions
    by auto
  show ?thesis
  proof (cases "join (CHR '','') (map fst ?es) = []")
    case True
    then have "?es = []"
      using join_Nil_iff [of "map fst ?es"] sub permission_names_ok(2) by auto
    then show ?thesis
      using fmt parse by (simp add: oper_permissions_parse_def)
  next
    case False
    then show ?thesis
      using fmt toks short parse by (simp add: oper_permissions_parse_def)
  qed
qed

text \<open>
  The letters of the server-notice mask round-trip.  Reading back each letter that
  \<open>snotice_mask_format\<close> writes into a buffer that is large enough gives the mask again,
  restricted to the categories that exist.
\<close>

theorem snotice_mask_roundtrip:
  "foldl (\<lambda>m l. m OR snotice_mask_for_letter l) 0 (snotice_mask_format m 15) = m AND SNOTICE_ALL"
proof -
  have fmt: "format_letters ls m sz buf = buf @ filter (\<lambda>l. m AND snotice_mask_for_letter l \<noteq> 0) ls"
    if "length buf + length ls < sz" for ls sz buf
    using that by (induction ls arbitrary: buf) auto
  have fold: "foldl (\<lambda>m l. m OR snotice_mask_for_letter l) r ls =
      foldl (OR) r (map snotice_mask_for_letter ls)" for r ls
    by (induction ls arbitrary: r) auto
  have hot: "m AND snotice_mask_for_letter l \<noteq> 0 \<and> bit (snotice_mask_for_letter l) n \<longleftrightarrow>
      bit m n \<and> bit (snotice_mask_for_letter l) n" for l n
  proof -
    have "snotice_mask_for_letter l = 0 \<or> one_hot (snotice_mask_for_letter l)"
      by (simp add: snotice_mask_for_letter_def snotice_one_hot)
    then show ?thesis
      using one_hot_and by auto
  qed
  have all: "bit SNOTICE_ALL n \<longleftrightarrow> (\<exists>l\<in>set ''cokbgwdsavrxmf''. bit (snotice_mask_for_letter l) n)" for n
    by (simp add: snotice_mask_for_letter_def SNOTICE_ALL_def mode_bits)
  show ?thesis
    unfolding fold
  proof (rule bit_eqI)
    fix n
    have "snotice_mask_format m 15 = filter (\<lambda>l. m AND snotice_mask_for_letter l \<noteq> 0) ''cokbgwdsavrxmf''"
      unfolding snotice_mask_format_def using fmt [of "[]" "''cokbgwdsavrxmf''" 15] by simp
    then show "bit (foldl (OR) 0 (map snotice_mask_for_letter (snotice_mask_format m 15))) n =
        bit (m AND SNOTICE_ALL) n"
      unfolding bit_foldl_or bit_and_iff all using hot [of _ n] by (simp only: set_map set_filter) auto
  qed
qed

end
