(* ===== verification/Client_State.thy ===== *)
theory Client_State
  imports Oper
begin

section \<open>Client objects (include/client.h, src/client.c)\<close>

text \<open>
  The \<open>Client\<close> structure without its output side, which is \<open>client_out\<close> of theory
  \<open>Output\<close>.  A \<open>Client *\<close> is a reference of type \<open>cref\<close> into the store of clients, a
  \<open>Channel *\<close> a reference of type \<open>chref\<close>; the linked lists hanging off a client are lists,
  head first.  Integer flags that the code only tests against zero are Booleans.  Fixed
  character arrays hold at most their capacity, which \<open>client_create\<close> and the handlers
  ensure by truncating copies.
\<close>

type_synonym cref = nat

type_synonym chref = nat

datatype dns_state = CLIENT_DNS_NONE | CLIENT_DNS_PENDING | CLIENT_DNS_VERIFIED | CLIENT_DNS_FAILED
  | CLIENT_DNS_TIMEOUT

datatype dnsbl_state = CLIENT_DNSBL_NONE | CLIENT_DNSBL_PENDING | CLIENT_DNSBL_CLEAR
  | CLIENT_DNSBL_LISTED | CLIENT_DNSBL_TIMEOUT | CLIENT_DNSBL_ERROR

datatype tls_state = CLIENT_TLS_NONE | CLIENT_TLS_HANDSHAKE | CLIENT_TLS_ESTABLISHED

datatype sasl_state = CLIENT_SASL_NONE | CLIENT_SASL_PLAIN_WAIT_DATA | CLIENT_SASL_COMPLETE
  | CLIENT_SASL_FAILED

definition CLIENT_CAP_SASL :: u64 where
  "CLIENT_CAP_SASL = push_bit 0 1"

definition CLIENT_CAP_ACCOUNT_NOTIFY :: u64 where
  "CLIENT_CAP_ACCOUNT_NOTIFY = push_bit 1 1"

definition CLIENT_CAP_BATCH :: u64 where
  "CLIENT_CAP_BATCH = push_bit 2 1"

definition CLIENT_CAP_SERVER_TIME :: u64 where
  "CLIENT_CAP_SERVER_TIME = push_bit 3 1"

definition CLIENT_CAP_CHATHISTORY :: u64 where
  "CLIENT_CAP_CHATHISTORY = push_bit 4 1"

definition CLIENT_CAP_AWAY_NOTIFY :: u64 where
  "CLIENT_CAP_AWAY_NOTIFY = push_bit 5 1"

definition CLIENT_CAP_EXTENDED_JOIN :: u64 where
  "CLIENT_CAP_EXTENDED_JOIN = push_bit 6 1"

definition CLIENT_CAP_LABELED_RESPONSE :: u64 where
  "CLIENT_CAP_LABELED_RESPONSE = push_bit 7 1"

definition CLIENT_CAP_MESSAGE_TAGS :: u64 where
  "CLIENT_CAP_MESSAGE_TAGS = push_bit 8 1"

text \<open>Capacities of \<open>include/config.h\<close>.\<close>

abbreviation IRC_NICK_MAX :: nat where "IRC_NICK_MAX \<equiv> 15"

abbreviation IRC_USER_MAX :: nat where "IRC_USER_MAX \<equiv> 10"

abbreviation IRC_REALNAME_MAX :: nat where "IRC_REALNAME_MAX \<equiv> 127"

abbreviation IRC_HOST_MAX :: nat where "IRC_HOST_MAX \<equiv> 63"

abbreviation IRC_IP_MAX :: nat where "IRC_IP_MAX \<equiv> 45"

abbreviation IRC_AWAY_MAX :: nat where "IRC_AWAY_MAX \<equiv> 255"

abbreviation IRC_QUIT_REASON_MAX :: nat where "IRC_QUIT_REASON_MAX \<equiv> 255"

abbreviation IRC_CHANNEL_MASK_MAX :: nat where "IRC_CHANNEL_MASK_MAX \<equiv> 255"

abbreviation IRCD_SILENCE_MAX :: nat where "IRCD_SILENCE_MAX \<equiv> 64"

abbreviation IRCD_WATCH_MAX :: nat where "IRCD_WATCH_MAX \<equiv> 128"

abbreviation IRC_MAX_CHANNELS_PER_CLIENT :: nat where "IRC_MAX_CHANNELS_PER_CLIENT \<equiv> 32"

abbreviation IRCD_MESSAGE_BUFFER_SIZE :: nat where "IRCD_MESSAGE_BUFFER_SIZE \<equiv> 1024"

subsection \<open>The structure\<close>

text \<open>\<open>ClientGeoIP\<close> of \<open>include/geoip.h\<close>.\<close>

record geoip =
  gi_status :: string
  gi_ip :: string
  gi_network :: string
  gi_source :: string
  gi_continent_code :: string
  gi_country_code :: string
  gi_country_name :: string
  gi_region_code :: string
  gi_region_name :: string
  gi_city :: string
  gi_asn :: u32
  gi_organization :: string

definition geoip_zero :: geoip where
  "geoip_zero = \<lparr>
     gi_status = [], gi_ip = [], gi_network = [], gi_source = [], gi_continent_code = [], gi_country_code = [],
     gi_country_name = [], gi_region_code = [], gi_region_name = [], gi_city = [], gi_asn = 0, gi_organization = []\<rparr>"

record client =
  c_id :: u64
  c_registered :: bool
  c_pass_accepted :: bool
  c_modes :: u64
  c_command_budget_tokens :: u32
  c_command_budget_updated :: time_t
  c_command_throttle_notice_time :: time_t
  c_flood_budget_tokens :: u32
  c_flood_budget_updated :: time_t
  c_flood_violation_window :: time_t
  c_flood_violation_count :: u32
  c_oper_permissions :: u64
  c_oper_name :: string
  c_snotice_mask :: u32
  c_pmstats_enabled :: bool
  c_nick :: string
  c_user :: string
  c_realname :: string
  c_away :: string
  c_account_name :: string
  c_cap_negotiating :: bool
  c_cap_version :: u32
  c_capabilities :: u64
  c_sasl_state :: sasl_state
  c_sasl_buffer :: string
  c_ircv3_client_tags :: string
  c_real_ip :: string
  c_real_host :: string
  c_display_host :: string
  c_account_vhost_active :: bool
  c_webirc_active :: bool
  c_webirc_gateway_ip :: string
  c_webirc_gateway_name :: string
  c_webirc_supplied_host :: string
  c_nospoof_started :: bool
  c_nospoof_verified :: bool
  c_nospoof_deadline :: time_t
  c_nospoof_cookie :: string
  c_version_requested :: bool
  c_version_received :: bool
  c_client_version :: string
  c_website_requested :: bool
  c_website_received :: bool
  c_client_website :: string
  c_geoip :: geoip
  c_geoip_complete :: bool
  c_dns_state :: dns_state
  c_dns_deadline :: time_t
  c_dnsbl_state :: dnsbl_state
  c_dnsbl_deadline :: time_t
  c_signon_time :: time_t
  c_last_activity :: time_t
  c_last_liveness_activity :: time_t
  c_ping_pending :: bool
  c_ping_deadline :: time_t
  c_ping_token :: string
  c_silence_count :: nat
  c_silence_list :: "string list"
  c_watch_count :: nat
  c_watch_list :: "string list"
  c_quit_reason :: string
  c_inbuf :: string
  c_channel_count :: nat
  c_channels :: "chref list"

text \<open>\<open>calloc\<close> gives the all-zero structure; \<open>client_create\<close> then fills in the identity.\<close>

definition client_zero :: client where
  "client_zero = \<lparr>
     c_id = 0, c_registered = False, c_pass_accepted = False, c_modes = 0,
     c_command_budget_tokens = 0, c_command_budget_updated = 0, c_command_throttle_notice_time = 0,
     c_flood_budget_tokens = 0, c_flood_budget_updated = 0, c_flood_violation_window = 0,
     c_flood_violation_count = 0, c_oper_permissions = 0, c_oper_name = [], c_snotice_mask = 0,
     c_pmstats_enabled = False, c_nick = [], c_user = [], c_realname = [], c_away = [],
     c_account_name = [], c_cap_negotiating = False, c_cap_version = 0, c_capabilities = 0,
     c_sasl_state = CLIENT_SASL_NONE, c_sasl_buffer = [], c_ircv3_client_tags = [], c_real_ip = [], c_real_host = [],
     c_display_host = [], c_account_vhost_active = False,
     c_webirc_active = False, c_webirc_gateway_ip = [], c_webirc_gateway_name = [], c_webirc_supplied_host = [], c_nospoof_started = False,
     c_nospoof_verified = False, c_nospoof_deadline = 0, c_nospoof_cookie = [],
     c_version_requested = False, c_version_received = False, c_client_version = [],
     c_website_requested = False, c_website_received = False, c_client_website = [], c_geoip = geoip_zero,
     c_geoip_complete = False, c_dns_state = CLIENT_DNS_NONE, c_dns_deadline = 0,
     c_dnsbl_state = CLIENT_DNSBL_NONE, c_dnsbl_deadline = 0,
     c_signon_time = 0, c_last_activity = 0, c_last_liveness_activity = 0, c_ping_pending = False,
     c_ping_deadline = 0, c_ping_token = [], c_silence_count = 0, c_silence_list = [],
     c_watch_count = 0, c_watch_list = [], c_quit_reason = [], c_inbuf = [], c_channel_count = 0,
     c_channels = []\<rparr>"

text \<open>\<open>ip\<close> is \<open>None\<close> for the null pointer.  The file descriptor and the address family are not modelled.\<close>

definition client_create :: "bool \<Rightarrow> time_t \<Rightarrow> u64 \<Rightarrow> string option \<Rightarrow> client option" where
  "client_create alloc now cid ip =
     (if \<not> alloc then None
      else let real_ip = take IRC_IP_MAX (case ip of Some s \<Rightarrow> s | None \<Rightarrow> ''unknown'')
           in Some (client_zero\<lparr>
                c_id := cid,
                c_dns_state := CLIENT_DNS_NONE,
                c_signon_time := now,
                c_last_activity := now,
                c_last_liveness_activity := now,
                c_real_ip := real_ip,
                c_real_host := [],
                c_display_host := take IRC_HOST_MAX real_ip\<rparr>))"

text \<open>\<open>"%s!%s@%s"\<close> of nick, user and displayed host, the identity that masks match.\<close>

definition client_identity :: "client \<Rightarrow> string" where
  "client_identity c = c_nick c @ ''!'' @ c_user c @ ''@'' @ c_display_host c"

text \<open>\<open>command_reply_nick\<close> of \<open>src/commands/common.c\<close>: the nickname that numerics are addressed to.\<close>

definition command_reply_nick :: "client \<Rightarrow> string" where
  "command_reply_nick c = (if c_nick c \<noteq> [] then c_nick c else ''*'')"

subsection \<open>Capability bits\<close>

lemmas client_cap_defs = CLIENT_CAP_SASL_def CLIENT_CAP_ACCOUNT_NOTIFY_def CLIENT_CAP_BATCH_def
  CLIENT_CAP_SERVER_TIME_def CLIENT_CAP_CHATHISTORY_def CLIENT_CAP_AWAY_NOTIFY_def
  CLIENT_CAP_EXTENDED_JOIN_def CLIENT_CAP_LABELED_RESPONSE_def CLIENT_CAP_MESSAGE_TAGS_def

lemma client_cap_and [mode_bits]:
  fixes m :: u64
  shows "m AND CLIENT_CAP_SASL = 0 \<longleftrightarrow> \<not> bit m 0"
    and "m AND CLIENT_CAP_ACCOUNT_NOTIFY = 0 \<longleftrightarrow> \<not> bit m 1"
    and "m AND CLIENT_CAP_BATCH = 0 \<longleftrightarrow> \<not> bit m 2"
    and "m AND CLIENT_CAP_SERVER_TIME = 0 \<longleftrightarrow> \<not> bit m 3"
    and "m AND CLIENT_CAP_CHATHISTORY = 0 \<longleftrightarrow> \<not> bit m 4"
    and "m AND CLIENT_CAP_AWAY_NOTIFY = 0 \<longleftrightarrow> \<not> bit m 5"
    and "m AND CLIENT_CAP_EXTENDED_JOIN = 0 \<longleftrightarrow> \<not> bit m 6"
    and "m AND CLIENT_CAP_LABELED_RESPONSE = 0 \<longleftrightarrow> \<not> bit m 7"
    and "m AND CLIENT_CAP_MESSAGE_TAGS = 0 \<longleftrightarrow> \<not> bit m 8"
  by (simp_all only: client_cap_defs mask_bit0)

text \<open>A fresh client belongs to no channel and holds no lists.\<close>

lemma client_create_fresh:
  assumes "client_create alloc now cid ip = Some c"
  shows "c_id c = cid" "c_channels c = []" "c_channel_count c = 0" "c_nick c = []"
    "c_registered c = False" "c_silence_list c = []" "c_watch_list c = []"
    "length (c_real_ip c) \<le> IRC_IP_MAX" "length (c_display_host c) \<le> IRC_HOST_MAX"
  using assms by (auto simp: client_create_def client_zero_def Let_def split: if_splits)

end
