(* ===== verification/Output.thy ===== *)
theory Output
  imports Client_State
begin

section \<open>The output path of a client (src/client.c)\<close>

text \<open>
  The bounded output queue, the non-blocking transport with its TLS retry state, line framing
  and labeled responses.

  \<open>o_pending\<close> is the content of the queue, the \<open>outbuf_len\<close> bytes from \<open>outbuf_start\<close>; the
  bytes of \<open>outbuf\<close> outside that window are never read.  \<open>o_wire\<close> records the bytes the
  transport has accepted so far.  Each call of \<open>send\<close> or \<open>SSL_write\<close> takes the next answer
  of the list \<open>oe_net\<close>; \<open>IoWrote n\<close> means that \<open>n\<close> bytes were accepted, clipped to between
  one byte and the size of the request, as both functions document.  When the list is used
  up the transport would block.  \<open>oe_alloc\<close> says whether \<open>realloc\<close> succeeds, \<open>oe_serial\<close> is
  the process-wide batch counter and \<open>oe_stamp\<close> the text of \<open>current_timestamp\<close>.
\<close>

datatype io = IoWrote nat | IoWantRead | IoWantWrite | IoAgain | IoError

record client_out =
  o_ssl :: bool
  o_tls_state :: tls_state
  o_tls_want_write :: bool
  o_input_retry_pending :: bool
  o_input_want_write :: bool
  o_pending :: string
  o_start :: nat
  o_capacity :: nat
  o_limit :: nat
  o_retry_pending :: bool
  o_want_read :: bool
  o_retry_length :: nat
  o_overflowed :: bool
  o_lr_active :: bool
  o_lr_started :: bool
  o_lr_suppressed :: u32
  o_lr_label :: string
  o_lr_batch :: string
  o_lr_server :: string
  o_wire :: string

record out_env =
  oe_alloc :: bool
  oe_net :: "io list"
  oe_serial :: u64
  oe_stamp :: string

abbreviation IRCD_DEFAULT_OUTPUT_QUEUE_MAX_BYTES :: nat where
  "IRCD_DEFAULT_OUTPUT_QUEUE_MAX_BYTES \<equiv> 65536"

abbreviation CLIENT_OUTPUT_FLUSH_BUDGET_BYTES :: nat where
  "CLIENT_OUTPUT_FLUSH_BUDGET_BYTES \<equiv> 65536"

abbreviation IRC_WIRE_LINE_MAX :: nat where "IRC_WIRE_LINE_MAX \<equiv> 512"

abbreviation IRC_LINE_CONTENT_MAX :: nat where "IRC_LINE_CONTENT_MAX \<equiv> 510"

abbreviation IRCV3_COMBINED_TAG_SECTION_MAX :: nat where "IRCV3_COMBINED_TAG_SECTION_MAX \<equiv> 8191"

abbreviation CLIENT_FORMAT_BUFFER_SIZE :: nat where "CLIENT_FORMAT_BUFFER_SIZE \<equiv> 8704"

abbreviation INT_MAX :: nat where "INT_MAX \<equiv> 2147483647"

definition client_out_create :: client_out where
  "client_out_create = \<lparr>
     o_ssl = False, o_tls_state = CLIENT_TLS_NONE, o_tls_want_write = False, o_input_retry_pending = False,
     o_input_want_write = False, o_pending = [],
     o_start = 0, o_capacity = 0, o_limit = IRCD_DEFAULT_OUTPUT_QUEUE_MAX_BYTES,
     o_retry_pending = False, o_want_read = False, o_retry_length = 0, o_overflowed = False,
     o_lr_active = False, o_lr_started = False, o_lr_suppressed = 0, o_lr_label = [],
     o_lr_batch = [], o_lr_server = [], o_wire = []\<rparr>"

definition client_set_output_limit :: "client_out \<Rightarrow> nat \<Rightarrow> client_out" where
  "client_set_output_limit o1 limit =
     (let o2 = o1\<lparr>o_limit := limit\<rparr>
      in if length (o_pending o2) > limit then o2\<lparr>o_overflowed := True\<rparr> else o2)"

definition client_output_pending :: "client_out \<Rightarrow> bool" where
  "client_output_pending o1 \<longleftrightarrow> length (o_pending o1) \<noteq> 0"

subsection \<open>The queue\<close>

text \<open>
  The doubling loop of \<open>queue_append\<close>, with the wrap-around of \<open>capacity * 2U\<close> written out.
  It returns the capacity at the end of the loop; \<open>None\<close> would be a loop that never ends.
\<close>

partial_function (option) grow_capacity :: "nat \<Rightarrow> nat \<Rightarrow> nat \<Rightarrow> nat option" where
  "grow_capacity limit needed capacity =
     (if capacity < needed
      then let doubled = capacity * 2 mod 2 ^ 64;
               next = (if doubled < capacity \<or> doubled > limit then limit else doubled)
           in if next < needed \<and> next = limit then Some next else grow_capacity limit needed next
      else Some capacity)"

definition size_sub :: "nat \<Rightarrow> nat \<Rightarrow> nat" where
  \<comment> \<open>subtraction of \<open>size_t\<close> values\<close>
  "size_sub a b = (if b \<le> a then a - b else 2 ^ 64 + a - b)"

definition queue_append :: "bool \<Rightarrow> client_out \<Rightarrow> string \<Rightarrow> int \<times> client_out" where
  "queue_append alloc o1 data =
     (if data = [] then (0, o1)
      else if o_limit o1 = 0 \<or> length data > size_sub (o_limit o1) (length (o_pending o1))
           then (-1, o1\<lparr>o_overflowed := True\<rparr>)
      else
        let o2 = (if o_start o1 \<noteq> 0 \<and>
                     o_start o1 + length (o_pending o1) + length data > o_capacity o1
                  then o1\<lparr>o_start := 0\<rparr> else o1);
            needed = o_start o2 + length (o_pending o2) + length data
        in if needed > o_capacity o2
           then case grow_capacity (o_limit o2) needed
                       (if o_capacity o2 = 0 then 4096 else o_capacity o2) of
                  None \<Rightarrow> (-1, o2)
                | Some capacity \<Rightarrow>
                    if capacity < needed then (-1, o2\<lparr>o_overflowed := True\<rparr>)
                    else if \<not> alloc then (-1, o2\<lparr>o_overflowed := True\<rparr>)
                    else (0, o2\<lparr>o_capacity := capacity, o_pending := o_pending o2 @ data\<rparr>)
           else (0, o2\<lparr>o_pending := o_pending o2 @ data\<rparr>))"

subsection \<open>The transport\<close>

definition next_io :: "client_out \<Rightarrow> io list \<Rightarrow> io \<times> io list" where
  "next_io o1 net =
     (case net of [] \<Rightarrow> (if o_ssl o1 then IoWantWrite else IoAgain, []) | a # rest \<Rightarrow> (a, rest))"

definition accepted :: "nat \<Rightarrow> nat \<Rightarrow> nat" where
  "accepted n chunk = min (max 1 n) chunk"

text \<open>
  The result is the return code, the number of bytes written, the client and the remaining
  answers; \<open>data\<close> is never empty.
\<close>

definition transport_write ::
  "client_out \<Rightarrow> io list \<Rightarrow> string \<Rightarrow> int \<times> nat \<times> client_out \<times> io list" where
  "transport_write o1 net data =
     (if o_ssl o1 \<and> o_tls_state o1 \<noteq> CLIENT_TLS_ESTABLISHED
      then (0, 0, o1\<lparr>o_retry_pending := False, o_want_read := False, o_retry_length := 0\<rparr>, net)
      else if o_tls_state o1 = CLIENT_TLS_ESTABLISHED \<and> o_ssl o1
      then if o_input_retry_pending o1 then (0, 0, o1, net)
           else if o_retry_pending o1 \<and> (o_retry_length o1 = 0 \<or> length data < o_retry_length o1)
           then (-1, 0, o1, net)
           else let chunk = (if o_retry_pending o1 then o_retry_length o1
                             else if length data > INT_MAX then INT_MAX else length data);
                    (answer, net') = next_io o1 net
                in case answer of
                     IoWrote n \<Rightarrow>
                       (1, accepted n chunk,
                        o1\<lparr>o_retry_pending := False, o_want_read := False, o_retry_length := 0,
                           o_wire := o_wire o1 @ take (accepted n chunk) data\<rparr>, net')
                   | IoWantRead \<Rightarrow>
                       (0, 0, o1\<lparr>o_retry_pending := True, o_want_read := True,
                                 o_retry_length := chunk\<rparr>, net')
                   | IoWantWrite \<Rightarrow>
                       (0, 0, o1\<lparr>o_retry_pending := True, o_want_read := False,
                                 o_retry_length := chunk\<rparr>, net')
                   | _ \<Rightarrow> (-1, 0, o1, net')
      else let (answer, net') = next_io o1 net;
               o2 = o1\<lparr>o_retry_pending := False, o_retry_length := 0\<rparr>
           in case answer of
                IoWrote n \<Rightarrow>
                  (1, accepted n (length data),
                   o2\<lparr>o_wire := o_wire o2 @ take (accepted n (length data)) data\<rparr>, net')
              | IoAgain \<Rightarrow> (0, 0, o2, net')
              | _ \<Rightarrow> (-1, 0, o2, net'))"

lemma transport_write_written:
  assumes "transport_write o1 net data = (rc, w, o2, net')" and "data \<noteq> []"
  shows "rc = 1 \<longrightarrow> 0 < w \<and> w \<le> length data"
    and "o_pending o2 = o_pending o1"
    and "o_wire o2 = o_wire o1 @ take w data"
proof -
  have len: "0 < length data" using assms(2) by simp
  show "rc = 1 \<longrightarrow> 0 < w \<and> w \<le> length data"
    using assms(1) len unfolding transport_write_def accepted_def
    by (auto simp: Let_def split: if_splits prod.splits io.splits)
  show "o_pending o2 = o_pending o1" and "o_wire o2 = o_wire o1 @ take w data"
    using assms(1) unfolding transport_write_def
    by (auto simp: Let_def split: if_splits prod.splits io.splits)
qed

lemma transport_write_rc: "transport_write o1 net data = (rc, w, o2, net') \<Longrightarrow> rc \<in> {-1, 0, 1}"
  unfolding transport_write_def by (auto simp: Let_def split: if_splits prod.splits io.splits)

lemma flush_progress:
  assumes "transport_write o1 net (take a (o_pending o1)) = (rc, w, o2, net')"
    and "o_pending o1 \<noteq> []" "0 < a" "\<not> rc < 0" "rc \<noteq> 0"
  shows "length (o_pending o2) - w < length (o_pending o1)"
proof -
  have ne: "take a (o_pending o1) \<noteq> []" using assms(2,3) by simp
  have "rc = 1" using transport_write_rc [OF assms(1)] assms(4,5) by auto
  then show ?thesis
    using transport_write_written [OF assms(1) ne] assms(2) by simp
qed

lemma send_progress:
  assumes "transport_write o1 net data = (rc, w, o2, net')" and "data \<noteq> []" "\<not> rc < 0" "rc \<noteq> 0"
  shows "length data - w < length data"
  using transport_write_rc [OF assms(1)] transport_write_written(1) [OF assms(1,2)] assms(2-4) by auto

text \<open>
  The loop of \<open>client_flush_output\<close>.  The first component is the value of a \<open>return\<close> inside
  the loop.  \<open>attempt\<close> never exceeds the queue while \<open>out_inv\<close> holds.
\<close>

function flush_loop ::
  "nat \<Rightarrow> client_out \<Rightarrow> io list \<Rightarrow> int option \<times> client_out \<times> io list" where
  "flush_loop flushed o1 net =
     (if o_pending o1 \<noteq> [] \<and> flushed < CLIENT_OUTPUT_FLUSH_BUDGET_BYTES
      then let remaining_budget = CLIENT_OUTPUT_FLUSH_BUDGET_BYTES - flushed;
               a = (if length (o_pending o1) < remaining_budget then length (o_pending o1)
                    else remaining_budget);
               attempt = (if o_retry_pending o1 \<and> o_retry_length o1 > a then o_retry_length o1 else a)
           in case transport_write o1 net (take attempt (o_pending o1)) of
                (rc, written, o2, net') \<Rightarrow>
                  if rc < 0 then (Some (-1), o2, net')
                  else if rc = 0 then (Some 0, o2, net')
                  else flush_loop (flushed + written)
                         (o2\<lparr>o_start := o_start o2 + written, o_pending := drop written (o_pending o2)\<rparr>)
                         net'
      else (None, o1, net))"
  by pat_completeness auto
termination
  by (relation "measure (\<lambda>(f, o1, net). length (o_pending o1))")
     (auto dest!: sym [of _ "transport_write _ _ _"] flush_progress)

declare flush_loop.simps [simp del]

definition client_flush_output :: "client_out \<Rightarrow> io list \<Rightarrow> int \<times> client_out \<times> io list" where
  "client_flush_output o1 net =
     (case flush_loop 0 o1 net of
        (Some rc, o2, net') \<Rightarrow> (rc, o2, net')
      | (None, o2, net') \<Rightarrow>
          if o_pending o2 \<noteq> [] then (0, o2, net')
          else (1, o2\<lparr>o_start := 0, o_retry_pending := False, o_want_read := False,
                      o_retry_length := 0\<rparr>, net'))"

text \<open>The direct-write loop of \<open>client_send_raw\<close>; \<open>data\<close> is what is still unsent.\<close>

function send_loop :: "client_out \<Rightarrow> io list \<Rightarrow> string \<Rightarrow> bool \<times> string \<times> client_out \<times> io list" where
  "send_loop o1 net data =
     (if data = [] then (True, [], o1, net)
      else case transport_write o1 net data of
             (rc, written, o2, net') \<Rightarrow>
               if rc < 0 then (False, data, o2, net')
               else if rc = 0 then (True, data, o2, net')
               else send_loop o2 net' (drop written data))"
  by pat_completeness auto
termination
  by (relation "measure (\<lambda>(o1, net, data). length data)")
     (auto dest!: sym [of _ "transport_write _ _ _"] send_progress)

declare send_loop.simps [simp del]

definition client_send_raw :: "bool \<Rightarrow> io list \<Rightarrow> client_out \<Rightarrow> string \<Rightarrow> int \<times> client_out \<times> io list" where
  "client_send_raw alloc net o1 data =
     (if data = [] then (0, o1, net)
      else if o_overflowed o1 then (-1, o1, net)
      else let result = (if length data > INT_MAX then int INT_MAX else int (length data))
           in if o_pending o1 \<noteq> []
              then let (rc, o2) = queue_append alloc o1 data
                   in if rc \<noteq> 0 then (-1, o2, net) else (result, o2, net)
              else case send_loop o1 net data of
                     (False, rest, o2, net') \<Rightarrow> (-1, o2, net')
                   | (True, rest, o2, net') \<Rightarrow>
                       if rest \<noteq> []
                       then let (rc, o3) = queue_append alloc o2 rest
                            in if rc \<noteq> 0 then (-1, o3, net') else (result, o3, net')
                       else (result, o2, net'))"

subsection \<open>Lines and tags\<close>

definition message_tags_length :: "string \<Rightarrow> nat" where
  \<comment> \<open>length of the tag section of a tagged line, with the separating space\<close>
  "message_tags_length line = length (takeWhile (\<lambda>c. c \<noteq> CHR '' '') line) + 1"

definition client_line_content_fits :: "string \<Rightarrow> bool" where
  "client_line_content_fits line =
     (if CR \<in> set line \<or> LF \<in> set line then False
      else if \<not> starts_with ''@'' line then length line \<le> IRC_LINE_CONTENT_MAX
      else if CHR '' '' \<notin> set line \<or> takeWhile (\<lambda>c. c \<noteq> CHR '' '') line = ''@'' then False
      else message_tags_length line \<le> IRCV3_COMBINED_TAG_SECTION_MAX \<and>
           length (drop (message_tags_length line) line) \<le> IRC_LINE_CONTENT_MAX)"

function scan_tags :: "string \<Rightarrow> string \<Rightarrow> bool" where
  "scan_tags wanted region =
     (if region = [] then False
      else let token = takeWhile (\<lambda>c. c \<noteq> CHR '';'') region
           in if takeWhile (\<lambda>c. c \<noteq> CHR ''='') token = wanted then True
              else scan_tags wanted (drop 1 (dropWhile (\<lambda>c. c \<noteq> CHR '';'') region)))"
  by pat_completeness auto
termination
proof (relation "measure (\<lambda>(w, r). length r)", goal_cases)
  case 1
  then show ?case by simp
next
  case (2 wanted region token)
  then have "length (dropWhile (\<lambda>c. c \<noteq> CHR '';'') region) \<le> length region" "0 < length region"
    by (auto simp: length_dropWhile_le)
  then have "length (dropWhile (\<lambda>c. c \<noteq> CHR '';'') region) - 1 < length region" by linarith
  then show ?case by simp
qed

declare scan_tags.simps [simp del]

definition line_has_tag :: "string \<Rightarrow> string \<Rightarrow> bool" where
  "line_has_tag line wanted =
     (if \<not> starts_with ''@'' line then False
      else if CHR '' '' \<notin> set line then False
      else scan_tags wanted (takeWhile (\<lambda>c. c \<noteq> CHR '' '') (drop 1 line)))"

definition prepend_tag :: "nat \<Rightarrow> string \<Rightarrow> string \<Rightarrow> string option" where
  "prepend_tag out_size tag line =
     (if out_size = 0 \<or> tag = [] then None
      else let out = (if starts_with ''@'' line then ''@'' @ tag @ '';'' @ drop 1 line
                      else ''@'' @ tag @ '' '' @ line)
           in if length out < out_size then Some out else None)"

fun hex :: "nat \<Rightarrow> string" where
  "hex n = (let d = n mod 16; c = (if d < 10 then char_of (48 + d) else char_of (87 + d))
            in if n < 16 then [c] else hex (n div 16) @ [c])"

declare hex.simps [simp del]

text \<open>The optional server-time tag: a line that has no room for it is delivered unchanged.\<close>

definition stamp_line :: "u64 \<Rightarrow> string \<Rightarrow> string \<Rightarrow> string" where
  "stamp_line caps stamp line =
     (if caps AND CLIENT_CAP_SERVER_TIME \<noteq> 0 \<and> \<not> line_has_tag line ''time''
      then let tag = ''time='' @ stamp
           in if length tag < 47
              then case prepend_tag CLIENT_FORMAT_BUFFER_SIZE tag line of
                     Some tagged \<Rightarrow> if client_line_content_fits tagged then tagged else line
                   | None \<Rightarrow> line
              else line
      else line)"

text \<open>The batch tag of a line inside a labeled response; a line of a nested batch keeps its own.\<close>

definition batch_line :: "string \<Rightarrow> string \<Rightarrow> string option" where
  "batch_line batch line =
     (if line_has_tag line ''batch'' then Some line
      else let tag = ''batch='' @ batch
           in if length tag \<ge> 47 then None else prepend_tag CLIENT_FORMAT_BUFFER_SIZE tag line)"

text \<open>
  \<open>client_send_line_internal\<close> with \<open>apply_labeled_response\<close> zero: the server-time tag, the
  length checks and the framing.  \<open>caps\<close> are the capabilities of the client.
\<close>

definition send_framed ::
  "u64 \<Rightarrow> out_env \<Rightarrow> client_out \<Rightarrow> string \<Rightarrow> int \<times> out_env \<times> client_out" where
  "send_framed caps env o1 line =
     (let outbound = stamp_line caps (oe_stamp env) line
      in if \<not> client_line_content_fits outbound then (-1, env, o1)
         else let buffer = outbound @ [CR, LF]
              in if length buffer \<ge> CLIENT_FORMAT_BUFFER_SIZE then (-1, env, o1)
                 else if \<not> starts_with ''@'' outbound \<and> length buffer > IRC_WIRE_LINE_MAX then (-1, env, o1)
                 else let (rc, o2, net) = client_send_raw (oe_alloc env) (oe_net env) o1 buffer
                      in (rc, env\<lparr>oe_net := net\<rparr>, o2))"

text \<open>The opening of a labeled-response batch; the Boolean is whether the line may follow.\<close>

definition open_label_batch ::
  "u64 \<Rightarrow> out_env \<Rightarrow> client_out \<Rightarrow> bool \<times> out_env \<times> client_out" where
  "open_label_batch caps env o1 =
     (let serial = (if oe_serial env + 1 = 0 then oe_serial env + 1 + 1 else oe_serial env + 1);
          env1 = env\<lparr>oe_serial := serial\<rparr>;
          o2 = o1\<lparr>o_lr_batch := take 31 (''l'' @ hex (unat serial))\<rparr>;
          start = ''@label='' @ o_lr_label o2 @ '' :'' @ o_lr_server o2 @ '' BATCH +'' @
                  o_lr_batch o2 @ '' labeled-response''
      in if length start \<ge> CLIENT_FORMAT_BUFFER_SIZE then (False, env1, o2)
         else let o3 = o2\<lparr>o_lr_started := True\<rparr>;
                  (rc, env2, o4) = send_framed caps env1 o3 start
              in (\<not> rc < 0, env2, o4))"

definition client_send_line ::
  "u64 \<Rightarrow> out_env \<Rightarrow> client_out \<Rightarrow> string \<Rightarrow> int \<times> out_env \<times> client_out" where
  "client_send_line caps env o1 line =
     (if o_lr_active o1 \<and> o_lr_suppressed o1 = 0
      then let (go, env1, o2) = (if \<not> o_lr_started o1 then open_label_batch caps env o1 else (True, env, o1))
           in if \<not> go then (-1, env1, o2)
              else case batch_line (o_lr_batch o2) line of
                     None \<Rightarrow> (-1, env1, o2)
                   | Some tagged \<Rightarrow> send_framed caps env1 o2 tagged
      else send_framed caps env o1 line)"

text \<open>\<open>client_sendf\<close> on the formatted text.\<close>

definition client_sendf ::
  "u64 \<Rightarrow> out_env \<Rightarrow> client_out \<Rightarrow> string \<Rightarrow> int \<times> out_env \<times> client_out" where
  "client_sendf caps env o1 text =
     (if length text \<ge> CLIENT_FORMAT_BUFFER_SIZE then (-1, env, o1) else client_send_line caps env o1 text)"

definition client_labeled_response_begin :: "client_out \<Rightarrow> string \<Rightarrow> string \<Rightarrow> client_out" where
  "client_labeled_response_begin o1 server_name label =
     (if label = [] then o1
      else o1\<lparr>o_lr_active := True, o_lr_started := False, o_lr_suppressed := 0, o_lr_batch := [],
              o_lr_server := take 63 server_name, o_lr_label := take 128 label\<rparr>)"

definition client_labeled_response_end ::
  "u64 \<Rightarrow> out_env \<Rightarrow> client_out \<Rightarrow> out_env \<times> client_out" where
  "client_labeled_response_end caps env o1 =
     (if \<not> o_lr_active o1 then (env, o1)
      else let o2 = o1\<lparr>o_lr_active := False, o_lr_suppressed := 0\<rparr>;
               line = (if o_lr_started o2 then '':'' @ o_lr_server o2 @ '' BATCH -'' @ o_lr_batch o2
                       else ''@label='' @ o_lr_label o2 @ '' :'' @ o_lr_server o2 @ '' ACK'');
               (env1, o3) = (if length line < CLIENT_FORMAT_BUFFER_SIZE
                             then let (rc, env', o') = send_framed caps env o2 line in (env', o')
                             else (env, o2))
           in (env1, o3\<lparr>o_lr_started := False, o_lr_label := [], o_lr_batch := [], o_lr_server := []\<rparr>))"

definition client_labeled_response_suppress :: "client_out \<Rightarrow> bool \<Rightarrow> client_out" where
  "client_labeled_response_suppress o1 suppress =
     (if suppress then o1\<lparr>o_lr_suppressed := o_lr_suppressed o1 + 1\<rparr>
      else if o_lr_suppressed o1 \<noteq> 0 then o1\<lparr>o_lr_suppressed := o_lr_suppressed o1 - 1\<rparr>
      else o1)"

subsection \<open>Capacity\<close>

lemma grow_capacity_returns:
  "0 < capacity \<Longrightarrow>
     \<exists>c. grow_capacity limit needed capacity = Some c \<and> (needed \<le> limit \<longrightarrow> needed \<le> c) \<and> c \<le> max capacity limit"
proof (induction "needed - capacity" arbitrary: capacity rule: less_induct)
  case less
  define doubled where "doubled = capacity * 2 mod 2 ^ 64"
  define nxt where "nxt = (if doubled < capacity \<or> doubled > limit then limit else doubled)"
  have step: "grow_capacity limit needed capacity =
      (if capacity < needed
       then if nxt < needed \<and> nxt = limit then Some nxt else grow_capacity limit needed nxt
       else Some capacity)"
    unfolding doubled_def nxt_def by (subst grow_capacity.simps) (simp only: Let_def)
  show ?case
  proof (cases "capacity < needed")
    case False
    then show ?thesis by (simp add: step)
  next
    case True
    show ?thesis
    proof (cases "nxt = limit")
      case True
      then show ?thesis
        using \<open>capacity < needed\<close> grow_capacity.simps [of limit needed limit]
        by (cases "nxt < needed") (auto simp: step)
    next
      case False
      then have d: "nxt = doubled" "capacity \<le> doubled" "doubled \<le> limit"
        by (auto simp: nxt_def split: if_splits)
      have "capacity * 2 < 2 ^ 64"
      proof (rule ccontr)
        assume a: "\<not> capacity * 2 < 2 ^ 64"
        show False
        proof (cases "capacity < 2 ^ 64")
          case True
          then have "doubled = capacity * 2 - 2 ^ 64"
            unfolding doubled_def using a mod_if [of "capacity * 2" "2 ^ 64"] mod_if [of "capacity * 2 - 2 ^ 64" "2 ^ 64"] by simp
          then show False using d(2) True less.prems by simp
        next
          case False
          have "doubled < 2 ^ 64" unfolding doubled_def by simp
          then show False using d(2) False by simp
        qed
      qed
      then have "doubled = capacity * 2" by (simp add: doubled_def)
      then have "needed - nxt < needed - capacity" "0 < nxt"
        using d(1) less.prems True by auto
      from less.hyps [OF this] show ?thesis
        using True False d by (auto simp: step)
    qed
  qed
qed

subsection \<open>Frame and retry facts of the transport\<close>

lemma transport_write_frame:
  assumes "transport_write o1 net data = (rc, w, o2, net')"
  shows "o_limit o2 = o_limit o1" "o_start o2 = o_start o1" "o_capacity o2 = o_capacity o1"
    "o_overflowed o2 = o_overflowed o1" "o_pending o2 = o_pending o1"
  using assms unfolding transport_write_def
  by (auto simp: Let_def split: if_splits prod.splits io.splits)

definition retry_within :: "client_out \<Rightarrow> nat \<Rightarrow> bool" where
  "retry_within o1 n \<longleftrightarrow> (o_retry_pending o1 \<longrightarrow> 0 < o_retry_length o1 \<and> o_retry_length o1 \<le> n)"

lemma transport_write_retry:
  assumes "transport_write o1 net data = (rc, w, o2, net')" and "data \<noteq> []" and "retry_within o1 (length data)"
  shows "retry_within o2 (length data)" and "rc = 1 \<Longrightarrow> \<not> o_retry_pending o2"
    and "rc = -1 \<Longrightarrow> \<not> o_retry_pending o1 \<Longrightarrow> \<not> o_retry_pending o2"
  using assms unfolding transport_write_def retry_within_def
  by (auto simp: Let_def split: if_splits prod.splits io.splits)

text \<open>The answers of the transport that end a connection.\<close>

definition io_fails :: "client_out \<Rightarrow> io \<Rightarrow> bool" where
  "io_fails o1 a \<longleftrightarrow>
     (case a of IoWrote _ \<Rightarrow> False | IoError \<Rightarrow> True | IoAgain \<Rightarrow> o_ssl o1 | _ \<Rightarrow> \<not> o_ssl o1)"

lemma transport_write_fails:
  assumes "transport_write o1 net data = (rc, w, o2, net')" and "retry_within o1 (length data)"
  shows "rc = -1 \<Longrightarrow> \<exists>a\<in>set net. io_fails o1 a" and "set net' \<subseteq> set net" and "o_ssl o2 = o_ssl o1"
  using assms unfolding transport_write_def next_io_def retry_within_def
  by (auto simp: Let_def io_fails_def split: if_splits prod.splits io.splits list.splits)

text \<open>
  The queue invariant.  The window lies inside the allocation; unless the client has
  overflowed (and is about to be dropped) the queue respects its limit and a pending TLS
  retry covers no more than what is queued, so a retried \<open>SSL_write\<close> repeats queued bytes.
\<close>

definition out_inv :: "client_out \<Rightarrow> bool" where
  "out_inv o1 \<longleftrightarrow>
     o_start o1 + length (o_pending o1) \<le> o_capacity o1 \<and>
     (\<not> o_overflowed o1 \<longrightarrow>
        length (o_pending o1) \<le> o_limit o1 \<and> retry_within o1 (length (o_pending o1)))"

text \<open>What \<open>queue_append\<close> does while the invariant holds: the queue grows, or the client overflows.\<close>

definition queue_inv :: "client_out \<Rightarrow> bool" where
  "queue_inv o1 \<longleftrightarrow> o_start o1 + length (o_pending o1) \<le> o_capacity o1 \<and> length (o_pending o1) \<le> o_limit o1"

lemma out_inv_queue: "out_inv o1 \<Longrightarrow> \<not> o_overflowed o1 \<Longrightarrow> queue_inv o1"
  by (simp add: out_inv_def queue_inv_def)

lemma queue_append_full:
  assumes "queue_inv o1" "\<not> o_overflowed o1" "data \<noteq> []"
    and "length (o_pending o1) + length data > o_limit o1"
  shows "queue_append alloc o1 data = (-1, o1\<lparr>o_overflowed := True\<rparr>)"
  using assms by (auto simp: queue_append_def queue_inv_def size_sub_def)

lemma queue_append_room:
  assumes inv: "queue_inv o1" "\<not> o_overflowed o1" and ne: "data \<noteq> []"
    and room: "length (o_pending o1) + length data \<le> o_limit o1"
  shows "\<exists>st cap. st + length (o_pending o1) + length data \<le> cap \<and>
           cap \<le> max (o_capacity o1) (max 4096 (o_limit o1)) \<and> st \<le> o_start o1 \<and>
           queue_append alloc o1 data =
             (if alloc \<or> cap = o_capacity o1
              then (0, o1\<lparr>o_start := st, o_capacity := cap, o_pending := o_pending o1 @ data\<rparr>)
              else (-1, o1\<lparr>o_start := st, o_overflowed := True\<rparr>))"
proof -
  define st where "st = (if o_start o1 \<noteq> 0 \<and> o_start o1 + length (o_pending o1) + length data > o_capacity o1
    then 0 else o_start o1)"
  define needed where "needed = st + length (o_pending o1) + length data"
  have o2: "(if o_start o1 \<noteq> 0 \<and> o_start o1 + length (o_pending o1) + length data > o_capacity o1
      then o1\<lparr>o_start := 0\<rparr> else o1) = o1\<lparr>o_start := st\<rparr>"
    by (simp add: st_def)
  have guard: "\<not> (o_limit o1 = 0 \<or> length data > size_sub (o_limit o1) (length (o_pending o1)))"
    using room ne by (cases data) (auto simp: size_sub_def)
  note unfolded = queue_append_def [of alloc o1 data, unfolded o2 Let_def]
  have le: "st \<le> o_start o1" by (simp add: st_def)
  show ?thesis
  proof (cases "needed > o_capacity o1")
    case False
    then have "queue_append alloc o1 data =
        (0, o1\<lparr>o_start := st, o_capacity := o_capacity o1, o_pending := o_pending o1 @ data\<rparr>)"
      using ne guard by (simp add: unfolded needed_def)
    then show ?thesis
      using False le by (intro exI [of _ st] exI [of _ "o_capacity o1"]) (simp add: needed_def)
  next
    case True
    then have "st = 0"
      using inv by (auto simp: needed_def st_def split: if_splits)
    then have "needed \<le> o_limit o1"
      using room by (simp add: needed_def)
    define cap0 where "cap0 = (if o_capacity o1 = 0 then 4096 else o_capacity o1)"
    have "0 < cap0" by (simp add: cap0_def)
    then obtain c where c: "grow_capacity (o_limit o1) needed cap0 = Some c" "needed \<le> c"
      "c \<le> max cap0 (o_limit o1)"
      using grow_capacity_returns [of cap0 "o_limit o1" needed] \<open>needed \<le> o_limit o1\<close> by auto
    have "queue_append alloc o1 data =
        (if alloc then (0, o1\<lparr>o_start := st, o_capacity := c, o_pending := o_pending o1 @ data\<rparr>)
         else (-1, o1\<lparr>o_start := st, o_overflowed := True\<rparr>))"
      using True ne guard c
      by (cases "o_capacity o1 = 0") (simp_all add: unfolded needed_def cap0_def)
    then show ?thesis
      using True c le by (intro exI [of _ st] exI [of _ c]) (auto simp: needed_def cap0_def split: if_splits)
  qed
qed

lemma queue_append_cases:
  assumes inv: "queue_inv o1" "\<not> o_overflowed o1" and qa: "queue_append alloc o1 data = (rc, o2)"
  shows "o_wire o2 = o_wire o1 \<and> o_limit o2 = o_limit o1 \<and>
         o_retry_pending o2 = o_retry_pending o1 \<and> o_retry_length o2 = o_retry_length o1 \<and>
         o_start o2 + length (o_pending o2) \<le> o_capacity o2 \<and>
         o_capacity o2 \<le> max (o_capacity o1) (max 4096 (o_limit o1)) \<and>
         (if rc = 0 then o_pending o2 = o_pending o1 @ data \<and> \<not> o_overflowed o2 \<and>
                         length (o_pending o2) \<le> o_limit o1
          else rc = -1 \<and> o_pending o2 = o_pending o1 \<and> o_overflowed o2) \<and>
         (alloc \<and> length (o_pending o1) + length data \<le> o_limit o1 \<longrightarrow> rc = 0)"
proof (cases "data = []")
  case True
  then show ?thesis using assms by (auto simp: queue_append_def queue_inv_def)
next
  case ne: False
  show ?thesis
  proof (cases "length (o_pending o1) + length data > o_limit o1")
    case True
    then show ?thesis
      using queue_append_full [OF inv ne True, of alloc] qa inv by (auto simp: queue_inv_def)
  next
    case False
    then obtain st cap where f: "st + length (o_pending o1) + length data \<le> cap"
      "cap \<le> max (o_capacity o1) (max 4096 (o_limit o1))" "st \<le> o_start o1"
      "queue_append alloc o1 data =
         (if alloc \<or> cap = o_capacity o1
          then (0, o1\<lparr>o_start := st, o_capacity := cap, o_pending := o_pending o1 @ data\<rparr>)
          else (-1, o1\<lparr>o_start := st, o_overflowed := True\<rparr>))"
      using queue_append_room [OF inv ne, of alloc] by auto
    then show ?thesis
      using qa inv False by (auto simp: queue_inv_def split: if_splits)
  qed
qed

lemma out_inv_append:
  assumes "out_inv o1" "\<not> o_overflowed o1" "queue_append alloc o1 data = (rc, o2)"
  shows "out_inv o2"
  using queue_append_cases [OF out_inv_queue [OF assms(1,2)] assms(2,3)] assms(1,2)
  by (auto simp: out_inv_def retry_within_def split: if_splits)

subsection \<open>The two loops\<close>

lemma send_loop_result:
  assumes "send_loop o1 net data = (ok, rest, o2, net')" and "\<not> o_retry_pending o1"
  shows "(\<exists>k. rest = drop k data \<and> o_wire o2 = o_wire o1 @ take k data) \<and>
         o_pending o2 = o_pending o1 \<and> o_limit o2 = o_limit o1 \<and> o_start o2 = o_start o1 \<and>
         o_capacity o2 = o_capacity o1 \<and> o_overflowed o2 = o_overflowed o1 \<and>
         retry_within o2 (length rest) \<and> (\<not> ok \<longrightarrow> \<not> o_retry_pending o2)"
  using assms
proof (induction o1 net data arbitrary: ok rest o2 net' rule: send_loop.induct)
  case (1 o1 net data)
  show ?case
  proof (cases "data = []")
    case True
    moreover have "send_loop o1 net [] = (True, [], o1, net)"
      by (simp add: send_loop.simps)
    ultimately show ?thesis
      using "1.prems" by (auto simp: retry_within_def)
  next
    case ne: False
    obtain rc w o3 net3 where tw: "transport_write o1 net data = (rc, w, o3, net3)"
      by (metis prod_cases4)
    have rw: "retry_within o1 (length data)" using "1.prems"(2) by (simp add: retry_within_def)
    note fr = transport_write_frame [OF tw] and wr = transport_write_written [OF tw ne]
      and re = transport_write_retry [OF tw ne rw] and rcs = transport_write_rc [OF tw]
    show ?thesis
    proof (cases "rc = 1")
      case True
      have rec: "send_loop o3 net3 (drop w data) = (ok, rest, o2, net')"
        using "1.prems"(1) tw ne True by (simp add: send_loop.simps [of o1 net data])
      have pos: "\<not> rc < 0" "rc \<noteq> 0" using True by simp_all
      have nr: "\<not> o_retry_pending o3"
        by (rule re(2) [OF True])
      note IH = "1.IH" [OF ne tw [symmetric] refl refl pos rec nr]
      from IH obtain k where k: "rest = drop k (drop w data)" "o_wire o2 = o_wire o3 @ take k (drop w data)"
        by blast
      have "rest = drop (w + k) data" "o_wire o2 = o_wire o1 @ take (w + k) data"
        using k(1) by (simp add: add.commute) (use k(2) wr(3) in \<open>simp add: take_add\<close>)
      then show ?thesis using IH fr by auto
    next
      case False
      then have res: "rest = data" "o2 = o3" "ok = (rc = 0)"
        using "1.prems"(1) tw ne rcs by (auto simp: send_loop.simps [of o1 net data])
      have "w = 0"
        using tw False unfolding transport_write_def by (auto simp: Let_def split: if_splits prod.splits io.splits)
      then have "\<exists>k. rest = drop k data \<and> o_wire o2 = o_wire o1 @ take k data"
        using wr(3) res by (intro exI [of _ 0]) simp
      moreover have "\<not> ok \<longrightarrow> \<not> o_retry_pending o2"
        using False rcs re(3) "1.prems"(2) res by auto
      ultimately show ?thesis using fr re(1) res by simp
    qed
  qed
qed

lemma flush_loop_result:
  assumes "flush_loop fl o1 net = (r, o2, net')" and "out_inv o1" and "\<not> o_overflowed o1"
  shows "o_wire o2 @ o_pending o2 = o_wire o1 @ o_pending o1 \<and> out_inv o2 \<and> \<not> o_overflowed o2 \<and>
         o_limit o2 = o_limit o1 \<and> o_capacity o2 = o_capacity o1 \<and>
         (r \<noteq> None \<longrightarrow> r = Some 0 \<or> r = Some (-1) \<and> (\<exists>a\<in>set net. io_fails o1 a))"
  using assms
proof (induction fl o1 net arbitrary: r o2 net' rule: flush_loop.induct)
  case (1 fl o1 net)
  show ?case
  proof (cases "o_pending o1 \<noteq> [] \<and> fl < CLIENT_OUTPUT_FLUSH_BUDGET_BYTES")
    case False
    then show ?thesis
      using "1.prems" by (auto simp: flush_loop.simps [of fl o1 net])
  next
    case go: True
    define a where "a = (if length (o_pending o1) < CLIENT_OUTPUT_FLUSH_BUDGET_BYTES - fl
      then length (o_pending o1) else CLIENT_OUTPUT_FLUSH_BUDGET_BYTES - fl)"
    define att where "att = (if o_retry_pending o1 \<and> o_retry_length o1 > a then o_retry_length o1 else a)"
    define d where "d = take att (o_pending o1)"
    have rw1: "retry_within o1 (length (o_pending o1))"
      using "1.prems" by (simp add: out_inv_def)
    have d: "d \<noteq> []" "length d = att" "att \<le> length (o_pending o1)"
      using go rw1 by (auto simp: d_def att_def a_def retry_within_def)
    have rw: "retry_within o1 (length d)"
      using rw1 d by (auto simp: retry_within_def att_def)
    obtain rc w o3 net3 where tw: "transport_write o1 net d = (rc, w, o3, net3)"
      by (metis prod_cases4)
    note fr = transport_write_frame [OF tw] and wr = transport_write_written [OF tw d(1)]
      and re = transport_write_retry [OF tw d(1) rw] and rcs = transport_write_rc [OF tw]
      and fa = transport_write_fails [OF tw rw]
    have unf: "flush_loop fl o1 net =
        (if rc < 0 then (Some (-1), o3, net3) else if rc = 0 then (Some 0, o3, net3)
         else flush_loop (fl + w) (o3\<lparr>o_start := o_start o3 + w, o_pending := drop w (o_pending o3)\<rparr>) net3)"
      by (subst flush_loop.simps)
         (simp only: Let_def a_def [symmetric] att_def [symmetric] d_def [symmetric] tw go if_True prod.case
           simp_thms)
    let ?o4 = "o3\<lparr>o_start := o_start o3 + w, o_pending := drop w (o_pending o3)\<rparr>"
    show ?thesis
    proof (cases "rc = 1")
      case True
      have w: "w \<le> length (o_pending o1)" using wr(1) True d by simp
      have inv4: "out_inv ?o4"
        using "1.prems"(2,3) fr w re(2) [OF True] by (auto simp: out_inv_def retry_within_def)
      have "flush_loop (fl + w) ?o4 net3 = (r, o2, net')"
        using "1.prems"(1) unf True by simp
      from "1.IH" [OF go refl refl refl, folded a_def att_def d_def, OF tw [symmetric] refl refl _ _ this inv4]
      have IH: "o_wire o2 @ o_pending o2 = o_wire ?o4 @ o_pending ?o4 \<and> out_inv o2 \<and> \<not> o_overflowed o2 \<and>
         o_limit o2 = o_limit ?o4 \<and> o_capacity o2 = o_capacity ?o4 \<and>
         (r \<noteq> None \<longrightarrow> r = Some 0 \<or> r = Some (-1) \<and> (\<exists>a\<in>set net3. io_fails ?o4 a))"
        using "1.prems"(3) fr True by simp
      have "io_fails ?o4 a = io_fails o1 a" for a
        using fa(3) by (simp add: io_fails_def split: io.split)
      have "take w d = take w (o_pending o1)"
        using wr(1) True d by (simp add: d_def)
      then show ?thesis using IH fr wr(3) fa(2) \<open>\<And>a. io_fails ?o4 a = io_fails o1 a\<close> by auto
    next
      case False
      have "w = 0"
        using tw False unfolding transport_write_def by (auto simp: Let_def split: if_splits prod.splits io.splits)
      then have "o_wire o3 = o_wire o1" using wr(3) by simp
      moreover have "out_inv o3"
        using "1.prems"(2,3) fr re(1) d by (auto simp: out_inv_def retry_within_def)
      moreover have "o2 = o3" "r = Some 0 \<or> r = Some (-1) \<and> (\<exists>a\<in>set net. io_fails o1 a)"
        using "1.prems"(1) unf False rcs fa(1) by (auto split: if_splits)
      ultimately show ?thesis using fr "1.prems"(3) by simp
    qed
  qed
qed

lemma client_send_raw_result:
  assumes res: "client_send_raw alloc net o1 data = (rc, o2, net')" and inv: "out_inv o1"
  shows "out_inv o2 \<and> o_limit o2 = o_limit o1 \<and>
         o_capacity o2 \<le> max (o_capacity o1) (max 4096 (o_limit o1)) \<and>
         (\<exists>k. o_wire o2 @ o_pending o2 = o_wire o1 @ o_pending o1 @ take k data \<and>
              (rc \<ge> 0 \<longrightarrow> length data \<le> k))"
proof (cases "data = [] \<or> o_overflowed o1")
  case True
  then have "o2 = o1" "rc \<ge> 0 \<longrightarrow> data = []" using res by (auto simp: client_send_raw_def split: if_splits)
  then show ?thesis using inv by (auto intro: exI [of _ 0])
next
  case False
  then have ne: "data \<noteq> []" and ok: "\<not> o_overflowed o1" by auto
  show ?thesis
  proof (cases "o_pending o1 = []")
    case pend: False
    obtain q o3 where qa: "queue_append alloc o1 data = (q, o3)" by fastforce
    have r: "o2 = o3" "rc \<ge> 0 \<longrightarrow> q = 0"
      using res ne ok pend qa by (auto simp: client_send_raw_def Let_def split: if_splits)
    show ?thesis
      using queue_append_cases [OF out_inv_queue [OF inv ok] ok qa] out_inv_append [OF inv ok qa] r
      by (cases "q = 0") (auto intro: exI [of _ "length data"] exI [of _ 0])
  next
    case empty: True
    obtain b rest o3 net3 where sl: "send_loop o1 net data = (b, rest, o3, net3)" by (metis prod_cases4)
    have nr: "\<not> o_retry_pending o1" using inv ok empty by (auto simp: out_inv_def retry_within_def)
    note sr = send_loop_result [OF sl nr]
    then obtain k where k: "rest = drop k data" "o_wire o3 = o_wire o1 @ take k data" by blast
    have q3: "o_start o3 + length (o_pending o3) \<le> o_capacity o3" "length (o_pending o3) \<le> o_limit o3"
      using sr inv empty ok by (auto simp: out_inv_def)
    show ?thesis
    proof (cases "b \<and> rest \<noteq> []")
      case False
      then have r: "o2 = o3" "rc \<ge> 0 \<longrightarrow> rest = []"
        using res ne ok empty sl by (auto simp: client_send_raw_def Let_def split: if_splits bool.splits)
      have "out_inv o3"
        using sr inv empty ok False by (cases b) (auto simp: out_inv_def retry_within_def)
      moreover have "o_wire o2 @ o_pending o2 = o_wire o1 @ o_pending o1 @ take k data"
        using r sr k empty by simp
      moreover have "rc \<ge> 0 \<longrightarrow> length data \<le> k"
        using r(2) k(1) by simp
      ultimately show ?thesis using sr r(1) by auto
    next
      case True
      text \<open>The unsent rest is queued on \<open>o3\<close>, whose pending retry covers exactly part of it.\<close>
      obtain q o4 where qa: "queue_append alloc o3 rest = (q, o4)" by fastforce
      have r: "o2 = o4" "rc \<ge> 0 \<longrightarrow> q = 0"
        using res ne ok empty sl True qa by (auto simp: client_send_raw_def Let_def split: if_splits)
      have inv3: "queue_inv o3" "\<not> o_overflowed o3"
        using q3 sr ok by (auto simp: queue_inv_def)
      note qc = queue_append_cases [OF inv3 qa]
      have lens: "length (o_pending o4) = (if q = 0 then length rest else 0)"
        using qc sr empty by (cases "q = 0") simp_all
      have rw: "retry_within o4 (length rest)"
        using qc sr by (simp add: retry_within_def)
      have "out_inv o4"
        using qc lens rw by (cases "q = 0") (simp_all add: out_inv_def)
      moreover have "o_wire o4 @ o_pending o4 = o_wire o1 @ o_pending o1 @ take (if q = 0 then length data + k else k) data"
        using qc k sr empty by (cases "q = 0") simp_all
      moreover have "rc \<ge> 0 \<longrightarrow> length data \<le> (if q = 0 then length data + k else k)"
        using r(2) by simp
      moreover have "o_limit o4 = o_limit o1" "o_capacity o4 \<le> max (o_capacity o1) (max 4096 (o_limit o1))"
        using qc sr by simp_all
      ultimately show ?thesis
        using r(1) by blast
    qed
  qed
qed

lemma client_set_output_limit_inv: "out_inv o1 \<Longrightarrow> out_inv (client_set_output_limit o1 limit)"
  by (auto simp: client_set_output_limit_def out_inv_def Let_def retry_within_def)

lemma client_out_create_inv: "out_inv client_out_create"
  by (simp add: client_out_create_def out_inv_def retry_within_def)

subsection \<open>Frames\<close>

text \<open>
  A well-formed frame: one line ended by CRLF with no other line break, its message part at
  most 510 bytes; an untagged frame is at most 512 bytes on the wire.
\<close>

definition frame_ok :: "string \<Rightarrow> bool" where
  "frame_ok f \<longleftrightarrow>
     (\<exists>l. f = l @ [CR, LF] \<and> CR \<notin> set l \<and> LF \<notin> set l \<and>
          (if starts_with ''@'' l
           then message_tags_length l \<le> IRCV3_COMBINED_TAG_SECTION_MAX \<and>
                length (drop (message_tags_length l) l) \<le> IRC_LINE_CONTENT_MAX
           else length f \<le> IRC_WIRE_LINE_MAX))"

lemma content_fits_frame: "client_line_content_fits l \<Longrightarrow> frame_ok (l @ [CR, LF])"
  by (auto simp: client_line_content_fits_def frame_ok_def split: if_splits)

lemma send_framed_result:
  assumes "send_framed caps env o1 line = (rc, env', o2)" and "out_inv o1"
  shows "out_inv o2 \<and> (rc \<ge> 0 \<longrightarrow> (\<exists>f. frame_ok f \<and> o_wire o2 @ o_pending o2 = o_wire o1 @ o_pending o1 @ f))"
proof -
  define outbound where "outbound = stamp_line caps (oe_stamp env) line"
  obtain r o3 net3 where sr:
    "client_send_raw (oe_alloc env) (oe_net env) o1 (outbound @ [CR, LF]) = (r, o3, net3)"
    by (metis prod_cases3)
  have sf: "send_framed caps env o1 line =
     (if \<not> client_line_content_fits outbound then (-1, env, o1)
      else if length (outbound @ [CR, LF]) \<ge> CLIENT_FORMAT_BUFFER_SIZE then (-1, env, o1)
      else if \<not> starts_with ''@'' outbound \<and> length (outbound @ [CR, LF]) > IRC_WIRE_LINE_MAX then (-1, env, o1)
      else (r, env\<lparr>oe_net := net3\<rparr>, o3))"
    unfolding send_framed_def outbound_def [symmetric] Let_def using sr by simp
  show ?thesis
  proof (cases "o2 = o1 \<and> rc = -1")
    case True
    then show ?thesis using assms(2) by simp
  next
    case False
    then have fits: "client_line_content_fits outbound" and "rc = r" "o2 = o3"
      using assms(1) unfolding sf by (auto split: if_splits)
    then show ?thesis
      using client_send_raw_result [OF sr assms(2)] content_fits_frame [OF fits] by auto
  qed
qed

lemma open_label_batch_result:
  assumes "open_label_batch caps env o1 = (go, env', o2)" and "out_inv o1"
  shows "out_inv o2 \<and> (go \<longrightarrow> (\<exists>f. frame_ok f \<and> o_wire o2 @ o_pending o2 = o_wire o1 @ o_pending o1 @ f))"
proof -
  have inv: "out_inv (o1\<lparr>o_lr_batch := b, o_lr_started := c\<rparr>)" "out_inv (o1\<lparr>o_lr_batch := b\<rparr>)" for b c
    using assms(2) by (simp_all add: out_inv_def retry_within_def)
  show ?thesis
    using assms(1) inv unfolding open_label_batch_def Let_def
    by (auto split: if_splits prod.splits dest!: send_framed_result)
qed

subsection \<open>Properties\<close>

text \<open>
  C14: the output path neither loses, duplicates nor reorders bytes.  Whatever the transport
  answers, the bytes accepted so far followed by the queue are extended by exactly the data
  when \<open>client_send_raw\<close> reports success, and by a prefix of it otherwise; the queue
  invariant is kept, and the allocation stays within the configured limit (or the initial
  4096 bytes).
\<close>

theorem output_stream_fifo:
  assumes "client_send_raw alloc net o1 data = (rc, o2, net')" and "out_inv o1"
  shows "out_inv o2 \<and>
         o_capacity o2 \<le> max (o_capacity o1) (max 4096 (o_limit o1)) \<and>
         (rc \<ge> 0 \<longrightarrow> o_wire o2 @ o_pending o2 = o_wire o1 @ o_pending o1 @ data) \<and>
         (rc < 0 \<longrightarrow> (\<exists>k. o_wire o2 @ o_pending o2 = o_wire o1 @ o_pending o1 @ take k data))"
  using client_send_raw_result [OF assms] by auto

theorem output_stream_fifo_witness:
  "out_inv (fst (snd (client_send_raw True [IoWrote 2, IoAgain] client_out_create ''abcde''))) \<and>
   o_wire (fst (snd (client_send_raw True [IoWrote 2, IoAgain] client_out_create ''abcde''))) = ''ab''"
proof -
  have r: "client_send_raw True [IoWrote 2, IoAgain] client_out_create ''abcde'' =
      (5, client_out_create\<lparr>o_wire := ''ab'', o_pending := ''cde'', o_capacity := 4096\<rparr>, [])"
    by (simp add: client_send_raw_def client_out_create_def send_loop.simps transport_write_def next_io_def
        accepted_def queue_append_def size_sub_def grow_capacity.simps Let_def)
  show ?thesis
    using output_stream_fifo [OF r client_out_create_inv] by (simp add: r)
qed

text \<open>
  Flushing sends queued bytes in order and only those.  The accepted bytes followed by
  the queue are unchanged, the invariant is kept, result 1 means that the queue is empty,
  and a result of -1 never comes from a stale TLS retry length: it means that the transport
  reported a failure.
\<close>

theorem flush_preserves_stream:
  assumes "client_flush_output o1 net = (rc, o2, net')" and "out_inv o1" and "\<not> o_overflowed o1"
  shows "o_wire o2 @ o_pending o2 = o_wire o1 @ o_pending o1 \<and> out_inv o2 \<and>
         rc \<in> {-1, 0, 1} \<and> (rc = 1 \<longrightarrow> o_pending o2 = []) \<and>
         (rc = -1 \<longrightarrow> (\<exists>a\<in>set net. io_fails o1 a))"
proof -
  obtain r o3 net3 where fl: "flush_loop 0 o1 net = (r, o3, net3)" by (metis prod_cases3)
  note fr = flush_loop_result [OF fl assms(2,3)]
  show ?thesis
    using assms(1) fl fr
    by (cases r) (auto simp: client_flush_output_def out_inv_def retry_within_def split: if_splits)
qed

theorem flush_preserves_stream_witness:
  "o_wire (fst (snd (client_flush_output
      (client_out_create\<lparr>o_pending := ''abc'', o_capacity := 3\<rparr>) [IoWrote 2, IoWrote 5]))) = ''abc''"
proof -
  let ?o = "client_out_create\<lparr>o_pending := ''abc'', o_capacity := 3\<rparr>"
  have r: "client_flush_output ?o [IoWrote 2, IoWrote 5] =
      (1, client_out_create\<lparr>o_capacity := 3, o_wire := ''abc''\<rparr>, [])"
    by (simp add: client_flush_output_def flush_loop.simps transport_write_def next_io_def accepted_def
        client_out_create_def Let_def)
  have "out_inv ?o" "\<not> o_overflowed ?o"
    by (simp_all add: out_inv_def client_out_create_def retry_within_def)
  from flush_preserves_stream [OF r this] show ?thesis
    unfolding r by (simp add: client_out_create_def)
qed

text \<open>
  Every line the server manages to send is framed.  When \<open>client_send_line\<close> reports
  success, the stream grows by one or two complete frames (the second when the line opens a
  labeled-response batch): each ends in CRLF, contains no other CR or LF, and respects the
  512-byte limit of untagged lines or the tag and message budgets of tagged ones.
\<close>

theorem sent_lines_are_framed:
  assumes "client_send_line caps env o1 line = (rc, env', o2)" and "out_inv o1"
  shows "out_inv o2 \<and>
         (rc \<ge> 0 \<longrightarrow>
            (\<exists>fs. length fs \<in> {1, 2} \<and> (\<forall>f\<in>set fs. frame_ok f) \<and>
                  o_wire o2 @ o_pending o2 = o_wire o1 @ o_pending o1 @ concat fs))"
proof -
  show ?thesis
  proof (cases "o_lr_active o1 \<and> o_lr_suppressed o1 = 0 \<and> \<not> o_lr_started o1")
    case False
    then have "rc = -1 \<and> o2 = o1 \<or> (\<exists>l. send_framed caps env o1 l = (rc, env', o2))"
      using assms(1) unfolding client_send_line_def by (auto simp: Let_def split: if_splits option.splits)
    then show ?thesis
    proof (elim disjE exE)
      fix l assume sf: "send_framed caps env o1 l = (rc, env', o2)"
      show ?thesis
      proof (cases "rc \<ge> 0")
        case True
        then obtain f where "frame_ok f" "o_wire o2 @ o_pending o2 = o_wire o1 @ o_pending o1 @ f"
          using send_framed_result [OF sf assms(2)] by blast
        then show ?thesis
          using send_framed_result [OF sf assms(2)] by (intro conjI impI exI [of _ "[f]"]) auto
      qed (use send_framed_result [OF sf assms(2)] in auto)
    qed (use assms(2) in auto)
  next
    case True
    obtain go env1 o3 where ob: "open_label_batch caps env o1 = (go, env1, o3)" by (metis prod_cases3)
    note obr = open_label_batch_result [OF ob assms(2)]
    show ?thesis
    proof (cases "rc \<ge> 0")
      case False
      have "o2 = o3 \<or> (\<exists>l. send_framed caps env1 o3 l = (rc, env', o2))"
        using assms(1) ob True unfolding client_send_line_def
        by (auto simp: Let_def split: if_splits option.splits)
      then show ?thesis
        using False obr send_framed_result by blast
    next
      case ok: True
      then obtain l where go: "go" and sf: "send_framed caps env1 o3 l = (rc, env', o2)"
        using assms(1) ob True unfolding client_send_line_def
        by (auto simp: Let_def split: if_splits option.splits)
      obtain f where f: "frame_ok f" "o_wire o3 @ o_pending o3 = o_wire o1 @ o_pending o1 @ f"
        using obr go by blast
      obtain g where g: "frame_ok g" "o_wire o2 @ o_pending o2 = o_wire o3 @ o_pending o3 @ g"
        using send_framed_result [OF sf] obr ok by blast
      have "o_wire o2 @ o_pending o2 = o_wire o1 @ o_pending o1 @ concat [f, g]"
        using f(2) g(2) by simp
      then show ?thesis
        using f(1) g(1) send_framed_result [OF sf] obr by (intro conjI impI exI [of _ "[f, g]"]) auto
    qed
  qed
qed

theorem sent_lines_are_framed_witness:
  "out_inv (snd (snd (client_send_line 0 \<lparr>oe_alloc = True, oe_net = [], oe_serial = 0, oe_stamp = []\<rparr>
     client_out_create '':s PING x''))) \<and>
   o_pending (snd (snd (client_send_line 0 \<lparr>oe_alloc = True, oe_net = [], oe_serial = 0, oe_stamp = []\<rparr>
     client_out_create '':s PING x''))) = '':s PING x'' @ [CR, LF]"
proof -
  let ?env = "\<lparr>oe_alloc = True, oe_net = [], oe_serial = 0, oe_stamp = []\<rparr>"
  have r: "client_send_line 0 ?env client_out_create '':s PING x'' =
      (11, ?env, client_out_create\<lparr>o_pending := '':s PING x'' @ [CR, LF], o_capacity := 4096\<rparr>)"
    by (simp add: client_send_line_def send_framed_def stamp_line_def client_line_content_fits_def starts_with_def
        client_send_raw_def client_out_create_def send_loop.simps transport_write_def next_io_def
        accepted_def queue_append_def size_sub_def grow_capacity.simps Let_def)
  show ?thesis
    using sent_lines_are_framed [OF r client_out_create_inv] unfolding r by simp
qed

end
