(* ===== verification/Channel.thy ===== *)
theory Channel
  imports Client_State
begin

section \<open>Channel objects (include/channel.h, src/channel.c)\<close>

text \<open>
  The \<open>Channel\<close> structure with its member, mask and invitation lists, and the primitives
  that change it.  The primitives work on one channel object (and one client object where
  the code links the two); theory \<open>Server_State\<close> lifts them to the stores.  Lists are kept
  head first, new entries are prepended as in the code.  \<open>alloc\<close> says whether \<open>calloc\<close>
  succeeds.  \<open>channel_free\<close> is the removal of the reference from the store.
\<close>

abbreviation IRC_CHANNEL_NAME_MAX :: nat where "IRC_CHANNEL_NAME_MAX \<equiv> 32"

abbreviation IRC_CHANNEL_KEY_MAX :: nat where "IRC_CHANNEL_KEY_MAX \<equiv> 63"

abbreviation IRC_CHANNEL_TOPIC_MAX :: nat where "IRC_CHANNEL_TOPIC_MAX \<equiv> 390"

abbreviation IRC_CHANNEL_TOPIC_SETTER_MAX :: nat where "IRC_CHANNEL_TOPIC_SETTER_MAX \<equiv> 91"

abbreviation IRC_CHANNEL_MASK_LIST_MAX :: nat where "IRC_CHANNEL_MASK_LIST_MAX \<equiv> 100"

abbreviation IRC_CHANNEL_INVITE_MAX :: nat where "IRC_CHANNEL_INVITE_MAX \<equiv> 128"

record mask_entry =
  me_mask :: string
  me_protected_authorized :: bool

record member =
  m_client :: cref
  m_privileges :: u32
  m_manual_privileges :: u32
  m_service_privileges :: u32

record channel =
  ch_name :: string
  ch_modes :: u64
  ch_topic :: string
  ch_topic_setter :: string
  ch_topic_time :: time_t
  ch_key :: string
  ch_user_limit :: nat
  ch_join_throttle_count :: u32
  ch_join_throttle_seconds :: u32
  ch_join_throttle_window_count :: u32
  ch_join_throttle_window_start :: time_t
  ch_limit_redirect :: string
  ch_ban_redirect :: string
  ch_chanserv_policy_loaded :: bool
  ch_chanserv_policy_valid :: bool
  ch_chanserv_founder :: string
  ch_chanserv_mode_lock :: u64
  ch_chanserv_secure_ops :: bool
  ch_chanserv_successor :: string
  ch_chanserv_greeting :: string
  ch_ban_list :: "mask_entry list"
  ch_exception_list :: "mask_entry list"
  ch_invite_exception_list :: "mask_entry list"
  ch_invites :: "u64 list"
  ch_members :: "member list"
  ch_member_count :: nat

definition channel_zero :: channel where
  "channel_zero = \<lparr>
     ch_name = [], ch_modes = 0, ch_topic = [], ch_topic_setter = [], ch_topic_time = 0, ch_key = [],
     ch_user_limit = 0, ch_join_throttle_count = 0, ch_join_throttle_seconds = 0,
     ch_join_throttle_window_count = 0, ch_join_throttle_window_start = 0, ch_limit_redirect = [],
     ch_ban_redirect = [], ch_chanserv_policy_loaded = False, ch_chanserv_policy_valid = False,
     ch_chanserv_founder = [], ch_chanserv_mode_lock = 0, ch_chanserv_secure_ops = False,
     ch_chanserv_successor = [], ch_chanserv_greeting = [], ch_ban_list = [], ch_exception_list = [],
     ch_invite_exception_list = [], ch_invites = [], ch_members = [], ch_member_count = 0\<rparr>"

subsection \<open>Names and creation\<close>

definition channel_name_valid :: "string \<Rightarrow> bool" where
  "channel_name_valid name \<longleftrightarrow>
     starts_with ''#&'' name \<and> \<not> (length name < 2 \<or> length name > IRC_CHANNEL_NAME_MAX) \<and>
     (\<forall>ch \<in> set (drop 1 name). \<not> (code ch \<le> 0x20 \<or> ch = CHR '','' \<or> ch = CHR '':'' \<or> code ch = 0x7F))"

definition channel_create :: "bool \<Rightarrow> string \<Rightarrow> channel option" where
  "channel_create alloc name =
     (if \<not> channel_name_valid name then None
      else if \<not> alloc then None
      else Some (channel_zero\<lparr>ch_name := take IRC_CHANNEL_NAME_MAX name\<rparr>))"

subsection \<open>Membership\<close>

definition channel_find_member :: "channel \<Rightarrow> cref \<Rightarrow> member option" where
  "channel_find_member ch c = find (\<lambda>m. m_client m = c) (ch_members ch)"

definition channel_has_client :: "channel \<Rightarrow> cref \<Rightarrow> bool" where
  "channel_has_client ch c \<longleftrightarrow> channel_find_member ch c \<noteq> None"

text \<open>\<open>h\<close> and \<open>c\<close> are the references of the two objects.\<close>

definition channel_add_client ::
  "bool \<Rightarrow> chref \<Rightarrow> cref \<Rightarrow> channel \<Rightarrow> client \<Rightarrow> int \<times> channel \<times> client" where
  "channel_add_client alloc h c ch cl =
     (if channel_find_member ch c \<noteq> None then (0, ch, cl)
      else if \<not> alloc then (-1, ch, cl)
      else (0,
            ch\<lparr>ch_members := \<lparr>m_client = c, m_privileges = 0, m_manual_privileges = 0,
                               m_service_privileges = 0\<rparr> # ch_members ch,
               ch_member_count := ch_member_count ch + 1\<rparr>,
            cl\<lparr>c_channels := h # c_channels cl, c_channel_count := c_channel_count cl + 1\<rparr>))"

fun unlink_member :: "cref \<Rightarrow> member list \<Rightarrow> member list option" where
  "unlink_member c [] = None"
| "unlink_member c (m # ms) =
     (if m_client m = c then Some ms else map_option ((#) m) (unlink_member c ms))"

fun unlink_channel :: "chref \<Rightarrow> chref list \<Rightarrow> chref list option" where
  "unlink_channel h [] = None"
| "unlink_channel h (x # xs) = (if x = h then Some xs else map_option ((#) x) (unlink_channel h xs))"

definition channel_remove_client ::
  "chref \<Rightarrow> cref \<Rightarrow> channel \<Rightarrow> client \<Rightarrow> channel \<times> client" where
  "channel_remove_client h c ch cl =
     ((case unlink_member c (ch_members ch) of
         None \<Rightarrow> ch
       | Some ms \<Rightarrow> ch\<lparr>ch_members := ms,
                       ch_member_count := (if ch_member_count ch > 0 then ch_member_count ch - 1 else 0)\<rparr>),
      (case unlink_channel h (c_channels cl) of
         None \<Rightarrow> cl
       | Some hs \<Rightarrow> cl\<lparr>c_channels := hs,
                       c_channel_count := (if c_channel_count cl > 0 then c_channel_count cl - 1 else 0)\<rparr>))"

subsection \<open>Privileges\<close>

text \<open>Changing the first member record of a client, the one \<open>channel_find_member\<close> returns.\<close>

fun member_update :: "cref \<Rightarrow> (member \<Rightarrow> member) \<Rightarrow> member list \<Rightarrow> member list" where
  "member_update c f [] = []"
| "member_update c f (m # ms) = (if m_client m = c then f m # ms else m # member_update c f ms)"

definition with_member :: "channel \<Rightarrow> cref \<Rightarrow> (member \<Rightarrow> member) \<Rightarrow> int \<times> channel" where
  "with_member ch c f =
     (case channel_find_member ch c of
        None \<Rightarrow> (-1, ch)
      | Some _ \<Rightarrow> (0, ch\<lparr>ch_members := member_update c f (ch_members ch)\<rparr>))"

definition channel_set_privileges :: "channel \<Rightarrow> cref \<Rightarrow> u32 \<Rightarrow> int \<times> channel" where
  "channel_set_privileges ch c p =
     with_member ch c (\<lambda>m. m\<lparr>m_manual_privileges := p, m_service_privileges := 0, m_privileges := p\<rparr>)"

definition channel_add_privileges :: "channel \<Rightarrow> cref \<Rightarrow> u32 \<Rightarrow> int \<times> channel" where
  "channel_add_privileges ch c p =
     with_member ch c (\<lambda>m. let manual = m_manual_privileges m OR p
        in m\<lparr>m_manual_privileges := manual, m_privileges := manual OR m_service_privileges m\<rparr>)"

definition channel_remove_privileges :: "channel \<Rightarrow> cref \<Rightarrow> u32 \<Rightarrow> int \<times> channel" where
  "channel_remove_privileges ch c p =
     with_member ch c (\<lambda>m. let manual = m_manual_privileges m AND NOT p;
                               service = m_service_privileges m AND NOT p
        in m\<lparr>m_manual_privileges := manual, m_service_privileges := service,
              m_privileges := manual OR service\<rparr>)"

definition channel_remove_manual_privileges :: "channel \<Rightarrow> cref \<Rightarrow> u32 \<Rightarrow> int \<times> channel" where
  "channel_remove_manual_privileges ch c p =
     with_member ch c (\<lambda>m. let manual = m_manual_privileges m AND NOT p
        in m\<lparr>m_manual_privileges := manual, m_privileges := manual OR m_service_privileges m\<rparr>)"

definition channel_set_service_privileges :: "channel \<Rightarrow> cref \<Rightarrow> u32 \<Rightarrow> int \<times> channel" where
  "channel_set_service_privileges ch c p =
     with_member ch c (\<lambda>m. m\<lparr>m_service_privileges := p, m_privileges := m_manual_privileges m OR p\<rparr>)"

definition channel_forget_service_privileges :: "channel \<Rightarrow> channel" where
  "channel_forget_service_privileges ch =
     ch\<lparr>ch_members := map (\<lambda>m. let manual = m_manual_privileges m OR m_service_privileges m
        in m\<lparr>m_manual_privileges := manual, m_service_privileges := 0, m_privileges := manual\<rparr>)
        (ch_members ch)\<rparr>"

subsection \<open>Mask lists\<close>

fun mask_mark :: "string \<Rightarrow> bool \<Rightarrow> mask_entry list \<Rightarrow> mask_entry list option" where
  \<comment> \<open>the search of \<open>channel_mask_add_authorized\<close>: an existing entry may gain the authorization\<close>
  "mask_mark m prot [] = None"
| "mask_mark m prot (e # es) =
     (if me_mask e = m then Some ((if prot then e\<lparr>me_protected_authorized := True\<rparr> else e) # es)
      else map_option ((#) e) (mask_mark m prot es))"

definition channel_mask_add_authorized ::
  "bool \<Rightarrow> mask_entry list \<Rightarrow> string \<Rightarrow> bool \<Rightarrow> int \<times> mask_entry list" where
  "channel_mask_add_authorized alloc list m prot =
     (if m = [] \<or> length m > IRC_CHANNEL_MASK_MAX then (-1, list)
      else case mask_mark m prot list of
             Some list' \<Rightarrow> (0, list')
           | None \<Rightarrow>
               if length list \<ge> IRC_CHANNEL_MASK_LIST_MAX then (-2, list)
               else if \<not> alloc then (-1, list)
               else (0, \<lparr>me_mask = take IRC_CHANNEL_MASK_MAX m, me_protected_authorized = prot\<rparr> # list))"

definition channel_mask_add :: "bool \<Rightarrow> mask_entry list \<Rightarrow> string \<Rightarrow> int \<times> mask_entry list" where
  "channel_mask_add alloc list m = channel_mask_add_authorized alloc list m False"

fun channel_mask_remove :: "mask_entry list \<Rightarrow> string \<Rightarrow> int \<times> mask_entry list" where
  "channel_mask_remove [] m = (0, [])"
| "channel_mask_remove (e # es) m =
     (if me_mask e = m then (1, es) else (let (rc, es') = channel_mask_remove es m in (rc, e # es')))"

definition channel_mask_clear :: "mask_entry list \<Rightarrow> mask_entry list" where
  "channel_mask_clear list = []"

subsection \<open>Invariants\<close>

definition member_inv :: "member \<Rightarrow> bool" where
  "member_inv m \<longleftrightarrow> m_privileges m = m_manual_privileges m OR m_service_privileges m"

definition members_inv :: "channel \<Rightarrow> bool" where
  "members_inv ch \<longleftrightarrow>
     distinct (map m_client (ch_members ch)) \<and> ch_member_count ch = length (ch_members ch) \<and>
     list_all member_inv (ch_members ch)"

definition mask_list_inv :: "mask_entry list \<Rightarrow> bool" where
  "mask_list_inv l \<longleftrightarrow>
     length l \<le> IRC_CHANNEL_MASK_LIST_MAX \<and> distinct (map me_mask l) \<and>
     (\<forall>e\<in>set l. me_mask e \<noteq> [] \<and> length (me_mask e) \<le> IRC_CHANNEL_MASK_MAX)"

text \<open>The members as a set of references.\<close>

abbreviation member_refs :: "channel \<Rightarrow> cref set" where
  "member_refs ch \<equiv> m_client ` set (ch_members ch)"

subsection \<open>Lemmas on members\<close>

lemma find_member_None: "channel_find_member ch c = None \<longleftrightarrow> c \<notin> member_refs ch"
  by (auto simp: channel_find_member_def find_None_all)

lemma has_client_iff: "channel_has_client ch c \<longleftrightarrow> c \<in> member_refs ch"
  by (simp add: channel_has_client_def find_member_None)

lemma find_member_Some:
  "channel_find_member ch c = Some m \<Longrightarrow> m \<in> set (ch_members ch) \<and> m_client m = c"
  by (auto simp: channel_find_member_def dest: find_Some_in)

lemma unlink_member_eq:
  "distinct (map m_client ms) \<Longrightarrow>
     unlink_member c ms = (if c \<in> m_client ` set ms then Some (filter (\<lambda>m. m_client m \<noteq> c) ms) else None)"
proof (induction ms)
  case (Cons m ms)
  then show ?case using filter_key_absent [of "m_client m" m_client ms] by auto
qed simp

lemma unlink_channel_eq:
  "distinct hs \<Longrightarrow> unlink_channel h hs = (if h \<in> set hs then Some (filter (\<lambda>x. x \<noteq> h) hs) else None)"
proof (induction hs)
  case (Cons x hs)
  then show ?case using filter_key_absent [of x id hs] by auto
qed simp

lemma member_update_map:
  "distinct (map m_client ms) \<Longrightarrow> member_update c f ms = map (\<lambda>m. if m_client m = c then f m else m) ms"
proof (induction ms)
  case (Cons m ms)
  then show ?case using map_key_absent [of "m_client m" m_client ms f] by auto
qed simp

lemma member_update_clients:
  "(\<And>m. m_client (f m) = m_client m) \<Longrightarrow> map m_client (member_update c f ms) = map m_client ms"
  by (induction ms) auto

lemma member_update_inv:
  "(\<And>m. member_inv m \<Longrightarrow> member_inv (f m)) \<Longrightarrow> list_all member_inv ms \<Longrightarrow> list_all member_inv (member_update c f ms)"
  by (induction ms) auto

lemma with_member_inv:
  assumes "members_inv ch" and "\<And>m. m_client (f m) = m_client m" and "\<And>m. member_inv m \<Longrightarrow> member_inv (f m)"
  shows "members_inv (snd (with_member ch c f))"
proof -
  have "length (member_update c f ms) = length ms" for ms
    by (induction ms) auto
  then show ?thesis
    using assms member_update_clients [of f c] member_update_inv [of f]
    by (auto simp: with_member_def members_inv_def split: option.splits)
qed

lemma with_member_refs:
  assumes "\<And>m. m_client (f m) = m_client m"
  shows "member_refs (snd (with_member ch c f)) = member_refs ch"
proof -
  have "set (map m_client (member_update c f (ch_members ch))) = set (map m_client (ch_members ch))"
    by (simp only: member_update_clients [OF assms])
  then show ?thesis by (simp add: with_member_def split: option.split)
qed

lemma find_member_update:
  assumes "\<And>m. m_client (f m) = m_client m"
  shows "find (\<lambda>m. m_client m = d) (member_update c f ms) =
         (if d = c then map_option f (find (\<lambda>m. m_client m = c) ms) else find (\<lambda>m. m_client m = d) ms)"
  using assms by (induction ms) auto

lemma with_member_find:
  assumes "\<And>m. m_client (f m) = m_client m"
  shows "channel_find_member (snd (with_member ch c f)) d =
         (if d = c then map_option f (channel_find_member ch c) else channel_find_member ch d)"
  using find_member_update [OF assms, of d c "ch_members ch"]
  by (auto simp: with_member_def channel_find_member_def split: option.splits)

text \<open>The three parts of the privilege operations, each a \<^const>\<open>with_member\<close>.\<close>

lemmas privilege_op_defs = channel_set_privileges_def channel_add_privileges_def
  channel_remove_privileges_def channel_remove_manual_privileges_def channel_set_service_privileges_def

lemma privilege_ops_inv [wf_intros]:
  assumes "members_inv ch"
  shows "members_inv (snd (channel_set_privileges ch c p))"
    and "members_inv (snd (channel_add_privileges ch c p))"
    and "members_inv (snd (channel_remove_privileges ch c p))"
    and "members_inv (snd (channel_remove_manual_privileges ch c p))"
    and "members_inv (snd (channel_set_service_privileges ch c p))"
  unfolding privilege_op_defs using assms
  by (auto intro!: with_member_inv simp: Let_def member_inv_def)

lemma forget_service_inv [wf_intros]: "members_inv ch \<Longrightarrow> members_inv (channel_forget_service_privileges ch)"
  by (auto simp: members_inv_def channel_forget_service_privileges_def Let_def member_inv_def list_all_iff o_def)

lemma channel_add_client_inv [wf_intros]:
  "members_inv ch \<Longrightarrow> members_inv (fst (snd (channel_add_client alloc h c ch cl)))"
  by (auto simp: channel_add_client_def members_inv_def find_member_None member_inv_def)

lemma channel_remove_client_inv [wf_intros]:
  assumes "members_inv ch"
  shows "members_inv (fst (channel_remove_client h c ch cl))"
proof -
  have d: "distinct (map m_client (ch_members ch))" using assms by (simp add: members_inv_def)
  show ?thesis
    using assms length_filter_key [OF d, of c] distinct_map_filter_key [OF d]
    by (auto simp: channel_remove_client_def unlink_member_eq [OF d] members_inv_def list_all_iff)
qed

lemma channel_remove_client_refs:
  assumes "members_inv ch"
  shows "member_refs (fst (channel_remove_client h c ch cl)) = member_refs ch - {c}"
proof -
  have d: "distinct (map m_client (ch_members ch))" using assms by (simp add: members_inv_def)
  show ?thesis
    by (auto simp: channel_remove_client_def unlink_member_eq [OF d])
qed

lemma channel_create_inv [wf_intros]: "channel_create alloc name = Some ch \<Longrightarrow> members_inv ch"
  by (auto simp: channel_create_def channel_zero_def members_inv_def split: if_splits)

subsection \<open>Lemmas on mask lists\<close>

lemma mask_mark_None: "mask_mark m prot l = None \<longleftrightarrow> m \<notin> me_mask ` set l"
  by (induction l) auto

lemma mask_mark_masks: "mask_mark m prot l = Some l' \<Longrightarrow> map me_mask l' = map me_mask l"
  by (induction l arbitrary: l') (auto split: if_splits)

lemma mask_remove_subset:
  "set (snd (channel_mask_remove l m)) \<subseteq> set l \<and> length (snd (channel_mask_remove l m)) \<le> length l"
  by (induction l) (auto split: prod.splits)

lemma mask_remove_spec:
  "distinct (map me_mask l) \<Longrightarrow>
     channel_mask_remove l m = (if m \<in> me_mask ` set l then 1 else 0, filter (\<lambda>e. me_mask e \<noteq> m) l)"
proof (induction l)
  case (Cons e l)
  then show ?case using filter_key_absent [of "me_mask e" me_mask l] by auto
qed simp

lemma mask_list_inv_masks:
  "mask_list_inv l \<longleftrightarrow>
     length (map me_mask l) \<le> IRC_CHANNEL_MASK_LIST_MAX \<and> distinct (map me_mask l) \<and>
     (\<forall>m\<in>set (map me_mask l). m \<noteq> [] \<and> length m \<le> IRC_CHANNEL_MASK_MAX)"
  by (simp add: mask_list_inv_def)

lemma mask_list_inv_add:
  assumes "mask_list_inv l"
  shows "mask_list_inv (snd (channel_mask_add_authorized alloc l m prot))"
proof -
  have marked: "mask_list_inv l'" if "mask_mark m prot l = Some l'" for l'
    using assms mask_mark_masks [OF that] unfolding mask_list_inv_masks by simp
  show ?thesis
    using assms marked
    by (auto simp: channel_mask_add_authorized_def mask_list_inv_def mask_mark_None split: option.splits)
qed

lemma mask_list_inv_remove:
  "mask_list_inv l \<Longrightarrow> mask_list_inv (snd (channel_mask_remove l m))"
  using mask_remove_subset [of l m]
  by (auto simp: mask_list_inv_def mask_remove_spec intro: distinct_map_filter_key
      order_trans [OF length_filter_le])

subsection \<open>Properties\<close>

text \<open>
  A member's effective privileges are always the union of those granted by MODE and those
  supplied by ChanServ.  MODE +x adds to the effective set; \<open>channel_remove_privileges\<close>
  removes from both sources; \<open>channel_remove_manual_privileges\<close> cannot take away what ChanServ
  supplies; replacing the ChanServ share keeps the manual share.  No other member changes.
\<close>

theorem effective_privileges:
  assumes "members_inv ch" and "channel_find_member ch c = Some m"
  shows "channel_find_member (snd (channel_add_privileges ch c p)) c =
           Some (m\<lparr>m_manual_privileges := m_manual_privileges m OR p, m_privileges := m_privileges m OR p\<rparr>) \<and>
         map_option m_privileges (channel_find_member (snd (channel_remove_privileges ch c p)) c) =
           Some (m_privileges m AND NOT p) \<and>
         map_option m_privileges (channel_find_member (snd (channel_remove_manual_privileges ch c p)) c) =
           Some ((m_manual_privileges m AND NOT p) OR m_service_privileges m) \<and>
         map_option m_privileges (channel_find_member (snd (channel_set_service_privileges ch c p)) c) =
           Some (m_manual_privileges m OR p) \<and>
         (\<forall>d \<noteq> c. channel_find_member (snd (channel_remove_privileges ch c p)) d = channel_find_member ch d)"
proof -
  have "member_inv m"
    using assms find_member_Some [OF assms(2)] by (auto simp: members_inv_def list_all_iff)
  then have m: "m_privileges m = m_manual_privileges m OR m_service_privileges m"
    by (simp add: member_inv_def)
  have w: "channel_find_member (snd (with_member ch c f)) d =
      (if d = c then Some (f m) else channel_find_member ch d)"
    if "\<And>m. m_client (f m) = m_client m" for f d
    using with_member_find [OF that, of ch c d] assms(2) by simp
  show ?thesis
    unfolding privilege_op_defs
    by (simp add: w Let_def m bit.conj_disj_distrib2 or.assoc or.commute or.left_commute)
qed

theorem effective_privileges_witness:
  "map_option m_privileges (channel_find_member (snd (channel_add_privileges
     (channel_zero\<lparr>ch_members := [\<lparr>m_client = 4, m_privileges = 1, m_manual_privileges = 0,
        m_service_privileges = 1\<rparr>], ch_member_count := 1\<rparr>) 4 4)) 4) = Some 5"
proof -
  let ?m = "\<lparr>m_client = 4, m_privileges = 1, m_manual_privileges = 0, m_service_privileges = 1\<rparr>"
  let ?ch = "channel_zero\<lparr>ch_members := [?m], ch_member_count := 1\<rparr>"
  have "members_inv ?ch" "channel_find_member ?ch 4 = Some ?m"
    by (simp_all add: members_inv_def member_inv_def channel_find_member_def)
  from effective_privileges [OF this, of 4] show ?thesis by simp
qed

text \<open>
  mask lists are bounded sets.  \<open>channel_mask_add_authorized\<close> and \<open>channel_mask_remove\<close>
  keep a list of at most 100 distinct, non-empty masks; adding makes the mask present (or
  returns -2 with the list unchanged exactly when it is full and the mask new, memory
  permitting), an authorization is never lost by adding again, and removing makes it absent.
\<close>

theorem mask_list_operations:
  assumes "mask_list_inv l" and "m \<noteq> []" "length m \<le> IRC_CHANNEL_MASK_MAX"
  shows "mask_list_inv (snd (channel_mask_add_authorized alloc l m prot)) \<and>
         mask_list_inv (snd (channel_mask_remove l m)) \<and>
         me_mask ` set (snd (channel_mask_add_authorized True l m prot)) =
           (if fst (channel_mask_add_authorized True l m prot) = 0 then insert m (me_mask ` set l)
            else me_mask ` set l) \<and>
         (fst (channel_mask_add_authorized True l m prot) = -2 \<longleftrightarrow>
            m \<notin> me_mask ` set l \<and> length l = IRC_CHANNEL_MASK_LIST_MAX) \<and>
         (\<forall>e\<in>set l. me_protected_authorized e \<longrightarrow>
            (\<exists>e'\<in>set (snd (channel_mask_add_authorized alloc l m prot)).
               me_mask e' = me_mask e \<and> me_protected_authorized e')) \<and>
         m \<notin> me_mask ` set (snd (channel_mask_remove l m)) \<and>
         (fst (channel_mask_remove l m) = 1 \<longleftrightarrow> m \<in> me_mask ` set l)"
proof -
  have len: "length l \<le> IRC_CHANNEL_MASK_LIST_MAX" and d: "distinct (map me_mask l)"
    using assms(1) by (simp_all add: mask_list_inv_def)
  have masks: "me_mask ` set l' = me_mask ` set l" "m \<in> me_mask ` set l" if "mask_mark m prot l = Some l'" for l'
    using mask_mark_masks [OF that] mask_mark_None [of m prot l] that by (metis image_set, auto)
  have keep: "\<exists>e'\<in>set l'. me_mask e' = me_mask e \<and> me_protected_authorized e'"
    if "mask_mark m prot l = Some l'" "e \<in> set l" "me_protected_authorized e" for l' e
    using that by (induction l arbitrary: l') (auto split: if_splits)
  show ?thesis
    using mask_list_inv_add [OF assms(1), of alloc m prot] mask_list_inv_remove [OF assms(1), of m]
  proof (intro conjI)
  qed (use assms(2,3) len masks keep mask_mark_None [of m prot l] in
      \<open>auto simp: channel_mask_add_authorized_def mask_remove_spec [OF d] split: option.splits\<close>)
qed

theorem mask_list_operations_witness:
  "snd (channel_mask_add_authorized True [] ''a!*@*'' True) =
     [\<lparr>me_mask = ''a!*@*'', me_protected_authorized = True\<rparr>] \<and>
   mask_list_inv (snd (channel_mask_add_authorized True [] ''a!*@*'' True))"
  using mask_list_operations [of "[]" "''a!*@*''" True True]
  by (simp add: mask_list_inv_def channel_mask_add_authorized_def)

end
