(* ===== verification/Hash.thy ===== *)
theory Hash
  imports IRC_Prelude
begin

section \<open>Case-mapped hash tables (src/hash.c)\<close>

text \<open>
  The separately chained hash table that indexes clients by nickname and by id, channels
  by name and connection counts by address.  A \<open>HashEntry\<close> chain is the list of its
  (key, value) pairs, head first.  The allocator is the Boolean argument \<open>alloc\<close>: whether
  \<open>calloc\<close> and \<open>strdup\<close> succeed.  A destroyed table (\<open>buckets == NULL\<close>) has no buckets.

  The last part states the contract the clients of the table rely on as the locale
  \<open>ci_index\<close>: a finite map whose keys are compared with RFC 1459 casemapping.
\<close>

subsection \<open>Casemapping\<close>

definition irc_fold :: "char \<Rightarrow> char" where
  "irc_fold c =
     (if 65 \<le> code c \<and> code c \<le> 90 then char_of (code c + 32)
      else if c = CHR ''{'' then CHR ''[''
      else if c = CHR ''}'' then CHR '']''
      else if c = CHR ''|'' then CHR 0x5C
      else if c = CHR ''~'' then CHR ''^''
      else c)"

definition hash_step :: "u64 \<Rightarrow> char \<Rightarrow> u64" where
  "hash_step h c = (push_bit 5 h + h) XOR of_char (irc_fold c)"

definition hash_ci :: "string \<Rightarrow> u64" where
  "hash_ci text = foldl hash_step 5381 text"

fun key_equal_ci :: "string \<Rightarrow> string \<Rightarrow> bool" where
  "key_equal_ci (a # as) (b # bs) = (if irc_fold a \<noteq> irc_fold b then False else key_equal_ci as bs)"
| "key_equal_ci as bs = (as = [] \<and> bs = [])"

subsection \<open>The table\<close>

record 'v hash_table =
  bucket_count :: nat
  buckets :: "(string \<times> 'v) list list"

definition hash_init :: "bool \<Rightarrow> nat \<Rightarrow> 'v hash_table option" where
  "hash_init alloc n =
     (if n = 0 then None
      else if \<not> alloc then None
      else Some \<lparr>bucket_count = n, buckets = replicate n []\<rparr>)"

definition hash_destroy :: "'v hash_table \<Rightarrow> 'v hash_table \<times> 'v list" where
  \<comment> \<open>the second component lists the values passed to \<open>free_value\<close>, in order\<close>
  "hash_destroy t = (\<lparr>bucket_count = 0, buckets = []\<rparr>, map snd (concat (buckets t)))"

definition bucket_index :: "'v hash_table \<Rightarrow> string \<Rightarrow> nat" where
  "bucket_index t key = unat (hash_ci key) mod bucket_count t"

fun chain_get :: "string \<Rightarrow> (string \<times> 'v) list \<Rightarrow> 'v option" where
  "chain_get key [] = None"
| "chain_get key ((k, v) # es) = (if key_equal_ci k key then Some v else chain_get key es)"

fun chain_put :: "string \<Rightarrow> 'v \<Rightarrow> (string \<times> 'v) list \<Rightarrow> (string \<times> 'v) list option" where
  "chain_put key v [] = None"
| "chain_put key v ((k, w) # es) =
     (if key_equal_ci k key then Some ((k, v) # es) else map_option ((#) (k, w)) (chain_put key v es))"

fun chain_del :: "string \<Rightarrow> (string \<times> 'v) list \<Rightarrow> (string \<times> 'v) list" where
  "chain_del key [] = []"
| "chain_del key ((k, v) # es) = (if key_equal_ci k key then es else (k, v) # chain_del key es)"

definition hash_get :: "'v hash_table \<Rightarrow> string \<Rightarrow> 'v option" where
  "hash_get t key =
     (if buckets t = [] then None else chain_get key (buckets t ! bucket_index t key))"

definition hash_set :: "bool \<Rightarrow> 'v hash_table \<Rightarrow> string \<Rightarrow> 'v \<Rightarrow> int \<times> 'v hash_table" where
  "hash_set alloc t key v =
     (if buckets t = [] then (-1, t)
      else let i = bucket_index t key; chain = buckets t ! i
           in case chain_put key v chain of
                Some chain' \<Rightarrow> (0, t\<lparr>buckets := (buckets t)[i := chain']\<rparr>)
              | None \<Rightarrow> if \<not> alloc then (-1, t)
                        else (0, t\<lparr>buckets := (buckets t)[i := (key, v) # chain]\<rparr>))"

definition hash_remove :: "'v hash_table \<Rightarrow> string \<Rightarrow> 'v option \<times> 'v hash_table" where
  "hash_remove t key =
     (if buckets t = [] then (None, t)
      else let i = bucket_index t key; chain = buckets t ! i
           in case chain_get key chain of
                Some v \<Rightarrow> (Some v, t\<lparr>buckets := (buckets t)[i := chain_del key chain]\<rparr>)
              | None \<Rightarrow> (None, t))"

text \<open>
  The invariant: there are \<open>bucket_count\<close> chains, every entry sits in the chain of its
  hash, and no chain holds two case-equivalent keys.
\<close>

definition fold_key :: "string \<Rightarrow> string" where
  "fold_key = map irc_fold"

definition hash_inv :: "'v hash_table \<Rightarrow> bool" where
  "hash_inv t \<longleftrightarrow>
     0 < bucket_count t \<and> length (buckets t) = bucket_count t \<and>
     (\<forall>i < bucket_count t. distinct (map (fold_key \<circ> fst) (buckets t ! i)) \<and>
        (\<forall>e \<in> set (buckets t ! i). bucket_index t (fst e) = i))"

text \<open>The values the table holds, in bucket order, as \<open>LIST\<close> walks them.\<close>

definition hash_values :: "'v hash_table \<Rightarrow> 'v list" where
  "hash_values t = map snd (concat (buckets t))"

text \<open>The abstract table: a finite map from folded keys to values.\<close>

definition hash_abs :: "'v hash_table \<Rightarrow> string \<Rightarrow> 'v option" where
  "hash_abs t k = (if fold_key k = k then hash_get t k else None)"

text \<open>
  \<open>index_of get nm\<close>: a lookup finds exactly the objects that carry the name, where \<open>nm\<close>
  gives the name under which an object is entered (\<open>None\<close> for an object that is not).
\<close>

definition index_of :: "(string \<Rightarrow> 'v option) \<Rightarrow> ('v \<Rightarrow> string option) \<Rightarrow> bool" where
  "index_of get nm \<longleftrightarrow>
     (\<forall>k v. get k = Some v \<longleftrightarrow> (\<exists>n. nm v = Some n \<and> fold_key n = fold_key k))"

subsection \<open>Keys\<close>

lemma key_equal_ci_iff: "key_equal_ci a b \<longleftrightarrow> fold_key a = fold_key b"
  by (induction a b rule: key_equal_ci.induct) (auto simp: fold_key_def)

lemma hash_ci_fold: "foldl hash_step h a = foldl (\<lambda>h c. (push_bit 5 h + h) XOR of_char c) h (fold_key a)"
  by (induction a arbitrary: h) (auto simp: hash_step_def fold_key_def)

lemma hash_ci_cong: "fold_key a = fold_key b \<Longrightarrow> hash_ci a = hash_ci b"
  unfolding hash_ci_def by (simp only: hash_ci_fold [of 5381 a] hash_ci_fold [of 5381 b])

lemma bucket_index_cong: "fold_key a = fold_key b \<Longrightarrow> bucket_index t a = bucket_index t b"
  unfolding bucket_index_def by (simp only: hash_ci_cong [of a b])

lemma bucket_index_buckets [simp]: "bucket_index (t\<lparr>buckets := bs\<rparr>) k = bucket_index t k"
  by (simp add: bucket_index_def)

lemma bucket_index_less: "hash_inv t \<Longrightarrow> bucket_index t k < bucket_count t"
  by (simp add: hash_inv_def bucket_index_def)

lemma hash_inv_buckets_ne: "hash_inv t \<Longrightarrow> buckets t \<noteq> []"
  by (auto simp: hash_inv_def)

subsection \<open>Chains\<close>

lemma chain_get_map_of:
  "chain_get key es = map_of (map (\<lambda>(k, v). (fold_key k, v)) es) (fold_key key)"
  by (induction es) (auto simp: key_equal_ci_iff)

lemma chain_get_cong: "fold_key a = fold_key b \<Longrightarrow> chain_get a es = chain_get b es"
  by (simp add: chain_get_map_of)

lemma chain_put_None: "chain_put key v es = None \<longleftrightarrow> fold_key key \<notin> (fold_key \<circ> fst) ` set es"
  by (induction key v es rule: chain_put.induct) (auto simp: key_equal_ci_iff)

lemma chain_put_keys:
  "chain_put key v es = Some es' \<Longrightarrow> map fst es' = map fst es"
  by (induction es arbitrary: es') (auto split: if_splits)

lemma chain_put_get:
  "chain_put key v es = Some es' \<Longrightarrow>
     chain_get k es' = (if fold_key k = fold_key key then Some v else chain_get k es)"
  by (induction es arbitrary: es') (auto simp: key_equal_ci_iff split: if_splits)

lemma chain_del_subset: "set (chain_del key es) \<subseteq> set es"
  by (induction key es rule: chain_del.induct) auto

lemma chain_del_distinct:
  "distinct (map (fold_key \<circ> fst) es) \<Longrightarrow> distinct (map (fold_key \<circ> fst) (chain_del key es))"
proof (induction key es rule: chain_del.induct)
  case (2 key k v es)
  then show ?case
    using chain_del_subset [of key es] by (auto simp: image_iff)
qed simp

lemma chain_get_None: "chain_get k es = None \<longleftrightarrow> fold_key k \<notin> (fold_key \<circ> fst) ` set es"
  by (induction k es rule: chain_get.induct) (auto simp: key_equal_ci_iff)

lemma chain_del_get:
  "distinct (map (fold_key \<circ> fst) es) \<Longrightarrow>
     chain_get k (chain_del key es) = (if fold_key k = fold_key key then None else chain_get k es)"
proof (induction es)
  case Nil
  then show ?case by simp
next
  case (Cons e es)
  obtain k0 v where e: "e = (k0, v)" by fastforce
  show ?case
  proof (cases "fold_key k0 = fold_key key")
    case True
    have "chain_get k es = None" if "fold_key k = fold_key key"
      using Cons.prems True that by (auto simp: e chain_get_None image_iff)
    then show ?thesis
      using True by (auto simp: e key_equal_ci_iff)
  next
    case False
    then show ?thesis
      using Cons by (auto simp: e key_equal_ci_iff)
  qed
qed

subsection \<open>The table as a case-mapped map\<close>

text \<open>Replacing the chain of one bucket.\<close>

lemma hash_inv_update:
  assumes "hash_inv t" and "i < bucket_count t"
    and "distinct (map (fold_key \<circ> fst) c)" and "\<forall>e \<in> set c. bucket_index t (fst e) = i"
  shows "hash_inv (t\<lparr>buckets := (buckets t)[i := c]\<rparr>)"
  using assms by (auto simp: hash_inv_def nth_list_update)

lemma hash_get_update:
  assumes "hash_inv t" and "i < bucket_count t"
  shows "hash_get (t\<lparr>buckets := (buckets t)[i := c]\<rparr>) k =
           (if bucket_index t k = i then chain_get k c else hash_get t k)"
  using assms bucket_index_less [OF assms(1), of k]
  by (auto simp: hash_get_def hash_inv_def)

lemma hash_init_inv: "hash_init alloc n = Some t \<Longrightarrow> hash_inv t"
  by (auto simp: hash_init_def hash_inv_def split: if_splits)

lemma hash_init_get: "hash_init alloc n = Some t \<Longrightarrow> hash_get t k = None"
proof -
  assume a: "hash_init alloc n = Some t"
  then have t: "t = \<lparr>bucket_count = n, buckets = replicate n []\<rparr>" and n: "n \<noteq> 0"
    by (auto simp: hash_init_def split: if_splits)
  have "bucket_index t k < n"
    using bucket_index_less [OF hash_init_inv [OF a], of k] t by simp
  then show ?thesis
    using t by (simp add: hash_get_def)
qed

lemma bucket_facts:
  assumes "hash_inv t"
  shows "distinct (map (fold_key \<circ> fst) (buckets t ! bucket_index t k))"
    and "\<forall>e \<in> set (buckets t ! bucket_index t k). bucket_index t (fst e) = bucket_index t k"
  using assms bucket_index_less [OF assms, of k] by (auto simp: hash_inv_def)

lemma hash_set_inv:
  assumes inv: "hash_inv t"
  shows "hash_inv (snd (hash_set alloc t key v))"
proof -
  let ?i = "bucket_index t key" let ?c = "buckets t ! bucket_index t key"
  note bf = bucket_facts [OF inv, of key] and lt = bucket_index_less [OF inv, of key]
  show ?thesis
  proof (cases "chain_put key v ?c")
    case None
    then have "distinct (map (fold_key \<circ> fst) ((key, v) # ?c))"
      using bf(1) by (auto simp: chain_put_None)
    then show ?thesis
      using None inv bf lt by (auto simp: hash_set_def Let_def intro!: hash_inv_update)
  next
    case (Some c)
    have keys: "map fst c = map fst ?c"
      by (rule chain_put_keys [OF Some])
    have d: "distinct (map (fold_key \<circ> fst) c)"
      using bf(1) keys by (metis map_map)
    have "\<forall>k \<in> set (map fst c). bucket_index t k = ?i"
      using bf(2) unfolding keys by simp
    then have "\<forall>e \<in> set c. bucket_index t (fst e) = ?i"
      by simp
    with d show ?thesis
      using Some inv lt by (auto simp: hash_set_def Let_def intro!: hash_inv_update)
  qed
qed

lemma hash_set_rc: "hash_inv t \<Longrightarrow> fst (hash_set True t key v) = 0"
  by (auto simp: hash_set_def Let_def hash_inv_buckets_ne split: option.splits)

lemma hash_set_get:
  assumes inv: "hash_inv t"
  shows "hash_get (snd (hash_set True t key v)) k =
           (if fold_key k = fold_key key then Some v else hash_get t k)"
proof -
  let ?i = "bucket_index t key" let ?c = "buckets t ! bucket_index t key"
  have lt: "?i < bucket_count t" by (rule bucket_index_less [OF inv])
  have ne: "buckets t \<noteq> []" by (rule hash_inv_buckets_ne [OF inv])
  have same: "bucket_index t k = ?i" if "fold_key k = fold_key key"
    by (rule bucket_index_cong [OF that])
  have get: "hash_get t k = chain_get k ?c" if "bucket_index t k = ?i"
    using that ne by (simp add: hash_get_def)
  show ?thesis
  proof (cases "chain_put key v ?c")
    case None
    then have "snd (hash_set True t key v) = t\<lparr>buckets := (buckets t)[?i := (key, v) # ?c]\<rparr>"
      using ne by (simp add: hash_set_def Let_def)
    then show ?thesis
      using hash_get_update [OF inv lt] same get by (auto simp: key_equal_ci_iff)
  next
    case (Some c)
    then have "snd (hash_set True t key v) = t\<lparr>buckets := (buckets t)[?i := c]\<rparr>"
      using ne by (simp add: hash_set_def Let_def)
    then show ?thesis
      using hash_get_update [OF inv lt] same get chain_put_get [OF Some, of k] by auto
  qed
qed

lemma hash_set_failed: "fst (hash_set alloc t key v) \<noteq> 0 \<Longrightarrow> snd (hash_set alloc t key v) = t"
  by (auto simp: hash_set_def Let_def split: option.splits if_splits)

lemma hash_remove_fst:
  "fst (hash_remove t key) = hash_get t key"
  by (auto simp: hash_remove_def hash_get_def Let_def split: option.splits)

lemma hash_remove_inv:
  assumes inv: "hash_inv t"
  shows "hash_inv (snd (hash_remove t key))"
proof -
  note bf = bucket_facts [OF inv, of key] and lt = bucket_index_less [OF inv, of key]
  have "\<forall>e \<in> set (chain_del key (buckets t ! bucket_index t key)). bucket_index t (fst e) = bucket_index t key"
    using bf(2) chain_del_subset by fastforce
  then show ?thesis
    using inv chain_del_distinct [OF bf(1), of key] lt
    by (auto simp: hash_remove_def Let_def intro!: hash_inv_update split: option.splits)
qed

lemma hash_remove_get:
  assumes inv: "hash_inv t"
  shows "hash_get (snd (hash_remove t key)) k =
           (if fold_key k = fold_key key then None else hash_get t k)"
proof -
  let ?i = "bucket_index t key" let ?c = "buckets t ! bucket_index t key"
  have lt: "?i < bucket_count t" by (rule bucket_index_less [OF inv])
  have ne: "buckets t \<noteq> []" by (rule hash_inv_buckets_ne [OF inv])
  have same: "bucket_index t k = ?i" if "fold_key k = fold_key key"
    by (rule bucket_index_cong [OF that])
  have get: "hash_get t k = chain_get k ?c" if "bucket_index t k = ?i"
    using that ne by (simp add: hash_get_def)
  show ?thesis
  proof (cases "chain_get key ?c")
    case None
    then have "hash_get t k = None" if "fold_key k = fold_key key"
      using None chain_get_cong [OF that, of ?c] get [OF same [OF that]] by simp
    then show ?thesis
      using None ne by (simp add: hash_remove_def Let_def)
  next
    case (Some v)
    then have "snd (hash_remove t key) = t\<lparr>buckets := (buckets t)[?i := chain_del key ?c]\<rparr>"
      using ne by (simp add: hash_remove_def Let_def)
    then show ?thesis
      using hash_get_update [OF inv lt] same get chain_del_get [OF bucket_facts(1) [OF inv, of key], of k key]
      by auto
  qed
qed

lemma hash_get_cong: "fold_key a = fold_key b \<Longrightarrow> hash_get t a = hash_get t b"
  by (simp add: hash_get_def bucket_index_cong [of a b] chain_get_cong [of a b])

lemma hash_set_get_failed:
  "fst (hash_set alloc t key v) = 0 \<Longrightarrow> snd (hash_set alloc t key v) = snd (hash_set True t key v)"
  by (auto simp: hash_set_def Let_def split: option.splits if_splits)

lemma irc_fold_idem [simp]: "irc_fold (irc_fold c) = irc_fold c"
  by (cases "65 \<le> code c \<and> code c \<le> 90") (auto simp: irc_fold_def char_of_eq_iff take_bit_eq_mod)

lemma fold_key_idem [simp]: "fold_key (fold_key k) = fold_key k"
  by (simp add: fold_key_def)

lemma fold_key_Nil [simp]: "fold_key k = [] \<longleftrightarrow> k = []" "fold_key [] = []"
  by (simp_all add: fold_key_def)

lemma hash_get_abs: "hash_get t k = hash_abs t (fold_key k)"
  by (simp add: hash_abs_def hash_get_cong [of "fold_key k" k])

subsection \<open>The contract of an index\<close>

locale ci_index =
  fixes inv :: "'t \<Rightarrow> bool"
    and get :: "'t \<Rightarrow> string \<Rightarrow> 'v option"
    and put :: "'t \<Rightarrow> string \<Rightarrow> 'v \<Rightarrow> 't"
    and del :: "'t \<Rightarrow> string \<Rightarrow> 't"
  assumes put_inv: "inv t \<Longrightarrow> inv (put t k v)"
    and del_inv: "inv t \<Longrightarrow> inv (del t k)"
    and put_get: "inv t \<Longrightarrow> get (put t k v) j = (if fold_key j = fold_key k then Some v else get t j)"
    and del_get: "inv t \<Longrightarrow> get (del t k) j = (if fold_key j = fold_key k then None else get t j)"
begin

text \<open>Entering a new object, removing one, and moving one to another name.\<close>

lemma index_insert:
  assumes "inv t" "index_of (get t) nm" "get t k = None" "nm v = None"
  shows "index_of (get (put t k v)) (nm(v := Some k))"
  unfolding index_of_def
proof (intro allI)
  fix j w
  have idx: "get t j = Some w \<longleftrightarrow> (\<exists>n. nm w = Some n \<and> fold_key n = fold_key j)" for j w
    using assms(2) by (simp add: index_of_def)
  have fresh: "fold_key n \<noteq> fold_key k" if "nm w = Some n" for n w
    using idx [of k w] assms(3) that by auto
  show "get (put t k v) j = Some w \<longleftrightarrow> (\<exists>n. (nm(v := Some k)) w = Some n \<and> fold_key n = fold_key j)"
    using idx [of j w] assms(4) fresh [of w] by (auto simp: put_get [OF assms(1)])
qed

lemma index_delete:
  assumes "inv t" "index_of (get t) nm" "nm v = Some n" "fold_key n = fold_key k"
  shows "index_of (get (del t k)) (nm(v := None))"
  unfolding index_of_def
proof (intro allI)
  fix j w
  have idx: "get t j = Some w \<longleftrightarrow> (\<exists>n. nm w = Some n \<and> fold_key n = fold_key j)" for j w
    using assms(2) by (simp add: index_of_def)
  have v: "get t k = Some v"
    using idx [of k v] assms(3,4) by blast
  have other: "fold_key m \<noteq> fold_key k" if "nm w = Some m" "w \<noteq> v" for m
    using idx [of k w] v that by auto
  show "get (del t k) j = Some w \<longleftrightarrow> (\<exists>n. (nm(v := None)) w = Some n \<and> fold_key n = fold_key j)"
    using idx [of j w] assms(3,4) other by (auto simp: del_get [OF assms(1)])
qed

lemma index_rename:
  assumes "inv t" "index_of (get t) nm" "nm v = Some n" "get t k = None"
  shows "index_of (get (put (del t n) k v)) (nm(v := Some k))"
proof -
  have "index_of (get (del t n)) (nm(v := None))"
    using index_delete [OF assms(1,2,3)] by simp
  moreover have "get (del t n) k = None"
    using assms by (simp add: del_get)
  ultimately show ?thesis
    using index_insert [of "del t n" "nm(v := None)" k v] del_inv [OF assms(1)] by simp
qed

text \<open>Two objects in the index never share a name.\<close>

lemma index_unique:
  assumes "index_of (get t) nm" "nm v = Some m" "nm w = Some n" "fold_key m = fold_key n"
  shows "v = w"
  using assms unfolding index_of_def by (metis option.inject)

lemma index_lookup:
  assumes "index_of (get t) nm" "nm v = Some n" "fold_key n = fold_key k"
  shows "get t k = Some v"
  using assms unfolding index_of_def by blast

lemma index_absent:
  assumes "index_of (get t) nm" "get t k = None" "nm v = Some n"
  shows "fold_key n \<noteq> fold_key k"
  using assms unfolding index_of_def by (metis option.distinct(1))

end

interpretation ht: ci_index hash_inv hash_get
  "\<lambda>t k v. snd (hash_set True t k v)" "\<lambda>t k. snd (hash_remove t k)"
  by unfold_locales (simp_all add: hash_set_inv hash_remove_inv hash_set_get hash_remove_get)

subsection \<open>Properties\<close>

text \<open>
  C15: the hash table implements a finite map over RFC 1459 folded keys.  A lookup reads the
  map at the folded key; a successful \<open>hash_set\<close> updates it there and nowhere else, a failed
  one changes nothing; \<open>hash_remove\<close> returns what the map held and deletes it; and every
  operation keeps the bucket invariant.
\<close>

theorem hash_table_refines_map:
  assumes "hash_inv t"
  shows "hash_get t key = hash_abs t (fold_key key) \<and>
         hash_inv (snd (hash_set alloc t key v)) \<and>
         hash_abs (snd (hash_set alloc t key v)) =
           (if fst (hash_set alloc t key v) = 0 then (hash_abs t)(fold_key key \<mapsto> v) else hash_abs t) \<and>
         fst (hash_set True t key v) = 0 \<and>
         hash_inv (snd (hash_remove t key)) \<and>
         fst (hash_remove t key) = hash_abs t (fold_key key) \<and>
         hash_abs (snd (hash_remove t key)) = (hash_abs t)(fold_key key := None)"
proof -
  have set_abs: "hash_abs (snd (hash_set True t key v)) = (hash_abs t)(fold_key key \<mapsto> v)"
    using hash_set_get [OF assms, of key v] by (fastforce simp: hash_abs_def)
  have "hash_abs (snd (hash_set alloc t key v)) =
      (if fst (hash_set alloc t key v) = 0 then (hash_abs t)(fold_key key \<mapsto> v) else hash_abs t)"
    using set_abs hash_set_failed [of alloc t key v] hash_set_get_failed [of alloc t key v] by simp
  moreover have "hash_abs (snd (hash_remove t key)) = (hash_abs t)(fold_key key := None)"
    using hash_remove_get [OF assms, of key] by (fastforce simp: hash_abs_def)
  ultimately show ?thesis
    using hash_set_inv [OF assms] hash_set_rc [OF assms] hash_remove_inv [OF assms]
    by (simp add: hash_remove_fst hash_get_abs)
qed

theorem hash_table_refines_map_witness:
  "hash_abs (snd (hash_set True \<lparr>bucket_count = 1, buckets = [[]]\<rparr> ''N{'' (7::nat))) ''n['' = Some 7"
proof -
  have inv: "hash_inv \<lparr>bucket_count = 1, buckets = [[]]\<rparr>" and fk: "fold_key ''N{'' = ''n[''"
    by (simp_all add: hash_inv_def fold_key_def irc_fold_def char_of_eq_iff)
  show ?thesis
    using hash_table_refines_map [OF inv, of "''N{''" True "7::nat"] by (simp only: fk) simp
qed

end
