(* ===== verification/Glob.thy ===== *)
theory Glob
  imports IRC_Prelude
begin

section \<open>Wildcard matching\<close>

text \<open>
  The iterative matcher with its two back-tracking pointers that \<open>channel_policy.c\<close>, \<open>ban_db.c\<close> and
  \<open>geoban_db.c\<close> each contain, over the case folding \<open>low\<close> of the file, and its agreement with the declarative
  \<open>glob\<close>.
\<close>

lemma tl_shorter: "tl b \<noteq> [] \<Longrightarrow> length b - Suc 0 < length b"
  by (cases b) auto

text \<open>\<open>star\<close> holds the pointers \<open>star\<close> and \<open>retry\<close>, which are set together.\<close>

function match_loop :: "(char \<Rightarrow> char) \<Rightarrow> string \<Rightarrow> string \<Rightarrow> (string \<times> string) option \<Rightarrow> bool" where
  "match_loop low pattern text star =
     (case text of
        [] \<Rightarrow> dropWhile (\<lambda>c. c = CHR ''*'') pattern = []
      | t # ts \<Rightarrow>
          (case pattern of
             [] \<Rightarrow> (case star of
                      Some (sp, retry) \<Rightarrow> match_loop low sp (tl retry) (Some (sp, tl retry))
                    | None \<Rightarrow> False)
           | p # ps \<Rightarrow>
               if p = CHR ''*'' then match_loop low ps text (Some (ps, text))
               else if p = CHR ''?'' \<or> low p = low t then match_loop low ps ts star
               else (case star of
                       Some (sp, retry) \<Rightarrow> match_loop low sp (tl retry) (Some (sp, tl retry))
                     | None \<Rightarrow> False)))"
  by pat_completeness auto
termination
  by (relation "measures
        [\<lambda>(low, p, t, s). case s of None \<Rightarrow> Suc (length p) | Some (sp, r) \<Rightarrow> max (length p) (length sp),
         \<lambda>(low, p, t, s). if t = [] then 0 else case s of None \<Rightarrow> 0 | Some (sp, r) \<Rightarrow> Suc (length r),
         \<lambda>(low, p, t, s). length p + length t]")
     (auto simp: tl_shorter split: option.splits)

declare match_loop.simps [simp del]

text \<open>What a mask means: \<open>*\<close> stands for any text, \<open>?\<close> for one character.\<close>

fun glob :: "(char \<Rightarrow> char) \<Rightarrow> string \<Rightarrow> string \<Rightarrow> bool" where
  "glob low [] t = (t = [])"
| "glob low (p # ps) t =
     (if p = CHR ''*'' then list_ex (\<lambda>k. glob low ps (drop k t)) [0..<Suc (length t)]
      else case t of
             [] \<Rightarrow> False
           | c # cs \<Rightarrow> (p = CHR ''?'' \<or> low p = low c) \<and> glob low ps cs)"

subsection \<open>Correctness of the matcher\<close>

lemma glob_star: "glob low (CHR ''*'' # ps) t \<longleftrightarrow> (\<exists>k \<le> length t. glob low ps (drop k t))"
  by (auto simp: list_ex_iff less_Suc_eq_le simp del: upt_Suc)

lemma glob_Nil: "glob low p [] \<longleftrightarrow> dropWhile (\<lambda>c. c = CHR ''*'') p = []"
proof (induction p)
  case (Cons c p)
  then show ?case
    by (cases "c = CHR ''*''") (simp_all add: glob_star del: glob.simps(2), simp)
qed simp

lemma glob_literal_prefix:
  "CHR ''*'' \<notin> set u \<Longrightarrow> glob low (u @ p) s \<Longrightarrow> length u \<le> length s \<and> glob low p (drop (length u) s)"
  by (induction u arbitrary: s) (auto split: list.splits)

lemma glob_star_drop: "j \<le> length t \<Longrightarrow> glob low (CHR ''*'' # q) (drop j t) \<Longrightarrow> glob low (CHR ''*'' # q) t"
  unfolding glob_star by clarsimp (metis add.commute add_le_imp_le_diff le_add_diff_inverse2 nat_add_left_cancel_le)

text \<open>
  The invariant of the loop: the text since \<open>retry\<close> was matched by the star-free part \<open>u\<close>
  of the pattern since \<open>star\<close>.
\<close>

definition star_inv :: "string \<Rightarrow> string \<Rightarrow> (string \<times> string) option \<Rightarrow> bool" where
  "star_inv p t star \<longleftrightarrow>
     (case star of None \<Rightarrow> True
      | Some (sp, r) \<Rightarrow> \<exists>u v. sp = u @ p \<and> r = v @ t \<and> length v = length u \<and> CHR ''*'' \<notin> set u)"

definition later_match :: "(char \<Rightarrow> char) \<Rightarrow> (string \<times> string) option \<Rightarrow> bool" where
  "later_match low star \<longleftrightarrow>
     (case star of None \<Rightarrow> False
      | Some (sp, r) \<Rightarrow> \<exists>k. 1 \<le> k \<and> k \<le> length r \<and> glob low sp (drop k r))"

lemma later_match_end:
  assumes "star_inv p [] star" shows "\<not> later_match low star"
proof (rule notI)
  assume "later_match low star"
  then obtain sp r k where s: "star = Some (sp, r)" "1 \<le> k" "k \<le> length r" "glob low sp (drop k r)"
    by (auto simp: later_match_def split: option.splits)
  then obtain u where "sp = u @ p" "length r = length u" "CHR ''*'' \<notin> set u"
    using assms by (auto simp: star_inv_def)
  then show False
    using s glob_literal_prefix [of u low p "drop k r"] by (cases "length u") auto
qed

lemma later_match_star:
  assumes "star_inv (CHR ''*'' # q) t star" and "later_match low star"
  shows "glob low (CHR ''*'' # q) t"
proof -
  obtain sp r k where s: "star = Some (sp, r)" "1 \<le> k" "k \<le> length r" "glob low sp (drop k r)"
    using assms(2) by (auto simp: later_match_def split: option.splits)
  then obtain u v where u: "sp = u @ CHR ''*'' # q" "r = v @ t" "length v = length u" "CHR ''*'' \<notin> set u"
    using assms(1) by (auto simp: star_inv_def)
  have g: "length u \<le> length (drop k r)" "glob low (CHR ''*'' # q) (drop (length u) (drop k r))"
    using glob_literal_prefix [OF u(4)] s(4) u(1) by blast+
  have "drop (length u) (drop k r) = drop k t"
  proof -
    have "drop (length u) (drop k r) = drop (k + length v) (v @ t)"
      using u(2,3) by (simp only: drop_drop add.commute)
    then show ?thesis by simp
  qed
  moreover have "k \<le> length t"
    using g(1) u(2,3) s(3) by simp
  ultimately show ?thesis
    using g(2) glob_star_drop by metis
qed

lemma later_match_step:
  assumes "r \<noteq> []"
  shows "later_match low (Some (sp, r)) \<longleftrightarrow> glob low sp (tl r) \<or> later_match low (Some (sp, tl r))"
proof -
  have d: "drop (Suc k) r = drop k (tl r)" for k by (simp add: drop_Suc)
  have "(\<exists>k. 1 \<le> k \<and> k \<le> length r \<and> glob low sp (drop k r)) \<longleftrightarrow>
        (\<exists>k. k \<le> length (tl r) \<and> glob low sp (drop k (tl r)))"
  proof
    assume "\<exists>k. 1 \<le> k \<and> k \<le> length r \<and> glob low sp (drop k r)"
    then obtain k where "1 \<le> k" "k \<le> length r" "glob low sp (drop k r)" by blast
    then show "\<exists>k. k \<le> length (tl r) \<and> glob low sp (drop k (tl r))"
      using d [of "k - 1"] by (intro exI [of _ "k - 1"]) simp
  next
    assume "\<exists>k. k \<le> length (tl r) \<and> glob low sp (drop k (tl r))"
    then obtain k where "k \<le> length (tl r)" "glob low sp (drop k (tl r))" by blast
    then show "\<exists>k. 1 \<le> k \<and> k \<le> length r \<and> glob low sp (drop k r)"
      using d [of k] assms by (intro exI [of _ "Suc k"]) (cases r; simp)
  qed
  also have "\<dots> \<longleftrightarrow> glob low sp (tl r) \<or> (\<exists>k. 1 \<le> k \<and> k \<le> length (tl r) \<and> glob low sp (drop k (tl r)))"
    by (metis One_nat_def Suc_leI drop_0 gr0I le0)
  finally show ?thesis by (simp add: later_match_def)
qed

lemma match_loop_correct:
  "star_inv p t star \<Longrightarrow> match_loop low p t star \<longleftrightarrow> glob low p t \<or> later_match low star"
proof (induction low p t star rule: match_loop.induct)
  case (1 low p t star)
  show ?case
  proof (cases t)
    case Nil
    then show ?thesis
      using later_match_end [of p star low] "1.prems" by (simp add: match_loop.simps [of low p "[]" star] glob_Nil)
  next
    case (Cons c ts)
    have bt: "(case star of Some (sp, r) \<Rightarrow> match_loop low sp (tl r) (Some (sp, tl r)) | None \<Rightarrow> False) =
        later_match low star" if "\<And>sp r. star = Some (sp, r) \<Longrightarrow>
          match_loop low sp (tl r) (Some (sp, tl r)) = (glob low sp (tl r) \<or> later_match low (Some (sp, tl r)))"
    proof (cases star)
      case (Some x)
      then obtain sp r where s: "star = Some (sp, r)" by (cases x) auto
      have "r \<noteq> []" using "1.prems" Cons s by (auto simp: star_inv_def)
      then show ?thesis using that [OF s] later_match_step [of r low sp] s by simp
    qed (simp add: later_match_def)
    have si: "star_inv sp (tl r) (Some (sp, tl r))" for sp r
      by (simp add: star_inv_def)
    show ?thesis
    proof (cases p)
      case Nil
      have "match_loop low p t star = later_match low star"
        using bt "1.IH"(1) [OF Cons Nil] si
        by (subst match_loop.simps) (simp add: Cons Nil)
      then show ?thesis using Nil Cons by simp
    next
      case (Cons q ps)
      consider (star) "q = CHR ''*''" | (eq) "q \<noteq> CHR ''*''" "q = CHR ''?'' \<or> low q = low c"
        | (ne) "q \<noteq> CHR ''*''" "\<not> (q = CHR ''?'' \<or> low q = low c)" by blast
      then show ?thesis
      proof cases
        case star
        have "match_loop low ps t (Some (ps, t)) = (glob low ps t \<or> later_match low (Some (ps, t)))"
          using "1.IH"(2) [OF \<open>t = c # ts\<close> Cons star] by (simp add: star_inv_def)
        also have "\<dots> \<longleftrightarrow> (\<exists>k \<le> length t. glob low ps (drop k t))"
          by (auto simp: later_match_def) (metis One_nat_def Suc_leI drop_0 gr0I)
        finally have "match_loop low ps t (Some (ps, t)) = glob low p t"
          using glob_star Cons star by simp
        then show ?thesis
          using later_match_star [of ps t star low] "1.prems" star
          by (subst match_loop.simps) (auto simp: \<open>t = c # ts\<close> Cons)
      next
        case eq
        have "star_inv ps ts star"
          using "1.prems" eq(1) unfolding star_inv_def \<open>t = c # ts\<close> Cons
          by (auto split: option.splits)
        then have "match_loop low ps ts star = (glob low ps ts \<or> later_match low star)"
          using "1.IH"(3) [OF \<open>t = c # ts\<close> Cons] eq by simp
        then show ?thesis
          using eq by (subst match_loop.simps) (simp add: \<open>t = c # ts\<close> Cons)
      next
        case ne
        have "match_loop low p t star = later_match low star"
          using bt "1.IH"(4) [OF \<open>t = c # ts\<close> Cons ne(1)] ne si
          by (subst match_loop.simps) (simp add: \<open>t = c # ts\<close> Cons)
        then show ?thesis using ne by (simp add: \<open>t = c # ts\<close> Cons)
      qed
    qed
  qed
qed

lemma match_loop_glob: "match_loop low p t None \<longleftrightarrow> glob low p t"
  using match_loop_correct [of p t None low] by (simp add: star_inv_def later_match_def)

end
