(* ===== verification/Channel_Policy.thy ===== *)
theory Channel_Policy
  imports Channel Hash Glob
begin

section \<open>Masks, access lists, invitations and join throttling (src/channel_policy.c)\<close>

text \<open>
  \<open>irc_mask_match\<close> is the iterative matcher of theory \<open>Glob\<close> under RFC 1459 case folding.  A call of \<open>time(NULL)\<close> is the argument \<open>now\<close>.
\<close>

definition rfc1459_fold :: "char \<Rightarrow> char" where
  "rfc1459_fold c =
     (if 65 \<le> code c \<and> code c \<le> 90 then char_of (code c + 32)
      else if c = CHR ''['' then CHR ''{''
      else if c = CHR '']'' then CHR ''}''
      else if c = CHR 0x5C then CHR ''|''
      else if c = CHR ''^'' then CHR ''~''
      else c)"

subsection \<open>Mask matching\<close>

definition irc_mask_match :: "string \<Rightarrow> string \<Rightarrow> bool" where
  "irc_mask_match pattern text = match_loop rfc1459_fold pattern text None"

definition mask_entry_matches_client :: "mask_entry \<Rightarrow> client \<Rightarrow> bool" where
  "mask_entry_matches_client e cl \<longleftrightarrow>
     irc_mask_match (me_mask e) (take (IRCD_MESSAGE_BUFFER_SIZE - 1) (client_identity cl))"

definition channel_mask_matches_client :: "mask_entry list \<Rightarrow> client \<Rightarrow> bool" where
  "channel_mask_matches_client l cl \<longleftrightarrow> list_ex (\<lambda>e. mask_entry_matches_client e cl) l"

definition authorized_ban_matches_client :: "mask_entry list \<Rightarrow> client \<Rightarrow> bool" where
  "authorized_ban_matches_client l cl \<longleftrightarrow>
     list_ex (\<lambda>e. me_protected_authorized e \<and> mask_entry_matches_client e cl) l"

definition channel_client_is_banned :: "channel \<Rightarrow> client \<Rightarrow> bool" where
  "channel_client_is_banned ch cl \<longleftrightarrow>
     channel_mask_matches_client (ch_ban_list ch) cl \<and>
     \<not> channel_mask_matches_client (ch_exception_list ch) cl"

definition channel_client_is_banned_protected :: "channel \<Rightarrow> client \<Rightarrow> bool" where
  "channel_client_is_banned_protected ch cl \<longleftrightarrow>
     authorized_ban_matches_client (ch_ban_list ch) cl \<and>
     \<not> channel_mask_matches_client (ch_exception_list ch) cl"

definition channel_client_is_invex :: "channel \<Rightarrow> client \<Rightarrow> bool" where
  "channel_client_is_invex ch cl \<longleftrightarrow> channel_mask_matches_client (ch_invite_exception_list ch) cl"

subsection \<open>Invitations\<close>

definition channel_invite_add :: "bool \<Rightarrow> channel \<Rightarrow> u64 \<Rightarrow> int \<times> channel" where
  "channel_invite_add alloc ch i =
     (if i = 0 then (-1, ch)
      else if i \<in> set (ch_invites ch) then (0, ch)
      else if length (ch_invites ch) \<ge> IRC_CHANNEL_INVITE_MAX then (-2, ch)
      else if \<not> alloc then (-1, ch)
      else (0, ch\<lparr>ch_invites := i # ch_invites ch\<rparr>))"

definition channel_invite_has :: "channel \<Rightarrow> u64 \<Rightarrow> bool" where
  "channel_invite_has ch i \<longleftrightarrow> i \<noteq> 0 \<and> i \<in> set (ch_invites ch)"

fun unlink_invite :: "u64 \<Rightarrow> u64 list \<Rightarrow> u64 list option" where
  "unlink_invite i [] = None"
| "unlink_invite i (x # xs) = (if x = i then Some xs else map_option ((#) x) (unlink_invite i xs))"

definition channel_invite_consume :: "channel \<Rightarrow> u64 \<Rightarrow> bool \<times> channel" where
  "channel_invite_consume ch i =
     (if i = 0 then (False, ch)
      else case unlink_invite i (ch_invites ch) of
             Some rest \<Rightarrow> (True, ch\<lparr>ch_invites := rest\<rparr>)
           | None \<Rightarrow> (False, ch))"

definition channel_invite_clear :: "channel \<Rightarrow> channel" where
  "channel_invite_clear ch = ch\<lparr>ch_invites := []\<rparr>"

subsection \<open>Join throttling (+j)\<close>

definition throttle_window_over :: "channel \<Rightarrow> time_t \<Rightarrow> bool" where
  "throttle_window_over ch now \<longleftrightarrow>
     ch_join_throttle_window_count ch = 0 \<or> now < ch_join_throttle_window_start ch \<or>
     now - ch_join_throttle_window_start ch \<ge> uint (ch_join_throttle_seconds ch)"

definition channel_join_throttle_allows :: "channel \<Rightarrow> time_t \<Rightarrow> bool" where
  "channel_join_throttle_allows ch now =
     (if ch_join_throttle_count ch = 0 \<or> ch_join_throttle_seconds ch = 0 then True
      else if throttle_window_over ch now then True
      else ch_join_throttle_window_count ch < ch_join_throttle_count ch)"

definition channel_join_throttle_record :: "channel \<Rightarrow> time_t \<Rightarrow> channel" where
  "channel_join_throttle_record ch now =
     (if ch_join_throttle_count ch = 0 \<or> ch_join_throttle_seconds ch = 0 then ch
      else if throttle_window_over ch now
      then ch\<lparr>ch_join_throttle_window_start := now, ch_join_throttle_window_count := 1\<rparr>
      else ch\<lparr>ch_join_throttle_window_count := ch_join_throttle_window_count ch + 1\<rparr>)"

definition channel_join_throttle_clear :: "channel \<Rightarrow> channel" where
  "channel_join_throttle_clear ch =
     ch\<lparr>ch_join_throttle_window_count := 0, ch_join_throttle_window_start := 0\<rparr>"

subsection \<open>Specifications\<close>

text \<open>Consecutive JOIN attempts against the throttle; the list says which were let in.\<close>

fun throttle_run :: "channel \<Rightarrow> time_t list \<Rightarrow> bool list" where
  "throttle_run ch [] = []"
| "throttle_run ch (now # ts) =
     (if channel_join_throttle_allows ch now
      then True # throttle_run (channel_join_throttle_record ch now) ts
      else False # throttle_run ch ts)"

definition invites_inv :: "channel \<Rightarrow> bool" where
  "invites_inv ch \<longleftrightarrow> distinct (ch_invites ch) \<and> 0 \<notin> set (ch_invites ch) \<and>
     length (ch_invites ch) \<le> IRC_CHANNEL_INVITE_MAX"

lemma irc_mask_match_glob: "irc_mask_match p t \<longleftrightarrow> glob rfc1459_fold p t"
  by (simp add: irc_mask_match_def match_loop_glob)

subsection \<open>Invitations and throttling\<close>

lemma unlink_invite_eq:
  "distinct xs \<Longrightarrow> unlink_invite i xs = (if i \<in> set xs then Some (filter (\<lambda>x. x \<noteq> i) xs) else None)"
proof (induction xs)
  case (Cons x xs)
  then show ?case using filter_key_absent [of x id xs] by auto
qed simp

lemma invite_ops_inv [wf_intros]:
  assumes "invites_inv ch"
  shows "invites_inv (snd (channel_invite_add alloc ch i))"
    and "invites_inv (snd (channel_invite_consume ch i))"
    and "invites_inv (channel_invite_clear ch)"
  using assms
  by (auto simp: invites_inv_def channel_invite_add_def channel_invite_consume_def channel_invite_clear_def
      unlink_invite_eq intro: order_trans [OF length_filter_le])

lemma throttle_window_step:
  assumes "ch_join_throttle_count ch \<noteq> 0" "ch_join_throttle_seconds ch \<noteq> 0" "\<not> throttle_window_over ch now"
  shows "channel_join_throttle_allows ch now \<longleftrightarrow> ch_join_throttle_window_count ch < ch_join_throttle_count ch"
    and "channel_join_throttle_record ch now =
           ch\<lparr>ch_join_throttle_window_count := ch_join_throttle_window_count ch + 1\<rparr>"
  using assms by (simp_all add: channel_join_throttle_allows_def channel_join_throttle_record_def)

lemma throttle_run_blocked:
  assumes "ch_join_throttle_count ch \<noteq> 0" "ch_join_throttle_seconds ch \<noteq> 0"
    and "\<not> ch_join_throttle_window_count ch < ch_join_throttle_count ch"
    and "\<forall>t\<in>set ts. \<not> throttle_window_over ch t"
  shows "throttle_run ch ts = replicate (length ts) False"
  using assms by (induction ts) (auto simp: throttle_window_step)

subsection \<open>Properties\<close>

text \<open>
  C16: \<open>irc_mask_match\<close> decides exactly the glob relation: every mask with \<open>*\<close> and \<open>?\<close> is
  matched under RFC 1459 casemapping, although the code keeps only the last star to go back to.
\<close>

theorem irc_mask_match_correct:
  "irc_mask_match pattern text \<longleftrightarrow> glob rfc1459_fold pattern text"
  by (rule irc_mask_match_glob)

text \<open>
  The two folding functions of the server induce the same case equivalence, so a nickname
  found in the hash table is the nickname that a literal mask matches.
\<close>

theorem casemapping_agrees:
  "irc_fold a = irc_fold b \<longleftrightarrow> rfc1459_fold a = rfc1459_fold b"
proof -
  have unfold: "rfc1459_fold c = (case irc_fold c of d \<Rightarrow>
      if d = CHR ''['' then CHR ''{'' else if d = CHR '']'' then CHR ''}''
      else if d = CHR 0x5C then CHR ''|'' else if d = CHR ''^'' then CHR ''~'' else d)" for c
    by (auto simp: irc_fold_def rfc1459_fold_def char_of_eq_iff take_bit_eq_mod)
  have fold: "irc_fold c = (case rfc1459_fold c of d \<Rightarrow>
      if d = CHR ''{'' then CHR ''['' else if d = CHR ''}'' then CHR '']''
      else if d = CHR ''|'' then CHR 0x5C else if d = CHR ''~'' then CHR ''^'' else d)" for c
    by (auto simp: irc_fold_def rfc1459_fold_def char_of_eq_iff take_bit_eq_mod)
  show ?thesis
    using unfold [of a] unfold [of b] fold [of a] fold [of b] by metis
qed

text \<open>
  A mask list as a map from its masks to their protection marks, and the lookup that the ban decision makes in it.
\<close>

definition mask_map :: "mask_entry list \<Rightarrow> string \<rightharpoonup> bool" where
  "mask_map l = map_of (map (\<lambda>e. (me_mask e, me_protected_authorized e)) l)"

definition covers :: "(string \<rightharpoonup> bool) \<Rightarrow> string \<Rightarrow> bool" where
  "covers masks who \<longleftrightarrow> (\<exists>m\<in>dom masks. glob rfc1459_fold m who)"

definition covers_protected :: "(string \<rightharpoonup> bool) \<Rightarrow> string \<Rightarrow> bool" where
  "covers_protected masks who \<longleftrightarrow> (\<exists>m. masks m = Some True \<and> glob rfc1459_fold m who)"

lemma mask_map_dom: "dom (mask_map l) = me_mask ` set l"
  by (simp add: mask_map_def dom_map_of_conv_image_fst image_image)

lemma mask_map_mark:
  "distinct (map me_mask l) \<Longrightarrow> mask_mark m prot l = Some l' \<Longrightarrow>
     mask_map l' = (mask_map l)(m \<mapsto> prot \<or> mask_map l m = Some True)"
  by (induction l arbitrary: l') (auto simp: mask_map_def fun_eq_iff split: if_splits)

lemma mask_map_remove:
  "distinct (map me_mask l) \<Longrightarrow> mask_map (snd (channel_mask_remove l m)) = (mask_map l)(m := None)"
proof (induction l)
  case (Cons e l)
  then show ?case
    using mask_map_dom [of l] by (auto simp: mask_map_def fun_eq_iff domIff case_prod_beta)
qed (simp add: mask_map_def)

lemma mask_map_add:
  assumes "mask_list_inv l" "channel_mask_add_authorized alloc l m prot = (rc, l')"
  shows "mask_map l' = (if rc = 0 then (mask_map l)(m \<mapsto> prot \<or> mask_map l m = Some True) else mask_map l)"
proof -
  have d: "distinct (map me_mask l)" using assms(1) by (simp add: mask_list_inv_def)
  have new: "mask_map l m = None" if "mask_mark m prot l = None"
    using that mask_map_dom [of l] by (auto simp: mask_mark_None)
  show ?thesis
    using assms(2) mask_map_mark [OF d] new
    by (auto simp: channel_mask_add_authorized_def mask_map_def fun_eq_iff split: if_splits option.splits)
qed

lemma mask_lists_cover:
  assumes "distinct (map me_mask l)"
  shows "channel_mask_matches_client l cl \<longleftrightarrow> covers (mask_map l) (take (IRCD_MESSAGE_BUFFER_SIZE - 1) (client_identity cl))"
    and "authorized_ban_matches_client l cl \<longleftrightarrow> covers_protected (mask_map l) (take (IRCD_MESSAGE_BUFFER_SIZE - 1) (client_identity cl))"
proof -
  show "channel_mask_matches_client l cl \<longleftrightarrow> covers (mask_map l) (take (IRCD_MESSAGE_BUFFER_SIZE - 1) (client_identity cl))"
    by (auto simp: channel_mask_matches_client_def covers_def mask_map_dom list_ex_iff mask_entry_matches_client_def irc_mask_match_glob)
  have "mask_map l m = Some True \<longleftrightarrow> (\<exists>e\<in>set l. me_mask e = m \<and> me_protected_authorized e)" for m
    using map_of_eq_Some_iff [of "map (\<lambda>e. (me_mask e, me_protected_authorized e)) l" m True] assms
    by (auto simp: mask_map_def comp_def)
  then show "authorized_ban_matches_client l cl \<longleftrightarrow> covers_protected (mask_map l) (take (IRCD_MESSAGE_BUFFER_SIZE - 1) (client_identity cl))"
    by (auto simp: authorized_ban_matches_client_def covers_protected_def list_ex_iff mask_entry_matches_client_def irc_mask_match_glob)
qed

text \<open>
  C31: the ban lists implement maps and both ban decisions are decided by the maps.  Adding a mask enters it, with its protection mark, which an
  earlier addition may have set already and which is never lost, or fails and leaves the map as it is; removing takes exactly that mask out.  Against the lists
  that result, a client is banned exactly when some mask of the ban map matches its \<open>nick!user@host\<close> (the 1023 bytes that the buffer
  holds) as a glob under RFC 1459 case and no mask of the exception map does, and a protected client exactly when in addition the matching ban carries the mark.
\<close>

theorem ban_decision:
  assumes "mask_list_inv (ch_ban_list ch)" "mask_list_inv (ch_exception_list ch)"
    and "channel_mask_add_authorized alloc (ch_ban_list ch) m prot = (rc, added)" "channel_mask_remove (ch_ban_list ch) m = (rc', removed)"
    and "l \<in> {ch_ban_list ch, added, removed}"
  shows "mask_map added = (if rc = 0 then (mask_map (ch_ban_list ch))(m \<mapsto> prot \<or> mask_map (ch_ban_list ch) m = Some True) else mask_map (ch_ban_list ch)) \<and>
    mask_map removed = (mask_map (ch_ban_list ch))(m := None) \<and>
    (let ch' = ch\<lparr>ch_ban_list := l\<rparr>; who = take 1023 (client_identity cl)
     in (channel_client_is_banned ch' cl \<longleftrightarrow> covers (mask_map l) who \<and> \<not> covers (mask_map (ch_exception_list ch)) who) \<and>
        (channel_client_is_banned_protected ch' cl \<longleftrightarrow> covers_protected (mask_map l) who \<and> \<not> covers (mask_map (ch_exception_list ch)) who))"
proof (intro conjI)
  have "mask_list_inv added" "mask_list_inv removed"
    using mask_list_inv_add [OF assms(1), of alloc m prot] mask_list_inv_remove [OF assms(1), of m] assms(3,4) by simp_all
  then have d: "distinct (map me_mask l)" "distinct (map me_mask (ch_exception_list ch))"
    using assms(1,2,5) by (auto simp: mask_list_inv_def)
  show "mask_map added = (if rc = 0 then (mask_map (ch_ban_list ch))(m \<mapsto> prot \<or> mask_map (ch_ban_list ch) m = Some True) else mask_map (ch_ban_list ch))"
    by (rule mask_map_add [OF assms(1,3)])
  show "mask_map removed = (mask_map (ch_ban_list ch))(m := None)"
    using mask_map_remove [of "ch_ban_list ch" m] assms(1,4) by (simp add: mask_list_inv_def)
  show "let ch' = ch\<lparr>ch_ban_list := l\<rparr>; who = take 1023 (client_identity cl)
     in (channel_client_is_banned ch' cl \<longleftrightarrow> covers (mask_map l) who \<and> \<not> covers (mask_map (ch_exception_list ch)) who) \<and>
        (channel_client_is_banned_protected ch' cl \<longleftrightarrow> covers_protected (mask_map l) who \<and> \<not> covers (mask_map (ch_exception_list ch)) who)"
    using mask_lists_cover [OF d(1), of cl] mask_lists_cover(1) [OF d(2), of cl]
    by (simp add: channel_client_is_banned_def channel_client_is_banned_protected_def Let_def)
qed

theorem ban_decision_witness:
  "channel_client_is_banned
     (channel_zero\<lparr>ch_ban_list := [\<lparr>me_mask = ''*!*@h'', me_protected_authorized = True\<rparr>]\<rparr>)
     (client_zero\<lparr>c_nick := ''a'', c_user := ''u'', c_display_host := ''h''\<rparr>)"
  using ban_decision [of channel_zero True "''*!*@h''" True 0 "[\<lparr>me_mask = ''*!*@h'', me_protected_authorized = True\<rparr>]" 0 "[]"
      "[\<lparr>me_mask = ''*!*@h'', me_protected_authorized = True\<rparr>]" "client_zero\<lparr>c_nick := ''a'', c_user := ''u'', c_display_host := ''h''\<rparr>"]
  by (simp add: mask_list_inv_def channel_zero_def channel_mask_add_authorized_def covers_def mask_map_def client_identity_def Let_def)

text \<open>
  Invitations are one-use and bounded.  An accepted invitation is present afterwards,
  consuming it succeeds once and only once, other invitations are untouched, and the list
  never holds more than 128 of them.
\<close>

theorem invitations_one_use:
  assumes "invites_inv ch" and "i \<noteq> 0" and "fst (channel_invite_add alloc ch i) = 0"
  shows "let ch1 = snd (channel_invite_add alloc ch i);
             (used, ch2) = channel_invite_consume ch1 i
         in channel_invite_has ch1 i \<and> used \<and> \<not> channel_invite_has ch2 i \<and>
            channel_invite_consume ch2 i = (False, ch2) \<and>
            (\<forall>j. j \<noteq> i \<longrightarrow> channel_invite_has ch2 j = channel_invite_has ch j) \<and>
            invites_inv ch1 \<and> invites_inv ch2"
proof -
  let ?ch1 = "snd (channel_invite_add alloc ch i)"
  have inv1: "invites_inv ?ch1" by (rule invite_ops_inv [OF assms(1)])
  then have d: "distinct (ch_invites ?ch1)" by (simp add: invites_inv_def)
  have mem: "set (ch_invites ?ch1) = insert i (set (ch_invites ch))"
    using assms(2,3) by (auto simp: channel_invite_add_def split: if_splits)
  obtain used ch2 where c: "channel_invite_consume ?ch1 i = (used, ch2)" by fastforce
  then have u: "used" "ch2 = ?ch1\<lparr>ch_invites := filter (\<lambda>x. x \<noteq> i) (ch_invites ?ch1)\<rparr>"
    using assms(2) mem by (auto simp: channel_invite_consume_def unlink_invite_eq [OF d])
  have "channel_invite_consume ch2 i = (False, ch2)"
    using u(2) d by (simp add: channel_invite_consume_def unlink_invite_eq)
  then show ?thesis
    using c u mem assms(2) inv1 invite_ops_inv(2) [OF inv1, of i]
    by (auto simp: channel_invite_has_def)
qed

theorem invitations_one_use_witness:
  "channel_invite_has (snd (channel_invite_add True channel_zero 7)) 7"
proof -
  have h: "invites_inv channel_zero" "(7 :: u64) \<noteq> 0" "fst (channel_invite_add True channel_zero 7) = 0"
    by (simp_all add: invites_inv_def channel_zero_def channel_invite_add_def)
  show ?thesis
    using invitations_one_use [OF h] by (auto simp: Let_def split: prod.splits)
qed

text \<open>
  The +j throttle admits exactly its quota.  While an opened window lasts, of any number
  of attempts exactly as many are admitted as the quota leaves, in order, and the rest are
  refused.
\<close>

theorem throttle_quota:
  assumes "ch_join_throttle_count ch \<noteq> 0" "ch_join_throttle_seconds ch \<noteq> 0"
    and "ch_join_throttle_window_count ch \<noteq> 0"
    and "\<forall>t\<in>set ts. \<not> throttle_window_over ch t"
  shows "throttle_run ch ts =
         (let admitted = min (length ts)
            (unat (ch_join_throttle_count ch) - unat (ch_join_throttle_window_count ch))
          in replicate admitted True @ replicate (length ts - admitted) False)"
  using assms
proof (induction ts arbitrary: ch)
  case Nil
  then show ?case by simp
next
  case (Cons t ts)
  let ?w = "ch_join_throttle_window_count ch" and ?c = "ch_join_throttle_count ch"
  show ?case
  proof (cases "?w < ?c")
    case False
    then show ?thesis
      using throttle_run_blocked [of ch "t # ts"] Cons.prems
      by (simp add: word_less_nat_alt Let_def)
  next
    case True
    have "unat ?w < unat ?c" "unat ?c < 2 ^ 32"
      using True unsigned_less [of ?c] by (simp_all add: word_less_nat_alt)
    then have un: "unat (?w + 1) = Suc (unat ?w)"
      by (simp add: unat_word_ariths)
    then have nz: "?w + 1 \<noteq> 0" by (metis unat_0 nat.distinct(1))
    let ?ch = "ch\<lparr>ch_join_throttle_window_count := ?w + 1\<rparr>"
    have over: "\<not> throttle_window_over ?ch x" if "\<not> throttle_window_over ch x" for x
      using that nz by (simp add: throttle_window_over_def)
    have "throttle_run ch (t # ts) = True # throttle_run ?ch ts"
      using Cons.prems True by (simp add: throttle_window_step)
    also have "throttle_run ?ch ts =
         (let admitted = min (length ts) (unat ?c - unat (?w + 1))
          in replicate admitted True @ replicate (length ts - admitted) False)"
      using Cons.IH [of ?ch] Cons.prems over nz by simp
    finally have run: "throttle_run ch (t # ts) =
        (let admitted = Suc (min (length ts) (unat ?c - Suc (unat ?w)))
         in replicate admitted True @ replicate (Suc (length ts) - admitted) False)"
      by (simp add: un Let_def)
    have "Suc (min (length ts) (unat ?c - Suc (unat ?w))) = min (Suc (length ts)) (unat ?c - unat ?w)"
      using True by (simp add: word_less_nat_alt min_Suc_Suc [symmetric] Suc_diff_Suc del: min_Suc_Suc)
    then show ?thesis
      using run by simp
  qed
qed

theorem throttle_quota_witness:
  "throttle_run (channel_zero\<lparr>ch_join_throttle_count := 2, ch_join_throttle_seconds := 10,
      ch_join_throttle_window_count := 1, ch_join_throttle_window_start := 100\<rparr>) [101, 102, 103] =
   [True, False, False]"
  using throttle_quota [of "channel_zero\<lparr>ch_join_throttle_count := 2, ch_join_throttle_seconds := 10,
      ch_join_throttle_window_count := 1, ch_join_throttle_window_start := 100\<rparr>" "[101, 102, 103]"]
  by (simp add: throttle_window_over_def Let_def)

end
