(* ===== verification/Server_State.thy ===== *)
theory Server_State
  imports Output Channel_Policy
begin

section \<open>The server state (include/server.h, include/runtime_config.h)\<close>

text \<open>
  The \<open>Server\<close> structure, with the heap objects it owns.  \<open>sv_client\<close>, \<open>sv_out\<close> and
  \<open>sv_channel\<close> are the stores of client and channel objects; a reference is allocated from
  a counter and never reused.  \<open>sv_clients\<close> is the array \<open>clients[0 .. client_count - 1]\<close>;
  \<open>sv_live\<close> lists the channels that are allocated and not yet freed.  The hash tables hold
  references.

  The outside world is part of the state: \<open>sv_clock\<close> is \<open>time(NULL)\<close>, \<open>sv_env\<close> the
  transport and allocator of theory \<open>Output\<close>, \<open>sv_csdb\<close> the ChanServ database,
  \<open>sv_canonical_ip\<close> the canonical text of a numeric address (\<open>inet_pton\<close> followed by
  \<open>inet_ntop\<close>), \<open>sv_eline_ip\<close> the ELINE lookup for connection limits,
  \<open>sv_world\<close> the other stores and libraries.  \<open>sv_log\<close> records
  every line handed to \<open>client_send_line\<close> with its receiver, in order; nothing reads it.
\<close>

subsection \<open>The ChanServ tables\<close>

text \<open>
  The rows of \<open>data/chanserv.db\<close> as the code reads them, keyed by the folded channel name
  (the \<open>IRCNOCASE\<close> collation).  \<open>db_ok\<close> says whether the database can be used.
\<close>

record cs_channel =
  csc_name :: string
  csc_founder :: string
  csc_description :: string
  csc_enabled :: bool
  csc_mode_lock :: u64
  csc_topic :: string
  csc_topic_setter :: string
  csc_topic_time :: time_t
  csc_secure_ops :: bool
  csc_successor :: string
  csc_greeting :: string
  csc_logging_enabled :: bool

record cs_access =
  csa_channel :: string
  csa_account :: string
  csa_level :: int

record cs_runtime =
  csr_key :: string
  csr_user_limit :: int
  csr_join_count :: int
  csr_join_seconds :: int
  csr_limit_redirect :: string
  csr_ban_redirect :: string

type_synonym cs_mask_row = "int \<times> string \<times> int"

record cs_db =
  db_ok :: bool
  db_channels :: "string \<Rightarrow> cs_channel option"
  db_access :: "string \<Rightarrow> string \<Rightarrow> cs_access option"
  db_runtime :: "string \<Rightarrow> cs_runtime option"
  db_masks :: "string \<Rightarrow> cs_mask_row list"

subsection \<open>Configuration\<close>

record server_config =
  cf_server_name :: string
  cf_max_clients :: nat
  cf_max_channels :: nat
  cf_max_connections_per_ip :: nat
  cf_connection_limit_exempt_ips :: "string list"
  cf_webirc_gateways :: "(string \<times> string) list"
  cf_reserved_nicks :: "string list"
  cf_registration_timeout_seconds :: u32
  cf_ping_interval_seconds :: u32
  cf_ping_timeout_seconds :: u32
  cf_output_queue_max_bytes :: nat
  cf_dns_timeout_seconds :: u32
  cf_nospoof_enabled :: bool
  cf_nospoof_timeout_seconds :: u32
  cf_server_password :: string
  cf_admin_location1 :: string
  cf_admin_location2 :: string
  cf_admin_email :: string
  cf_network_name :: string
  cf_cloak_prefix :: string
  cf_cloak_key :: string
  cf_dnsbls :: "string list"
  cf_dnsbl_timeout_seconds :: u32
  cf_history_limit :: nat
  cf_kline_default_duration_seconds :: u32
  cf_zline_default_duration_seconds :: u32
  cf_kline_default_reason :: string
  cf_zline_default_reason :: string
  cf_bans_db :: string
  cf_netadmin_name :: string
  cf_netadmin_password_hash :: string
  cf_netadmin_hostmask :: string
  cf_netadmin_vhost :: string
  cf_operators_db :: string
  cf_nickserv_db :: string
  cf_memoserv_db :: string
  cf_memoserv_retention_days :: u32
  cf_memoserv_quota :: nat
  cf_memoserv_sender_quota :: nat
  cf_sendmail_path :: string
  cf_mail_from :: string
  cf_nickserv_registrations_per_ip :: u32
  cf_nickserv_registration_window_seconds :: u32
  cf_nickserv_mail_requests_per_ip :: u32
  cf_nickserv_mail_window_seconds :: u32
  cf_nickserv_mail_global_per_minute :: u32
  cf_argon2_ops_per_ip :: u32
  cf_argon2_window_seconds :: u32
  cf_argon2_global_ops_per_minute :: u32
  cf_argon2_global_burst_per_second :: u32
  cf_nickserv_reset_seconds :: u32
  cf_nickserv_verify_seconds :: u32
  cf_channel_log_queue_max_rows :: nat

record whowas_record =
  ww_nick :: string
  ww_user :: string
  ww_host :: string
  ww_realname :: string
  ww_server_name :: string
  ww_when :: time_t

subsection \<open>Stores and libraries outside the process\<close>

text \<open>
  The rows of the ban, exception and geo-ban tables, the rows handed to the message history, the channel log, and the answers of the libraries the server calls.  \<open>w_pton4\<close> and \<open>w_pton6\<close> are \<open>inet_pton\<close>: the 4 or 16 address
  bytes of a numeric address.  \<open>w_hmac key data\<close> is the start of the HMAC-SHA256 of OpenSSL as a big-endian word, \<open>None\<close>
  when a call of the library fails.  \<open>w_motd\<close> and \<open>w_rules\<close> are the texts of the two files, \<open>w_pchannels\<close> the cached list of
  persistent channels, \<open>w_high_water\<close> the statics of LUSERS and \<open>w_strftime\<close> and \<open>w_localtime\<close> the local time as text in the formats of WHOWAS and TIME.  \<open>w_ban_purge\<close> and \<open>w_geoban_purge\<close>
  are the statics that pace the removal of expired rows.  \<open>w_journal\<close> also records a \<open>shutdown\<close> of the socket of a client and the mails handed to \<open>mail_send_async\<close>
  (receiver, sender, subject, body), whose result is \<open>w_mail_queued\<close>.  \<open>w_argon2_verify hash password\<close> and \<open>w_argon2_hash salt password\<close> are the two calls of
  libargon2, \<open>w_salts\<close> the answers of \<open>getrandom\<close> to come, \<open>w_memo_sequence\<close> the last id of the table of memos, \<open>w_memo_insert\<close> whether the INSERT of a memo succeeds, \<open>w_sha256\<close> and \<open>w_decode_block\<close> the digest and the Base64 decoder of OpenSSL and \<open>w_gmtime\<close> the time in UTC as text.  \<open>w_random\<close> lists the answers of \<open>RAND_bytes\<close> to come.  A table is \<open>None\<close> when it cannot be
  opened or read.
\<close>

record ban_row =
  bn_type :: int
  bn_mask :: string
  bn_reason :: string
  bn_set_by :: string
  bn_created_at :: int
  bn_expires_at :: int

record geoban_row =
  gb_type :: int
  gb_value :: string
  gb_reason :: string
  gb_set_by :: string
  gb_created_at :: int
  gb_expires_at :: int

record history_record =
  hr_target :: string
  hr_command :: string
  hr_nick :: string
  hr_user :: string
  hr_host :: string
  hr_account :: string
  hr_text :: string
  hr_created_at_ms :: int

record operator_row =
  op_name :: string
  op_password_hash :: string
  op_permissions :: string
  op_vhost :: string
  op_enabled :: int
  op_created_at :: int
  op_updated_at :: int
  op_last_opered_at :: int

record account_row =
  ac_name :: string
  ac_password_hash :: string
  ac_vhost :: string
  ac_enabled :: int
  ac_email :: string
  ac_email_verified :: int
  ac_pending_email :: string
  ac_email_verify_token_hash :: string
  ac_email_verify_expires_at :: int
  ac_reset_token_hash :: string
  ac_reset_expires_at :: int
  ac_created_at :: int
  ac_updated_at :: int
  ac_last_identified_at :: int

record memo_row =
  mo_id :: int
  mo_sender :: string
  mo_recipient :: string
  mo_body :: string
  mo_created_at :: int
  mo_read_at :: int
  mo_sender_deleted :: int
  mo_recipient_deleted :: int

datatype journal =
    JournalHistory history_record
  | JournalShutdown cref
  | JournalMail string string string string

text \<open>
  The statics of channel_log.c and the table \<open>channel_log_queue\<close> of the ChanServ database: the cache of channels for which logging was found or switched on
  (newest first), the queued rows (channel, time, body; \<open>None\<close> when the table cannot be used), whether the next INSERT succeeds, the cached number of rows
  (\<open>None\<close> while it is not known) and the time of the last notice about a full queue.
\<close>

record channel_log =
  lg_states :: "(string \<times> bool) list"
  lg_queue :: "(string \<times> int \<times> string) list option"
  lg_insert :: bool
  lg_queue_count :: "nat option"
  lg_queue_full_notice_time :: time_t

record world =
  w_pton4 :: "string \<Rightarrow> string option"
  w_pton6 :: "string \<Rightarrow> string option"
  w_hmac :: "string \<Rightarrow> string \<Rightarrow> u32 option"
  w_random :: "string option list"
  w_now_ms :: int
  w_bans :: "ban_row list option"
  w_exceptions :: "ban_row list option"
  w_geobans :: "geoban_row list option"
  w_geoip :: "string \<Rightarrow> geoip"
  w_dnsbl_submits :: bool
  w_motd :: "string option"
  w_rules :: "string option"
  w_pchannels :: string
  w_started_at :: int
  w_high_water :: "int \<times> nat"
  w_strftime :: "int \<Rightarrow> string"
  w_localtime :: "int \<Rightarrow> string option"
  w_dns_submits :: bool
  w_history_open :: bool
  w_journal :: "journal list"
  w_ban_purge :: "int \<times> string"
  w_geoban_purge :: "int \<times> string"
  w_operators :: "operator_row list option"
  w_accounts :: "account_row list option"
  w_memos :: "memo_row list option"
  w_memo_sequence :: int
  w_decode_block :: "string \<Rightarrow> string option"
  w_memo_purge :: "int \<times> u32 \<times> string"
  w_argon2_verify :: "string \<Rightarrow> string \<Rightarrow> bool"
  w_salts :: "string option list"
  w_argon2_hash :: "string \<Rightarrow> string \<Rightarrow> string option"
  w_sha256 :: "string \<Rightarrow> string"
  w_gmtime :: "int \<Rightarrow> string option"
  w_mail_queued :: bool
  w_memo_insert :: bool
  w_channel_log :: channel_log

definition world_blank :: world where
  "world_blank = \<lparr>
     w_pton4 = (\<lambda>_. None), w_pton6 = (\<lambda>_. None), w_hmac = (\<lambda>_ _. None), w_random = [], w_now_ms = 0,
     w_bans = Some [], w_exceptions = Some [], w_geobans = Some [], w_geoip = (\<lambda>_. geoip_zero), w_dnsbl_submits = True,
     w_motd = None, w_rules = None, w_pchannels = [], w_started_at = 0, w_high_water = (0, 0), w_strftime = (\<lambda>_. []), w_localtime = (\<lambda>_. None), w_dns_submits = True, w_history_open = True,
     w_journal = [], w_ban_purge = (0, []), w_geoban_purge = (0, []),
     w_operators = Some [], w_accounts = Some [], w_memos = Some [], w_memo_sequence = 0, w_decode_block = (\<lambda>_. None), w_memo_purge = (0, 0, []), w_argon2_verify = (\<lambda>_ _. False),
     w_salts = [], w_argon2_hash = (\<lambda>_ _. None), w_sha256 = (\<lambda>_. []), w_gmtime = (\<lambda>_. None), w_mail_queued = True, w_memo_insert = True,
     w_channel_log = \<lparr>lg_states = [], lg_queue = Some [], lg_insert = True, lg_queue_count = None, lg_queue_full_notice_time = 0\<rparr>\<rparr>"

subsection \<open>The server\<close>

text \<open>The one slot of \<open>client_set_free_hook\<close>.\<close>

datatype free_hook = HookNone | HookPresence | HookPmstats

text \<open>A slot of the per-address throttles, and the counters of the rate limits for passwords and mails.\<close>

record throttle =
  th_ip :: string
  th_window_start :: time_t
  th_count :: u32

record limits =
  li_nickserv_registration_throttles :: "throttle list"
  li_nickserv_mail_throttles :: "throttle list"
  li_nickserv_mail_global_window_start :: time_t
  li_nickserv_mail_global_count :: u32
  li_argon2_throttles :: "throttle list"
  li_argon2_global_window_start :: time_t
  li_argon2_global_count :: u32
  li_argon2_burst_window_start :: time_t
  li_argon2_burst_count :: u32

definition throttles_zero :: "throttle list" where
  "throttles_zero = replicate 4096 \<lparr>th_ip = [], th_window_start = 0, th_count = 0\<rparr>"

definition limits_zero :: limits where
  "limits_zero = \<lparr>
     li_nickserv_registration_throttles = throttles_zero, li_nickserv_mail_throttles = throttles_zero,
     li_nickserv_mail_global_window_start = 0, li_nickserv_mail_global_count = 0, li_argon2_throttles = throttles_zero,
     li_argon2_global_window_start = 0, li_argon2_global_count = 0, li_argon2_burst_window_start = 0, li_argon2_burst_count = 0\<rparr>"

record server =
  sv_config :: server_config
  sv_clients :: "cref list"
  sv_client_capacity :: nat
  sv_client :: "cref \<Rightarrow> client"
  sv_next_cref :: cref
  sv_channel :: "chref \<Rightarrow> channel"
  sv_live :: "chref list"
  sv_next_chref :: chref
  sv_channel_count :: nat
  sv_next_client_id :: u64
  sv_clients_by_id :: "cref hash_table"
  sv_clients_by_nick :: "cref hash_table"
  sv_channels_by_name :: "chref hash_table"
  sv_connection_counts_by_ip :: "nat hash_table"
  sv_whowas :: "whowas_record list"
  sv_whowas_next :: nat
  sv_whowas_count :: nat
  sv_command_global_budget_updated :: time_t
  sv_command_global_budget_tokens :: u32
  sv_command_global_throttle_notice_time :: time_t
  sv_free_hook :: free_hook
  sv_pmstats_server :: bool
  sv_limits :: limits
  sv_restart_requested :: bool
  sv_shutdown_requested :: bool
  sv_csdb :: cs_db
  sv_clock :: time_t
  sv_canonical_ip :: "string \<Rightarrow> string option"
  sv_eline_ip :: "string \<Rightarrow> bool"
  sv_world :: world
  sv_out :: "cref \<Rightarrow> client_out"
  sv_env :: out_env
  sv_log :: "(cref \<times> string) list"

text \<open>
  The state that \<open>server_init\<close> sets up with \<open>memset\<close> and \<open>hash_init\<close>; the code uses 4093 buckets
  for each of the tables.
\<close>

definition hash_blank :: "nat \<Rightarrow> 'v hash_table" where
  "hash_blank n = \<lparr>bucket_count = n, buckets = replicate n []\<rparr>"

definition whowas_zero :: whowas_record where
  "whowas_zero = \<lparr>ww_nick = [], ww_user = [], ww_host = [], ww_realname = [], ww_server_name = [], ww_when = 0\<rparr>"

definition server_blank :: "nat \<Rightarrow> server_config \<Rightarrow> out_env \<Rightarrow> server" where
  "server_blank n cfg env = \<lparr>
     sv_config = cfg, sv_clients = [], sv_client_capacity = 0, sv_client = (\<lambda>_. client_zero),
     sv_next_cref = 0, sv_channel = (\<lambda>_. channel_zero), sv_live = [], sv_next_chref = 0,
     sv_channel_count = 0, sv_next_client_id = 0, sv_clients_by_id = hash_blank n,
     sv_clients_by_nick = hash_blank n, sv_channels_by_name = hash_blank n,
     sv_connection_counts_by_ip = hash_blank n, sv_whowas = replicate 256 whowas_zero,
     sv_whowas_next = 0, sv_whowas_count = 0, sv_command_global_budget_updated = 0,
     sv_command_global_budget_tokens = 0, sv_command_global_throttle_notice_time = 0,
     sv_free_hook = HookNone, sv_pmstats_server = False,
     sv_limits = limits_zero, sv_restart_requested = False, sv_shutdown_requested = False,
     sv_csdb = \<lparr>db_ok = True, db_channels = (\<lambda>_. None), db_access = (\<lambda>_ _. None),
                db_runtime = (\<lambda>_. None), db_masks = (\<lambda>_. [])\<rparr>,
     sv_clock = 0, sv_canonical_ip = (\<lambda>_. None), sv_eline_ip = (\<lambda>_. False), sv_world = world_blank,
     sv_out = (\<lambda>_. client_out_create), sv_env = env, sv_log = []\<rparr>"

text \<open>An empty configuration and a transport that blocks, for the worked examples.\<close>

definition config_blank :: server_config where
  "config_blank = \<lparr>
     cf_server_name = [], cf_max_clients = 1024, cf_max_channels = 4096, cf_max_connections_per_ip = 0,
     cf_connection_limit_exempt_ips = [], cf_webirc_gateways = [], cf_reserved_nicks = [],
     cf_registration_timeout_seconds = 60, cf_ping_interval_seconds = 90, cf_ping_timeout_seconds = 90,
     cf_output_queue_max_bytes = 65536, cf_dns_timeout_seconds = 5, cf_nospoof_enabled = False, cf_nospoof_timeout_seconds = 30,
     cf_server_password = [], cf_admin_location1 = [], cf_admin_location2 = [], cf_admin_email = [], cf_network_name = ''ScratchNet'', cf_cloak_prefix = ''dru'', cf_cloak_key = [],
     cf_dnsbls = [], cf_dnsbl_timeout_seconds = 5, cf_history_limit = 100, cf_kline_default_duration_seconds = 3600,
     cf_zline_default_duration_seconds = 3600, cf_kline_default_reason = ''Temporary KLINE'',
     cf_zline_default_reason = ''Temporary ZLINE'', cf_bans_db = ''bans.db'',
     cf_netadmin_name = [], cf_netadmin_password_hash = [], cf_netadmin_hostmask = [], cf_netadmin_vhost = [],
     cf_operators_db = ''operators.db'', cf_nickserv_db = ''nickserv.db'', cf_memoserv_db = ''memoserv.db'',
     cf_memoserv_retention_days = 0, cf_memoserv_quota = 100, cf_memoserv_sender_quota = 500, cf_sendmail_path = [], cf_mail_from = [], cf_nickserv_registrations_per_ip = 0,
     cf_nickserv_registration_window_seconds = 3600, cf_nickserv_mail_requests_per_ip = 0,
     cf_nickserv_mail_window_seconds = 3600, cf_nickserv_mail_global_per_minute = 30, cf_argon2_ops_per_ip = 10,
     cf_argon2_window_seconds = 60, cf_argon2_global_ops_per_minute = 60, cf_argon2_global_burst_per_second = 8,
     cf_nickserv_reset_seconds = 3600, cf_nickserv_verify_seconds = 86400, cf_channel_log_queue_max_rows = 250000\<rparr>"

definition env_blank :: out_env where
  "env_blank = \<lparr>oe_alloc = True, oe_net = [], oe_serial = 0, oe_stamp = []\<rparr>"

abbreviation sv_alloc :: "server \<Rightarrow> bool" where
  "sv_alloc s \<equiv> oe_alloc (sv_env s)"

abbreviation server_name :: "server \<Rightarrow> string" where
  "server_name s \<equiv> cf_server_name (sv_config s)"

text \<open>Assigning through a \<open>Client *\<close> and a \<open>Channel *\<close>.\<close>

definition upd_client :: "cref \<Rightarrow> (client \<Rightarrow> client) \<Rightarrow> server \<Rightarrow> server" where
  "upd_client c f s = s\<lparr>sv_client := (sv_client s)(c := f (sv_client s c))\<rparr>"

definition upd_channel :: "chref \<Rightarrow> (channel \<Rightarrow> channel) \<Rightarrow> server \<Rightarrow> server" where
  "upd_channel h f s = s\<lparr>sv_channel := (sv_channel s)(h := f (sv_channel s h))\<rparr>"

subsection \<open>Sending\<close>

text \<open>\<open>client_sendf\<close> on a formatted text, with and without its result.\<close>

definition sendf_rc :: "cref \<Rightarrow> string \<Rightarrow> server \<Rightarrow> int \<times> server" where
  "sendf_rc c text s =
     (let (rc, env, o1) = client_sendf (c_capabilities (sv_client s c)) (sv_env s) (sv_out s c) text
      in (rc, s\<lparr>sv_out := (sv_out s)(c := o1), sv_env := env, sv_log := sv_log s @ [(c, text)]\<rparr>))"

definition sendf :: "cref \<Rightarrow> string \<Rightarrow> server \<Rightarrow> server" where
  "sendf c text s = snd (sendf_rc c text s)"

text \<open>The common shape of the reply formats of \<open>include/numerics.h\<close>: \<open>":%s NNN %s ..."\<close>.\<close>

definition numeric :: "server \<Rightarrow> string \<Rightarrow> string \<Rightarrow> string \<Rightarrow> string" where
  "numeric s num nick rest = '':'' @ server_name s @ '' '' @ num @ '' '' @ nick @ '' '' @ rest"

text \<open>A cast to \<open>int\<close>.\<close>

definition to_int32 :: "int \<Rightarrow> int" where
  "to_int32 t = (t + 2 ^ 31) mod 2 ^ 32 - 2 ^ 31"

text \<open>A loop over receivers that sends the same or a receiver-dependent line to each.\<close>

definition send_each :: "(cref \<Rightarrow> string) \<Rightarrow> cref list \<Rightarrow> server \<Rightarrow> server" where
  "send_each line cs s = fold (\<lambda>c. sendf c (line c)) cs s"

text \<open>
  \<open>channel_broadcast\<close>: raw fan-out to the members except one.  The message must be one
  complete frame, otherwise nothing is sent.
\<close>

definition broadcast_frame_ok :: "string \<Rightarrow> bool" where
  "broadcast_frame_ok message \<longleftrightarrow>
     (let n = length message
      in \<not> (n < 2 \<or> n > IRC_WIRE_LINE_MAX \<or> message ! (n - 2) \<noteq> CR \<or> message ! (n - 1) \<noteq> LF \<or>
            CR \<in> set (take (n - 2) message) \<or> LF \<in> set (take (n - 2) message)))"

definition channel_broadcast :: "chref \<Rightarrow> cref option \<Rightarrow> string \<Rightarrow> server \<Rightarrow> server" where
  "channel_broadcast h except message s =
     (if \<not> broadcast_frame_ok message then s
      else let line = take (length message - 2) message
           in fold (\<lambda>m s. if Some (m_client m) = except then s else sendf (m_client m) line s)
                (ch_members (sv_channel s h)) s)"

text \<open>
  The members of a channel as \<open>channel_add_client\<close> and \<open>channel_remove_client\<close> change them in
  the stores.
\<close>

definition add_member :: "chref \<Rightarrow> cref \<Rightarrow> server \<Rightarrow> int \<times> server" where
  "add_member h c s =
     (let (rc, ch, cl) = channel_add_client (sv_alloc s) h c (sv_channel s h) (sv_client s c)
      in (rc, s\<lparr>sv_channel := (sv_channel s)(h := ch), sv_client := (sv_client s)(c := cl)\<rparr>))"

definition remove_member :: "chref \<Rightarrow> cref \<Rightarrow> server \<Rightarrow> server" where
  "remove_member h c s =
     (let (ch, cl) = channel_remove_client h c (sv_channel s h) (sv_client s c)
      in s\<lparr>sv_channel := (sv_channel s)(h := ch), sv_client := (sv_client s)(c := cl)\<rparr>)"

definition clients_share_channel :: "server \<Rightarrow> cref \<Rightarrow> cref \<Rightarrow> bool" where
  "clients_share_channel s left right \<longleftrightarrow>
     list_ex (\<lambda>h. channel_has_client (sv_channel s h) right) (c_channels (sv_client s left))"

subsection \<open>Steps that only produce output\<close>

definition io_only :: "server \<Rightarrow> server \<Rightarrow> bool" where
  "io_only s s' \<longleftrightarrow>
     (\<exists>out env log. oe_alloc env = oe_alloc (sv_env s) \<and>
        s' = s\<lparr>sv_out := out, sv_env := env, sv_log := log\<rparr>)"

lemma io_only_refl [simp, intro!]: "io_only s s"
  unfolding io_only_def by (intro exI [of _ "sv_out s"] exI [of _ "sv_env s"] exI [of _ "sv_log s"]) simp

lemma io_only_trans:
  assumes "io_only s t" "io_only t u"
  shows "io_only s u"
proof -
  obtain out env log where t: "oe_alloc env = oe_alloc (sv_env s)"
    "t = s\<lparr>sv_out := out, sv_env := env, sv_log := log\<rparr>"
    using assms(1) unfolding io_only_def by blast
  obtain out' env' log' where u: "oe_alloc env' = oe_alloc (sv_env t)"
    "u = t\<lparr>sv_out := out', sv_env := env', sv_log := log'\<rparr>"
    using assms(2) unfolding io_only_def by blast
  have "u = s\<lparr>sv_out := out', sv_env := env', sv_log := log'\<rparr>" "oe_alloc env' = oe_alloc (sv_env s)"
    using t u by simp_all
  then show ?thesis unfolding io_only_def by blast
qed

lemma io_only_fold: "(\<And>x s. io_only s (f x s)) \<Longrightarrow> io_only s (fold f xs s)"
proof (induction xs arbitrary: s)
  case (Cons x xs)
  then show ?case using io_only_trans [of s "f x s"] by simp
qed simp

text \<open>An output-only step leaves every other field alone.\<close>

lemma io_fields:
  assumes "io_only s s'"
  shows "sv_config s' = sv_config s"
    and "sv_clients s' = sv_clients s"
    and "sv_client_capacity s' = sv_client_capacity s"
    and "sv_client s' = sv_client s"
    and "sv_next_cref s' = sv_next_cref s"
    and "sv_channel s' = sv_channel s"
    and "sv_live s' = sv_live s"
    and "sv_next_chref s' = sv_next_chref s"
    and "sv_channel_count s' = sv_channel_count s"
    and "sv_next_client_id s' = sv_next_client_id s"
    and "sv_clients_by_id s' = sv_clients_by_id s"
    and "sv_clients_by_nick s' = sv_clients_by_nick s"
    and "sv_channels_by_name s' = sv_channels_by_name s"
    and "sv_connection_counts_by_ip s' = sv_connection_counts_by_ip s"
    and "sv_whowas s' = sv_whowas s"
    and "sv_whowas_next s' = sv_whowas_next s"
    and "sv_whowas_count s' = sv_whowas_count s"
    and "sv_command_global_budget_updated s' = sv_command_global_budget_updated s"
    and "sv_command_global_budget_tokens s' = sv_command_global_budget_tokens s"
    and "sv_command_global_throttle_notice_time s' = sv_command_global_throttle_notice_time s"
    and "sv_free_hook s' = sv_free_hook s"
    and "sv_pmstats_server s' = sv_pmstats_server s"
    and "sv_csdb s' = sv_csdb s"
    and "sv_clock s' = sv_clock s"
    and "sv_canonical_ip s' = sv_canonical_ip s"
    and "sv_eline_ip s' = sv_eline_ip s"
    and "sv_world s' = sv_world s"
    and "oe_alloc (sv_env s') = oe_alloc (sv_env s)"
  using assms unfolding io_only_def by auto

lemma send_framed_alloc:
  "send_framed caps env o1 line = (rc, env', o2) \<Longrightarrow> oe_alloc env' = oe_alloc env"
  unfolding send_framed_def by (auto simp: Let_def split: if_splits prod.splits)

lemma open_label_batch_alloc:
  "open_label_batch caps env o1 = (go, env', o2) \<Longrightarrow> oe_alloc env' = oe_alloc env"
  unfolding open_label_batch_def Let_def
  by (simp only: split: if_splits prod.splits) (auto dest!: send_framed_alloc)

lemma client_send_line_alloc:
  "client_send_line caps env o1 line = (rc, env', o2) \<Longrightarrow> oe_alloc env' = oe_alloc env"
  unfolding client_send_line_def Let_def
  by (simp only: split: if_splits prod.splits option.splits)
     (auto dest!: send_framed_alloc open_label_batch_alloc)

lemma sendf_rc_io: "io_only s (snd (sendf_rc c t s))"
proof -
  obtain rc env o1 where r: "client_sendf (c_capabilities (sv_client s c)) (sv_env s) (sv_out s c) t = (rc, env, o1)"
    by (metis prod_cases3)
  have "oe_alloc env = oe_alloc (sv_env s)"
    using r unfolding client_sendf_def by (auto split: if_splits dest: client_send_line_alloc)
  then show ?thesis
    unfolding io_only_def sendf_rc_def r by (auto simp: Let_def)
qed

lemma sendf_io [simp, intro!]: "io_only s (sendf c t s)"
  unfolding sendf_def by (rule sendf_rc_io)

lemma send_each_io [simp, intro!]: "io_only s (send_each l cs s)"
  unfolding send_each_def by (rule io_only_fold) simp

lemma channel_broadcast_io [simp, intro!]: "io_only s (channel_broadcast h e m s)"
  unfolding channel_broadcast_def Let_def by (auto intro!: io_only_fold)

lemmas sendf_frame [simp, frame_simps] = io_fields [OF sendf_io]

lemmas sendf_rc_frame [simp, frame_simps] = io_fields [OF sendf_rc_io]

lemmas send_each_frame [simp, frame_simps] = io_fields [OF send_each_io]

lemmas channel_broadcast_frame [simp, frame_simps] = io_fields [OF channel_broadcast_io]

text \<open>What sending does to the log.\<close>

lemma sendf_log [simp]: "sv_log (sendf c t s) = sv_log s @ [(c, t)]"
  unfolding sendf_def sendf_rc_def Let_def by (simp split: prod.split)

lemma send_each_log: "sv_log (send_each l cs s) = sv_log s @ map (\<lambda>c. (c, l c)) cs"
  unfolding send_each_def by (induction cs arbitrary: s) simp_all

lemma channel_broadcast_log:
  "sv_log (channel_broadcast h e m s) = sv_log s @
     (if broadcast_frame_ok m
      then map (\<lambda>c. (c, take (length m - 2) m))
             (filter (\<lambda>c. Some c \<noteq> e) (map m_client (ch_members (sv_channel s h))))
      else [])"
proof -
  have "sv_log (fold (\<lambda>m s. if Some (m_client m) = e then s else sendf (m_client m) l s) ms s) =
      sv_log s @ map (\<lambda>c. (c, l)) (filter (\<lambda>c. Some c \<noteq> e) (map m_client ms))" for l s and ms :: "member list"
    by (induction ms arbitrary: s) auto
  then show ?thesis by (simp add: channel_broadcast_def Let_def)
qed

end
