(* ===== verification/Message_Policy.thy ===== *)
theory Message_Policy
  imports Server_State
begin

section \<open>Colour filtering and notices (src/message_policy.c)\<close>

text \<open>
  The colour filter behind channel modes +c and +S, and the fan-out of server notices and
  operator messages.  A \<open>const unsigned char *\<close> into the text is the remaining suffix.
\<close>

subsection \<open>Colour\<close>

definition is_hex :: "char \<Rightarrow> bool" where
  "is_hex c = isxdigit c"

definition is_oper_client :: "client \<Rightarrow> bool" where
  "is_oper_client cl = client_mode_has (c_modes cl) (CLIENT_MODE_OPER OR CLIENT_MODE_NETADMIN)"

definition message_contains_color :: "string \<Rightarrow> bool" where
  "message_contains_color text \<longleftrightarrow>
     list_ex (\<lambda>c. c = CHR 0x03 \<or> c = CHR 0x04 \<or> c = CHR 0x1B) text"

fun skip_upto :: "nat \<Rightarrow> (char \<Rightarrow> bool) \<Rightarrow> string \<Rightarrow> string" where
  "skip_upto (Suc n) P (c # cs) = (if P c then skip_upto n P cs else c # cs)"
| "skip_upto n P cs = cs"

definition skip_irc_color :: "string \<Rightarrow> string" where
  "skip_irc_color p =
     (let q = skip_upto 2 isdigit (tl p)
      in if starts_with '','' q then skip_upto 2 isdigit (tl q) else q)"

definition skip_irc_hex_color :: "string \<Rightarrow> string" where
  "skip_irc_hex_color p =
     (let q = skip_upto 6 is_hex (tl p)
      in if starts_with '','' q then skip_upto 6 is_hex (tl q) else q)"

definition skip_ansi_sgr :: "string \<Rightarrow> string" where
  "skip_ansi_sgr p =
     (if \<not> (starts_with [CHR 0x1B] p \<and> starts_with ''['' (tl p)) then p
      else let q = dropWhile (\<lambda>c. isdigit c \<or> c = CHR '';'' \<or> c = CHR '':'') (drop 2 p)
           in if starts_with ''m'' q then tl q else p)"

lemma skip_upto_le: "length (skip_upto n P s) \<le> length s"
  by (induction n P s rule: skip_upto.induct) auto

lemma skip_color_shorter:
  assumes "p \<noteq> []"
  shows "length (skip_irc_color p) < length p" and "length (skip_irc_hex_color p) < length p"
proof -
  have a: "length (skip_upto n P (tl p)) < length p" for n P
    using assms skip_upto_le [of n P "tl p"] by (cases p) auto
  have b: "length (skip_upto n P (tl (skip_upto m Q (tl p)))) < length p" for n P m Q
    using a [of m Q] skip_upto_le [of n P "tl (skip_upto m Q (tl p))"] by simp
  show "length (skip_irc_color p) < length p" "length (skip_irc_hex_color p) < length p"
    using a b by (auto simp: skip_irc_color_def skip_irc_hex_color_def Let_def)
qed

lemma skip_ansi_shorter: "skip_ansi_sgr p = p \<or> length (skip_ansi_sgr p) < length p"
proof -
  have "length (tl (dropWhile P (drop 2 p))) < length p" if "p \<noteq> []" for P
    using that length_dropWhile_le [of P "drop 2 p"] by (cases p) auto
  then show ?thesis
    by (cases "p = []") (auto simp: skip_ansi_sgr_def starts_with_def Let_def)
qed

text \<open>The copy loop; \<open>out\<close> is what has been written, \<open>out_size\<close> the size of the buffer.\<close>

function strip_loop :: "nat \<Rightarrow> string \<Rightarrow> string \<Rightarrow> string" where
  "strip_loop out_size p out =
     (if p = [] \<or> \<not> length out + 1 < out_size then out
      else if hd p = CHR 0x03 then strip_loop out_size (skip_irc_color p) out
      else if hd p = CHR 0x04 then strip_loop out_size (skip_irc_hex_color p) out
      else if hd p = CHR 0x1B \<and> skip_ansi_sgr p \<noteq> p then strip_loop out_size (skip_ansi_sgr p) out
      else strip_loop out_size (tl p) (out @ [hd p]))"
  by pat_completeness auto
termination
  by (relation "measure (\<lambda>(n, p, out). length p)")
     (use skip_color_shorter skip_ansi_shorter in \<open>fastforce+\<close>)

declare strip_loop.simps [simp del]

definition message_strip_color :: "string \<Rightarrow> nat \<Rightarrow> string" where
  "message_strip_color text out_size = (if out_size = 0 then [] else strip_loop out_size text [])"

subsection \<open>Notices\<close>

text \<open>
  The pieces into which \<open>send_server_notice_chunks\<close> and \<open>cs_notice\<close> cut a text, and the loop
  that sends them until the client overflows.
\<close>

function chunks :: "nat \<Rightarrow> string \<Rightarrow> string list" where
  "chunks l t = (if t = [] \<or> l = 0 then [] else take l t # chunks l (drop l t))"
  by pat_completeness auto
termination
  by (relation "measure (\<lambda>(l, t). length t)") auto

declare chunks.simps [simp del]

definition send_chunks :: "cref \<Rightarrow> string \<Rightarrow> string list \<Rightarrow> server \<Rightarrow> server" where
  "send_chunks c prefix cs s =
     fold (\<lambda>chunk s. if o_overflowed (sv_out s c) then s else sendf c (prefix @ chunk) s) cs s"

definition notice_prefix :: "server \<Rightarrow> cref \<Rightarrow> string" where
  "notice_prefix s c = '':'' @ server_name s @ '' NOTICE '' @ c_nick (sv_client s c) @ '' :*** ''"

definition send_server_notice_chunks :: "cref \<Rightarrow> string \<Rightarrow> server \<Rightarrow> server" where
  "send_server_notice_chunks c text s =
     (if CR \<in> set text \<or> LF \<in> set text then s
      else let prefix = notice_prefix s c
           in if length prefix \<ge> IRC_LINE_CONTENT_MAX then s
              else if text = [] then sendf c prefix s
              else send_chunks c prefix (chunks (IRC_LINE_CONTENT_MAX - length prefix) text) s)"

definition server_notice_broadcast :: "string \<Rightarrow> server \<Rightarrow> server" where
  "server_notice_broadcast text s =
     fold (\<lambda>c s. if c_registered (sv_client s c) \<and> is_oper_client (sv_client s c) \<and>
                    client_mode_has (c_modes (sv_client s c)) CLIENT_MODE_SERVER_NOTICES
                 then send_server_notice_chunks c text s else s)
       (sv_clients s) s"

text \<open>\<open>text\<close> is the formatted text; the buffer holds 1023 bytes of it.\<close>

definition snotice_broadcast :: "u32 \<Rightarrow> string \<Rightarrow> server \<Rightarrow> server" where
  "snotice_broadcast category text s =
     (if category = 0 then s
      else fold (\<lambda>c s. if \<not> c_registered (sv_client s c) \<or> \<not> is_oper_client (sv_client s c) then s
                       else if \<not> client_mode_has (c_modes (sv_client s c)) CLIENT_MODE_SERVER_NOTICES then s
                       else if c_snotice_mask (sv_client s c) AND category = 0 then s
                       else send_server_notice_chunks c (take 1023 text) s)
             (sv_clients s) s)"

definition oper_message_broadcast :: "client \<Rightarrow> string \<Rightarrow> string \<Rightarrow> server \<Rightarrow> server" where
  "oper_message_broadcast source command text s =
     fold (\<lambda>c s. if c_registered (sv_client s c) \<and> is_oper_client (sv_client s c) \<and>
                    client_mode_has (c_modes (sv_client s c)) CLIENT_MODE_GLOBALS
                 then sendf c ('':'' @ client_identity source @ '' '' @ command @ '' :'' @ text) s else s)
       (sv_clients s) s"

subsection \<open>Output only\<close>

lemma send_chunks_io [simp, intro!]: "io_only s (send_chunks c p cs s)"
  unfolding send_chunks_def by (rule io_only_fold) simp

lemma send_server_notice_chunks_io [simp, intro!]: "io_only s (send_server_notice_chunks c t s)"
  unfolding send_server_notice_chunks_def Let_def by simp

lemma server_notice_broadcast_io [simp, intro!]: "io_only s (server_notice_broadcast t s)"
  unfolding server_notice_broadcast_def by (rule io_only_fold) simp

lemma snotice_broadcast_io [simp, intro!]: "io_only s (snotice_broadcast k t s)"
  unfolding snotice_broadcast_def by (auto intro!: io_only_fold)

lemma oper_message_broadcast_io [simp, intro!]: "io_only s (oper_message_broadcast a b t s)"
  unfolding oper_message_broadcast_def by (rule io_only_fold) simp

lemmas send_chunks_frame [simp, frame_simps] = io_fields [OF send_chunks_io]

lemmas send_server_notice_chunks_frame [simp, frame_simps] = io_fields [OF send_server_notice_chunks_io]

lemmas server_notice_broadcast_frame [simp, frame_simps] = io_fields [OF server_notice_broadcast_io]

lemmas snotice_broadcast_frame [simp, frame_simps] = io_fields [OF snotice_broadcast_io]

lemmas oper_message_broadcast_frame [simp, frame_simps] = io_fields [OF oper_message_broadcast_io]

subsection \<open>Lemmas\<close>

lemma skip_upto_numeral:
  "skip_upto (numeral k) P (c # cs) = (if P c then skip_upto (pred_numeral k) P cs else c # cs)"
  by (simp add: numeral_eq_Suc)

lemma chunks_concat: "0 < l \<Longrightarrow> concat (chunks l t) = t"
proof (induction l t rule: chunks.induct)
  case (1 l t)
  then show ?case by (cases "t = []") (simp_all add: chunks.simps [of l t] chunks.simps [of l "[]"])
qed

lemma chunks_short: "x \<in> set (chunks l t) \<Longrightarrow> x \<noteq> [] \<and> length x \<le> l"
proof (induction l t rule: chunks.induct)
  case (1 l t)
  then show ?case by (cases "t = [] \<or> l = 0") (auto simp: chunks.simps [of l t])
qed

lemma strip_loop_props:
  assumes "length out < out_size" "\<forall>c\<in>set out. c \<noteq> CHR 0x03 \<and> c \<noteq> CHR 0x04"
  shows "length (strip_loop out_size p out) < out_size \<and>
         (\<forall>c\<in>set (strip_loop out_size p out). c \<noteq> CHR 0x03 \<and> c \<noteq> CHR 0x04)"
  using assms
proof (induction out_size p out rule: strip_loop.induct)
  case (1 n p out)
  show ?case
  proof (cases "p = [] \<or> \<not> length out + 1 < n")
    case True
    then show ?thesis using "1.prems" by (auto simp: strip_loop.simps [of n p out])
  next
    case False
    then have go: "\<not> (p = [] \<or> \<not> length out + 1 < n)" by simp
    note step = strip_loop.simps [of n p out, unfolded if_not_P [OF go]]
    consider (a) "hd p = CHR 0x03" | (b) "hd p \<noteq> CHR 0x03" "hd p = CHR 0x04"
      | (c) "hd p \<noteq> CHR 0x03" "hd p \<noteq> CHR 0x04" "hd p = CHR 0x1B \<and> skip_ansi_sgr p \<noteq> p"
      | (d) "hd p \<noteq> CHR 0x03" "hd p \<noteq> CHR 0x04" "\<not> (hd p = CHR 0x1B \<and> skip_ansi_sgr p \<noteq> p)" by blast
    then show ?thesis
    proof cases
      case a
      then show ?thesis using "1.IH"(1) [OF go a "1.prems"] step by simp
    next
      case b
      then show ?thesis using "1.IH"(2) [OF go b "1.prems"] step by simp
    next
      case c
      then show ?thesis using "1.IH"(3) [OF go c "1.prems"] step by simp
    next
      case d
      have "length (out @ [hd p]) < n" "\<forall>c\<in>set (out @ [hd p]). c \<noteq> CHR 0x03 \<and> c \<noteq> CHR 0x04"
        using go "1.prems"(2) d(1,2) by auto
      from "1.IH"(4) [OF go d this] show ?thesis
        unfolding step if_not_P [OF d(1)] if_not_P [OF d(2)] if_not_P [OF d(3)] .
    qed
  qed
qed

lemma strip_loop_plain:
  "\<forall>c\<in>set p. c \<noteq> CHR 0x03 \<and> c \<noteq> CHR 0x04 \<and> c \<noteq> CHR 0x1B \<Longrightarrow> length out < out_size \<Longrightarrow>
     strip_loop out_size p out = take (out_size - 1) (out @ p)"
proof (induction p arbitrary: out)
  case Nil
  then show ?case by (simp add: strip_loop.simps)
next
  case (Cons c p)
  show ?case
  proof (cases "length out + 1 < out_size")
    case True
    then have "out_size - Suc (length out) = Suc (out_size - Suc (Suc (length out)))" by simp
    with True show ?thesis using Cons by (subst strip_loop.simps) simp
  next
    case False
    then have "out_size - 1 = length out" using Cons.prems by simp
    then show ?thesis using False by (subst strip_loop.simps) simp
  qed
qed

lemma send_chunks_log:
  "\<exists>sent. sv_log (send_chunks c p cs s) = sv_log s @ map (\<lambda>x. (c, p @ x)) sent \<and>
     (\<exists>rest. cs = sent @ rest) \<and> (\<not> o_overflowed (sv_out (send_chunks c p cs s) c) \<longrightarrow> sent = cs)"
proof (induction cs arbitrary: s)
  case Nil
  then show ?case by (simp add: send_chunks_def)
next
  case (Cons x cs)
  have stop: "send_chunks c p ys s = s" if "o_overflowed (sv_out s c)" for ys
    using that by (induction ys) (simp_all add: send_chunks_def)
  show ?case
  proof (cases "o_overflowed (sv_out s c)")
    case True
    show ?thesis
      unfolding stop [OF True, of "x # cs"] by (rule exI [of _ "[]"]) (simp add: True)
  next
    case False
    then have eq: "send_chunks c p (x # cs) s = send_chunks c p cs (sendf c (p @ x) s)"
      by (simp add: send_chunks_def)
    from Cons.IH [of "sendf c (p @ x) s"] obtain sent where
      "sv_log (send_chunks c p cs (sendf c (p @ x) s)) =
         sv_log (sendf c (p @ x) s) @ map (\<lambda>x. (c, p @ x)) sent" "\<exists>rest. cs = sent @ rest"
      "\<not> o_overflowed (sv_out (send_chunks c p cs (sendf c (p @ x) s)) c) \<longrightarrow> sent = cs" by blast
    then show ?thesis
      unfolding eq by (intro exI [of _ "x # sent"]) (simp del: send_chunks_frame)
  qed
qed

subsection \<open>Properties\<close>

text \<open>
  The +S filter removes every IRC colour introducer, keeps within its buffer, and leaves a
  message without colour codes unchanged (as far as it fits).
\<close>

theorem strip_color_correct:
  assumes "0 < out_size"
  shows "length (message_strip_color text out_size) < out_size \<and>
         (\<forall>c\<in>set (message_strip_color text out_size). c \<noteq> CHR 0x03 \<and> c \<noteq> CHR 0x04) \<and>
         (\<not> message_contains_color text \<longrightarrow>
            message_strip_color text out_size = take (out_size - 1) text)"
  using strip_loop_props [of "[]" out_size "text"] strip_loop_plain [of "text" "[]" out_size] assms
  by (auto simp: message_strip_color_def message_contains_color_def list_ex_iff)

theorem strip_color_correct_witness:
  "message_strip_color ''hi'' 1024 = ''hi''"
  using strip_color_correct [of 1024 "''hi''"] by (simp add: message_contains_color_def)

text \<open>
  The +S filter can be made to emit an ANSI colour sequence.  An IRC colour code between
  the escape character and its bracket is removed after the escape was copied, so the result
  of stripping still contains a complete SGR sequence, and stripping again changes it.
\<close>

theorem strip_color_ansi_smuggling:
  "message_strip_color ([CHR 0x1B, CHR 0x03] @ ''[31mred'') 1024 = [CHR 0x1B] @ ''[31mred'' \<and>
   message_strip_color ([CHR 0x1B] @ ''[31mred'') 1024 = ''red''"
  by (simp add: message_strip_color_def strip_loop.simps skip_irc_color_def skip_ansi_sgr_def
      starts_with_def isdigit_def skip_upto_numeral Let_def)

text \<open>
  A server notice reaches its receiver complete and within the line limit.  The text is cut
  into pieces that fit a 510-byte line; the lines sent are the pieces in order, all of them
  unless the receiver's queue overflowed, and joined they give the text back.
\<close>

theorem server_notice_complete:
  assumes "CR \<notin> set text" "LF \<notin> set text" "text \<noteq> []" "length (notice_prefix s c) < IRC_LINE_CONTENT_MAX"
  shows "let pieces = chunks (IRC_LINE_CONTENT_MAX - length (notice_prefix s c)) text;
             s' = send_server_notice_chunks c text s
         in concat pieces = text \<and>
            (\<forall>x\<in>set pieces. length (notice_prefix s c @ x) \<le> IRC_LINE_CONTENT_MAX) \<and>
            (\<exists>sent rest. pieces = sent @ rest \<and>
               sv_log s' = sv_log s @ map (\<lambda>x. (c, notice_prefix s c @ x)) sent \<and>
               (\<not> o_overflowed (sv_out s' c) \<longrightarrow> sent = pieces))"
proof -
  let ?l = "IRC_LINE_CONTENT_MAX - length (notice_prefix s c)"
  have s': "send_server_notice_chunks c text s = send_chunks c (notice_prefix s c) (chunks ?l text) s"
    using assms by (simp add: send_server_notice_chunks_def Let_def)
  have "length (notice_prefix s c @ x) \<le> IRC_LINE_CONTENT_MAX" if "x \<in> set (chunks ?l text)" for x
    using chunks_short [OF that] assms(4) by auto
  then show ?thesis
    using chunks_concat [of ?l "text"] assms(4) send_chunks_log [of c "notice_prefix s c" "chunks ?l text" s]
    unfolding Let_def s' by auto
qed

theorem server_notice_complete_witness:
  "sv_log (send_server_notice_chunks 0 ''hello'' (server_blank 1 config_blank env_blank)) =
     [(0, '': NOTICE  :*** hello'')]"
proof -
  let ?s = "server_blank 1 config_blank env_blank"
  have p: "notice_prefix ?s 0 = '': NOTICE  :*** ''"
    by (simp add: notice_prefix_def server_blank_def config_blank_def client_zero_def)
  have h: "CR \<notin> set ''hello''" "LF \<notin> set ''hello''" "''hello'' \<noteq> []"
    "length (notice_prefix ?s 0) < IRC_LINE_CONTENT_MAX"
    unfolding p by simp_all
  have "\<not> o_overflowed (sv_out (send_server_notice_chunks 0 ''hello'' ?s) 0)"
    unfolding send_server_notice_chunks_def Let_def p
    by (simp add: chunks.simps send_chunks_def sendf_def sendf_rc_def client_sendf_def client_send_line_def
        server_blank_def client_out_create_def client_zero_def send_framed_def stamp_line_def
        client_line_content_fits_def starts_with_def client_send_raw_def send_loop.simps transport_write_def
        next_io_def env_blank_def queue_append_def size_sub_def grow_capacity.simps)
  moreover have "sv_log ?s = []" by (simp add: server_blank_def)
  ultimately show ?thesis
    using server_notice_complete [OF h] unfolding Let_def p by (auto simp: chunks.simps)
qed

end
