(* ===== verification/Presence.thy ===== *)
theory Presence
  imports Message_Policy
begin

section \<open>SILENCE, WATCH, WHOWAS and the PMSTATS feed (src/presence.c, src/commands/dispatch.c)\<close>

text \<open>
  Per-client SILENCE and WATCH lists, the WHOWAS ring of the server, the notifications sent
  to watchers, and the hook that \<open>client_free\<close> runs.  \<open>client_set_free_hook\<close> has one slot,
  \<open>sv_free_hook\<close>; \<open>active_server\<close> and \<open>pmstats_server\<close> are the process-wide pointers, the first
  set exactly when the presence hook was installed, the second \<open>sv_pmstats_server\<close>.
\<close>

subsection \<open>SILENCE and WATCH lists\<close>

text \<open>The \<open>rfc1459_fold\<close> of this file is the same function as in \<open>channel_policy.c\<close>.\<close>

fun rfc1459_equal :: "string \<Rightarrow> string \<Rightarrow> bool" where
  "rfc1459_equal (a # as) (b # bs) =
     (if rfc1459_fold a \<noteq> rfc1459_fold b then False else rfc1459_equal as bs)"
| "rfc1459_equal as bs = (as = [] \<and> bs = [])"

fun unlink_equal :: "string \<Rightarrow> string list \<Rightarrow> string list option" where
  "unlink_equal x [] = None"
| "unlink_equal x (y # ys) = (if rfc1459_equal y x then Some ys else map_option ((#) y) (unlink_equal x ys))"

definition presence_silence_add :: "bool \<Rightarrow> client \<Rightarrow> string \<Rightarrow> int \<times> client" where
  "presence_silence_add alloc cl m =
     (if m = [] then (-1, cl)
      else if list_ex (\<lambda>e. rfc1459_equal e m) (c_silence_list cl) then (0, cl)
      else if c_silence_count cl \<ge> IRCD_SILENCE_MAX then (-1, cl)
      else if \<not> alloc then (-1, cl)
      else (1, cl\<lparr>c_silence_list := take IRC_CHANNEL_MASK_MAX m # c_silence_list cl,
                  c_silence_count := c_silence_count cl + 1\<rparr>))"

definition presence_silence_remove :: "client \<Rightarrow> string \<Rightarrow> int \<times> client" where
  "presence_silence_remove cl m =
     (if m = [] then (-1, cl)
      else case unlink_equal m (c_silence_list cl) of
             Some rest \<Rightarrow> (1, cl\<lparr>c_silence_list := rest, c_silence_count := c_silence_count cl - 1\<rparr>)
           | None \<Rightarrow> (0, cl))"

definition presence_silence_matches :: "client \<Rightarrow> client \<Rightarrow> bool" where
  "presence_silence_matches recipient sender =
     list_ex (\<lambda>e. irc_mask_match e (take (IRCD_MESSAGE_BUFFER_SIZE - 1) (client_identity sender)))
       (c_silence_list recipient)"

definition presence_watch_contains :: "client \<Rightarrow> string \<Rightarrow> bool" where
  "presence_watch_contains cl nick = list_ex (\<lambda>e. rfc1459_equal e nick) (c_watch_list cl)"

definition presence_watch_add :: "bool \<Rightarrow> client \<Rightarrow> string \<Rightarrow> int \<times> client" where
  "presence_watch_add alloc cl nick =
     (if nick = [] then (-1, cl)
      else if presence_watch_contains cl nick then (0, cl)
      else if c_watch_count cl \<ge> IRCD_WATCH_MAX then (-1, cl)
      else if \<not> alloc then (-1, cl)
      else (1, cl\<lparr>c_watch_list := take IRC_NICK_MAX nick # c_watch_list cl,
                  c_watch_count := c_watch_count cl + 1\<rparr>))"

definition presence_watch_remove :: "client \<Rightarrow> string \<Rightarrow> int \<times> client" where
  "presence_watch_remove cl nick =
     (if nick = [] then (-1, cl)
      else case unlink_equal nick (c_watch_list cl) of
             Some rest \<Rightarrow> (1, cl\<lparr>c_watch_list := rest, c_watch_count := c_watch_count cl - 1\<rparr>)
           | None \<Rightarrow> (0, cl))"

definition presence_client_clear :: "client \<Rightarrow> client" where
  "presence_client_clear cl =
     cl\<lparr>c_silence_list := [], c_silence_count := 0, c_watch_list := [], c_watch_count := 0\<rparr>"

subsection \<open>Notifying watchers\<close>

definition watchers :: "server \<Rightarrow> string \<Rightarrow> cref list" where
  "watchers s nick =
     filter (\<lambda>w. c_registered (sv_client s w) \<and> presence_watch_contains (sv_client s w) nick) (sv_clients s)"

definition presence_watch_online :: "cref \<Rightarrow> server \<Rightarrow> server" where
  "presence_watch_online c s =
     (let subject = sv_client s c
      in if \<not> c_registered subject \<or> c_nick subject = [] then s
         else send_each (\<lambda>w. numeric s ''600'' (c_nick (sv_client s w))
                  (c_nick subject @ '' '' @ c_user subject @ '' '' @ c_display_host subject @ '' '' @
                   dec_int (to_int32 (c_signon_time subject)) @ '' :logged online''))
                (watchers s (c_nick subject)) (s\<lparr>sv_free_hook := HookPresence\<rparr>))"

text \<open>\<open>nick_override\<close> is the empty string where the code passes a null pointer.\<close>

definition presence_watch_offline :: "cref \<Rightarrow> string \<Rightarrow> server \<Rightarrow> server" where
  "presence_watch_offline c nick_override s =
     (let subject = sv_client s c;
          nick = (if nick_override \<noteq> [] then nick_override else c_nick subject)
      in if nick = [] then s
         else send_each (\<lambda>w. numeric s ''601'' (c_nick (sv_client s w))
                  (nick @ '' '' @ c_user subject @ '' '' @ c_display_host subject @ '' '' @
                   dec_int (to_int32 (sv_clock s)) @ '' :logged offline''))
                (watchers s nick) s)"

subsection \<open>WHOWAS\<close>

abbreviation IRCD_WHOWAS_MAX :: nat where "IRCD_WHOWAS_MAX \<equiv> 256"

definition whowas_entry :: "server \<Rightarrow> client \<Rightarrow> string \<Rightarrow> whowas_record" where
  "whowas_entry s cl nick = \<lparr>
     ww_nick = take IRC_NICK_MAX nick, ww_user = take IRC_USER_MAX (c_user cl),
     ww_host = take IRC_HOST_MAX (c_display_host cl),
     ww_realname = take IRC_REALNAME_MAX (c_realname cl),
     ww_server_name = take IRC_HOST_MAX (take 63 (server_name s)), ww_when = sv_clock s\<rparr>"

definition presence_whowas_record :: "cref \<Rightarrow> string \<Rightarrow> server \<Rightarrow> server" where
  "presence_whowas_record c nick_override s =
     (let cl = sv_client s c;
          nick = (if nick_override \<noteq> [] then nick_override else c_nick cl)
      in if \<not> c_registered cl \<and> c_signon_time cl = 0 then s
         else if nick = [] then s
         else s\<lparr>sv_whowas := (sv_whowas s)[sv_whowas_next s := whowas_entry s cl nick],
                sv_whowas_next := (sv_whowas_next s + 1) mod IRCD_WHOWAS_MAX,
                sv_whowas_count := (if sv_whowas_count s < IRCD_WHOWAS_MAX then sv_whowas_count s + 1
                                    else sv_whowas_count s)\<rparr>)"

subsection \<open>The PMSTATS feed\<close>

definition pmstats_targets :: "server \<Rightarrow> cref list" where
  "pmstats_targets s = filter (\<lambda>c. c_pmstats_enabled (sv_client s c)) (sv_clients s)"

definition pmstats_has_subscribers :: "server \<Rightarrow> bool" where
  "pmstats_has_subscribers s \<longleftrightarrow> pmstats_targets s \<noteq> []"

definition server_pmstats_disconnect :: "cref \<Rightarrow> server \<Rightarrow> server" where
  "server_pmstats_disconnect c s =
     (if \<not> c_registered (sv_client s c) \<or> c_nick (sv_client s c) = [] then s
      else send_each (\<lambda>t. numeric s ''803'' (c_nick (sv_client s t)) ('':'' @ c_nick (sv_client s c)))
             (pmstats_targets s) s)"

definition server_pmstats_private_message :: "string \<Rightarrow> string \<Rightarrow> server \<Rightarrow> server" where
  "server_pmstats_private_message sender receiver s =
     send_each (\<lambda>t. numeric s ''801'' (c_nick (sv_client s t)) ('':'' @ sender @ '' '' @ receiver))
       (pmstats_targets s) s"

definition server_pmstats_nick_change :: "string \<Rightarrow> string \<Rightarrow> server \<Rightarrow> server" where
  "server_pmstats_nick_change old new s =
     send_each (\<lambda>t. numeric s ''802'' (c_nick (sv_client s t)) ('':'' @ old @ '' '' @ new))
       (pmstats_targets s) s"

definition server_pmstats_set_enabled :: "cref \<Rightarrow> bool \<Rightarrow> server \<Rightarrow> server" where
  "server_pmstats_set_enabled c enabled s =
     (let s1 = upd_client c (\<lambda>cl. cl\<lparr>c_pmstats_enabled := enabled\<rparr>) s
      in if enabled then s1\<lparr>sv_pmstats_server := True, sv_free_hook := HookPmstats\<rparr>
         else if sv_pmstats_server s1 \<and> \<not> pmstats_has_subscribers s1
         then s1\<lparr>sv_pmstats_server := False, sv_free_hook := HookNone\<rparr>
         else s1)"

subsection \<open>Freeing a client\<close>

definition presence_on_client_free :: "cref \<Rightarrow> server \<Rightarrow> server" where
  "presence_on_client_free c s =
     (if c_signon_time (sv_client s c) = 0 \<or> c_nick (sv_client s c) = [] then s
      else presence_watch_offline c [] (presence_whowas_record c [] s))"

definition pmstats_client_free :: "cref \<Rightarrow> server \<Rightarrow> server" where
  "pmstats_client_free c s =
     (if \<not> sv_pmstats_server s then s
      else let s1 = (if c_registered (sv_client s c) \<and> c_nick (sv_client s c) \<noteq> []
                     then server_pmstats_disconnect c s else s)
           in if \<not> pmstats_has_subscribers s1
              then s1\<lparr>sv_pmstats_server := False, sv_free_hook := HookNone\<rparr> else s1)"

text \<open>
  \<open>client_free\<close>: the hook, then the object and its lists are gone.  The reference is no
  longer in \<open>sv_clients\<close> when the server calls it; the store keeps the dead object, which
  nothing reads again.
\<close>

definition client_free :: "cref \<Rightarrow> server \<Rightarrow> server" where
  "client_free c s =
     (case sv_free_hook s of
        HookNone \<Rightarrow> s
      | HookPresence \<Rightarrow> presence_on_client_free c s
      | HookPmstats \<Rightarrow> pmstats_client_free c s)"

subsection \<open>Specifications\<close>

definition silence_inv :: "client \<Rightarrow> bool" where
  "silence_inv cl \<longleftrightarrow> c_silence_count cl = length (c_silence_list cl) \<and>
     c_silence_count cl \<le> IRCD_SILENCE_MAX \<and> distinct (map (map rfc1459_fold) (c_silence_list cl))"

definition watch_inv :: "client \<Rightarrow> bool" where
  "watch_inv cl \<longleftrightarrow> c_watch_count cl = length (c_watch_list cl) \<and>
     c_watch_count cl \<le> IRCD_WATCH_MAX \<and> distinct (map (map rfc1459_fold) (c_watch_list cl))"

text \<open>The entries of the ring, newest first, as WHOWAS reads them.\<close>

definition whowas_history :: "server \<Rightarrow> whowas_record list" where
  "whowas_history s =
     map (\<lambda>k. sv_whowas s ! ((sv_whowas_next s + IRCD_WHOWAS_MAX - 1 - k) mod IRCD_WHOWAS_MAX))
       [0..<sv_whowas_count s]"

definition whowas_inv :: "server \<Rightarrow> bool" where
  "whowas_inv s \<longleftrightarrow> length (sv_whowas s) = IRCD_WHOWAS_MAX \<and> sv_whowas_next s < IRCD_WHOWAS_MAX \<and>
     sv_whowas_count s \<le> IRCD_WHOWAS_MAX"

subsection \<open>Lemmas\<close>

lemma rfc1459_equal_iff: "rfc1459_equal a b \<longleftrightarrow> map rfc1459_fold a = map rfc1459_fold b"
  by (induction a b rule: rfc1459_equal.induct) auto

lemma unlink_equal_eq:
  "distinct (map (map rfc1459_fold) l) \<Longrightarrow>
     unlink_equal x l = (if map rfc1459_fold x \<in> map rfc1459_fold ` set l
       then Some (filter (\<lambda>y. map rfc1459_fold y \<noteq> map rfc1459_fold x) l) else None)"
proof (induction l)
  case (Cons y l)
  then show ?case
    using filter_key_absent [of "map rfc1459_fold y" "map rfc1459_fold" l]
    by (auto simp: rfc1459_equal_iff)
qed simp

lemma whowas_history_nth:
  "i < sv_whowas_count s \<Longrightarrow>
     whowas_history s ! i = sv_whowas s ! ((sv_whowas_next s + IRCD_WHOWAS_MAX - 1 - i) mod IRCD_WHOWAS_MAX)"
  by (simp add: whowas_history_def)

text \<open>Which fields of the state these operations change.\<close>

lemma pmstats_disconnect_io [simp, intro!]: "io_only s (server_pmstats_disconnect c s)"
  by (simp add: server_pmstats_disconnect_def)

lemma pmstats_nick_change_io [simp, intro!]: "io_only s (server_pmstats_nick_change a b s)"
  by (simp add: server_pmstats_nick_change_def)

lemma pmstats_private_message_io [simp, intro!]: "io_only s (server_pmstats_private_message a b s)"
  by (simp add: server_pmstats_private_message_def)

lemma watch_offline_io [simp, intro!]: "io_only s (presence_watch_offline c n s)"
  by (simp add: presence_watch_offline_def Let_def)

lemmas pmstats_disconnect_frame [simp, frame_simps] = io_fields [OF pmstats_disconnect_io]

lemmas pmstats_nick_change_frame [simp, frame_simps] = io_fields [OF pmstats_nick_change_io]

lemmas pmstats_private_message_frame [simp, frame_simps] = io_fields [OF pmstats_private_message_io]

lemmas watch_offline_frame [simp, frame_simps] = io_fields [OF watch_offline_io]

text \<open>
  Steps that change nothing but the output, the WHOWAS ring and the free hook: the objects,
  the indexes and the counters stay.
\<close>

definition aux_only :: "server \<Rightarrow> server \<Rightarrow> bool" where
  "aux_only s s' \<longleftrightarrow>
     (\<exists>out env log hook pm ring nxt cnt. oe_alloc env = oe_alloc (sv_env s) \<and>
        s' = s\<lparr>sv_out := out, sv_env := env, sv_log := log, sv_free_hook := hook, sv_pmstats_server := pm,
               sv_whowas := ring, sv_whowas_next := nxt, sv_whowas_count := cnt\<rparr>)"

lemma aux_only_io: "io_only s s' \<Longrightarrow> aux_only s s'"
  unfolding io_only_def aux_only_def
proof (elim exE conjE, goal_cases)
  case (1 out env log)
  then show ?case
    by (intro exI [of _ out] exI [of _ env] exI [of _ log] exI [of _ "sv_free_hook s"]
        exI [of _ "sv_pmstats_server s"] exI [of _ "sv_whowas s"] exI [of _ "sv_whowas_next s"]
        exI [of _ "sv_whowas_count s"]) simp
qed

lemma aux_only_refl [simp, intro!]: "aux_only s s"
  by (rule aux_only_io) simp

lemma aux_only_trans:
  assumes "aux_only s t" "aux_only t u"
  shows "aux_only s u"
proof -
  obtain out env log hook pm ring nxt cnt where t: "oe_alloc env = oe_alloc (sv_env s)"
    "t = s\<lparr>sv_out := out, sv_env := env, sv_log := log, sv_free_hook := hook, sv_pmstats_server := pm,
          sv_whowas := ring, sv_whowas_next := nxt, sv_whowas_count := cnt\<rparr>"
    using assms(1) unfolding aux_only_def by blast
  obtain out' env' log' hook' pm' ring' nxt' cnt' where u: "oe_alloc env' = oe_alloc (sv_env t)"
    "u = t\<lparr>sv_out := out', sv_env := env', sv_log := log', sv_free_hook := hook', sv_pmstats_server := pm',
          sv_whowas := ring', sv_whowas_next := nxt', sv_whowas_count := cnt'\<rparr>"
    using assms(2) unfolding aux_only_def by blast
  have "u = s\<lparr>sv_out := out', sv_env := env', sv_log := log', sv_free_hook := hook', sv_pmstats_server := pm',
          sv_whowas := ring', sv_whowas_next := nxt', sv_whowas_count := cnt'\<rparr>"
    "oe_alloc env' = oe_alloc (sv_env s)"
    using t u by simp_all
  then show ?thesis unfolding aux_only_def by blast
qed

lemma aux_fields:
  assumes "aux_only s s'"
  shows "sv_config s' = sv_config s"
    and "sv_clients s' = sv_clients s"
    and "sv_client_capacity s' = sv_client_capacity s"
    and "sv_client s' = sv_client s"
    and "sv_next_cref s' = sv_next_cref s"
    and "sv_channel s' = sv_channel s"
    and "sv_live s' = sv_live s"
    and "sv_next_chref s' = sv_next_chref s"
    and "sv_channel_count s' = sv_channel_count s"
    and "sv_next_client_id s' = sv_next_client_id s"
    and "sv_clients_by_id s' = sv_clients_by_id s"
    and "sv_clients_by_nick s' = sv_clients_by_nick s"
    and "sv_channels_by_name s' = sv_channels_by_name s"
    and "sv_connection_counts_by_ip s' = sv_connection_counts_by_ip s"
    and "sv_command_global_budget_updated s' = sv_command_global_budget_updated s"
    and "sv_command_global_budget_tokens s' = sv_command_global_budget_tokens s"
    and "sv_command_global_throttle_notice_time s' = sv_command_global_throttle_notice_time s"
    and "sv_csdb s' = sv_csdb s"
    and "sv_clock s' = sv_clock s"
    and "sv_canonical_ip s' = sv_canonical_ip s"
    and "sv_eline_ip s' = sv_eline_ip s"
    and "sv_world s' = sv_world s"
    and "oe_alloc (sv_env s') = oe_alloc (sv_env s)"
  using assms unfolding aux_only_def by auto

lemma aux_only_hook: "aux_only s (s\<lparr>sv_pmstats_server := pm, sv_free_hook := hook\<rparr>)"
  unfolding aux_only_def
  by (intro exI [of _ "sv_out s"] exI [of _ "sv_env s"] exI [of _ "sv_log s"] exI [of _ hook]
      exI [of _ pm] exI [of _ "sv_whowas s"] exI [of _ "sv_whowas_next s"]
      exI [of _ "sv_whowas_count s"]) simp

lemma watch_online_aux [simp, intro!]: "aux_only s (presence_watch_online c s)"
proof -
  have "aux_only s (s\<lparr>sv_free_hook := HookPresence\<rparr>)"
    using aux_only_hook [where s = s and pm = "sv_pmstats_server s" and hook = HookPresence] by simp
  then show ?thesis
    unfolding presence_watch_online_def Let_def
    using aux_only_trans [OF _ aux_only_io [OF send_each_io]] by auto
qed

lemma whowas_record_aux [simp, intro!]: "aux_only s (presence_whowas_record c n s)"
proof -
  have "aux_only s (s\<lparr>sv_whowas := r, sv_whowas_next := k, sv_whowas_count := m\<rparr>)" for r k m
    unfolding aux_only_def
    by (intro exI [of _ "sv_out s"] exI [of _ "sv_env s"] exI [of _ "sv_log s"] exI [of _ "sv_free_hook s"]
        exI [of _ "sv_pmstats_server s"] exI [of _ r] exI [of _ k] exI [of _ m]) simp
  then show ?thesis by (simp add: presence_whowas_record_def Let_def)
qed

lemma client_free_aux [simp, intro!]: "aux_only s (client_free c s)"
proof -
  have p: "aux_only s (presence_on_client_free c s)"
    using aux_only_trans [OF whowas_record_aux aux_only_io [OF watch_offline_io]]
    by (simp add: presence_on_client_free_def)
  have "aux_only s (pmstats_client_free c s)"
    using aux_only_trans [OF aux_only_io [OF pmstats_disconnect_io] aux_only_hook] aux_only_hook
      aux_only_io [OF pmstats_disconnect_io]
    by (simp add: pmstats_client_free_def Let_def)
  with p show ?thesis by (simp add: client_free_def split: free_hook.split)
qed

lemmas watch_online_frame [simp, frame_simps] = aux_fields [OF watch_online_aux]

lemmas whowas_record_frame [simp, frame_simps] = aux_fields [OF whowas_record_aux]

lemmas client_free_frame [simp, frame_simps] = aux_fields [OF client_free_aux]

subsection \<open>Properties\<close>

text \<open>
  The SILENCE and WATCH lists are bounded sets of case-folded entries.  Adding an entry
  that fits its field makes it a member and reports 1 exactly when it is new, -1 when the list
  is full; removing makes it absent and reports 1 exactly when it was there; both keep the
  count, the bound and the absence of duplicates.
\<close>

theorem presence_lists_are_bounded_sets:
  assumes "watch_inv cl" "silence_inv cl" "x \<noteq> []"
    and "length x \<le> IRC_NICK_MAX" and "m \<noteq> []" "length m \<le> IRC_CHANNEL_MASK_MAX"
  shows "watch_inv (snd (presence_watch_add alloc cl x)) \<and> watch_inv (snd (presence_watch_remove cl x)) \<and>
         silence_inv (snd (presence_silence_add alloc cl m)) \<and> silence_inv (snd (presence_silence_remove cl m)) \<and>
         (fst (presence_watch_add True cl x) = 1 \<longleftrightarrow>
            \<not> presence_watch_contains cl x \<and> c_watch_count cl < IRCD_WATCH_MAX) \<and>
         (fst (presence_watch_add True cl x) \<ge> 0 \<longrightarrow>
            presence_watch_contains (snd (presence_watch_add True cl x)) x) \<and>
         (fst (presence_watch_remove cl x) = 1 \<longleftrightarrow> presence_watch_contains cl x) \<and>
         \<not> presence_watch_contains (snd (presence_watch_remove cl x)) x"
proof -
  have dw: "distinct (map (map rfc1459_fold) (c_watch_list cl))"
    and ds: "distinct (map (map rfc1459_fold) (c_silence_list cl))"
    using assms by (auto simp: watch_inv_def silence_inv_def)
  have "watch_inv (snd (presence_watch_add alloc cl x))"
    using assms by (auto simp: presence_watch_add_def watch_inv_def presence_watch_contains_def
        list_ex_iff rfc1459_equal_iff)
  moreover have "silence_inv (snd (presence_silence_add alloc cl m))"
    using assms by (auto simp: presence_silence_add_def silence_inv_def list_ex_iff rfc1459_equal_iff)
  moreover have "watch_inv (snd (presence_watch_remove cl x))"
    using assms length_filter_key [OF dw, of "map rfc1459_fold x"] distinct_map_filter_key [OF dw]
    by (auto simp: presence_watch_remove_def watch_inv_def unlink_equal_eq [OF dw])
  moreover have "silence_inv (snd (presence_silence_remove cl m))"
    using assms length_filter_key [OF ds, of "map rfc1459_fold m"] distinct_map_filter_key [OF ds]
    by (auto simp: presence_silence_remove_def silence_inv_def unlink_equal_eq [OF ds])
  moreover have "presence_watch_contains cl x \<longleftrightarrow> map rfc1459_fold x \<in> map rfc1459_fold ` set (c_watch_list cl)"
    by (simp add: presence_watch_contains_def list_ex_iff rfc1459_equal_iff image_iff) metis
  moreover have "\<not> presence_watch_contains (snd (presence_watch_remove cl x)) x"
    using assms(3) by (auto simp: presence_watch_remove_def presence_watch_contains_def list_ex_iff
        rfc1459_equal_iff unlink_equal_eq [OF dw] image_iff)
  ultimately show ?thesis
    using assms
    by (auto simp: presence_watch_add_def presence_watch_remove_def unlink_equal_eq [OF dw]
        presence_watch_contains_def rfc1459_equal_iff)
qed

theorem presence_lists_are_bounded_sets_witness:
  "presence_watch_contains (snd (presence_watch_add True client_zero ''Bob'')) ''Bob''"
proof -
  have h: "watch_inv client_zero" "silence_inv client_zero" "''Bob'' \<noteq> []" "length ''Bob'' \<le> IRC_NICK_MAX"
    "''*!*@*'' \<noteq> []" "length ''*!*@*'' \<le> IRC_CHANNEL_MASK_MAX"
    by (simp_all add: watch_inv_def silence_inv_def client_zero_def)
  have "fst (presence_watch_add True client_zero ''Bob'') \<ge> 0"
    by (simp add: presence_watch_add_def client_zero_def presence_watch_contains_def)
  then show ?thesis
    using presence_lists_are_bounded_sets [OF h, of True] by blast
qed

text \<open>
  C38: the WHOWAS ring keeps the most recent 256 departures.  Recording a departure puts it in
  front of the history and drops what is older than 256 entries; nothing else is lost.
\<close>

theorem whowas_ring_is_recent_history:
  assumes "whowas_inv s" and "c_registered (sv_client s c) \<or> c_signon_time (sv_client s c) \<noteq> 0"
    and "c_nick (sv_client s c) \<noteq> []"
  shows "whowas_history (presence_whowas_record c [] s) =
           take IRCD_WHOWAS_MAX (whowas_entry s (sv_client s c) (c_nick (sv_client s c)) # whowas_history s) \<and>
         whowas_inv (presence_whowas_record c [] s)"
proof -
  let ?e = "whowas_entry s (sv_client s c) (c_nick (sv_client s c))"
  let ?s = "presence_whowas_record c [] s"
  let ?n = "sv_whowas_next s" and ?k = "sv_whowas_count s"
  have len: "length (sv_whowas s) = 256" and n: "?n < 256" and k: "?k \<le> 256"
    using assms(1) by (auto simp: whowas_inv_def)
  have s': "sv_whowas ?s = (sv_whowas s)[?n := ?e]" "sv_whowas_next ?s = (?n + 1) mod 256"
    "sv_whowas_count ?s = min 256 (?k + 1)"
    using assms(2,3) k by (auto simp: presence_whowas_record_def Let_def)
  have old: "(sv_whowas s)[?n := ?e] ! (((?n + 1) mod 256 + 256 - 1 - Suc i) mod 256) =
      sv_whowas s ! ((?n + 256 - 1 - i) mod 256)" if "i < 255" for i
  proof -
    have m: "((?n + 1) mod 256 + 256 - 1 - Suc i) mod 256 = (?n + 256 - 1 - i) mod 256"
      using n that by (cases "?n = 255") (auto simp: mod_if)
    have "(?n + 256 - 1 - i) mod 256 \<noteq> ?n"
      using n that by (auto simp: mod_if)
    then show ?thesis unfolding m by simp
  qed
  have new: "(sv_whowas s)[?n := ?e] ! (((?n + 1) mod 256 + 256 - 1 - 0) mod 256) = ?e"
    using n len by (cases "?n = 255") (auto simp: mod_if)
  have "whowas_history ?s = take 256 (?e # whowas_history s)"
  proof (rule nth_equalityI)
    show "length (whowas_history ?s) = length (take 256 (?e # whowas_history s))"
      using k by (simp add: whowas_history_def s')
    fix i assume "i < length (whowas_history ?s)"
    then have i: "i < min 256 (?k + 1)" by (simp add: whowas_history_def s')
    have hist: "whowas_history ?s ! i = (sv_whowas s)[?n := ?e] ! (((?n + 1) mod 256 + 256 - 1 - i) mod 256)"
      using i whowas_history_nth [of i ?s] unfolding s' by simp
    show "whowas_history ?s ! i = take 256 (?e # whowas_history s) ! i"
    proof (cases i)
      case 0
      then show ?thesis using new unfolding hist by simp
    next
      case (Suc j)
      then have "j < ?k" "j < 255" using i by auto
      then show ?thesis
        using old [of j] whowas_history_nth [of j s] hist unfolding Suc by simp
    qed
  qed
  moreover have "whowas_inv ?s" using len by (simp add: whowas_inv_def s')
  ultimately show ?thesis by simp
qed

theorem whowas_ring_is_recent_history_witness:
  "map ww_nick (whowas_history (presence_whowas_record 0 []
     ((server_blank 1 config_blank env_blank)\<lparr>sv_client := (\<lambda>_. client_zero\<lparr>c_nick := ''al'', c_signon_time := 5\<rparr>)\<rparr>)))
   = [''al'']"
proof -
  let ?s = "(server_blank 1 config_blank env_blank)\<lparr>sv_client := (\<lambda>_. client_zero\<lparr>c_nick := ''al'', c_signon_time := 5\<rparr>)\<rparr>"
  have h: "whowas_inv ?s" "c_registered (sv_client ?s 0) \<or> c_signon_time (sv_client ?s 0) \<noteq> 0"
    "c_nick (sv_client ?s 0) \<noteq> []"
    unfolding whowas_inv_def by (simp_all add: server_blank_def)
  have "whowas_history ?s = []" by (simp add: whowas_history_def server_blank_def)
  then show ?thesis
    using whowas_ring_is_recent_history [OF h] by (simp add: whowas_entry_def)
qed

end
