(* ===== verification/Server_Core.thy ===== *)
theory Server_Core
  imports Presence "HOL-Library.Multiset"
begin

section \<open>Connections, channels and teardown (src/server.c)\<close>

text \<open>
  The part of the server that owns the client and channel objects: admission of a connection
  with its limits and indexes, the per-address counters, creation and removal of channels,
  and \<open>server_disconnect\<close>.  \<open>server_wf\<close> is the well-formedness invariant that ties the
  arrays, the stores, the hash tables and the two sides of channel membership together.

  Not modelled here: sockets and poll, the TLS handshake, the resolver threads and the
  channel log.
\<close>

subsection \<open>Per-address connection counts\<close>

definition client_id_key :: "u64 \<Rightarrow> string" where
  "client_id_key i = dec (unat i)"

definition numeric_ip_equal :: "server \<Rightarrow> string \<Rightarrow> string \<Rightarrow> bool" where
  "numeric_ip_equal s left right \<longleftrightarrow>
     (case (sv_canonical_ip s left, sv_canonical_ip s right) of
        (Some a, Some b) \<Rightarrow> a = b | _ \<Rightarrow> False)"

definition connection_count_lookup :: "server \<Rightarrow> string \<Rightarrow> nat option" where
  "connection_count_lookup s ip =
     (case sv_canonical_ip s ip of
        None \<Rightarrow> None | Some key \<Rightarrow> hash_get (sv_connection_counts_by_ip s) key)"

definition set_counts :: "nat hash_table \<Rightarrow> server \<Rightarrow> server" where
  "set_counts t s = s\<lparr>sv_connection_counts_by_ip := t\<rparr>"

text \<open>\<open>++record->cnt\<close> through the stored pointer is the update of an existing key.\<close>

definition connection_count_add :: "string \<Rightarrow> server \<Rightarrow> int \<times> server" where
  "connection_count_add ip s =
     (case sv_canonical_ip s ip of
        None \<Rightarrow> (-1, s)
      | Some key \<Rightarrow>
          (case hash_get (sv_connection_counts_by_ip s) key of
             Some cnt \<Rightarrow>
               if cnt = 2 ^ 64 - 1 then (-1, s)
               else (0, set_counts (snd (hash_set True (sv_connection_counts_by_ip s) key (cnt + 1))) s)
           | None \<Rightarrow>
               if \<not> sv_alloc s then (-1, s)
               else let (rc, t) = hash_set (sv_alloc s) (sv_connection_counts_by_ip s) key 1
                    in if rc \<noteq> 0 then (-1, s) else (0, set_counts t s)))"

definition connection_count_remove :: "string \<Rightarrow> server \<Rightarrow> server" where
  "connection_count_remove ip s =
     (case sv_canonical_ip s ip of
        None \<Rightarrow> s
      | Some key \<Rightarrow>
          (case hash_get (sv_connection_counts_by_ip s) key of
             None \<Rightarrow> s
           | Some cnt \<Rightarrow>
               if cnt > 1
               then set_counts (snd (hash_set True (sv_connection_counts_by_ip s) key (cnt - 1))) s
               else set_counts (snd (hash_remove (sv_connection_counts_by_ip s) key)) s))"

definition server_connection_count_move :: "string \<Rightarrow> string \<Rightarrow> server \<Rightarrow> int \<times> server" where
  "server_connection_count_move old_ip new_ip s =
     (case (sv_canonical_ip s old_ip, sv_canonical_ip s new_ip) of
        (Some old_key, Some new_key) \<Rightarrow>
          (case hash_get (sv_connection_counts_by_ip s) old_key of
             None \<Rightarrow> (-1, s)
           | Some cnt \<Rightarrow>
               if cnt = 0 then (-1, s)
               else if old_key = new_key then (0, s)
               else let (rc, s1) = connection_count_add new_key s
                    in if rc \<noteq> 0 then (-1, s1) else (0, connection_count_remove old_key s1))
      | _ \<Rightarrow> (-1, s))"

definition server_connection_limit_ip_exempt :: "server \<Rightarrow> string \<Rightarrow> bool" where
  "server_connection_limit_ip_exempt s ip =
     (if ip = [] then False
      else if list_ex (numeric_ip_equal s ip) (cf_connection_limit_exempt_ips (sv_config s)) then True
      else if list_ex (\<lambda>g. numeric_ip_equal s ip (fst g)) (cf_webirc_gateways (sv_config s)) then True
      else sv_eline_ip s ip)"

text \<open>\<open>exclude\<close> is the real address of the excluded client, if one is given.\<close>

definition server_connection_limit_reached :: "server \<Rightarrow> string \<Rightarrow> string option \<Rightarrow> bool" where
  "server_connection_limit_reached s ip exclude =
     (if ip = [] \<or> cf_max_connections_per_ip (sv_config s) = 0 \<or> server_connection_limit_ip_exempt s ip
      then False
      else let n = (case connection_count_lookup s ip of Some k \<Rightarrow> k | None \<Rightarrow> 0);
               n1 = (case (exclude, sv_canonical_ip s ip) of
                       (Some e, Some key) \<Rightarrow> if n > 0 \<and> numeric_ip_equal s e key then n - 1 else n
                     | _ \<Rightarrow> n)
           in n1 \<ge> cf_max_connections_per_ip (sv_config s))"

subsection \<open>Admission\<close>

definition ensure_client_capacity :: "server \<Rightarrow> int \<times> server" where
  "ensure_client_capacity s =
     (if length (sv_clients s) < sv_client_capacity s then (0, s)
      else let doubled = (if sv_client_capacity s = 0 then 16 else sv_client_capacity s * 2);
               capacity = min doubled (cf_max_clients (sv_config s))
           in if capacity \<le> sv_client_capacity s then (-1, s)
              else if \<not> sv_alloc s then (-1, s)
              else (0, s\<lparr>sv_client_capacity := capacity\<rparr>))"

text \<open>
  What the system calls answer for one accepted socket: the peer address, whether the socket
  became non-blocking, whether a TLS object could be made, and whether the lookup of the host
  name could be submitted.
\<close>

record accept_answer =
  aa_ip :: "string option"
  aa_nonblocking :: bool
  aa_ssl :: bool
  aa_dns :: bool

text \<open>
  The body of the loop of \<open>accept_clients\<close> for one socket.  A client that is freed before it
  entered the array leaves only its log entry and an advanced id counter.
\<close>

definition accept_reject :: "u32 \<Rightarrow> string \<Rightarrow> server \<Rightarrow> server" where
  "accept_reject category text s = snotice_broadcast category text s"

definition accept_admitted :: "bool \<Rightarrow> accept_answer \<Rightarrow> cref \<Rightarrow> client \<Rightarrow> server \<Rightarrow> server" where
  "accept_admitted use_tls a c cl s3 =
     (let s4 = s3\<lparr>sv_clients := sv_clients s3 @ [c]\<rparr>;
          s5 = snotice_broadcast SNOTICE_CONNECTIONS
            (''Client connection accepted: real_ip='' @ c_real_ip cl @ '' transport='' @
             (if use_tls then ''TLS'' else ''plain'')) s4;
          s6 = upd_client c (\<lambda>cl. cl\<lparr>c_dns_state := CLIENT_DNS_PENDING,
                 c_dns_deadline := sv_clock s5 + uint (cf_dns_timeout_seconds (sv_config s5))\<rparr>) s5;
          s7 = (if \<not> use_tls
                then sendf c ('':'' @ server_name s6 @ '' NOTICE AUTH :*** Looking up your hostname'') s6
                else s6)
      in if aa_dns a then s7
         else let s8 = upd_client c (\<lambda>cl. cl\<lparr>c_dns_state := CLIENT_DNS_FAILED\<rparr>) s7;
                  s9 = snotice_broadcast SNOTICE_DNS (''FCrDNS submission failed for '' @ c_real_ip cl) s8
              in if \<not> use_tls
                 then sendf c ('':'' @ server_name s9 @
                   '' NOTICE AUTH :*** Hostname lookup failed; using IP instead'') s9
                 else s9)"

definition accept_created :: "bool \<Rightarrow> accept_answer \<Rightarrow> string \<Rightarrow> client \<Rightarrow> server \<Rightarrow> server" where
  "accept_created use_tls a ip cl s =
     (let c = sv_next_cref s;
          o1 = client_set_output_limit client_out_create (cf_output_queue_max_bytes (sv_config s));
          o2 = (if use_tls then o1\<lparr>o_ssl := True, o_tls_state := CLIENT_TLS_HANDSHAKE\<rparr> else o1);
          s1 = s\<lparr>sv_next_cref := c + 1, sv_client := (sv_client s)(c := cl), sv_out := (sv_out s)(c := o2)\<rparr>
      in if use_tls \<and> \<not> aa_ssl a
         then client_free c (accept_reject SNOTICE_SECURITY (''TLS connection setup failed from '' @ ip) s1)
         else let (rc, t) = hash_set (sv_alloc s1) (sv_clients_by_id s1) (client_id_key (c_id cl)) c
              in if rc \<noteq> 0
                 then client_free c (accept_reject SNOTICE_FLOOD
                        (''Connection rejected from '' @ ip @ '': client ID index allocation failure'') s1)
                 else let s2 = s1\<lparr>sv_clients_by_id := t\<rparr>;
                          (rc2, s3) = connection_count_add (c_real_ip cl) s2
                      in if rc2 \<noteq> 0
                         then let s4 = accept_reject SNOTICE_FLOOD
                                (''Connection rejected from '' @ ip @ '': per-IP index allocation failure'') s3
                              in client_free c (s4\<lparr>sv_clients_by_id :=
                                   snd (hash_remove (sv_clients_by_id s4) (client_id_key (c_id cl)))\<rparr>)
                         else accept_admitted use_tls a c cl s3)"

definition accept_client :: "bool \<Rightarrow> accept_answer \<Rightarrow> server \<Rightarrow> server" where
  "accept_client use_tls a s =
     (case aa_ip a of
        None \<Rightarrow> accept_reject SNOTICE_FLOOD ''Connection rejected: unable to determine peer IP'' s
      | Some ip \<Rightarrow>
          if length (sv_clients s) \<ge> cf_max_clients (sv_config s)
          then accept_reject SNOTICE_FLOOD
                 (''Connection rejected from '' @ ip @ '': global client limit reached ('' @
                  dec (length (sv_clients s)) @ ''/'' @ dec (cf_max_clients (sv_config s)) @ '')'') s
          else if server_connection_limit_reached s ip None
          then accept_reject (SNOTICE_FLOOD OR SNOTICE_SECURITY)
                 (''Connection rejected from '' @ ip @ '': per-IP concurrent connection limit reached ('' @
                  dec (cf_max_connections_per_ip (sv_config s)) @ '')'') s
          else if sv_next_client_id s = - 1
          then accept_reject SNOTICE_FLOOD
                 (''Connection rejected from '' @ ip @ '': client ID space exhausted'') s
          else let (rc, s1) = ensure_client_capacity s
               in if rc \<noteq> 0 \<or> \<not> aa_nonblocking a
                  then accept_reject SNOTICE_FLOOD
                    (''Connection rejected from '' @ ip @ '': server resource allocation/setup failure'') s1
                  else let s2 = s1\<lparr>sv_next_client_id := sv_next_client_id s1 + 1\<rparr>
                       in case client_create (sv_alloc s2) (sv_clock s2) (sv_next_client_id s2) (Some ip) of
                            None \<Rightarrow> accept_reject SNOTICE_FLOOD
                              (''Connection rejected from '' @ ip @ '': client allocation failure'') s2
                          | Some cl \<Rightarrow> accept_created use_tls a ip cl s2)"

subsection \<open>Channels\<close>

definition server_get_or_create_channel :: "string \<Rightarrow> server \<Rightarrow> chref option \<times> server" where
  "server_get_or_create_channel name s =
     (case hash_get (sv_channels_by_name s) name of
        Some h \<Rightarrow> (Some h, s)
      | None \<Rightarrow>
          if sv_channel_count s \<ge> cf_max_channels (sv_config s) then (None, s)
          else case channel_create (sv_alloc s) name of
                 None \<Rightarrow> (None, s)
               | Some ch \<Rightarrow>
                   let h = sv_next_chref s;
                       (rc, t) = hash_set (sv_alloc s) (sv_channels_by_name s) (ch_name ch) h
                   in if rc \<noteq> 0 then (None, s)
                      else (Some h, s\<lparr>sv_next_chref := h + 1, sv_channel := (sv_channel s)(h := ch),
                                      sv_live := h # sv_live s, sv_channels_by_name := t,
                                      sv_channel_count := sv_channel_count s + 1\<rparr>))"

definition server_remove_channel_if_empty :: "chref \<Rightarrow> server \<Rightarrow> server" where
  "server_remove_channel_if_empty h s =
     (if ch_member_count (sv_channel s h) \<noteq> 0 then s
      else let (removed, t) = hash_remove (sv_channels_by_name s) (ch_name (sv_channel s h))
           in if removed \<noteq> None
              then s\<lparr>sv_channels_by_name := t,
                     sv_channel_count := (if sv_channel_count s > 0 then sv_channel_count s - 1 else 0),
                     sv_live := removeAll h (sv_live s)\<rparr>
              else s)"

subsection \<open>Disconnecting\<close>

definition server_find_client_by_id :: "server \<Rightarrow> u64 \<Rightarrow> cref option" where
  "server_find_client_by_id s i = hash_get (sv_clients_by_id s) (client_id_key i)"

text \<open>The array removal: the last element takes the place of the removed one.\<close>

fun swap_remove :: "cref \<Rightarrow> cref list \<Rightarrow> cref list" where
  "swap_remove c [] = []"
| "swap_remove c (x # xs) =
     (if x = c then (if xs = [] then [] else last xs # butlast xs) else x # swap_remove c xs)"

text \<open>
  The \<open>while\<close> loop over \<open>client->channels\<close>: every iteration removes the head link, so it visits
  the channels of the list as it stands before the loop.
\<close>

definition leave_all_channels :: "cref \<Rightarrow> server \<Rightarrow> server" where
  "leave_all_channels c s =
     fold (\<lambda>h s. server_remove_channel_if_empty h (remove_member h c s)) (c_channels (sv_client s c)) s"

definition quit_line :: "client \<Rightarrow> string \<Rightarrow> string" where
  "quit_line cl reason = take (IRCD_MESSAGE_BUFFER_SIZE - 1) ('':'' @ client_identity cl @ '' QUIT :'' @ reason)"

definition disconnect_notice :: "client \<Rightarrow> string \<Rightarrow> string" where
  "disconnect_notice cl reason =
     ''Client disconnect: nick='' @ (if c_nick cl \<noteq> [] then c_nick cl else ''*'') @
     '' user='' @ (if c_user cl \<noteq> [] then c_user cl else ''*'') @
     '' display_host='' @ (if c_display_host cl \<noteq> [] then c_display_host cl else c_real_ip cl) @
     '' real_ip='' @ c_real_ip cl @
     '' real_host='' @ (if c_real_host cl \<noteq> [] then c_real_host cl else ''-'') @
     '' registered='' @ (if c_registered cl then ''yes'' else ''no'') @ '' reason='' @ reason"

definition server_disconnect :: "cref \<Rightarrow> string \<Rightarrow> server \<Rightarrow> server" where
  "server_disconnect c reason s =
     (let cl = sv_client s c;
          s1 = (if c_registered cl then server_pmstats_disconnect c s else s);
          s2 = snotice_broadcast SNOTICE_CONNECTIONS (disconnect_notice cl reason) s1;
          s3 = (if c_registered cl
                then send_each (\<lambda>_. quit_line cl reason)
                       (filter (\<lambda>d. d \<noteq> c \<and> clients_share_channel s2 c d) (sv_clients s2)) s2
                else s2);
          s4 = leave_all_channels c s3;
          s5 = (if c_nick cl \<noteq> []
                then s4\<lparr>sv_clients_by_nick := snd (hash_remove (sv_clients_by_nick s4) (c_nick cl))\<rparr> else s4);
          s6 = s5\<lparr>sv_clients_by_id := snd (hash_remove (sv_clients_by_id s5) (client_id_key (c_id cl)))\<rparr>;
          s7 = connection_count_remove (c_real_ip cl) s6;
          s8 = s7\<lparr>sv_clients := swap_remove c (sv_clients s7)\<rparr>;
          s9 = upd_client c (\<lambda>cl. cl\<lparr>c_registered := False\<rparr>) s8
      in client_free c s9)"

subsection \<open>Well-formedness\<close>

definition nick_of :: "server \<Rightarrow> cref \<Rightarrow> string option" where
  "nick_of s c = (if c \<in> set (sv_clients s) \<and> c_nick (sv_client s c) \<noteq> [] then Some (c_nick (sv_client s c)) else None)"

definition id_of :: "server \<Rightarrow> cref \<Rightarrow> string option" where
  "id_of s c = (if c \<in> set (sv_clients s) then Some (client_id_key (c_id (sv_client s c))) else None)"

definition chan_of :: "server \<Rightarrow> chref \<Rightarrow> string option" where
  "chan_of s h = (if h \<in> set (sv_live s) then Some (ch_name (sv_channel s h)) else None)"

definition ip_clients :: "server \<Rightarrow> string \<Rightarrow> cref list" where
  "ip_clients s key =
     filter (\<lambda>c. case sv_canonical_ip s (c_real_ip (sv_client s c)) of
                   Some k \<Rightarrow> fold_key k = fold_key key | None \<Rightarrow> False) (sv_clients s)"

text \<open>The four indexes find exactly the objects they should.\<close>

definition wf_index :: "server \<Rightarrow> bool" where
  "wf_index s \<longleftrightarrow>
     hash_inv (sv_clients_by_id s) \<and> hash_inv (sv_clients_by_nick s) \<and>
     hash_inv (sv_channels_by_name s) \<and> hash_inv (sv_connection_counts_by_ip s) \<and>
     index_of (hash_get (sv_clients_by_id s)) (id_of s) \<and>
     index_of (hash_get (sv_clients_by_nick s)) (nick_of s) \<and>
     index_of (hash_get (sv_channels_by_name s)) (chan_of s)"

definition wf_counts :: "server \<Rightarrow> bool" where
  "wf_counts s \<longleftrightarrow>
     (\<forall>key. hash_get (sv_connection_counts_by_ip s) key =
        (if ip_clients s key = [] then None else Some (length (ip_clients s key))))"

text \<open>The two sides of channel membership agree, and every reference is to a live object.\<close>

definition wf_members :: "server \<Rightarrow> bool" where
  "wf_members s \<longleftrightarrow>
     (\<forall>h\<in>set (sv_live s). members_inv (sv_channel s h) \<and>
        member_refs (sv_channel s h) = {c \<in> set (sv_clients s). h \<in> set (c_channels (sv_client s c))}) \<and>
     (\<forall>c\<in>set (sv_clients s). distinct (c_channels (sv_client s c)) \<and>
        c_channel_count (sv_client s c) = length (c_channels (sv_client s c)) \<and>
        set (c_channels (sv_client s c)) \<subseteq> set (sv_live s))"

definition wf_alloc :: "server \<Rightarrow> bool" where
  "wf_alloc s \<longleftrightarrow>
     distinct (sv_clients s) \<and> (\<forall>c\<in>set (sv_clients s). c < sv_next_cref s \<and> c_id (sv_client s c) \<le> sv_next_client_id s) \<and>
     distinct (sv_live s) \<and> (\<forall>h\<in>set (sv_live s). h < sv_next_chref s) \<and>
     sv_channel_count s = length (sv_live s)"

definition server_wf :: "server \<Rightarrow> bool" where
  "server_wf s \<longleftrightarrow> wf_alloc s \<and> wf_index s \<and> wf_counts s \<and> wf_members s"

lemmas wf_defs = server_wf_def wf_alloc_def wf_index_def wf_counts_def wf_members_def

subsection \<open>What the invariant depends on\<close>

lemma server_wf_cong:
  assumes "sv_clients s' = sv_clients s" "sv_live s' = sv_live s" "sv_next_cref s' = sv_next_cref s"
    "sv_next_chref s' = sv_next_chref s" "sv_channel_count s' = sv_channel_count s"
    "sv_next_client_id s' = sv_next_client_id s" "sv_clients_by_id s' = sv_clients_by_id s"
    "sv_clients_by_nick s' = sv_clients_by_nick s" "sv_channels_by_name s' = sv_channels_by_name s"
    "sv_connection_counts_by_ip s' = sv_connection_counts_by_ip s" "sv_canonical_ip s' = sv_canonical_ip s"
    and cl: "\<And>c. c \<in> set (sv_clients s) \<Longrightarrow>
      c_id (sv_client s' c) = c_id (sv_client s c) \<and> c_nick (sv_client s' c) = c_nick (sv_client s c) \<and>
      c_real_ip (sv_client s' c) = c_real_ip (sv_client s c) \<and>
      c_channels (sv_client s' c) = c_channels (sv_client s c) \<and>
      c_channel_count (sv_client s' c) = c_channel_count (sv_client s c)"
    and ch: "\<And>h. h \<in> set (sv_live s) \<Longrightarrow>
      ch_name (sv_channel s' h) = ch_name (sv_channel s h) \<and>
      map m_client (ch_members (sv_channel s' h)) = map m_client (ch_members (sv_channel s h)) \<and>
      (members_inv (sv_channel s h) \<longrightarrow> members_inv (sv_channel s' h))"
    and wf: "server_wf s"
  shows "server_wf s'"
proof -
  note eqs = assms(1-11)
  have "id_of s' c = id_of s c" "nick_of s' c = nick_of s c" for c
    using eqs cl [of c] by (auto simp: id_of_def nick_of_def)
  moreover have "chan_of s' h = chan_of s h" for h
    using eqs ch [of h] by (auto simp: chan_of_def)
  ultimately have "id_of s' = id_of s" and "nick_of s' = nick_of s" and "chan_of s' = chan_of s"
    by (simp_all add: fun_eq_iff)
  then have idx: "wf_index s'"
    using wf eqs by (simp add: server_wf_def wf_index_def)
  have "ip_clients s' = ip_clients s"
    using eqs cl by (auto simp: ip_clients_def fun_eq_iff intro!: filter_cong)
  then have cnt: "wf_counts s'"
    using wf eqs by (simp add: server_wf_def wf_counts_def)
  have refs: "member_refs (sv_channel s' h) = member_refs (sv_channel s h)" if "h \<in> set (sv_live s)" for h
    using ch [OF that] by (metis image_set)
  have "{c \<in> set (sv_clients s'). h \<in> set (c_channels (sv_client s' c))} =
      {c \<in> set (sv_clients s). h \<in> set (c_channels (sv_client s c))}" for h
    using eqs cl by auto
  then have "wf_members s'"
    using wf eqs cl ch refs unfolding server_wf_def wf_members_def by simp
  moreover have "wf_alloc s'"
    using wf eqs cl unfolding server_wf_def wf_alloc_def by simp
  ultimately show ?thesis using idx cnt by (simp add: server_wf_def)
qed

lemma server_wf_aux [wf_intros]: "aux_only s s' \<Longrightarrow> server_wf s \<Longrightarrow> server_wf s'"
  by (rule server_wf_cong) (simp_all add: aux_fields)

lemma server_wf_io [wf_intros]: "io_only s s' \<Longrightarrow> server_wf s \<Longrightarrow> server_wf s'"
  by (rule server_wf_aux [OF aux_only_io])

text \<open>Assignments to a client or a channel that keep what the indexes and memberships use.\<close>

lemma upd_client_fields [simp, frame_simps]:
  "sv_clients (upd_client c f s) = sv_clients s" "sv_live (upd_client c f s) = sv_live s"
  "sv_channel (upd_client c f s) = sv_channel s" "sv_config (upd_client c f s) = sv_config s"
  "sv_env (upd_client c f s) = sv_env s" "sv_out (upd_client c f s) = sv_out s"
  "sv_log (upd_client c f s) = sv_log s" "sv_clock (upd_client c f s) = sv_clock s"
  "sv_clients_by_nick (upd_client c f s) = sv_clients_by_nick s"
  "sv_clients_by_id (upd_client c f s) = sv_clients_by_id s"
  "sv_channels_by_name (upd_client c f s) = sv_channels_by_name s"
  "sv_connection_counts_by_ip (upd_client c f s) = sv_connection_counts_by_ip s"
  "sv_client (upd_client c f s) = (sv_client s)(c := f (sv_client s c))"
  "sv_csdb (upd_client c f s) = sv_csdb s" "sv_next_cref (upd_client c f s) = sv_next_cref s"
  "sv_next_chref (upd_client c f s) = sv_next_chref s" "sv_channel_count (upd_client c f s) = sv_channel_count s"
  "sv_next_client_id (upd_client c f s) = sv_next_client_id s" "sv_canonical_ip (upd_client c f s) = sv_canonical_ip s"
  "sv_free_hook (upd_client c f s) = sv_free_hook s" "sv_world (upd_client c f s) = sv_world s"
  by (simp_all add: upd_client_def)

lemma upd_channel_fields [simp, frame_simps]:
  "sv_clients (upd_channel h f s) = sv_clients s" "sv_live (upd_channel h f s) = sv_live s"
  "sv_client (upd_channel h f s) = sv_client s" "sv_config (upd_channel h f s) = sv_config s"
  "sv_env (upd_channel h f s) = sv_env s" "sv_out (upd_channel h f s) = sv_out s"
  "sv_log (upd_channel h f s) = sv_log s" "sv_clock (upd_channel h f s) = sv_clock s"
  "sv_clients_by_nick (upd_channel h f s) = sv_clients_by_nick s"
  "sv_clients_by_id (upd_channel h f s) = sv_clients_by_id s"
  "sv_channels_by_name (upd_channel h f s) = sv_channels_by_name s"
  "sv_connection_counts_by_ip (upd_channel h f s) = sv_connection_counts_by_ip s"
  "sv_channel (upd_channel h f s) = (sv_channel s)(h := f (sv_channel s h))"
  "sv_csdb (upd_channel h f s) = sv_csdb s" "sv_next_cref (upd_channel h f s) = sv_next_cref s"
  "sv_next_chref (upd_channel h f s) = sv_next_chref s" "sv_channel_count (upd_channel h f s) = sv_channel_count s"
  "sv_next_client_id (upd_channel h f s) = sv_next_client_id s" "sv_canonical_ip (upd_channel h f s) = sv_canonical_ip s"
  "sv_free_hook (upd_channel h f s) = sv_free_hook s" "sv_world (upd_channel h f s) = sv_world s"
  by (simp_all add: upd_channel_def)

lemma server_wf_upd_client:
  assumes "server_wf s"
    and "c \<in> set (sv_clients s) \<Longrightarrow>
      c_id (f (sv_client s c)) = c_id (sv_client s c) \<and> c_nick (f (sv_client s c)) = c_nick (sv_client s c) \<and>
      c_real_ip (f (sv_client s c)) = c_real_ip (sv_client s c) \<and>
      c_channels (f (sv_client s c)) = c_channels (sv_client s c) \<and>
      c_channel_count (f (sv_client s c)) = c_channel_count (sv_client s c)"
  shows "server_wf (upd_client c f s)"
proof (rule server_wf_cong [OF _ _ _ _ _ _ _ _ _ _ _ _ _ assms(1)], goal_cases)
  case (12 d)
  then show ?case using assms(2) by (cases "d = c") simp_all
qed simp_all

lemma server_wf_upd_channel:
  assumes "server_wf s"
    and "ch_name (f (sv_channel s h)) = ch_name (sv_channel s h)"
    and "map m_client (ch_members (f (sv_channel s h))) = map m_client (ch_members (sv_channel s h))"
    and "members_inv (sv_channel s h) \<Longrightarrow> members_inv (f (sv_channel s h))"
  shows "server_wf (upd_channel h f s)"
proof (rule server_wf_cong [OF _ _ _ _ _ _ _ _ _ _ _ _ _ assms(1)], goal_cases)
  case (13 k)
  then show ?case using assms(2-4) by (cases "k = h") simp_all
qed simp_all

subsection \<open>Channels come and go\<close>

lemma channel_name_valid_length: "channel_name_valid name \<Longrightarrow> length name \<le> IRC_CHANNEL_NAME_MAX"
  by (simp add: channel_name_valid_def Let_def)

lemma channel_create_name:
  "channel_create alloc name = Some ch \<Longrightarrow>
     alloc \<and> ch_name ch = name \<and> ch_members ch = [] \<and> ch_member_count ch = 0 \<and> channel_name_valid name"
  unfolding channel_create_def
  by (simp split: if_splits) (auto simp: channel_zero_def dest: channel_name_valid_length)

lemma get_or_create_cases:
  assumes "server_get_or_create_channel name s = (r, s')" and "server_wf s"
  obtains (found) h where "r = Some h" "s' = s" "hash_get (sv_channels_by_name s) name = Some h"
  | (failed) "r = None" "s' = s"
  | (fresh) ch where "r = Some (sv_next_chref s)" "hash_get (sv_channels_by_name s) name = None"
      "channel_create True name = Some ch" "sv_channel_count s < cf_max_channels (sv_config s)"
      "s' = s\<lparr>sv_next_chref := sv_next_chref s + 1, sv_channel := (sv_channel s)(sv_next_chref s := ch),
              sv_live := sv_next_chref s # sv_live s,
              sv_channels_by_name := snd (hash_set True (sv_channels_by_name s) name (sv_next_chref s)),
              sv_channel_count := sv_channel_count s + 1\<rparr>"
proof (cases "hash_get (sv_channels_by_name s) name")
  case (Some h)
  then show ?thesis using assms(1) by (intro found [of h]) (auto simp: server_get_or_create_channel_def)
next
  case None
  show ?thesis
  proof (cases "sv_channel_count s \<ge> cf_max_channels (sv_config s) \<or> channel_create (sv_alloc s) name = None")
    case True
    then show ?thesis
      using assms(1) None by (intro failed) (auto simp: server_get_or_create_channel_def split: if_splits)
  next
    case False
    then obtain ch where ch: "channel_create (sv_alloc s) name = Some ch" by auto
    have al: "sv_alloc s" "ch_name ch = name" using channel_create_name [OF ch] by auto
    have rc: "fst (hash_set True (sv_channels_by_name s) name (sv_next_chref s)) = 0"
      using assms(2) by (intro hash_set_rc) (simp add: wf_defs)
    show ?thesis
      using assms(1) False None ch al rc
      by (intro fresh [of ch]) (auto simp: server_get_or_create_channel_def Let_def split: prod.splits)
  qed
qed

lemma get_or_create_wf [wf_intros]:
  assumes wf: "server_wf s" and r: "server_get_or_create_channel name s = (r, s')"
  shows "server_wf s'"
  using r wf
proof (cases rule: get_or_create_cases)
  case (fresh ch)
  let ?h = "sv_next_chref s"
  note c = channel_create_name [OF fresh(3)]
  have new: "?h \<notin> set (sv_live s)" using wf by (auto simp: wf_defs)
  have "chan_of s' = (chan_of s)(?h := Some name)"
    using fresh c by (auto simp: chan_of_def)
  moreover have "index_of (hash_get (snd (hash_set True (sv_channels_by_name s) name ?h))) ((chan_of s)(?h := Some name))"
    using wf fresh(2) new by (intro ht.index_insert) (auto simp: wf_defs chan_of_def)
  moreover have "id_of s' = id_of s" "nick_of s' = nick_of s" "ip_clients s' = ip_clients s"
    using fresh by (auto simp: id_of_def nick_of_def ip_clients_def)
  ultimately have "wf_index s'" "wf_counts s'"
    using wf fresh by (simp_all add: wf_defs hash_set_inv)
  moreover have "wf_alloc s'"
    using wf fresh new by (auto simp: wf_defs)
  moreover have "wf_members s'"
  proof -
    have "{d \<in> set (sv_clients s). ?h \<in> set (c_channels (sv_client s d))} = {}"
      using wf new by (auto simp: wf_defs)
    moreover have "members_inv ch" by (rule channel_create_inv [OF fresh(3)])
    ultimately show ?thesis
      using wf fresh c new unfolding server_wf_def wf_members_def by auto
  qed
  ultimately show ?thesis by (simp add: server_wf_def)
qed (use wf in auto)

text \<open>The reference that is returned is live and carries the requested name.\<close>

lemma get_or_create_live:
  assumes wf: "server_wf s" and r: "server_get_or_create_channel name s = (Some h, s')"
  shows "h \<in> set (sv_live s') \<and> fold_key (ch_name (sv_channel s' h)) = fold_key name \<and>
    sv_clients s' = sv_clients s \<and> sv_client s' = sv_client s \<and> set (sv_live s) \<subseteq> set (sv_live s')"
  using r wf
proof (cases rule: get_or_create_cases)
  case (found h')
  then have "h = h'" by simp
  have "chan_of s h' \<noteq> None \<and> fold_key (the (chan_of s h')) = fold_key name"
    using found(3) wf unfolding wf_defs index_of_def by fastforce
  then show ?thesis
    using found(2) \<open>h = h'\<close> by (auto simp: chan_of_def split: if_splits)
next
  case (fresh ch)
  then show ?thesis using channel_create_name [OF fresh(3)] by auto
qed auto

lemma remove_if_empty_frame [simp, frame_simps]:
  "sv_clients (server_remove_channel_if_empty h s) = sv_clients s"
  "sv_client (server_remove_channel_if_empty h s) = sv_client s"
  "sv_channel (server_remove_channel_if_empty h s) = sv_channel s"
  "sv_clients_by_nick (server_remove_channel_if_empty h s) = sv_clients_by_nick s"
  "sv_clients_by_id (server_remove_channel_if_empty h s) = sv_clients_by_id s"
  "sv_connection_counts_by_ip (server_remove_channel_if_empty h s) = sv_connection_counts_by_ip s"
  "sv_config (server_remove_channel_if_empty h s) = sv_config s"
  "sv_canonical_ip (server_remove_channel_if_empty h s) = sv_canonical_ip s"
  "sv_log (server_remove_channel_if_empty h s) = sv_log s"
  "sv_out (server_remove_channel_if_empty h s) = sv_out s"
  "sv_env (server_remove_channel_if_empty h s) = sv_env s"
  "sv_free_hook (server_remove_channel_if_empty h s) = sv_free_hook s"
  "sv_clock (server_remove_channel_if_empty h s) = sv_clock s"
  "sv_csdb (server_remove_channel_if_empty h s) = sv_csdb s"
  by (auto simp: server_remove_channel_if_empty_def Let_def split: prod.split)

lemma remove_if_empty_eq:
  assumes wf: "server_wf s" and h: "h \<in> set (sv_live s)"
  shows "server_remove_channel_if_empty h s =
    (if ch_members (sv_channel s h) \<noteq> [] then s
     else s\<lparr>sv_channels_by_name := snd (hash_remove (sv_channels_by_name s) (ch_name (sv_channel s h))),
            sv_channel_count := sv_channel_count s - 1, sv_live := removeAll h (sv_live s)\<rparr>)"
proof -
  have "ch_member_count (sv_channel s h) = length (ch_members (sv_channel s h))"
    using wf h by (auto simp: wf_defs members_inv_def)
  moreover have "hash_get (sv_channels_by_name s) (ch_name (sv_channel s h)) = Some h"
    using wf h by (intro ht.index_lookup [where nm = "chan_of s"]) (auto simp: wf_defs chan_of_def)
  ultimately show ?thesis
    by (auto simp: server_remove_channel_if_empty_def Let_def hash_remove_fst [symmetric] split: prod.splits)
qed

lemma remove_if_empty_wf [wf_intros]:
  assumes wf: "server_wf s" and h: "h \<in> set (sv_live s)"
  shows "server_wf (server_remove_channel_if_empty h s)"
proof (cases "ch_members (sv_channel s h) = []")
  case False
  then show ?thesis using remove_if_empty_eq [OF assms] wf by simp
next
  case True
  let ?s = "s\<lparr>sv_channels_by_name := snd (hash_remove (sv_channels_by_name s) (ch_name (sv_channel s h))),
            sv_channel_count := sv_channel_count s - 1, sv_live := removeAll h (sv_live s)\<rparr>"
  have eq: "server_remove_channel_if_empty h s = ?s" using remove_if_empty_eq [OF assms] True by simp
  have none: "{c \<in> set (sv_clients s). h \<in> set (c_channels (sv_client s c))} = {}"
    using wf h True by (auto simp: wf_defs)
  have "chan_of ?s = (chan_of s)(h := None)" by (auto simp: chan_of_def)
  moreover have "index_of (hash_get (snd (hash_remove (sv_channels_by_name s) (ch_name (sv_channel s h)))))
      ((chan_of s)(h := None))"
    using wf h by (intro ht.index_delete) (auto simp: wf_defs chan_of_def)
  moreover have "id_of ?s = id_of s" "nick_of ?s = nick_of s" "ip_clients ?s = ip_clients s"
    by (auto simp: id_of_def nick_of_def ip_clients_def)
  ultimately have "wf_index ?s" "wf_counts ?s"
    using wf by (simp_all add: wf_defs hash_remove_inv)
  moreover have "wf_alloc ?s"
    using wf h by (auto simp: wf_defs distinct_removeAll length_removeAll_less distinct_remove1_removeAll [symmetric]
        length_remove1)
  moreover have "wf_members ?s"
    using wf h none unfolding server_wf_def wf_members_def by auto
  ultimately show ?thesis unfolding eq by (simp add: server_wf_def)
qed

subsection \<open>Membership\<close>

lemma server_wf_membership:
  assumes wf: "server_wf s" and c: "c \<in> set (sv_clients s)" and h: "h \<in> set (sv_live s)"
    and ch: "ch_name ch = ch_name (sv_channel s h)" "members_inv ch"
      "member_refs ch - {c} = member_refs (sv_channel s h) - {c}"
    and cl: "c_id cl = c_id (sv_client s c)" "c_nick cl = c_nick (sv_client s c)"
      "c_real_ip cl = c_real_ip (sv_client s c)" "distinct (c_channels cl)"
      "c_channel_count cl = length (c_channels cl)"
      "set (c_channels cl) - {h} = set (c_channels (sv_client s c)) - {h}"
    and both: "c \<in> member_refs ch \<longleftrightarrow> h \<in> set (c_channels cl)"
  shows "server_wf (s\<lparr>sv_channel := (sv_channel s)(h := ch), sv_client := (sv_client s)(c := cl)\<rparr>)"
    (is "server_wf ?s")
proof -
  have "id_of ?s = id_of s" "nick_of ?s = nick_of s" "chan_of ?s = chan_of s" "ip_clients ?s = ip_clients s"
    using ch(1) cl(1-3) by (auto simp: id_of_def nick_of_def chan_of_def ip_clients_def fun_eq_iff intro!: filter_cong)
  then have "wf_index ?s" "wf_counts ?s"
    using wf by (simp_all add: wf_defs)
  moreover have "wf_alloc ?s" using wf c cl(1) by (simp add: wf_defs)
  moreover have "wf_members ?s"
  proof -
    have same: "k \<in> set (c_channels cl) \<longleftrightarrow> k \<in> set (c_channels (sv_client s c))" if "k \<noteq> h" for k
      using cl(6) that by blast
    have old: "\<forall>k\<in>set (sv_live s). members_inv (sv_channel s k) \<and>
        member_refs (sv_channel s k) = {d \<in> set (sv_clients s). k \<in> set (c_channels (sv_client s d))}"
      "\<forall>d\<in>set (sv_clients s). distinct (c_channels (sv_client s d)) \<and>
        c_channel_count (sv_client s d) = length (c_channels (sv_client s d)) \<and>
        set (c_channels (sv_client s d)) \<subseteq> set (sv_live s)"
      using wf unfolding server_wf_def wf_members_def by simp_all
    have "member_refs ch = {d \<in> set (sv_clients s). h \<in> set (c_channels (((sv_client s)(c := cl)) d))}"
    proof (intro set_eqI)
      fix d
      show "d \<in> member_refs ch \<longleftrightarrow> d \<in> {d \<in> set (sv_clients s). h \<in> set (c_channels (((sv_client s)(c := cl)) d))}"
      proof (cases "d = c")
        case False
        then have "d \<in> member_refs ch \<longleftrightarrow> d \<in> member_refs (sv_channel s h)" using ch(3) by blast
        then show ?thesis using old(1) h False by simp
      qed (use c both in simp)
    qed
    moreover have "{d \<in> set (sv_clients s). k \<in> set (c_channels (((sv_client s)(c := cl)) d))} =
        {d \<in> set (sv_clients s). k \<in> set (c_channels (sv_client s d))}" if "k \<noteq> h" for k
      using same [OF that] by auto
    moreover have "set (c_channels cl) \<subseteq> set (sv_live s)" 
    proof
      fix k assume "k \<in> set (c_channels cl)"
      then show "k \<in> set (sv_live s)" using same [of k] old(2) c h by (cases "k = h") auto
    qed
    ultimately show ?thesis
      using old ch(2) cl(4,5) by (simp add: wf_members_def)
  qed
  ultimately show ?thesis by (simp add: server_wf_def)
qed

lemma wf_member_iff:
  "server_wf s \<Longrightarrow> h \<in> set (sv_live s) \<Longrightarrow> c \<in> set (sv_clients s) \<Longrightarrow>
     c \<in> member_refs (sv_channel s h) \<longleftrightarrow> h \<in> set (c_channels (sv_client s c))"
  by (simp add: wf_defs)

lemma wf_channelsD:
  "server_wf s \<Longrightarrow> c \<in> set (sv_clients s) \<Longrightarrow>
     distinct (c_channels (sv_client s c)) \<and> c_channel_count (sv_client s c) = length (c_channels (sv_client s c)) \<and>
     set (c_channels (sv_client s c)) \<subseteq> set (sv_live s)"
  by (simp add: wf_defs)

lemma wf_members_invD: "server_wf s \<Longrightarrow> h \<in> set (sv_live s) \<Longrightarrow> members_inv (sv_channel s h)"
  by (simp add: wf_defs)

lemma wf_member_client:
  "server_wf s \<Longrightarrow> h \<in> set (sv_live s) \<Longrightarrow> c \<in> member_refs (sv_channel s h) \<Longrightarrow> c \<in> set (sv_clients s)"
  by (simp add: wf_defs)

lemma wf_indexD:
  assumes "server_wf s"
  shows "index_of (hash_get (sv_clients_by_id s)) (id_of s)"
    and "index_of (hash_get (sv_clients_by_nick s)) (nick_of s)"
    and "index_of (hash_get (sv_channels_by_name s)) (chan_of s)"
    and "hash_inv (sv_clients_by_id s)" and "hash_inv (sv_clients_by_nick s)"
    and "hash_inv (sv_channels_by_name s)" and "hash_inv (sv_connection_counts_by_ip s)"
  using assms by (simp_all add: wf_defs)

lemma wf_channel_lookup:
  assumes wf: "server_wf s" and g: "hash_get (sv_channels_by_name s) name = Some h"
  shows "h \<in> set (sv_live s) \<and> fold_key (ch_name (sv_channel s h)) = fold_key name"
proof -
  obtain n where "chan_of s h = Some n" "fold_key n = fold_key name"
    using g wf_indexD(3) [OF wf] unfolding index_of_def by blast
  then show ?thesis by (auto simp: chan_of_def split: if_splits)
qed

lemma wf_nick_lookup:
  assumes wf: "server_wf s" and g: "hash_get (sv_clients_by_nick s) nick = Some c"
  shows "c \<in> set (sv_clients s) \<and> fold_key (c_nick (sv_client s c)) = fold_key nick \<and> c_nick (sv_client s c) \<noteq> []"
proof -
  obtain n where "nick_of s c = Some n" "fold_key n = fold_key nick"
    using g wf_indexD(2) [OF wf] unfolding index_of_def by blast
  then show ?thesis by (auto simp: nick_of_def split: if_splits)
qed

lemma add_member_wf [wf_intros]:
  assumes wf: "server_wf s" and c: "c \<in> set (sv_clients s)" and h: "h \<in> set (sv_live s)"
  shows "server_wf (snd (add_member h c s))"
proof (cases "c \<in> member_refs (sv_channel s h) \<or> \<not> sv_alloc s")
  case True
  then have "snd (add_member h c s) = s"
    by (auto simp: add_member_def channel_add_client_def find_member_None)
  then show ?thesis using wf by simp
next
  case False
  then have new: "h \<notin> set (c_channels (sv_client s c))" using wf_member_iff [OF wf h c] by blast
  show ?thesis
    unfolding add_member_def Let_def
    using False new wf_channelsD [OF wf c] channel_add_client_inv [OF wf_members_invD [OF wf h], of True h c "sv_client s c"]
    by (auto simp: channel_add_client_def find_member_None intro!: server_wf_membership [OF wf c h])
qed

lemma remove_client_channels:
  assumes "distinct (c_channels cl)" "c_channel_count cl = length (c_channels cl)"
  shows "snd (channel_remove_client h c ch cl) =
    cl\<lparr>c_channels := filter (\<lambda>x. x \<noteq> h) (c_channels cl),
       c_channel_count := length (filter (\<lambda>x. x \<noteq> h) (c_channels cl))\<rparr>"
  using assms length_filter_key [of id "c_channels cl" h] filter_key_absent [of h id "c_channels cl"]
  by (auto simp: channel_remove_client_def unlink_channel_eq)

lemma remove_member_wf [wf_intros]:
  assumes wf: "server_wf s" and c: "c \<in> set (sv_clients s)" and h: "h \<in> set (sv_live s)"
  shows "server_wf (remove_member h c s)"
proof -
  let ?r = "channel_remove_client h c (sv_channel s h) (sv_client s c)"
  note inv = wf_members_invD [OF wf h]
  note chs = wf_channelsD [OF wf c]
  have cl: "snd ?r = (sv_client s c)\<lparr>c_channels := filter (\<lambda>x. x \<noteq> h) (c_channels (sv_client s c)),
      c_channel_count := length (filter (\<lambda>x. x \<noteq> h) (c_channels (sv_client s c)))\<rparr>"
    using chs by (intro remove_client_channels) simp_all
  have name: "ch_name (fst ?r) = ch_name (sv_channel s h)"
    by (simp add: channel_remove_client_def split: option.split)
  have "server_wf (s\<lparr>sv_channel := (sv_channel s)(h := fst ?r), sv_client := (sv_client s)(c := snd ?r)\<rparr>)"
    unfolding cl
    by (rule server_wf_membership [OF wf c h name channel_remove_client_inv [OF inv]])
      (use chs channel_remove_client_refs [OF inv] in auto)
  then show ?thesis by (simp add: remove_member_def Let_def case_prod_beta)
qed

subsection \<open>Teardown\<close>

lemma remove_member_client:
  assumes wf: "server_wf s" and c: "c \<in> set (sv_clients s)"
  shows "sv_client (remove_member h c s) =
    (sv_client s)(c := (sv_client s c)\<lparr>c_channels := filter (\<lambda>x. x \<noteq> h) (c_channels (sv_client s c)),
      c_channel_count := length (filter (\<lambda>x. x \<noteq> h) (c_channels (sv_client s c)))\<rparr>)"
  using wf_channelsD [OF wf c] remove_client_channels [of "sv_client s c" h c "sv_channel s h"]
  by (simp add: remove_member_def case_prod_beta)

lemma remove_member_frame [simp, frame_simps]:
  "sv_clients (remove_member h c s) = sv_clients s" "sv_live (remove_member h c s) = sv_live s"
  "sv_clients_by_nick (remove_member h c s) = sv_clients_by_nick s"
  "sv_clients_by_id (remove_member h c s) = sv_clients_by_id s"
  "sv_channels_by_name (remove_member h c s) = sv_channels_by_name s"
  "sv_connection_counts_by_ip (remove_member h c s) = sv_connection_counts_by_ip s"
  "sv_config (remove_member h c s) = sv_config s" "sv_env (remove_member h c s) = sv_env s"
  "sv_canonical_ip (remove_member h c s) = sv_canonical_ip s" "sv_out (remove_member h c s) = sv_out s"
  "sv_log (remove_member h c s) = sv_log s" "sv_clock (remove_member h c s) = sv_clock s"
  "sv_csdb (remove_member h c s) = sv_csdb s" "sv_free_hook (remove_member h c s) = sv_free_hook s"
  by (simp_all add: remove_member_def Let_def case_prod_beta)

text \<open>Leaving a channel frees it exactly when nobody else is in it.\<close>

lemma leave_step_live:
  assumes wf: "server_wf s" and c: "c \<in> set (sv_clients s)" and h: "h \<in> set (sv_live s)"
    and m: "h \<in> set (c_channels (sv_client s c))"
  shows "{k \<in> set (sv_live (server_remove_channel_if_empty h (remove_member h c s))).
       member_refs (sv_channel (server_remove_channel_if_empty h (remove_member h c s)) k) \<noteq> {c}} =
     {k \<in> set (sv_live s). member_refs (sv_channel s k) \<noteq> {c}}"
proof -
  let ?m = "remove_member h c s"
  have refs: "member_refs (sv_channel ?m h) = member_refs (sv_channel s h) - {c}"
    using channel_remove_client_refs [OF wf_members_invD [OF wf h]]
    by (simp add: remove_member_def case_prod_beta)
  have other: "sv_channel ?m k = sv_channel s k" if "k \<noteq> h" for k
    using that by (simp add: remove_member_def case_prod_beta)
  have in_h: "c \<in> member_refs (sv_channel s h)" using wf_member_iff [OF wf h c] m by simp
  have "set (sv_live (server_remove_channel_if_empty h ?m)) =
      (if member_refs (sv_channel s h) = {c} then set (sv_live s) - {h} else set (sv_live s))"
  proof -
    have "ch_members (sv_channel ?m h) = [] \<longleftrightarrow> member_refs (sv_channel s h) = {c}"
      using refs in_h by (metis Diff_eq_empty_iff empty_iff image_is_empty set_empty subset_singleton_iff)
    then show ?thesis using remove_if_empty_eq [OF remove_member_wf [OF wf c h], of h] h by simp
  qed
  moreover have "member_refs (sv_channel ?m k) \<noteq> {c} \<longleftrightarrow> k = h \<or> member_refs (sv_channel s k) \<noteq> {c}" for k
    using refs other [of k] by (cases "k = h") auto
  ultimately show ?thesis by auto
qed

lemma leave_loop:
  assumes "server_wf s" "c \<in> set (sv_clients s)" "c_channels (sv_client s c) = hs"
  defines "s' \<equiv> fold (\<lambda>h s. server_remove_channel_if_empty h (remove_member h c s)) hs s"
  shows "server_wf s' \<and> sv_clients s' = sv_clients s \<and>
    set (sv_live s') = {k \<in> set (sv_live s). member_refs (sv_channel s k) \<noteq> {c}} \<and>
    sv_client s' = (sv_client s)(c := (sv_client s c)\<lparr>c_channels := [], c_channel_count := 0\<rparr>) \<and>
    sv_clients_by_nick s' = sv_clients_by_nick s \<and> sv_clients_by_id s' = sv_clients_by_id s \<and>
    sv_connection_counts_by_ip s' = sv_connection_counts_by_ip s \<and> sv_canonical_ip s' = sv_canonical_ip s \<and>
    sv_config s' = sv_config s \<and> sv_log s' = sv_log s"
  using assms(1-3) unfolding s'_def
proof (induction hs arbitrary: s)
  case Nil
  then have "(sv_client s c)\<lparr>c_channels := [], c_channel_count := 0\<rparr> = sv_client s c"
    using wf_channelsD [of s c] by simp
  moreover have "member_refs (sv_channel s k) \<noteq> {c}" if "k \<in> set (sv_live s)" for k
    using wf_member_iff [OF Nil(1) that Nil(2)] Nil(3) by auto
  ultimately show ?case using Nil by auto
next
  case (Cons h hs)
  let ?m = "remove_member h c s"
  let ?s = "server_remove_channel_if_empty h ?m"
  have h: "h \<in> set (sv_live s)" and d: "distinct (h # hs)"
    using wf_channelsD [OF Cons.prems(1,2)] Cons.prems(3) by auto
  have wf: "server_wf ?s"
    using remove_member_wf [OF Cons.prems(1,2) h] h by (intro remove_if_empty_wf) simp_all
  have cl: "sv_client ?s = (sv_client s)(c := (sv_client s c)\<lparr>c_channels := hs, c_channel_count := length hs\<rparr>)"
    using Cons.prems(3) d filter_key_absent [of h id hs]
    by (simp add: remove_member_client [OF Cons.prems(1,2)])
  have live: "{k \<in> set (sv_live ?s). member_refs (sv_channel ?s k) \<noteq> {c}} =
      {k \<in> set (sv_live s). member_refs (sv_channel s k) \<noteq> {c}}"
    by (rule leave_step_live [OF Cons.prems(1,2) h]) (simp add: Cons.prems(3))
  show ?case
    using Cons.IH [OF wf] Cons.prems(2) unfolding cl fun_upd_upd live by simp
qed

lemma mset_swap_remove: "c \<in> set xs \<Longrightarrow> mset (swap_remove c xs) = mset xs - {#c#}"
proof (induction xs)
  case (Cons x xs)
  show ?case
  proof (cases "x = c")
    case True
    have "mset (last xs # butlast xs) = mset xs" if "xs \<noteq> []"
      using that by (cases xs rule: rev_cases) simp_all
    then show ?thesis using True by simp
  qed (use Cons in simp)
qed simp

text \<open>How one client more or less changes the population of an address.\<close>

definition on_ip :: "server \<Rightarrow> string \<Rightarrow> string \<Rightarrow> bool" where
  "on_ip s key ip \<longleftrightarrow> (case sv_canonical_ip s ip of Some k \<Rightarrow> fold_key k = fold_key key | None \<Rightarrow> False)"

definition counts_ok :: "nat hash_table \<Rightarrow> (string \<Rightarrow> nat) \<Rightarrow> bool" where
  "counts_ok t n \<longleftrightarrow> (\<forall>key. hash_get t key = (if n key = 0 then None else Some (n key)))"

lemma ip_clients_on: "ip_clients s key = filter (\<lambda>c. on_ip s key (c_real_ip (sv_client s c))) (sv_clients s)"
  unfolding ip_clients_def on_ip_def ..

lemma wf_counts_ok:
  "wf_counts s \<longleftrightarrow> counts_ok (sv_connection_counts_by_ip s) (\<lambda>key. length (ip_clients s key))"
  by (simp add: wf_counts_def counts_ok_def)

lemma count_add_ok:
  assumes "hash_inv (sv_connection_counts_by_ip s)" "counts_ok (sv_connection_counts_by_ip s) n"
    and "connection_count_add ip s = (0, s')"
  shows "sv_canonical_ip s ip \<noteq> None \<and>
    (\<exists>t. s' = set_counts t s \<and> hash_inv t \<and> counts_ok t (\<lambda>key. n key + (if on_ip s key ip then 1 else 0)))"
proof -
  obtain k where k: "sv_canonical_ip s ip = Some k"
    using assms(3) by (cases "sv_canonical_ip s ip") (simp_all add: connection_count_add_def)
  let ?t = "snd (hash_set True (sv_connection_counts_by_ip s) k (n k + 1))"
  have nk: "n j = n k" if "fold_key j = fold_key k" for j
    using assms(2) hash_get_cong [OF that, of "sv_connection_counts_by_ip s"]
    unfolding counts_ok_def by (metis option.distinct(1) option.inject)
  have "s' = set_counts ?t s"
  proof (cases "n k = 0")
    case True
    have "fst (hash_set True (sv_connection_counts_by_ip s) k 1) = 0" by (rule hash_set_rc [OF assms(1)])
    then show ?thesis
      using True k assms by (auto simp: connection_count_add_def counts_ok_def Let_def case_prod_beta split: if_splits)
  next
    case False
    then show ?thesis
      using k assms by (auto simp: connection_count_add_def counts_ok_def split: if_splits)
  qed
  moreover have "hash_get ?t key =
      (if n key + (if on_ip s key ip then 1 else 0) = 0 then None
       else Some (n key + (if on_ip s key ip then 1 else 0)))" for key
  proof -
    have "hash_get (sv_connection_counts_by_ip s) key = (if n key = 0 then None else Some (n key))"
      using assms(2) by (simp add: counts_ok_def)
    then show ?thesis
      using nk [of key] k by (auto simp: ht.put_get [OF assms(1)] on_ip_def)
  qed
  ultimately show ?thesis using k hash_set_inv [OF assms(1)] unfolding counts_ok_def by blast
qed

lemma count_remove_ok:
  assumes "hash_inv (sv_connection_counts_by_ip s)" "counts_ok (sv_connection_counts_by_ip s) n"
  shows "\<exists>t. connection_count_remove ip s = set_counts t s \<and> hash_inv t \<and>
    counts_ok t (\<lambda>key. n key - (if on_ip s key ip then 1 else 0))"
proof (cases "sv_canonical_ip s ip")
  case None
  then show ?thesis
    using assms by (intro exI [of _ "sv_connection_counts_by_ip s"])
      (simp add: connection_count_remove_def on_ip_def set_counts_def)
next
  case (Some k)
  let ?t = "sv_connection_counts_by_ip s"
  let ?u = "if n k = 0 then ?t else if n k > 1 then snd (hash_set True ?t k (n k - 1)) else snd (hash_remove ?t k)"
  have nk: "n j = n k" if "fold_key j = fold_key k" for j
    using assms(2) hash_get_cong [OF that, of "sv_connection_counts_by_ip s"]
    unfolding counts_ok_def by (metis option.distinct(1) option.inject)
  have "connection_count_remove ip s = set_counts ?u s"
    using Some assms(2) by (auto simp: connection_count_remove_def counts_ok_def set_counts_def)
  moreover have "hash_inv ?u" using assms(1) hash_set_inv hash_remove_inv by auto
  moreover have "hash_get ?u key =
      (if n key - (if on_ip s key ip then 1 else 0) = 0 then None
       else Some (n key - (if on_ip s key ip then 1 else 0)))" for key
  proof -
    have "hash_get ?t key = (if n key = 0 then None else Some (n key))"
      using assms(2) by (simp add: counts_ok_def)
    then show ?thesis
      using nk [of key] Some
      by (auto simp: ht.put_get [OF assms(1)] ht.del_get [OF assms(1)] on_ip_def)
  qed
  ultimately show ?thesis unfolding counts_ok_def by blast
qed

text \<open>Dropping a client that has left every channel.\<close>

lemma count_filter_remove:
  "c \<in> set xs \<Longrightarrow> length (filter P xs) = length (filter P (swap_remove c xs)) + (if P c then 1 else 0)"
proof (induction xs)
  case (Cons x xs)
  show ?case
  proof (cases "x = c")
    case True
    then show ?thesis by (cases xs rule: rev_cases) simp_all
  qed (use Cons in simp)
qed simp

lemma swap_remove_distinct:
  assumes "c \<in> set xs" "distinct xs"
  shows "set (swap_remove c xs) = set xs - {c}" "distinct (swap_remove c xs)"
    "length (swap_remove c xs) < length xs"
proof -
  have m: "mset (swap_remove c xs) = mset (remove1 c xs)" using mset_swap_remove [OF assms(1)] by simp
  then show "set (swap_remove c xs) = set xs - {c}"
    using mset_eq_setD [OF m] set_remove1_eq [OF assms(2)] by simp
  show "distinct (swap_remove c xs)" using mset_eq_imp_distinct_iff [OF m] assms(2) by simp
  show "length (swap_remove c xs) < length xs"
    using mset_eq_length [OF m] assms(1) length_pos_if_in_set [OF assms(1)] by (simp add: length_remove1)
qed

lemma forget_client_wf:
  assumes wf: "server_wf s" and c: "c \<in> set (sv_clients s)" and none: "c_channels (sv_client s c) = []"
    and t: "hash_inv t" "counts_ok t (\<lambda>key. length (ip_clients s key) -
        (if on_ip s key (c_real_ip (sv_client s c)) then 1 else 0))"
  shows "server_wf (s\<lparr>
      sv_clients_by_nick := (if c_nick (sv_client s c) \<noteq> []
        then snd (hash_remove (sv_clients_by_nick s) (c_nick (sv_client s c))) else sv_clients_by_nick s),
      sv_clients_by_id := snd (hash_remove (sv_clients_by_id s) (client_id_key (c_id (sv_client s c)))),
      sv_connection_counts_by_ip := t, sv_clients := swap_remove c (sv_clients s)\<rparr>)"
    (is "server_wf ?s")
proof -
  have d: "distinct (sv_clients s)" using wf by (simp add: wf_defs)
  note sw = swap_remove_distinct [OF c d]
  have "id_of ?s = (id_of s)(c := None)" by (simp add: id_of_def fun_eq_iff sw(1))
  moreover have "index_of (hash_get (snd (hash_remove (sv_clients_by_id s) (client_id_key (c_id (sv_client s c))))))
      ((id_of s)(c := None))"
    using c by (intro ht.index_delete [where n = "client_id_key (c_id (sv_client s c))"] wf_indexD [OF wf])
      (simp_all add: id_of_def)
  moreover have "nick_of ?s = (nick_of s)(c := None)" by (simp add: nick_of_def fun_eq_iff sw(1))
  moreover have "index_of (hash_get (sv_clients_by_nick ?s)) ((nick_of s)(c := None))"
  proof (cases "c_nick (sv_client s c) = []")
    case True
    then have "(nick_of s)(c := None) = nick_of s" by (auto simp: nick_of_def)
    then show ?thesis using True wf_indexD [OF wf] by simp
  next
    case False
    then have "index_of (hash_get (snd (hash_remove (sv_clients_by_nick s) (c_nick (sv_client s c))))) ((nick_of s)(c := None))"
      using c by (intro ht.index_delete [where n = "c_nick (sv_client s c)"] wf_indexD [OF wf])
        (simp_all add: nick_of_def)
    then show ?thesis using False by simp
  qed
  moreover have "chan_of ?s = chan_of s" by (auto simp: chan_of_def)
  ultimately have "wf_index ?s"
    using wf_indexD [OF wf] t(1) by (simp add: wf_index_def hash_remove_inv)
  moreover have "wf_counts ?s"
  proof -
    have "length (ip_clients ?s key) = length (ip_clients s key) -
        (if on_ip s key (c_real_ip (sv_client s c)) then 1 else 0)" for key
      using count_filter_remove [OF c, of "\<lambda>d. on_ip s key (c_real_ip (sv_client s d))"]
      by (simp add: ip_clients_on on_ip_def)
    then show ?thesis using t(2) sw(3) wf by (simp add: server_wf_def wf_counts_ok)
  qed
  moreover have "wf_alloc ?s"
    using wf sw by (auto simp: wf_defs)
  moreover have "wf_members ?s"
  proof -
    have "{e \<in> set (swap_remove c (sv_clients s)). h \<in> set (c_channels (sv_client s e))} =
        {e \<in> set (sv_clients s). h \<in> set (c_channels (sv_client s e))}" for h
      unfolding sw(1) using none by auto
    moreover have "\<forall>e\<in>set (swap_remove c (sv_clients s)). e \<in> set (sv_clients s)" by (simp add: sw(1))
    ultimately show ?thesis using wf unfolding server_wf_def wf_members_def by simp
  qed
  ultimately show ?thesis by (simp add: server_wf_def)
qed

text \<open>The state that remains after \<open>server_disconnect\<close>, up to output and history.\<close>

lemma server_disconnect_core:
  assumes wf: "server_wf s" and c: "c \<in> set (sv_clients s)"
  obtains u where "aux_only u (server_disconnect c reason s)" "server_wf u"
    "sv_clients u = swap_remove c (sv_clients s)"
    "\<And>d. d \<noteq> c \<Longrightarrow> sv_client u d = sv_client s d"
    "set (sv_live u) = {h \<in> set (sv_live s). member_refs (sv_channel s h) \<noteq> {c}}"
proof -
  let ?cl = "sv_client s c"
  define s3 where "s3 = (let
      s1 = (if c_registered ?cl then server_pmstats_disconnect c s else s);
      s2 = snotice_broadcast SNOTICE_CONNECTIONS (disconnect_notice ?cl reason) s1
    in if c_registered ?cl
       then send_each (\<lambda>_. quit_line ?cl reason)
              (filter (\<lambda>d. d \<noteq> c \<and> clients_share_channel s2 c d) (sv_clients s2)) s2
       else s2)"
  have io: "io_only s s3"
    unfolding s3_def Let_def by (auto intro: io_only_trans)
  have wf3: "server_wf s3" and cl3: "sv_client s3 = sv_client s" "sv_clients s3 = sv_clients s"
    and ch3: "sv_live s3 = sv_live s" "sv_channel s3 = sv_channel s"
    using server_wf_io [OF io wf] io_fields [OF io] by simp_all
  define s4 where "s4 = leave_all_channels c s3"
  have l: "server_wf s4 \<and> sv_clients s4 = sv_clients s3 \<and>
    set (sv_live s4) = {h \<in> set (sv_live s3). member_refs (sv_channel s3 h) \<noteq> {c}} \<and>
    sv_client s4 = (sv_client s3)(c := (sv_client s3 c)\<lparr>c_channels := [], c_channel_count := 0\<rparr>)"
    unfolding s4_def leave_all_channels_def using leave_loop [OF wf3] c cl3 by simp
  have c4: "c \<in> set (sv_clients s4)" using l cl3 c by simp
  obtain t where t: "connection_count_remove (c_real_ip ?cl) s4 = set_counts t s4" "hash_inv t"
    "counts_ok t (\<lambda>key. length (ip_clients s4 key) - (if on_ip s4 key (c_real_ip ?cl) then 1 else 0))"
    using count_remove_ok [OF wf_indexD(7), of s4 "\<lambda>key. length (ip_clients s4 key)" "c_real_ip ?cl"] l
    by (auto simp: server_wf_def wf_counts_ok)
  define u where "u = s4\<lparr>
      sv_clients_by_nick := (if c_nick (sv_client s4 c) \<noteq> []
        then snd (hash_remove (sv_clients_by_nick s4) (c_nick (sv_client s4 c))) else sv_clients_by_nick s4),
      sv_clients_by_id := snd (hash_remove (sv_clients_by_id s4) (client_id_key (c_id (sv_client s4 c)))),
      sv_connection_counts_by_ip := t, sv_clients := swap_remove c (sv_clients s4)\<rparr>"
  have wfu: "server_wf u"
    unfolding u_def by (rule forget_client_wf) (use l cl3 c c4 t in simp_all)
  have cl4: "c_nick (sv_client s4 c) = c_nick ?cl" "c_id (sv_client s4 c) = c_id ?cl" using l cl3 by simp_all
  have rem: "connection_count_remove ip (s4\<lparr>sv_clients_by_nick := a, sv_clients_by_id := b\<rparr>) =
      s4\<lparr>sv_clients_by_nick := a, sv_clients_by_id := b,
         sv_connection_counts_by_ip := sv_connection_counts_by_ip (connection_count_remove ip s4)\<rparr>" for ip a b
    by (simp add: connection_count_remove_def set_counts_def split: option.split)
  have rem0: "connection_count_remove ip (s4\<lparr>sv_clients_by_id := b\<rparr>) =
      s4\<lparr>sv_clients_by_id := b,
         sv_connection_counts_by_ip := sv_connection_counts_by_ip (connection_count_remove ip s4)\<rparr>" for ip b
    by (simp add: connection_count_remove_def set_counts_def split: option.split)
  let ?u = "upd_client c (\<lambda>cl. cl\<lparr>c_registered := False\<rparr>) u"
  have "server_disconnect c reason s = client_free c ?u"
    unfolding server_disconnect_def Let_def s3_def [unfolded Let_def, symmetric] s4_def [symmetric]
    using t(1) by (simp add: u_def set_counts_def cl4 rem rem0)
  moreover have "server_wf ?u" by (rule server_wf_upd_client [OF wfu]) simp
  ultimately show thesis
    using that [of ?u] l cl3 ch3 by (simp add: u_def)
qed

subsection \<open>Admission\<close>

lemma irc_fold_digit: "isdigit x \<Longrightarrow> irc_fold x = x"
  by (auto simp: irc_fold_def isdigit_def)

lemma client_id_key_inj:
  assumes "fold_key (client_id_key a) = fold_key (client_id_key b)"
  shows "a = b"
proof -
  have "fold_key (dec n) = dec n" for n
    unfolding fold_key_def by (rule map_idI) (use dec_digits irc_fold_digit in blast)
  then have "dec (unat a) = dec (unat b)" using assms by (simp add: client_id_key_def)
  then show ?thesis by (simp add: dec_inj word_unat_eq_iff)
qed

lemma id_key_fresh:
  assumes wf: "server_wf s" and ids: "\<And>d. d \<in> set (sv_clients s) \<Longrightarrow> c_id (sv_client s d) \<noteq> i"
  shows "hash_get (sv_clients_by_id s) (client_id_key i) = None"
proof (rule ccontr)
  assume "hash_get (sv_clients_by_id s) (client_id_key i) \<noteq> None"
  then obtain d n where "id_of s d = Some n" "fold_key n = fold_key (client_id_key i)"
    using wf_indexD(1) [OF wf] unfolding index_of_def by blast
  then show False using ids client_id_key_inj by (auto simp: id_of_def split: if_splits)
qed

text \<open>Undoing the entry in the id index.\<close>

lemma id_rollback_wf:
  assumes wf: "server_wf s" and none: "hash_get (sv_clients_by_id s) k = None"
  shows "server_wf (s\<lparr>sv_clients_by_id := snd (hash_remove (snd (hash_set True (sv_clients_by_id s) k c)) k)\<rparr>)"
    (is "server_wf ?s")
proof -
  note inv = wf_indexD(4) [OF wf]
  have "hash_get (sv_clients_by_id ?s) j = hash_get (sv_clients_by_id s) j" for j
    using none hash_get_cong [of j k "sv_clients_by_id s"]
    by (simp add: ht.del_get [OF ht.put_inv [OF inv]] ht.put_get [OF inv])
  moreover have "hash_inv (sv_clients_by_id ?s)"
    using ht.del_inv [OF ht.put_inv [OF inv]] by simp
  moreover have "id_of ?s = id_of s" "nick_of ?s = nick_of s" "chan_of ?s = chan_of s" "ip_clients ?s = ip_clients s"
    by (auto simp: id_of_def nick_of_def chan_of_def ip_clients_def)
  ultimately show ?thesis
    using wf by (simp add: wf_defs index_of_def)
qed

lemma count_add_failed: "fst (connection_count_add ip s) \<noteq> 0 \<Longrightarrow> snd (connection_count_add ip s) = s"
  by (auto simp: connection_count_add_def Let_def case_prod_beta split: option.splits if_splits)

text \<open>Storing a new object outside the array, and advancing the counters.\<close>

lemma alloc_client_wf:
  assumes "server_wf s" and "sv_next_client_id s \<le> i"
  shows "server_wf (s\<lparr>sv_next_client_id := i\<rparr>)"
    and "server_wf (s\<lparr>sv_client_capacity := k\<rparr>)"
    and "server_wf (s\<lparr>sv_next_cref := sv_next_cref s + 1, sv_client := (sv_client s)(sv_next_cref s := cl),
                     sv_out := out\<rparr>)" (is "server_wf ?s")
proof -
  show "server_wf (s\<lparr>sv_client_capacity := k\<rparr>)"
    by (rule server_wf_cong [OF _ _ _ _ _ _ _ _ _ _ _ _ _ assms(1)]) simp_all
  have "id_of (s\<lparr>sv_next_client_id := i\<rparr>) = id_of s" "nick_of (s\<lparr>sv_next_client_id := i\<rparr>) = nick_of s"
    "chan_of (s\<lparr>sv_next_client_id := i\<rparr>) = chan_of s" "ip_clients (s\<lparr>sv_next_client_id := i\<rparr>) = ip_clients s"
    by (auto simp: id_of_def nick_of_def chan_of_def ip_clients_def)
  moreover have "\<forall>c\<in>set (sv_clients s). c_id (sv_client s c) \<le> i"
    using assms unfolding server_wf_def wf_alloc_def by (meson order_trans)
  ultimately show "server_wf (s\<lparr>sv_next_client_id := i\<rparr>)"
    using assms(1) by (simp add: wf_defs)
  have new: "d \<noteq> sv_next_cref s" if "d \<in> set (sv_clients s)" for d
    using assms(1) that by (auto simp: server_wf_def wf_alloc_def)
  have "id_of ?s = id_of s" "nick_of ?s = nick_of s" "chan_of ?s = chan_of s"
    using new by (auto simp: id_of_def nick_of_def chan_of_def fun_eq_iff)
  moreover have "ip_clients ?s = ip_clients s"
    using new by (auto simp: ip_clients_def fun_eq_iff intro!: filter_cong)
  moreover have "wf_alloc ?s"
    using assms(1) new unfolding server_wf_def wf_alloc_def by (simp add: less_Suc_eq)
  moreover have "{d \<in> set (sv_clients ?s). h \<in> set (c_channels (sv_client ?s d))} =
      {d \<in> set (sv_clients s). h \<in> set (c_channels (sv_client s d))}" for h
    using new by auto
  then have "wf_members ?s"
    using assms(1) new unfolding server_wf_def wf_members_def by simp
  ultimately show "server_wf ?s"
    using assms(1) by (simp add: server_wf_def wf_index_def wf_counts_def)
qed

text \<open>Entering the new client into the array and its indexes.\<close>

lemma enter_client_wf:
  assumes wf: "server_wf s" and new: "c \<notin> set (sv_clients s)" "c < sv_next_cref s"
    and cl: "c_nick (sv_client s c) = []" "c_channels (sv_client s c) = []" "c_channel_count (sv_client s c) = 0"
    and ids: "c_id (sv_client s c) \<le> sv_next_client_id s"
      "\<And>d. d \<in> set (sv_clients s) \<Longrightarrow> c_id (sv_client s d) \<noteq> c_id (sv_client s c)"
    and t: "hash_inv t" "counts_ok t (\<lambda>key. length (ip_clients s key) +
        (if on_ip s key (c_real_ip (sv_client s c)) then 1 else 0))"
  shows "server_wf (s\<lparr>
      sv_clients_by_id := snd (hash_set True (sv_clients_by_id s) (client_id_key (c_id (sv_client s c))) c),
      sv_connection_counts_by_ip := t, sv_clients := sv_clients s @ [c]\<rparr>)" (is "server_wf ?s")
proof -
  let ?k = "client_id_key (c_id (sv_client s c))"
  have "id_of ?s = (id_of s)(c := Some ?k)" by (auto simp: id_of_def fun_eq_iff)
  moreover have "hash_get (sv_clients_by_id s) ?k = None" by (rule id_key_fresh [OF wf ids(2)])
  then have "index_of (hash_get (snd (hash_set True (sv_clients_by_id s) ?k c))) ((id_of s)(c := Some ?k))"
    using new(1) by (intro ht.index_insert wf_indexD [OF wf]) (simp_all add: id_of_def)
  moreover have "nick_of ?s = nick_of s" "chan_of ?s = chan_of s"
    using cl(1) by (auto simp: nick_of_def chan_of_def fun_eq_iff)
  ultimately have "wf_index ?s"
    using wf_indexD [OF wf] t(1) by (simp add: wf_index_def hash_set_inv)
  moreover have "wf_counts ?s"
  proof -
    have "length (ip_clients ?s key) = length (ip_clients s key) +
        (if on_ip s key (c_real_ip (sv_client s c)) then 1 else 0)" for key
      by (simp add: ip_clients_on on_ip_def)
    then show ?thesis using t(2) by (simp add: wf_counts_ok)
  qed
  moreover have "wf_alloc ?s"
    using wf new ids(1) by (auto simp: server_wf_def wf_alloc_def)
  moreover have "wf_members ?s"
  proof -
    have "{e \<in> set (sv_clients s @ [c]). h \<in> set (c_channels (sv_client s e))} =
        {e \<in> set (sv_clients s). h \<in> set (c_channels (sv_client s e))}" for h
      using cl(2) by auto
    then show ?thesis using wf cl unfolding server_wf_def wf_members_def by simp
  qed
  ultimately show ?thesis by (simp add: server_wf_def)
qed

lemma accept_reject_io [simp, intro!]: "io_only s (accept_reject k t s)"
  by (simp add: accept_reject_def)

lemmas accept_reject_frame [simp, frame_simps] = io_fields [OF accept_reject_io]

text \<open>Steps that only send or store what the invariant ignores.\<close>

definition dns_only :: "cref \<Rightarrow> server \<Rightarrow> server \<Rightarrow> bool" where
  "dns_only c s s' \<longleftrightarrow> (server_wf s \<longrightarrow> server_wf s') \<and> sv_clients s' = sv_clients s \<and>
     sv_canonical_ip s' = sv_canonical_ip s \<and>
     (\<forall>d. d \<noteq> c \<longrightarrow> sv_client s' d = sv_client s d) \<and>
     c_id (sv_client s' c) = c_id (sv_client s c) \<and> c_real_ip (sv_client s' c) = c_real_ip (sv_client s c)"

lemma dns_only_io: "io_only s s' \<Longrightarrow> dns_only c s s'"
  unfolding dns_only_def using server_wf_io io_fields by simp

lemma dns_only_trans: "dns_only c s t \<Longrightarrow> dns_only c t u \<Longrightarrow> dns_only c s u"
  unfolding dns_only_def by simp

lemma dns_only_steps:
  assumes "dns_only c s t"
  shows "dns_only c s (sendf d x t)" and "dns_only c s (snotice_broadcast k x t)"
    and "dns_only c s (upd_client c (\<lambda>cl. cl\<lparr>c_dns_state := st, c_dns_deadline := dl\<rparr>) t)"
    and "dns_only c s (upd_client c (\<lambda>cl. cl\<lparr>c_dns_state := st\<rparr>) t)"
proof -
  show "dns_only c s (sendf d x t)" "dns_only c s (snotice_broadcast k x t)"
    by (rule dns_only_trans [OF assms dns_only_io]; simp)+
  have "dns_only c t (upd_client c (\<lambda>cl. cl\<lparr>c_dns_state := st, c_dns_deadline := dl\<rparr>) t)"
    "dns_only c t (upd_client c (\<lambda>cl. cl\<lparr>c_dns_state := st\<rparr>) t)"
    unfolding dns_only_def by (auto intro: server_wf_upd_client)
  then show "dns_only c s (upd_client c (\<lambda>cl. cl\<lparr>c_dns_state := st, c_dns_deadline := dl\<rparr>) t)"
    "dns_only c s (upd_client c (\<lambda>cl. cl\<lparr>c_dns_state := st\<rparr>) t)"
    by (blast intro: dns_only_trans [OF assms])+
qed

lemma accept_admitted_dns: "dns_only c (s\<lparr>sv_clients := sv_clients s @ [c]\<rparr>) (accept_admitted use_tls a c cl s)"
proof -
  have "dns_only c u u" for u by (rule dns_only_io) simp
  then show ?thesis
    unfolding accept_admitted_def Let_def by (cases use_tls; cases "aa_dns a") (simp_all add: dns_only_steps)
qed

lemma accept_created_wf:
  fixes use_tls a ip
  assumes wf: "server_wf s" and alloc: "sv_alloc s" and cl: "c_nick cl = []" "c_channels cl = []" "c_channel_count cl = 0"
    and ids: "c_id cl = sv_next_client_id s" "\<And>d. d \<in> set (sv_clients s) \<Longrightarrow> c_id (sv_client s d) \<noteq> c_id cl"
  defines "s' \<equiv> accept_created use_tls a ip cl s" and "c \<equiv> sv_next_cref s"
  shows "server_wf s' \<and> sv_canonical_ip s' = sv_canonical_ip s \<and>
    (sv_clients s' = sv_clients s \<or>
     sv_clients s' = sv_clients s @ [c] \<and> c_id (sv_client s' c) = c_id cl \<and>
       c_real_ip (sv_client s' c) = c_real_ip cl \<and> sv_canonical_ip s (c_real_ip cl) \<noteq> None) \<and>
    (\<forall>d\<in>set (sv_clients s). sv_client s' d = sv_client s d)"
proof -
  have new: "c \<notin> set (sv_clients s)" using wf by (auto simp: server_wf_def wf_alloc_def c_def)
  define out where "out = (sv_out s)(c :=
      (let o1 = client_set_output_limit client_out_create (cf_output_queue_max_bytes (sv_config s))
       in if use_tls then o1\<lparr>o_ssl := True, o_tls_state := CLIENT_TLS_HANDSHAKE\<rparr> else o1))"
  define s1 where "s1 = s\<lparr>sv_next_cref := c + 1, sv_client := (sv_client s)(c := cl), sv_out := out\<rparr>"
  have wf1: "server_wf s1" unfolding s1_def c_def by (rule alloc_client_wf(3) [OF wf order_refl])
  have keep: "sv_clients s1 = sv_clients s" "sv_client s1 = (sv_client s)(c := cl)"
    "sv_next_client_id s1 = sv_next_client_id s" "sv_canonical_ip s1 = sv_canonical_ip s"
    "sv_alloc s1" "sv_next_cref s1 = c + 1"
    by (simp_all add: s1_def alloc)
  have ids1: "c_id (sv_client s1 d) \<noteq> c_id cl" if "d \<in> set (sv_clients s1)" for d
    using that ids(2) new keep by auto
  have stay: ?thesis if "aux_only s1 s'"
    using server_wf_aux [OF that wf1] aux_fields [OF that] keep new by auto
  let ?k = "client_id_key (c_id cl)"
  let ?set = "hash_set (sv_alloc s1) (sv_clients_by_id s1) ?k c"
  let ?s2 = "s1\<lparr>sv_clients_by_id := snd ?set\<rparr>"
  let ?add = "connection_count_add (c_real_ip cl) ?s2"
  note unf = s'_def accept_created_def Let_def c_def [symmetric]
    s1_def [unfolded out_def Let_def, symmetric] case_prod_beta
  consider (ssl) "use_tls \<and> \<not> aa_ssl a" | (mem) "\<not> (use_tls \<and> \<not> aa_ssl a)" "fst ?set \<noteq> 0"
    | (full) "\<not> (use_tls \<and> \<not> aa_ssl a)" "fst ?set = 0" "fst ?add \<noteq> 0"
    | (idx) "\<not> (use_tls \<and> \<not> aa_ssl a)" "fst ?set = 0" "fst ?add = 0" by blast
  then show ?thesis
  proof cases
    case ssl
    then show ?thesis
      by (intro stay, unfold unf) (auto intro: aux_only_trans [OF aux_only_io])
  next
    case mem
    then show ?thesis
      by (intro stay, unfold unf) (auto intro: aux_only_trans [OF aux_only_io])
  next
    case full
    let ?s4 = "accept_reject SNOTICE_FLOOD
      (''Connection rejected from '' @ ip @ '': per-IP index allocation failure'') ?s2"
    let ?s5 = "?s4\<lparr>sv_clients_by_id := snd (hash_remove (sv_clients_by_id ?s4) ?k)\<rparr>"
    let ?u = "s1\<lparr>sv_clients_by_id := snd (hash_remove (snd ?set) ?k)\<rparr>"
    have s': "s' = client_free c ?s5"
      unfolding unf using full count_add_failed [OF full(3)] by (cases use_tls) simp_all
    have wfu: "server_wf ?u"
      using id_rollback_wf [OF wf1 id_key_fresh [OF wf1 ids1], of c] keep by simp
    have "server_wf ?s5"
      by (rule server_wf_cong [OF _ _ _ _ _ _ _ _ _ _ _ _ _ wfu]) simp_all
    moreover have "aux_only ?s5 s'" by (simp add: s')
    ultimately show ?thesis
      using server_wf_aux aux_fields [of ?s5 s'] keep new by auto
  next
    case idx
    have "connection_count_add (c_real_ip cl) ?s2 = (0, snd ?add)" using idx by (metis prod.collapse)
    moreover have "ip_clients ?s2 = ip_clients s1" "on_ip ?s2 = on_ip s1"
      by (auto simp: ip_clients_def on_ip_def fun_eq_iff)
    ultimately obtain t where t: "snd ?add = set_counts t ?s2" "hash_inv t" "sv_canonical_ip s (c_real_ip cl) \<noteq> None"
      "counts_ok t (\<lambda>key. length (ip_clients s1 key) + (if on_ip s1 key (c_real_ip cl) then 1 else 0))"
      using count_add_ok [of ?s2 "\<lambda>key. length (ip_clients s1 key)" "c_real_ip cl" "snd ?add"] wf1 keep
      by (auto simp: server_wf_def wf_counts_ok wf_index_def)
    let ?u = "s1\<lparr>sv_clients_by_id := snd ?set, sv_connection_counts_by_ip := t, sv_clients := sv_clients s1 @ [c]\<rparr>"
    have wfu: "server_wf ?u"
      using enter_client_wf [OF wf1, of c t] new cl ids(1) ids1 t keep by simp
    have "s' = accept_admitted use_tls a c cl (snd ?add)"
      unfolding unf using idx by (cases use_tls) simp_all
    then have "dns_only c ?u s'"
      using accept_admitted_dns [of c "snd ?add" use_tls a cl] t(1) by (simp add: set_counts_def)
    then show ?thesis
      using wfu keep new t(3) unfolding dns_only_def by auto
  qed
qed

lemma u64_less_succ: "(x :: u64) \<noteq> - 1 \<Longrightarrow> x < x + 1"
  by (metis add.commute eq_neg_iff_add_eq_0 lessI unatSuc word_less_nat_alt)

lemma accept_client_step:
  fixes use_tls a
  assumes wf: "server_wf s"
  defines "s' \<equiv> accept_client use_tls a s" and "c \<equiv> sv_next_cref s"
  shows "server_wf s' \<and> sv_canonical_ip s' = sv_canonical_ip s \<and> (\<forall>d\<in>set (sv_clients s). sv_client s' d = sv_client s d) \<and>
    (sv_clients s' = sv_clients s \<or>
     (\<exists>ip. aa_ip a = Some ip \<and> sv_clients s' = sv_clients s @ [c] \<and>
       length (sv_clients s) < cf_max_clients (sv_config s) \<and>
       \<not> server_connection_limit_reached s ip None \<and>
       c_real_ip (sv_client s' c) = take IRC_IP_MAX ip \<and>
       sv_canonical_ip s (take IRC_IP_MAX ip) \<noteq> None \<and>
       c_id (sv_client s' c) = sv_next_client_id s + 1 \<and> sv_next_client_id s < sv_next_client_id s + 1))"
proof -
  have stay: ?thesis if "io_only t s'" "server_wf t" "sv_clients t = sv_clients s" "sv_client t = sv_client s"
    "sv_canonical_ip t = sv_canonical_ip s" for t
    using server_wf_io [OF that(1,2)] io_fields [OF that(1)] that(3-5) by simp
  note def = s'_def accept_client_def
  show ?thesis
  proof (cases "aa_ip a")
    case None
    then show ?thesis by (intro stay [of s]) (simp_all add: def wf)
  next
    case (Some ip)
    consider (limits) "length (sv_clients s) \<ge> cf_max_clients (sv_config s) \<or>
        server_connection_limit_reached s ip None \<or> sv_next_client_id s = - 1"
      | (go) "length (sv_clients s) < cf_max_clients (sv_config s)" "\<not> server_connection_limit_reached s ip None"
        "sv_next_client_id s \<noteq> - 1"
      by linarith
    then show ?thesis
    proof cases
      case limits
      then show ?thesis by (intro stay [of s]) (auto simp: def wf Some)
    next
      case go
      obtain rc s1 where e: "ensure_client_capacity s = (rc, s1)" by fastforce
      have "s1 = s\<lparr>sv_client_capacity := sv_client_capacity s1\<rparr>"
        using e by (auto simp: ensure_client_capacity_def Let_def split: if_splits)
      then obtain k where s1: "s1 = s\<lparr>sv_client_capacity := k\<rparr>" ..
      have wf1: "server_wf s1" unfolding s1 by (rule alloc_client_wf(2) [OF wf order_refl])
      define s2 where "s2 = s1\<lparr>sv_next_client_id := sv_next_client_id s1 + 1\<rparr>"
      have lt: "sv_next_client_id s < sv_next_client_id s + 1" by (rule u64_less_succ [OF go(3)])
      have wf2: "server_wf s2" unfolding s2_def using lt s1 by (intro alloc_client_wf(1) [OF wf1]) simp
      have keep: "sv_clients s2 = sv_clients s" "sv_client s2 = sv_client s" "sv_next_cref s2 = c"
        "sv_next_client_id s2 = sv_next_client_id s + 1" "sv_canonical_ip s2 = sv_canonical_ip s"
        by (simp_all add: s2_def s1 c_def)
      show ?thesis
      proof (cases "rc \<noteq> 0 \<or> \<not> aa_nonblocking a")
        case True
        then show ?thesis
          using go by (intro stay [of s1]) (auto simp: def Some e s1 wf1 [unfolded s1])
      next
        case ok: False
        have eq: "s' = (case client_create (sv_alloc s2) (sv_clock s2) (sv_next_client_id s2) (Some ip) of
            None \<Rightarrow> accept_reject SNOTICE_FLOOD (''Connection rejected from '' @ ip @ '': client allocation failure'') s2
          | Some cl \<Rightarrow> accept_created use_tls a ip cl s2)"
          using go ok unfolding s2_def by (simp add: def Some e Let_def)
        show ?thesis
        proof (cases "client_create (sv_alloc s2) (sv_clock s2) (sv_next_client_id s2) (Some ip)")
          case None
          then show ?thesis
            by (intro stay [of s2]) (simp_all add: eq wf2 keep)
        next
          case cl: (Some cl)
          have "s' = accept_created use_tls a ip cl s2" using cl by (simp add: eq)
          moreover have "sv_alloc s2 \<and> c_nick cl = [] \<and> c_channels cl = [] \<and> c_channel_count cl = 0 \<and>
              c_id cl = sv_next_client_id s2 \<and> c_real_ip cl = take IRC_IP_MAX ip"
            using cl by (auto simp: client_create_def client_zero_def Let_def split: if_splits)
          moreover have "c_id (sv_client s2 d) \<noteq> sv_next_client_id s2" if "d \<in> set (sv_clients s2)" for d
            using wf that lt keep by (auto simp: server_wf_def wf_alloc_def)
          ultimately show ?thesis
            using accept_created_wf [OF wf2, of cl use_tls a ip] go keep lt Some by auto
        qed
      qed
    qed
  qed
qed

lemma hash_blank_inv: "0 < n \<Longrightarrow> hash_inv (hash_blank n)" "0 < n \<Longrightarrow> hash_get (hash_blank n) k = None"
  by (auto simp: hash_inv_def hash_blank_def hash_get_def bucket_index_def)

lemma server_blank_wf: "0 < n \<Longrightarrow> server_wf (server_blank n cfg env)"
proof -
  assume n: "0 < n"
  let ?s = "server_blank n cfg env"
  have blank: "sv_clients ?s = []" "sv_live ?s = []" "sv_clients_by_id ?s = hash_blank n"
    "sv_clients_by_nick ?s = hash_blank n" "sv_channels_by_name ?s = hash_blank n"
    "sv_connection_counts_by_ip ?s = hash_blank n" "sv_channel_count ?s = 0"
    by (simp_all add: server_blank_def)
  then have "id_of ?s = (\<lambda>_. None)" "nick_of ?s = (\<lambda>_. None)" "chan_of ?s = (\<lambda>_. None)" "ip_clients ?s = (\<lambda>_. [])"
    by (auto simp: id_of_def nick_of_def chan_of_def ip_clients_def)
  then show "server_wf ?s"
    using n blank by (simp add: wf_defs index_of_def hash_blank_inv)
qed

text \<open>A worked example: the first connection, over TLS.\<close>

definition example_answer :: accept_answer where
  "example_answer = \<lparr>aa_ip = Some ''10.0.0.1'', aa_nonblocking = True, aa_ssl = True, aa_dns = True\<rparr>"

definition example_server :: server where
  "example_server =
     (server_blank 1 (config_blank\<lparr>cf_max_connections_per_ip := 2\<rparr>) env_blank)\<lparr>sv_canonical_ip := Some\<rparr>"

lemma example_server_wf: "server_wf example_server"
proof -
  have "ip_clients example_server = ip_clients (server_blank 1 config_blank env_blank)"
    by (simp add: fun_eq_iff ip_clients_def example_server_def server_blank_def)
  then show ?thesis
    using server_blank_wf [of 1 "config_blank\<lparr>cf_max_connections_per_ip := 2\<rparr>" env_blank]
    by (simp add: wf_defs example_server_def id_of_def [abs_def] nick_of_def [abs_def] chan_of_def [abs_def]
        ip_clients_def server_blank_def)
qed

lemma example_accept: "sv_clients (accept_client True example_answer example_server) = [0]"
  by (simp add: example_answer_def example_server_def accept_client_def accept_created_def accept_admitted_def
      server_connection_limit_reached_def server_connection_limit_ip_exempt_def connection_count_lookup_def
      server_blank_def config_blank_def hash_get_def hash_blank_def bucket_index_def env_blank_def client_create_def
      ensure_client_capacity_def Let_def hash_set_def connection_count_add_def set_counts_def case_prod_beta)

subsection \<open>Properties\<close>

text \<open>
  C2:  \<open>server_disconnect\<close> keeps the server well formed and leaves no trace of the client: it is no longer
  in the client array, no nick and no id finds it, no channel has it as a member, the address counter
  no longer counts it, every other client keeps its nick, identity and channel list, and exactly the channels in which it
  was alone are freed.
\<close>

theorem disconnect_erases_client:
  assumes wf: "server_wf s" and c: "c \<in> set (sv_clients s)"
  shows "server_wf (server_disconnect c reason s) \<and>
    set (sv_clients (server_disconnect c reason s)) = set (sv_clients s) - {c} \<and>
    (\<forall>key. hash_get (sv_clients_by_nick (server_disconnect c reason s)) key \<noteq> Some c \<and>
           hash_get (sv_clients_by_id (server_disconnect c reason s)) key \<noteq> Some c) \<and>
    (\<forall>h\<in>set (sv_live (server_disconnect c reason s)).
       \<not> channel_has_client (sv_channel (server_disconnect c reason s) h) c) \<and>
    (\<forall>key. hash_get (sv_connection_counts_by_ip (server_disconnect c reason s)) key =
       (if ip_clients (server_disconnect c reason s) key = [] then None
        else Some (length (ip_clients (server_disconnect c reason s) key)))) \<and>
    (\<forall>d. d \<noteq> c \<longrightarrow> sv_client (server_disconnect c reason s) d = sv_client s d) \<and>
    set (sv_live (server_disconnect c reason s)) =
      {h \<in> set (sv_live s). member_refs (sv_channel s h) \<noteq> {c}}"
proof (rule server_disconnect_core [OF wf c, where reason = reason])
  fix u assume u: "aux_only u (server_disconnect c reason s)" "server_wf u"
    "sv_clients u = swap_remove c (sv_clients s)" "\<And>d. d \<noteq> c \<Longrightarrow> sv_client u d = sv_client s d"
    "set (sv_live u) = {h \<in> set (sv_live s). member_refs (sv_channel s h) \<noteq> {c}}"
  let ?s = "server_disconnect c reason s"
  note f = aux_fields [OF u(1)]
  have wf': "server_wf ?s" by (rule server_wf_aux [OF u(1,2)])
  have d: "distinct (sv_clients s)" using wf by (simp add: server_wf_def wf_alloc_def)
  have cs: "set (sv_clients ?s) = set (sv_clients s) - {c}"
    using swap_remove_distinct(1) [OF c d] u(3) f by simp
  then have gone: "c \<notin> set (sv_clients ?s)" by simp
  have "id_of ?s c = None" "nick_of ?s c = None" using gone by (simp_all add: id_of_def nick_of_def)
  then have "hash_get (sv_clients_by_nick ?s) key \<noteq> Some c" "hash_get (sv_clients_by_id ?s) key \<noteq> Some c" for key
    using wf_indexD(1,2) [OF wf'] unfolding index_of_def by (metis option.distinct(1))+
  moreover have "\<not> channel_has_client (sv_channel ?s h) c" if "h \<in> set (sv_live ?s)" for h
    using wf_member_client [OF wf' that] gone by (auto simp: has_client_iff)
  moreover have "hash_get (sv_connection_counts_by_ip ?s) key =
       (if ip_clients ?s key = [] then None else Some (length (ip_clients ?s key)))" for key
    using wf' by (simp add: server_wf_def wf_counts_def)
  ultimately show ?thesis using wf' cs u(4,5) f by simp
qed

theorem disconnect_erases_client_witness:
  "server_wf (server_disconnect 0 ''Quit'' (accept_client True example_answer example_server)) \<and>
   sv_clients (server_disconnect 0 ''Quit'' (accept_client True example_answer example_server)) = []"
proof -
  have "server_wf (accept_client True example_answer example_server)"
    using accept_client_step [OF example_server_wf, of True example_answer] by simp
  then show ?thesis
    using disconnect_erases_client [of "accept_client True example_answer example_server" 0 "''Quit''"]
    by (simp add: example_accept)
qed

text \<open>
  C3:  Accepting a connection keeps the server well formed, never disturbs a connected client and
  enforces the limits: either no client enters, or exactly one does, with an id no one holds, and the
  array stays within \<open>max_clients\<close> and, unless the address is exempt or the per-address limit is off,
  the clients on its address stay within \<open>max_connections_per_ip\<close>.
\<close>

theorem accept_enforces_limits:
  assumes wf: "server_wf s"
    and ip: "\<forall>ip. aa_ip a = Some ip \<longrightarrow> ip \<noteq> [] \<and> length ip \<le> IRC_IP_MAX"
  shows "server_wf (accept_client use_tls a s) \<and>
    (\<forall>d\<in>set (sv_clients s). sv_client (accept_client use_tls a s) d = sv_client s d) \<and>
    (sv_clients (accept_client use_tls a s) = sv_clients s \<or>
     (\<exists>ip key. aa_ip a = Some ip \<and> sv_canonical_ip s ip = Some key \<and>
        sv_clients (accept_client use_tls a s) = sv_clients s @ [sv_next_cref s] \<and>
        length (sv_clients (accept_client use_tls a s)) \<le> cf_max_clients (sv_config s) \<and>
        (\<forall>d\<in>set (sv_clients s).
           c_id (sv_client s d) < c_id (sv_client (accept_client use_tls a s) (sv_next_cref s))) \<and>
        (cf_max_connections_per_ip (sv_config s) = 0 \<or> server_connection_limit_ip_exempt s ip \<or>
         length (ip_clients (accept_client use_tls a s) key) \<le> cf_max_connections_per_ip (sv_config s))))"
proof (cases "sv_clients (accept_client use_tls a s) = sv_clients s")
  case True
  then show ?thesis using accept_client_step [OF wf, of use_tls a] by simp
next
  case False
  let ?s = "accept_client use_tls a s" and ?c = "sv_next_cref s"
  have wf': "server_wf ?s" and can: "sv_canonical_ip ?s = sv_canonical_ip s"
    and old: "\<forall>d\<in>set (sv_clients s). sv_client ?s d = sv_client s d"
    using accept_client_step [OF wf, of use_tls a] by simp_all
  obtain p where p: "aa_ip a = Some p" "sv_clients ?s = sv_clients s @ [?c]"
    "length (sv_clients s) < cf_max_clients (sv_config s)" "\<not> server_connection_limit_reached s p None"
    "c_real_ip (sv_client ?s ?c) = take IRC_IP_MAX p" "sv_canonical_ip s (take IRC_IP_MAX p) \<noteq> None"
    "c_id (sv_client ?s ?c) = sv_next_client_id s + 1" "sv_next_client_id s < sv_next_client_id s + 1"
    using accept_client_step [OF wf, of use_tls a] False by blast
  have ne: "p \<noteq> []" and tk: "take IRC_IP_MAX p = p" using ip p(1) by auto
  obtain key where key: "sv_canonical_ip s p = Some key" using p(6) tk by auto
  have "\<forall>d\<in>set (sv_clients s). c_id (sv_client s d) < c_id (sv_client ?s ?c)"
    using wf p(7,8) by (auto simp: server_wf_def wf_alloc_def)
  moreover have "length (ip_clients ?s key) = Suc (length (ip_clients s key))"
  proof -
    have "filter (\<lambda>d. on_ip ?s key (c_real_ip (sv_client ?s d))) (sv_clients s) =
        filter (\<lambda>d. on_ip s key (c_real_ip (sv_client s d))) (sv_clients s)"
      using old can by (intro filter_cong) (auto simp: on_ip_def)
    then show ?thesis using p(2,5) tk key can by (simp add: ip_clients_on) (simp add: on_ip_def)
  qed
  moreover have "connection_count_lookup s p = (if ip_clients s key = [] then None else Some (length (ip_clients s key)))"
    using wf key by (simp add: connection_count_lookup_def server_wf_def wf_counts_def)
  ultimately show ?thesis
    using wf' old p ne key by (auto simp: server_connection_limit_reached_def Let_def split: if_splits)
qed

theorem accept_enforces_limits_witness:
  "server_wf (accept_client True example_answer example_server) \<and>
   length (sv_clients (accept_client True example_answer example_server)) = 1 \<and>
   length (ip_clients (accept_client True example_answer example_server) ''10.0.0.1'') \<le> 2"
proof -
  have "sv_clients example_server = []" "cf_max_connections_per_ip (sv_config example_server) = 2"
    "sv_canonical_ip example_server = Some" "\<not> server_connection_limit_ip_exempt example_server ''10.0.0.1''"
    by (simp_all add: example_server_def server_blank_def config_blank_def server_connection_limit_ip_exempt_def)
  moreover have "aa_ip example_answer = Some ''10.0.0.1''" by (simp add: example_answer_def)
  ultimately show ?thesis
    using accept_enforces_limits [OF example_server_wf, of example_answer True] by (simp add: example_accept)
qed

end
