(* ===== verification/Example_State.thy ===== *)
theory Example_State
  imports Server_Core
begin

section \<open>A small populated server\<close>

text \<open>
  A concrete well-formed state for the worked examples: the registered clients \<open>alice\<close> and \<open>bob\<close>
  on one address, both in \<open>#room\<close>, where \<open>alice\<close> is the channel operator.
\<close>

definition example_client :: "u64 \<Rightarrow> string \<Rightarrow> chref list \<Rightarrow> client" where
  "example_client i nick hs = client_zero\<lparr>c_id := i, c_registered := True, c_nick := nick, c_user := ''u'',
     c_real_ip := ''10.0.0.1'', c_display_host := ''h'', c_signon_time := 1,
     c_channels := hs, c_channel_count := length hs\<rparr>"

definition example_member :: "cref \<Rightarrow> u32 \<Rightarrow> member" where
  "example_member c p = \<lparr>m_client = c, m_privileges = p, m_manual_privileges = p, m_service_privileges = 0\<rparr>"

definition example_channel :: channel where
  "example_channel = channel_zero\<lparr>ch_name := ''#room'',
     ch_members := [example_member 1 0, example_member 0 CHANNEL_PRIV_OPERATOR], ch_member_count := 2\<rparr>"

definition one_bucket :: "(string \<times> 'v) list \<Rightarrow> 'v hash_table" where
  "one_bucket es = \<lparr>bucket_count = 1, buckets = [es]\<rparr>"

definition example_room :: server where
  "example_room = (server_blank 1 config_blank env_blank)\<lparr>
     sv_clients := [0, 1], sv_client_capacity := 16,
     sv_client := (\<lambda>_. client_zero)(0 := example_client 1 ''alice'' [0], 1 := example_client 2 ''bob'' [0]),
     sv_next_cref := 2, sv_channel := (\<lambda>_. channel_zero)(0 := example_channel), sv_live := [0],
     sv_next_chref := 1, sv_channel_count := 1, sv_next_client_id := 2,
     sv_clients_by_id := one_bucket [(''2'', 1), (''1'', 0)],
     sv_clients_by_nick := one_bucket [(''bob'', 1), (''alice'', 0)],
     sv_channels_by_name := one_bucket [(''#room'', 0)],
     sv_connection_counts_by_ip := one_bucket [(''10.0.0.1'', 2)],
     sv_canonical_ip := Some, sv_clock := 1000\<rparr>"

lemma one_bucket_get [simp]: "hash_get (one_bucket es) k = chain_get k es"
  by (simp add: hash_get_def one_bucket_def bucket_index_def)

lemma hash_get_fun: "hash_get (one_bucket es) = (\<lambda>k. chain_get k es)"
  by (simp add: fun_eq_iff)

lemma one_bucket_inv [simp]: "hash_inv (one_bucket es) \<longleftrightarrow> distinct (map (fold_key \<circ> fst) es)"
  by (auto simp: hash_inv_def one_bucket_def bucket_index_def)

lemma example_room_fields [simp]:
  "sv_clients example_room = [0, 1]" "sv_live example_room = [0]" "sv_channel example_room 0 = example_channel"
  "sv_client example_room 0 = example_client 1 ''alice'' [0]"
  "sv_client example_room (Suc 0) = example_client 2 ''bob'' [0]" "sv_next_cref example_room = 2"
  "sv_next_chref example_room = 1" "sv_channel_count example_room = 1" "sv_next_client_id example_room = 2"
  "sv_clients_by_id example_room = one_bucket [(''2'', 1), (''1'', 0)]"
  "sv_clients_by_nick example_room = one_bucket [(''bob'', 1), (''alice'', 0)]"
  "sv_channels_by_name example_room = one_bucket [(''#room'', 0)]"
  "sv_connection_counts_by_ip example_room = one_bucket [(''10.0.0.1'', 2)]"
  "sv_canonical_ip example_room = Some" "sv_clock example_room = 1000" "sv_config example_room = config_blank"
  "sv_env example_room = env_blank" "sv_log example_room = []" "sv_csdb example_room = sv_csdb (server_blank 1 config_blank env_blank)"
  by (simp_all add: example_room_def server_blank_def)

lemma example_client_fields [simp]:
  "c_id (example_client i n hs) = i" "c_nick (example_client i n hs) = n" "c_real_ip (example_client i n hs) = ''10.0.0.1''"
  "c_channels (example_client i n hs) = hs" "c_channel_count (example_client i n hs) = length hs"
  "c_registered (example_client i n hs)" "c_modes (example_client i n hs) = 0" "c_capabilities (example_client i n hs) = 0"
  "c_user (example_client i n hs) = ''u''" "c_display_host (example_client i n hs) = ''h''"
  "c_account_name (example_client i n hs) = []" "c_away (example_client i n hs) = []"
  by (simp_all add: example_client_def client_zero_def)

lemma example_channel_fields [simp]:
  "ch_name example_channel = ''#room''" "ch_member_count example_channel = 2"
  "ch_members example_channel = [example_member 1 0, example_member 0 CHANNEL_PRIV_OPERATOR]"
  "m_client (example_member c p) = c" "m_privileges (example_member c p) = p" "ch_modes example_channel = 0"
  "ch_ban_list example_channel = []" "ch_topic example_channel = []" "ch_key example_channel = []"
  by (simp_all add: example_channel_def channel_zero_def example_member_def)

lemma chain_get_Cons: "chain_get k ((j, v) # es) = (if fold_key j = fold_key k then Some v else chain_get k es)"
  by (simp add: key_equal_ci_iff)

lemma index_of_chain2:
  assumes "fold_key a \<noteq> fold_key b" "v \<noteq> w" "nm = (\<lambda>x. if x = v then Some a else if x = w then Some b else None)"
  shows "index_of (\<lambda>k. chain_get k [(a, v), (b, w)]) nm"
  using assms(1,2) unfolding index_of_def assms(3) chain_get_Cons by auto

lemma index_of_chain1:
  "nm = (\<lambda>x. if x = v then Some a else None) \<Longrightarrow> index_of (\<lambda>k. chain_get k [(a, v)]) nm"
  unfolding index_of_def chain_get_Cons by auto

lemma example_room_wf: "server_wf example_room"
proof -
  have "dec 1 = ''1''" "dec 2 = ''2''" by code_simp+
  then have ids: "client_id_key 1 = ''1''" "client_id_key 2 = ''2''"
    by (simp_all add: client_id_key_def)
  have keys: "fold_key ''2'' \<noteq> fold_key ''1''" "fold_key ''bob'' \<noteq> fold_key ''alice''"
    by (simp_all add: fold_key_def irc_fold_def)
  have "wf_alloc example_room" by (simp add: wf_alloc_def)
  moreover have "wf_members example_room"
    by (auto simp: wf_members_def members_inv_def member_inv_def example_member_def)
  moreover have "ip_clients example_room key = (if fold_key ''10.0.0.1'' = fold_key key then [0, 1] else [])" for key
    by (simp add: ip_clients_def)
  then have "wf_counts example_room"
    unfolding wf_counts_def example_room_fields one_bucket_get chain_get_Cons by simp
  moreover have "wf_index example_room"
  proof -
    have "index_of (\<lambda>k. chain_get k [(''2'', 1), (''1'', 0)]) (id_of example_room)"
      by (rule index_of_chain2 [OF keys(1)]) (auto simp: fun_eq_iff id_of_def ids)
    moreover have "index_of (\<lambda>k. chain_get k [(''bob'', 1), (''alice'', 0)]) (nick_of example_room)"
      by (rule index_of_chain2 [OF keys(2)]) (auto simp: fun_eq_iff nick_of_def)
    moreover have "index_of (\<lambda>k. chain_get k [(''#room'', 0)]) (chan_of example_room)"
      by (rule index_of_chain1) (auto simp: fun_eq_iff chan_of_def)
    ultimately show ?thesis using keys by (simp add: wf_index_def hash_get_fun del: chain_get.simps)
  qed
  ultimately show ?thesis by (simp add: server_wf_def)
qed

end
