(* ===== verification/Visibility.thy ===== *)
theory Visibility
  imports Server_State
begin

section \<open>Who may see what (src/visibility.c, src/usermode_policy.c)\<close>

text \<open>
  The decisions that LIST, NAMES, WHO and WHOIS share, and the helpers of user modes +d and
  +x.  Comparing two \<open>Client *\<close> pointers is comparing references.
\<close>

definition visibility_is_oper :: "client \<Rightarrow> bool" where
  "visibility_is_oper requester =
     client_mode_has (c_modes requester) (CLIENT_MODE_OPER OR CLIENT_MODE_NETADMIN)"

definition visibility_share_channel :: "server \<Rightarrow> cref \<Rightarrow> cref \<Rightarrow> bool" where
  "visibility_share_channel s requester subject =
     (if requester = subject then True
      else list_ex (\<lambda>h. channel_has_client (sv_channel s h) subject) (c_channels (sv_client s requester)))"

definition visibility_list_channel :: "server \<Rightarrow> cref \<Rightarrow> channel \<Rightarrow> bool" where
  "visibility_list_channel s requester ch =
     (if starts_with ''&'' (ch_name ch) then False
      else if visibility_is_oper (sv_client s requester) \<or> channel_has_client ch requester then True
      else \<not> channel_mode_has (ch_modes ch) (CHANNEL_MODE_PRIVATE OR CHANNEL_MODE_SECRET))"

definition visibility_names_channel :: "server \<Rightarrow> cref \<Rightarrow> channel \<Rightarrow> bool" where
  "visibility_names_channel s requester ch =
     (if visibility_is_oper (sv_client s requester) \<or> channel_has_client ch requester then True
      else if starts_with ''&'' (ch_name ch) then False
      else \<not> channel_mode_has (ch_modes ch) (CHANNEL_MODE_PRIVATE OR CHANNEL_MODE_SECRET))"

definition visibility_who_user :: "server \<Rightarrow> cref \<Rightarrow> cref \<Rightarrow> bool" where
  "visibility_who_user s requester subject =
     (if \<not> c_registered (sv_client s subject) then False
      else if requester = subject \<or> visibility_is_oper (sv_client s requester) then True
      else if \<not> client_mode_has (c_modes (sv_client s subject)) CLIENT_MODE_INVISIBLE then True
      else visibility_share_channel s requester subject)"

definition visibility_whois_channel :: "server \<Rightarrow> cref \<Rightarrow> cref \<Rightarrow> channel \<Rightarrow> bool" where
  "visibility_whois_channel s requester subject ch =
     (if requester = subject \<or> visibility_is_oper (sv_client s requester) then True
      else if client_mode_has (c_modes (sv_client s subject)) CLIENT_MODE_PRIVATE then False
      else if channel_has_client ch requester then True
      else \<not> channel_mode_has (ch_modes ch) (CHANNEL_MODE_PRIVATE OR CHANNEL_MODE_SECRET) \<and>
           \<not> starts_with ''&'' (ch_name ch))"

definition usermode_deaf_allows_text :: "client \<Rightarrow> string \<Rightarrow> bool" where
  "usermode_deaf_allows_text recipient text =
     (if \<not> client_mode_has (c_modes recipient) CLIENT_MODE_DEAF then True
      else starts_with ''!'' text)"

definition usermode_remove_cloak :: "client \<Rightarrow> client" where
  "usermode_remove_cloak cl =
     (let cl1 = cl\<lparr>c_modes := client_mode_remove (c_modes cl) CLIENT_MODE_CLOAKED\<rparr>
      in if client_mode_has (c_modes cl1) CLIENT_MODE_VHOST then cl1
         else let identity = (if c_real_host cl1 \<noteq> [] then c_real_host cl1 else c_real_ip cl1)
              in cl1\<lparr>c_display_host := take IRC_HOST_MAX identity\<rparr>)"

subsection \<open>Properties\<close>

text \<open>
  a hidden channel stays hidden.  A client that is neither an operator nor a member learns
  of a private, secret or local (\<open>&\<close>) channel through none of LIST, NAMES and another user's
  WHOIS, and an operator sees every channel except that LIST omits local ones.
\<close>

theorem hidden_channels_stay_hidden:
  assumes "\<not> visibility_is_oper (sv_client s requester)" and "\<not> channel_has_client ch requester"
    and "bit (ch_modes ch) 8 \<or> bit (ch_modes ch) 12 \<or> starts_with ''&'' (ch_name ch)"
  shows "\<not> visibility_list_channel s requester ch \<and> \<not> visibility_names_channel s requester ch \<and>
         (requester \<noteq> subject \<longrightarrow> \<not> visibility_whois_channel s requester subject ch)"
proof -
  have "channel_mode_has (ch_modes ch) (CHANNEL_MODE_PRIVATE OR CHANNEL_MODE_SECRET) \<longleftrightarrow>
      bit (ch_modes ch) 8 \<or> bit (ch_modes ch) 12"
    by (simp add: channel_mode_has_def bit.conj_disj_distrib or_eq_0_iff mode_bits)
  then show ?thesis
    using assms
    by (auto simp: visibility_list_channel_def visibility_names_channel_def visibility_whois_channel_def)
qed

theorem hidden_channels_stay_hidden_witness:
  "\<not> visibility_names_channel (server_blank 1 config_blank env_blank) 0
       (channel_zero\<lparr>ch_name := ''#x'', ch_modes := CHANNEL_MODE_SECRET\<rparr>)"
  using hidden_channels_stay_hidden [of "server_blank 1 config_blank env_blank" 0
      "channel_zero\<lparr>ch_name := ''#x'', ch_modes := CHANNEL_MODE_SECRET\<rparr>" 1]
  by (simp add: visibility_is_oper_def client_mode_has_def server_blank_def client_zero_def
      channel_has_client_def channel_find_member_def channel_zero_def mode_bits)

end
