(* ===== verification/IRCv3.thy ===== *)
theory IRCv3
  imports Example_State Visibility
begin

section \<open>Capability-dependent delivery (src/ircv3.c)\<close>

text \<open>
  The per-command tag context and the per-receiver formatting of relayed messages.  The main
  result is that the open-addressing table of \<open>ircv3_begin_command\<close> keeps exactly the last
  occurrence of each client-only tag, in the order of the input and within the byte budget.
\<close>

subsection \<open>The tag table\<close>

abbreviation IRCV3_TAG_TOKEN_MAX :: nat where "IRCV3_TAG_TOKEN_MAX \<equiv> 2048"
abbreviation IRCV3_TAG_SLOT_COUNT :: nat where "IRCV3_TAG_SLOT_COUNT \<equiv> 4096"
abbreviation IRCV3_CLIENT_TAG_DATA_MAX :: nat where "IRCV3_CLIENT_TAG_DATA_MAX \<equiv> 4094"
abbreviation IRCV3_LABEL_MAX :: nat where "IRCV3_LABEL_MAX \<equiv> 64"
abbreviation IRCV3_LABEL_ENCODED_MAX :: nat where "IRCV3_LABEL_ENCODED_MAX \<equiv> 128"

fun decoded_tag_value_length :: "string \<Rightarrow> nat" where
  "decoded_tag_value_length [] = 0"
| "decoded_tag_value_length [x] = (if x = CHR 0x5C then 0 else 1)"
| "decoded_tag_value_length (x # y # r) =
     (if x = CHR 0x5C then 1 + decoded_tag_value_length r else 1 + decoded_tag_value_length (y # r))"

definition tag_key_hash :: "string \<Rightarrow> u64" where
  "tag_key_hash key = foldl (\<lambda>h x. (h XOR of_char x) * 16777619) 2166136261 key"

text \<open>The key of a token: the \<open>key_lengths\<close> entry is a \<open>uint16_t\<close>.\<close>

definition tag_key :: "string \<Rightarrow> string" where
  "tag_key token = take (length (takeWhile (\<lambda>x. x \<noteq> CHR ''='') token) mod 2 ^ 16) token"

text \<open>
  The probe loop of \<open>tag_slot_for\<close>; \<open>slots\<close> maps a slot to the token index stored there,
  \<open>None\<close> for \<open>IRCV3_TAG_SLOT_EMPTY\<close>.
\<close>

definition slot_stops :: "string list \<Rightarrow> (nat \<Rightarrow> nat option) \<Rightarrow> string \<Rightarrow> nat \<Rightarrow> bool" where
  "slot_stops toks slots key slot =
     (case slots slot of None \<Rightarrow> True | Some existing \<Rightarrow> tag_key (toks ! existing) = key)"

partial_function (option) tag_probe :: "(nat \<Rightarrow> bool) \<Rightarrow> nat \<Rightarrow> nat option" where
  "tag_probe stops slot =
     (if stops slot then Some slot else tag_probe stops ((slot + 1) mod IRCV3_TAG_SLOT_COUNT))"

definition tag_slot_for :: "string list \<Rightarrow> (nat \<Rightarrow> nat option) \<Rightarrow> nat \<Rightarrow> nat option" where
  "tag_slot_for toks slots token_index =
     (let key = tag_key (toks ! token_index)
      in tag_probe (slot_stops toks slots key) (unat (tag_key_hash key) mod IRCV3_TAG_SLOT_COUNT))"

text \<open>The first loop: the label and the slot table.  \<open>tagged\<close> is the message-tags capability.\<close>

definition tag_label :: "string \<Rightarrow> string \<Rightarrow> string" where
  "tag_label token label =
     (let key_length = length (takeWhile (\<lambda>x. x \<noteq> CHR ''='') token);
          value = drop (key_length + 1) token
      in if key_length = 5 \<and> take 5 token = ''label''
         then (if key_length < length token \<and> value \<noteq> [] \<and> length value \<le> IRCV3_LABEL_ENCODED_MAX \<and>
                  decoded_tag_value_length value \<le> IRCV3_LABEL_MAX
               then value else [])
         else label)"

definition tag_insert :: "bool \<Rightarrow> string list \<Rightarrow> nat \<Rightarrow> (nat \<Rightarrow> nat option) option \<Rightarrow> (nat \<Rightarrow> nat option) option" where
  "tag_insert tagged toks i s =
     (case s of
        None \<Rightarrow> None
      | Some slots \<Rightarrow>
          if starts_with ''+'' (toks ! i) \<and> tagged
          then (case tag_slot_for toks slots i of None \<Rightarrow> None | Some slot \<Rightarrow> Some (slots(slot \<mapsto> i)))
          else Some slots)"

definition tag_table :: "bool \<Rightarrow> string list \<Rightarrow> nat \<Rightarrow> (nat \<Rightarrow> nat option) option" where
  "tag_table tagged toks n = fold (tag_insert tagged toks) [0..<n] (Some (\<lambda>_. None))"

text \<open>The second loop: append a token if its index is the one in the table and it fits.\<close>

definition append_tag :: "string \<Rightarrow> string \<Rightarrow> string" where
  "append_tag token used =
     (let needed = length token + (if used \<noteq> [] then 1 else 0)
      in if needed \<le> IRCV3_CLIENT_TAG_DATA_MAX - length used
         then (if used \<noteq> [] then used @ '';'' else used) @ token else used)"

definition relay_tag :: "bool \<Rightarrow> string list \<Rightarrow> (nat \<Rightarrow> nat option) \<Rightarrow> nat \<Rightarrow> string option \<Rightarrow> string option" where
  "relay_tag tagged toks slots i s =
     (case s of
        None \<Rightarrow> None
      | Some used \<Rightarrow>
          if \<not> starts_with ''+'' (toks ! i) \<or> \<not> tagged then Some used
          else case tag_slot_for toks slots i of
                 None \<Rightarrow> None
               | Some slot \<Rightarrow> if slots slot \<noteq> Some i then Some used else Some (append_tag (toks ! i) used))"

definition client_tags :: "bool \<Rightarrow> string list \<Rightarrow> string option" where
  "client_tags tagged toks =
     (case tag_table tagged toks (length toks) of
        None \<Rightarrow> None
      | Some slots \<Rightarrow> fold (relay_tag tagged toks slots) [0..<length toks] (Some []))"

text \<open>
  \<open>ircv3_begin_command\<close>.  \<open>tags\<close> is \<open>None\<close> for the null pointer; the result is \<open>None\<close> if a probe
  loop did not end, which theorem \<open>client_tags_last_occurrence\<close> excludes.
\<close>

definition ircv3_begin_command :: "cref \<Rightarrow> string option \<Rightarrow> server \<Rightarrow> server option" where
  "ircv3_begin_command c tags s =
     (let s1 = upd_client c (\<lambda>cl. cl\<lparr>c_ircv3_client_tags := []\<rparr>) s
      in case tags of
           None \<Rightarrow> Some s1
         | Some t \<Rightarrow>
             if t = [] then Some s1
             else let caps = c_capabilities (sv_client s c);
                      toks = take IRCV3_TAG_TOKEN_MAX (tokens '';'' t);
                      label = fold tag_label toks []
                  in case client_tags (caps AND CLIENT_CAP_MESSAGE_TAGS \<noteq> 0) toks of
                       None \<Rightarrow> None
                     | Some used \<Rightarrow>
                         let s2 = upd_client c (\<lambda>cl. cl\<lparr>c_ircv3_client_tags := used\<rparr>) s1
                         in Some (if label \<noteq> [] \<and> caps AND CLIENT_CAP_LABELED_RESPONSE \<noteq> 0 \<and>
                                     caps AND CLIENT_CAP_BATCH \<noteq> 0
                                  then s2\<lparr>sv_out := (sv_out s2)(c :=
                                         client_labeled_response_begin (sv_out s2 c) (server_name s2) label)\<rparr>
                                  else s2))"

definition ircv3_end_command :: "cref \<Rightarrow> server \<Rightarrow> server" where
  "ircv3_end_command c s =
     (let (env, o1) = client_labeled_response_end (c_capabilities (sv_client s c)) (sv_env s) (sv_out s c)
      in upd_client c (\<lambda>cl. cl\<lparr>c_ircv3_client_tags := []\<rparr>) (s\<lparr>sv_out := (sv_out s)(c := o1), sv_env := env\<rparr>))"

subsection \<open>Delivery\<close>

definition ircv3_message_wire_fits :: "client \<Rightarrow> string \<Rightarrow> string \<Rightarrow> string \<Rightarrow> bool" where
  "ircv3_message_wire_fits source command target text \<longleftrightarrow>
     1 + length (c_nick source) + 1 + length (c_user source) + 1 + length (c_display_host source) + 1 +
     length command + 1 + length target + 2 + length text \<le> IRC_LINE_CONTENT_MAX"

definition suppress :: "cref \<Rightarrow> bool \<Rightarrow> server \<Rightarrow> server" where
  "suppress c on s = s\<lparr>sv_out := (sv_out s)(c := client_labeled_response_suppress (sv_out s c) on)\<rparr>"

definition suppressed :: "cref \<Rightarrow> cref \<Rightarrow> (server \<Rightarrow> server) \<Rightarrow> server \<Rightarrow> server" where
  "suppressed recipient source send s =
     (if recipient = source then suppress recipient False (send (suppress recipient True s)) else send s)"

definition ircv3_send_message :: "cref \<Rightarrow> cref \<Rightarrow> string \<Rightarrow> string \<Rightarrow> string \<Rightarrow> server \<Rightarrow> server" where
  "ircv3_send_message recipient source command target text s =
     (let src = sv_client s source;
          plain = '':'' @ client_identity src @ '' '' @ command @ '' '' @ target @ '' :'' @ text
      in if \<not> ircv3_message_wire_fits src command target text then s
         else suppressed recipient source
                (sendf recipient
                   (if c_capabilities (sv_client s recipient) AND CLIENT_CAP_MESSAGE_TAGS \<noteq> 0 \<and>
                       c_ircv3_client_tags src \<noteq> []
                    then ''@'' @ c_ircv3_client_tags src @ '' '' @ plain else plain)) s)"

definition ircv3_send_tagmsg :: "cref \<Rightarrow> cref \<Rightarrow> string \<Rightarrow> server \<Rightarrow> server" where
  "ircv3_send_tagmsg recipient source target s =
     (let src = sv_client s source
      in if c_capabilities (sv_client s recipient) AND CLIENT_CAP_MESSAGE_TAGS = 0 \<or> c_ircv3_client_tags src = []
         then s
         else suppressed recipient source
                (sendf recipient (''@'' @ c_ircv3_client_tags src @ '' :'' @ client_identity src @
                   '' TAGMSG '' @ target)) s)"

definition ircv3_broadcast_tagmsg :: "chref \<Rightarrow> cref option \<Rightarrow> cref \<Rightarrow> string \<Rightarrow> server \<Rightarrow> server" where
  "ircv3_broadcast_tagmsg h except source target s =
     fold (\<lambda>m s. if Some (m_client m) = except then s else ircv3_send_tagmsg (m_client m) source target s)
       (ch_members (sv_channel s h)) s"

definition join_line :: "server \<Rightarrow> string \<Rightarrow> client \<Rightarrow> cref \<Rightarrow> string" where
  "join_line s chan cl recipient =
     (let account = (if c_account_name cl \<noteq> [] then c_account_name cl else ''*'');
          plain = '':'' @ client_identity cl @ '' JOIN '' @ chan
      in if c_capabilities (sv_client s recipient) AND CLIENT_CAP_EXTENDED_JOIN \<noteq> 0
         then plain @ '' '' @ account @ '' :'' @ c_realname cl else plain)"

definition ircv3_broadcast_join :: "chref \<Rightarrow> cref \<Rightarrow> server \<Rightarrow> server" where
  "ircv3_broadcast_join h c s =
     send_each (join_line s (ch_name (sv_channel s h)) (sv_client s c))
       (map m_client (ch_members (sv_channel s h))) s"

definition send_away_notify :: "cref \<Rightarrow> cref \<Rightarrow> server \<Rightarrow> server" where
  "send_away_notify recipient c s =
     (if recipient = c \<or> c_capabilities (sv_client s recipient) AND CLIENT_CAP_AWAY_NOTIFY = 0 then s
      else let cl = sv_client s c; base = '':'' @ client_identity cl @ '' AWAY''
           in sendf recipient (if c_away cl \<noteq> [] then base @ '' :'' @ c_away cl else base) s)"

text \<open>
  The nested loops over the channels of a client and their members, skipping members met in an
  earlier channel: \<open>peers\<close> lists the receivers in order.
\<close>

definition seen_in_earlier_channel :: "server \<Rightarrow> chref list \<Rightarrow> cref \<Rightarrow> bool" where
  "seen_in_earlier_channel s earlier recipient \<longleftrightarrow>
     list_ex (\<lambda>h. channel_has_client (sv_channel s h) recipient) earlier"

fun peers_loop :: "server \<Rightarrow> cref \<Rightarrow> chref list \<Rightarrow> chref list \<Rightarrow> cref list" where
  "peers_loop s c earlier [] = []"
| "peers_loop s c earlier (h # hs) =
     filter (\<lambda>r. r \<noteq> c \<and> \<not> seen_in_earlier_channel s earlier r) (map m_client (ch_members (sv_channel s h))) @
     peers_loop s c (earlier @ [h]) hs"

definition ircv3_away_notify :: "cref \<Rightarrow> server \<Rightarrow> server" where
  "ircv3_away_notify c s =
     (if \<not> c_registered (sv_client s c) then s
      else fold (\<lambda>r. send_away_notify r c) (peers_loop s c [] (c_channels (sv_client s c))) s)"

definition ircv3_away_notify_join :: "chref \<Rightarrow> cref \<Rightarrow> server \<Rightarrow> server" where
  "ircv3_away_notify_join h c s =
     (if c_away (sv_client s c) = [] then s
      else fold (\<lambda>m. send_away_notify (m_client m) c) (ch_members (sv_channel s h)) s)"

definition ircv3_broadcast_message ::
  "chref \<Rightarrow> cref option \<Rightarrow> cref \<Rightarrow> string \<Rightarrow> string \<Rightarrow> string \<Rightarrow> server \<Rightarrow> server" where
  "ircv3_broadcast_message h except source command target text s =
     (if \<not> ircv3_message_wire_fits (sv_client s source) command target text then s
      else fold (\<lambda>m s. if Some (m_client m) = except then s
                       else if command = ''PRIVMSG'' \<and> \<not> usermode_deaf_allows_text (sv_client s (m_client m)) text then s
                       else ircv3_send_message (m_client m) source command target text s)
             (ch_members (sv_channel s h)) s)"

definition ircv3_account_notify :: "cref \<Rightarrow> server \<Rightarrow> server" where
  "ircv3_account_notify c s =
     (if \<not> c_registered (sv_client s c) then s
      else let cl = sv_client s c;
               account = (if c_account_name cl \<noteq> [] then c_account_name cl else ''*'');
               message = take (IRCD_MESSAGE_BUFFER_SIZE - 1) ('':'' @ client_identity cl @ '' ACCOUNT '' @ account)
           in send_each (\<lambda>_. message)
                (filter (\<lambda>r. c_capabilities (sv_client s r) AND CLIENT_CAP_ACCOUNT_NOTIFY \<noteq> 0)
                   (peers_loop s c [] (c_channels cl))) s)"

subsection \<open>Probing\<close>

abbreviation probe_at :: "nat \<Rightarrow> nat \<Rightarrow> nat" where
  "probe_at slot k \<equiv> (slot + k) mod IRCV3_TAG_SLOT_COUNT"

text \<open>The loop stops at the first stopping slot of the cyclic probe sequence.\<close>

lemma tag_probe_first:
  assumes "stops (probe_at slot k)" "\<And>j. j < k \<Longrightarrow> \<not> stops (probe_at slot j)" "slot < IRCV3_TAG_SLOT_COUNT"
  shows "tag_probe stops slot = Some (probe_at slot k)"
  using assms
proof (induction k arbitrary: slot)
  case 0
  then show ?case by (simp add: tag_probe.simps)
next
  case (Suc k)
  let ?next = "probe_at slot 1"
  have shift: "probe_at ?next j = probe_at slot (Suc j)" for j
    by (simp add: mod_add_left_eq)
  have "tag_probe stops ?next = Some (probe_at ?next k)"
  proof (rule Suc.IH)
    show "stops (probe_at ?next k)" using Suc.prems(1) by (simp only: shift)
    show "\<not> stops (probe_at ?next j)" if "j < k" for j
      using Suc.prems(2) [of "Suc j"] that by (simp only: shift) simp
  qed simp
  moreover have "\<not> stops slot" using Suc.prems(2) [of 0] Suc.prems(3) by simp
  ultimately show ?case by (subst tag_probe.simps) (simp only: shift if_False)
qed

lemma tag_probe_least:
  assumes "slot < IRCV3_TAG_SLOT_COUNT" "i < IRCV3_TAG_SLOT_COUNT" "stops i"
  obtains k where "stops (probe_at slot k)" "\<And>j. j < k \<Longrightarrow> \<not> stops (probe_at slot j)"
proof -
  have "probe_at slot (i + IRCV3_TAG_SLOT_COUNT - slot) = i" using assms(1,2) by simp
  then have ex: "stops (probe_at slot (i + IRCV3_TAG_SLOT_COUNT - slot))" using assms(3) by (simp only:)
  show thesis
    using that [of "LEAST k. stops (probe_at slot k)"]
      LeastI [of "\<lambda>k. stops (probe_at slot k)", OF ex] not_less_Least [of _ "\<lambda>k. stops (probe_at slot k)"] by blast
qed

lemma tag_probe_returns:
  assumes "slot < IRCV3_TAG_SLOT_COUNT" "i < IRCV3_TAG_SLOT_COUNT" "stops i"
  obtains r where "tag_probe stops slot = Some r" "stops r" "r < IRCV3_TAG_SLOT_COUNT"
proof -
  obtain k where "stops (probe_at slot k)" "\<And>j. j < k \<Longrightarrow> \<not> stops (probe_at slot j)"
    using tag_probe_least assms by blast
  then show thesis using that tag_probe_first assms(1) by simp
qed

text \<open>A search keeps its result when no earlier slot starts to stop it.\<close>

lemma tag_probe_stable:
  assumes "tag_probe stops slot = Some r" "stops r" "stops' r" "r < IRCV3_TAG_SLOT_COUNT"
    and later: "\<And>i. stops' i \<Longrightarrow> i \<noteq> r \<Longrightarrow> stops i" and slot: "slot < IRCV3_TAG_SLOT_COUNT"
  shows "tag_probe stops' slot = Some r"
proof -
  obtain k where k: "stops (probe_at slot k)" "\<And>j. j < k \<Longrightarrow> \<not> stops (probe_at slot j)"
    using tag_probe_least [OF slot assms(4), of stops] assms(2) by blast
  then have r: "r = probe_at slot k"
    using tag_probe_first [of stops slot k] assms(1) slot by simp
  have "\<not> stops' (probe_at slot j)" if "j < k" for j
  proof
    assume "stops' (probe_at slot j)"
    moreover have "probe_at slot j \<noteq> r" using k(2) [OF that] assms(2) by auto
    ultimately show False using later k(2) [OF that] by blast
  qed
  then show ?thesis using tag_probe_first [of stops' slot k] assms(3) slot r by simp
qed

subsection \<open>The table holds the last occurrences\<close>

definition tag_home :: "string \<Rightarrow> nat" where
  "tag_home key = unat (tag_key_hash key) mod IRCV3_TAG_SLOT_COUNT"

lemma tag_home_less [simp]: "tag_home key < IRCV3_TAG_SLOT_COUNT"
  by (simp add: tag_home_def)

definition is_client_tag :: "bool \<Rightarrow> string list \<Rightarrow> nat \<Rightarrow> bool" where
  "is_client_tag tagged toks i \<longleftrightarrow> starts_with ''+'' (toks ! i) \<and> tagged"

definition last_of_key :: "bool \<Rightarrow> string list \<Rightarrow> nat \<Rightarrow> nat \<Rightarrow> bool" where
  "last_of_key tagged toks n i \<longleftrightarrow> is_client_tag tagged toks i \<and>
     (\<forall>j<n. i < j \<and> is_client_tag tagged toks j \<longrightarrow> tag_key (toks ! j) \<noteq> tag_key (toks ! i))"

definition table_inv :: "bool \<Rightarrow> string list \<Rightarrow> nat \<Rightarrow> (nat \<Rightarrow> nat option) \<Rightarrow> bool" where
  "table_inv tagged toks n slots \<longleftrightarrow>
     finite (dom slots) \<and> card (dom slots) \<le> n \<and>
     (\<forall>s j. slots s = Some j \<longrightarrow> s < IRCV3_TAG_SLOT_COUNT \<and> j < n \<and> last_of_key tagged toks n j \<and>
        tag_probe (slot_stops toks slots (tag_key (toks ! j))) (tag_home (tag_key (toks ! j))) = Some s) \<and>
     (\<forall>i<n. is_client_tag tagged toks i \<longrightarrow>
        (\<exists>s j. slots s = Some j \<and> tag_key (toks ! j) = tag_key (toks ! i)))"

lemma tag_slot_for_probe:
  "tag_slot_for toks slots i = tag_probe (slot_stops toks slots (tag_key (toks ! i))) (tag_home (tag_key (toks ! i)))"
  by (simp add: tag_slot_for_def tag_home_def Let_def)

lemma slot_stops_upd:
  "slot_stops toks (slots(r \<mapsto> n)) key i \<longleftrightarrow>
     (if i = r then tag_key (toks ! n) = key else slot_stops toks slots key i)"
  by (simp add: slot_stops_def)

lemma table_inv_insert:
  assumes inv: "table_inv tagged toks n slots" and n: "n < IRCV3_TAG_SLOT_COUNT"
    and tag: "is_client_tag tagged toks n"
  shows "\<exists>r. tag_slot_for toks slots n = Some r \<and> table_inv tagged toks (Suc n) (slots(r \<mapsto> n))"
proof -
  let ?key = "tag_key (toks ! n)"
  have "\<not> {0..<IRCV3_TAG_SLOT_COUNT} \<subseteq> dom slots"
    using inv n card_mono [of "dom slots" "{0..<IRCV3_TAG_SLOT_COUNT}"] by (auto simp: table_inv_def)
  then obtain e where "e < IRCV3_TAG_SLOT_COUNT" "slots e = None" by (auto simp: dom_def subset_iff)
  then obtain r where r: "tag_probe (slot_stops toks slots ?key) (tag_home ?key) = Some r"
    "slot_stops toks slots ?key r" "r < IRCV3_TAG_SLOT_COUNT"
    using tag_probe_returns [of "tag_home ?key" e "slot_stops toks slots ?key"] by (auto simp: slot_stops_def)
  let ?slots = "slots(r \<mapsto> n)"
  have entry: "s < IRCV3_TAG_SLOT_COUNT \<and> j < n \<and> last_of_key tagged toks n j \<and>
      tag_probe (slot_stops toks slots (tag_key (toks ! j))) (tag_home (tag_key (toks ! j))) = Some s"
    if "slots s = Some j" for s j
    using inv that by (simp add: table_inv_def)
  have other: "tag_key (toks ! j) \<noteq> ?key" if "slots s = Some j" "s \<noteq> r" for s j
    using entry [OF that(1)] r(1) that(2) by auto
  have new: "s < IRCV3_TAG_SLOT_COUNT \<and> j < Suc n \<and> last_of_key tagged toks (Suc n) j \<and>
      tag_probe (slot_stops toks ?slots (tag_key (toks ! j))) (tag_home (tag_key (toks ! j))) = Some s"
    if "?slots s = Some j" for s j
  proof (cases "s = r")
    case True
    then have "j = n" using that by simp
    moreover have "tag_probe (slot_stops toks ?slots ?key) (tag_home ?key) = Some r"
      by (rule tag_probe_stable [OF r(1,2) _ r(3)]) (simp_all add: slot_stops_upd split: if_splits)
    moreover have "last_of_key tagged toks (Suc n) n" using tag by (simp add: last_of_key_def)
    ultimately show ?thesis using True r(3) by simp
  next
    case False
    then have old: "slots s = Some j" using that by simp
    have "tag_probe (slot_stops toks ?slots (tag_key (toks ! j))) (tag_home (tag_key (toks ! j))) = Some s"
    proof (rule tag_probe_stable)
      show "slot_stops toks slots (tag_key (toks ! j)) s" using old by (simp add: slot_stops_def)
      show "slot_stops toks ?slots (tag_key (toks ! j)) s" using old False by (simp add: slot_stops_def)
      show "slot_stops toks slots (tag_key (toks ! j)) i" if "slot_stops toks ?slots (tag_key (toks ! j)) i" for i
        using that other [OF old False] by (simp add: slot_stops_upd split: if_splits)
    qed (use entry [OF old] in simp_all)
    moreover have "last_of_key tagged toks (Suc n) j"
      using entry [OF old] other [OF old False] by (auto simp: last_of_key_def less_Suc_eq)
    ultimately show ?thesis using entry [OF old] by simp
  qed
  have present: "\<exists>s j. ?slots s = Some j \<and> tag_key (toks ! j) = tag_key (toks ! i)"
    if i: "i < Suc n" "is_client_tag tagged toks i" for i
  proof (cases "i = n")
    case True
    then show ?thesis by (intro exI [of _ r] exI [of _ n]) simp
  next
    case False
    then have "i < n" using i(1) by simp
    then obtain s j where sj: "slots s = Some j" "tag_key (toks ! j) = tag_key (toks ! i)"
      using inv i(2) unfolding table_inv_def by blast
    show ?thesis
    proof (cases "s = r")
      case True
      then show ?thesis using r(2) sj by (intro exI [of _ r] exI [of _ n]) (simp add: slot_stops_def)
    qed (use sj in auto)
  qed
  have "card (dom ?slots) \<le> Suc n" "finite (dom ?slots)"
    using inv card_insert_le_m1 [of "Suc n" "dom slots" r] by (simp_all add: table_inv_def card_insert_if)
  then have "table_inv tagged toks (Suc n) ?slots"
    using new present unfolding table_inv_def by blast
  then show ?thesis using r(1) by (auto simp: tag_slot_for_probe)
qed

lemma table_inv_skip:
  "table_inv tagged toks n slots \<Longrightarrow> \<not> is_client_tag tagged toks n \<Longrightarrow> table_inv tagged toks (Suc n) slots"
  by (auto simp: table_inv_def last_of_key_def less_Suc_eq)

lemma tag_table_inv:
  assumes "n \<le> IRCV3_TAG_SLOT_COUNT"
  shows "\<exists>slots. tag_table tagged toks n = Some slots \<and> table_inv tagged toks n slots"
  using assms
proof (induction n)
  case 0
  then show ?case by (simp add: tag_table_def table_inv_def)
next
  case (Suc n)
  then obtain slots where t: "tag_table tagged toks n = Some slots" "table_inv tagged toks n slots" by auto
  have step: "tag_table tagged toks (Suc n) = tag_insert tagged toks n (Some slots)"
    using t(1) by (simp add: tag_table_def)
  show ?case
  proof (cases "is_client_tag tagged toks n")
    case True
    then show ?thesis
      using table_inv_insert [OF t(2) _ True] Suc.prems step by (auto simp: tag_insert_def is_client_tag_def)
  next
    case False
    then show ?thesis
      using table_inv_skip [OF t(2) False] step by (auto simp: tag_insert_def is_client_tag_def)
  qed
qed

lemma table_finds_last:
  assumes inv: "table_inv tagged toks n slots" and i: "i < n" "is_client_tag tagged toks i"
  shows "\<exists>s. tag_slot_for toks slots i = Some s \<and> (slots s = Some i \<longleftrightarrow> last_of_key tagged toks n i)"
proof -
  obtain s j where sj: "slots s = Some j" "tag_key (toks ! j) = tag_key (toks ! i)"
    using inv i by (auto simp: table_inv_def)
  then have j: "j < n" "last_of_key tagged toks n j" "tag_slot_for toks slots i = Some s"
    using inv unfolding table_inv_def tag_slot_for_probe by (metis sj)+
  have "i = j" if "last_of_key tagged toks n i"
    using that j sj(2) i unfolding last_of_key_def by (metis linorder_neqE_nat)
  then show ?thesis using sj(1) j by auto
qed

subsection \<open>What is relayed\<close>

text \<open>The reference: the client-only tags whose key does not occur again.\<close>

fun last_client_tags :: "string list \<Rightarrow> string list" where
  "last_client_tags [] = []"
| "last_client_tags (t # ts) =
     (if starts_with ''+'' t \<and> tag_key t \<notin> tag_key ` set (filter (starts_with ''+'') ts)
      then t # last_client_tags ts else last_client_tags ts)"

lemma last_of_key_Suc:
  "last_of_key True (t # ts) (Suc (length ts)) (Suc i) \<longleftrightarrow> last_of_key True ts (length ts) i"
proof -
  have "(\<forall>j < Suc (length ts). Suc i < j \<longrightarrow> P j) \<longleftrightarrow> (\<forall>j < length ts. i < j \<longrightarrow> P (Suc j))" for P
    by (simp add: All_less_Suc2)
  then show ?thesis by (simp add: last_of_key_def is_client_tag_def imp_conjL)
qed

lemma last_of_key_0:
  "last_of_key True (t # ts) (Suc (length ts)) 0 \<longleftrightarrow>
     starts_with ''+'' t \<and> tag_key t \<notin> tag_key ` set (filter (starts_with ''+'') ts)"
proof -
  have "(\<forall>j < Suc (length ts). 0 < j \<longrightarrow> P j) \<longleftrightarrow> (\<forall>j < length ts. P (Suc j))" for P
    by (simp add: All_less_Suc2)
  moreover have "(\<forall>j < length ts. starts_with ''+'' (ts ! j) \<longrightarrow> tag_key (ts ! j) \<noteq> tag_key t) \<longleftrightarrow>
      (\<forall>x\<in>set ts. starts_with ''+'' x \<longrightarrow> tag_key x \<noteq> tag_key t)"
    by (simp add: all_set_conv_all_nth)
  ultimately show ?thesis
    by (simp add: last_of_key_def is_client_tag_def imp_conjL image_iff) (metis (full_types))
qed

lemma last_client_tags_index:
  "map ((!) toks) (filter (last_of_key True toks (length toks)) [0..<length toks]) = last_client_tags toks"
proof (induction toks)
  case (Cons t ts)
  have "[0..<length (t # ts)] = 0 # map Suc [0..<length ts]"
    by (simp add: map_Suc_upt upt_conv_Cons del: upt_Suc)
  then show ?case
    using Cons by (simp add: filter_map o_def last_of_key_Suc last_of_key_0 del: upt_Suc)
qed simp

lemma relay_fold:
  assumes inv: "table_inv tagged toks n slots" and "set is \<subseteq> {0..<n}"
  shows "fold (relay_tag tagged toks slots) is (Some used) =
    Some (fold append_tag (map ((!) toks) (filter (last_of_key tagged toks n) is)) used)"
  using assms(2)
proof (induction "is" arbitrary: used)
  case (Cons i "is")
  have "relay_tag tagged toks slots i (Some used) =
      Some (if last_of_key tagged toks n i then append_tag (toks ! i) used else used)"
  proof (cases "is_client_tag tagged toks i")
    case True
    then show ?thesis
      using table_finds_last [OF inv _ True] Cons.prems
      by (auto simp: relay_tag_def is_client_tag_def)
  next
    case False
    then show ?thesis by (auto simp: relay_tag_def is_client_tag_def last_of_key_def)
  qed
  then show ?case using Cons by simp
qed simp

lemma client_tags_returns: "length toks \<le> IRCV3_TAG_TOKEN_MAX \<Longrightarrow> \<exists>used. client_tags b toks = Some used"
proof -
  assume "length toks \<le> IRCV3_TAG_TOKEN_MAX"
  then obtain slots where "tag_table b toks (length toks) = Some slots" "table_inv b toks (length toks) slots"
    using tag_table_inv [of "length toks" b toks] by auto
  then show ?thesis by (simp add: client_tags_def relay_fold)
qed

lemma append_tag_fits: "length used \<le> IRCV3_CLIENT_TAG_DATA_MAX \<Longrightarrow> length (append_tag t used) \<le> IRCV3_CLIENT_TAG_DATA_MAX"
  by (auto simp: append_tag_def Let_def)

lemma append_tags_fit:
  "length used \<le> IRCV3_CLIENT_TAG_DATA_MAX \<Longrightarrow> length (fold append_tag ts used) \<le> IRCV3_CLIENT_TAG_DATA_MAX"
  by (induction ts arbitrary: used) (simp_all add: append_tag_fits)

subsection \<open>Properties\<close>

text \<open>
  C35: the open-addressing table of \<open>ircv3_begin_command\<close> terminates on every tag section and
  relays, for a client with the message-tags capability, exactly the last occurrence of each
  client-only tag in the order of the input, as far as they fit the tag budget; without the
  capability nothing is relayed.
\<close>

theorem client_tags_last_occurrence:
  assumes "length toks \<le> IRCV3_TAG_TOKEN_MAX"
  shows "client_tags True toks = Some (fold append_tag (last_client_tags toks) []) \<and>
    client_tags False toks = Some [] \<and>
    length (fold append_tag (last_client_tags toks) []) \<le> IRCV3_CLIENT_TAG_DATA_MAX"
proof -
  have run: "client_tags tagged toks =
      Some (fold append_tag (map ((!) toks) (filter (last_of_key tagged toks (length toks)) [0..<length toks])) [])"
    for tagged
  proof -
    obtain slots where "tag_table tagged toks (length toks) = Some slots" "table_inv tagged toks (length toks) slots"
      using tag_table_inv [of "length toks" tagged toks] assms by auto
    then show ?thesis by (simp add: client_tags_def relay_fold)
  qed
  have "filter (last_of_key False toks (length toks)) [0..<length toks] = []"
    by (simp add: last_of_key_def is_client_tag_def)
  then show ?thesis
    using run [of True] run [of False] append_tags_fit [of "[]"] by (simp add: last_client_tags_index)
qed

theorem client_tags_last_occurrence_witness:
  "client_tags True [''+a=1'', ''label=x'', ''+b'', ''+a=2''] = Some ''+b;+a=2''"
proof -
  have "last_client_tags [''+a=1'', ''label=x'', ''+b'', ''+a=2''] = [''+b'', ''+a=2'']"
    by (simp add: starts_with_def tag_key_def)
  then show ?thesis
    using client_tags_last_occurrence [of "[''+a=1'', ''label=x'', ''+b'', ''+a=2'']"]
    by (simp add: append_tag_def)
qed

subsection \<open>Delivery only produces output\<close>

lemma io_only_out: "io_only s (s\<lparr>sv_out := out\<rparr>)"
  unfolding io_only_def by (intro exI [of _ out] exI [of _ "sv_env s"] exI [of _ "sv_log s"]) simp

lemma suppress_io: "io_only s (suppress c on s)"
  unfolding suppress_def by (rule io_only_out)

lemma suppressed_io: "(\<And>s. io_only s (send s)) \<Longrightarrow> io_only s (suppressed r c send s)"
  unfolding suppressed_def by (auto intro: io_only_trans [OF suppress_io io_only_trans [OF _ suppress_io]])

lemma send_message_io [simp, intro!]: "io_only s (ircv3_send_message r c cmd tgt txt s)"
  unfolding ircv3_send_message_def Let_def by (auto intro: suppressed_io)

lemma send_tagmsg_io [simp, intro!]: "io_only s (ircv3_send_tagmsg r c tgt s)"
  unfolding ircv3_send_tagmsg_def Let_def by (auto intro: suppressed_io)

lemma broadcast_tagmsg_io [simp, intro!]: "io_only s (ircv3_broadcast_tagmsg h e c tgt s)"
  unfolding ircv3_broadcast_tagmsg_def by (rule io_only_fold) simp

lemma broadcast_join_io [simp, intro!]: "io_only s (ircv3_broadcast_join h c s)"
  unfolding ircv3_broadcast_join_def by simp

lemma send_away_notify_io [simp, intro!]: "io_only s (send_away_notify r c s)"
  unfolding send_away_notify_def Let_def by simp

lemma away_notify_io [simp, intro!]: "io_only s (ircv3_away_notify c s)"
  unfolding ircv3_away_notify_def by (auto intro: io_only_fold)

lemma away_notify_join_io [simp, intro!]: "io_only s (ircv3_away_notify_join h c s)"
  unfolding ircv3_away_notify_join_def by (auto intro: io_only_fold)

lemma broadcast_message_io [simp, intro!]: "io_only s (ircv3_broadcast_message h e c cmd tgt txt s)"
  unfolding ircv3_broadcast_message_def by (auto intro: io_only_fold)

lemma account_notify_io [simp, intro!]: "io_only s (ircv3_account_notify c s)"
  unfolding ircv3_account_notify_def Let_def by simp

lemmas broadcast_join_frame [simp, frame_simps] = io_fields [OF broadcast_join_io]

lemmas away_notify_join_frame [simp, frame_simps] = io_fields [OF away_notify_join_io]

lemmas broadcast_message_frame [simp, frame_simps] = io_fields [OF broadcast_message_io]

lemmas send_message_frame [simp, frame_simps] = io_fields [OF send_message_io]

lemma seen_earlier_iff: "seen_in_earlier_channel s hs r \<longleftrightarrow> (\<exists>h\<in>set hs. r \<in> member_refs (sv_channel s h))"
  by (auto simp: seen_in_earlier_channel_def list_ex_iff has_client_iff)

lemma peers_loop_set:
  "set (peers_loop s c earlier hs) =
     {r. r \<noteq> c \<and> (\<exists>h\<in>set hs. r \<in> member_refs (sv_channel s h)) \<and> \<not> seen_in_earlier_channel s earlier r}"
  by (induction hs arbitrary: earlier) (auto simp: seen_earlier_iff)

lemma peers_loop_distinct:
  "(\<And>h. h \<in> set hs \<Longrightarrow> members_inv (sv_channel s h)) \<Longrightarrow> distinct (peers_loop s c earlier hs)"
  by (induction hs arbitrary: earlier)
     (auto simp: peers_loop_set seen_earlier_iff members_inv_def intro!: distinct_filter)

text \<open>
  An account change is announced exactly once to every client that shares a channel with the
  one that changed and asked for account notifications, however many channels they share, and to
  nobody else.
\<close>

theorem account_notify_once:
  assumes wf: "server_wf s" and c: "c \<in> set (sv_clients s)" and reg: "c_registered (sv_client s c)"
  shows "\<exists>rs line. sv_log (ircv3_account_notify c s) = sv_log s @ map (\<lambda>r. (r, line)) rs \<and> distinct rs \<and>
    set rs = {r \<in> set (sv_clients s). r \<noteq> c \<and> clients_share_channel s c r \<and>
      c_capabilities (sv_client s r) AND CLIENT_CAP_ACCOUNT_NOTIFY \<noteq> 0}"
proof -
  let ?hs = "c_channels (sv_client s c)"
  let ?rs = "filter (\<lambda>r. c_capabilities (sv_client s r) AND CLIENT_CAP_ACCOUNT_NOTIFY \<noteq> 0) (peers_loop s c [] ?hs)"
  have live: "h \<in> set (sv_live s)" if "h \<in> set ?hs" for h
    using wf_channelsD [OF wf c] that by blast
  have "distinct ?rs"
    using peers_loop_distinct [of ?hs s c "[]"] live wf_members_invD [OF wf] by simp
  moreover have "set ?rs = {r \<in> set (sv_clients s). r \<noteq> c \<and> clients_share_channel s c r \<and>
      c_capabilities (sv_client s r) AND CLIENT_CAP_ACCOUNT_NOTIFY \<noteq> 0}"
    using live wf_member_client [OF wf]
    by (auto simp: peers_loop_set seen_earlier_iff clients_share_channel_def list_ex_iff has_client_iff)
  ultimately show ?thesis
    using reg by (intro exI [of _ ?rs]) (auto simp: ircv3_account_notify_def Let_def send_each_log)
qed

theorem account_notify_once_witness:
  "\<exists>rs line. sv_log (ircv3_account_notify 0 example_room) = map (\<lambda>r. (r, line)) rs \<and> distinct rs \<and>
    set rs = {r \<in> {0, 1}. r \<noteq> 0 \<and> clients_share_channel example_room 0 r \<and>
      c_capabilities (sv_client example_room r) AND CLIENT_CAP_ACCOUNT_NOTIFY \<noteq> 0}"
  using account_notify_once [OF example_room_wf, of 0] by simp

end
