(* ===== verification/Server_Steps.thy ===== *)
theory Server_Steps
  imports IRCv3
begin

section \<open>Steps that respect the server\<close>

text \<open>
  \<open>keeps c s s'\<close>: a step from \<open>s\<close> to \<open>s'\<close>, taken on behalf of the connected client \<open>c\<close>, keeps the server
  well formed and does not remove \<open>c\<close>.  The introduction rules peel off one state change at a time,
  so that a command is shown to respect the server by following its text.
\<close>

named_theorems keeps_intros

definition keeps :: "cref \<Rightarrow> server \<Rightarrow> server \<Rightarrow> bool" where
  "keeps c s s' \<longleftrightarrow> (server_wf s \<and> c \<in> set (sv_clients s) \<longrightarrow> server_wf s' \<and> c \<in> set (sv_clients s'))"

lemma keepsD: "keeps c s s' \<Longrightarrow> server_wf s \<Longrightarrow> c \<in> set (sv_clients s) \<Longrightarrow> server_wf s' \<and> c \<in> set (sv_clients s')"
  by (simp add: keeps_def)

lemma keeps_refl [simp, intro!]: "keeps c s s"
  by (simp add: keeps_def)

lemma keeps_trans: "keeps c s t \<Longrightarrow> keeps c t u \<Longrightarrow> keeps c s u"
  by (simp add: keeps_def)

lemma keeps_aux: "keeps c s t \<Longrightarrow> aux_only t u \<Longrightarrow> keeps c s u"
  using server_wf_aux aux_fields(2) by (simp add: keeps_def)

lemma keeps_io: "keeps c s t \<Longrightarrow> io_only t u \<Longrightarrow> keeps c s u"
  using keeps_aux aux_only_io by blast

text \<open>Assignments to fields of a client on which no index and no membership depends.\<close>

definition plain_update :: "(client \<Rightarrow> client) \<Rightarrow> bool" where
  "plain_update f \<longleftrightarrow> (\<forall>cl. c_id (f cl) = c_id cl \<and> c_nick (f cl) = c_nick cl \<and> c_real_ip (f cl) = c_real_ip cl \<and>
     c_channels (f cl) = c_channels cl \<and> c_channel_count (f cl) = c_channel_count cl)"

lemma keeps_upd_client: "keeps c s t \<Longrightarrow> plain_update f \<Longrightarrow> keeps c s (upd_client d f t)"
  unfolding keeps_def plain_update_def by (auto intro: server_wf_upd_client)

text \<open>Assignments to fields of a channel other than its name and members.\<close>

definition plain_channel_update :: "(channel \<Rightarrow> channel) \<Rightarrow> bool" where
  "plain_channel_update f \<longleftrightarrow> (\<forall>ch. ch_name (f ch) = ch_name ch \<and> ch_members (f ch) = ch_members ch \<and>
     ch_member_count (f ch) = ch_member_count ch)"

lemma keeps_upd_channel: "keeps c s t \<Longrightarrow> plain_channel_update f \<Longrightarrow> keeps c s (upd_channel h f t)"
  unfolding keeps_def plain_channel_update_def
  by (auto intro!: server_wf_upd_channel simp: members_inv_def)

lemma keeps_upd_members:
  assumes "keeps c s t" "\<And>ch. ch_name (f ch) = ch_name ch \<and>
      map m_client (ch_members (f ch)) = map m_client (ch_members ch) \<and> (members_inv ch \<longrightarrow> members_inv (f ch))"
  shows "keeps c s (upd_channel h f t)"
  using assms unfolding keeps_def by (auto intro!: server_wf_upd_channel)

text \<open>Fields of the server outside the invariant.\<close>

lemma index_views [simp]:
  "id_of (s\<lparr>sv_command_global_budget_updated := x\<rparr>) = id_of s"
  "id_of (s\<lparr>sv_command_global_budget_tokens := y\<rparr>) = id_of s"
  "id_of (s\<lparr>sv_command_global_throttle_notice_time := x\<rparr>) = id_of s"
  "id_of (s\<lparr>sv_csdb := db\<rparr>) = id_of s"
  "id_of (s\<lparr>sv_clock := x\<rparr>) = id_of s"
  "id_of (s\<lparr>sv_out := out\<rparr>) = id_of s"
  "id_of (s\<lparr>sv_env := env\<rparr>) = id_of s"
  "id_of (s\<lparr>sv_world := w\<rparr>) = id_of s"
  "id_of (s\<lparr>sv_limits := li\<rparr>) = id_of s"
  "id_of (s\<lparr>sv_restart_requested := b\<rparr>) = id_of s"
  "id_of (s\<lparr>sv_shutdown_requested := b\<rparr>) = id_of s"
  "nick_of (s\<lparr>sv_command_global_budget_updated := x\<rparr>) = nick_of s"
  "nick_of (s\<lparr>sv_command_global_budget_tokens := y\<rparr>) = nick_of s"
  "nick_of (s\<lparr>sv_command_global_throttle_notice_time := x\<rparr>) = nick_of s"
  "nick_of (s\<lparr>sv_csdb := db\<rparr>) = nick_of s"
  "nick_of (s\<lparr>sv_clock := x\<rparr>) = nick_of s"
  "nick_of (s\<lparr>sv_out := out\<rparr>) = nick_of s"
  "nick_of (s\<lparr>sv_env := env\<rparr>) = nick_of s"
  "nick_of (s\<lparr>sv_world := w\<rparr>) = nick_of s"
  "nick_of (s\<lparr>sv_limits := li\<rparr>) = nick_of s"
  "nick_of (s\<lparr>sv_restart_requested := b\<rparr>) = nick_of s"
  "nick_of (s\<lparr>sv_shutdown_requested := b\<rparr>) = nick_of s"
  "chan_of (s\<lparr>sv_command_global_budget_updated := x\<rparr>) = chan_of s"
  "chan_of (s\<lparr>sv_command_global_budget_tokens := y\<rparr>) = chan_of s"
  "chan_of (s\<lparr>sv_command_global_throttle_notice_time := x\<rparr>) = chan_of s"
  "chan_of (s\<lparr>sv_csdb := db\<rparr>) = chan_of s"
  "chan_of (s\<lparr>sv_clock := x\<rparr>) = chan_of s"
  "chan_of (s\<lparr>sv_out := out\<rparr>) = chan_of s"
  "chan_of (s\<lparr>sv_env := env\<rparr>) = chan_of s"
  "chan_of (s\<lparr>sv_world := w\<rparr>) = chan_of s"
  "chan_of (s\<lparr>sv_limits := li\<rparr>) = chan_of s"
  "chan_of (s\<lparr>sv_restart_requested := b\<rparr>) = chan_of s"
  "chan_of (s\<lparr>sv_shutdown_requested := b\<rparr>) = chan_of s"
  "ip_clients (s\<lparr>sv_command_global_budget_updated := x\<rparr>) = ip_clients s"
  "ip_clients (s\<lparr>sv_command_global_budget_tokens := y\<rparr>) = ip_clients s"
  "ip_clients (s\<lparr>sv_command_global_throttle_notice_time := x\<rparr>) = ip_clients s"
  "ip_clients (s\<lparr>sv_csdb := db\<rparr>) = ip_clients s"
  "ip_clients (s\<lparr>sv_clock := x\<rparr>) = ip_clients s"
  "ip_clients (s\<lparr>sv_out := out\<rparr>) = ip_clients s"
  "ip_clients (s\<lparr>sv_env := env\<rparr>) = ip_clients s"
  "ip_clients (s\<lparr>sv_world := w\<rparr>) = ip_clients s"
  "ip_clients (s\<lparr>sv_limits := li\<rparr>) = ip_clients s"
  "ip_clients (s\<lparr>sv_restart_requested := b\<rparr>) = ip_clients s"
  "ip_clients (s\<lparr>sv_shutdown_requested := b\<rparr>) = ip_clients s"
  by (simp_all add: fun_eq_iff id_of_def nick_of_def chan_of_def ip_clients_def)

lemma server_wf_budget [simp]:
  "server_wf (s\<lparr>sv_command_global_budget_updated := x\<rparr>) = server_wf s"
  "server_wf (s\<lparr>sv_command_global_budget_tokens := y\<rparr>) = server_wf s"
  "server_wf (s\<lparr>sv_command_global_throttle_notice_time := x\<rparr>) = server_wf s"
  "server_wf (s\<lparr>sv_csdb := db\<rparr>) = server_wf s" "server_wf (s\<lparr>sv_clock := x\<rparr>) = server_wf s"
  "server_wf (s\<lparr>sv_out := out\<rparr>) = server_wf s" "server_wf (s\<lparr>sv_env := env\<rparr>) = server_wf s"
  "server_wf (s\<lparr>sv_world := w\<rparr>) = server_wf s"
  "server_wf (s\<lparr>sv_limits := li\<rparr>) = server_wf s" "server_wf (s\<lparr>sv_restart_requested := b\<rparr>) = server_wf s"
  "server_wf (s\<lparr>sv_shutdown_requested := b\<rparr>) = server_wf s"
  by (simp_all add: wf_defs)

lemma keeps_fields [keeps_intros]:
  assumes "keeps c s t"
  shows "keeps c s (t\<lparr>sv_command_global_budget_updated := x\<rparr>)"
    and "keeps c s (t\<lparr>sv_command_global_budget_tokens := y\<rparr>)"
    and "keeps c s (t\<lparr>sv_command_global_throttle_notice_time := x\<rparr>)"
    and "keeps c s (t\<lparr>sv_csdb := db\<rparr>)" and "keeps c s (t\<lparr>sv_clock := x\<rparr>)"
    and "keeps c s (t\<lparr>sv_out := out\<rparr>)" and "keeps c s (t\<lparr>sv_env := env\<rparr>)"
    and "keeps c s (t\<lparr>sv_world := w\<rparr>)"
    and "keeps c s (t\<lparr>sv_limits := li\<rparr>)" and "keeps c s (t\<lparr>sv_restart_requested := b\<rparr>)"
    and "keeps c s (t\<lparr>sv_shutdown_requested := b\<rparr>)"
  using assms by (simp_all add: keeps_def)

lemma keeps_sends [keeps_intros]:
  assumes "keeps c s t"
  shows "keeps c s (sendf d x t)" and "keeps c s (snotice_broadcast k x t)"
    and "keeps c s (send_each l cs t)" and "keeps c s (channel_broadcast h e m t)"
    and "keeps c s (ircv3_broadcast_join h d t)" and "keeps c s (ircv3_away_notify_join h d t)"
    and "keeps c s (ircv3_send_message d r cmd tgt txt t)" and "keeps c s (ircv3_broadcast_message h e d cmd tgt txt t)"
    and "keeps c s (presence_watch_online d t)" and "keeps c s (presence_watch_offline d n t)"
    and "keeps c s (presence_whowas_record d n t)" and "keeps c s (server_pmstats_nick_change m n t)"
    and "keeps c s (ircv3_account_notify d t)" and "keeps c s (ircv3_away_notify d t)"
  by (rule keeps_io [OF assms] keeps_aux [OF assms]; simp)+

lemma keeps_if [keeps_intros]: "keeps c s t \<Longrightarrow> keeps c s u \<Longrightarrow> keeps c s (if b then t else u)"
  by simp

lemma keeps_remove_if_empty:
  assumes "keeps c s t" "server_wf s \<Longrightarrow> c \<in> set (sv_clients s) \<Longrightarrow> h \<in> set (sv_live t)"
  shows "keeps c s (server_remove_channel_if_empty h t)"
  using assms by (auto simp: keeps_def intro: remove_if_empty_wf)

lemma keeps_fold: "(\<And>x s. x \<in> set xs \<Longrightarrow> keeps c s (f x s)) \<Longrightarrow> keeps c s (fold f xs s)"
proof (induction xs arbitrary: s)
  case (Cons x xs)
  have "keeps c s (f x s)" by (rule Cons.prems) simp
  moreover have "keeps c (f x s) (fold f xs (f x s))" by (rule Cons.IH) (simp add: Cons.prems)
  ultimately show ?case using keeps_trans by simp
qed simp

end
