(* ===== verification/Dispatch.thy ===== *)
theory Dispatch
  imports Server_Steps
begin

section \<open>Command dispatch and flood control (src/commands/dispatch.c, src/irc.c)\<close>

text \<open>
  The two token budgets, the dispatch table and the line parser.  The budgets are \<open>unsigned int\<close>
  counters refilled by elapsed seconds computed in \<open>unsigned long\<close>: they are words here, so that every
  subtraction and product is taken at its width.

  A command handler is a function of the command name, the client, its parameters (\<open>None\<close> is the
  null pointer) and the server; \<open>command_dispatch\<close> and \<open>irc_handle_line\<close> take it as an argument, and
  theory \<open>Commands\<close> supplies the handlers that are modelled.
\<close>

datatype command_result = COMMAND_KEEP_CLIENT | COMMAND_DISCONNECT_CLIENT

type_synonym handler = "string \<Rightarrow> cref \<Rightarrow> string option \<Rightarrow> server \<Rightarrow> command_result \<times> server"

abbreviation COMMAND_BUDGET_BURST :: u32 where "COMMAND_BUDGET_BURST \<equiv> 20"
abbreviation COMMAND_BUDGET_REFILL_PER_SECOND :: u32 where "COMMAND_BUDGET_REFILL_PER_SECOND \<equiv> 4"
abbreviation COMMAND_GLOBAL_BUDGET_BURST :: u32 where "COMMAND_GLOBAL_BUDGET_BURST \<equiv> 200"
abbreviation COMMAND_GLOBAL_BUDGET_REFILL_PER_SECOND :: u32 where
  "COMMAND_GLOBAL_BUDGET_REFILL_PER_SECOND \<equiv> 40"
abbreviation COMMAND_THROTTLE_SNOTICE_SECONDS :: int where "COMMAND_THROTTLE_SNOTICE_SECONDS \<equiv> 5"
abbreviation FLOOD_BUDGET_BURST :: u32 where "FLOOD_BUDGET_BURST \<equiv> 80"
abbreviation FLOOD_BUDGET_REFILL_PER_SECOND :: u32 where "FLOOD_BUDGET_REFILL_PER_SECOND \<equiv> 20"
abbreviation FLOOD_VIOLATION_WINDOW_SECONDS :: int where "FLOOD_VIOLATION_WINDOW_SECONDS \<equiv> 5"
abbreviation FLOOD_VIOLATIONS_BEFORE_DISCONNECT :: u32 where "FLOOD_VIOLATIONS_BEFORE_DISCONNECT \<equiv> 3"

definition command_table :: "(string \<times> u32) list" where
  "command_table =
     [(''ADMIN'', 1), (''AUTHENTICATE'', 0), (''AWAY'', 0), (''CAP'', 0), (''CHANSERV'', 2),
      (''CHATHISTORY'', 5), (''CSDROP'', 3), (''CSINFO'', 3), (''CSSET'', 3), (''DEAF'', 0),
      (''DIE'', 0), (''ELINE'', 0), (''FLASH'', 0), (''GEOBAN'', 0), (''GLOBOPS'', 0),
      (''IDENTIFY'', 5), (''INFO'', 2), (''INVITE'', 0), (''ISON'', 1), (''JOIN'', 0), (''KICK'', 0),
      (''KILL'', 0), (''KLINE'', 0), (''KNOCK'', 0), (''LINKS'', 2), (''LIST'', 5), (''LOCOPS'', 0),
      (''LUSERS'', 1), (''MEMOSERV'', 2), (''MODE'', 0), (''MOTD'', 1), (''MSINFO'', 3),
      (''MSPURGE'', 3), (''MUTE'', 0), (''NAMES'', 3), (''NICK'', 0), (''NICKSERV'', 2),
      (''NOTICE'', 0), (''NSDROP'', 3), (''NSINFO'', 3), (''NSSET'', 3), (''OPER'', 5),
      (''OPERADD'', 0), (''OPERDEL'', 0), (''OPERLIST'', 2), (''OPERSET'', 0), (''PART'', 0),
      (''PASS'', 0), (''PING'', 0), (''PMSTATS'', 0), (''PONG'', 0), (''PRIVMSG'', 0), (''QUIT'', 0),
      (''REHASH'', 0), (''RESTART'', 0), (''RULES'', 1), (''SAJOIN'', 0), (''SAMODE'', 0),
      (''SAPART'', 0), (''SETHOST'', 0), (''SETIDENT'', 0), (''SETNAME'', 0), (''SILENCE'', 1),
      (''SNOTICE'', 0), (''STATS'', 1), (''TAGMSG'', 0), (''TIME'', 1), (''TOPIC'', 0),
      (''UNGEOBAN'', 0), (''USER'', 0), (''USERHOST'', 1), (''USERIP'', 1), (''VERSION'', 1),
      (''WALLOPS'', 0), (''WATCH'', 1), (''WEBIRC'', 0), (''WHO'', 4), (''WHOIS'', 2), (''WHOWAS'', 2),
      (''ZLINE'', 0)]"

subsection \<open>The general flood budget\<close>

definition general_flood_cost :: "string \<Rightarrow> u32" where
  "general_flood_cost command =
     (if strcaseeq command ''QUIT'' \<or> strcaseeq command ''PONG'' then 0
      else if list_ex (strcaseeq command)
        [''PRIVMSG'', ''NOTICE'', ''JOIN'', ''PART'', ''NICK'', ''MODE'', ''TOPIC'', ''KICK'', ''INVITE'', ''KNOCK'']
      then 2 else 1)"

definition send_bounded_command_numeric :: "cref \<Rightarrow> string \<Rightarrow> string \<Rightarrow> string \<Rightarrow> server \<Rightarrow> server" where
  "send_bounded_command_numeric c num command text s =
     (let cmd = (if command = [] then ''*'' else command);
          nick = command_reply_nick (sv_client s c);
          base_length = length ('':'' @ server_name s @ '' '' @ num @ '' '' @ nick @ ''  :'' @ text)
      in if base_length > IRC_LINE_CONTENT_MAX then s
         else sendf c ('':'' @ server_name s @ '' '' @ num @ '' '' @ nick @ '' '' @
                take (IRC_LINE_CONTENT_MAX - base_length) cmd @ '' :'' @ text) s)"

text \<open>The refill of \<open>general_flood_allow\<close>: \<open>tokens\<close> and \<open>updated\<close> after the refill.\<close>

definition flood_refill :: "time_t \<Rightarrow> time_t \<Rightarrow> u32 \<Rightarrow> time_t \<times> u32" where
  "flood_refill now updated toks =
     (if updated = 0 then (now, FLOOD_BUDGET_BURST)
      else if now > updated
      then let refill = (of_int (now - updated) :: u64) * ucast FLOOD_BUDGET_REFILL_PER_SECOND
           in (now, if refill \<ge> ucast (FLOOD_BUDGET_BURST - toks) then FLOOD_BUDGET_BURST else toks + ucast refill)
      else (updated, toks))"

text \<open>Result 1: allowed, -1: refused, 0: disconnect.\<close>

definition general_flood_allow :: "cref \<Rightarrow> string \<Rightarrow> u32 \<Rightarrow> server \<Rightarrow> int \<times> server" where
  "general_flood_allow c command cost s =
     (if cost = 0 \<or> client_mode_has (c_modes (sv_client s c)) (CLIENT_MODE_OPER OR CLIENT_MODE_NETADMIN) then (1, s)
      else let now = sv_clock s;
               (updated, toks) = flood_refill now (c_flood_budget_updated (sv_client s c)) (c_flood_budget_tokens (sv_client s c));
               s1 = upd_client c (\<lambda>cl. cl\<lparr>c_flood_budget_updated := updated, c_flood_budget_tokens := toks\<rparr>) s
           in if toks \<ge> cost
              then (1, upd_client c (\<lambda>cl. cl\<lparr>c_flood_budget_tokens := toks - cost\<rparr>) s1)
              else let window = c_flood_violation_window (sv_client s1 c);
                       s2 = (if window = 0 \<or> now - window \<ge> FLOOD_VIOLATION_WINDOW_SECONDS
                             then upd_client c (\<lambda>cl. cl\<lparr>c_flood_violation_window := now, c_flood_violation_count := 1\<rparr>) s1
                             else upd_client c (\<lambda>cl. cl\<lparr>c_flood_violation_count := c_flood_violation_count cl + 1\<rparr>) s1)
                   in if c_flood_violation_count (sv_client s2 c) \<ge> FLOOD_VIOLATIONS_BEFORE_DISCONNECT
                      then let s3 = snotice_broadcast SNOTICE_FLOOD
                                 (''Client flood disconnected: nick='' @ command_reply_nick (sv_client s2 c) @
                                  '' real_ip='' @ c_real_ip (sv_client s2 c) @ '' command='' @ command) s2;
                               s4 = upd_client c (\<lambda>cl. cl\<lparr>c_quit_reason := ''Excess flood''\<rparr>) s3
                           in (0, sendf c ('':'' @ server_name s4 @ '' ERROR :Excess flood'') s4)
                      else (-1, send_bounded_command_numeric c ''263'' command
                                  ''Flood protection - please slow down'' s2))"

subsection \<open>The budget of expensive commands\<close>

definition refill_weighted_budget :: "time_t \<Rightarrow> time_t \<Rightarrow> u32 \<Rightarrow> u32 \<Rightarrow> u32 \<Rightarrow> time_t \<times> u32" where
  "refill_weighted_budget now updated toks burst refill_per_second =
     (if updated = 0 then (now, burst)
      else if now \<le> updated then (updated, toks)
      else let refill = (of_int (now - updated) :: u64) * ucast refill_per_second
           in (now, if toks \<ge> burst \<or> refill \<ge> ucast (burst - toks) then burst else toks + ucast refill))"

definition refill_budgets :: "cref \<Rightarrow> server \<Rightarrow> server" where
  "refill_budgets c s =
     (let (u, t) = refill_weighted_budget (sv_clock s) (c_command_budget_updated (sv_client s c))
            (c_command_budget_tokens (sv_client s c)) COMMAND_BUDGET_BURST COMMAND_BUDGET_REFILL_PER_SECOND;
          (gu, gt) = refill_weighted_budget (sv_clock s) (sv_command_global_budget_updated s)
            (sv_command_global_budget_tokens s) COMMAND_GLOBAL_BUDGET_BURST COMMAND_GLOBAL_BUDGET_REFILL_PER_SECOND
      in (upd_client c (\<lambda>cl. cl\<lparr>c_command_budget_updated := u, c_command_budget_tokens := t\<rparr>) s)
           \<lparr>sv_command_global_budget_updated := gu, sv_command_global_budget_tokens := gt\<rparr>)"

definition command_expensive_allow :: "cref \<Rightarrow> string \<Rightarrow> u32 \<Rightarrow> server \<Rightarrow> bool \<times> server" where
  "command_expensive_allow c command cost s =
     (if cost = 0 \<or> client_mode_has (c_modes (sv_client s c)) (CLIENT_MODE_OPER OR CLIENT_MODE_NETADMIN)
      then (True, s)
      else let now = sv_clock s;
               s1 = refill_budgets c s;
               who = '' nick='' @ command_reply_nick (sv_client s1 c) @ '' real_ip='' @ c_real_ip (sv_client s1 c) @
                     '' command='' @ command
           in if c_command_budget_tokens (sv_client s1 c) < cost
              then let s2 = sendf c (numeric s1 ''263'' (command_reply_nick (sv_client s1 c))
                              (command @ '' :Please wait before repeating this command'')) s1;
                       last = c_command_throttle_notice_time (sv_client s2 c)
                   in (False,
                       if last = 0 \<or> now - last \<ge> COMMAND_THROTTLE_SNOTICE_SECONDS
                       then upd_client c (\<lambda>cl. cl\<lparr>c_command_throttle_notice_time := now\<rparr>)
                              (snotice_broadcast SNOTICE_FLOOD (''Expensive command throttled:'' @ who) s2)
                       else s2)
              else if sv_command_global_budget_tokens s1 < cost
              then let s2 = sendf c (numeric s1 ''263'' (command_reply_nick (sv_client s1 c))
                              (command @ '' :Server busy - please retry this expensive command shortly'')) s1;
                       last = sv_command_global_throttle_notice_time s2
                   in (False,
                       if last = 0 \<or> now - last \<ge> COMMAND_THROTTLE_SNOTICE_SECONDS
                       then (snotice_broadcast SNOTICE_FLOOD (''Global expensive-command budget exhausted:'' @ who) s2)
                              \<lparr>sv_command_global_throttle_notice_time := now\<rparr>
                       else s2)
              else (True,
                    (upd_client c (\<lambda>cl. cl\<lparr>c_command_budget_tokens := c_command_budget_tokens cl - cost\<rparr>) s1)
                      \<lparr>sv_command_global_budget_tokens := sv_command_global_budget_tokens s1 - cost\<rparr>))"

subsection \<open>Dispatch\<close>

definition channel_mode_wire_fits :: "client \<Rightarrow> string option \<Rightarrow> bool" where
  "channel_mode_wire_fits cl params =
     (case params of
        None \<Rightarrow> True
      | Some p \<Rightarrow>
          if \<not> starts_with ''#&'' (dropWhile (\<lambda>x. x = CHR '' '') p) then True
          else 1 + length (c_nick cl) + 1 + length (c_user cl) + 1 + length (c_display_host cl) + 6 + length p \<le> 510)"

definition command_dispatch :: "handler \<Rightarrow> cref \<Rightarrow> string \<Rightarrow> string option \<Rightarrow> server \<Rightarrow> command_result \<times> server" where
  "command_dispatch handler c command params s0 =
     (let s = (if \<not> c_ping_pending (sv_client s0 c)
               then upd_client c (\<lambda>cl. cl\<lparr>c_last_liveness_activity := sv_clock s0\<rparr>) s0 else s0);
          cl = sv_client s c
      in if cf_nospoof_enabled (sv_config s) \<and> c_nospoof_started cl \<and> \<not> c_nospoof_verified cl \<and>
            sv_clock s \<ge> c_nospoof_deadline cl
         then let s1 = snotice_broadcast SNOTICE_SECURITY
                    (''No-spoof timeout: '' @ command_reply_nick cl @ '' [real_ip='' @ c_real_ip cl @ '']'') s
              in (COMMAND_DISCONNECT_CLIENT, sendf c ('':'' @ server_name s1 @ '' ERROR :No-spoof PING timeout'') s1)
         else let (flood, s1) = general_flood_allow c command (general_flood_cost command) s
              in if flood = 0 then (COMMAND_DISCONNECT_CLIENT, s1)
                 else if flood < 0 then (COMMAND_KEEP_CLIENT, s1)
                 else if strcaseeq command ''MODE'' \<and> \<not> channel_mode_wire_fits (sv_client s1 c) params
                 then (COMMAND_KEEP_CLIENT, sendf c (numeric s1 ''417'' (command_reply_nick (sv_client s1 c))
                         ''MODE :MODE change would exceed the IRC line limit; split the change'') s1)
                 else case find (\<lambda>e. strcaseeq command (fst e)) command_table of
                        Some (name, cost) \<Rightarrow>
                          (let (ok, s2) = command_expensive_allow c command cost s1
                           in if \<not> ok then (COMMAND_KEEP_CLIENT, s2) else handler name c params s2)
                      | None \<Rightarrow> (COMMAND_KEEP_CLIENT, send_bounded_command_numeric c ''421'' command ''Unknown command'' s1))"

text \<open>
  \<open>irc_handle_line\<close>: the tag section, the refusal of a prefix, the command word and the rest.  The
  result says whether the client is to be disconnected.  The case in which \<open>ircv3_begin_command\<close>
  has no result does not occur: lemma \<open>ircv3_begin_returns\<close>.
\<close>

definition split_tags :: "string \<Rightarrow> (string option \<times> string) option" where
  "split_tags line =
     (if starts_with ''@'' line
      then if CHR '' '' \<notin> set line then None
           else Some (Some (drop 1 (takeWhile (\<lambda>x. x \<noteq> CHR '' '') line)),
                      dropWhile (\<lambda>x. x = CHR '' '') (dropWhile (\<lambda>x. x \<noteq> CHR '' '') line))
      else Some (None, line))"

definition irc_handle_line :: "handler \<Rightarrow> cref \<Rightarrow> string \<Rightarrow> server \<Rightarrow> bool \<times> server" where
  "irc_handle_line handler c line s =
     (case split_tags line of
        None \<Rightarrow> (False, s)
      | Some (tags, line) \<Rightarrow>
          if starts_with '':'' line
          then let s1 = snotice_broadcast SNOTICE_SECURITY
                     (''Protocol violation: client-supplied prefix from '' @ command_reply_nick (sv_client s c) @
                      '' [real_ip='' @ c_real_ip (sv_client s c) @ '']'') s
               in (True, sendf c ('':'' @ server_name s1 @ '' ERROR :Client-supplied prefixes are not permitted'') s1)
          else case strtok '' '' line of
                 None \<Rightarrow> (False, s)
               | Some (command, rest) \<Rightarrow>
                   (case ircv3_begin_command c tags s of
                      None \<Rightarrow> (False, s)
                    | Some s1 \<Rightarrow>
                        let (result, s2) = command_dispatch handler c command (tok_rest rest) s1
                        in (result = COMMAND_DISCONNECT_CLIENT, ircv3_end_command c s2)))"

subsection \<open>Refilling in ideal arithmetic\<close>

text \<open>The refill never credits more than the elapsed seconds are worth, whatever overflows.\<close>

lemma unat_ucast_u32_u64: "unat (ucast (x :: u32) :: u64) = unat x"
proof -
  have "unat x < 2 ^ 64" using unsigned_less [of x, where ?'a = nat] by simp
  then show ?thesis by (simp add: unsigned_ucast_eq take_bit_nat_eq_self)
qed

lemma u64_refill:
  assumes "0 \<le> e"
  shows "unat ((of_int e :: u64) * ucast (r :: u32)) = unat r * nat e mod 2 ^ 64"
proof -
  have e: "(of_int e :: u64) = of_nat (nat e)" using assms by simp
  have "unat ((of_nat (nat e) :: u64) * ucast r) = nat e mod 2 ^ 64 * unat r mod 2 ^ 64"
    by (simp add: unat_word_ariths unat_of_nat unat_ucast_u32_u64)
  also have "\<dots> = unat r * nat e mod 2 ^ 64" by (simp only: mod_mult_left_eq) (simp only: mult.commute)
  finally show ?thesis unfolding e .
qed

lemma refill_weighted_cases:
  assumes "toks \<le> burst"
  shows "fst (refill_weighted_budget now updated toks burst rate) = (if updated = 0 \<or> now > updated then now else updated)"
    and "unat (snd (refill_weighted_budget now updated toks burst rate)) =
      (if updated = 0 then unat burst else if now \<le> updated then unat toks
       else min (unat burst) (unat toks + unat rate * nat (now - updated) mod 2 ^ 64))"
proof -
  show "fst (refill_weighted_budget now updated toks burst rate) = (if updated = 0 \<or> now > updated then now else updated)"
    by (auto simp: refill_weighted_budget_def Let_def)
  let ?e = "now - updated"
  let ?r = "(of_int ?e :: u64) * ucast rate"
  have tb: "unat toks \<le> unat burst" and diff: "unat (burst - toks) = unat burst - unat toks"
    using assms by (simp_all add: word_le_nat_alt unat_sub)
  have b32: "unat burst < 2 ^ 32" using unsigned_less [of burst] by simp
  have big: "?r \<ge> ucast (burst - toks) \<longleftrightarrow> unat burst - unat toks \<le> unat ?r"
    by (simp only: word_le_nat_alt unat_ucast_u32_u64 diff)
  have "unat (toks + ucast ?r) = unat toks + unat ?r" if "unat ?r < unat burst - unat toks"
  proof -
    have "unat (ucast ?r :: u32) = unat ?r" using that b32 by (simp add: unsigned_ucast_eq take_bit_nat_eq_self)
    then show ?thesis using that b32 by (simp add: unat_word_ariths)
  qed
  then show "unat (snd (refill_weighted_budget now updated toks burst rate)) =
      (if updated = 0 then unat burst else if now \<le> updated then unat toks
       else min (unat burst) (unat toks + unat rate * nat (now - updated) mod 2 ^ 64))"
    using tb big u64_refill [of ?e rate] assms
    by (auto simp: refill_weighted_budget_def Let_def not_le min_def)
qed

lemma flood_refill_weighted:
  "toks \<le> FLOOD_BUDGET_BURST \<Longrightarrow>
     flood_refill now updated toks =
       refill_weighted_budget now updated toks FLOOD_BUDGET_BURST FLOOD_BUDGET_REFILL_PER_SECOND"
  by (auto simp: flood_refill_def refill_weighted_budget_def Let_def)

lemma refill_weighted_le:
  assumes "toks \<le> burst" "updated \<noteq> 0"
  shows "unat (snd (refill_weighted_budget now updated toks burst rate)) \<le> unat toks + unat rate * nat (now - updated)"
    and "snd (refill_weighted_budget now updated toks burst rate) \<le> burst"
proof -
  have "unat rate * nat (now - updated) mod 2 ^ 64 \<le> unat rate * nat (now - updated)" by simp
  then show "unat (snd (refill_weighted_budget now updated toks burst rate)) \<le> unat toks + unat rate * nat (now - updated)"
    using refill_weighted_cases(2) [OF assms(1), of now updated rate] assms(2) by (auto simp: min_def)
  show "snd (refill_weighted_budget now updated toks burst rate) \<le> burst"
    using refill_weighted_cases(2) [OF assms(1), of now updated rate] assms
    by (auto simp: word_le_nat_alt min_def split: if_splits)
qed

lemma bounded_numeric_io [simp, intro!]: "io_only s (send_bounded_command_numeric c n cmd t s)"
  by (simp add: send_bounded_command_numeric_def Let_def)

lemmas bounded_numeric_frame [simp, frame_simps] = io_fields [OF bounded_numeric_io]

subsection \<open>The budget of expensive commands\<close>

definition budget_exempt :: "client \<Rightarrow> bool" where
  "budget_exempt cl \<longleftrightarrow> client_mode_has (c_modes cl) (CLIENT_MODE_OPER OR CLIENT_MODE_NETADMIN)"

lemma upd_client_budget_fields [simp, frame_simps]:
  "sv_command_global_budget_updated (upd_client c f s) = sv_command_global_budget_updated s"
  "sv_command_global_budget_tokens (upd_client c f s) = sv_command_global_budget_tokens s"
  "sv_command_global_throttle_notice_time (upd_client c f s) = sv_command_global_throttle_notice_time s"
  by (simp_all add: upd_client_def)

text \<open>What one request does to the two budgets.\<close>

lemma expensive_step:
  assumes "cost \<noteq> 0" "\<not> budget_exempt (sv_client s c)"
    and r: "command_expensive_allow c cmd cost s = (ok, s')"
  defines "g \<equiv> refill_weighted_budget (sv_clock s) (sv_command_global_budget_updated s)
      (sv_command_global_budget_tokens s) COMMAND_GLOBAL_BUDGET_BURST COMMAND_GLOBAL_BUDGET_REFILL_PER_SECOND"
    and "p \<equiv> refill_weighted_budget (sv_clock s) (c_command_budget_updated (sv_client s c))
      (c_command_budget_tokens (sv_client s c)) COMMAND_BUDGET_BURST COMMAND_BUDGET_REFILL_PER_SECOND"
  shows "ok \<longleftrightarrow> cost \<le> snd p \<and> cost \<le> snd g"
    and "sv_command_global_budget_updated s' = fst g \<and>
      sv_command_global_budget_tokens s' = (if ok then snd g - cost else snd g)"
    and "c_command_budget_updated (sv_client s' c) = fst p \<and>
      c_command_budget_tokens (sv_client s' c) = (if ok then snd p - cost else snd p)"
    and "\<forall>d. c_modes (sv_client s' d) = c_modes (sv_client s d)"
  using r assms(1,2)
  by (auto simp: command_expensive_allow_def refill_budgets_def Let_def case_prod_beta budget_exempt_def
      g_def p_def not_less split: if_splits)

lemma expensive_other:
  assumes "command_expensive_allow d cmd cost s = (ok, s')" "d \<noteq> c"
  shows "c_command_budget_updated (sv_client s' c) = c_command_budget_updated (sv_client s c)"
    and "c_command_budget_tokens (sv_client s' c) = c_command_budget_tokens (sv_client s c)"
  using assms by (auto simp: command_expensive_allow_def refill_budgets_def Let_def case_prod_beta split: if_splits)

text \<open>A sequence of requests by any clients at given times, and the total cost that was admitted for those that satisfy \<open>charged\<close>.\<close>

record request =
  rq_client :: cref
  rq_command :: string
  rq_cost :: u32
  rq_time :: time_t

definition serve :: "request \<Rightarrow> server \<Rightarrow> bool \<times> server" where
  "serve r s = command_expensive_allow (rq_client r) (rq_command r) (rq_cost r) (s\<lparr>sv_clock := rq_time r\<rparr>)"

fun admitted_cost :: "(request \<Rightarrow> bool) \<Rightarrow> request list \<Rightarrow> server \<Rightarrow> nat" where
  "admitted_cost charged [] s = 0"
| "admitted_cost charged (r # rs) s =
     (let (ok, s1) = serve r s in (if ok \<and> charged r then unat (rq_cost r) else 0) + admitted_cost charged rs s1)"

definition ordinary :: "server \<Rightarrow> request \<Rightarrow> bool" where
  "ordinary s r \<longleftrightarrow> \<not> budget_exempt (sv_client s (rq_client r))"

lemma serve_free: "rq_cost r = 0 \<Longrightarrow> serve r s = (True, s\<lparr>sv_clock := rq_time r\<rparr>)"
  by (simp add: serve_def command_expensive_allow_def)

lemma serve_ordinary:
  assumes "serve r s = (ok, s1)" "ordinary s r"
  shows "ordinary s1 r' = ordinary s r'"
proof (cases "rq_cost r = 0")
  case True
  then show ?thesis using assms(1) by (auto simp: serve_free ordinary_def)
next
  case False
  have ex: "\<not> budget_exempt (sv_client (s\<lparr>sv_clock := rq_time r\<rparr>) (rq_client r))" using assms(2) by (simp add: ordinary_def)
  from expensive_step(4) [OF False ex assms(1) [unfolded serve_def]] show ?thesis
    by (simp add: ordinary_def budget_exempt_def)
qed

text \<open>
  A token bucket: \<open>level\<close> reads the time of the last refill and the tokens of a server, \<open>charged\<close> says which requests are paid from it.
  It is interpreted below on the budget of the server and on the budget of each client.
\<close>

locale token_bucket =
  fixes level :: "server \<Rightarrow> time_t \<times> u32" and burst rate :: u32 and charged :: "request \<Rightarrow> bool"
  assumes clock_free: "level (s\<lparr>sv_clock := t\<rparr>) = level s"
    and paid: "charged r \<Longrightarrow> rq_cost r \<noteq> 0 \<Longrightarrow> ordinary s r \<Longrightarrow> serve r s = (ok, s1) \<Longrightarrow>
      refill_weighted_budget (rq_time r) (fst (level s)) (snd (level s)) burst rate = (u, toks) \<Longrightarrow>
      (ok \<longrightarrow> rq_cost r \<le> toks) \<and> level s1 = (u, if ok then toks - rq_cost r else toks)"
    and unpaid: "\<not> charged r \<Longrightarrow> serve r s = (ok, s1) \<Longrightarrow> level s1 = level s"
begin

definition credit :: "time_t \<Rightarrow> server \<Rightarrow> nat" where
  "credit T s = unat (snd (level s)) + unat rate * nat (T - fst (level s))"

lemma refill_credit:
  assumes "refill_weighted_budget t u toks burst rate = (u', toks')" "toks \<le> burst" "0 < t" "t \<le> T"
  shows "u' \<noteq> 0" "toks' \<le> burst" "u \<noteq> 0 \<Longrightarrow> unat toks' + unat rate * nat (T - u') \<le> unat toks + unat rate * nat (T - u)"
    and "t0 \<le> t \<Longrightarrow> unat toks' + unat rate * nat (T - u') \<le> unat burst + unat rate * nat (T - t0)"
proof -
  have u': "u' = (if u = 0 \<or> t > u then t else u)"
    using refill_weighted_cases(1) [OF assms(2), of t u rate] unfolding assms(1) by simp
  then show "u' \<noteq> 0" using assms(3) by (auto split: if_splits)
  have min: "unat toks' = (if u = 0 then unat burst else if t \<le> u then unat toks
       else min (unat burst) (unat toks + unat rate * nat (t - u) mod 2 ^ 64))"
    using refill_weighted_cases(2) [OF assms(2), of t u rate] unfolding assms(1) by simp
  then show b: "toks' \<le> burst" using assms(2) by (auto simp: word_le_nat_alt split: if_splits)
  show "unat toks' + unat rate * nat (T - u') \<le> unat toks + unat rate * nat (T - u)" if "u \<noteq> 0"
  proof (cases "t > u")
    case True
    have "unat toks' \<le> unat toks + unat rate * nat (t - u)"
      using refill_weighted_le(1) [OF assms(2) that, of t rate] unfolding assms(1) by simp
    moreover have "nat (T - u) = nat (t - u) + nat (T - t)" using True assms(4) by simp
    ultimately show ?thesis using u' True by (simp add: distrib_left)
  next
    case False
    with that min u' show ?thesis by simp
  qed
  show "unat toks' + unat rate * nat (T - u') \<le> unat burst + unat rate * nat (T - t0)" if "t0 \<le> t"
  proof -
    have "nat (T - u') \<le> nat (T - t0)" using u' that by (auto split: if_splits)
    then show ?thesis using b by (simp add: word_le_nat_alt add_mono)
  qed
qed

text \<open>One step: what is paid is taken from the credit.\<close>

lemma serve_credit:
  assumes "serve r s = (ok, s1)" "ordinary s r" "snd (level s) \<le> burst" "0 < rq_time r" "rq_time r \<le> T"
  defines "cost \<equiv> if ok \<and> charged r then unat (rq_cost r) else 0"
  shows "snd (level s1) \<le> burst" "fst (level s) \<noteq> 0 \<Longrightarrow> fst (level s1) \<noteq> 0"
    and "fst (level s) \<noteq> 0 \<Longrightarrow> cost + credit T s1 \<le> credit T s"
    and "level s1 = level s \<and> cost = 0 \<or> fst (level s1) \<noteq> 0 \<and> (\<forall>t0\<le>rq_time r. cost + credit T s1 \<le> unat burst + unat rate * nat (T - t0))"
proof -
  have "snd (level s1) \<le> burst \<and> (fst (level s) \<noteq> 0 \<longrightarrow> fst (level s1) \<noteq> 0 \<and> cost + credit T s1 \<le> credit T s) \<and>
    (level s1 = level s \<and> cost = 0 \<or> fst (level s1) \<noteq> 0 \<and> (\<forall>t0\<le>rq_time r. cost + credit T s1 \<le> unat burst + unat rate * nat (T - t0)))"
  proof (cases "charged r \<and> rq_cost r \<noteq> 0")
    case True
    obtain u toks where g: "refill_weighted_budget (rq_time r) (fst (level s)) (snd (level s)) burst rate = (u, toks)" by fastforce
    note p = paid [OF conjunct1 [OF True] conjunct2 [OF True] assms(2,1) g]
    note rc = refill_credit [OF g assms(3-5)]
    have left: "unat (snd (level s1)) + cost = unat toks" "fst (level s1) = u"
      using p True by (auto simp: cost_def unat_sub word_le_nat_alt)
    then have "snd (level s1) \<le> burst" using rc(2) by (simp add: word_le_nat_alt)
    moreover have c1: "cost + credit T s1 = unat toks + unat rate * nat (T - u)" using left by (simp add: credit_def)
    moreover have "cost + credit T s1 \<le> credit T s" if "fst (level s) \<noteq> 0" unfolding c1 using rc(3) [OF that] by (simp add: credit_def)
    moreover have "\<forall>t0\<le>rq_time r. cost + credit T s1 \<le> unat burst + unat rate * nat (T - t0)" unfolding c1 using rc(4) by blast
    moreover have "fst (level s1) \<noteq> 0" using rc(1) left(2) by simp
    ultimately show ?thesis by blast
  next
    case False
    then have "level s1 = level s" using unpaid [OF _ assms(1)] assms(1) clock_free by (auto simp: serve_free)
    moreover have "cost = 0" using False by (auto simp: cost_def)
    ultimately show ?thesis using assms(3) by (simp add: credit_def)
  qed
  then show "snd (level s1) \<le> burst" "fst (level s) \<noteq> 0 \<Longrightarrow> fst (level s1) \<noteq> 0"
    "fst (level s) \<noteq> 0 \<Longrightarrow> cost + credit T s1 \<le> credit T s"
    "level s1 = level s \<and> cost = 0 \<or> fst (level s1) \<noteq> 0 \<and> (\<forall>t0\<le>rq_time r. cost + credit T s1 \<le> unat burst + unat rate * nat (T - t0))"
    by blast+
qed

lemma admitted_within_credit:
  assumes "fst (level s) \<noteq> 0" "snd (level s) \<le> burst" "\<forall>r\<in>set rs. 0 < rq_time r \<and> rq_time r \<le> T \<and> ordinary s r"
  shows "admitted_cost charged rs s \<le> credit T s"
  using assms
proof (induction rs arbitrary: s)
  case (Cons r rs)
  obtain ok s1 where r: "serve r s = (ok, s1)" by fastforce
  note step = serve_credit [OF r _ Cons.prems(2), of T]
  have "admitted_cost charged rs s1 \<le> credit T s1"
    using Cons.prems step serve_ordinary [OF r] by (intro Cons.IH) auto
  then show ?case using step(3) Cons.prems(1,3) r by simp
qed simp

text \<open>In any period the cost admitted is at most one full bucket and what is refilled during the period.\<close>

lemma admitted_in_period:
  assumes "snd (level s) \<le> burst" "\<forall>r\<in>set rs. 0 < rq_time r \<and> t0 \<le> rq_time r \<and> rq_time r \<le> T \<and> ordinary s r"
  shows "admitted_cost charged rs s \<le> unat burst + unat rate * nat (T - t0)"
  using assms
proof (induction rs arbitrary: s)
  case (Cons r rs)
  obtain ok s1 where r: "serve r s = (ok, s1)" by fastforce
  have rs: "\<forall>r\<in>set rs. 0 < rq_time r \<and> t0 \<le> rq_time r \<and> rq_time r \<le> T \<and> ordinary s1 r"
    using Cons.prems(2) serve_ordinary [OF r] by simp
  note step = serve_credit [OF r _ Cons.prems(1), of T]
  have b: "snd (level s1) \<le> burst" using step(1) Cons.prems(2) by simp
  have "level s1 = level s \<and> (ok \<and> charged r \<longrightarrow> unat (rq_cost r) = 0) \<or> fst (level s1) \<noteq> 0 \<and>
      (if ok \<and> charged r then unat (rq_cost r) else 0) + credit T s1 \<le> unat burst + unat rate * nat (T - t0)"
    using step(4) Cons.prems(2) by (auto split: if_splits)
  then show ?case
  proof
    assume "level s1 = level s \<and> (ok \<and> charged r \<longrightarrow> unat (rq_cost r) = 0)"
    then show ?thesis using Cons.IH [OF b rs] r by simp
  next
    assume *: "fst (level s1) \<noteq> 0 \<and>
      (if ok \<and> charged r then unat (rq_cost r) else 0) + credit T s1 \<le> unat burst + unat rate * nat (T - t0)"
    then have "admitted_cost charged rs s1 \<le> credit T s1" using rs b by (intro admitted_within_credit) auto
    then show ?thesis using * r by simp
  qed
qed simp

end

abbreviation client_level :: "cref \<Rightarrow> server \<Rightarrow> time_t \<times> u32" where
  "client_level c s \<equiv> (c_command_budget_updated (sv_client s c), c_command_budget_tokens (sv_client s c))"

abbreviation server_level :: "server \<Rightarrow> time_t \<times> u32" where
  "server_level s \<equiv> (sv_command_global_budget_updated s, sv_command_global_budget_tokens s)"

interpretation server_bucket: token_bucket server_level COMMAND_GLOBAL_BUDGET_BURST COMMAND_GLOBAL_BUDGET_REFILL_PER_SECOND "\<lambda>_. True"
proof
  fix r s ok s1 u toks
  assume "rq_cost r \<noteq> 0" "ordinary s r" "serve r s = (ok, s1)"
    and g: "refill_weighted_budget (rq_time r) (fst (server_level s)) (snd (server_level s))
      COMMAND_GLOBAL_BUDGET_BURST COMMAND_GLOBAL_BUDGET_REFILL_PER_SECOND = (u, toks)"
  then show "(ok \<longrightarrow> rq_cost r \<le> toks) \<and> server_level s1 = (u, if ok then toks - rq_cost r else toks)"
    using expensive_step(1,2) [of "rq_cost r" "s\<lparr>sv_clock := rq_time r\<rparr>" "rq_client r" "rq_command r" ok s1]
    by (auto simp: serve_def ordinary_def)
qed simp_all

interpretation client_bucket: token_bucket "client_level c" COMMAND_BUDGET_BURST COMMAND_BUDGET_REFILL_PER_SECOND "\<lambda>r. rq_client r = c" for c
proof
  fix r s ok s1 u toks
  assume "rq_client r = c" "rq_cost r \<noteq> 0" "ordinary s r" "serve r s = (ok, s1)"
    and g: "refill_weighted_budget (rq_time r) (fst (client_level c s)) (snd (client_level c s))
      COMMAND_BUDGET_BURST COMMAND_BUDGET_REFILL_PER_SECOND = (u, toks)"
  then show "(ok \<longrightarrow> rq_cost r \<le> toks) \<and> client_level c s1 = (u, if ok then toks - rq_cost r else toks)"
    using expensive_step(1,3) [of "rq_cost r" "s\<lparr>sv_clock := rq_time r\<rparr>" "rq_client r" "rq_command r" ok s1]
    by (auto simp: serve_def ordinary_def)
next
  fix r s ok s1
  assume "rq_client r \<noteq> c" "serve r s = (ok, s1)"
  then show "client_level c s1 = client_level c s"
    using expensive_other [of "rq_client r" "rq_command r" "rq_cost r" "s\<lparr>sv_clock := rq_time r\<rparr>" ok s1 c] by (simp add: serve_def)
qed simp

text \<open>The tokens a client has at a given time, in ideal arithmetic.\<close>

definition flood_tokens :: "time_t \<Rightarrow> client \<Rightarrow> nat" where
  "flood_tokens now cl =
     (if c_flood_budget_updated cl = 0 then 80
      else min 80 (unat (c_flood_budget_tokens cl) + 20 * nat (now - c_flood_budget_updated cl)))"

lemma flood_refill_ideal:
  assumes "c_flood_budget_tokens cl \<le> FLOOD_BUDGET_BURST" "now - c_flood_budget_updated cl < 2 ^ 58"
  shows "unat (snd (flood_refill now (c_flood_budget_updated cl) (c_flood_budget_tokens cl))) = flood_tokens now cl"
proof -
  have "20 * nat (now - c_flood_budget_updated cl) < 2 ^ 64"
    using assms(2) by (simp add: nat_less_iff)
  then show ?thesis
    using assms(1)
    by (auto simp: flood_refill_weighted refill_weighted_cases(2) flood_tokens_def min_def word_le_nat_alt)
qed

subsection \<open>Handlers that respect the server\<close>

lemma bounded_numeric_keeps [keeps_intros]:
  "keeps c s t \<Longrightarrow> keeps c s (send_bounded_command_numeric d n cmd txt t)"
  by (rule keeps_io [OF _ bounded_numeric_io])

lemma keeps_case_prod [keeps_intros]: "keeps c s (f (fst p) (snd p)) \<Longrightarrow> keeps c s (case p of (a, b) \<Rightarrow> f a b)"
  by (simp add: case_prod_beta)

lemma flood_allow_keeps: "keeps c s (snd (general_flood_allow c cmd cost s))"
  unfolding general_flood_allow_def Let_def
  by (auto simp: case_prod_beta plain_update_def intro!: keeps_intros keeps_upd_client)

lemma expensive_allow_keeps: "keeps c s (snd (command_expensive_allow c cmd cost s))"
  unfolding command_expensive_allow_def refill_budgets_def Let_def
  by (auto simp: case_prod_beta plain_update_def intro!: keeps_intros keeps_upd_client)

lemma begin_command_keeps:
  obtains s' where "ircv3_begin_command c tags s = Some s'" "keeps c s s'"
proof -
  have "\<exists>s'. ircv3_begin_command c tags s = Some s' \<and> keeps c s s'"
  proof (cases tags)
    case (Some t)
    obtain used where "client_tags (c_capabilities (sv_client s c) AND CLIENT_CAP_MESSAGE_TAGS \<noteq> 0)
        (take IRCV3_TAG_TOKEN_MAX (tokens '';'' t)) = Some used"
      using client_tags_returns by (metis length_take min.cobounded2)
    then show ?thesis
      unfolding ircv3_begin_command_def Let_def Some
      by (auto simp: plain_update_def intro!: keeps_intros keeps_upd_client)
  qed (auto simp: ircv3_begin_command_def plain_update_def intro!: keeps_upd_client)
  then show thesis using that by blast
qed

lemma end_command_keeps [keeps_intros]: "keeps c s t \<Longrightarrow> keeps c s (ircv3_end_command d t)"
  unfolding ircv3_end_command_def
  by (auto simp: case_prod_beta Let_def plain_update_def intro!: keeps_intros keeps_upd_client)

text \<open>
  The contract of a command handler: it keeps the server well formed and does not remove the client
  that issued the command, which is left to the caller.
\<close>

locale command_handlers =
  fixes handler :: handler
  assumes handler_keeps: "keeps c s (snd (handler name c params s))"
begin

lemma dispatch_keeps: "keeps c s (snd (command_dispatch handler c command params s))"
proof -
  define t where "t = (if \<not> c_ping_pending (sv_client s c)
    then upd_client c (\<lambda>cl. cl\<lparr>c_last_liveness_activity := sv_clock s\<rparr>) s else s)"
  have t: "keeps c s t" unfolding t_def by (auto simp: plain_update_def intro!: keeps_upd_client)
  note flood = keeps_trans [OF t flood_allow_keeps]
  note costly = keeps_trans [OF flood expensive_allow_keeps]
  note handled = keeps_trans [OF costly handler_keeps]
  show ?thesis
    unfolding command_dispatch_def Let_def t_def [symmetric]
    by (auto simp: case_prod_beta simp del: command_table_def
        intro!: keeps_sends(1,2) bounded_numeric_keeps t flood costly handled split: option.split)
qed

lemma handle_line_keeps: "keeps c s (snd (irc_handle_line handler c line s))"
proof -
  have "keeps c s (ircv3_end_command c (snd (command_dispatch handler c cmd p s1)))"
    if "ircv3_begin_command c tags s = Some s1" for tags s1 cmd p
    using begin_command_keeps [of c tags s] that keeps_trans [OF _ dispatch_keeps]
    by (intro end_command_keeps) (metis option.inject)
  then show ?thesis
    unfolding irc_handle_line_def Let_def
    by (auto simp: case_prod_beta intro!: keeps_sends split: option.split)
qed

end

subsection \<open>Properties\<close>

text \<open>
  C36: expensive commands are rate limited, for each client and for the whole server.  However the requests of ordinary clients are interleaved between two times, and
  whatever the machine words that count them go through, the total cost admitted for one client in that period is at most its bucket of 20 plus 4 for every second, and the total cost admitted for
  all clients is at most the bucket of 200 plus 40 for every second.  A request is admitted exactly when the refilled buckets of its client and of the server both cover its cost.
\<close>

theorem expensive_commands_rate_limited:
  assumes "c_command_budget_tokens (sv_client s c) \<le> COMMAND_BUDGET_BURST" "sv_command_global_budget_tokens s \<le> COMMAND_GLOBAL_BUDGET_BURST"
    and "\<forall>r\<in>set rs. 0 < rq_time r \<and> start \<le> rq_time r \<and> rq_time r \<le> stop \<and> ordinary s r"
  shows "admitted_cost (\<lambda>r. rq_client r = c) rs s \<le> 20 + 4 * nat (stop - start) \<and>
    admitted_cost (\<lambda>_. True) rs s \<le> 200 + 40 * nat (stop - start) \<and>
    (\<forall>r\<in>set rs. rq_cost r \<noteq> 0 \<longrightarrow>
       (fst (serve r s) \<longleftrightarrow>
          rq_cost r \<le> snd (refill_weighted_budget (rq_time r) (c_command_budget_updated (sv_client s (rq_client r)))
            (c_command_budget_tokens (sv_client s (rq_client r))) COMMAND_BUDGET_BURST COMMAND_BUDGET_REFILL_PER_SECOND) \<and>
          rq_cost r \<le> snd (refill_weighted_budget (rq_time r) (sv_command_global_budget_updated s)
            (sv_command_global_budget_tokens s) COMMAND_GLOBAL_BUDGET_BURST COMMAND_GLOBAL_BUDGET_REFILL_PER_SECOND)))"
proof (intro conjI ballI impI)
  show "admitted_cost (\<lambda>r. rq_client r = c) rs s \<le> 20 + 4 * nat (stop - start)"
    using client_bucket.admitted_in_period [of s c rs start stop] assms by simp
  show "admitted_cost (\<lambda>_. True) rs s \<le> 200 + 40 * nat (stop - start)"
    using server_bucket.admitted_in_period [of s rs start stop] assms by simp
  fix r assume "r \<in> set rs" "rq_cost r \<noteq> 0"
  moreover obtain ok s1 where "command_expensive_allow (rq_client r) (rq_command r) (rq_cost r) (s\<lparr>sv_clock := rq_time r\<rparr>) = (ok, s1)"
    by fastforce
  ultimately show "fst (serve r s) \<longleftrightarrow>
      rq_cost r \<le> snd (refill_weighted_budget (rq_time r) (c_command_budget_updated (sv_client s (rq_client r)))
        (c_command_budget_tokens (sv_client s (rq_client r))) COMMAND_BUDGET_BURST COMMAND_BUDGET_REFILL_PER_SECOND) \<and>
      rq_cost r \<le> snd (refill_weighted_budget (rq_time r) (sv_command_global_budget_updated s)
        (sv_command_global_budget_tokens s) COMMAND_GLOBAL_BUDGET_BURST COMMAND_GLOBAL_BUDGET_REFILL_PER_SECOND)"
    using expensive_step(1) [of "rq_cost r" "s\<lparr>sv_clock := rq_time r\<rparr>" "rq_client r"] assms(3) by (auto simp: serve_def ordinary_def)
qed

theorem expensive_commands_rate_limited_witness:
  "admitted_cost (\<lambda>r. rq_client r = 0) [\<lparr>rq_client = 0, rq_command = ''LIST'', rq_cost = 5, rq_time = 1000\<rparr>,
      \<lparr>rq_client = 1, rq_command = ''WHO'', rq_cost = 4, rq_time = 1001\<rparr>] example_room \<le> 24"
  using expensive_commands_rate_limited
    [of example_room 0 "[\<lparr>rq_client = 0, rq_command = ''LIST'', rq_cost = 5, rq_time = 1000\<rparr>,
          \<lparr>rq_client = 1, rq_command = ''WHO'', rq_cost = 4, rq_time = 1001\<rparr>]" 1000 1001]
  by (simp add: ordinary_def budget_exempt_def client_mode_has_def example_client_def client_zero_def example_room_def server_blank_def)

text \<open>
  flood control gives a client three strikes.  For a client without operator modes whose budget is
  within its bound, a command is admitted exactly when the tokens, refilled with 20 per second up to 80,
  cover its cost, and then exactly the cost is deducted; the client is disconnected exactly at the third
  refusal of a violation window of five seconds; the invariant of the server and of the budget is kept.
\<close>

theorem flood_three_strikes:
  assumes wf: "server_wf s" and ordinary: "\<not> budget_exempt (sv_client s c)" and cost: "cost \<noteq> 0"
    and tokens: "c_flood_budget_tokens (sv_client s c) \<le> FLOOD_BUDGET_BURST"
    and strikes: "c_flood_violation_count (sv_client s c) \<le> 2"
    and clock: "sv_clock s - c_flood_budget_updated (sv_client s c) < 2 ^ 58"
    and run: "general_flood_allow c command cost s = (r, s')"
  shows "server_wf s' \<and> c_flood_budget_tokens (sv_client s' c) \<le> FLOOD_BUDGET_BURST \<and>
    (r = 1 \<longleftrightarrow> unat cost \<le> flood_tokens (sv_clock s) (sv_client s c)) \<and>
    unat (c_flood_budget_tokens (sv_client s' c)) =
      flood_tokens (sv_clock s) (sv_client s c) - (if r = 1 then unat cost else 0) \<and>
    (r = 0 \<longleftrightarrow> flood_tokens (sv_clock s) (sv_client s c) < unat cost \<and>
       c_flood_violation_window (sv_client s c) \<noteq> 0 \<and>
       sv_clock s - c_flood_violation_window (sv_client s c) < 5 \<and>
       c_flood_violation_count (sv_client s c) = 2) \<and>
    (r \<noteq> 0 \<longrightarrow> c_flood_violation_count (sv_client s' c) \<le> 2)"
proof -
  let ?cl = "sv_client s c"
  obtain u t where rf: "flood_refill (sv_clock s) (c_flood_budget_updated ?cl) (c_flood_budget_tokens ?cl) = (u, t)"
    by fastforce
  have t: "unat t = flood_tokens (sv_clock s) ?cl"
    using flood_refill_ideal [OF tokens clock] rf by simp
  have t80: "t \<le> FLOOD_BUDGET_BURST" using t by (auto simp: word_le_nat_alt flood_tokens_def)
  have "c_flood_violation_count ?cl \<in> {0, 1, 2}"
    using strikes by (auto simp: word_le_nat_alt word_unat_eq_iff)
  then have cnt: "c_flood_violation_count ?cl + 1 \<ge> 3 \<longleftrightarrow> c_flood_violation_count ?cl = 2"
    "c_flood_violation_count ?cl \<noteq> 2 \<Longrightarrow> c_flood_violation_count ?cl + 1 \<le> 2" by (auto simp: word_le_nat_alt)
  have less: "t < cost \<longleftrightarrow> flood_tokens (sv_clock s) ?cl < unat cost" using t by (simp add: word_less_nat_alt)
  have le: "cost \<le> t \<longleftrightarrow> unat cost \<le> flood_tokens (sv_clock s) ?cl" using t by (simp add: word_le_nat_alt)
  show ?thesis
  proof (cases "cost \<le> t")
    case True
    have "unat (t - cost) = unat t - unat cost" "t - cost \<le> FLOOD_BUDGET_BURST"
      using True t80 by (auto simp: unat_sub word_le_nat_alt)
    then show ?thesis
      using run cost ordinary True le t strikes wf rf
      by (auto simp: general_flood_allow_def Let_def budget_exempt_def intro!: server_wf_upd_client)
  next
    case False
    let ?closed = "c_flood_violation_window ?cl = 0 \<or> sv_clock s - c_flood_violation_window ?cl \<ge> 5"
    let ?s1 = "upd_client c (\<lambda>cl. cl\<lparr>c_flood_budget_updated := u, c_flood_budget_tokens := t\<rparr>) s"
    let ?s2 = "if ?closed
      then upd_client c (\<lambda>cl. cl\<lparr>c_flood_violation_window := sv_clock s, c_flood_violation_count := 1\<rparr>) ?s1
      else upd_client c (\<lambda>cl. cl\<lparr>c_flood_violation_count := c_flood_violation_count cl + 1\<rparr>) ?s1"
    have wf2: "server_wf ?s2" using wf by (auto intro!: server_wf_upd_client)
    have f2: "c_flood_budget_tokens (sv_client ?s2 c) = t"
      "c_flood_violation_count (sv_client ?s2 c) = (if ?closed then 1 else c_flood_violation_count ?cl + 1)" by simp_all
    have strike: "c_flood_violation_count (sv_client ?s2 c) \<ge> 3 \<longleftrightarrow> \<not> ?closed \<and> c_flood_violation_count ?cl = 2"
      using f2(2) cnt(1) by (auto simp: word_le_nat_alt)
    show ?thesis
    proof (cases "c_flood_violation_count (sv_client ?s2 c) \<ge> 3")
      case True
      let ?s3 = "snotice_broadcast SNOTICE_FLOOD
        (''Client flood disconnected: nick='' @ command_reply_nick (sv_client ?s2 c) @
         '' real_ip='' @ c_real_ip (sv_client ?s2 c) @ '' command='' @ command) ?s2"
      let ?s4 = "upd_client c (\<lambda>cl. cl\<lparr>c_quit_reason := ''Excess flood''\<rparr>) ?s3"
      have rs: "r = 0 \<and> s' = sendf c ('':'' @ server_name ?s4 @ '' ERROR :Excess flood'') ?s4"
        using run cost ordinary False rf True
        by (simp add: general_flood_allow_def Let_def budget_exempt_def split: if_splits)
      have "server_wf ?s3" by (rule server_wf_io [OF _ wf2]) simp
      then have "server_wf ?s4" by (rule server_wf_upd_client) simp
      then have "server_wf s'" using rs server_wf_io [OF sendf_io] by simp
      then show ?thesis using rs f2 t t80 False le strike True by (auto simp: not_le)
    next
      case go: False
      have "r = -1 \<and> s' = send_bounded_command_numeric c ''263'' command ''Flood protection - please slow down'' ?s2"
        using run cost ordinary False rf go
        by (simp add: general_flood_allow_def Let_def budget_exempt_def split: if_splits)
      then show ?thesis
        using f2 t t80 False le strike go cnt(2) wf2 server_wf_io [OF bounded_numeric_io]
        by (auto simp: not_le word_le_nat_alt split: if_splits)
    qed
  qed
qed

theorem flood_three_strikes_witness:
  "fst (general_flood_allow 0 ''PRIVMSG'' 2 example_room) = 1 \<and>
   unat (c_flood_budget_tokens (sv_client (snd (general_flood_allow 0 ''PRIVMSG'' 2 example_room)) 0)) = 78"
  using flood_three_strikes [OF example_room_wf, of 0 2 "''PRIVMSG''"
      "fst (general_flood_allow 0 ''PRIVMSG'' 2 example_room)" "snd (general_flood_allow 0 ''PRIVMSG'' 2 example_room)"]
  by (simp add: budget_exempt_def client_mode_has_def flood_tokens_def example_client_def client_zero_def)

end
