(* ===== verification/ChanServ_Store.thy ===== *)
theory ChanServ_Store
  imports Server_Steps
begin

section \<open>Stored channel state (src/chanserv_persist.c, src/chanserv_db.c)\<close>

text \<open>
  What ChanServ reads from and writes to its database.  SQLite itself is represented by the rows of
  the tables (record \<open>cs_db\<close> of theory \<open>Server_State\<close>): a statement that is executed has the effect
  that SQL gives it, a row is found under the collation of its column (\<open>IRCNOCASE\<close> for channel names, \<open>NOCASE\<close>
  for accounts), rows without an explicit order come back in the order of their \<open>rowid\<close>, and an
  insert that violates a primary or a foreign key fails.  \<open>db_ok\<close> says whether the file can be opened and
  used; a failure of a single statement for other reasons (disk full, locked) is not represented.
\<close>

subsection \<open>Columns\<close>

text \<open>\<open>copy_text_column\<close> and \<open>copy_stmt_text\<close> refuse a text that does not fit or holds control characters.\<close>

definition copy_stmt_text :: "string \<Rightarrow> nat \<Rightarrow> bool" where
  "copy_stmt_text text destination_size \<longleftrightarrow>
     \<not> (length text \<ge> destination_size \<or> CHR 0x00 \<in> set text \<or> CR \<in> set text \<or> LF \<in> set text)"

definition text_fits :: "string \<Rightarrow> nat \<Rightarrow> bool" where
  "text_fits text maximum \<longleftrightarrow> length text \<le> maximum \<and> CR \<notin> set text \<and> LF \<notin> set text"

definition text_arg_fits :: "string \<Rightarrow> nat \<Rightarrow> bool \<Rightarrow> bool" where
  "text_arg_fits text maximum allow_empty \<longleftrightarrow>
     \<not> (\<not> allow_empty \<and> text = [] \<or> length text > maximum \<or> CR \<in> set text \<or> LF \<in> set text)"

definition channel_arg_fits :: "string \<Rightarrow> bool" where
  "channel_arg_fits name = text_arg_fits name IRC_CHANNEL_NAME_MAX False"

definition account_arg_fits :: "string \<Rightarrow> bool" where
  "account_arg_fits account = text_arg_fits account IRC_NICK_MAX False"

subsection \<open>Lookups\<close>

abbreviation IRCD_CHANSERV_DESCRIPTION_MAX :: nat where "IRCD_CHANSERV_DESCRIPTION_MAX \<equiv> 255"

text \<open>Result \<open>None\<close> stands for -1, \<open>Some None\<close> for 0 (no such row) and \<open>Some (Some r)\<close> for 1.\<close>

definition chanserv_db_get :: "cs_db \<Rightarrow> string \<Rightarrow> cs_channel option option" where
  "chanserv_db_get db name =
     (if \<not> channel_arg_fits name then None
      else case db_channels db (fold_key name) of
             None \<Rightarrow> Some None
           | Some r \<Rightarrow>
               if copy_stmt_text (csc_name r) (IRC_CHANNEL_NAME_MAX + 1) \<and>
                  copy_stmt_text (csc_founder r) (IRC_NICK_MAX + 1) \<and>
                  copy_stmt_text (csc_description r) (IRCD_CHANSERV_DESCRIPTION_MAX + 1) \<and>
                  copy_stmt_text (csc_topic r) (IRC_CHANNEL_TOPIC_MAX + 1) \<and>
                  copy_stmt_text (csc_topic_setter r) (IRC_CHANNEL_TOPIC_SETTER_MAX + 1) \<and>
                  copy_stmt_text (csc_successor r) (IRC_NICK_MAX + 1) \<and>
                  copy_stmt_text (csc_greeting r) (IRC_CHANNEL_TOPIC_MAX + 1)
               then Some (Some r) else None)"

text \<open>The entry of an account in the access list of a channel, with the same three results.\<close>

definition chanserv_db_access_get :: "cs_db \<Rightarrow> string \<Rightarrow> string \<Rightarrow> cs_access option option" where
  "chanserv_db_access_get db channel account =
     (if \<not> channel_arg_fits channel \<or> \<not> account_arg_fits account then None
      else case db_access db (fold_key channel) (map ascii_lower account) of
             None \<Rightarrow> Some None
           | Some r \<Rightarrow>
               if copy_stmt_text (csa_channel r) (IRC_CHANNEL_NAME_MAX + 1) \<and> copy_stmt_text (csa_account r) (IRC_NICK_MAX + 1)
               then Some (Some r) else None)"

subsection \<open>Saving\<close>

definition CHANSERV_MASK_BAN :: int where "CHANSERV_MASK_BAN = 1"

definition CHANSERV_MASK_EXCEPTION :: int where "CHANSERV_MASK_EXCEPTION = 2"

definition CHANSERV_MASK_INVEX :: int where "CHANSERV_MASK_INVEX = 3"

text \<open>The inserts of one list after the rows present; \<open>None\<close> when one of them fails.\<close>

fun save_masks :: "mask_entry list \<Rightarrow> int \<Rightarrow> cs_mask_row list \<Rightarrow> cs_mask_row list option" where
  "save_masks [] ty rows = Some rows"
| "save_masks (e # es) ty rows =
     (if \<not> text_fits (me_mask e) IRC_CHANNEL_MASK_MAX then None
      else if list_ex (\<lambda>(t, m, a). t = ty \<and> m = me_mask e) rows then None
      else save_masks es ty (rows @ [(ty, me_mask e, if me_protected_authorized e then 1 else 0)]))"

definition save_all_masks :: "channel \<Rightarrow> cs_mask_row list option" where
  "save_all_masks ch =
     (case save_masks (ch_ban_list ch) CHANSERV_MASK_BAN [] of
        None \<Rightarrow> None
      | Some rows1 \<Rightarrow>
          (case save_masks (ch_exception_list ch) CHANSERV_MASK_EXCEPTION rows1 of
             None \<Rightarrow> None
           | Some rows2 \<Rightarrow> save_masks (ch_invite_exception_list ch) CHANSERV_MASK_INVEX rows2))"

definition runtime_row :: "channel \<Rightarrow> cs_runtime" where
  "runtime_row ch =
     \<lparr>csr_key = ch_key ch, csr_user_limit = int (ch_user_limit ch),
      csr_join_count = uint (ch_join_throttle_count ch), csr_join_seconds = uint (ch_join_throttle_seconds ch),
      csr_limit_redirect = ch_limit_redirect ch, csr_ban_redirect = ch_ban_redirect ch\<rparr>"

text \<open>A transaction: either every row is replaced and the result is 0, or nothing changes and it is -1.\<close>

definition chanserv_persist_save :: "channel \<Rightarrow> cs_db \<Rightarrow> int \<times> cs_db" where
  "chanserv_persist_save ch db =
     (if \<not> text_fits (ch_name ch) IRC_CHANNEL_NAME_MAX \<or> \<not> text_fits (ch_key ch) IRC_CHANNEL_KEY_MAX \<or>
         \<not> text_fits (ch_limit_redirect ch) IRC_CHANNEL_NAME_MAX \<or>
         \<not> text_fits (ch_ban_redirect ch) IRC_CHANNEL_NAME_MAX \<or> ch_user_limit ch > 2 ^ 63 - 1
      then (-1, db)
      else if \<not> db_ok db then (-1, db)
      else let key = fold_key (ch_name ch)
           in if db_channels db key = None then (-1, db)
              else case save_all_masks ch of
                     None \<Rightarrow> (-1, db)
                   | Some rows \<Rightarrow>
                       (0, db\<lparr>db_runtime := (db_runtime db)(key := Some (runtime_row ch)),
                              db_masks := (db_masks db)(key := rows)\<rparr>))"

subsection \<open>Restoring\<close>

definition clear_runtime :: "channel \<Rightarrow> channel" where
  "clear_runtime ch =
     ch\<lparr>ch_key := [], ch_user_limit := 0, ch_join_throttle_count := 0, ch_join_throttle_seconds := 0,
        ch_limit_redirect := [], ch_ban_redirect := [],
        ch_ban_list := channel_mask_clear (ch_ban_list ch),
        ch_exception_list := channel_mask_clear (ch_exception_list ch),
        ch_invite_exception_list := channel_mask_clear (ch_invite_exception_list ch)\<rparr>"

definition restore_mask :: "bool \<Rightarrow> cs_mask_row \<Rightarrow> channel \<Rightarrow> channel option" where
  "restore_mask alloc row ch =
     (let (ty, m, authorized) = row
      in if \<not> copy_stmt_text m (IRC_CHANNEL_MASK_MAX + 1) \<or> m = [] \<or> (authorized \<noteq> 0 \<and> authorized \<noteq> 1) then None
         else if ty = CHANSERV_MASK_BAN
         then let (rc, l) = channel_mask_add_authorized alloc (ch_ban_list ch) m (authorized \<noteq> 0)
              in if rc \<noteq> 0 then None else Some (ch\<lparr>ch_ban_list := l\<rparr>)
         else if ty = CHANSERV_MASK_EXCEPTION
         then let (rc, l) = channel_mask_add_authorized alloc (ch_exception_list ch) m (authorized \<noteq> 0)
              in if rc \<noteq> 0 then None else Some (ch\<lparr>ch_exception_list := l\<rparr>)
         else if ty = CHANSERV_MASK_INVEX
         then let (rc, l) = channel_mask_add_authorized alloc (ch_invite_exception_list ch) m (authorized \<noteq> 0)
              in if rc \<noteq> 0 then None else Some (ch\<lparr>ch_invite_exception_list := l\<rparr>)
         else None)"

fun restore_masks :: "bool \<Rightarrow> cs_mask_row list \<Rightarrow> channel \<Rightarrow> channel option" where
  "restore_masks alloc [] ch = Some ch"
| "restore_masks alloc (row # rows) ch =
     (case restore_mask alloc row ch of None \<Rightarrow> None | Some ch1 \<Rightarrow> restore_masks alloc rows ch1)"

definition restore_runtime :: "cs_runtime option \<Rightarrow> channel \<Rightarrow> channel option" where
  "restore_runtime row ch =
     (case row of
        None \<Rightarrow> Some ch
      | Some r \<Rightarrow>
          if \<not> copy_stmt_text (csr_key r) (IRC_CHANNEL_KEY_MAX + 1) \<or>
             \<not> copy_stmt_text (csr_limit_redirect r) (IRC_CHANNEL_NAME_MAX + 1) \<or>
             \<not> copy_stmt_text (csr_ban_redirect r) (IRC_CHANNEL_NAME_MAX + 1) \<or>
             csr_user_limit r < 0 \<or> csr_user_limit r > 2 ^ 64 - 1 \<or>
             csr_join_count r < 0 \<or> csr_join_count r > 2 ^ 32 - 1 \<or>
             csr_join_seconds r < 0 \<or> csr_join_seconds r > 2 ^ 32 - 1
          then None
          else Some (ch\<lparr>ch_key := csr_key r, ch_limit_redirect := csr_limit_redirect r,
                        ch_ban_redirect := csr_ban_redirect r, ch_user_limit := nat (csr_user_limit r),
                        ch_join_throttle_count := of_int (csr_join_count r),
                        ch_join_throttle_seconds := of_int (csr_join_seconds r)\<rparr>))"

definition chanserv_persist_restore :: "bool \<Rightarrow> cs_db \<Rightarrow> channel \<Rightarrow> int \<times> channel" where
  "chanserv_persist_restore alloc db ch =
     (if \<not> text_fits (ch_name ch) IRC_CHANNEL_NAME_MAX \<or> \<not> db_ok db then (-1, ch)
      else let key = fold_key (ch_name ch);
               ch0 = clear_runtime ch
           in case restore_runtime (db_runtime db key) ch0 of
                None \<Rightarrow> (-1, clear_runtime ch0)
              | Some ch1 \<Rightarrow>
                  (case restore_masks alloc (db_masks db key) ch1 of
                     None \<Rightarrow> (-1, clear_runtime ch1)
                   | Some ch2 \<Rightarrow> (0, ch2)))"

subsection \<open>Saving and restoring\<close>

definition mask_rows :: "int \<Rightarrow> mask_entry list \<Rightarrow> cs_mask_row list" where
  "mask_rows ty es = map (\<lambda>e. (ty, me_mask e, if me_protected_authorized e then 1 else 0)) es"

lemma save_masks_eq: "save_masks es ty rows = Some rows' \<Longrightarrow> rows' = rows @ mask_rows ty es"
  by (induction es ty rows rule: save_masks.induct) (auto simp: mask_rows_def split: if_splits)

lemma save_masks_fits: "save_masks es ty rows = Some rows' \<Longrightarrow> e \<in> set es \<Longrightarrow> text_fits (me_mask e) IRC_CHANNEL_MASK_MAX"
  by (induction es ty rows rule: save_masks.induct) (auto split: if_splits)

text \<open>A list as the mask operations leave it and whose masks are C strings.\<close>

definition storable :: "mask_entry list \<Rightarrow> bool" where
  "storable es \<longleftrightarrow> mask_list_inv es \<and>
     (\<forall>e\<in>set es. text_fits (me_mask e) IRC_CHANNEL_MASK_MAX \<and> CHR 0x00 \<notin> set (me_mask e))"

lemma mask_add_fresh:
  assumes "mask_list_inv (rev (e # es) @ l)" "text_fits (me_mask e) IRC_CHANNEL_MASK_MAX"
  shows "channel_mask_add_authorized True l (me_mask e) (me_protected_authorized e) = (0, e # l)"
proof -
  have "me_mask e \<notin> me_mask ` set l" "me_mask e \<noteq> []" "length l < IRC_CHANNEL_MASK_LIST_MAX"
    using assms(1) by (auto simp: mask_list_inv_def)
  moreover from this have "mask_mark (me_mask e) (me_protected_authorized e) l = None" by (simp add: mask_mark_None)
  ultimately show ?thesis using assms(2) by (simp add: channel_mask_add_authorized_def text_fits_def)
qed

definition set_list :: "int \<Rightarrow> mask_entry list \<Rightarrow> channel \<Rightarrow> channel" where
  "set_list ty l ch =
     (if ty = CHANSERV_MASK_BAN then ch\<lparr>ch_ban_list := l\<rparr>
      else if ty = CHANSERV_MASK_EXCEPTION then ch\<lparr>ch_exception_list := l\<rparr>
      else ch\<lparr>ch_invite_exception_list := l\<rparr>)"

definition get_list :: "int \<Rightarrow> channel \<Rightarrow> mask_entry list" where
  "get_list ty ch =
     (if ty = CHANSERV_MASK_BAN then ch_ban_list ch
      else if ty = CHANSERV_MASK_EXCEPTION then ch_exception_list ch
      else ch_invite_exception_list ch)"

lemmas mask_types = CHANSERV_MASK_BAN_def CHANSERV_MASK_EXCEPTION_def CHANSERV_MASK_INVEX_def

lemma set_list_simps [simp]:
  "get_list ty (set_list ty l ch) = l" "set_list ty l (set_list ty l' ch) = set_list ty l ch"
  "set_list ty (get_list ty ch) ch = ch"
  by (simp_all add: set_list_def get_list_def)

lemma restore_one:
  assumes "ty \<in> {CHANSERV_MASK_BAN, CHANSERV_MASK_EXCEPTION, CHANSERV_MASK_INVEX}"
    and "mask_list_inv (rev (e # es) @ get_list ty ch)" "text_fits (me_mask e) IRC_CHANNEL_MASK_MAX"
    and "CHR 0x00 \<notin> set (me_mask e)"
  shows "restore_mask True (ty, me_mask e, if me_protected_authorized e then 1 else 0) ch =
    Some (set_list ty (e # get_list ty ch) ch)"
proof -
  have "me_mask e \<noteq> []" using assms(2) by (auto simp: mask_list_inv_def)
  moreover have "copy_stmt_text (me_mask e) (IRC_CHANNEL_MASK_MAX + 1)"
    using assms(3,4) by (simp add: copy_stmt_text_def text_fits_def)
  moreover note mask_add_fresh [OF assms(2,3)]
  ultimately show ?thesis
    using assms(1) by (auto simp: restore_mask_def get_list_def set_list_def mask_types split: if_splits)
qed

lemma restore_rows:
  assumes "ty \<in> {CHANSERV_MASK_BAN, CHANSERV_MASK_EXCEPTION, CHANSERV_MASK_INVEX}"
  shows "storable (rev es @ get_list ty ch) \<Longrightarrow>
    restore_masks True (mask_rows ty es @ rows) ch = restore_masks True rows (set_list ty (rev es @ get_list ty ch) ch)"
proof (induction es arbitrary: ch)
  case (Cons e es)
  have one: "restore_mask True (ty, me_mask e, if me_protected_authorized e then 1 else 0) ch =
      Some (set_list ty (e # get_list ty ch) ch)"
    using Cons.prems by (intro restore_one [OF assms, of e es]) (auto simp: storable_def)
  show ?case
    using Cons.IH [of "set_list ty (e # get_list ty ch) ch"] Cons.prems one by (simp add: mask_rows_def)
qed (simp add: mask_rows_def)

lemma save_masks_ok:
  assumes "\<forall>e\<in>set es. text_fits (me_mask e) IRC_CHANNEL_MASK_MAX" "distinct (map me_mask es)"
    and "\<forall>(t, m, a)\<in>set rows. t = ty \<longrightarrow> m \<notin> me_mask ` set es"
  shows "save_masks es ty rows = Some (rows @ mask_rows ty es)"
  using assms
proof (induction es arbitrary: rows)
  case (Cons e es)
  let ?row = "(ty, me_mask e, if me_protected_authorized e then 1 else 0)"
  have "\<not> list_ex (\<lambda>(t, m, a). t = ty \<and> m = me_mask e) rows"
    using Cons.prems(3) by (fastforce simp: list_ex_iff)
  moreover have "\<forall>(t, m, a)\<in>set (rows @ [?row]). t = ty \<longrightarrow> m \<notin> me_mask ` set es"
    using Cons.prems(2,3) by (simp add: case_prod_beta)
  then have "save_masks es ty (rows @ [?row]) = Some ((rows @ [?row]) @ mask_rows ty es)"
    using Cons.prems(1,2) by (intro Cons.IH) auto
  ultimately show ?case
    using Cons.prems(1) by (simp add: mask_rows_def)
qed (simp add: mask_rows_def)

lemma storableD:
  "storable es \<Longrightarrow> distinct (map me_mask es)"
  "storable es \<Longrightarrow> \<forall>e\<in>set es. text_fits (me_mask e) IRC_CHANNEL_MASK_MAX"
  "storable es \<Longrightarrow> storable (rev es)"
  by (auto simp: storable_def mask_list_inv_def rev_map [symmetric])

lemma save_all_masks_ok:
  assumes "storable (ch_ban_list ch)" "storable (ch_exception_list ch)" "storable (ch_invite_exception_list ch)"
  shows "save_all_masks ch = Some (mask_rows CHANSERV_MASK_BAN (ch_ban_list ch) @
    mask_rows CHANSERV_MASK_EXCEPTION (ch_exception_list ch) @ mask_rows CHANSERV_MASK_INVEX (ch_invite_exception_list ch))"
proof -
  note d = assms [THEN storableD(1)] and f = assms [THEN storableD(2)]
  have 1: "save_masks (ch_ban_list ch) CHANSERV_MASK_BAN [] = Some (mask_rows CHANSERV_MASK_BAN (ch_ban_list ch))"
    using save_masks_ok [OF f(1) d(1), of "[]"] by simp
  have 2: "save_masks (ch_exception_list ch) CHANSERV_MASK_EXCEPTION (mask_rows CHANSERV_MASK_BAN (ch_ban_list ch)) =
      Some (mask_rows CHANSERV_MASK_BAN (ch_ban_list ch) @ mask_rows CHANSERV_MASK_EXCEPTION (ch_exception_list ch))"
    by (rule save_masks_ok [OF f(2) d(2)]) (auto simp: mask_rows_def mask_types)
  have 3: "save_masks (ch_invite_exception_list ch) CHANSERV_MASK_INVEX
      (mask_rows CHANSERV_MASK_BAN (ch_ban_list ch) @ mask_rows CHANSERV_MASK_EXCEPTION (ch_exception_list ch)) =
      Some ((mask_rows CHANSERV_MASK_BAN (ch_ban_list ch) @ mask_rows CHANSERV_MASK_EXCEPTION (ch_exception_list ch)) @
        mask_rows CHANSERV_MASK_INVEX (ch_invite_exception_list ch))"
    by (rule save_masks_ok [OF f(3) d(3)]) (auto simp: mask_rows_def mask_types)
  show ?thesis by (simp add: save_all_masks_def 1 2 3)
qed

lemma restore_all_masks:
  assumes "storable bans" "storable excepts" "storable invexes"
    and "ch_ban_list ch = []" "ch_exception_list ch = []" "ch_invite_exception_list ch = []"
  shows "restore_masks True (mask_rows CHANSERV_MASK_BAN bans @ mask_rows CHANSERV_MASK_EXCEPTION excepts @
      mask_rows CHANSERV_MASK_INVEX invexes) ch =
    Some (ch\<lparr>ch_ban_list := rev bans, ch_exception_list := rev excepts, ch_invite_exception_list := rev invexes\<rparr>)"
proof -
  let ?r = "mask_rows CHANSERV_MASK_INVEX invexes"
  have l: "get_list CHANSERV_MASK_BAN ch = []"
    "get_list CHANSERV_MASK_EXCEPTION (ch\<lparr>ch_ban_list := rev bans\<rparr>) = []"
    "get_list CHANSERV_MASK_INVEX (ch\<lparr>ch_ban_list := rev bans, ch_exception_list := rev excepts\<rparr>) = []"
    using assms(4-6) by (simp_all add: get_list_def mask_types)
  note s = assms(1-3) [THEN storableD(3)]
  show ?thesis
    using restore_rows [of CHANSERV_MASK_BAN bans ch "mask_rows CHANSERV_MASK_EXCEPTION excepts @ ?r"]
      restore_rows [of CHANSERV_MASK_EXCEPTION excepts "ch\<lparr>ch_ban_list := rev bans\<rparr>" ?r]
      restore_rows [of CHANSERV_MASK_INVEX invexes "ch\<lparr>ch_ban_list := rev bans, ch_exception_list := rev excepts\<rparr>" "[]"]
      l s by (simp add: set_list_def mask_types)
qed

text \<open>The parameters of a channel that are stored, as C strings within their capacities.\<close>

definition storable_channel :: "channel \<Rightarrow> bool" where
  "storable_channel ch \<longleftrightarrow>
     storable (ch_ban_list ch) \<and> storable (ch_exception_list ch) \<and> storable (ch_invite_exception_list ch) \<and>
     text_fits (ch_name ch) IRC_CHANNEL_NAME_MAX \<and> text_fits (ch_key ch) IRC_CHANNEL_KEY_MAX \<and>
     text_fits (ch_limit_redirect ch) IRC_CHANNEL_NAME_MAX \<and> text_fits (ch_ban_redirect ch) IRC_CHANNEL_NAME_MAX \<and>
     CHR 0x00 \<notin> set (ch_key ch) \<and> CHR 0x00 \<notin> set (ch_limit_redirect ch) \<and> CHR 0x00 \<notin> set (ch_ban_redirect ch) \<and>
     ch_user_limit ch < 2 ^ 63"

lemma restore_runtime_row:
  assumes "storable_channel ch"
  shows "restore_runtime (Some (runtime_row ch)) fresh =
    Some (fresh\<lparr>ch_key := ch_key ch, ch_limit_redirect := ch_limit_redirect ch, ch_ban_redirect := ch_ban_redirect ch,
      ch_user_limit := ch_user_limit ch, ch_join_throttle_count := ch_join_throttle_count ch,
      ch_join_throttle_seconds := ch_join_throttle_seconds ch\<rparr>)"
proof -
  have "uint (ch_join_throttle_count ch) < 2 ^ 32" "uint (ch_join_throttle_seconds ch) < 2 ^ 32"
    using uint_bounded [of "ch_join_throttle_count ch"] uint_bounded [of "ch_join_throttle_seconds ch"] by simp_all
  then show ?thesis
    using assms by (simp add: restore_runtime_def runtime_row_def storable_channel_def copy_stmt_text_def text_fits_def)
qed

subsection \<open>Properties\<close>

text \<open>
  C25: what ChanServ stores it restores.  Saving a registered channel succeeds, and restoring it later
  into a channel object of the same name (up to case) gives back the key, limit, join throttle, redirects
  and the three mask lists with their protection marks, whatever that object held before.  The lists come back in
  reverse order, since restoring inserts each stored mask at the head.
\<close>

theorem persist_roundtrip:
  assumes "storable_channel ch" "db_ok db" "db_channels db (fold_key (ch_name ch)) \<noteq> None"
    and "fold_key (ch_name fresh) = fold_key (ch_name ch)" "text_fits (ch_name fresh) IRC_CHANNEL_NAME_MAX"
  shows "fst (chanserv_persist_save ch db) = 0 \<and>
    chanserv_persist_restore True (snd (chanserv_persist_save ch db)) fresh =
      (0, fresh\<lparr>ch_key := ch_key ch, ch_user_limit := ch_user_limit ch,
        ch_join_throttle_count := ch_join_throttle_count ch, ch_join_throttle_seconds := ch_join_throttle_seconds ch,
        ch_limit_redirect := ch_limit_redirect ch, ch_ban_redirect := ch_ban_redirect ch,
        ch_ban_list := rev (ch_ban_list ch), ch_exception_list := rev (ch_exception_list ch),
        ch_invite_exception_list := rev (ch_invite_exception_list ch)\<rparr>)"
proof -
  have st: "storable (ch_ban_list ch)" "storable (ch_exception_list ch)" "storable (ch_invite_exception_list ch)"
    using assms(1) by (simp_all add: storable_channel_def)
  have save: "chanserv_persist_save ch db =
      (0, db\<lparr>db_runtime := (db_runtime db)(fold_key (ch_name ch) := Some (runtime_row ch)),
             db_masks := (db_masks db)(fold_key (ch_name ch) := the (save_all_masks ch))\<rparr>)"
    using assms(1-3) save_all_masks_ok [OF st] by (auto simp: chanserv_persist_save_def storable_channel_def Let_def)
  show ?thesis
    using assms(2,4,5) save_all_masks_ok [OF st] restore_runtime_row [OF assms(1)]
    unfolding save
    by (simp add: chanserv_persist_restore_def Let_def restore_all_masks [OF st] clear_runtime_def channel_mask_clear_def)
qed

theorem persist_roundtrip_witness:
  "let ch = channel_zero\<lparr>ch_name := ''#Room'', ch_key := ''k'', ch_user_limit := 3,
        ch_ban_list := [\<lparr>me_mask = ''a'', me_protected_authorized = True\<rparr>, \<lparr>me_mask = ''b'', me_protected_authorized = False\<rparr>]\<rparr>;
      db = (sv_csdb (server_blank 1 config_blank env_blank))
        \<lparr>db_channels := (\<lambda>k. if k = ''#room'' then Some \<lparr>csc_name = ''#Room'', csc_founder = ''alice'', csc_description = [], csc_enabled = True,
           csc_mode_lock = 0, csc_topic = [], csc_topic_setter = [], csc_topic_time = 0, csc_secure_ops = False,
           csc_successor = [], csc_greeting = [], csc_logging_enabled = False\<rparr> else None)\<rparr>;
      back = snd (chanserv_persist_restore True (snd (chanserv_persist_save ch db)) (channel_zero\<lparr>ch_name := ''#room''\<rparr>))
   in ch_key back = ''k'' \<and> map me_mask (ch_ban_list back) = [''b'', ''a'']"
proof -
  let ?ch = "channel_zero\<lparr>ch_name := ''#Room'', ch_key := ''k'', ch_user_limit := 3,
        ch_ban_list := [\<lparr>me_mask = ''a'', me_protected_authorized = True\<rparr>, \<lparr>me_mask = ''b'', me_protected_authorized = False\<rparr>]\<rparr>"
  let ?db = "(sv_csdb (server_blank 1 config_blank env_blank))
        \<lparr>db_channels := (\<lambda>k. if k = ''#room'' then Some \<lparr>csc_name = ''#Room'', csc_founder = ''alice'', csc_description = [], csc_enabled = True,
           csc_mode_lock = 0, csc_topic = [], csc_topic_setter = [], csc_topic_time = 0, csc_secure_ops = False,
           csc_successor = [], csc_greeting = [], csc_logging_enabled = False\<rparr> else None)\<rparr>"
  have k: "fold_key ''#Room'' = ''#room''" "fold_key ''#room'' = ''#room''" by code_simp+
  have "storable_channel ?ch"
    by (simp add: storable_channel_def storable_def mask_list_inv_def text_fits_def channel_zero_def)
  then show ?thesis
    using persist_roundtrip [of ?ch ?db "channel_zero\<lparr>ch_name := ''#room''\<rparr>"] k
    by (simp add: server_blank_def text_fits_def Let_def)
qed

end
