(* ===== verification/ChanServ.thy ===== *)
theory ChanServ
  imports ChanServ_Store
begin

section \<open>Channel policy of ChanServ (src/chanserv.c, src/irc.c)\<close>

text \<open>
  How registration and access rows become live channel state: the cached policy of a channel, the mode
  lock, the privileges of identified members, and the limit on topics that a stored topic has to meet.
  The text commands of ChanServ are not part of this theory.
\<close>

subsection \<open>The topic limit\<close>

text \<open>
  \<open>irc_topic_limit\<close>: what remains of a line after the longest envelope of a 332 reply and of a
  relayed TOPIC.
\<close>

definition RPL_TOPIC :: "server \<Rightarrow> string \<Rightarrow> string \<Rightarrow> string \<Rightarrow> string" where
  "RPL_TOPIC s nick channel topic = numeric s ''332'' nick (channel @ '' :'' @ topic)"

definition topic_relay :: "string \<Rightarrow> string \<Rightarrow> string \<Rightarrow> string \<Rightarrow> string \<Rightarrow> string" where
  "topic_relay nick user host channel topic =
     '':'' @ nick @ ''!'' @ user @ ''@'' @ host @ '' TOPIC '' @ channel @ '' :'' @ topic"

definition irc_topic_limit :: "server \<Rightarrow> nat" where
  "irc_topic_limit s =
     (let nick = replicate IRC_NICK_MAX (CHR ''n'');
          user = replicate IRC_USER_MAX (CHR ''u'');
          host = replicate IRC_HOST_MAX (CHR ''h'');
          channel = CHR ''#'' # replicate (IRC_CHANNEL_NAME_MAX - 1) (CHR ''c'');
          query_overhead = length (RPL_TOPIC s nick channel []);
          relay_overhead = length (topic_relay nick user host channel [])
      in if query_overhead \<ge> IRC_LINE_CONTENT_MAX \<or> relay_overhead \<ge> IRC_LINE_CONTENT_MAX then 0
         else let query_limit = IRC_LINE_CONTENT_MAX - query_overhead;
                  relay_limit = IRC_LINE_CONTENT_MAX - relay_overhead;
                  limit = (if query_limit < IRC_CHANNEL_TOPIC_MAX then query_limit else IRC_CHANNEL_TOPIC_MAX)
              in if relay_limit < limit then relay_limit else limit)"

subsection \<open>Founders and the cached policy\<close>

definition founder_matches :: "cs_channel \<Rightarrow> client \<Rightarrow> bool" where
  "founder_matches r cl \<longleftrightarrow> c_account_name cl \<noteq> [] \<and> strcaseeq (csc_founder r) (c_account_name cl)"

definition cached_founder_matches :: "channel \<Rightarrow> client \<Rightarrow> bool" where
  "cached_founder_matches ch cl \<longleftrightarrow>
     ch_chanserv_policy_valid ch \<and> c_account_name cl \<noteq> [] \<and> strcaseeq (ch_chanserv_founder ch) (c_account_name cl)"

definition clear_cached_policy :: "channel \<Rightarrow> channel" where
  "clear_cached_policy ch0 =
     (let ch = channel_forget_service_privileges ch0
      in ch\<lparr>ch_chanserv_policy_loaded := True, ch_chanserv_policy_valid := False, ch_chanserv_founder := [],
            ch_chanserv_mode_lock := 0, ch_chanserv_secure_ops := False, ch_chanserv_successor := [],
            ch_chanserv_greeting := [], ch_modes := channel_mode_remove (ch_modes ch) CHANNEL_MODE_REGISTERED\<rparr>)"

definition cache_policy :: "channel \<Rightarrow> cs_channel \<Rightarrow> channel" where
  "cache_policy ch r =
     (if \<not> csc_enabled r then clear_cached_policy ch
      else ch\<lparr>ch_chanserv_policy_loaded := True, ch_chanserv_policy_valid := True,
              ch_chanserv_founder := take IRC_NICK_MAX (csc_founder r),
              ch_chanserv_mode_lock := csc_mode_lock r, ch_chanserv_secure_ops := csc_secure_ops r,
              ch_chanserv_successor := take IRC_NICK_MAX (csc_successor r),
              ch_chanserv_greeting := take IRC_CHANNEL_TOPIC_MAX (csc_greeting r)\<rparr>)"

subsection \<open>Mode lock\<close>

definition persistent_mode_bit :: "char \<Rightarrow> u64" where
  "persistent_mode_bit letter =
     (if letter = CHR ''A'' then CHANNEL_MODE_ADMIN_ONLY
      else if letter = CHR ''c'' then CHANNEL_MODE_NO_COLOR
      else if letter = CHR ''i'' then CHANNEL_MODE_INVITE_ONLY
      else if letter = CHR ''K'' then CHANNEL_MODE_NO_KNOCK
      else if letter = CHR ''M'' then CHANNEL_MODE_REGONLY_SPEAK
      else if letter = CHR ''m'' then CHANNEL_MODE_MODERATED
      else if letter = CHR ''n'' then CHANNEL_MODE_NO_EXTERNAL
      else if letter = CHR ''O'' then CHANNEL_MODE_OPER_ONLY
      else if letter = CHR ''p'' then CHANNEL_MODE_PRIVATE
      else if letter = CHR ''R'' then CHANNEL_MODE_REGONLY_JOIN
      else if letter = CHR ''S'' then CHANNEL_MODE_STRIP_COLOR
      else if letter = CHR ''s'' then CHANNEL_MODE_SECRET
      else if letter = CHR ''t'' then CHANNEL_MODE_TOPIC_LOCK
      else if letter = CHR ''T'' then CHANNEL_MODE_NO_NOTICE
      else if letter = CHR ''V'' then CHANNEL_MODE_NO_INVITE
      else if letter = CHR ''z'' then CHANNEL_MODE_SECURE_ONLY
      else 0)"

definition persistent_mode_letters :: string where
  "persistent_mode_letters = ''AciKMmnOpRStTVz''"

definition persistent_mode_mask :: u64 where
  "persistent_mode_mask = fold (\<lambda>l mk. mk OR persistent_mode_bit l) persistent_mode_letters 0"

text \<open>The loop of \<open>broadcast_service_mode_change\<close>; \<open>None\<close> is the return when the 64-byte buffer is full.\<close>

fun service_mode_text :: "u64 \<Rightarrow> u64 \<Rightarrow> string \<Rightarrow> char option \<Rightarrow> string \<Rightarrow> string option" where
  "service_mode_text before after [] sign modes = Some modes"
| "service_mode_text before after (l # ls) sign modes =
     (let bt = persistent_mode_bit l;
          before_set = (before AND bt \<noteq> 0);
          after_set = (after AND bt \<noteq> 0)
      in if before_set = after_set then service_mode_text before after ls sign modes
         else let desired = (if after_set then CHR ''+'' else CHR ''-'')
              in if Some desired \<noteq> sign
                 then if length modes + 2 \<ge> 64 then None
                      else service_mode_text before after ls (Some desired) (modes @ [desired, l])
                 else if length modes + 1 \<ge> 64 then None
                 else service_mode_text before after ls sign (modes @ [l]))"

definition broadcast_service_mode_change :: "chref \<Rightarrow> u64 \<Rightarrow> u64 \<Rightarrow> server \<Rightarrow> server" where
  "broadcast_service_mode_change h before after s =
     (case service_mode_text (before AND persistent_mode_mask) (after AND persistent_mode_mask)
             persistent_mode_letters None [] of
        None \<Rightarrow> s
      | Some modes \<Rightarrow>
          if modes = [] then s
          else channel_broadcast h None
                 ('':ChanServ!service@'' @ server_name s @ '' MODE '' @ ch_name (sv_channel s h) @ '' '' @ modes @ [CR, LF]) s)"

definition broadcast_service_topic_change :: "chref \<Rightarrow> server \<Rightarrow> server" where
  "broadcast_service_topic_change h s =
     channel_broadcast h None
       ('':ChanServ!service@'' @ server_name s @ '' TOPIC '' @ ch_name (sv_channel s h) @ '' :'' @
        ch_topic (sv_channel s h) @ [CR, LF]) s"

fun mode_lock_loop :: "string \<Rightarrow> bool \<Rightarrow> u64 \<Rightarrow> u64 option" where
  "mode_lock_loop [] adding result = Some result"
| "mode_lock_loop (x # xs) adding result =
     (if x = CHR ''+'' \<or> x = CHR ''-'' then mode_lock_loop xs (x = CHR ''+'') result
      else let bt = persistent_mode_bit x
           in if bt = 0 then None
              else mode_lock_loop xs adding (if adding then result OR bt else result AND NOT bt))"

definition parse_mode_lock :: "string \<Rightarrow> u64 option" where
  "parse_mode_lock text = mode_lock_loop text True 0"

definition chanserv_mode_change_allowed :: "channel \<Rightarrow> u64 \<Rightarrow> bool \<Rightarrow> bool" where
  "chanserv_mode_change_allowed ch bt adding \<longleftrightarrow>
     (if bt = 0 \<or> \<not> channel_mode_has (ch_modes ch) CHANNEL_MODE_REGISTERED then True
      else if \<not> ch_chanserv_policy_valid ch then False
      else (ch_chanserv_mode_lock ch AND bt \<noteq> 0) = adding)"

subsection \<open>Loading the policy\<close>

definition apply_record :: "nat \<Rightarrow> cs_channel \<Rightarrow> channel \<Rightarrow> channel" where
  "apply_record topic_limit r ch0 =
     (let ch = (cache_policy ch0 r)\<lparr>ch_modes := channel_mode_add (csc_mode_lock r) CHANNEL_MODE_REGISTERED\<rparr>
      in if length (csc_topic r) \<le> topic_limit
         then ch\<lparr>ch_topic := take IRC_CHANNEL_TOPIC_MAX (csc_topic r),
                 ch_topic_setter := take IRC_CHANNEL_TOPIC_SETTER_MAX (csc_topic_setter r),
                 ch_topic_time := csc_topic_time r\<rparr>
         else ch\<lparr>ch_topic := [], ch_topic_setter := [], ch_topic_time := 0\<rparr>)"

definition load_channel_policy :: "chref \<Rightarrow> bool \<Rightarrow> server \<Rightarrow> server" where
  "load_channel_policy h force s =
     (if \<not> force \<and> ch_chanserv_policy_loaded (sv_channel s h) then s
      else if \<not> db_ok (sv_csdb s) then s
      else case chanserv_db_get (sv_csdb s) (ch_name (sv_channel s h)) of
             None \<Rightarrow> s
           | Some None \<Rightarrow> upd_channel h clear_cached_policy s
           | Some (Some r) \<Rightarrow>
               if csc_enabled r
               then upd_channel h (\<lambda>ch. snd (chanserv_persist_restore (sv_alloc s) (sv_csdb s)
                                              (apply_record (irc_topic_limit s) r ch))) s
               else upd_channel h clear_cached_policy s)"

definition chanserv_restore_channel :: "chref \<Rightarrow> server \<Rightarrow> server" where
  "chanserv_restore_channel h s = load_channel_policy h False s"

definition chanserv_refresh_channel :: "chref \<Rightarrow> server \<Rightarrow> server" where
  "chanserv_refresh_channel h s = load_channel_policy h True s"

definition chanserv_persist_channel :: "chref \<Rightarrow> server \<Rightarrow> server" where
  "chanserv_persist_channel h s =
     (if \<not> channel_mode_has (ch_modes (sv_channel s h)) CHANNEL_MODE_REGISTERED then s
      else s\<lparr>sv_csdb := snd (chanserv_persist_save (sv_channel s h) (sv_csdb s))\<rparr>)"

subsection \<open>Privileges\<close>

definition chanserv_client_is_founder :: "server \<Rightarrow> client \<Rightarrow> string \<Rightarrow> bool" where
  "chanserv_client_is_founder s cl name \<longleftrightarrow>
     (if c_account_name cl = [] then False
      else let stored = (if db_ok (sv_csdb s)
                         then case chanserv_db_get (sv_csdb s) name of
                                Some (Some r) \<Rightarrow> csc_enabled r \<and> founder_matches r cl
                              | _ \<Rightarrow> False
                         else False)
           in case hash_get (sv_channels_by_name s) name of
                Some h \<Rightarrow> if ch_chanserv_policy_loaded (sv_channel s h)
                          then cached_founder_matches (sv_channel s h) cl else stored
              | None \<Rightarrow> stored)"

definition access_privileges :: "cs_access option option \<Rightarrow> u32" where
  "access_privileges found =
     (case found of
        Some (Some r) \<Rightarrow>
          let l = csa_level r
          in if l = 5 then CHANNEL_PRIV_OWNER OR CHANNEL_PRIV_OPERATOR
          else if l = 4 then CHANNEL_PRIV_PROTECTED OR CHANNEL_PRIV_OPERATOR
          else if l = 3 then CHANNEL_PRIV_OPERATOR
          else if l = 2 then CHANNEL_PRIV_HALFOP
          else if l = 1 then CHANNEL_PRIV_VOICE
          else 0
      | _ \<Rightarrow> 0)"

definition chanserv_client_privileges :: "server \<Rightarrow> client \<Rightarrow> string \<Rightarrow> u32" where
  "chanserv_client_privileges s cl name =
     (if c_account_name cl = [] then 0
      else let founder = CHANNEL_PRIV_OWNER OR CHANNEL_PRIV_OPERATOR;
               db = sv_csdb s;
               access = (\<lambda>_::unit. access_privileges (chanserv_db_access_get db name (c_account_name cl)));
               stored = (\<lambda>_::unit.
                 if \<not> db_ok db then 0
                 else case chanserv_db_get db name of
                        Some (Some r) \<Rightarrow>
                          if \<not> csc_enabled r then 0
                          else if founder_matches r cl then founder
                          else access ()
                      | _ \<Rightarrow> 0)
           in case hash_get (sv_channels_by_name s) name of
                None \<Rightarrow> stored ()
              | Some h \<Rightarrow>
                  let ch = sv_channel s h
                  in if \<not> ch_chanserv_policy_loaded ch then stored ()
                     else if \<not> ch_chanserv_policy_valid ch then 0
                     else if cached_founder_matches ch cl then founder
                     else if \<not> db_ok db then 0 else access ())"

definition broadcast_privilege_change :: "chref \<Rightarrow> cref \<Rightarrow> u32 \<Rightarrow> char \<Rightarrow> server \<Rightarrow> server" where
  "broadcast_privilege_change h c privileges sign s =
     (if privileges = 0 then s
      else let letters = channel_privilege_format privileges 6;
               parameters = concat (map (\<lambda>_. '' '' @ c_nick (sv_client s c)) letters)
           in if length parameters \<ge> (IRC_NICK_MAX + 2) * 5 + 1 then s
              else send_each (\<lambda>_. '':'' @ server_name s @ '' MODE '' @ ch_name (sv_channel s h) @ '' '' @
                                   sign # letters @ parameters)
                     (map m_client (ch_members (sv_channel s h))) s)"

text \<open>The privileges of SECUREOPS that an account of a given rank may keep.\<close>

definition secure_ops_bits :: u32 where
  "secure_ops_bits = CHANNEL_PRIV_OWNER OR CHANNEL_PRIV_PROTECTED OR CHANNEL_PRIV_OPERATOR OR CHANNEL_PRIV_HALFOP"

definition eligible_privileges :: "u32 \<Rightarrow> u32" where
  "eligible_privileges desired =
     (let rank = channel_privilege_rank desired
      in if rank \<ge> 5 then secure_ops_bits
         else if rank \<ge> 4 then CHANNEL_PRIV_PROTECTED OR CHANNEL_PRIV_OPERATOR OR CHANNEL_PRIV_HALFOP
         else if rank \<ge> 3 then CHANNEL_PRIV_OPERATOR OR CHANNEL_PRIV_HALFOP
         else if rank \<ge> 2 then CHANNEL_PRIV_HALFOP else 0)"

definition sync_member_privileges :: "chref \<Rightarrow> cref \<Rightarrow> server \<Rightarrow> server" where
  "sync_member_privileges h c s =
     (case channel_find_member (sv_channel s h) c of
        None \<Rightarrow> s
      | Some m \<Rightarrow>
          let ch = sv_channel s h;
              before = m_privileges m;
              desired = (if channel_mode_has (ch_modes ch) CHANNEL_MODE_REGISTERED
                         then chanserv_client_privileges s (sv_client s c) (ch_name ch) else 0);
              unauthorized = (m_manual_privileges m AND secure_ops_bits) AND NOT (eligible_privileges desired);
              s1 = (if ch_chanserv_secure_ops ch \<and> unauthorized \<noteq> 0
                    then upd_channel h (\<lambda>ch. snd (channel_remove_manual_privileges ch c unauthorized)) s else s);
              s2 = upd_channel h (\<lambda>ch. snd (channel_set_service_privileges ch c desired)) s1;
              after = (case channel_find_member (sv_channel s2 h) c of Some m \<Rightarrow> m_privileges m | None \<Rightarrow> before)
          in if fst (channel_set_service_privileges (sv_channel s1 h) c desired) \<noteq> 0 then s1
             else broadcast_privilege_change h c (after AND NOT before) (CHR ''+'')
                    (broadcast_privilege_change h c (before AND NOT after) (CHR ''-'') s2))"

definition chanserv_sync_client_privileges :: "cref \<Rightarrow> server \<Rightarrow> server" where
  "chanserv_sync_client_privileges c s = fold (\<lambda>h. sync_member_privileges h c) (c_channels (sv_client s c)) s"

definition sync_account_privileges :: "chref \<Rightarrow> string \<Rightarrow> server \<Rightarrow> server" where
  "sync_account_privileges h account s =
     fold (\<lambda>c s. let name = c_account_name (sv_client s c)
                 in if name \<noteq> [] \<and> strcaseeq name account then sync_member_privileges h c s else s)
       (map m_client (ch_members (sv_channel s h))) s"

definition chanserv_sync_channel_privileges :: "chref \<Rightarrow> server \<Rightarrow> server" where
  "chanserv_sync_channel_privileges h s =
     fold (sync_member_privileges h) (map m_client (ch_members (sv_channel s h))) s"

subsection \<open>What loading a policy leaves alone\<close>

definition same_members :: "channel \<Rightarrow> channel \<Rightarrow> bool" where
  "same_members ch ch' \<longleftrightarrow> ch_name ch' = ch_name ch \<and> map m_client (ch_members ch') = map m_client (ch_members ch) \<and>
     (members_inv ch \<longrightarrow> members_inv ch')"

lemma same_members_refl [simp]: "same_members ch ch"
  by (simp add: same_members_def)

lemma same_members_trans: "same_members a b \<Longrightarrow> same_members b c \<Longrightarrow> same_members a c"
  by (auto simp: same_members_def)

lemma same_membersI:
  "ch_name ch' = ch_name ch \<Longrightarrow> ch_members ch' = ch_members ch \<Longrightarrow> ch_member_count ch' = ch_member_count ch \<Longrightarrow>
     same_members ch ch'"
  by (simp add: same_members_def members_inv_def)

lemma keeps_same_members: "keeps c s t \<Longrightarrow> (\<And>ch. same_members ch (f ch)) \<Longrightarrow> keeps c s (upd_channel h f t)"
  by (rule keeps_upd_members) (auto simp: same_members_def)

lemma restore_mask_members: "restore_mask alloc row ch = Some ch' \<Longrightarrow> same_members ch ch'"
  by (rule same_membersI) (auto simp: restore_mask_def Let_def case_prod_beta split: if_splits)

lemma restore_masks_members: "restore_masks alloc rows ch = Some ch' \<Longrightarrow> same_members ch ch'"
proof (induction rows arbitrary: ch)
  case (Cons row rows)
  then obtain ch1 where "restore_mask alloc row ch = Some ch1" "restore_masks alloc rows ch1 = Some ch'"
    by (auto split: option.splits)
  then show ?case using Cons.IH same_members_trans restore_mask_members by blast
qed simp

lemma clear_runtime_members: "same_members ch (clear_runtime ch)"
  by (rule same_membersI) (simp_all add: clear_runtime_def)

lemma restore_runtime_members: "restore_runtime row ch = Some ch' \<Longrightarrow> same_members ch ch'"
  by (rule same_membersI) (auto simp: restore_runtime_def split: option.splits if_splits)

lemma persist_restore_members: "same_members ch (snd (chanserv_persist_restore alloc db ch))"
proof -
  have "same_members ch ch1" if "restore_runtime row (clear_runtime ch) = Some ch1" for row ch1
    using that same_members_trans [OF clear_runtime_members restore_runtime_members] by blast
  moreover have "same_members ch (clear_runtime (clear_runtime ch))"
    using same_members_trans clear_runtime_members by blast
  ultimately show ?thesis
    using same_members_trans [OF _ clear_runtime_members, of ch] same_members_trans [OF _ restore_masks_members, of ch]
    by (simp add: chanserv_persist_restore_def Let_def split: option.split) blast
qed

lemma clear_cached_members: "same_members ch (clear_cached_policy ch)"
proof -
  let ?f = "channel_forget_service_privileges ch"
  have "same_members ch ?f"
    using forget_service_inv [of ch] by (simp add: same_members_def channel_forget_service_privileges_def comp_def Let_def)
  moreover have "same_members ?f (clear_cached_policy ch)"
    by (rule same_membersI) (simp_all add: clear_cached_policy_def Let_def)
  ultimately show ?thesis by (rule same_members_trans)
qed

lemma apply_record_members: "same_members ch (apply_record n r ch)"
proof -
  have "same_members ch (cache_policy ch r)"
    using clear_cached_members by (auto simp: cache_policy_def intro!: same_membersI)
  moreover have "same_members (cache_policy ch r) (apply_record n r ch)"
    by (rule same_membersI) (simp_all add: apply_record_def Let_def)
  ultimately show ?thesis by (rule same_members_trans)
qed

lemma load_policy_keeps: "keeps c s (load_channel_policy h force s)"
  using same_members_trans [OF apply_record_members persist_restore_members] clear_cached_members
  by (auto simp: load_channel_policy_def intro!: keeps_same_members split: option.split)

lemma broadcast_privilege_io [simp, intro!]: "io_only s (broadcast_privilege_change h c p sign s)"
  by (simp add: broadcast_privilege_change_def Let_def)

lemmas broadcast_privilege_frame [simp, frame_simps] = io_fields [OF broadcast_privilege_io]

lemma service_mode_io [simp, intro!]: "io_only s (broadcast_service_mode_change h b a s)"
  by (simp add: broadcast_service_mode_change_def split: option.split)

lemma service_topic_io [simp, intro!]: "io_only s (broadcast_service_topic_change h s)"
  by (simp add: broadcast_service_topic_change_def)

lemma privilege_members:
  "same_members ch (snd (channel_add_privileges ch c p))"
  "same_members ch (snd (channel_remove_privileges ch c p))"
  "same_members ch (snd (channel_remove_manual_privileges ch c p))"
  "same_members ch (snd (channel_set_service_privileges ch c p))"
proof -
  have w: "ch_name (snd (with_member ch c f)) = ch_name ch \<and>
      map m_client (ch_members (snd (with_member ch c f))) = map m_client (ch_members ch)"
    if "\<And>m. m_client (f m) = m_client m" for f
    using that by (simp add: with_member_def member_update_clients split: option.split)
  show "same_members ch (snd (channel_add_privileges ch c p))"
    "same_members ch (snd (channel_remove_privileges ch c p))"
    "same_members ch (snd (channel_remove_manual_privileges ch c p))"
    "same_members ch (snd (channel_set_service_privileges ch c p))"
    unfolding same_members_def using privilege_ops_inv
    by (simp_all add: privilege_op_defs w Let_def)
qed

lemma sync_member_keeps: "keeps c s (sync_member_privileges h d s)"
proof (cases "channel_find_member (sv_channel s h) d")
  case (Some m)
  show ?thesis
    unfolding sync_member_privileges_def Some option.case Let_def
    by (intro keeps_if keeps_refl keeps_io [OF _ broadcast_privilege_io] keeps_same_members privilege_members)
qed (simp add: sync_member_privileges_def)

lemma sync_channel_keeps: "keeps c s (chanserv_sync_channel_privileges h s)"
  unfolding chanserv_sync_channel_privileges_def by (rule keeps_fold) (rule sync_member_keeps)

lemma sync_client_keeps: "keeps c s (chanserv_sync_client_privileges d s)"
  unfolding chanserv_sync_client_privileges_def by (rule keeps_fold) (rule sync_member_keeps)

lemma sync_account_keeps: "keeps c s (sync_account_privileges h a s)"
  unfolding sync_account_privileges_def by (rule keeps_fold) (simp add: Let_def sync_member_keeps)

lemma persist_channel_keeps: "keeps c s (chanserv_persist_channel h s)"
  by (auto simp: chanserv_persist_channel_def intro!: keeps_fields)

lemma chanserv_keeps [keeps_intros]:
  assumes "keeps c s t"
  shows "keeps c s (load_channel_policy h force t)" and "keeps c s (sync_member_privileges h d t)"
    and "keeps c s (chanserv_sync_channel_privileges h t)" and "keeps c s (chanserv_sync_client_privileges d t)"
    and "keeps c s (sync_account_privileges h a t)" and "keeps c s (chanserv_persist_channel h t)"
    and "keeps c s (chanserv_restore_channel h t)" and "keeps c s (chanserv_refresh_channel h t)"
    and "keeps c s (broadcast_service_mode_change h before after t)" and "keeps c s (broadcast_service_topic_change h t)"
  unfolding chanserv_restore_channel_def chanserv_refresh_channel_def
  by (rule keeps_trans [OF assms] load_policy_keeps sync_member_keeps sync_channel_keeps sync_client_keeps
      sync_account_keeps persist_channel_keeps keeps_io [OF assms] service_mode_io service_topic_io)+

subsection \<open>Access and privileges\<close>

lemma access_privileges_cases:
  "access_privileges l \<in> {0, CHANNEL_PRIV_OWNER OR CHANNEL_PRIV_OPERATOR,
     CHANNEL_PRIV_PROTECTED OR CHANNEL_PRIV_OPERATOR, CHANNEL_PRIV_OPERATOR, CHANNEL_PRIV_HALFOP, CHANNEL_PRIV_VOICE}"
  by (auto simp: access_privileges_def Let_def split: option.split)

lemma client_privileges_cases:
  "chanserv_client_privileges s cl n \<in> {0, CHANNEL_PRIV_OWNER OR CHANNEL_PRIV_OPERATOR,
     CHANNEL_PRIV_PROTECTED OR CHANNEL_PRIV_OPERATOR, CHANNEL_PRIV_OPERATOR, CHANNEL_PRIV_HALFOP, CHANNEL_PRIV_VOICE}"
  using access_privileges_cases [of "chanserv_db_access_get (sv_csdb s) n (c_account_name cl)"]
  by (simp add: chanserv_client_privileges_def Let_def split: option.split)

text \<open>What ChanServ grants lies within what the rank of the grant allows.\<close>

lemma granted_eligible:
  "(chanserv_client_privileges s cl n AND secure_ops_bits) AND NOT (eligible_privileges (chanserv_client_privileges s cl n)) = 0"
  "((0 :: u32) AND secure_ops_bits) AND NOT (eligible_privileges 0) = 0"
proof -
  have "(p AND secure_ops_bits) AND NOT (eligible_privileges p) = 0"
    if "p \<in> {0, CHANNEL_PRIV_OWNER OR CHANNEL_PRIV_OPERATOR,
     CHANNEL_PRIV_PROTECTED OR CHANNEL_PRIV_OPERATOR, CHANNEL_PRIV_OPERATOR, CHANNEL_PRIV_HALFOP, CHANNEL_PRIV_VOICE}" for p
    using that unfolding insert_iff empty_iff by (elim disjE; simp; code_simp)
  then show "(chanserv_client_privileges s cl n AND secure_ops_bits) AND
      NOT (eligible_privileges (chanserv_client_privileges s cl n)) = 0"
    and "((0 :: u32) AND secure_ops_bits) AND NOT (eligible_privileges 0) = 0"
    using client_privileges_cases [of s cl n] by blast+
qed

definition desired_privileges :: "server \<Rightarrow> chref \<Rightarrow> cref \<Rightarrow> u32" where
  "desired_privileges s h c =
     (if channel_mode_has (ch_modes (sv_channel s h)) CHANNEL_MODE_REGISTERED
      then chanserv_client_privileges s (sv_client s c) (ch_name (sv_channel s h)) else 0)"

lemma service_find:
  "channel_find_member (snd (channel_set_service_privileges ch c p)) d =
     (if d = c then map_option (\<lambda>m. m\<lparr>m_service_privileges := p, m_privileges := m_manual_privileges m OR p\<rparr>)
                     (channel_find_member ch c) else channel_find_member ch d)"
  "channel_find_member (snd (channel_remove_manual_privileges ch c q)) d =
     (if d = c then map_option (\<lambda>m. m\<lparr>m_manual_privileges := m_manual_privileges m AND NOT q,
                     m_privileges := (m_manual_privileges m AND NOT q) OR m_service_privileges m\<rparr>)
                     (channel_find_member ch c) else channel_find_member ch d)"
  "fst (channel_set_service_privileges ch c p) = (if channel_find_member ch c = None then -1 else 0)"
  by (simp_all add: privilege_op_defs with_member_find Let_def) (simp add: with_member_def split: option.split)

lemma sync_member_find:
  assumes "channel_find_member (sv_channel s h) c = Some m"
  shows "channel_find_member (sv_channel (sync_member_privileges h c s) h) d =
    (if d = c
     then let manual = (if ch_chanserv_secure_ops (sv_channel s h)
                        then m_manual_privileges m AND NOT ((m_manual_privileges m AND secure_ops_bits) AND
                               NOT (eligible_privileges (desired_privileges s h c)))
                        else m_manual_privileges m)
          in Some (m\<lparr>m_manual_privileges := manual, m_service_privileges := desired_privileges s h c,
                     m_privileges := manual OR desired_privileges s h c\<rparr>)
     else channel_find_member (sv_channel s h) d)"
proof -
  define D where "D = desired_privileges s h c"
  define U where "U = (m_manual_privileges m AND secure_ops_bits) AND NOT (eligible_privileges D)"
  have "sv_channel (sync_member_privileges h c s) h =
      snd (channel_set_service_privileges
        (if ch_chanserv_secure_ops (sv_channel s h) \<and> U \<noteq> 0
         then snd (channel_remove_manual_privileges (sv_channel s h) c U) else sv_channel s h) c D)"
    using assms
    by (simp add: sync_member_privileges_def Let_def desired_privileges_def [symmetric] D_def [symmetric] U_def [symmetric]
        service_find upd_channel_def)
  then show ?thesis
    unfolding U_def [symmetric] D_def [symmetric] using assms
    by (cases m) (simp add: service_find Let_def)
qed

subsection \<open>Properties\<close>

text \<open>
  C33: SECUREOPS is enforced by the synchronisation.  After \<open>sync_member_privileges\<close> the ChanServ share of a member is
  what its account is entitled to; on a SECUREOPS channel its effective privileges from halfop upwards
  lie within what the rank of that entitlement allows, whatever had been granted by MODE.  The
  membership and the records of all other members are unchanged.
\<close>

theorem secure_ops_enforced:
  assumes "channel_find_member (sv_channel s h) c = Some m"
  shows "(\<exists>m'. channel_find_member (sv_channel (sync_member_privileges h c s) h) c = Some m' \<and>
       m_service_privileges m' = desired_privileges s h c \<and> member_inv m' \<and>
       (ch_chanserv_secure_ops (sv_channel s h) \<longrightarrow>
          (m_privileges m' AND secure_ops_bits) AND NOT (eligible_privileges (desired_privileges s h c)) = 0)) \<and>
     (\<forall>d \<noteq> c. channel_find_member (sv_channel (sync_member_privileges h c s) h) d =
        channel_find_member (sv_channel s h) d)"
proof -
  define D where "D = desired_privileges s h c"
  define E where "E = eligible_privileges D"
  have D: "(D AND secure_ops_bits) AND NOT E = 0"
    using granted_eligible(1) [of s "sv_client s c" "ch_name (sv_channel s h)"] granted_eligible(2)
    by (simp add: D_def E_def desired_privileges_def)
  have "((((k AND NOT ((k AND secure_ops_bits) AND NOT E)) OR D) AND secure_ops_bits) AND NOT E) = 0" for k
  proof -
    have "(((k AND NOT ((k AND secure_ops_bits) AND NOT E)) AND secure_ops_bits) AND NOT E) = 0"
      by (rule bit_eqI) (auto simp: bit_and_iff bit_or_iff bit_not_iff)
    then show ?thesis using D by (simp add: bit.conj_disj_distrib2)
  qed
  then show ?thesis
    using sync_member_find [OF assms]
    unfolding D_def [symmetric] E_def [symmetric] by (simp add: Let_def member_inv_def)
qed

theorem secure_ops_enforced_witness:
  "let s = upd_channel 0 (\<lambda>ch. ch\<lparr>ch_chanserv_secure_ops := True\<rparr>) example_room
   in \<exists>m'. channel_find_member (sv_channel (sync_member_privileges 0 0 s) 0) 0 = Some m' \<and> m_service_privileges m' = 0 \<and>
        m_privileges m' AND secure_ops_bits = 0"
proof -
  let ?s = "upd_channel 0 (\<lambda>ch. ch\<lparr>ch_chanserv_secure_ops := True\<rparr>) example_room"
  obtain m where m: "channel_find_member (sv_channel ?s 0) 0 = Some m"
    by (simp add: upd_channel_def channel_find_member_def)
  have "desired_privileges ?s 0 0 = 0" "eligible_privileges 0 = 0"
    by (simp_all add: desired_privileges_def upd_channel_def channel_mode_has_def eligible_privileges_def channel_privilege_rank_def)
  then show ?thesis
    using secure_ops_enforced [OF m] by (auto simp: Let_def upd_channel_def)
qed

text \<open>
  An accepted topic always fits.  For every server name the configuration accepts the topic limit is 378 bytes, and a topic
  within it fits into a 332 reply to any nickname and into a TOPIC relayed from any client, for
  every channel name.
\<close>

theorem topic_limit_guarantee:
  assumes "length (server_name s) \<le> IRC_HOST_MAX" "length topic \<le> irc_topic_limit s"
    and "length nick \<le> IRC_NICK_MAX" "length user \<le> IRC_USER_MAX" "length host \<le> IRC_HOST_MAX"
    and "length channel \<le> IRC_CHANNEL_NAME_MAX"
  shows "irc_topic_limit s = 378 \<and> length (RPL_TOPIC s nick channel topic) \<le> IRC_LINE_CONTENT_MAX \<and>
    length (topic_relay nick user host channel topic) \<le> IRC_LINE_CONTENT_MAX"
proof -
  have l: "irc_topic_limit s = 378"
    using assms(1) by (simp add: irc_topic_limit_def RPL_TOPIC_def topic_relay_def numeric_def Let_def)
  then show ?thesis using assms by (simp add: RPL_TOPIC_def topic_relay_def numeric_def)
qed

theorem topic_limit_guarantee_witness:
  "length (RPL_TOPIC example_room ''alice'' ''#room'' (replicate 378 (CHR ''x''))) \<le> 510"
proof -
  have l: "irc_topic_limit example_room = 378"
    by (simp add: irc_topic_limit_def RPL_TOPIC_def topic_relay_def numeric_def Let_def example_room_def
        server_blank_def config_blank_def)
  show ?thesis
    using topic_limit_guarantee [of example_room "replicate 378 (CHR ''x'')" "''alice''" "''u''" "''h''" "''#room''"] l
    by (simp add: example_room_def server_blank_def config_blank_def)
qed

text \<open>
  A change of \<open>+s\<close> by the mode lock is not announced.  ChanServ can lock the letter \<open>s\<close>, but the
  letters it announces leave it out: when the service changes nothing but \<open>+s\<close>, no
  member is told.
\<close>

theorem secret_lock_change_silent:
  "parse_mode_lock ''+s'' = Some CHANNEL_MODE_SECRET \<and>
   broadcast_service_mode_change h modes (modes XOR CHANNEL_MODE_SECRET) s = s"
proof -
  have p: "parse_mode_lock ''+s'' = Some CHANNEL_MODE_SECRET"
    by code_simp
  have "persistent_mode_mask AND CHANNEL_MODE_SECRET = 0"
    by code_simp
  then have "(modes XOR CHANNEL_MODE_SECRET) AND persistent_mode_mask = modes AND persistent_mode_mask"
    by (simp add: and.commute [of _ persistent_mode_mask] bit.conj_xor_distrib)
  moreover have "service_mode_text b b ls sg ms = Some ms" for b ls sg ms
    by (induction ls arbitrary: sg ms) simp_all
  ultimately show ?thesis using p by (simp add: broadcast_service_mode_change_def)
qed

end
