(* ===== verification/Replies.thy ===== *)
theory Replies
  imports Dispatch ChanServ
begin

section \<open>Shared replies of the commands (src/commands/common.c, src/commands/names.c)\<close>

text \<open>
  The registration check, the replies that quote a query, and the NAMES replies that JOIN and NAMES share.
  The static \<open>command_server_name\<close> that \<open>command_require_registered\<close> uses is set to the configured server
  name before the server runs, so it is the server name here.
\<close>

subsection \<open>Registration and quoted queries\<close>

text \<open>True when the command is refused.\<close>

definition command_require_registered :: "cref \<Rightarrow> server \<Rightarrow> bool \<times> server" where
  "command_require_registered c s =
     (if c_registered (sv_client s c) then (False, s)
      else (True, sendf c ('':'' @ server_name s @ '' 451 '' @ command_reply_nick (sv_client s c) @
              '' :You have not registered'') s))"

text \<open>\<open>if (command_require_registered(client)) return COMMAND_KEEP_CLIENT;\<close> before the rest of a handler.\<close>

definition registered_only :: "cref \<Rightarrow> (server \<Rightarrow> command_result \<times> server) \<Rightarrow> server \<Rightarrow> command_result \<times> server" where
  "registered_only c body s =
     (let (refused, s1) = command_require_registered c s
      in if refused then (COMMAND_KEEP_CLIENT, s1) else body s1)"

definition ERR_NEEDMOREPARAMS :: "cref \<Rightarrow> string \<Rightarrow> server \<Rightarrow> command_result \<times> server" where
  "ERR_NEEDMOREPARAMS c command s =
     (COMMAND_KEEP_CLIENT,
      sendf c (numeric s ''461'' (c_nick (sv_client s c)) (command @ '' :Not enough parameters'')) s)"

text \<open>A numeric about a channel, sent as the last act of a handler.\<close>

definition reply :: "cref \<Rightarrow> string \<Rightarrow> string \<Rightarrow> server \<Rightarrow> command_result \<times> server" where
  "reply c num rest s = (COMMAND_KEEP_CLIENT, sendf c (numeric s num (c_nick (sv_client s c)) rest) s)"

text \<open>
  \<open>send_no_such_channel_query\<close>, \<open>send_kick_query_error\<close> and \<open>send_invite_query_error\<close>: the
  query is cut so that the reply fits a line.
\<close>

definition send_query_error :: "cref \<Rightarrow> string \<Rightarrow> string \<Rightarrow> string \<Rightarrow> server \<Rightarrow> server" where
  "send_query_error c num text query s =
     (let nick = c_nick (sv_client s c);
          base_length = length ('':'' @ server_name s @ '' '' @ num @ '' '' @ nick @ ''  :'' @ text)
      in if base_length > IRC_LINE_CONTENT_MAX then s
         else sendf c (numeric s num nick (take (IRC_LINE_CONTENT_MAX - base_length) query @ '' :'' @ text)) s)"

definition send_no_such_channel_query :: "cref \<Rightarrow> string option \<Rightarrow> server \<Rightarrow> server" where
  "send_no_such_channel_query c query s =
     send_query_error c ''403'' ''No such channel'' (case query of None \<Rightarrow> ''*'' | Some q \<Rightarrow> q) s"

subsection \<open>NAMES replies\<close>

definition RPL_NAMREPLY :: "server \<Rightarrow> string \<Rightarrow> char \<Rightarrow> string \<Rightarrow> string \<Rightarrow> string" where
  "RPL_NAMREPLY s nick marker channel names = numeric s ''353'' nick (marker # '' '' @ channel @ '' :'' @ names)"

definition names_payload_fits :: "server \<Rightarrow> string \<Rightarrow> char \<Rightarrow> string \<Rightarrow> string \<Rightarrow> bool" where
  "names_payload_fits s nick marker channel names \<longleftrightarrow>
     length (RPL_NAMREPLY s nick marker channel names) \<le> IRC_LINE_CONTENT_MAX"

definition names_token :: "server \<Rightarrow> member \<Rightarrow> string" where
  "names_token s m =
     (case channel_privilege_prefix (m_privileges m) of
        Some p \<Rightarrow> p # c_nick (sv_client s (m_client m))
      | None \<Rightarrow> c_nick (sv_client s (m_client m)))"

text \<open>
  The loop over the members: the payloads of the finished lines and, last, the names still in the
  buffer.
\<close>

fun names_pack :: "(string \<Rightarrow> bool) \<Rightarrow> string \<Rightarrow> string list \<Rightarrow> string list" where
  "names_pack fits names [] = [names]"
| "names_pack fits names (tk # tks) =
     (let candidate = (if names \<noteq> [] then names @ '' '' @ tk else names @ tk)
      in if length candidate < IRC_LINE_CONTENT_MAX + 1 \<and> fits candidate then names_pack fits candidate tks
         else (if names \<noteq> [] then [names] else []) @ names_pack fits tk tks)"

definition names_lines :: "server \<Rightarrow> chref \<Rightarrow> cref \<Rightarrow> char \<Rightarrow> string list" where
  "names_lines s h c marker =
     (let ch = sv_channel s h;
          nick = c_nick (sv_client s c);
          toks = filter (\<lambda>t. length t < IRC_NICK_MAX + 2) (map (names_token s) (ch_members ch));
          packed = names_pack (names_payload_fits s nick marker (ch_name ch)) [] toks
      in map (RPL_NAMREPLY s nick marker (ch_name ch))
           (butlast packed @ (if last packed \<noteq> [] \<or> ch_member_count ch = 0 then [last packed] else [])))"

definition RPL_ENDOFNAMES :: "server \<Rightarrow> string \<Rightarrow> string \<Rightarrow> string" where
  "RPL_ENDOFNAMES s nick channel = numeric s ''366'' nick (channel @ '' :End of /NAMES list.'')"

definition command_send_names :: "chref \<Rightarrow> cref \<Rightarrow> server \<Rightarrow> server" where
  "command_send_names h c s =
     (let marker = (if starts_with ''&'' (ch_name (sv_channel s h)) then CHR ''*'' else CHR ''='')
      in sendf c (RPL_ENDOFNAMES s (c_nick (sv_client s c)) (ch_name (sv_channel s h)))
           (fold (sendf c) (names_lines s h c marker) s))"

text \<open>The lines of NAMES stop when the receiver's queue overflows.\<close>

fun send_until_overflow :: "cref \<Rightarrow> string list \<Rightarrow> server \<Rightarrow> bool \<times> server" where
  "send_until_overflow c [] s = (False, s)"
| "send_until_overflow c (l # ls) s =
     (let s1 = sendf c l s in if o_overflowed (sv_out s1 c) then (True, s1) else send_until_overflow c ls s1)"

definition send_names_for_channel :: "cref \<Rightarrow> chref \<Rightarrow> server \<Rightarrow> server" where
  "send_names_for_channel c h s =
     (let ch = sv_channel s h;
          nick = c_nick (sv_client s c)
      in if \<not> visibility_names_channel s c ch then sendf c (RPL_ENDOFNAMES s nick (ch_name ch)) s
         else let marker = (if channel_mode_has (ch_modes ch) CHANNEL_MODE_SECRET then CHR ''@''
                            else if channel_mode_has (ch_modes ch) CHANNEL_MODE_PRIVATE \<or> starts_with ''&'' (ch_name ch)
                            then CHR ''*'' else CHR ''='');
                  (stopped, s1) = send_until_overflow c (names_lines s h c marker) s
              in if stopped then s1 else sendf c (RPL_ENDOFNAMES s nick (ch_name ch)) s1)"

fun names_entries :: "cref \<Rightarrow> (string \<times> chref) list \<Rightarrow> server \<Rightarrow> server" where
  "names_entries c [] s = s"
| "names_entries c ((k, h) # es) s =
     (if visibility_names_channel s c (sv_channel s h)
      then let s1 = send_names_for_channel c h s
           in if o_overflowed (sv_out s1 c) then s1 else names_entries c es s1
      else names_entries c es s)"

definition command_names :: "cref \<Rightarrow> string option \<Rightarrow> server \<Rightarrow> command_result \<times> server" where
  "command_names c params = registered_only c (\<lambda>s.
     case Option.bind params (strtok '' ,'') of
       Some (name, _) \<Rightarrow>
         (COMMAND_KEEP_CLIENT,
          case hash_get (sv_channels_by_name s) name of
            Some h \<Rightarrow> send_names_for_channel c h s
          | None \<Rightarrow> send_query_error c ''366'' ''End of /NAMES list.'' name s)
     | None \<Rightarrow>
         (COMMAND_KEEP_CLIENT,
          fold (\<lambda>bucket s. if o_overflowed (sv_out s c) then s else names_entries c bucket s)
            (buckets (sv_channels_by_name s)) s))"

subsection \<open>Packing names\<close>

definition word_token :: "string \<Rightarrow> bool" where
  "word_token t \<longleftrightarrow> t \<noteq> [] \<and> CHR '' '' \<notin> set t"

lemma tokens_words: "\<forall>t\<in>set ts. word_token t \<Longrightarrow> tokens '' '' (join (CHR '' '') ts) = ts"
  by (rule tokens_join) (simp add: word_token_def)

lemma names_pack_tokens:
  assumes "\<forall>t\<in>set ps. word_token t" "\<forall>t\<in>set tks. word_token t \<and> fits t"
    and "ps = [] \<or> fits (join (CHR '' '') ps)"
  shows "concat (map (tokens '' '') (names_pack fits (join (CHR '' '') ps) tks)) = ps @ tks \<and>
    (\<forall>p\<in>set (names_pack fits (join (CHR '' '') ps) tks). p = [] \<or> fits p)"
  using assms
proof (induction tks arbitrary: ps)
  case Nil
  then show ?case using tokens_words by auto
next
  case (Cons tk tks)
  have tk: "word_token tk" "fits tk" using Cons.prems(2) by auto
  have empty: "join (CHR '' '') ps = [] \<longleftrightarrow> ps = []"
    using Cons.prems(1) by (intro join_Nil_iff) (simp add: word_token_def)
  have cand: "(if join (CHR '' '') ps \<noteq> [] then join (CHR '' '') ps @ '' '' @ tk else join (CHR '' '') ps @ tk) =
      join (CHR '' '') (ps @ [tk])"
    using empty by (simp add: join_snoc)
  let ?cand = "join (CHR '' '') (ps @ [tk])"
  show ?case
  proof (cases "length ?cand < IRC_LINE_CONTENT_MAX + 1 \<and> fits ?cand")
    case True
    then have eq: "names_pack fits (join (CHR '' '') ps) (tk # tks) = names_pack fits ?cand tks"
      unfolding names_pack.simps Let_def cand by simp
    show ?thesis
      unfolding eq using Cons.IH [of "ps @ [tk]"] Cons.prems True tk by simp
  next
    case False
    then have eq: "names_pack fits (join (CHR '' '') ps) (tk # tks) =
        (if ps \<noteq> [] then [join (CHR '' '') ps] else []) @ names_pack fits (join (CHR '' '') [tk]) tks"
      unfolding names_pack.simps Let_def cand if_not_P [OF False] unfolding empty by simp
    show ?thesis
      unfolding eq using Cons.IH [of "[tk]"] Cons.prems tk tokens_words [OF Cons.prems(1)] by auto
  qed
qed

lemma names_pack_ne: "names_pack fits names tks \<noteq> []"
  by (induction fits names tks rule: names_pack.induct) (simp_all add: Let_def)

subsection \<open>Replies only produce output\<close>

lemma query_error_io [simp, intro!]: "io_only s (send_query_error c n t q s)"
  by (simp add: send_query_error_def Let_def)

lemma no_such_channel_io [simp, intro!]: "io_only s (send_no_such_channel_query c q s)"
  by (simp add: send_no_such_channel_query_def)

lemma reply_io [simp, intro!]: "io_only s (snd (reply c n r s))" "io_only s (snd (ERR_NEEDMOREPARAMS c cmd s))"
  by (simp_all add: reply_def ERR_NEEDMOREPARAMS_def)

lemma send_names_io [simp, intro!]: "io_only s (command_send_names h c s)"
proof -
  have "io_only s (fold (sendf c) ls s)" for ls by (rule io_only_fold) simp
  then show ?thesis by (auto simp: command_send_names_def Let_def intro: io_only_trans)
qed

lemma until_overflow_io: "io_only s (snd (send_until_overflow c ls s))"
proof (induction c ls s rule: send_until_overflow.induct)
  case (2 c l ls s)
  then show ?case using io_only_trans [of s "sendf c l s"] by (simp add: Let_def)
qed simp

lemma names_for_channel_io [simp, intro!]: "io_only s (send_names_for_channel c h s)"
  using until_overflow_io by (auto simp: send_names_for_channel_def Let_def case_prod_beta intro: io_only_trans)

lemma names_entries_io: "io_only s (names_entries c es s)"
proof (induction c es s rule: names_entries.induct)
  case (2 c k h es s)
  then show ?case using io_only_trans [of s "send_names_for_channel c h s"] by (auto simp: Let_def)
qed simp

lemma require_registered_io: "io_only s (snd (command_require_registered c s))"
  by (simp add: command_require_registered_def)

text \<open>A guarded handler respects the server when its body does.\<close>

lemma registered_only_keeps:
  assumes "\<And>s. keeps c s (snd (body s))"
  shows "keeps c s (snd (registered_only c body s))"
proof -
  have "keeps c s (snd (command_require_registered c s))"
    by (rule keeps_io [OF keeps_refl require_registered_io])
  then show ?thesis
    using keeps_trans [OF _ assms] by (simp add: registered_only_def case_prod_beta)
qed

lemma replies_keeps [keeps_intros]:
  assumes "keeps c s t"
  shows "keeps c s (send_query_error d n x q t)" and "keeps c s (send_no_such_channel_query d o1 t)"
    and "keeps c s (snd (reply d n r t))" and "keeps c s (snd (ERR_NEEDMOREPARAMS d cmd t))"
    and "keeps c s (command_send_names h d t)"
  by (rule keeps_io [OF assms]; simp)+

lemma command_names_keeps: "keeps c s (snd (command_names c params s))"
  unfolding command_names_def
proof (rule registered_only_keeps)
  fix s
  have "io_only s (fold (\<lambda>bucket s. if o_overflowed (sv_out s c) then s else names_entries c bucket s) bs s)" for bs
    by (rule io_only_fold) (simp add: names_entries_io)
  then show "keeps c s (snd (case Option.bind params (strtok '' ,'') of
       Some (name, _) \<Rightarrow>
         (COMMAND_KEEP_CLIENT,
          case hash_get (sv_channels_by_name s) name of
            Some h \<Rightarrow> send_names_for_channel c h s
          | None \<Rightarrow> send_query_error c ''366'' ''End of /NAMES list.'' name s)
     | None \<Rightarrow>
         (COMMAND_KEEP_CLIENT,
          fold (\<lambda>bucket s. if o_overflowed (sv_out s c) then s else names_entries c bucket s)
            (buckets (sv_channels_by_name s)) s)))"
    by (auto intro!: keeps_io [OF keeps_refl] split: option.split)
qed

subsection \<open>Properties\<close>

text \<open>
  A NAMES reply is complete.  The 353 lines sent for a channel carry every member exactly once, in
  order and with its prefix, and every line fits the wire; identities are within the limits that NICK and
  the configuration enforce.
\<close>

theorem names_replies_complete:
  assumes "\<And>m. m \<in> set (ch_members (sv_channel s h)) \<Longrightarrow>
      word_token (c_nick (sv_client s (m_client m))) \<and> length (c_nick (sv_client s (m_client m))) \<le> IRC_NICK_MAX"
    and "length (server_name s) \<le> IRC_HOST_MAX" "length (c_nick (sv_client s c)) \<le> IRC_NICK_MAX"
    and "length (ch_name (sv_channel s h)) \<le> IRC_CHANNEL_NAME_MAX"
  shows "\<exists>payloads. names_lines s h c marker =
      map (RPL_NAMREPLY s (c_nick (sv_client s c)) marker (ch_name (sv_channel s h))) payloads \<and>
    concat (map (tokens '' '') payloads) = map (names_token s) (ch_members (sv_channel s h)) \<and>
    (\<forall>line\<in>set (names_lines s h c marker). length line \<le> IRC_LINE_CONTENT_MAX)"
proof -
  let ?fits = "names_payload_fits s (c_nick (sv_client s c)) marker (ch_name (sv_channel s h))"
  let ?toks = "map (names_token s) (ch_members (sv_channel s h))"
  define packed where "packed = names_pack ?fits [] ?toks"
  have tok: "word_token t \<and> length t < IRC_NICK_MAX + 2" if "t \<in> set ?toks" for t
    using that assms(1) by (fastforce simp: names_token_def word_token_def channel_privilege_prefix_def
        split: option.splits if_splits)
  then have f: "filter (\<lambda>t. length t < IRC_NICK_MAX + 2) ?toks = ?toks"
    by (simp add: filter_id_conv)
  have fits: "?fits t" if "length t \<le> 16" for t
    using that assms(2-4) by (simp add: names_payload_fits_def RPL_NAMREPLY_def numeric_def)
  have "\<forall>t\<in>set ?toks. word_token t \<and> ?fits t"
  proof
    fix t assume "t \<in> set ?toks"
    then have "word_token t" "length t < 17" using tok [of t] by auto
    then show "word_token t \<and> ?fits t" using fits [of t] by simp
  qed
  from names_pack_tokens [of "[]" ?toks ?fits, OF _ this]
  have p: "concat (map (tokens '' '') packed) = ?toks" "\<And>x. x \<in> set packed \<Longrightarrow> x = [] \<or> ?fits x"
    by (simp_all add: packed_def)
  have "packed \<noteq> []" by (simp add: packed_def names_pack_ne)
  then have split: "packed = butlast packed @ [last packed]" by simp
  define out where "out = butlast packed @ (if last packed \<noteq> [] \<or> ch_member_count (sv_channel s h) = 0 then [last packed] else [])"
  have "tokens '' '' [] = []" by (simp add: tokens.simps strtok_def)
  then have "concat (map (tokens '' '') out) = concat (map (tokens '' '') packed)"
    using arg_cong [OF split, of "\<lambda>l. concat (map (tokens '' '') l)"] by (auto simp: out_def)
  moreover have "names_lines s h c marker =
      map (RPL_NAMREPLY s (c_nick (sv_client s c)) marker (ch_name (sv_channel s h))) out"
    unfolding names_lines_def Let_def f out_def packed_def ..
  moreover have "?fits x" if "x \<in> set out" for x
  proof -
    have "x \<in> set packed"
      using that last_in_set [OF \<open>packed \<noteq> []\<close>] by (auto simp: out_def dest: in_set_butlastD split: if_splits)
    then show ?thesis using p(2) fits [of "[]"] by auto
  qed
  ultimately show ?thesis using p(1) by (auto simp: names_payload_fits_def)
qed

theorem names_replies_complete_witness:
  "\<exists>payloads. names_lines example_room 0 0 (CHR ''='') = map (RPL_NAMREPLY example_room ''alice'' (CHR ''='') ''#room'') payloads \<and>
     concat (map (tokens '' '') payloads) = [''bob'', ''@alice'']"
proof -
  have "names_token example_room (example_member 1 0) = ''bob''"
    "names_token example_room (example_member 0 CHANNEL_PRIV_OPERATOR) = ''@alice''"
    by (simp_all add: names_token_def channel_privilege_prefix_def mode_bits CHANNEL_PRIV_OPERATOR_def)
  moreover have "word_token (c_nick (sv_client example_room (m_client m))) \<and>
      length (c_nick (sv_client example_room (m_client m))) \<le> IRC_NICK_MAX"
    if "m \<in> set (ch_members (sv_channel example_room 0))" for m
    using that by (auto simp: word_token_def)
  ultimately show ?thesis
    using names_replies_complete [of example_room 0 0 "CHR ''=''"] by (auto simp: config_blank_def)
qed

end
