(* ===== verification/Join_Part.thy ===== *)
theory Join_Part
  imports Replies
begin

section \<open>JOIN and PART (src/commands/joinpart.c)\<close>

text \<open>
  JOIN with its access checks, redirects and greeting, and PART.  The records that \<open>channel_log_join\<close> and
  \<open>channel_log_part\<close> append to the channel log are not represented.  \<open>join_one\<close> is split
  where the code has its stages: finding or creating the channel, deciding, and entering it.
\<close>

abbreviation IRC_JOIN_REDIRECT_MAX :: nat where "IRC_JOIN_REDIRECT_MAX \<equiv> 4"

definition IRC_DEFAULT_PART_REASON :: string where
  "IRC_DEFAULT_PART_REASON = ''Leaving''"

subsection \<open>Finding the channel\<close>

text \<open>The channel to be decided on, with \<open>None\<close> when the command ends here.\<close>

definition join_restore :: "cref \<Rightarrow> chref \<Rightarrow> bool \<Rightarrow> server \<Rightarrow> chref option \<times> server" where
  "join_restore c h created s0 =
     (if channel_has_client (sv_channel s0 h) c then (None, s0)
      else let s = chanserv_restore_channel h s0
           in if channel_mode_has (ch_modes (sv_channel s h)) CHANNEL_MODE_REGISTERED
              then let (rc, ch) = chanserv_persist_restore (sv_alloc s) (sv_csdb s) (sv_channel s h);
                       s1 = upd_channel h (\<lambda>_. ch) s
                   in if rc \<noteq> 0
                      then let s2 = sendf c ('':'' @ server_name s1 @ '' NOTICE '' @ c_nick (sv_client s1 c) @
                                 '' :Cannot join '' @ ch_name ch @ '': persistent channel state could not be restored.'') s1
                           in (None, if created then server_remove_channel_if_empty h s2 else s2)
                      else (Some h, s1)
              else (Some h, s))"

definition join_open :: "cref \<Rightarrow> string option \<Rightarrow> server \<Rightarrow> chref option \<times> server" where
  "join_open c name_option s =
     (case name_option of
        None \<Rightarrow> (None, send_no_such_channel_query c None s)
      | Some name \<Rightarrow>
          if \<not> channel_name_valid name then (None, send_no_such_channel_query c (Some name) s)
          else if c_channel_count (sv_client s c) \<ge> IRC_MAX_CHANNELS_PER_CLIENT
          then (None, snd (reply c ''405'' (name @ '' :You have joined too many channels'') s))
          else case hash_get (sv_channels_by_name s) name of
                 Some h \<Rightarrow> join_restore c h False s
               | None \<Rightarrow>
                   let limit = cf_max_channels (sv_config s)
                   in if sv_channel_count s \<ge> limit
                      then let s1 = sendf c ('':'' @ server_name s @ '' NOTICE '' @ c_nick (sv_client s c) @
                                 '' :Cannot create '' @ name @ '': server channel limit reached ('' @ dec limit @ '')'') s
                           in (None, snotice_broadcast SNOTICE_FLOOD
                                 (''Channel creation rejected for '' @ name @ '' (nick='' @ c_nick (sv_client s c) @
                                  ''): global channel limit reached ('' @ dec (sv_channel_count s) @ ''/'' @ dec limit @ '')'') s1)
                      else case server_get_or_create_channel name s of
                             (None, s1) \<Rightarrow> (None, s1)
                           | (Some h, s1) \<Rightarrow> join_restore c h True s1)"

subsection \<open>Deciding\<close>

datatype join_verdict = JoinAdmit | JoinRefuse string string | JoinRedirect string string

definition join_banned :: "server \<Rightarrow> chref \<Rightarrow> cref \<Rightarrow> bool" where
  "join_banned s h c =
     (let ch = sv_channel s h;
          cl = sv_client s c;
          service_privileges = chanserv_client_privileges s cl (ch_name ch)
      in if channel_privilege_has service_privileges CHANNEL_PRIV_OWNER then False
         else if channel_privilege_has service_privileges CHANNEL_PRIV_PROTECTED
         then channel_client_is_banned_protected ch cl
         else channel_client_is_banned ch cl)"

definition link_text :: "string \<Rightarrow> string \<Rightarrow> string" where
  "link_text from to = ''[Link] '' @ from @
     '' has become full so you are automatically being transferred to the linked channel '' @ to"

definition join_decision :: "server \<Rightarrow> chref \<Rightarrow> cref \<Rightarrow> string option \<Rightarrow> nat \<Rightarrow> join_verdict" where
  "join_decision s h c key redirect_depth =
     (let ch = sv_channel s h;
          cl = sv_client s c;
          name = ch_name ch;
          redirect = (\<lambda>target num refused.
            if target \<noteq> [] \<and> redirect_depth < IRC_JOIN_REDIRECT_MAX \<and> channel_name_valid target
            then JoinRedirect target (link_text name target) else JoinRefuse num refused)
      in if ch_key ch \<noteq> [] \<and> key \<noteq> Some (ch_key ch)
         then JoinRefuse ''475'' (name @ '' :Cannot join channel (+k)'')
         else if join_banned s h c
         then redirect (ch_ban_redirect ch) ''474'' (name @ '' :Cannot join channel (+b)'')
         else if ch_user_limit ch \<noteq> 0 \<and> ch_member_count ch \<ge> ch_user_limit ch
         then redirect (ch_limit_redirect ch) ''471'' (name @ '' :Cannot join channel (+l)'')
         else if channel_mode_has (ch_modes ch) CHANNEL_MODE_REGONLY_JOIN \<and>
                 \<not> client_mode_has (c_modes cl) CLIENT_MODE_REGISTERED
         then JoinRefuse ''477'' (name @ '' :You need a registered nick to join that channel.'')
         else if channel_mode_has (ch_modes ch) CHANNEL_MODE_OPER_ONLY \<and>
                 \<not> client_mode_has (c_modes cl) (CLIENT_MODE_OPER OR CLIENT_MODE_NETADMIN)
         then JoinRefuse ''520'' ('':Cannot join channel '' @ name @ '' (IRCops only)'')
         else if channel_mode_has (ch_modes ch) CHANNEL_MODE_ADMIN_ONLY \<and>
                 \<not> client_mode_has (c_modes cl) CLIENT_MODE_NETADMIN
         then JoinRefuse ''519'' ('':Cannot join channel '' @ name @ '' (Admin only)'')
         else if channel_mode_has (ch_modes ch) CHANNEL_MODE_SECURE_ONLY \<and>
                 \<not> client_mode_has (c_modes cl) CLIENT_MODE_SECURE
         then JoinRefuse ''489'' (name @ '' :Cannot join channel (SSL is required)'')
         else if channel_mode_has (ch_modes ch) CHANNEL_MODE_INVITE_ONLY \<and>
                 \<not> channel_invite_has ch (c_id cl) \<and> \<not> channel_client_is_invex ch cl
         then JoinRefuse ''473'' (name @ '' :Cannot join channel (+i)'')
         else if \<not> channel_join_throttle_allows ch (sv_clock s)
         then JoinRefuse ''500'' (name @ '' :Too many join requests. Please wait a while and try again.'')
         else JoinAdmit)"

subsection \<open>Entering\<close>

definition join_enter :: "chref \<Rightarrow> cref \<Rightarrow> server \<Rightarrow> int \<times> server" where
  "join_enter h c s =
     (let ch = sv_channel s h;
          service_privileges = chanserv_client_privileges s (sv_client s c) (ch_name ch);
          invited = channel_invite_has ch (c_id (sv_client s c));
          registered = channel_mode_has (ch_modes ch) CHANNEL_MODE_REGISTERED;
          first_member = (ch_member_count ch = 0);
          (rc, s1) = add_member h c s
      in if rc < 0 then (rc, s1)
         else let s2 = upd_channel h (\<lambda>ch. channel_join_throttle_record ch (sv_clock s)) s1;
                  s3 = (if invited then upd_channel h (\<lambda>ch. snd (channel_invite_consume ch (c_id (sv_client s c)))) s2 else s2);
                  s4 = (if first_member \<and> \<not> registered
                        then upd_channel h (\<lambda>ch. snd (channel_add_privileges ch c (CHANNEL_PRIV_OWNER OR CHANNEL_PRIV_OPERATOR))) s3
                        else s3);
                  s5 = (if registered \<and> service_privileges \<noteq> 0
                        then upd_channel h (\<lambda>ch. snd (channel_set_service_privileges ch c service_privileges)) s4 else s4);
                  s6 = (if registered then chanserv_sync_channel_privileges h s5 else s5)
              in (0, s6))"

definition topic_lines :: "server \<Rightarrow> cref \<Rightarrow> chref \<Rightarrow> string list" where
  "topic_lines s c h =
     (let ch = sv_channel s h;
          nick = c_nick (sv_client s c)
      in if ch_topic ch = [] then [numeric s ''331'' nick (ch_name ch @ '' :No topic is set.'')]
         else [RPL_TOPIC s nick (ch_name ch) (ch_topic ch),
               numeric s ''333'' nick (ch_name ch @ '' '' @ ch_topic_setter ch @ '' '' @ dec (nat (ch_topic_time ch mod 2 ^ 64)))])"

definition join_announce :: "chref \<Rightarrow> cref \<Rightarrow> server \<Rightarrow> server" where
  "join_announce h c s =
     (let s1 = ircv3_away_notify_join h c (ircv3_broadcast_join h c s);
          s2 = fold (sendf c) (topic_lines s1 c h) s1;
          greeting = ch_chanserv_greeting (sv_channel s2 h);
          s3 = (if greeting \<noteq> []
                then sendf c ('':ChanServ!service@'' @ server_name s2 @ '' NOTICE '' @ c_nick (sv_client s2 c) @ '' :'' @ greeting) s2
                else s2)
      in command_send_names h c s3)"

lemma join_redirect_depth: "join_decision s h c key d = JoinRedirect t l \<Longrightarrow> d < IRC_JOIN_REDIRECT_MAX"
  by (auto simp: join_decision_def Let_def split: if_splits)

function join_one :: "cref \<Rightarrow> string option \<Rightarrow> string option \<Rightarrow> nat \<Rightarrow> server \<Rightarrow> server" where
  "join_one c name key redirect_depth s =
     (case join_open c name s of
        (None, s1) \<Rightarrow> s1
      | (Some h, s1) \<Rightarrow>
          (case join_decision s1 h c key redirect_depth of
             JoinRefuse num refused \<Rightarrow> snd (reply c num refused s1)
           | JoinRedirect target linked \<Rightarrow>
               join_one c (Some target) None (redirect_depth + 1) (snd (reply c ''470'' linked s1))
           | JoinAdmit \<Rightarrow>
               let (rc, s2) = join_enter h c s1
               in if rc < 0 then s2 else join_announce h c s2))"
  by pat_completeness auto
termination
  by (relation "measure (\<lambda>(c, name, key, d, s). IRC_JOIN_REDIRECT_MAX - d)") (auto dest: join_redirect_depth)

declare join_one.simps [simp del]

subsection \<open>The commands\<close>

definition nospoof_version_restricted :: "server \<Rightarrow> client \<Rightarrow> bool" where
  "nospoof_version_restricted s cl \<longleftrightarrow>
     cf_nospoof_enabled (sv_config s) \<and> c_version_requested cl \<and> \<not> c_version_received cl"

definition command_join :: "cref \<Rightarrow> string option \<Rightarrow> server \<Rightarrow> command_result \<times> server" where
  "command_join c params = registered_only c (\<lambda>s.
     case params of
       None \<Rightarrow> ERR_NEEDMOREPARAMS c ''JOIN'' s
     | Some p \<Rightarrow>
         if nospoof_version_restricted s (sv_client s c)
         then (COMMAND_KEEP_CLIENT, sendf c ('':'' @ server_name s @ '' NOTICE '' @ c_nick (sv_client s c) @
                 '' :You must respond to the CTCP VERSION request before joining channels.'') s)
         else let (name, rest) = tok1 p;
                  (key, _) = tok1 rest
              in (COMMAND_KEEP_CLIENT, join_one c name key 0 s))"

text \<open>An optional trailing parameter without its leading colon.\<close>

definition trailing :: "string option \<Rightarrow> string option" where
  "trailing r = map_option (\<lambda>t. if starts_with '':'' t then drop 1 t else t) r"

definition reason_or :: "string \<Rightarrow> string option \<Rightarrow> string" where
  "reason_or dflt r = (case r of Some t \<Rightarrow> if t \<noteq> [] then t else dflt | None \<Rightarrow> dflt)"

definition part_channel :: "cref \<Rightarrow> chref \<Rightarrow> string \<Rightarrow> server \<Rightarrow> server" where
  "part_channel c h reason s =
     (let cl = sv_client s c;
          name = ch_name (sv_channel s h);
          delivered = (if ircv3_message_wire_fits cl ''PART'' name reason then reason else IRC_DEFAULT_PART_REASON);
          message = take (IRCD_MESSAGE_BUFFER_SIZE - 1)
            ('':'' @ client_identity cl @ '' PART '' @ name @ '' :'' @ delivered @ [CR, LF])
      in server_remove_channel_if_empty h (remove_member h c (channel_broadcast h None message s)))"

definition command_part :: "cref \<Rightarrow> string option \<Rightarrow> server \<Rightarrow> command_result \<times> server" where
  "command_part c params = registered_only c (\<lambda>s.
     case params of
       None \<Rightarrow> ERR_NEEDMOREPARAMS c ''PART'' s
     | Some p \<Rightarrow>
         let (name_option, rest) = tok1 p;
             reason = reason_or IRC_DEFAULT_PART_REASON (trailing (tok_rest rest))
         in case name_option of
              None \<Rightarrow> (COMMAND_KEEP_CLIENT, send_no_such_channel_query c None s)
            | Some name \<Rightarrow>
                if \<not> channel_name_valid name then (COMMAND_KEEP_CLIENT, send_no_such_channel_query c (Some name) s)
                else case hash_get (sv_channels_by_name s) name of
                       None \<Rightarrow> reply c ''403'' (name @ '' :No such channel'') s
                     | Some h \<Rightarrow>
                         if \<not> channel_has_client (sv_channel s h) c
                         then reply c ''442'' (ch_name (sv_channel s h) @ '' :You're not on that channel'') s
                         else (COMMAND_KEEP_CLIENT, part_channel c h reason s))"

subsection \<open>What entering a channel leaves alone\<close>

text \<open>The fields of a channel on which admission depends, apart from its members and invitations.\<close>

definition same_policy :: "channel \<Rightarrow> channel \<Rightarrow> bool" where
  "same_policy a b \<longleftrightarrow> ch_name b = ch_name a \<and> ch_modes b = ch_modes a \<and> ch_key b = ch_key a \<and>
     ch_user_limit b = ch_user_limit a \<and> ch_ban_list b = ch_ban_list a \<and> ch_exception_list b = ch_exception_list a \<and>
     ch_invite_exception_list b = ch_invite_exception_list a \<and>
     ch_chanserv_policy_loaded b = ch_chanserv_policy_loaded a \<and>
     ch_chanserv_policy_valid b = ch_chanserv_policy_valid a \<and> ch_chanserv_founder b = ch_chanserv_founder a"

lemma same_policy_refl [simp]: "same_policy a a"
  by (simp add: same_policy_def)

lemma same_policy_trans: "same_policy a b \<Longrightarrow> same_policy b c \<Longrightarrow> same_policy a c"
  by (simp add: same_policy_def)

text \<open>
  \<open>enters h s t\<close>: from \<open>s\<close> to \<open>t\<close> at most members, privileges, invitations and throttle windows of channels have
  changed, and no client.
\<close>

definition enters :: "server \<Rightarrow> server \<Rightarrow> bool" where
  "enters s t \<longleftrightarrow> sv_client t = sv_client s \<and> sv_clients t = sv_clients s \<and> sv_live t = sv_live s \<and>
     sv_channels_by_name t = sv_channels_by_name s \<and> sv_csdb t = sv_csdb s \<and> sv_config t = sv_config s \<and>
     (\<forall>k. same_policy (sv_channel s k) (sv_channel t k) \<and>
          map m_client (ch_members (sv_channel t k)) = map m_client (ch_members (sv_channel s k)) \<and>
          ch_member_count (sv_channel t k) = ch_member_count (sv_channel s k))"

lemma enters_refl [simp]: "enters s s"
  by (simp add: enters_def)

lemma enters_trans: "enters s t \<Longrightarrow> enters t u \<Longrightarrow> enters s u"
  by (auto simp: enters_def intro: same_policy_trans)

lemma enters_io: "io_only s t \<Longrightarrow> enters s t"
  by (simp add: enters_def io_fields)

lemma enters_upd_channel:
  assumes "\<And>ch. same_policy ch (f ch) \<and> map m_client (ch_members (f ch)) = map m_client (ch_members ch) \<and>
    ch_member_count (f ch) = ch_member_count ch"
  shows "enters s (upd_channel h f s)"
  using assms by (simp add: enters_def upd_channel_def)

lemma with_member_policy:
  assumes "\<And>m. m_client (f m) = m_client m"
  shows "same_policy ch (snd (with_member ch c f)) \<and>
    map m_client (ch_members (snd (with_member ch c f))) = map m_client (ch_members ch) \<and>
    ch_member_count (snd (with_member ch c f)) = ch_member_count ch"
  using assms by (simp add: with_member_def same_policy_def member_update_clients split: option.split)

lemma enters_privileges:
  "enters s (upd_channel h (\<lambda>ch. snd (channel_add_privileges ch c p)) s)"
  "enters s (upd_channel h (\<lambda>ch. snd (channel_remove_manual_privileges ch c p)) s)"
  "enters s (upd_channel h (\<lambda>ch. snd (channel_set_service_privileges ch c p)) s)"
  unfolding privilege_op_defs by (rule enters_upd_channel, rule with_member_policy, simp add: Let_def)+

lemma enters_window:
  "enters s (upd_channel h (\<lambda>ch. channel_join_throttle_record ch now) s)"
  "enters s (upd_channel h (\<lambda>ch. snd (channel_invite_consume ch i)) s)"
  by (rule enters_upd_channel,
      simp add: channel_join_throttle_record_def channel_invite_consume_def same_policy_def split: option.split)+

lemma enters_if: "enters s t \<Longrightarrow> enters s u \<Longrightarrow> enters s (if b then t else u)"
  by simp

lemma enters_fold: "(\<And>x s. enters s (f x s)) \<Longrightarrow> enters s (fold f xs s)"
  by (induction xs arbitrary: s) (auto intro: enters_trans)

lemma enters_sync_member: "enters s (sync_member_privileges h c s)"
proof (cases "channel_find_member (sv_channel s h) c")
  case (Some m)
  show ?thesis
    unfolding sync_member_privileges_def Some option.case Let_def
    by (intro enters_if enters_refl enters_io [OF broadcast_privilege_io, THEN enters_trans [rotated]]
        enters_privileges(3) [THEN enters_trans [rotated]] enters_privileges(2))
qed (simp add: sync_member_privileges_def)

lemma enters_sync: "enters s (chanserv_sync_channel_privileges h s)"
  unfolding chanserv_sync_channel_privileges_def by (rule enters_fold) (rule enters_sync_member)

lemma sendfs_io: "io_only s (fold (sendf c) ls s)"
  by (rule io_only_fold) simp

lemma join_announce_io: "io_only s (join_announce h c s)"
proof -
  define s1 where "s1 = ircv3_away_notify_join h c (ircv3_broadcast_join h c s)"
  define s2 where "s2 = fold (sendf c) (topic_lines s1 c h) s1"
  have "io_only s s1"
    unfolding s1_def by (rule io_only_trans [OF broadcast_join_io away_notify_join_io])
  then have "io_only s s2"
    unfolding s2_def by (rule io_only_trans [OF _ sendfs_io])
  then have "io_only s (if b then sendf c l s2 else s2)" for b l
    using io_only_trans [OF _ sendf_io] by simp
  then show ?thesis
    unfolding join_announce_def Let_def s1_def [symmetric] s2_def [symmetric]
    by (rule io_only_trans [OF _ send_names_io])
qed

text \<open>Entering succeeds with an allocation and adds exactly the one membership.\<close>

lemma join_enter_cases:
  assumes "c \<notin> member_refs (sv_channel s h)"
  obtains (full) "join_enter h c s = (-1, s)"
  | (entered) t where "join_enter h c s = (0, t)" "enters (snd (add_member h c s)) t"
      "snd (add_member h c s) = s\<lparr>
         sv_channel := (sv_channel s)(h := (sv_channel s h)\<lparr>ch_members := \<lparr>m_client = c, m_privileges = 0,
             m_manual_privileges = 0, m_service_privileges = 0\<rparr> # ch_members (sv_channel s h),
             ch_member_count := ch_member_count (sv_channel s h) + 1\<rparr>),
         sv_client := (sv_client s)(c := (sv_client s c)\<lparr>c_channels := h # c_channels (sv_client s c),
             c_channel_count := c_channel_count (sv_client s c) + 1\<rparr>)\<rparr>"
proof (cases "sv_alloc s")
  case False
  then have "add_member h c s = (-1, s)"
    using assms by (simp add: add_member_def channel_add_client_def find_member_None)
  then show ?thesis using full by (simp add: join_enter_def Let_def)
next
  case True
  then obtain a where a: "add_member h c s = (0, a)"
    using assms by (auto simp: add_member_def channel_add_client_def find_member_None)
  obtain t where t: "join_enter h c s = (0, t)" "enters a t"
  proof
    show "join_enter h c s = (0, snd (join_enter h c s))" by (simp add: join_enter_def a Let_def)
    show "enters a (snd (join_enter h c s))"
      unfolding join_enter_def a Let_def prod.case
      by (simp only: less_irrefl if_False snd_conv)
        (intro enters_if enters_sync [THEN enters_trans [rotated]] enters_privileges [THEN enters_trans [rotated]]
          enters_window [THEN enters_trans [rotated]] enters_refl)
  qed
  show ?thesis
    using entered [OF t(1)] t(2) a True assms
    by (simp add: add_member_def channel_add_client_def find_member_None)
qed

subsection \<open>Finding the channel changes no client\<close>

lemma load_policy_frame [simp]:
  "sv_client (chanserv_restore_channel h s) = sv_client s" "sv_clients (chanserv_restore_channel h s) = sv_clients s"
  "sv_live (chanserv_restore_channel h s) = sv_live s" "sv_env (chanserv_restore_channel h s) = sv_env s"
  by (auto simp: chanserv_restore_channel_def load_channel_policy_def upd_channel_def split: option.split)

text \<open>Restoring a channel keeps its name, its members and its invitations.\<close>

definition restored :: "channel \<Rightarrow> channel \<Rightarrow> bool" where
  "restored ch ch' \<longleftrightarrow> same_members ch ch' \<and> ch_invites ch' = ch_invites ch"

lemma restored_trans: "restored a b \<Longrightarrow> restored b c \<Longrightarrow> restored a c"
  by (auto simp: restored_def intro: same_members_trans)

lemma restore_mask_invites: "restore_mask alloc row ch = Some ch' \<Longrightarrow> ch_invites ch' = ch_invites ch"
  by (auto simp: restore_mask_def Let_def case_prod_beta split: if_splits)

lemma restore_masks_invites: "restore_masks alloc rows ch = Some ch' \<Longrightarrow> ch_invites ch' = ch_invites ch"
  by (induction rows arbitrary: ch) (auto dest: restore_mask_invites split: option.splits)

lemma persist_restore_restored: "restored ch (snd (chanserv_persist_restore alloc db ch))"
proof -
  have "ch_invites (clear_runtime x) = ch_invites x" for x by (simp add: clear_runtime_def)
  moreover have "restore_runtime r x = Some y \<Longrightarrow> ch_invites y = ch_invites x" for r x y
    by (auto simp: restore_runtime_def split: option.splits if_splits)
  ultimately have "ch_invites (snd (chanserv_persist_restore alloc db ch)) = ch_invites ch"
    by (auto simp: chanserv_persist_restore_def Let_def dest!: restore_masks_invites split: option.split)
  then show ?thesis using persist_restore_members by (simp add: restored_def)
qed

lemma apply_record_restored: "restored ch (apply_record n r ch)"
  using apply_record_members
  by (simp add: restored_def apply_record_def cache_policy_def clear_cached_policy_def Let_def
      channel_forget_service_privileges_def)

lemma clear_cached_restored: "restored ch (clear_cached_policy ch)"
  using clear_cached_members by (simp add: restored_def clear_cached_policy_def Let_def channel_forget_service_privileges_def)

lemma restore_channel_restored: "restored (sv_channel s k) (sv_channel (chanserv_restore_channel h s) k)"
  using restored_trans [OF apply_record_restored persist_restore_restored] clear_cached_restored
  by (simp add: chanserv_restore_channel_def load_channel_policy_def upd_channel_def split: option.split)
    (simp add: restored_def)

text \<open>What \<open>join_restore\<close> gives on a live channel.\<close>

lemma join_restore_result:
  assumes "join_restore c h created s = (r, t)"
  shows "sv_client t = sv_client s" "sv_clients t = sv_clients s"
    and "r = Some k \<Longrightarrow> k = h \<and> c \<notin> member_refs (sv_channel s h) \<and> sv_live t = sv_live s \<and>
      (\<forall>j. restored (sv_channel s j) (sv_channel t j))"
proof -
  let ?s = "chanserv_restore_channel h s"
  let ?p = "chanserv_persist_restore (sv_alloc ?s) (sv_csdb ?s) (sv_channel ?s h)"
  have "restored (sv_channel s j) (sv_channel (upd_channel h (\<lambda>_. snd ?p) ?s) j)" for j
    using restored_trans [OF restore_channel_restored persist_restore_restored] restore_channel_restored
    by (simp add: upd_channel_def)
  then show "r = Some k \<Longrightarrow> k = h \<and> c \<notin> member_refs (sv_channel s h) \<and> sv_live t = sv_live s \<and>
      (\<forall>j. restored (sv_channel s j) (sv_channel t j))"
    using assms restore_channel_restored [of s _ h]
    by (auto simp: join_restore_def Let_def case_prod_beta has_client_iff upd_channel_def split: if_splits)
  show "sv_client t = sv_client s" "sv_clients t = sv_clients s"
    using assms
    by (auto simp: join_restore_def Let_def case_prod_beta upd_channel_def split: if_splits)
qed

lemma join_restore_wf:
  assumes "server_wf s" "c \<in> set (sv_clients s)" "h \<in> set (sv_live s)"
  shows "server_wf (snd (join_restore c h created s))"
proof -
  let ?s = "chanserv_restore_channel h s"
  let ?p = "chanserv_persist_restore (sv_alloc s) (sv_csdb ?s) (sv_channel ?s h)"
  define s1 where "s1 = upd_channel h (\<lambda>_. snd ?p) ?s"
  have wf: "server_wf ?s"
    using keepsD [OF chanserv_keeps(7) [OF keeps_refl]] assms by blast
  have "server_wf s1"
    using persist_restore_members [of "sv_channel ?s h"]
    unfolding s1_def by (intro server_wf_upd_channel [OF wf]) (simp_all add: same_members_def)
  moreover have "h \<in> set (sv_live s1)" using assms(3) by (simp add: s1_def upd_channel_def)
  moreover have "server_wf (sendf c l s1)" for l by (rule server_wf_io [OF sendf_io \<open>server_wf s1\<close>])
  ultimately show ?thesis
    using wf assms(1) remove_if_empty_wf
    by (auto simp: join_restore_def Let_def case_prod_beta s1_def [symmetric])
qed

text \<open>The invitations of the live channels; a channel that \<open>s\<close> does not have starts with none.\<close>

definition invites_from :: "server \<Rightarrow> server \<Rightarrow> bool" where
  "invites_from s t \<longleftrightarrow> set (sv_live s) \<subseteq> set (sv_live t) \<and>
     (\<forall>j\<in>set (sv_live t). ch_invites (sv_channel t j) = (if j \<in> set (sv_live s) then ch_invites (sv_channel s j) else []))"

lemma invites_from_refl [simp]: "invites_from s s"
  by (simp add: invites_from_def)

lemma invites_from_trans: "invites_from s t \<Longrightarrow> invites_from t u \<Longrightarrow> invites_from s u"
  unfolding invites_from_def by (auto split: if_splits)

lemma invites_from_io: "invites_from s t \<Longrightarrow> io_only t u \<Longrightarrow> invites_from s u"
  by (simp add: invites_from_def io_fields)

lemma join_open_result:
  assumes wf: "server_wf s" and c: "c \<in> set (sv_clients s)" and eq: "join_open c n s = (r, t)"
  shows "server_wf t \<and> sv_client t = sv_client s \<and> sv_clients t = sv_clients s \<and>
    (r = Some h \<longrightarrow> h \<in> set (sv_live t) \<and> c \<notin> member_refs (sv_channel t h) \<and> invites_from s t)"
proof -
  have io: "server_wf u \<and> sv_client u = sv_client s \<and> sv_clients u = sv_clients s" if "io_only s u" for u
    using that wf server_wf_io io_fields by metis
  have restore: "server_wf t \<and> sv_client t = sv_client s' \<and> sv_clients t = sv_clients s' \<and>
      (r = Some h \<longrightarrow> h \<in> set (sv_live t) \<and> c \<notin> member_refs (sv_channel t h) \<and> invites_from s' t)"
    if "join_restore c k cr s' = (r, t)" "k \<in> set (sv_live s')" "server_wf s'" "c \<in> set (sv_clients s')" for k cr s'
  proof -
    note r = join_restore_result [OF that(1)] join_restore_wf [OF that(3,4,2), of cr]
    have "invites_from s' t \<and> c \<notin> member_refs (sv_channel t h)" if "r = Some h"
      using r(3) [OF that] unfolding invites_from_def restored_def same_members_def
      by (metis list.set_map order_refl)
    then show ?thesis using r that by auto
  qed
  show ?thesis
  proof (cases "n = None \<or> (\<exists>name. n = Some name \<and> (\<not> channel_name_valid name \<or>
      c_channel_count (sv_client s c) \<ge> IRC_MAX_CHANNELS_PER_CLIENT))")
    case True
    then have "r = None \<and> io_only s t" using eq by (auto simp: join_open_def split: if_splits)
    then show ?thesis using io [of t] by simp
  next
    case False
    then obtain name where n: "n = Some name" "channel_name_valid name"
      "\<not> c_channel_count (sv_client s c) \<ge> IRC_MAX_CHANNELS_PER_CLIENT" by auto
    show ?thesis
    proof (cases "hash_get (sv_channels_by_name s) name")
      case (Some k)
      have "join_restore c k False s = (r, t)" using eq n Some by (simp add: join_open_def)
      then show ?thesis using restore wf_channel_lookup [OF wf Some] wf c by blast
    next
      case None
      obtain g s1 where g: "server_get_or_create_channel name s = (g, s1)" by fastforce
      show ?thesis
      proof (cases "sv_channel_count s \<ge> cf_max_channels (sv_config s) \<or> g = None")
        case True
        then have "r = None \<and> io_only s t" 
          using eq n None g by (auto simp: join_open_def Let_def server_get_or_create_channel_def
              intro: io_only_trans split: option.splits if_splits prod.splits)
        then show ?thesis using io [of t] by simp
      next
        case False
        then obtain k where k: "g = Some k" by auto
        have "join_restore c k True s1 = (r, t)" using eq n None g False k by (simp add: join_open_def Let_def)
        moreover note live = get_or_create_live [OF wf g [unfolded k]]
        moreover have "server_wf s1" using get_or_create_wf [OF wf g] .
        moreover have "invites_from s s1"
          using g [unfolded k] wf
        proof (cases rule: get_or_create_cases)
          case (fresh ch)
          then show ?thesis
            using wf by (auto simp: invites_from_def channel_create_def channel_zero_def wf_defs split: if_splits)
        qed (use None in auto)
        ultimately show ?thesis using restore [of k True s1] c invites_from_trans by metis
      qed
    qed
  qed
qed

subsection \<open>The policy a join has to meet\<close>

definition join_policy :: "server \<Rightarrow> chref \<Rightarrow> cref \<Rightarrow> string option \<Rightarrow> bool \<Rightarrow> bool" where
  "join_policy s h c key invited \<longleftrightarrow>
     (let ch = sv_channel s h; cl = sv_client s c in
      (ch_key ch = [] \<or> key = Some (ch_key ch)) \<and> \<not> join_banned s h c \<and>
      (channel_mode_has (ch_modes ch) CHANNEL_MODE_REGONLY_JOIN \<longrightarrow> client_mode_has (c_modes cl) CLIENT_MODE_REGISTERED) \<and>
      (channel_mode_has (ch_modes ch) CHANNEL_MODE_OPER_ONLY \<longrightarrow>
         client_mode_has (c_modes cl) (CLIENT_MODE_OPER OR CLIENT_MODE_NETADMIN)) \<and>
      (channel_mode_has (ch_modes ch) CHANNEL_MODE_ADMIN_ONLY \<longrightarrow> client_mode_has (c_modes cl) CLIENT_MODE_NETADMIN) \<and>
      (channel_mode_has (ch_modes ch) CHANNEL_MODE_SECURE_ONLY \<longrightarrow> client_mode_has (c_modes cl) CLIENT_MODE_SECURE) \<and>
      (channel_mode_has (ch_modes ch) CHANNEL_MODE_INVITE_ONLY \<longrightarrow> invited \<or> channel_client_is_invex ch cl))"

lemma decision_admit:
  assumes "join_decision s h c key d = JoinAdmit"
  shows "join_policy s h c key (channel_invite_has (sv_channel s h) (c_id (sv_client s c)))"
    and "ch_user_limit (sv_channel s h) = 0 \<or> ch_member_count (sv_channel s h) < ch_user_limit (sv_channel s h)"
  using assms unfolding join_decision_def Let_def join_policy_def
  by (auto split: if_splits)

lemma chanserv_privileges_cong:
  assumes "sv_channels_by_name t = sv_channels_by_name s" "sv_csdb t = sv_csdb s"
    and "\<And>k. same_policy (sv_channel s k) (sv_channel t k)" "c_account_name cl' = c_account_name cl"
  shows "chanserv_client_privileges t cl' n = chanserv_client_privileges s cl n"
  using assms
  by (simp add: chanserv_client_privileges_def Let_def cached_founder_matches_def founder_matches_def same_policy_def
      cong: option.case_cong if_cong)

lemma join_policy_cong:
  assumes "sv_channels_by_name t = sv_channels_by_name s" "sv_csdb t = sv_csdb s"
    and "\<And>k. same_policy (sv_channel s k) (sv_channel t k)"
    and "sv_client t c = (sv_client s c)\<lparr>c_channels := hs, c_channel_count := n\<rparr>"
  shows "join_policy t h c key i = join_policy s h c key i"
proof -
  have p: "same_policy (sv_channel s h) (sv_channel t h)" by (rule assms(3))
  have "join_banned t h c = join_banned s h c"
    using p chanserv_privileges_cong [OF assms(1-3), of "sv_client t c" "sv_client s c"] assms(4)
    by (simp add: join_banned_def Let_def same_policy_def channel_client_is_banned_def channel_client_is_banned_protected_def
        authorized_ban_matches_client_def channel_mask_matches_client_def mask_entry_matches_client_def client_identity_def)
  then show ?thesis
    using p assms(4)
    by (simp add: join_policy_def Let_def same_policy_def channel_client_is_invex_def
        channel_mask_matches_client_def mask_entry_matches_client_def client_identity_def)
qed

text \<open>The outcome of a JOIN that has entered the channel \<open>h\<close>.\<close>

definition joined :: "cref \<Rightarrow> string option \<Rightarrow> server \<Rightarrow> server \<Rightarrow> chref \<Rightarrow> bool" where
  "joined c key s t h \<longleftrightarrow>
     h \<in> set (sv_live t) \<and> h \<notin> set (c_channels (sv_client s c)) \<and>
     sv_client t = (sv_client s)(c := (sv_client s c)\<lparr>c_channels := h # c_channels (sv_client s c),
        c_channel_count := c_channel_count (sv_client s c) + 1\<rparr>) \<and>
     c \<in> member_refs (sv_channel t h) \<and>
     join_policy t h c key (h \<in> set (sv_live s) \<and> channel_invite_has (sv_channel s h) (c_id (sv_client s c))) \<and>
     (ch_user_limit (sv_channel t h) = 0 \<or> ch_member_count (sv_channel t h) \<le> ch_user_limit (sv_channel t h))"

lemma join_enter_wf:
  assumes wf: "server_wf s" and c: "c \<in> set (sv_clients s)" and h: "h \<in> set (sv_live s)"
  shows "server_wf (snd (join_enter h c s))"
proof -
  obtain rc a where a: "add_member h c s = (rc, a)" by fastforce
  have window: "same_members ch (channel_join_throttle_record ch now)"
    "same_members ch (snd (channel_invite_consume ch i))" for ch now i
    by (auto simp: channel_join_throttle_record_def channel_invite_consume_def intro!: same_membersI split: option.split)
  have "keeps c a (snd (join_enter h c s))"
  proof (cases "rc < 0")
    case False
    show ?thesis
      unfolding join_enter_def a Let_def prod.case if_not_P [OF False] snd_conv
      by (intro keeps_if chanserv_keeps keeps_same_members privilege_members window keeps_refl)
  qed (simp add: join_enter_def a Let_def)
  moreover have "server_wf a" using add_member_wf [OF wf c h] a by simp
  moreover have "sv_clients a = sv_clients s" using a by (auto simp: add_member_def Let_def case_prod_beta)
  ultimately show ?thesis using c by (simp add: keeps_def)
qed

lemma join_admitted:
  assumes wf: "server_wf s" and c: "c \<in> set (sv_clients s)" and h: "h \<in> set (sv_live s)"
    and new: "c \<notin> member_refs (sv_channel s h)" and e: "join_enter h c s = (0, t)"
    and d: "join_decision s h c key depth = JoinAdmit" and io: "io_only t u"
  shows "server_wf u \<and> sv_clients u = sv_clients s \<and> h \<notin> set (c_channels (sv_client s c)) \<and> h \<in> set (sv_live u) \<and>
    sv_client u = (sv_client s)(c := (sv_client s c)\<lparr>c_channels := h # c_channels (sv_client s c),
      c_channel_count := c_channel_count (sv_client s c) + 1\<rparr>) \<and> c \<in> member_refs (sv_channel u h) \<and>
    join_policy u h c key (channel_invite_has (sv_channel s h) (c_id (sv_client s c))) \<and>
    (ch_user_limit (sv_channel u h) = 0 \<or> ch_member_count (sv_channel u h) \<le> ch_user_limit (sv_channel u h))"
  using new
proof (cases rule: join_enter_cases)
  case full
  then show ?thesis using e by simp
next
  case (entered t')
  let ?a = "snd (add_member h c s)"
  have en: "enters ?a u"
    using entered(1,2) e enters_trans enters_io [OF io] by auto
  have pol: "same_policy (sv_channel s k) (sv_channel u k)" for k
    using en same_policy_trans [of "sv_channel s k" "sv_channel ?a k"] entered(3)
    by (cases "k = h") (simp_all add: enters_def same_policy_def)
  have u: "sv_client u = sv_client ?a" "sv_clients u = sv_clients s" "sv_live u = sv_live s"
    "sv_channels_by_name u = sv_channels_by_name s" "sv_csdb u = sv_csdb s"
    "map m_client (ch_members (sv_channel u h)) = map m_client (ch_members (sv_channel ?a h))"
    "ch_member_count (sv_channel u h) = ch_member_count (sv_channel s h) + 1"
    using en unfolding entered(3) by (simp_all add: enters_def)
  have "join_policy u h c key (channel_invite_has (sv_channel s h) (c_id (sv_client s c)))"
    using join_policy_cong [OF u(4,5) pol] decision_admit(1) [OF d] u(1) unfolding entered(3) by simp
  moreover have "c \<in> member_refs (sv_channel u h)"
    using arg_cong [OF u(6), of set] unfolding entered(3) by simp
  moreover have "ch_user_limit (sv_channel u h) = ch_user_limit (sv_channel s h)"
    using pol [of h] by (simp add: same_policy_def)
  moreover have "server_wf u"
    using server_wf_io [OF io] join_enter_wf [OF wf c h] e by simp
  ultimately show ?thesis
    using u h decision_admit(2) [OF d] new wf_member_iff [OF wf h c] unfolding entered(3) by auto
qed

lemma reply_frame [simp]:
  "sv_client (snd (reply c n r s)) = sv_client s" "sv_clients (snd (reply c n r s)) = sv_clients s"
  "sv_live (snd (reply c n r s)) = sv_live s" "sv_channel (snd (reply c n r s)) = sv_channel s"
  by (simp_all add: io_fields [OF reply_io(1)])

lemma join_policy_no_key: "join_policy s h c None i \<Longrightarrow> join_policy s h c key i"
  by (auto simp: join_policy_def Let_def)

lemma join_one_outcome:
  "server_wf s \<Longrightarrow> c \<in> set (sv_clients s) \<Longrightarrow>
     server_wf (join_one c n key d s) \<and> sv_clients (join_one c n key d s) = sv_clients s \<and>
     (sv_client (join_one c n key d s) = sv_client s \<or> (\<exists>h. joined c key s (join_one c n key d s) h))"
proof (induction c n key d s rule: join_one.induct)
  case (1 c n key d s)
  obtain r t where o: "join_open c n s = (r, t)" by fastforce
  note open_ = join_open_result [OF "1.prems" o]
  show ?case
  proof (cases r)
    case None
    then have "join_one c n key d s = t" using o by (simp add: join_one.simps [of c n])
    then show ?thesis using open_ by simp
  next
    case (Some h)
    have t: "server_wf t" "sv_client t = sv_client s" "sv_clients t = sv_clients s" "h \<in> set (sv_live t)"
      "c \<notin> member_refs (sv_channel t h)" "invites_from s t" "c \<in> set (sv_clients t)"
      using open_ [of h] Some "1.prems" by auto
    have inv: "channel_invite_has (sv_channel t k) i \<longleftrightarrow> k \<in> set (sv_live s) \<and> channel_invite_has (sv_channel s k) i"
      if "k \<in> set (sv_live t)" for k i
      using that t(6) by (auto simp: invites_from_def channel_invite_has_def)
    show ?thesis
    proof (cases "join_decision t h c key d")
      case (JoinRefuse num refused)
      then have "join_one c n key d s = snd (reply c num refused t)"
        using o Some by (simp add: join_one.simps [of c n])
      then show ?thesis using t server_wf_io [OF reply_io(1)] by simp
    next
      case (JoinRedirect target linked)
      let ?s = "snd (reply c ''470'' linked t)"
      have eq: "join_one c n key d s = join_one c (Some target) None (d + 1) ?s"
        using o Some JoinRedirect by (simp add: join_one.simps [of c n])
      have "server_wf ?s" using t server_wf_io [OF reply_io(1)] by blast
      then have IH: "server_wf (join_one c n key d s) \<and> sv_clients (join_one c n key d s) = sv_clients s \<and>
          (sv_client (join_one c n key d s) = sv_client s \<or> (\<exists>k. joined c None ?s (join_one c n key d s) k))"
        using "1.IH" [OF o [symmetric] Some JoinRedirect] t unfolding eq by simp
      moreover have "joined c key s (join_one c n key d s) k" if "joined c None ?s (join_one c n key d s) k" for k
      proof -
        have "(k \<in> set (sv_live t) \<and> channel_invite_has (sv_channel t k) i) \<longleftrightarrow>
            (k \<in> set (sv_live s) \<and> channel_invite_has (sv_channel s k) i)" for i
          using inv [of k] t(6) by (auto simp: invites_from_def)
        then show ?thesis using that t(2) join_policy_no_key by (simp add: joined_def)
      qed
      ultimately show ?thesis by blast
    next
      case JoinAdmit
      obtain rc u where e: "join_enter h c t = (rc, u)" by fastforce
      have eq: "join_one c n key d s = (if rc < 0 then u else join_announce h c u)"
        using o Some JoinAdmit e by (simp add: join_one.simps [of c n])
      show ?thesis
      proof (cases "rc = 0")
        case True
        have "joined c key s (join_one c n key d s) h \<and> server_wf (join_one c n key d s) \<and> sv_clients (join_one c n key d s) = sv_clients s"
          using join_admitted [OF t(1,7,4,5) _ JoinAdmit join_announce_io] e True t(2,3) inv [OF t(4)]
          unfolding joined_def eq by simp
        then show ?thesis by blast
      next
        case False
        then have "rc = -1 \<and> u = t" using join_enter_cases [OF t(5)] e by (metis Pair_inject)
        then show ?thesis using eq t by simp
      qed
    qed
  qed
qed

lemma command_join_keeps: "keeps c s (snd (command_join c params s))"
  unfolding command_join_def
proof (rule registered_only_keeps)
  fix s
  have "keeps c s (join_one c n k d s)" for n k d
    using join_one_outcome [of s c n k d] by (auto simp: keeps_def)
  then show "keeps c s (snd (case params of
       None \<Rightarrow> ERR_NEEDMOREPARAMS c ''JOIN'' s
     | Some p \<Rightarrow>
         if nospoof_version_restricted s (sv_client s c)
         then (COMMAND_KEEP_CLIENT, sendf c ('':'' @ server_name s @ '' NOTICE '' @ c_nick (sv_client s c) @
                 '' :You must respond to the CTCP VERSION request before joining channels.'') s)
         else let (name, rest) = tok1 p;
                  (key, _) = tok1 rest
              in (COMMAND_KEEP_CLIENT, join_one c name key 0 s)))"
    by (cases params) (simp_all add: keeps_sends replies_keeps case_prod_beta)
qed

text \<open>Leaving a channel: PART, and the effect of KICK on its target.\<close>

lemma leave_keeps:
  assumes "server_wf s \<Longrightarrow> c \<in> set (sv_clients s) \<Longrightarrow> h \<in> set (sv_live s) \<and> d \<in> set (sv_clients s)"
  shows "keeps c s (server_remove_channel_if_empty h (remove_member h d (channel_broadcast h None msg s)))"
proof -
  have "server_wf (channel_broadcast h None msg s)" if "server_wf s"
    using that server_wf_io [OF channel_broadcast_io] by blast
  then show ?thesis
    unfolding keeps_def using assms by (auto intro!: remove_if_empty_wf remove_member_wf)
qed

lemma command_part_keeps: "keeps c s (snd (command_part c params s))"
  unfolding command_part_def
proof (rule registered_only_keeps)
  fix s
  have "keeps c s (part_channel c h reason s)" if "hash_get (sv_channels_by_name s) name = Some h" for name h reason
    unfolding part_channel_def Let_def
    by (rule leave_keeps) (use that wf_channel_lookup in blast)
  then show "keeps c s (snd (case params of
       None \<Rightarrow> ERR_NEEDMOREPARAMS c ''PART'' s
     | Some p \<Rightarrow>
         let (name_option, rest) = tok1 p;
             reason = reason_or IRC_DEFAULT_PART_REASON (trailing (tok_rest rest))
         in case name_option of
              None \<Rightarrow> (COMMAND_KEEP_CLIENT, send_no_such_channel_query c None s)
            | Some name \<Rightarrow>
                if \<not> channel_name_valid name then (COMMAND_KEEP_CLIENT, send_no_such_channel_query c (Some name) s)
                else case hash_get (sv_channels_by_name s) name of
                       None \<Rightarrow> reply c ''403'' (name @ '' :No such channel'') s
                     | Some h \<Rightarrow>
                         if \<not> channel_has_client (sv_channel s h) c
                         then reply c ''442'' (ch_name (sv_channel s h) @ '' :You're not on that channel'') s
                         else (COMMAND_KEEP_CLIENT, part_channel c h reason s)))"
    by (simp add: replies_keeps case_prod_beta Let_def split: option.split)
qed

subsection \<open>Properties\<close>

text \<open>
  C4: JOIN admits only by policy.  On a well-formed server a JOIN, redirects included, terminates and keeps the server well formed; it
  either changes no client or makes the client a member of exactly one further channel.  For that channel the key
  matched, no applicable ban holds, the modes +R, +O, +A and +z are satisfied, +i was met by an invitation
  or an invite exception, and the user limit is not exceeded.
\<close>

theorem join_respects_policy:
  assumes "server_wf s" "c \<in> set (sv_clients s)"
  shows "server_wf (join_one c name key 0 s) \<and>
    (sv_client (join_one c name key 0 s) = sv_client s \<or> (\<exists>h. joined c key s (join_one c name key 0 s) h))"
  using join_one_outcome [OF assms] by blast

theorem join_respects_policy_witness:
  "sv_client (join_one 1 (Some ''#new'') None 0 example_room) = sv_client example_room \<or>
   (\<exists>h. joined 1 None example_room (join_one 1 (Some ''#new'') None 0 example_room) h)"
  using join_respects_policy [OF example_room_wf, of 1 "Some ''#new''" None] by simp

end
