(* ===== verification/Channel_Commands.thy ===== *)
theory Channel_Commands
  imports Join_Part
begin

section \<open>KICK, TOPIC, INVITE and KNOCK (src/commands/)\<close>

text \<open>
  The channel commands beside JOIN, PART and MODE, one definition per handler with its guards in the order of
  the code.
\<close>

definition IRC_DEFAULT_KICK_REASON :: string where
  "IRC_DEFAULT_KICK_REASON = ''Kicked''"

definition staff_privileges :: u32 where
  "staff_privileges = CHANNEL_PRIV_HALFOP OR CHANNEL_PRIV_OPERATOR OR CHANNEL_PRIV_PROTECTED OR CHANNEL_PRIV_OWNER"

subsection \<open>KICK\<close>

definition kick_wire_fits :: "client \<Rightarrow> string \<Rightarrow> string \<Rightarrow> string \<Rightarrow> bool" where
  "kick_wire_fits source channel target reason \<longleftrightarrow>
     1 + length (c_nick source) + 1 + length (c_user source) + 1 + length (c_display_host source) + 6 +
     length channel + 1 + length target + 2 + length reason \<le> IRC_LINE_CONTENT_MAX"

text \<open>The comparison of actor and target; a protected target that is no owner yields to owners and protected members only.\<close>

definition kick_denied :: "bool \<Rightarrow> u32 \<Rightarrow> u32 \<Rightarrow> bool" where
  "kick_denied self actor target \<longleftrightarrow>
     (if \<not> self \<and> channel_privilege_has target CHANNEL_PRIV_PROTECTED \<and> \<not> channel_privilege_has target CHANNEL_PRIV_OWNER
      then \<not> channel_privilege_has actor (CHANNEL_PRIV_PROTECTED OR CHANNEL_PRIV_OWNER)
      else \<not> self \<and> channel_privilege_rank target \<ge> channel_privilege_rank actor)"

definition kick_member :: "cref \<Rightarrow> cref \<Rightarrow> chref \<Rightarrow> string \<Rightarrow> server \<Rightarrow> server" where
  "kick_member c target h reason s =
     (let cl = sv_client s c;
          name = ch_name (sv_channel s h);
          nick = c_nick (sv_client s target);
          delivered = (if kick_wire_fits cl name nick reason then reason else IRC_DEFAULT_KICK_REASON);
          message = take (IRCD_MESSAGE_BUFFER_SIZE - 1)
            ('':'' @ client_identity cl @ '' KICK '' @ name @ '' '' @ nick @ '' :'' @ delivered @ [CR, LF])
      in server_remove_channel_if_empty h (remove_member h target (channel_broadcast h None message s)))"

definition kick_body :: "cref \<Rightarrow> string \<Rightarrow> string \<Rightarrow> string \<Rightarrow> server \<Rightarrow> command_result \<times> server" where
  "kick_body c name nick reason s =
     (if \<not> channel_name_valid name
      then (COMMAND_KEEP_CLIENT, send_query_error c ''403'' ''No such channel'' name s)
      else case hash_get (sv_channels_by_name s) name of
        None \<Rightarrow> reply c ''403'' (name @ '' :No such channel'') s
      | Some h \<Rightarrow>
          let ch = sv_channel s h in
          (case channel_find_member ch c of
             None \<Rightarrow> reply c ''442'' (ch_name ch @ '' :You're not on that channel'') s
           | Some actor \<Rightarrow>
               if channel_privilege_rank (m_privileges actor) < 2
               then reply c ''482'' (ch_name ch @ '' :You're not channel operator'') s
               else case hash_get (sv_clients_by_nick s) nick of
                      None \<Rightarrow> (COMMAND_KEEP_CLIENT, send_query_error c ''401'' ''No such nick/channel'' nick s)
                    | Some target \<Rightarrow>
                        (case channel_find_member ch target of
                           None \<Rightarrow> reply c ''441'' (c_nick (sv_client s target) @ '' '' @ ch_name ch @
                                     '' :They aren't on that channel'') s
                         | Some tm \<Rightarrow>
                             if kick_denied (target = c) (m_privileges actor) (m_privileges tm)
                             then reply c ''484'' (ch_name ch @ '' :Cannot kick protected user '' @
                                    c_nick (sv_client s target) @ ''.'') s
                             else (COMMAND_KEEP_CLIENT, kick_member c target h reason s))))"

definition command_kick :: "cref \<Rightarrow> string option \<Rightarrow> server \<Rightarrow> command_result \<times> server" where
  "command_kick c params = registered_only c (\<lambda>s.
     case params of
       None \<Rightarrow> ERR_NEEDMOREPARAMS c ''KICK'' s
     | Some p \<Rightarrow>
         let (channel_name, rest) = tok1 p;
             (nick, rest2) = tok1 rest;
             reason = reason_or IRC_DEFAULT_KICK_REASON (trailing (tok_rest rest2))
         in case (channel_name, nick) of
              (Some name, Some target) \<Rightarrow> kick_body c name target reason s
            | _ \<Rightarrow> ERR_NEEDMOREPARAMS c ''KICK'' s)"

subsection \<open>TOPIC\<close>

definition topic_set :: "cref \<Rightarrow> chref \<Rightarrow> string \<Rightarrow> server \<Rightarrow> server" where
  "topic_set c h topic s =
     (let cl = sv_client s c;
          s1 = upd_channel h (\<lambda>ch. ch\<lparr>ch_topic := take IRC_CHANNEL_TOPIC_MAX topic,
                 ch_topic_setter := take IRC_CHANNEL_TOPIC_SETTER_MAX (client_identity cl), ch_topic_time := sv_clock s\<rparr>) s
      in channel_broadcast h None
           (take (IRCD_MESSAGE_BUFFER_SIZE - 1)
              (topic_relay (c_nick cl) (c_user cl) (c_display_host cl) (ch_name (sv_channel s1 h)) (ch_topic (sv_channel s1 h)) @ [CR, LF])) s1)"

definition topic_body :: "cref \<Rightarrow> string \<Rightarrow> string option \<Rightarrow> server \<Rightarrow> command_result \<times> server" where
  "topic_body c name topic_option s =
     (case hash_get (sv_channels_by_name s) name of
        None \<Rightarrow> (COMMAND_KEEP_CLIENT, send_no_such_channel_query c (Some name) s)
      | Some h \<Rightarrow>
          let ch = sv_channel s h in
          (case topic_option of
             None \<Rightarrow>
               if \<not> visibility_names_channel s c ch then reply c ''403'' (ch_name ch @ '' :No such channel'') s
               else (COMMAND_KEEP_CLIENT, fold (sendf c) (topic_lines s c h) s)
           | Some topic0 \<Rightarrow>
               (case channel_find_member ch c of
                  None \<Rightarrow> reply c ''442'' (ch_name ch @ '' :You're not on that channel'') s
                | Some m \<Rightarrow>
                    if channel_mode_has (ch_modes ch) CHANNEL_MODE_TOPIC_LOCK \<and> channel_privilege_rank (m_privileges m) < 2
                    then reply c ''482'' (ch_name ch @ '' :You're not channel operator'') s
                    else let topic = (if starts_with '':'' topic0 then drop 1 topic0 else topic0)
                         in if length topic > irc_topic_limit s \<or>
                               \<not> ircv3_message_wire_fits (sv_client s c) ''TOPIC'' (ch_name ch) topic
                            then reply c ''417'' ''TOPIC :Topic would exceed the IRC line limit'' s
                            else (COMMAND_KEEP_CLIENT, topic_set c h topic s))))"

definition command_topic :: "cref \<Rightarrow> string option \<Rightarrow> server \<Rightarrow> command_result \<times> server" where
  "command_topic c params = registered_only c (\<lambda>s.
     case params of
       None \<Rightarrow> ERR_NEEDMOREPARAMS c ''TOPIC'' s
     | Some p \<Rightarrow>
         let (channel_name, rest) = tok1 p
         in case channel_name of
              None \<Rightarrow> ERR_NEEDMOREPARAMS c ''TOPIC'' s
            | Some name \<Rightarrow> topic_body c name (tok_rest rest) s)"

subsection \<open>INVITE\<close>

definition invite_send :: "cref \<Rightarrow> cref \<Rightarrow> chref \<Rightarrow> server \<Rightarrow> command_result \<times> server" where
  "invite_send c target h s =
     (let (invite_rc, ch1) = channel_invite_add (sv_alloc s) (sv_channel s h) (c_id (sv_client s target));
          s1 = upd_channel h (\<lambda>_. ch1) s;
          name = ch_name ch1;
          nick = c_nick (sv_client s target)
      in if invite_rc = -2
         then (COMMAND_KEEP_CLIENT, sendf c ('':'' @ server_name s1 @ '' NOTICE '' @ c_nick (sv_client s1 c) @ '' :Channel '' @ name @
                 '' pending invite list is full (maximum '' @ dec IRC_CHANNEL_INVITE_MAX @ '')'') s1)
         else if invite_rc \<noteq> 0 then (COMMAND_KEEP_CLIENT, s1)
         else let s2 = sendf c (numeric s1 ''341'' (c_nick (sv_client s1 c)) (nick @ '' '' @ name)) s1
              in (COMMAND_KEEP_CLIENT,
                  sendf target (take (IRCD_MESSAGE_BUFFER_SIZE - 1)
                    ('':'' @ client_identity (sv_client s2 c) @ '' INVITE '' @ nick @ '' :'' @ name)) s2))"

definition invite_body :: "cref \<Rightarrow> string \<Rightarrow> string \<Rightarrow> server \<Rightarrow> command_result \<times> server" where
  "invite_body c nick name s =
     (if \<not> channel_name_valid name
      then (COMMAND_KEEP_CLIENT, send_query_error c ''403'' ''No such channel'' name s)
      else case Option.bind (hash_get (sv_clients_by_nick s) nick) (\<lambda>t. if c_registered (sv_client s t) then Some t else None) of
        None \<Rightarrow> (COMMAND_KEEP_CLIENT, send_query_error c ''401'' ''No such nick/channel'' nick s)
      | Some target \<Rightarrow>
          (case hash_get (sv_channels_by_name s) name of
             None \<Rightarrow> reply c ''403'' (name @ '' :No such channel'') s
           | Some h \<Rightarrow>
               let ch = sv_channel s h in
               (case channel_find_member ch c of
                  None \<Rightarrow> reply c ''442'' (ch_name ch @ '' :You're not on that channel'') s
                | Some m \<Rightarrow>
                    if \<not> channel_privilege_has (m_privileges m) staff_privileges
                    then reply c ''482'' (ch_name ch @ '' :You're not channel operator'') s
                    else if channel_mode_has (ch_modes ch) CHANNEL_MODE_NO_INVITE
                    then reply c ''518'' ('':Cannot invite (+V) at channel '' @ ch_name ch) s
                    else if channel_has_client ch target
                    then reply c ''443'' (c_nick (sv_client s target) @ '' '' @ ch_name ch @ '' :is already on channel'') s
                    else invite_send c target h s)))"

definition command_invite :: "cref \<Rightarrow> string option \<Rightarrow> server \<Rightarrow> command_result \<times> server" where
  "command_invite c params = registered_only c (\<lambda>s.
     case params of
       None \<Rightarrow> ERR_NEEDMOREPARAMS c ''INVITE'' s
     | Some p \<Rightarrow>
         let (nick, rest) = tok1 p;
             (channel_name, rest2) = tok1 rest
         in case (nick, channel_name) of
              (Some n, Some name) \<Rightarrow> invite_body c n name s
            | _ \<Rightarrow> ERR_NEEDMOREPARAMS c ''INVITE'' s)"

subsection \<open>KNOCK\<close>

text \<open>The result of \<open>client_sendf\<close>, or -1 when the request does not fit a line.\<close>

definition send_knock_to_staff :: "cref \<Rightarrow> cref \<Rightarrow> chref \<Rightarrow> string \<Rightarrow> server \<Rightarrow> int \<times> server" where
  "send_knock_to_staff staff requester h reason s =
     (let base = '':'' @ client_identity (sv_client s requester) @ '' KNOCK '' @ ch_name (sv_channel s h) @ '' :''
      in if length base > IRC_LINE_CONTENT_MAX then (-1, s)
         else sendf_rc staff (base @ take (IRC_LINE_CONTENT_MAX - length base) reason) s)"

definition knock_staff :: "cref \<Rightarrow> chref \<Rightarrow> string \<Rightarrow> server \<Rightarrow> bool \<times> server" where
  "knock_staff c h reason s =
     fold (\<lambda>m (delivered, s).
            if \<not> channel_privilege_has (m_privileges m) staff_privileges then (delivered, s)
            else let (rc, s1) = send_knock_to_staff (m_client m) c h reason s in (delivered \<or> rc \<ge> 0, s1))
       (ch_members (sv_channel s h)) (False, s)"

definition cannot_knock :: "cref \<Rightarrow> chref \<Rightarrow> string \<Rightarrow> server \<Rightarrow> command_result \<times> server" where
  "cannot_knock c h why s =
     reply c ''480'' ('':Cannot knock on '' @ ch_name (sv_channel s h) @ '' ('' @ why @ '')'') s"

definition knock_body :: "cref \<Rightarrow> string \<Rightarrow> string option \<Rightarrow> server \<Rightarrow> command_result \<times> server" where
  "knock_body c name reason s =
     (case hash_get (sv_channels_by_name s) name of
        None \<Rightarrow> (COMMAND_KEEP_CLIENT, send_no_such_channel_query c (Some name) s)
      | Some h \<Rightarrow>
          let ch = sv_channel s h;
              is_full = (ch_user_limit ch \<noteq> 0 \<and> ch_member_count ch \<ge> ch_user_limit ch)
          in if channel_has_client ch c then cannot_knock c h ''you are already on the channel'' s
             else if channel_mode_has (ch_modes ch) CHANNEL_MODE_NO_KNOCK then cannot_knock c h ''channel mode +K'' s
             else if channel_client_is_banned ch (sv_client s c) then cannot_knock c h ''you are banned'' s
             else if \<not> channel_mode_has (ch_modes ch) CHANNEL_MODE_INVITE_ONLY \<and> ch_key ch = [] \<and> \<not> is_full
             then cannot_knock c h ''channel is open'' s
             else let (delivered, s1) = knock_staff c h (reason_or ''Knock'' reason) s
                  in if delivered
                     then (COMMAND_KEEP_CLIENT, sendf c ('':'' @ server_name s1 @ '' NOTICE '' @ c_nick (sv_client s1 c) @
                             '' :KNOCK delivered to '' @ ch_name (sv_channel s1 h) @ '' channel staff'') s1)
                     else cannot_knock c h ''no channel staff are available'' s1)"

definition command_knock :: "cref \<Rightarrow> string option \<Rightarrow> server \<Rightarrow> command_result \<times> server" where
  "command_knock c params = registered_only c (\<lambda>s.
     case params of
       None \<Rightarrow> ERR_NEEDMOREPARAMS c ''KNOCK'' s
     | Some p \<Rightarrow>
         let (channel_name, rest) = tok1 p
         in case channel_name of
              None \<Rightarrow> ERR_NEEDMOREPARAMS c ''KNOCK'' s
            | Some name \<Rightarrow> knock_body c name (trailing (tok_rest rest)) s)"

subsection \<open>The commands respect the server\<close>

lemma kick_body_keeps: "keeps c s (snd (kick_body c name nick reason s))"
proof -
  have "keeps c s (kick_member c target h reason s)"
    if "hash_get (sv_channels_by_name s) name = Some h" "hash_get (sv_clients_by_nick s) nick = Some target" for h target
    unfolding kick_member_def Let_def
    by (rule leave_keeps) (use that wf_channel_lookup wf_nick_lookup in blast)
  then show ?thesis
    by (simp add: kick_body_def replies_keeps Let_def split: option.split)
qed

lemma command_kick_keeps: "keeps c s (snd (command_kick c params s))"
  unfolding command_kick_def
  by (rule registered_only_keeps)
    (simp add: replies_keeps kick_body_keeps case_prod_beta Let_def split: option.split)

lemma topic_set_keeps: "keeps c s (topic_set c h topic s)"
  unfolding topic_set_def Let_def
  by (intro keeps_sends keeps_upd_channel keeps_refl) (simp add: plain_channel_update_def)

lemma topic_body_keeps: "keeps c s (snd (topic_body c name topic s))"
  using keeps_io [OF keeps_refl sendfs_io]
  by (simp add: topic_body_def replies_keeps topic_set_keeps Let_def split: option.split)

lemma command_topic_keeps: "keeps c s (snd (command_topic c params s))"
  unfolding command_topic_def
  by (rule registered_only_keeps)
    (simp add: replies_keeps topic_body_keeps case_prod_beta Let_def split: option.split)

lemma invite_add_plain: "plain_channel_update (\<lambda>ch. snd (channel_invite_add alloc ch i))"
  by (auto simp: plain_channel_update_def channel_invite_add_def)

lemma invite_send_state:
  "\<exists>t. io_only (upd_channel h (\<lambda>ch. snd (channel_invite_add (sv_alloc s) ch (c_id (sv_client s target)))) s) t \<and>
     invite_send c target h s = (COMMAND_KEEP_CLIENT, t)"
proof -
  obtain rc ch1 where a: "channel_invite_add (sv_alloc s) (sv_channel s h) (c_id (sv_client s target)) = (rc, ch1)" by fastforce
  have u: "upd_channel h (\<lambda>ch. snd (channel_invite_add (sv_alloc s) ch (c_id (sv_client s target)))) s = upd_channel h (\<lambda>_. ch1) s"
    by (simp add: upd_channel_def a)
  show ?thesis
    unfolding u invite_send_def a prod.case Let_def
    using io_only_trans [OF sendf_io sendf_io] by auto
qed

lemma invite_body_keeps: "keeps c s (snd (invite_body c nick name s))"
proof -
  have "keeps c s (snd (invite_send c target h s))" for target h
    using invite_send_state [of h s target c] keeps_io [OF keeps_upd_channel [OF keeps_refl invite_add_plain]] by auto
  then show ?thesis
    by (simp add: invite_body_def replies_keeps Let_def split: option.split)
qed

lemma command_invite_keeps: "keeps c s (snd (command_invite c params s))"
  unfolding command_invite_def
  by (rule registered_only_keeps)
    (simp add: replies_keeps invite_body_keeps case_prod_beta Let_def split: option.split)

lemma knock_to_staff_io: "io_only s (snd (send_knock_to_staff st c h r s))"
  by (simp add: send_knock_to_staff_def Let_def sendf_rc_io)

lemma knock_staff_io: "io_only s (snd (knock_staff c h r s))"
proof -
  have "io_only s (snd (fold (\<lambda>m (delivered, s).
            if \<not> channel_privilege_has (m_privileges m) staff_privileges then (delivered, s)
            else let (rc, s1) = send_knock_to_staff (m_client m) c h r s in (delivered \<or> rc \<ge> 0, s1)) ms (b, s)))" for ms b
  proof (induction ms arbitrary: b s)
    case (Cons m ms)
    have "io_only s (snd (send_knock_to_staff (m_client m) c h r s))" by (rule knock_to_staff_io)
    then show ?case
      using Cons.IH [of s b] io_only_trans Cons.IH by (auto simp: case_prod_beta Let_def)
  qed simp
  then show ?thesis by (simp add: knock_staff_def)
qed

lemma cannot_knock_io: "io_only s (snd (cannot_knock c h why s))"
  by (simp add: cannot_knock_def)

lemma knock_body_io: "io_only s (snd (knock_body c name reason s))"
proof -
  have "io_only s (sendf c l (snd (knock_staff c h r s)))" "io_only s (snd (cannot_knock c h w (snd (knock_staff c h r s))))" for h r l w
    using io_only_trans [OF knock_staff_io] cannot_knock_io by blast+
  then show ?thesis
    by (simp add: knock_body_def Let_def case_prod_beta cannot_knock_io split: option.split)
qed

lemma registered_only_io:
  assumes "\<And>s. io_only s (snd (body s))"
  shows "io_only s (snd (registered_only c body s))"
  using io_only_trans [OF require_registered_io assms] require_registered_io
  by (simp add: registered_only_def case_prod_beta)

lemma command_knock_io: "io_only s (snd (command_knock c params s))"
  unfolding command_knock_def
  by (rule registered_only_io) (simp add: knock_body_io case_prod_beta Let_def split: option.split)

subsection \<open>Authority\<close>

lemma kick_denied_rank:
  assumes "\<not> kick_denied False a t"
  shows "channel_privilege_rank t < channel_privilege_rank a \<or> channel_privilege_rank t = 4 \<and> channel_privilege_rank a = 4"
  using assms
  by (auto simp: kick_denied_def channel_privilege_has_def channel_privilege_rank_def bit.conj_disj_distrib split: if_splits)

lemma leave_client:
  assumes "server_wf s" "d \<in> set (sv_clients s)"
  shows "sv_client (server_remove_channel_if_empty h (remove_member h d (channel_broadcast h None msg s))) =
    (sv_client s)(d := (sv_client s d)\<lparr>c_channels := filter (\<lambda>x. x \<noteq> h) (c_channels (sv_client s d)),
      c_channel_count := length (filter (\<lambda>x. x \<noteq> h) (c_channels (sv_client s d)))\<rparr>)"
  using remove_member_client [OF server_wf_io [OF channel_broadcast_io assms(1)]] assms(2) by simp

text \<open>What a kick by \<open>c\<close> amounts to.\<close>

definition kicked :: "cref \<Rightarrow> server \<Rightarrow> server \<Rightarrow> bool" where
  "kicked c s s' \<longleftrightarrow>
     (\<exists>h target actor tm. h \<in> set (sv_live s) \<and>
        channel_find_member (sv_channel s h) c = Some actor \<and> channel_find_member (sv_channel s h) target = Some tm \<and>
        channel_privilege_rank (m_privileges actor) \<ge> 2 \<and>
        (target = c \<or> channel_privilege_rank (m_privileges tm) < channel_privilege_rank (m_privileges actor) \<or>
         channel_privilege_rank (m_privileges tm) = 4 \<and> channel_privilege_rank (m_privileges actor) = 4) \<and>
        sv_client s' = (sv_client s)(target := (sv_client s target)
          \<lparr>c_channels := filter (\<lambda>x. x \<noteq> h) (c_channels (sv_client s target)),
           c_channel_count := length (filter (\<lambda>x. x \<noteq> h) (c_channels (sv_client s target)))\<rparr>))"

lemma kick_body_cases:
  assumes wf: "server_wf s"
  shows "sv_client (snd (kick_body c name nick reason s)) = sv_client s \<or> kicked c s (snd (kick_body c name nick reason s))"
proof -
  have io: "sv_client (snd (reply c n r s)) = sv_client s" "sv_client (send_query_error c n t q s) = sv_client s" for n r t q
    by (simp_all add: io_fields [OF query_error_io])
  have kick: "kicked c s (kick_member c target h reason s)"
    if "hash_get (sv_channels_by_name s) name = Some h" "hash_get (sv_clients_by_nick s) nick = Some target"
      "channel_find_member (sv_channel s h) c = Some actor" "channel_find_member (sv_channel s h) target = Some tm"
      "\<not> channel_privilege_rank (m_privileges actor) < 2" "\<not> kick_denied (target = c) (m_privileges actor) (m_privileges tm)"
    for h target actor tm
  proof -
    have "target = c \<or> channel_privilege_rank (m_privileges tm) < channel_privilege_rank (m_privileges actor) \<or>
        channel_privilege_rank (m_privileges tm) = 4 \<and> channel_privilege_rank (m_privileges actor) = 4"
      using that(6) kick_denied_rank by (cases "target = c") auto
    moreover have "h \<in> set (sv_live s)" "target \<in> set (sv_clients s)"
      using that(1,2) wf_channel_lookup [OF wf] wf_nick_lookup [OF wf] by blast+
    ultimately show ?thesis
      unfolding kicked_def kick_member_def Let_def using that(3-5) leave_client [OF wf] by (auto simp: not_less)
  qed
  show ?thesis
    using kick by (simp add: kick_body_def io Let_def split: option.split)
qed

lemma registered_only_cases:
  assumes "\<not> c_registered (sv_client s c) \<Longrightarrow> P (COMMAND_KEEP_CLIENT, snd (command_require_registered c s))"
    and "c_registered (sv_client s c) \<Longrightarrow> P (body s)"
  shows "P (registered_only c body s)"
  using assms by (auto simp: registered_only_def command_require_registered_def)

subsection \<open>Properties\<close>

text \<open>
  C17: KICK needs authority over the target.  On a well-formed server KICK keeps the server well formed and
  changes the channels of at most one client: that client was in the channel, the kicking client was in it as a halfop or
  higher, and either kicks itself, or outranks the target, or both are protected members.
\<close>

theorem kick_needs_authority:
  assumes "server_wf s" "c \<in> set (sv_clients s)"
  shows "server_wf (snd (command_kick c params s)) \<and>
    (sv_client (snd (command_kick c params s)) = sv_client s \<or> kicked c s (snd (command_kick c params s)))"
proof -
  have "sv_client (snd (command_kick c params s)) = sv_client s \<or> kicked c s (snd (command_kick c params s))"
    unfolding command_kick_def
  proof (rule registered_only_cases [where P = "\<lambda>r. sv_client (snd r) = sv_client s \<or> kicked c s (snd r)"])
    show "sv_client (snd (COMMAND_KEEP_CLIENT, snd (command_require_registered c s))) = sv_client s \<or>
        kicked c s (snd (COMMAND_KEEP_CLIENT, snd (command_require_registered c s)))"
      by (simp add: io_fields [OF require_registered_io])
  qed (simp add: kick_body_cases [OF assms(1)] io_fields [OF reply_io(2)] case_prod_beta Let_def split: option.split)
  then show ?thesis using command_kick_keeps [of c s params] assms by (simp add: keeps_def)
qed

theorem kick_needs_authority_witness:
  "server_wf (snd (command_kick 0 (Some ''#room bob :bye'') example_room))"
  using kick_needs_authority [OF example_room_wf, of 0 "Some ''#room bob :bye''"] by simp

text \<open>
  KNOCK grants nothing and cannot reach the staff from a ban.  KNOCK changes nothing but output queues, in particular it
  creates no invitation; and when the client is banned from the channel it names, nobody but
  the client itself is sent a line.
\<close>

theorem knock_is_only_a_request:
  "io_only s (snd (command_knock c params s)) \<and>
   (hash_get (sv_channels_by_name s) name = Some h \<and> channel_client_is_banned (sv_channel s h) (sv_client s c) \<longrightarrow>
      (\<forall>entry\<in>set (drop (length (sv_log s)) (sv_log (snd (knock_body c name reason s)))). fst entry = c))"
proof -
  have "\<exists>l. snd (cannot_knock c h w s) = sendf c l s" for w
    by (auto simp: cannot_knock_def reply_def)
  then have "hash_get (sv_channels_by_name s) name = Some h \<Longrightarrow> channel_client_is_banned (sv_channel s h) (sv_client s c) \<Longrightarrow>
      \<exists>l. snd (knock_body c name reason s) = sendf c l s"
    by (simp add: knock_body_def Let_def)
  then show ?thesis using command_knock_io by fastforce
qed

theorem knock_is_only_a_request_witness:
  "let s = upd_channel 0 (\<lambda>ch. ch\<lparr>ch_members := [], ch_ban_list := [\<lparr>me_mask = ''*!*@*'', me_protected_authorized = False\<rparr>]\<rparr>) example_room
   in \<forall>entry\<in>set (drop (length (sv_log s)) (sv_log (snd (knock_body 1 ''#room'' None s)))). fst entry = 1"
proof -
  let ?s = "upd_channel 0 (\<lambda>ch. ch\<lparr>ch_members := [], ch_ban_list := [\<lparr>me_mask = ''*!*@*'', me_protected_authorized = False\<rparr>]\<rparr>) example_room"
  have "irc_mask_match ''*!*@*'' ''bob!u@h''" by code_simp
  then have "hash_get (sv_channels_by_name ?s) ''#room'' = Some 0 \<and> channel_client_is_banned (sv_channel ?s 0) (sv_client ?s 1)"
    by (simp add: upd_channel_def channel_client_is_banned_def channel_mask_matches_client_def mask_entry_matches_client_def
        client_identity_def example_channel_def channel_zero_def chain_get_Cons del: chain_get.simps)
  then show ?thesis
    using knock_is_only_a_request [of ?s 1 None "''#room''" 0 None] by (simp add: Let_def)
qed

end
