(* ===== verification/Channel_Mode.thy ===== *)
theory Channel_Mode
  imports Channel_Commands
begin

section \<open>MODE on channels (src/commands/mode.c, src/commands/mode_persist.c)\<close>

text \<open>
  The channel half of MODE: the parser \<open>mode_channel\<close>, which \<open>mode.c\<close> provides as \<open>command_mode_core\<close>, and
  the checks that \<open>mode_persist.c\<close> wraps around it.  MODE on a nickname is not part of this theory.
\<close>

subsection \<open>Letters\<close>

definition channel_boolean_mode_bit :: "char \<Rightarrow> u64" where
  "channel_boolean_mode_bit letter =
     (if letter = CHR ''A'' then CHANNEL_MODE_ADMIN_ONLY
      else if letter = CHR ''c'' then CHANNEL_MODE_NO_COLOR
      else if letter = CHR ''i'' then CHANNEL_MODE_INVITE_ONLY
      else if letter = CHR ''K'' then CHANNEL_MODE_NO_KNOCK
      else if letter = CHR ''M'' then CHANNEL_MODE_REGONLY_SPEAK
      else if letter = CHR ''m'' then CHANNEL_MODE_MODERATED
      else if letter = CHR ''n'' then CHANNEL_MODE_NO_EXTERNAL
      else if letter = CHR ''O'' then CHANNEL_MODE_OPER_ONLY
      else if letter = CHR ''p'' then CHANNEL_MODE_PRIVATE
      else if letter = CHR ''r'' then CHANNEL_MODE_REGISTERED
      else if letter = CHR ''R'' then CHANNEL_MODE_REGONLY_JOIN
      else if letter = CHR ''S'' then CHANNEL_MODE_STRIP_COLOR
      else if letter = CHR ''s'' then CHANNEL_MODE_SECRET
      else if letter = CHR ''t'' then CHANNEL_MODE_TOPIC_LOCK
      else if letter = CHR ''T'' then CHANNEL_MODE_NO_NOTICE
      else if letter = CHR ''V'' then CHANNEL_MODE_NO_INVITE
      else if letter = CHR ''z'' then CHANNEL_MODE_SECURE_ONLY
      else 0)"

text \<open>\<open>boolean_bit\<close> of \<open>mode_persist.c\<close> is the same table without \<open>r\<close>.\<close>

definition boolean_bit :: "char \<Rightarrow> u64" where
  "boolean_bit letter = (if letter = CHR ''r'' then 0 else channel_boolean_mode_bit letter)"

definition channel_privilege_bit :: "char \<Rightarrow> u32" where
  "channel_privilege_bit letter =
     (if letter = CHR ''q'' then CHANNEL_PRIV_OWNER
      else if letter = CHR ''a'' then CHANNEL_PRIV_PROTECTED
      else if letter = CHR ''o'' then CHANNEL_PRIV_OPERATOR
      else if letter = CHR ''h'' then CHANNEL_PRIV_HALFOP
      else if letter = CHR ''v'' then CHANNEL_PRIV_VOICE
      else 0)"

subsection \<open>Permissions\<close>

definition secureops_allows :: "server \<Rightarrow> channel \<Rightarrow> cref \<Rightarrow> u32 \<Rightarrow> bool" where
  "secureops_allows s ch subject privilege \<longleftrightarrow>
     (if \<not> ch_chanserv_secure_ops ch then True
      else let rank = channel_privilege_rank (chanserv_client_privileges s (sv_client s subject) (ch_name ch))
           in if privilege = CHANNEL_PRIV_OWNER then rank \<ge> 5
              else if privilege = CHANNEL_PRIV_PROTECTED then rank \<ge> 4
              else if privilege = CHANNEL_PRIV_OPERATOR then rank \<ge> 3
              else if privilege = CHANNEL_PRIV_HALFOP then rank \<ge> 2
              else True)"

definition may_change_channel :: "channel \<Rightarrow> cref \<Rightarrow> bool" where
  "may_change_channel ch c \<longleftrightarrow>
     (case channel_find_member ch c of
        None \<Rightarrow> False
      | Some m \<Rightarrow> channel_privilege_has (m_privileges m)
                    (CHANNEL_PRIV_OWNER OR CHANNEL_PRIV_PROTECTED OR CHANNEL_PRIV_OPERATOR))"

definition may_manage_protected :: "channel \<Rightarrow> cref \<Rightarrow> bool" where
  "may_manage_protected ch c \<longleftrightarrow>
     (case channel_find_member ch c of
        None \<Rightarrow> False
      | Some m \<Rightarrow> channel_privilege_has (m_privileges m) (CHANNEL_PRIV_OWNER OR CHANNEL_PRIV_PROTECTED))"

definition ban_mask_targets_protected :: "server \<Rightarrow> channel \<Rightarrow> string \<Rightarrow> bool" where
  "ban_mask_targets_protected s ch ban_mask \<longleftrightarrow>
     list_ex (\<lambda>m. channel_privilege_has (m_privileges m) CHANNEL_PRIV_PROTECTED \<and>
                  \<not> channel_privilege_has (m_privileges m) CHANNEL_PRIV_OWNER \<and>
                  irc_mask_match ban_mask (client_identity (sv_client s (m_client m))))
       (ch_members ch)"

definition parse_uint :: "string \<Rightarrow> nat option" where
  "parse_uint text =
     (if text = [] then None
      else let (parsed, overflow, rest) = strtoul text
           in if overflow \<or> rest = text \<or> rest \<noteq> [] then None else Some parsed)"

subsection \<open>The record of changes\<close>

text \<open>
  The local variables of \<open>mode_channel\<close>: the sign in force, the parameters not yet consumed (\<open>argv\<close> from
  \<open>argi\<close> on), the letters changed with the sign last written, and their parameters.
\<close>

record mode_state =
  md_adding :: bool
  md_args :: "string list"
  md_changed :: string
  md_last_sign :: "char option"
  md_params :: string

definition append_mode :: "char \<Rightarrow> mode_state \<Rightarrow> mode_state" where
  "append_mode letter st =
     (let sign = (if md_adding st then CHR ''+'' else CHR ''-'');
          st1 = (if md_last_sign st \<noteq> Some sign \<and> length (md_changed st) + 1 < 128
                 then st\<lparr>md_changed := md_changed st @ [sign], md_last_sign := Some sign\<rparr> else st)
      in if length (md_changed st1) + 1 < 128 then st1\<lparr>md_changed := md_changed st1 @ [letter]\<rparr> else st1)"

definition join_param :: "nat \<Rightarrow> string \<Rightarrow> string \<Rightarrow> string" where
  "join_param bufsize buffer param = take (bufsize - 1) (buffer @ (if buffer \<noteq> [] then '' '' else []) @ param)"

definition append_param :: "string \<Rightarrow> mode_state \<Rightarrow> mode_state" where
  "append_param param st = st\<lparr>md_params := join_param IRCD_MESSAGE_BUFFER_SIZE (md_params st) param\<rparr>"

definition consume :: "mode_state \<Rightarrow> mode_state" where
  "consume st = st\<lparr>md_args := drop 1 (md_args st)\<rparr>"

definition mode_param :: "mode_state \<Rightarrow> string option" where
  "mode_param st = (case md_args st of [] \<Rightarrow> None | p # _ \<Rightarrow> Some p)"

text \<open>The \<open>client_sendf(...); continue;\<close> of the loop.\<close>

definition mode_error :: "cref \<Rightarrow> string \<Rightarrow> string \<Rightarrow> mode_state \<Rightarrow> server \<Rightarrow> mode_state \<times> server" where
  "mode_error c num rest st s = (st, snd (reply c num rest s))"

definition mode_need_more :: "cref \<Rightarrow> mode_state \<Rightarrow> server \<Rightarrow> mode_state \<times> server" where
  "mode_need_more c st s = (st, snd (ERR_NEEDMOREPARAMS c ''MODE'' s))"

subsection \<open>The modes\<close>

definition mode_boolean :: "cref \<Rightarrow> chref \<Rightarrow> char \<Rightarrow> mode_state \<Rightarrow> server \<Rightarrow> mode_state \<times> server" where
  "mode_boolean c h letter st s =
     (if letter = CHR ''r''
      then mode_error c ''468'' (ch_name (sv_channel s h) @ '' :Only servers can change that mode'') st s
      else (append_mode letter st,
            upd_channel h (\<lambda>ch. ch\<lparr>ch_modes :=
              (if md_adding st then channel_mode_add else channel_mode_remove) (ch_modes ch) (channel_boolean_mode_bit letter)\<rparr>) s))"

definition mode_privilege :: "cref \<Rightarrow> chref \<Rightarrow> char \<Rightarrow> mode_state \<Rightarrow> server \<Rightarrow> mode_state \<times> server" where
  "mode_privilege c h letter st0 s =
     (case mode_param st0 of
        None \<Rightarrow> mode_need_more c st0 s
      | Some param \<Rightarrow>
          let st = consume st0;
              ch = sv_channel s h;
              privilege = channel_privilege_bit letter
          in (case hash_get (sv_clients_by_nick s) param of
                None \<Rightarrow> mode_error c ''401'' (param @ '' :No such nick/channel'') st s
              | Some subject \<Rightarrow>
                  if \<not> channel_has_client ch subject
                  then mode_error c ''441'' (c_nick (sv_client s subject) @ '' '' @ ch_name ch @ '' :They aren't on that channel'') st s
                  else if md_adding st \<and> \<not> secureops_allows s ch subject privilege
                  then mode_error c ''482'' (ch_name ch @
                         '' :SecureOps prevented granting protected status to an ineligible account'') st s
                  else if letter = CHR ''a'' \<and> \<not> may_manage_protected ch c
                  then mode_error c ''482'' (ch_name ch @ '' :You're not channel operator'') st s
                  else (append_param (c_nick (sv_client s subject)) (append_mode letter st),
                        upd_channel h (\<lambda>ch. snd ((if md_adding st then channel_add_privileges
                          else channel_remove_manual_privileges) ch subject privilege)) s)))"

definition mode_key :: "cref \<Rightarrow> chref \<Rightarrow> mode_state \<Rightarrow> server \<Rightarrow> mode_state \<times> server" where
  "mode_key c h st s =
     (if md_adding st
      then (case mode_param st of
              None \<Rightarrow> mode_need_more c st s
            | Some param \<Rightarrow>
                (append_mode (CHR ''k'') (append_param param (consume st)),
                 upd_channel h (\<lambda>ch. ch\<lparr>ch_key := take IRC_CHANNEL_KEY_MAX param\<rparr>) s))
      else (append_mode (CHR ''k'')
              (case mode_param st of None \<Rightarrow> st | Some param \<Rightarrow> append_param param (consume st)),
            upd_channel h (\<lambda>ch. ch\<lparr>ch_key := []\<rparr>) s))"

definition mode_limit :: "cref \<Rightarrow> chref \<Rightarrow> mode_state \<Rightarrow> server \<Rightarrow> mode_state \<times> server" where
  "mode_limit c h st s =
     (if md_adding st
      then (case mode_param st of
              None \<Rightarrow> mode_need_more c st s
            | Some param \<Rightarrow>
                (case parse_uint param of
                   None \<Rightarrow> mode_need_more c (consume st) s
                 | Some v \<Rightarrow>
                     if v = 0 then mode_need_more c (consume st) s
                     else (append_mode (CHR ''l'') (append_param param (consume st)),
                           upd_channel h (\<lambda>ch. ch\<lparr>ch_user_limit := v\<rparr>) s)))
      else (append_mode (CHR ''l'') st, upd_channel h (\<lambda>ch. ch\<lparr>ch_user_limit := 0\<rparr>) s))"

definition parse_throttle :: "string \<Rightarrow> (nat \<times> nat) option" where
  "parse_throttle param =
     (let before = takeWhile (\<lambda>x. x \<noteq> CHR '':'') param;
          after = drop 1 (dropWhile (\<lambda>x. x \<noteq> CHR '':'') param)
      in if CHR '':'' \<notin> set param then None
         else case (parse_uint before, parse_uint after) of
                (Some n, Some m) \<Rightarrow> if n = 0 \<or> m = 0 \<or> n > 2 ^ 32 - 1 \<or> m > 2 ^ 32 - 1 then None else Some (n, m)
              | _ \<Rightarrow> None)"

definition mode_throttle :: "cref \<Rightarrow> chref \<Rightarrow> mode_state \<Rightarrow> server \<Rightarrow> mode_state \<times> server" where
  "mode_throttle c h st s =
     (if md_adding st
      then (case mode_param st of
              None \<Rightarrow> mode_need_more c st s
            | Some param \<Rightarrow>
                if length param \<ge> 64 then mode_need_more c st s
                else case parse_throttle param of
                       None \<Rightarrow> mode_need_more c (consume st) s
                     | Some (n, m) \<Rightarrow>
                         (append_mode (CHR ''j'') (append_param param (consume st)),
                          upd_channel h (\<lambda>ch. ch\<lparr>ch_join_throttle_count := of_nat n, ch_join_throttle_seconds := of_nat m\<rparr>) s))
      else (append_mode (CHR ''j'') st,
            upd_channel h (\<lambda>ch. ch\<lparr>ch_join_throttle_count := 0, ch_join_throttle_seconds := 0\<rparr>) s))"

definition mode_redirect :: "cref \<Rightarrow> chref \<Rightarrow> char \<Rightarrow> mode_state \<Rightarrow> server \<Rightarrow> mode_state \<times> server" where
  "mode_redirect c h letter st s =
     (let assign = (\<lambda>v ch. if letter = CHR ''L'' then ch\<lparr>ch_limit_redirect := v\<rparr> else ch\<lparr>ch_ban_redirect := v\<rparr>)
      in if md_adding st
         then (case mode_param st of
                 None \<Rightarrow> mode_need_more c st s
               | Some param \<Rightarrow>
                   (append_mode letter (append_param param (consume st)),
                    upd_channel h (assign (take IRC_CHANNEL_NAME_MAX param)) s))
         else (append_mode letter st, upd_channel h (assign []) s))"

definition change_list :: "char \<Rightarrow> (mask_entry list \<Rightarrow> mask_entry list) \<Rightarrow> channel \<Rightarrow> channel" where
  "change_list letter f ch =
     (if letter = CHR ''b'' then ch\<lparr>ch_ban_list := f (ch_ban_list ch)\<rparr>
      else if letter = CHR ''e'' then ch\<lparr>ch_exception_list := f (ch_exception_list ch)\<rparr>
      else ch\<lparr>ch_invite_exception_list := f (ch_invite_exception_list ch)\<rparr>)"

text \<open>\<open>param\<close> is present: without one the list is shown instead.\<close>

definition mode_mask :: "cref \<Rightarrow> chref \<Rightarrow> char \<Rightarrow> string \<Rightarrow> mode_state \<Rightarrow> server \<Rightarrow> mode_state \<times> server" where
  "mode_mask c h letter param st0 s =
     (let st = consume st0;
          ch = sv_channel s h;
          authorized = (letter = CHR ''b'' \<and> may_manage_protected ch c);
          changed = append_param param (append_mode letter st)
      in if md_adding st
         then if letter = CHR ''b'' \<and> \<not> authorized \<and> ban_mask_targets_protected s ch param
              then mode_error c ''482'' (ch_name ch @ '' :You're not channel operator'') st s
              else (changed, upd_channel h (change_list letter (\<lambda>l. snd (channel_mask_add_authorized (sv_alloc s) l param authorized))) s)
         else (changed, upd_channel h (change_list letter (\<lambda>l. snd (channel_mask_remove l param))) s))"

definition send_mask_list :: "cref \<Rightarrow> chref \<Rightarrow> char \<Rightarrow> server \<Rightarrow> server" where
  "send_mask_list c h letter s =
     (let ch = sv_channel s h;
          nick = c_nick (sv_client s c);
          (num, end_num, end_text, list) =
            (if letter = CHR ''b'' then (''367'', ''368'', ''Ban'', ch_ban_list ch)
             else if letter = CHR ''e'' then (''348'', ''349'', ''Exception'', ch_exception_list ch)
             else (''346'', ''347'', ''Invite'', ch_invite_exception_list ch))
      in sendf c (numeric s end_num nick (ch_name ch @ '' :End of Channel '' @ end_text @ '' List''))
           (fold (\<lambda>e. sendf c (numeric s num nick (ch_name ch @ '' '' @ me_mask e @ '' * 0''))) list s))"

subsection \<open>The loop\<close>

definition mode_letter :: "cref \<Rightarrow> chref \<Rightarrow> char \<Rightarrow> mode_state \<Rightarrow> server \<Rightarrow> mode_state \<times> server" where
  "mode_letter c h letter st s =
     (if channel_boolean_mode_bit letter \<noteq> 0 then mode_boolean c h letter st s
      else if channel_privilege_bit letter \<noteq> 0 then mode_privilege c h letter st s
      else if letter = CHR ''k'' then mode_key c h st s
      else if letter = CHR ''l'' then mode_limit c h st s
      else if letter = CHR ''j'' then mode_throttle c h st s
      else if letter = CHR ''L'' \<or> letter = CHR ''B'' then mode_redirect c h letter st s
      else if letter \<in> set ''beI''
      then (case mode_param st of None \<Rightarrow> mode_need_more c st s | Some param \<Rightarrow> mode_mask c h letter param st s)
      else mode_error c ''472'' (letter # '' :is unknown mode char to me'') st s)"

text \<open>The Boolean of the result is false when the command returns from within the loop.\<close>

fun mode_loop :: "cref \<Rightarrow> chref \<Rightarrow> bool \<Rightarrow> string \<Rightarrow> mode_state \<Rightarrow> server \<Rightarrow> bool \<times> mode_state \<times> server" where
  "mode_loop c h may_change [] st s = (True, st, s)"
| "mode_loop c h may_change (letter # ls) st s =
     (if letter = CHR ''+'' \<or> letter = CHR ''-''
      then mode_loop c h may_change ls (st\<lparr>md_adding := (letter = CHR ''+'')\<rparr>) s
      else if letter \<in> set ''beI'' \<and> mode_param st = None
      then mode_loop c h may_change ls st (send_mask_list c h letter s)
      else if \<not> may_change
      then (False, st, snd (reply c ''482'' (ch_name (sv_channel s h) @ '' :You're not channel operator'') s))
      else let (st1, s1) = mode_letter c h letter st s in mode_loop c h may_change ls st1 s1)"

text \<open>The closing broadcast; the parameters are dropped when they do not fit the line.\<close>

definition mode_message :: "client \<Rightarrow> string \<Rightarrow> mode_state \<Rightarrow> string option" where
  "mode_message cl name st =
     (let prefix = '':'' @ client_identity cl @ '' MODE '' @ name @ '' '' @ md_changed st
      in if length prefix > IRC_LINE_CONTENT_MAX then None
         else Some ((if md_params st \<noteq> [] \<and> length prefix + 1 + length (md_params st) \<le> IRC_LINE_CONTENT_MAX
                     then prefix @ '' '' @ md_params st else prefix) @ [CR, LF]))"

definition mode_announce :: "cref \<Rightarrow> chref \<Rightarrow> mode_state \<Rightarrow> server \<Rightarrow> server" where
  "mode_announce c h st s =
     (if md_changed st = [] then s
      else chanserv_persist_channel h
             (case mode_message (sv_client s c) (ch_name (sv_channel s h)) st of
                None \<Rightarrow> s
              | Some message \<Rightarrow> channel_broadcast h None message s))"

definition boolean_letters :: "u64 \<Rightarrow> string" where
  "boolean_letters modes = filter (\<lambda>l. channel_mode_has modes (channel_boolean_mode_bit l)) ''AciKMmnOprRSstTVz''"

definition mode_channel :: "cref \<Rightarrow> string \<Rightarrow> string option \<Rightarrow> string list \<Rightarrow> server \<Rightarrow> command_result \<times> server" where
  "mode_channel c target mode_string args s =
     (case hash_get (sv_channels_by_name s) target of
        None \<Rightarrow> reply c ''403'' (target @ '' :No such channel'') s
      | Some h \<Rightarrow>
          (case mode_string of
             None \<Rightarrow> reply c ''324'' (ch_name (sv_channel s h) @ '' +'' @ boolean_letters (ch_modes (sv_channel s h)) @
                       concat (map (\<lambda>(set, l). if set then [l] else [])
                         [(ch_key (sv_channel s h) \<noteq> [], CHR ''k''), (ch_user_limit (sv_channel s h) \<noteq> 0, CHR ''l''),
                          (ch_join_throttle_count (sv_channel s h) \<noteq> 0, CHR ''j''),
                          (ch_limit_redirect (sv_channel s h) \<noteq> [], CHR ''L''), (ch_ban_redirect (sv_channel s h) \<noteq> [], CHR ''B'')])) s
           | Some ms \<Rightarrow>
               let (go, st, s1) = mode_loop c h (may_change_channel (sv_channel s h) c) ms
                     \<lparr>md_adding = True, md_args = args, md_changed = [], md_last_sign = None, md_params = []\<rparr> s
               in (COMMAND_KEEP_CLIENT, if go then mode_announce c h st s1 else s1)))"

abbreviation IRC_MODE_MAX_PARAMS :: nat where "IRC_MODE_MAX_PARAMS \<equiv> 32"

text \<open>\<open>command_mode_core\<close> for a target that names a channel.\<close>

definition command_mode_core :: "cref \<Rightarrow> string \<Rightarrow> string \<Rightarrow> server \<Rightarrow> command_result \<times> server" where
  "command_mode_core c target rest = registered_only c (\<lambda>s.
     let (mode_string, rest2) = tok1 rest
     in mode_channel c target mode_string (take IRC_MODE_MAX_PARAMS (tokens '' '' rest2)) s)"

subsection \<open>The wrapper of mode\_persist.c\<close>

definition nonempty_param :: "string \<Rightarrow> string \<Rightarrow> string" where
  "nonempty_param param buffer = (if param = [] then buffer else join_param 256 buffer param)"

definition channel_modes_text :: "channel \<Rightarrow> string" where
  "channel_modes_text ch =
     (let entries =
            [(ch_key ch \<noteq> [], CHR ''k'', ch_key ch),
             (ch_user_limit ch \<noteq> 0, CHR ''l'', dec (ch_user_limit ch)),
             (ch_join_throttle_count ch \<noteq> 0, CHR ''j'',
              dec (unat (ch_join_throttle_count ch)) @ '':'' @ dec (unat (ch_join_throttle_seconds ch))),
             (ch_limit_redirect ch \<noteq> [], CHR ''L'', ch_limit_redirect ch),
             (ch_ban_redirect ch \<noteq> [], CHR ''B'', ch_ban_redirect ch)];
          present = filter fst entries;
          modes = ''+'' @ boolean_letters (ch_modes ch) @ map (\<lambda>(_, l, _). l) present;
          params = fold (\<lambda>(_, _, p). nonempty_param p) present []
      in take 511 (if params \<noteq> [] then modes @ '' '' @ params else modes))"

definition send_channel_modes :: "cref \<Rightarrow> chref \<Rightarrow> server \<Rightarrow> server" where
  "send_channel_modes c h s =
     snd (reply c ''324'' (ch_name (sv_channel s h) @ '' '' @ channel_modes_text (sv_channel s h)) s)"

text \<open>The first letter that the mode lock forbids to change.\<close>

fun mlock_violation :: "channel \<Rightarrow> bool \<Rightarrow> string \<Rightarrow> char option" where
  "mlock_violation ch adding [] = None"
| "mlock_violation ch adding (letter # ls) =
     (if letter = CHR ''+'' \<or> letter = CHR ''-'' then mlock_violation ch (letter = CHR ''+'') ls
      else if boolean_bit letter = 0 then mlock_violation ch adding ls
      else if \<not> chanserv_mode_change_allowed ch (boolean_bit letter) adding then Some letter
      else mlock_violation ch adding ls)"

definition check_mlock :: "cref \<Rightarrow> chref option \<Rightarrow> string option \<Rightarrow> server \<Rightarrow> bool \<times> server" where
  "check_mlock c channel mode_string s =
     (case (channel, mode_string) of
        (Some h, Some ms) \<Rightarrow>
          (case mlock_violation (sv_channel s h) True ms of
             None \<Rightarrow> (True, s)
           | Some letter \<Rightarrow> (False, snd (reply c ''974'' (letter # '' :Mode is locked by ChanServ'') s)))
      | _ \<Rightarrow> (True, s))"

definition user_limit_exceeds_persistable_range :: "string \<Rightarrow> bool" where
  "user_limit_exceeds_persistable_range param =
     (let digits = (if starts_with ''+'' param then drop 1 param else param)
      in if param = [] then False
         else if starts_with ''-'' digits then True
         else if digits = [] then False
         else if \<not> list_all isdigit digits then False
         else let stripped = dropWhile (\<lambda>x. x = CHR ''0'') digits;
                  significant = (if stripped = [] then ''0'' else stripped)
              in if length significant \<noteq> 19 then length significant > 19
                 else digit_value significant > 9223372036854775807)"

text \<open>Whether a letter takes the next parameter, as \<open>validate_channel_mode_params\<close> counts them.\<close>

definition mode_consumes :: "char \<Rightarrow> bool \<Rightarrow> bool" where
  "mode_consumes letter adding \<longleftrightarrow> letter \<in> set ''qaohvkbeI'' \<or> (letter \<in> set ''ljLB'' \<and> adding)"

definition redirect_invalid :: "channel \<Rightarrow> string option \<Rightarrow> bool" where
  "redirect_invalid ch param =
     (case param of
        None \<Rightarrow> True
      | Some p \<Rightarrow> \<not> starts_with ''#&'' p \<or> length p > IRC_CHANNEL_NAME_MAX \<or> strcaseeq p (ch_name ch))"

text \<open>The refusal, \<open>None\<close> when the parameters are acceptable.\<close>

fun validate_loop :: "channel \<Rightarrow> bool \<Rightarrow> string \<Rightarrow> string list \<Rightarrow> (string \<times> string) option" where
  "validate_loop ch adding [] args = None"
| "validate_loop ch adding (letter # ls) args =
     (if letter = CHR ''+'' \<or> letter = CHR ''-'' then validate_loop ch (letter = CHR ''+'') ls args
      else let param = (case args of [] \<Rightarrow> None | p # _ \<Rightarrow> Some p)
           in if letter = CHR ''l'' \<and> adding \<and> (case param of Some p \<Rightarrow> user_limit_exceeds_persistable_range p | None \<Rightarrow> False)
              then Some (''461'', ''MODE :Not enough parameters'')
              else if letter \<in> set ''LB'' \<and> adding \<and> redirect_invalid ch param
              then Some (''403'', (case param of Some p \<Rightarrow> p | None \<Rightarrow> ''*'') @ '' :No such channel'')
              else validate_loop ch adding ls (if mode_consumes letter adding then drop 1 args else args))"

definition validate_channel_mode_params :: "cref \<Rightarrow> chref option \<Rightarrow> string \<Rightarrow> server \<Rightarrow> bool \<times> server" where
  "validate_channel_mode_params c channel rest s =
     (case channel of
        None \<Rightarrow> (True, s)
      | Some h \<Rightarrow>
          (case tok1 rest of
             (None, _) \<Rightarrow> (True, s)
           | (Some modes, rest2) \<Rightarrow>
               (case validate_loop (sv_channel s h) True modes (take IRC_MODE_MAX_PARAMS (tokens '' '' rest2)) of
                  None \<Rightarrow> (True, s)
                | Some (num, text) \<Rightarrow> (False, snd (reply c num text s)))))"

text \<open>After the core: the throttle window restarts when the throttle changed, and the channel is stored.\<close>

definition mode_finish :: "string \<Rightarrow> u32 \<times> u32 \<Rightarrow> server \<Rightarrow> server" where
  "mode_finish name old s =
     (case hash_get (sv_channels_by_name s) name of
        None \<Rightarrow> s
      | Some h \<Rightarrow>
          chanserv_persist_channel h
            (if old \<noteq> (ch_join_throttle_count (sv_channel s h), ch_join_throttle_seconds (sv_channel s h))
             then upd_channel h channel_join_throttle_clear s else s))"

text \<open>\<open>command_mode\<close> of \<open>mode_persist.c\<close> for \<open>target\<close>, the first token of the parameters, that names a channel.\<close>

definition command_mode_policy_core :: "cref \<Rightarrow> string \<Rightarrow> string \<Rightarrow> server \<Rightarrow> command_result \<times> server" where
  "command_mode_policy_core c target rest s =
     (let channel_name = take IRC_CHANNEL_NAME_MAX target;
          channel = hash_get (sv_channels_by_name s) channel_name;
          mode_string = fst (tok1 rest)
      in if mode_string = None \<and> channel \<noteq> None
         then registered_only c (\<lambda>s. (COMMAND_KEEP_CLIENT, send_channel_modes c (the channel) s)) s
         else let (unlocked, s1) = check_mlock c channel mode_string s
              in if \<not> unlocked then (COMMAND_KEEP_CLIENT, s1)
                 else let (valid, s2) = validate_channel_mode_params c channel rest s1
                      in if \<not> valid then (COMMAND_KEEP_CLIENT, s2)
                         else let old = (case channel of None \<Rightarrow> (0, 0)
                                         | Some h \<Rightarrow> (ch_join_throttle_count (sv_channel s2 h), ch_join_throttle_seconds (sv_channel s2 h)));
                                  (result, s3) = command_mode_core c target rest s2
                              in (result, mode_finish channel_name old s3))"

subsection \<open>What one letter changes\<close>

text \<open>
  A step of the loop sends a reply or changes one channel: its members stay, and so do the fields that only
  ChanServ sets.
\<close>

definition chanserv_fields_kept :: "channel \<Rightarrow> channel \<Rightarrow> bool" where
  "chanserv_fields_kept a b \<longleftrightarrow> same_members a b \<and> ch_chanserv_policy_valid b = ch_chanserv_policy_valid a \<and>
     ch_chanserv_mode_lock b = ch_chanserv_mode_lock a \<and>
     channel_mode_has (ch_modes b) CHANNEL_MODE_REGISTERED = channel_mode_has (ch_modes a) CHANNEL_MODE_REGISTERED"

lemma fields_kept_refl [simp]: "chanserv_fields_kept a a"
  by (simp add: chanserv_fields_kept_def)

lemma fields_kept_trans: "chanserv_fields_kept a b \<Longrightarrow> chanserv_fields_kept b c \<Longrightarrow> chanserv_fields_kept a c"
  by (auto simp: chanserv_fields_kept_def intro: same_members_trans)

lemma fields_keptI:
  "same_members a b \<Longrightarrow> ch_chanserv_policy_valid b = ch_chanserv_policy_valid a \<Longrightarrow>
     ch_chanserv_mode_lock b = ch_chanserv_mode_lock a \<Longrightarrow> ch_modes b = ch_modes a \<Longrightarrow> chanserv_fields_kept a b"
  by (simp add: chanserv_fields_kept_def)

text \<open>
  \<open>mode_step h s t\<close> for a step that leaves the Boolean modes alone, up to output.
\<close>

definition mode_step :: "chref \<Rightarrow> server \<Rightarrow> server \<Rightarrow> bool" where
  "mode_step h s t \<longleftrightarrow>
     (\<exists>f. (\<forall>ch. chanserv_fields_kept ch (f ch) \<and> ch_modes (f ch) = ch_modes ch) \<and> io_only (upd_channel h f s) t)"

lemma upd_channel_id [simp]: "upd_channel h (\<lambda>ch. ch) s = s"
  by (simp add: upd_channel_def)

lemma mode_step_io: "io_only s t \<Longrightarrow> mode_step h s t"
  unfolding mode_step_def by (rule exI [of _ "\<lambda>ch. ch"]) simp

lemma mode_step_upd:
  assumes "\<And>ch. same_members ch (f ch) \<and> ch_chanserv_policy_valid (f ch) = ch_chanserv_policy_valid ch \<and>
    ch_chanserv_mode_lock (f ch) = ch_chanserv_mode_lock ch \<and> ch_modes (f ch) = ch_modes ch"
  shows "mode_step h s (upd_channel h f s)"
  unfolding mode_step_def using assms by (intro exI [of _ f]) (auto intro: fields_keptI)

lemma mode_error_step: "mode_step h s (snd (mode_error c n r st s))" "mode_step h s (snd (mode_need_more c st s))"
  by (simp_all add: mode_error_def mode_need_more_def mode_step_io)

lemma with_member_fields:
  "ch_chanserv_policy_valid (snd (with_member ch c f)) = ch_chanserv_policy_valid ch"
  "ch_chanserv_mode_lock (snd (with_member ch c f)) = ch_chanserv_mode_lock ch"
  "ch_modes (snd (with_member ch c f)) = ch_modes ch"
  by (simp_all add: with_member_def split: option.split)

lemma mode_privilege_step: "mode_step h s (snd (mode_privilege c h l st s))"
proof -
  have "mode_step h s (upd_channel h (\<lambda>ch. snd (channel_add_privileges ch d p)) s)"
    "mode_step h s (upd_channel h (\<lambda>ch. snd (channel_remove_manual_privileges ch d p)) s)" for d p
    using privilege_members(1,3)
    by (auto intro!: mode_step_upd simp: channel_add_privileges_def channel_remove_manual_privileges_def with_member_fields)
  then show ?thesis
    by (simp add: mode_privilege_def mode_error_step Let_def split: option.split)
qed

lemma mode_simple_steps:
  "mode_step h s (snd (mode_key c h st s))" "mode_step h s (snd (mode_limit c h st s))"
  "mode_step h s (snd (mode_throttle c h st s))" "mode_step h s (snd (mode_redirect c h l st s))"
  "mode_step h s (snd (mode_mask c h l p st s))"
  by (auto simp: mode_key_def mode_limit_def mode_throttle_def mode_redirect_def mode_mask_def change_list_def Let_def
      mode_error_step intro!: mode_step_upd same_membersI split: option.split if_splits)

lemma mode_letter_step:
  assumes "channel_boolean_mode_bit l = 0 \<or> l = CHR ''r''"
  shows "mode_step h s (snd (mode_letter c h l st s))"
  using assms
  by (auto simp: mode_letter_def mode_boolean_def mode_privilege_step mode_simple_steps mode_error_step split: option.split)

lemma mode_step_keeps:
  assumes "mode_step h s t"
  shows "keeps c s t"
proof -
  obtain f where f: "\<And>ch. chanserv_fields_kept ch (f ch)" "io_only (upd_channel h f s) t"
    using assms by (auto simp: mode_step_def)
  show ?thesis
    by (rule keeps_io [OF keeps_same_members [OF keeps_refl] f(2)]) (use f(1) in \<open>simp add: chanserv_fields_kept_def\<close>)
qed

lemma mode_boolean_keeps: "keeps c s (snd (mode_boolean d h l st s))"
  by (auto simp: mode_boolean_def mode_error_def replies_keeps intro!: keeps_same_members same_membersI)

lemma mode_letter_keeps: "keeps c s (snd (mode_letter d h l st s))"
proof (cases "channel_boolean_mode_bit l = 0")
  case True
  then show ?thesis by (intro mode_step_keeps [OF mode_letter_step]) simp
qed (simp add: mode_letter_def mode_boolean_keeps)

lemma mask_list_io [simp, intro!]: "io_only s (send_mask_list c h l s)"
proof -
  have "io_only s (fold (\<lambda>e. sendf c (k e)) es s)" for k and es :: "mask_entry list"
    by (rule io_only_fold) simp
  then show ?thesis
    unfolding send_mask_list_def Let_def case_prod_beta by (rule io_only_trans [OF _ sendf_io])
qed

lemma mode_loop_keeps: "keeps c s (snd (snd (mode_loop d h may ls st s)))"
proof (induction d h may ls st s rule: mode_loop.induct)
  case (2 d h may l ls st s)
  have "keeps c s (snd (mode_letter d h l st s))" "keeps c s (send_mask_list d h l s)"
    by (rule mode_letter_keeps keeps_io [OF keeps_refl mask_list_io])+
  from this [THEN keeps_trans] show ?case
    using "2.IH" by (simp add: replies_keeps case_prod_beta Let_def)
qed simp

lemma mode_announce_keeps: "keeps c s (mode_announce d h st s)"
  by (auto simp: mode_announce_def intro!: chanserv_keeps keeps_sends split: option.split)

lemma mode_channel_keeps: "keeps c s (snd (mode_channel d target ms args s))"
  using mode_loop_keeps keeps_trans [OF mode_loop_keeps mode_announce_keeps]
  by (auto simp: mode_channel_def replies_keeps case_prod_beta Let_def split: option.split)

lemma command_mode_core_keeps: "keeps c s (snd (command_mode_core c target rest s))"
  unfolding command_mode_core_def
  by (rule registered_only_keeps) (simp add: mode_channel_keeps case_prod_beta)

lemma check_mlock_io: "io_only s (snd (check_mlock c ch ms s))"
  by (simp add: check_mlock_def split: option.split)

lemma validate_params_io: "io_only s (snd (validate_channel_mode_params c ch rest s))"
  by (simp add: validate_channel_mode_params_def split: option.split prod.split)

lemma mode_finish_keeps: "keeps c s (mode_finish n old s)"
  by (auto simp: mode_finish_def channel_join_throttle_clear_def
      intro!: chanserv_keeps keeps_same_members same_membersI split: option.split)

lemma mode_policy_core_keeps: "keeps c s (snd (command_mode_policy_core c target rest s))"
proof -
  have "keeps c s (snd (registered_only c (\<lambda>s. (COMMAND_KEEP_CLIENT, send_channel_modes c h s)) s))" for h
    by (rule registered_only_keeps) (simp add: send_channel_modes_def replies_keeps)
  moreover have "keeps c s (snd (check_mlock c ch ms s))" for ch ms
    by (rule keeps_io [OF keeps_refl check_mlock_io])
  moreover have "keeps c s (snd (validate_channel_mode_params c ch rest (snd (check_mlock c ch ms s))))" for ch ms
    by (rule keeps_io [OF keeps_io [OF keeps_refl check_mlock_io] validate_params_io])
  moreover from this have "keeps c s (mode_finish n old (snd (command_mode_core c target rest
      (snd (validate_channel_mode_params c ch rest (snd (check_mlock c ch ms s)))))))" for ch ms n old
    using keeps_trans command_mode_core_keeps mode_finish_keeps by metis
  ultimately show ?thesis
    unfolding command_mode_policy_core_def by (simp add: case_prod_beta Let_def)
qed

subsection \<open>Mode lock\<close>

definition lock_respected :: "channel \<Rightarrow> bool" where
  "lock_respected ch \<longleftrightarrow>
     (channel_mode_has (ch_modes ch) CHANNEL_MODE_REGISTERED \<and> ch_chanserv_policy_valid ch \<longrightarrow>
      (\<forall>l. boolean_bit l \<noteq> 0 \<longrightarrow> (ch_modes ch AND boolean_bit l \<noteq> 0) = (ch_chanserv_mode_lock ch AND boolean_bit l \<noteq> 0)))"

text \<open>The Boolean modes other than \<open>r\<close> are single bits, none of them the registration bit.\<close>

definition plain_bit :: "u64 \<Rightarrow> bool" where
  "plain_bit b \<longleftrightarrow> (\<exists>n < 64. n \<noteq> 9 \<and> b = push_bit n 1)"

lemma plain_bits:
  "plain_bit CHANNEL_MODE_ADMIN_ONLY" "plain_bit CHANNEL_MODE_NO_COLOR" "plain_bit CHANNEL_MODE_INVITE_ONLY"
  "plain_bit CHANNEL_MODE_NO_KNOCK" "plain_bit CHANNEL_MODE_REGONLY_SPEAK" "plain_bit CHANNEL_MODE_MODERATED"
  "plain_bit CHANNEL_MODE_NO_EXTERNAL" "plain_bit CHANNEL_MODE_OPER_ONLY" "plain_bit CHANNEL_MODE_PRIVATE"
  "plain_bit CHANNEL_MODE_REGONLY_JOIN" "plain_bit CHANNEL_MODE_STRIP_COLOR" "plain_bit CHANNEL_MODE_SECRET"
  "plain_bit CHANNEL_MODE_TOPIC_LOCK" "plain_bit CHANNEL_MODE_NO_NOTICE" "plain_bit CHANNEL_MODE_NO_INVITE"
  "plain_bit CHANNEL_MODE_SECURE_ONLY"
proof -
  have "plain_bit (push_bit n 1)" if "n < 64" "n \<noteq> 9" for n using that by (auto simp: plain_bit_def)
  note this [of 0] this [of 1] this [of 2] this [of 3] this [of 4] this [of 5] this [of 6] this [of 7]
    this [of 8] this [of 10] this [of 11] this [of 12] this [of 13] this [of 14] this [of 15] this [of 16]
  then show "plain_bit CHANNEL_MODE_ADMIN_ONLY" "plain_bit CHANNEL_MODE_NO_COLOR" "plain_bit CHANNEL_MODE_INVITE_ONLY"
    "plain_bit CHANNEL_MODE_NO_KNOCK" "plain_bit CHANNEL_MODE_REGONLY_SPEAK" "plain_bit CHANNEL_MODE_MODERATED"
    "plain_bit CHANNEL_MODE_NO_EXTERNAL" "plain_bit CHANNEL_MODE_OPER_ONLY" "plain_bit CHANNEL_MODE_PRIVATE"
    "plain_bit CHANNEL_MODE_REGONLY_JOIN" "plain_bit CHANNEL_MODE_STRIP_COLOR" "plain_bit CHANNEL_MODE_SECRET"
    "plain_bit CHANNEL_MODE_TOPIC_LOCK" "plain_bit CHANNEL_MODE_NO_NOTICE" "plain_bit CHANNEL_MODE_NO_INVITE"
    "plain_bit CHANNEL_MODE_SECURE_ONLY"
    unfolding CHANNEL_MODE_ADMIN_ONLY_def CHANNEL_MODE_NO_COLOR_def CHANNEL_MODE_INVITE_ONLY_def
      CHANNEL_MODE_NO_KNOCK_def CHANNEL_MODE_REGONLY_SPEAK_def CHANNEL_MODE_MODERATED_def
      CHANNEL_MODE_NO_EXTERNAL_def CHANNEL_MODE_OPER_ONLY_def CHANNEL_MODE_PRIVATE_def
      CHANNEL_MODE_REGONLY_JOIN_def CHANNEL_MODE_STRIP_COLOR_def
      CHANNEL_MODE_SECRET_def CHANNEL_MODE_TOPIC_LOCK_def CHANNEL_MODE_NO_NOTICE_def
      CHANNEL_MODE_NO_INVITE_def CHANNEL_MODE_SECURE_ONLY_def by simp_all
qed

lemma boolean_bit_plain: "boolean_bit l \<noteq> 0 \<Longrightarrow> plain_bit (boolean_bit l)"
  by (simp add: boolean_bit_def channel_boolean_mode_bit_def plain_bits split: if_split_asm)

lemma plain_bit_change:
  assumes "plain_bit b" "plain_bit b'"
  shows "(modes OR b) AND b' \<noteq> 0 \<longleftrightarrow> b' = b \<or> modes AND b' \<noteq> 0"
    and "(modes AND NOT b) AND b' \<noteq> 0 \<longleftrightarrow> b' \<noteq> b \<and> modes AND b' \<noteq> 0"
    and "(modes OR b) AND CHANNEL_MODE_REGISTERED = modes AND CHANNEL_MODE_REGISTERED"
    and "(modes AND NOT b) AND CHANNEL_MODE_REGISTERED = modes AND CHANNEL_MODE_REGISTERED"
proof -
  obtain n m where b: "n < 64" "n \<noteq> 9" "b = push_bit n 1" and b': "m < 64" "b' = push_bit m 1"
    using assms by (auto simp: plain_bit_def)
  have nz: "x AND push_bit k 1 \<noteq> 0 \<longleftrightarrow> bit x k" if "k < 64" for x :: u64 and k
    using mask_bit0 [of x k] by simp
  have bp: "bit (push_bit n 1 :: u64) k \<longleftrightarrow> k = n" for k
    using b(1) bit_push_one [of n k, where 'a = 64] by auto
  have eq: "push_bit m 1 = (push_bit n 1 :: u64) \<longleftrightarrow> m = n"
    using bp [of m] bit_push_one [of m m, where 'a = 64] b'(1) by auto
  show "(modes OR b) AND b' \<noteq> 0 \<longleftrightarrow> b' = b \<or> modes AND b' \<noteq> 0"
    unfolding b(3) b'(2) nz [OF b'(1)] eq bit_or_iff bp by auto
  show "(modes AND NOT b) AND b' \<noteq> 0 \<longleftrightarrow> b' \<noteq> b \<and> modes AND b' \<noteq> 0"
    unfolding b(3) b'(2) nz [OF b'(1)] eq bit_and_iff bit_not_iff bp using b'(1) by (auto simp: possible_bit_word)
  show "(modes OR b) AND CHANNEL_MODE_REGISTERED = modes AND CHANNEL_MODE_REGISTERED"
    "(modes AND NOT b) AND CHANNEL_MODE_REGISTERED = modes AND CHANNEL_MODE_REGISTERED"
    by (rule bit_word_eqI; unfold b(3) CHANNEL_MODE_REGISTERED_def bit_and_iff bit_or_iff bit_not_iff bp bit_push_one;
        use b(2) in \<open>auto simp: possible_bit_word\<close>)+
qed

lemma mlock_violation_cong:
  "chanserv_fields_kept a b \<Longrightarrow> mlock_violation b adding ls = mlock_violation a adding ls"
  by (induction a adding ls rule: mlock_violation.induct)
    (simp_all add: chanserv_fields_kept_def chanserv_mode_change_allowed_def)

lemma record_sign [simp]:
  "md_adding (append_mode l st) = md_adding st" "md_adding (append_param p st) = md_adding st"
  "md_adding (consume st) = md_adding st"
  by (simp_all add: append_mode_def append_param_def consume_def Let_def)

lemma mode_error_sign [simp]:
  "md_adding (fst (mode_error c n r st s)) = md_adding st" "md_adding (fst (mode_need_more c st s)) = md_adding st"
  by (simp_all add: mode_error_def mode_need_more_def)

lemma mode_part_sign [simp]:
  "md_adding (fst (mode_boolean c h l st s)) = md_adding st" "md_adding (fst (mode_privilege c h l st s)) = md_adding st"
  "md_adding (fst (mode_key c h st s)) = md_adding st" "md_adding (fst (mode_limit c h st s)) = md_adding st"
  "md_adding (fst (mode_throttle c h st s)) = md_adding st" "md_adding (fst (mode_redirect c h l st s)) = md_adding st"
  "md_adding (fst (mode_mask c h l p st s)) = md_adding st"
  by (simp_all add: mode_boolean_def mode_privilege_def mode_key_def mode_limit_def mode_throttle_def
      mode_redirect_def mode_mask_def Let_def case_prod_beta split: option.split)

lemma mode_letter_sign: "md_adding (fst (mode_letter c h l st s)) = md_adding st"
  unfolding mode_letter_def by (simp only: split: if_split option.split) simp

text \<open>A Boolean letter that the lock allows.\<close>

lemma mode_boolean_lock:
  assumes "l \<noteq> CHR ''r''" "channel_boolean_mode_bit l \<noteq> 0" "lock_respected (sv_channel s h)"
    and "chanserv_mode_change_allowed (sv_channel s h) (boolean_bit l) (md_adding st)"
  shows "lock_respected (sv_channel (snd (mode_boolean c h l st s)) h) \<and>
    chanserv_fields_kept (sv_channel s h) (sv_channel (snd (mode_boolean c h l st s)) h)"
proof -
  have bit: "boolean_bit l = channel_boolean_mode_bit l" "boolean_bit l \<noteq> 0" using assms(1,2) by (simp_all add: boolean_bit_def)
  note change = plain_bit_change [OF boolean_bit_plain [OF bit(2)] boolean_bit_plain]
    plain_bit_change(3,4) [OF boolean_bit_plain [OF bit(2)] boolean_bit_plain [OF bit(2)]]
  let ?ch = "sv_channel s h"
  have ch: "sv_channel (snd (mode_boolean c h l st s)) h = ?ch\<lparr>ch_modes :=
      (if md_adding st then ch_modes ?ch OR boolean_bit l else ch_modes ?ch AND NOT (boolean_bit l))\<rparr>"
    using assms(1) by (simp add: mode_boolean_def upd_channel_def channel_mode_add_def channel_mode_remove_def bit(1))
  have "chanserv_fields_kept ?ch (sv_channel (snd (mode_boolean c h l st s)) h)"
    unfolding ch by (auto simp: chanserv_fields_kept_def channel_mode_has_def change(5,6) intro!: same_membersI)
  moreover have "lock_respected (sv_channel (snd (mode_boolean c h l st s)) h)"
    using assms(3,4) bit(2)
    by (cases "md_adding st")
      (auto simp: lock_respected_def ch channel_mode_has_def change chanserv_mode_change_allowed_def)
  ultimately show ?thesis by blast
qed

lemma mode_step_lock:
  assumes "mode_step h s t"
  shows "chanserv_fields_kept (sv_channel s h) (sv_channel t h) \<and> (lock_respected (sv_channel s h) \<longrightarrow> lock_respected (sv_channel t h))"
proof -
  obtain f where f: "\<forall>ch. chanserv_fields_kept ch (f ch) \<and> ch_modes (f ch) = ch_modes ch" "io_only (upd_channel h f s) t"
    using assms unfolding mode_step_def by blast
  then have "sv_channel t h = f (sv_channel s h)" by (simp add: io_fields upd_channel_def)
  then show ?thesis using f(1) by (simp add: lock_respected_def chanserv_fields_kept_def)
qed

lemma mode_loop_lock:
  "mlock_violation (sv_channel s h) (md_adding st) ls = None \<Longrightarrow> lock_respected (sv_channel s h) \<Longrightarrow>
     lock_respected (sv_channel (snd (snd (mode_loop c h may ls st s))) h)"
proof (induction c h may ls st s rule: mode_loop.induct)
  case (2 c h may l ls st s)
  let ?t = "snd (mode_letter c h l st s)"
  consider (sign) "l = CHR ''+'' \<or> l = CHR ''-''"
    | (listed) "\<not> (l = CHR ''+'' \<or> l = CHR ''-'')" "l \<in> set ''beI'' \<and> mode_param st = None"
    | (refused) "\<not> (l = CHR ''+'' \<or> l = CHR ''-'')" "\<not> (l \<in> set ''beI'' \<and> mode_param st = None)" "\<not> may"
    | (applied) "\<not> (l = CHR ''+'' \<or> l = CHR ''-'')" "\<not> (l \<in> set ''beI'' \<and> mode_param st = None)" may
    by blast
  then show ?case
  proof cases
    case sign
    then show ?thesis using "2.IH"(1) "2.prems" by (simp only: mode_loop.simps mlock_violation.simps if_True) simp
  next
    case listed
    have "boolean_bit (CHR ''b'') = 0" "boolean_bit (CHR ''e'') = 0" "boolean_bit (CHR ''I'') = 0" by code_simp+
    then have "boolean_bit l = 0" using listed(2) by auto
    then show ?thesis
      using "2.IH"(2) listed "2.prems" by (simp only: mode_loop.simps mlock_violation.simps if_True if_False)
        (simp add: io_fields [OF mask_list_io])
  next
    case refused
    then show ?thesis using "2.prems"(2) by (simp only: mode_loop.simps if_False if_True) (simp add: reply_def)
  next
    case applied
    then have go: "l \<noteq> CHR ''+''" "l \<noteq> CHR ''-''" "\<not> (l \<in> set ''beI'' \<and> mode_param st = None)" may by simp_all
    have step: "lock_respected (sv_channel ?t h) \<and> chanserv_fields_kept (sv_channel s h) (sv_channel ?t h) \<and>
        mlock_violation (sv_channel s h) (md_adding st) ls = None"
    proof (cases "channel_boolean_mode_bit l = 0 \<or> l = CHR ''r''")
      case True
      then have "boolean_bit l = 0" by (auto simp: boolean_bit_def)
      then show ?thesis
        using mode_step_lock [OF mode_letter_step [OF True, of h s c st]] "2.prems" go by (auto split: if_splits)
    next
      case bool: False
      then have "chanserv_mode_change_allowed (sv_channel s h) (boolean_bit l) (md_adding st) \<and>
          mlock_violation (sv_channel s h) (md_adding st) ls = None"
        using "2.prems"(1) go by (auto simp: boolean_bit_def split: if_splits)
      then show ?thesis
        using mode_boolean_lock [of l s h st c] bool "2.prems"(2) by (simp add: mode_letter_def)
    qed
    have "lock_respected (sv_channel (snd (snd (mode_loop c h may ls (fst (mode_letter c h l st s)) ?t))) h)"
      using "2.IH"(3) [OF _ _ _ refl prod.collapse] go step mlock_violation_cong mode_letter_sign by auto
    then show ?thesis using applied by (simp only: mode_loop.simps if_False) (simp add: case_prod_beta)
  qed
qed simp

subsection \<open>Reading without authority\<close>

lemma mode_loop_readonly:
  "io_only s (snd (snd (mode_loop c h False ls st s))) \<and> md_changed (fst (snd (mode_loop c h False ls st s))) = md_changed st"
proof (induction c h False ls st s rule: mode_loop.induct)
  case (2 c h l ls st s)
  then show ?case
    using io_only_trans [OF mask_list_io [of s c h l]] by auto
qed simp

lemma mode_channel_readonly:
  assumes "hash_get (sv_channels_by_name s) target = Some h" "\<not> may_change_channel (sv_channel s h) c"
  shows "io_only s (snd (mode_channel c target ms args s))"
  using assms(1) mode_loop_readonly [of s c h] assms(2)
  by (auto simp: mode_channel_def mode_announce_def case_prod_beta Let_def split: option.split)

lemma mode_announce_frame [simp]:
  "sv_channel (mode_announce c h st s) = sv_channel s" "sv_client (mode_announce c h st s) = sv_client s"
  by (auto simp: mode_announce_def chanserv_persist_channel_def split: option.split)

lemma mode_channel_lock:
  assumes "hash_get (sv_channels_by_name s) target = Some h" "lock_respected (sv_channel s h)"
    and "\<And>letters. ms = Some letters \<Longrightarrow> mlock_violation (sv_channel s h) True letters = None"
  shows "lock_respected (sv_channel (snd (mode_channel c target ms args s)) h)"
proof (cases ms)
  case None
  then show ?thesis using assms(1,2) by (simp add: mode_channel_def)
next
  case (Some letters)
  then show ?thesis
    using assms mode_loop_lock [of s h "\<lparr>md_adding = True, md_args = args, md_changed = [], md_last_sign = None, md_params = []\<rparr>" letters c]
    by (simp add: mode_channel_def case_prod_beta Let_def)
qed

lemma mode_finish_lock: "lock_respected (sv_channel s h) \<Longrightarrow> lock_respected (sv_channel (mode_finish n old s) h)"
  by (simp add: mode_finish_def chanserv_persist_channel_def upd_channel_def channel_join_throttle_clear_def lock_respected_def
      split: option.split)

subsection \<open>Properties\<close>

text \<open>
  C13: MODE respects the ChanServ mode lock.  When the Boolean modes of a registered channel agree with its
  mode lock, they agree with it after any MODE command on that channel, whoever sends it.
\<close>

theorem mode_lock_invariant:
  assumes h: "hash_get (sv_channels_by_name s) target = Some h" and len: "length target \<le> IRC_CHANNEL_NAME_MAX"
    and lock: "lock_respected (sv_channel s h)"
  shows "lock_respected (sv_channel (snd (command_mode_policy_core c target rest s)) h)"
proof -
  define ms where "ms = fst (tok1 rest)"
  define u where "u = snd (validate_channel_mode_params c (Some h) rest (snd (check_mlock c (Some h) ms s)))"
  have io: "io_only s (snd (check_mlock c (Some h) ms s))" "io_only s u"
    using check_mlock_io io_only_trans [OF check_mlock_io validate_params_io] by (simp_all add: u_def)
  have unlocked: "mlock_violation (sv_channel s h) True letters = None"
    if "fst (check_mlock c (Some h) ms s)" "ms = Some letters" for letters
    using that by (simp add: check_mlock_def split: option.splits)
  have core: "lock_respected (sv_channel (snd (command_mode_core c target rest u)) h)" if "fst (check_mlock c (Some h) ms s)"
    unfolding command_mode_core_def case_prod_beta Let_def ms_def [symmetric]
  proof (rule registered_only_cases [where P = "\<lambda>r. lock_respected (sv_channel (snd r) h)"])
    show "lock_respected (sv_channel (snd (COMMAND_KEEP_CLIENT, snd (command_require_registered c u))) h)"
      using lock by (simp add: io_fields [OF require_registered_io] io_fields [OF io(2)])
    show "lock_respected (sv_channel (snd (mode_channel c target ms (take IRC_MODE_MAX_PARAMS (tokens '' '' (snd (tok1 rest)))) u)) h)"
      using h lock unlocked [OF that] by (intro mode_channel_lock) (simp_all add: io_fields [OF io(2)])
  qed
  have shown: "lock_respected (sv_channel (snd (registered_only c (\<lambda>s. (COMMAND_KEEP_CLIENT, send_channel_modes c h s)) s)) h)"
    using lock registered_only_io [of "\<lambda>s. (COMMAND_KEEP_CLIENT, send_channel_modes c h s)" s c]
    by (simp add: send_channel_modes_def io_fields)
  show ?thesis
    using h len lock shown core mode_finish_lock [OF core]
    by (simp add: command_mode_policy_core_def Let_def case_prod_beta ms_def [symmetric] u_def [symmetric]
        io_fields [OF io(1)] io_fields [OF io(2)])
qed

theorem mode_lock_invariant_witness:
  "let s = upd_channel 0 (\<lambda>ch. ch\<lparr>ch_modes := CHANNEL_MODE_REGISTERED OR CHANNEL_MODE_TOPIC_LOCK,
         ch_chanserv_policy_valid := True, ch_chanserv_mode_lock := CHANNEL_MODE_TOPIC_LOCK\<rparr>) example_room
   in lock_respected (sv_channel (snd (command_mode_policy_core 0 ''#room'' ''-t+m'' s)) 0)"
proof -
  let ?s = "upd_channel 0 (\<lambda>ch. ch\<lparr>ch_modes := CHANNEL_MODE_REGISTERED OR CHANNEL_MODE_TOPIC_LOCK,
         ch_chanserv_policy_valid := True, ch_chanserv_mode_lock := CHANNEL_MODE_TOPIC_LOCK\<rparr>) example_room"
  have reg: "CHANNEL_MODE_REGISTERED AND b = 0" if p: "plain_bit b" for b
    using plain_bit_change(3) [OF p p, of 0] by (simp add: and.commute)
  have "hash_get (sv_channels_by_name ?s) ''#room'' = Some 0"
    by (simp add: upd_channel_def chain_get_Cons del: chain_get.simps)
  moreover have "lock_respected (sv_channel ?s 0)"
    using reg boolean_bit_plain by (auto simp: upd_channel_def lock_respected_def bit.conj_disj_distrib2)
  ultimately show ?thesis
    using mode_lock_invariant [of ?s "''#room''" 0 0 "''-t+m''"] by (simp add: Let_def)
qed

text \<open>
  MODE without channel authority only reads: the client may list masks and is refused otherwise.  The wrapper of mode\_persist.c stores a registered channel after the command
  whatever it did, so the ChanServ database may be rewritten, from the unchanged channel.
\<close>

lemma mode_core_readonly:
  assumes "hash_get (sv_channels_by_name s) target = Some h" "\<not> may_change_channel (sv_channel s h) c"
  shows "io_only s (snd (command_mode_core c target rest s))"
  unfolding command_mode_core_def case_prod_beta Let_def
proof (rule registered_only_cases [where P = "\<lambda>r. io_only s (snd r)"])
  show "io_only s (snd (COMMAND_KEEP_CLIENT, snd (command_require_registered c s)))"
    by (simp add: require_registered_io)
qed (rule mode_channel_readonly [OF assms])

definition saves_at_most :: "chref \<Rightarrow> server \<Rightarrow> server \<Rightarrow> bool" where
  "saves_at_most h s t \<longleftrightarrow>
     (\<exists>db. io_only (s\<lparr>sv_csdb := db\<rparr>) t \<and>
        (db = sv_csdb s \<or>
         channel_mode_has (ch_modes (sv_channel s h)) CHANNEL_MODE_REGISTERED \<and> db = snd (chanserv_persist_save (sv_channel s h) (sv_csdb s))))"

lemma saves_io: "io_only s t \<Longrightarrow> saves_at_most h s t"
  unfolding saves_at_most_def by (intro exI [of _ "sv_csdb s"]) simp

lemma io_only_csdb: "io_only s t \<Longrightarrow> io_only (s\<lparr>sv_csdb := db\<rparr>) (t\<lparr>sv_csdb := db\<rparr>)"
proof -
  assume "io_only s t"
  then obtain out env log where t: "oe_alloc env = sv_alloc s" "t = s\<lparr>sv_out := out, sv_env := env, sv_log := log\<rparr>"
    by (auto simp: io_only_def)
  show ?thesis
    unfolding io_only_def t(2) using t(1) by (intro exI [of _ out] exI [of _ env] exI [of _ log]) simp
qed

lemma mode_finish_saves:
  assumes "io_only s t" "hash_get (sv_channels_by_name s) name = Some h"
    and "old = (ch_join_throttle_count (sv_channel s h), ch_join_throttle_seconds (sv_channel s h))"
  shows "saves_at_most h s (mode_finish name old t)"
proof -
  note f = io_fields [OF assms(1)]
  have "mode_finish name old t = chanserv_persist_channel h t" using assms(2,3) by (simp add: mode_finish_def f)
  then show ?thesis
    using saves_io [OF assms(1), of h] io_only_csdb [OF assms(1)] by (auto simp: chanserv_persist_channel_def saves_at_most_def f)
qed

lemma mode_policy_readonly:
  assumes h: "hash_get (sv_channels_by_name s) target = Some h" and len: "length target \<le> IRC_CHANNEL_NAME_MAX"
    and may: "\<not> may_change_channel (sv_channel s h) c"
  shows "saves_at_most h s (snd (command_mode_policy_core c target rest s))"
proof -
  define u where "u = snd (validate_channel_mode_params c (Some h) rest (snd (check_mlock c (Some h) (fst (tok1 rest)) s)))"
  have io: "io_only s (snd (check_mlock c (Some h) (fst (tok1 rest)) s))" "io_only s u"
    using check_mlock_io io_only_trans [OF check_mlock_io validate_params_io] by (simp_all add: u_def)
  have "io_only s (snd (command_mode_core c target rest u))"
    using io_only_trans [OF io(2)] mode_core_readonly [of u target h c rest] h may by (simp add: io_fields [OF io(2)])
  from mode_finish_saves [OF this h]
  have core: "saves_at_most h s (mode_finish target (ch_join_throttle_count (sv_channel u h), ch_join_throttle_seconds (sv_channel u h))
      (snd (command_mode_core c target rest u)))"
    by (simp add: io_fields [OF io(2)])
  have "io_only s (snd (registered_only c (\<lambda>s. (COMMAND_KEEP_CLIENT, send_channel_modes c h s)) s))"
    by (rule registered_only_io) (simp add: send_channel_modes_def)
  then show ?thesis
    using core io [THEN saves_io] h len
    by (auto simp: command_mode_policy_core_def Let_def case_prod_beta u_def [symmetric] intro: saves_io)
qed

text \<open>
  C39: an operator can take ownership.  The guard on privilege letters covers only \<open>+a\<close>: on a channel without SECUREOPS a member
  with operator status and nothing else becomes owner by \<open>MODE +q\<close> on itself, and so outranks every protected
  member.
\<close>

theorem operator_can_take_ownership:
  assumes "hash_get (sv_channels_by_name s) target = Some h" "channel_find_member (sv_channel s h) c = Some m"
    and "channel_privilege_has (m_privileges m) CHANNEL_PRIV_OPERATOR" "\<not> ch_chanserv_secure_ops (sv_channel s h)"
    and "hash_get (sv_clients_by_nick s) nick = Some c"
  shows "\<exists>m'. channel_find_member (sv_channel (snd (mode_channel c target (Some ''+q'') [nick] s)) h) c = Some m' \<and>
    channel_privilege_rank (m_privileges m') = 5"
proof -
  have bits: "channel_boolean_mode_bit (CHR ''q'') = 0" "channel_privilege_bit (CHR ''q'') = CHANNEL_PRIV_OWNER"
    "CHANNEL_PRIV_OWNER \<noteq> 0" by code_simp+
  have may: "may_change_channel (sv_channel s h) c"
    using assms(2,3) by (simp add: may_change_channel_def channel_privilege_has_def bit.conj_disj_distrib or_eq_0_iff)
  have has: "channel_has_client (sv_channel s h) c" using assms(2) by (simp add: channel_has_client_def)
  have rank: "channel_privilege_rank ((p OR CHANNEL_PRIV_OWNER) OR q) = 5" for p q
  proof -
    have "((p OR CHANNEL_PRIV_OWNER) OR q) AND CHANNEL_PRIV_OWNER \<noteq> 0"
      using bits(3) by (simp add: bit.conj_disj_distrib2 or_eq_0_iff)
    then show ?thesis by (simp add: channel_privilege_rank_def)
  qed
  show ?thesis
    using assms(1,2,4,5) may has rank
    by (simp add: mode_channel_def mode_letter_def bits mode_privilege_def mode_param_def consume_def Let_def
        secureops_allows_def upd_channel_def channel_add_privileges_def with_member_find)
qed

theorem operator_can_take_ownership_witness:
  "\<exists>m'. channel_find_member (sv_channel (snd (mode_channel 0 ''#room'' (Some ''+q'') [''alice''] example_room)) 0) 0 = Some m' \<and>
    channel_privilege_rank (m_privileges m') = 5"
proof (rule operator_can_take_ownership)
  show "hash_get (sv_channels_by_name example_room) ''#room'' = Some 0" "hash_get (sv_clients_by_nick example_room) ''alice'' = Some 0"
    by (simp_all add: chain_get_Cons fold_key_def irc_fold_def del: chain_get.simps)
  show "channel_find_member (sv_channel example_room 0) 0 = Some (example_member 0 CHANNEL_PRIV_OPERATOR)"
    by (simp add: channel_find_member_def)
qed (simp_all add: channel_privilege_has_def CHANNEL_PRIV_OPERATOR_def example_channel_def channel_zero_def)

text \<open>
  C40: a redirect can escape its validation.  \<open>validate_channel_mode_params\<close> counts a parameter for every \<open>+j\<close>, while
  \<open>mode_channel\<close> leaves an over-long \<open>+j\<close> parameter for the next letter.  So \<open>MODE +jL p r\<close> passes when
  \<open>r\<close> is an acceptable redirect, and stores the first characters of \<open>p\<close>, whatever they are, as the redirect.
\<close>

theorem redirect_escapes_validation:
  assumes "hash_get (sv_channels_by_name s) target = Some h" "may_change_channel (sv_channel s h) c"
    and "length p \<ge> 64" "\<not> redirect_invalid (sv_channel s h) (Some r)"
  shows "validate_loop (sv_channel s h) True ''+jL'' [p, r] = None \<and>
    ch_limit_redirect (sv_channel (snd (mode_channel c target (Some ''+jL'') [p, r] s)) h) = take IRC_CHANNEL_NAME_MAX p"
proof -
  have bits: "channel_boolean_mode_bit (CHR ''j'') = 0" "channel_privilege_bit (CHR ''j'') = 0"
    "channel_boolean_mode_bit (CHR ''L'') = 0" "channel_privilege_bit (CHR ''L'') = 0" by code_simp+
  have "validate_loop (sv_channel s h) True ''+jL'' [p, r] = None"
    using assms(4) by (simp add: mode_consumes_def Let_def)
  moreover have "ch_limit_redirect (sv_channel (snd (mode_channel c target (Some ''+jL'') [p, r] s)) h) = take IRC_CHANNEL_NAME_MAX p"
    using assms(1-3)
    by (simp add: mode_channel_def mode_letter_def bits mode_throttle_def mode_redirect_def mode_param_def
        mode_need_more_def mode_error_def consume_def Let_def upd_channel_def)
  ultimately show ?thesis by blast
qed

theorem redirect_escapes_validation_witness:
  "validate_loop (sv_channel example_room 0) True ''+jL'' [replicate 64 (CHR ''x''), ''#ok''] = None \<and>
   ch_limit_redirect (sv_channel (snd (mode_channel 0 ''#room'' (Some ''+jL'') [replicate 64 (CHR ''x''), ''#ok''] example_room)) 0) =
     replicate 32 (CHR ''x'')"
proof -
  have may: "may_change_channel (sv_channel example_room 0) 0"
    by (simp add: may_change_channel_def channel_find_member_def channel_privilege_has_def CHANNEL_PRIV_OPERATOR_def
        CHANNEL_PRIV_OWNER_def CHANNEL_PRIV_PROTECTED_def)
  have ok: "\<not> redirect_invalid (sv_channel example_room 0) (Some ''#ok'')"
    by (simp add: redirect_invalid_def starts_with_def strcaseeq_def)
  have find: "hash_get (sv_channels_by_name example_room) ''#room'' = Some 0"
    by (simp add: chain_get_Cons del: chain_get.simps)
  show ?thesis using redirect_escapes_validation [OF find may _ ok, of "replicate 64 (CHR ''x'')"] by simp
qed

end
