(* ===== verification/User_Mode.thy ===== *)
theory User_Mode
  imports Channel_Mode
begin

section \<open>User modes and cloaking (src/cloak.c, src/usermode_policy.c, src/commands/mode*.c)\<close>

text \<open>
  MODE is three handlers, one around the other: \<open>command_mode\<close> of \<open>mode_control.c\<close> filters the controlled letters, \<open>mode_persist.c\<close>
  applies the modes that need an operator and the channel policy, and \<open>mode.c\<close> does the rest.  Theory \<open>Channel_Mode\<close> has
  the channel part; this one has the user part and the composition.  The main result is that no
  MODE line gives a user a mode that only the server, a service or an operator may give.
\<close>

subsection \<open>Cloaked hosts\<close>

text \<open>\<open>%08X\<close>.\<close>

definition hex_digit :: "nat \<Rightarrow> char" where
  "hex_digit n = (if n < 10 then char_of (48 + n) else char_of (55 + n))"

definition hex8 :: "u32 \<Rightarrow> string" where
  "hex8 w = map (\<lambda>i. hex_digit (unat (drop_bit (4 * i) w AND 15))) (rev [0..<8])"

definition hmac32 :: "server \<Rightarrow> string \<Rightarrow> string \<Rightarrow> u32 option" where
  "hmac32 s label data =
     (if cf_cloak_key (sv_config s) = [] then None
      else w_hmac (sv_world s) (cf_cloak_key (sv_config s)) (label @ ''|'' @ data))"

definition cloak_three :: "u32 option \<Rightarrow> u32 option \<Rightarrow> u32 option \<Rightarrow> string option" where
  "cloak_three a b c =
     (case (a, b, c) of
        (Some x, Some y, Some z) \<Rightarrow> Some (hex8 x @ ''.'' @ hex8 y @ ''.'' @ hex8 z @ ''.IP'')
      | _ \<Rightarrow> None)"

definition cloak_ipv4 :: "server \<Rightarrow> string \<Rightarrow> string option" where
  "cloak_ipv4 s full =
     cloak_three (hmac32 s ''ipv4/full'' full) (hmac32 s ''ipv4/24'' (take 3 full)) (hmac32 s ''ipv4/16'' (take 2 full))"

definition cloak_ipv6 :: "server \<Rightarrow> string \<Rightarrow> string option" where
  "cloak_ipv6 s full =
     cloak_three (hmac32 s ''ipv6/full'' full) (hmac32 s ''ipv6/64'' (take 8 full)) (hmac32 s ''ipv6/48'' (take 6 full))"

text \<open>The part of a host name after the first dot that a letter follows.\<close>

fun host_suffix :: "string \<Rightarrow> string option" where
  "host_suffix [] = None"
| "host_suffix (x # r) =
     (if x = CHR ''.'' \<and> r \<noteq> [] \<and> isalpha (hd r) then Some r else host_suffix r)"

definition cloak_hostname :: "server \<Rightarrow> string \<Rightarrow> string option" where
  "cloak_hostname s host =
     (if host = [] \<or> length host > IRC_HOST_MAX then None
      else let normalized = map ascii_lower host
           in case hmac32 s ''hostname'' normalized of
                None \<Rightarrow> None
              | Some token \<Rightarrow>
                  let start = cf_cloak_prefix (sv_config s) @ ''-'' @ hex8 token;
                      out = (case host_suffix normalized of Some suffix \<Rightarrow> start @ ''.'' @ suffix | None \<Rightarrow> start)
                  in if length out < IRC_HOST_MAX + 1 then Some out else None)"

definition cloak_generate :: "server \<Rightarrow> string \<Rightarrow> string \<Rightarrow> string option" where
  "cloak_generate s real_ip real_host =
     (if cf_cloak_prefix (sv_config s) = [] \<or> cf_cloak_key (sv_config s) = [] then None
      else if real_host \<noteq> [] then cloak_hostname s real_host
      else case w_pton4 (sv_world s) real_ip of
             Some v4 \<Rightarrow> cloak_ipv4 s v4
           | None \<Rightarrow> (case w_pton6 (sv_world s) real_ip of Some v6 \<Rightarrow> cloak_ipv6 s v6 | None \<Rightarrow> None))"

definition cloak_refresh_display_host :: "server \<Rightarrow> client \<Rightarrow> client" where
  "cloak_refresh_display_host s cl =
     (let plain = cl\<lparr>c_display_host := take IRC_HOST_MAX (if c_real_host cl \<noteq> [] then c_real_host cl else c_real_ip cl)\<rparr>
      in if client_mode_has (c_modes cl) CLIENT_MODE_VHOST then cl
         else if client_mode_has (c_modes cl) CLIENT_MODE_CLOAKED
         then (case cloak_generate s (c_real_ip cl) (c_real_host cl) of
                 Some cloak \<Rightarrow> cl\<lparr>c_display_host := take IRC_HOST_MAX cloak\<rparr>
               | None \<Rightarrow> plain)
         else plain)"

definition usermode_apply_cloak :: "server \<Rightarrow> client \<Rightarrow> client" where
  "usermode_apply_cloak s cl =
     cloak_refresh_display_host s (cl\<lparr>c_modes := client_mode_add (c_modes cl) CLIENT_MODE_CLOAKED\<rparr>)"

subsection \<open>mode.c\<close>

definition client_mode_bit :: "char \<Rightarrow> u64" where
  "client_mode_bit letter =
     (if letter = CHR ''B'' then CLIENT_MODE_BOT
      else if letter = CHR ''d'' then CLIENT_MODE_DEAF
      else if letter = CHR ''g'' then CLIENT_MODE_GLOBALS
      else if letter = CHR ''H'' then CLIENT_MODE_HIDE_OPER
      else if letter = CHR ''h'' then CLIENT_MODE_HELPOP
      else if letter = CHR ''I'' then CLIENT_MODE_HIDE_IDLE
      else if letter = CHR ''i'' then CLIENT_MODE_INVISIBLE
      else if letter = CHR ''N'' then CLIENT_MODE_NETADMIN
      else if letter = CHR ''o'' then CLIENT_MODE_OPER
      else if letter = CHR ''p'' then CLIENT_MODE_PRIVATE
      else if letter = CHR ''R'' then CLIENT_MODE_REGONLY_MSG
      else if letter = CHR ''r'' then CLIENT_MODE_REGISTERED
      else if letter = CHR ''S'' then CLIENT_MODE_SERVICE
      else if letter = CHR ''s'' then CLIENT_MODE_SERVER_NOTICES
      else if letter = CHR ''T'' then CLIENT_MODE_NO_CTCP
      else if letter = CHR ''t'' then CLIENT_MODE_VHOST
      else if letter = CHR ''V'' then CLIENT_MODE_WEBIRC
      else if letter = CHR ''W'' then CLIENT_MODE_WHOIS_NOTICE
      else if letter = CHR ''w'' then CLIENT_MODE_WALLOPS
      else if letter = CHR ''x'' then CLIENT_MODE_CLOAKED
      else if letter = CHR ''z'' then CLIENT_MODE_SECURE
      else 0)"

definition client_mode_self_settable :: "char \<Rightarrow> bool" where
  "client_mode_self_settable letter \<longleftrightarrow> letter \<in> set ''BdgipRsTw''"

definition format_client_modes :: "client \<Rightarrow> string" where
  "format_client_modes cl =
     ''+'' @ filter (\<lambda>l. client_mode_bit l \<noteq> 0 \<and> client_mode_has (c_modes cl) (client_mode_bit l)) ''BdghHiNopRrSsTtVWwxz''"

definition change_user_mode :: "bool \<Rightarrow> u64 \<Rightarrow> client \<Rightarrow> client" where
  "change_user_mode adding b cl =
     cl\<lparr>c_modes := (if adding then client_mode_add (c_modes cl) b else client_mode_remove (c_modes cl) b)\<rparr>"

definition no_privileges :: "cref \<Rightarrow> server \<Rightarrow> server" where
  "no_privileges c s =
     snd (reply c ''481'' '':Permission Denied- You do not have the correct IRC operator privileges'' s)"

fun user_mode_loop :: "cref \<Rightarrow> bool \<Rightarrow> string \<Rightarrow> server \<Rightarrow> server" where
  "user_mode_loop c adding [] s = s"
| "user_mode_loop c adding (letter # ls) s =
     (if letter = CHR ''+'' \<or> letter = CHR ''-'' then user_mode_loop c (letter = CHR ''+'') ls s
      else user_mode_loop c adding ls
        (if client_mode_bit letter = 0 then snd (reply c ''501'' '':Unknown MODE flag'' s)
         else if \<not> client_mode_self_settable letter then no_privileges c s
         else upd_client c (change_user_mode adding (client_mode_bit letter)) s))"

definition mode_user :: "cref \<Rightarrow> string \<Rightarrow> string option \<Rightarrow> server \<Rightarrow> command_result \<times> server" where
  "mode_user c target mode_string s =
     (case hash_get (sv_clients_by_nick s) target of
        None \<Rightarrow> reply c ''401'' (target @ '' :No such nick/channel'') s
      | Some d \<Rightarrow>
          if d \<noteq> c then reply c ''502'' '':Cant change mode for other users'' s
          else let s1 = (case mode_string of None \<Rightarrow> s | Some ms \<Rightarrow> user_mode_loop c True ms s)
               in reply c ''221'' (format_client_modes (sv_client s1 c)) s1)"

text \<open>\<open>command_mode\<close> of \<open>mode.c\<close>, compiled as \<open>command_mode_core\<close>.\<close>

definition command_mode_inner :: "cref \<Rightarrow> string option \<Rightarrow> server \<Rightarrow> command_result \<times> server" where
  "command_mode_inner c params s =
     (case params of
        None \<Rightarrow> registered_only c (ERR_NEEDMOREPARAMS c ''MODE'') s
      | Some p \<Rightarrow>
          (case strtok '' '' p of
             None \<Rightarrow> registered_only c (\<lambda>s. (COMMAND_KEEP_CLIENT, s)) s
           | Some (target, rest) \<Rightarrow>
               if starts_with ''#&'' target then command_mode_core c target rest s
               else registered_only c (mode_user c target (fst (tok1 rest))) s))"

subsection \<open>mode\_persist.c\<close>

text \<open>The filtered mode string of 127 characters: the sign is repeated only when it changes.\<close>

definition filter_emit :: "char \<Rightarrow> char \<Rightarrow> char option \<times> string \<Rightarrow> char option \<times> string" where
  "filter_emit sg letter st =
     (let (last, out) = st;
          (last1, out1) = (if last \<noteq> Some sg \<and> length out + 1 < 128 then (Some sg, out @ [sg]) else (last, out))
      in (last1, if length out1 + 1 < 128 then out1 @ [letter] else out1))"

definition special_mode_bit :: "char \<Rightarrow> u64" where
  "special_mode_bit letter =
     (if letter = CHR ''H'' then CLIENT_MODE_HIDE_OPER
      else if letter = CHR ''I'' then CLIENT_MODE_HIDE_IDLE
      else if letter = CHR ''W'' then CLIENT_MODE_WHOIS_NOTICE
      else if letter = CHR ''g'' then CLIENT_MODE_GLOBALS
      else CLIENT_MODE_SERVER_NOTICES)"

definition apply_special :: "cref \<Rightarrow> bool \<Rightarrow> char \<Rightarrow> char \<Rightarrow> server \<Rightarrow> server" where
  "apply_special c is_oper sg letter s =
     (if letter = CHR ''x''
      then upd_client c (if sg = CHR ''+'' then usermode_apply_cloak s else usermode_remove_cloak) s
      else if \<not> is_oper then no_privileges c s
      else upd_client c (change_user_mode (sg = CHR ''+'') (special_mode_bit letter)) s)"

fun special_loop ::
  "cref \<Rightarrow> bool \<Rightarrow> char \<Rightarrow> string \<Rightarrow> bool \<Rightarrow> char option \<times> string \<Rightarrow> server \<Rightarrow> bool \<times> string \<times> server" where
  "special_loop c is_oper sg [] consumed st s = (consumed, snd st, s)"
| "special_loop c is_oper sg (letter # ls) consumed st s =
     (if letter = CHR ''+'' \<or> letter = CHR ''-'' then special_loop c is_oper letter ls consumed st s
      else if letter \<in> set ''xHIWgs'' then special_loop c is_oper sg ls True st (apply_special c is_oper sg letter s)
      else special_loop c is_oper sg ls consumed (filter_emit sg letter st) s)"

definition handle_special_user_modes :: "cref \<Rightarrow> string \<Rightarrow> string \<Rightarrow> server \<Rightarrow> bool \<times> string \<times> server" where
  "handle_special_user_modes c target mode_string s =
     (if hash_get (sv_clients_by_nick s) target \<noteq> Some c then (False, [], s)
      else special_loop c (client_mode_has (c_modes (sv_client s c)) (CLIENT_MODE_OPER OR CLIENT_MODE_NETADMIN))
             (CHR ''+'') mode_string False (None, []) s)"

text \<open>\<open>command_mode\<close> of \<open>mode_persist.c\<close>, compiled as \<open>command_mode_policy_core\<close>.\<close>

definition command_mode_policy :: "cref \<Rightarrow> string option \<Rightarrow> server \<Rightarrow> command_result \<times> server" where
  "command_mode_policy c params s =
     (case Option.bind params (strtok '' '') of
        None \<Rightarrow> command_mode_inner c params s
      | Some (target, rest) \<Rightarrow>
          if starts_with ''#&'' target then command_mode_policy_core c target rest s
          else (case fst (tok1 rest) of
                 None \<Rightarrow> command_mode_inner c params s
               | Some mode_string \<Rightarrow>
                   let (consumed, filtered, s1) = handle_special_user_modes c target mode_string s
                   in if consumed
                      then command_mode_inner c (Some (if filtered = [] then target else target @ '' '' @ filtered)) s1
                      else command_mode_inner c params s1))"

subsection \<open>mode\_control.c\<close>

definition bit_for_letter :: "char \<Rightarrow> u64" where
  "bit_for_letter letter =
     (if letter = CHR ''D'' then CLIENT_MODE_PRIVATE_DEAF
      else if letter = CHR ''M'' then CLIENT_MODE_CHANNEL_MUTE
      else client_mode_bit letter)"

definition send_full_user_modes :: "cref \<Rightarrow> server \<Rightarrow> server" where
  "send_full_user_modes c s =
     snd (reply c ''221'' (''+'' @ filter (\<lambda>l. bit_for_letter l \<noteq> 0 \<and> client_mode_has (c_modes (sv_client s c)) (bit_for_letter l))
            ''BDMdghHiINopRrSsTtVWwxz'') s)"

definition control_cloak :: "cref \<Rightarrow> bool \<Rightarrow> server \<Rightarrow> server" where
  "control_cloak c adding s =
     (let cl = sv_client s c
      in if adding \<and> (cf_cloak_key (sv_config s) = [] \<or> cloak_generate s (c_real_ip cl) (c_real_host cl) = None)
         then sendf c ('':'' @ server_name s @ '' NOTICE '' @ c_nick cl @
                '' :MODE +x unavailable: cloak_key is not configured'') s
         else upd_client c (\<lambda>cl. cloak_refresh_display_host s (change_user_mode adding CLIENT_MODE_CLOAKED cl)) s)"

fun control_loop :: "cref \<Rightarrow> char \<Rightarrow> string \<Rightarrow> bool \<Rightarrow> char option \<times> string \<Rightarrow> server \<Rightarrow> bool \<times> string \<times> server" where
  "control_loop c sg [] handled_x st s = (handled_x, snd st, s)"
| "control_loop c sg (letter # ls) handled_x st s =
     (if letter = CHR ''+'' \<or> letter = CHR ''-'' then control_loop c letter ls handled_x st s
      else if letter = CHR ''D'' \<or> letter = CHR ''M'' then control_loop c sg ls handled_x st (no_privileges c s)
      else if letter = CHR ''x'' then control_loop c sg ls True st (control_cloak c (sg = CHR ''+'') s)
      else control_loop c sg ls handled_x (filter_emit sg letter st) s)"

text \<open>A registered client changes its own modes.\<close>

definition control_user_modes :: "cref \<Rightarrow> string \<Rightarrow> string \<Rightarrow> string option \<Rightarrow> server \<Rightarrow> server" where
  "control_user_modes c target modes rest s =
     (let (handled_x, filtered, s1) = control_loop c (CHR ''+'') modes False (None, []) s;
          rebuilt = take (IRCD_MESSAGE_BUFFER_SIZE - 1)
            (target @ '' '' @ filtered @ (case rest of Some r \<Rightarrow> '' '' @ r | None \<Rightarrow> []));
          s2 = (if filtered \<noteq> [] then snd (command_mode_policy c (Some rebuilt) s1) else s1)
      in if handled_x then send_full_user_modes c s2 else s2)"

definition command_mode :: "cref \<Rightarrow> string option \<Rightarrow> server \<Rightarrow> command_result \<times> server" where
  "command_mode c params s =
     (case Option.bind params (strtok '' '') of
        None \<Rightarrow> command_mode_policy c params s
      | Some (target, rest) \<Rightarrow>
          let (modes, rest2) = tok1 rest
          in if target \<noteq> c_nick (sv_client s c) then command_mode_policy c params s
             else (case modes of
                    None \<Rightarrow> registered_only c (\<lambda>s. (COMMAND_KEEP_CLIENT, send_full_user_modes c s)) s
                  | Some ms \<Rightarrow>
                      if starts_with ''#&'' target then command_mode_policy c params s
                      else registered_only c (\<lambda>s. (COMMAND_KEEP_CLIENT, control_user_modes c target ms (tok_rest rest2) s)) s))"

subsection \<open>Channel targets leave the clients alone\<close>

lemma mode_letter_client: "sv_client (snd (mode_letter c h l st s)) = sv_client s"
proof (cases "channel_boolean_mode_bit l = 0 \<or> l = CHR ''r''")
  case True
  obtain f where "io_only (upd_channel h f s) (snd (mode_letter c h l st s))"
    using mode_letter_step [OF True, of h s c st] unfolding mode_step_def by blast
  then show ?thesis using io_fields(4) by fastforce
qed (simp add: mode_letter_def mode_boolean_def)

lemma mode_loop_client: "sv_client (snd (snd (mode_loop c h may ls st s))) = sv_client s"
proof (induction c h may ls st s rule: mode_loop.induct)
  case (2 c h may l ls st s)
  then show ?case
    using mode_letter_client [of c h l st s] by (auto simp: io_fields [OF mask_list_io] case_prod_beta Let_def)
qed simp

lemma mode_channel_client: "sv_client (snd (mode_channel c target ms args s)) = sv_client s"
  by (simp add: mode_channel_def mode_loop_client case_prod_beta Let_def split: option.split)

lemma mode_finish_client [simp]: "sv_client (mode_finish n old s) = sv_client s"
  by (simp add: mode_finish_def chanserv_persist_channel_def split: option.split)

lemma command_mode_core_client: "sv_client (snd (command_mode_core c target rest s)) = sv_client s"
  unfolding command_mode_core_def case_prod_beta Let_def
  by (rule registered_only_cases [where P = "\<lambda>r. sv_client (snd r) = sv_client s"])
    (simp_all add: io_fields [OF require_registered_io] mode_channel_client)

lemma policy_core_client: "sv_client (snd (command_mode_policy_core c target rest s)) = sv_client s"
proof -
  have shown: "sv_client (snd (registered_only c (\<lambda>s. (COMMAND_KEEP_CLIENT, send_channel_modes c h s)) s)) = sv_client s" for h
    using registered_only_io [of "\<lambda>s. (COMMAND_KEEP_CLIENT, send_channel_modes c h s)" s c]
    by (simp add: send_channel_modes_def io_fields)
  show ?thesis
    unfolding command_mode_policy_core_def Let_def
    by (simp add: shown command_mode_core_client io_fields [OF check_mlock_io] io_fields [OF validate_params_io] case_prod_beta)
qed

subsection \<open>User targets keep the server\<close>

lemma plain_updates [simp]:
  "plain_update (change_user_mode adding b)" "plain_update (usermode_apply_cloak s)" "plain_update usermode_remove_cloak"
  "plain_update (\<lambda>cl. cloak_refresh_display_host s (change_user_mode adding b cl))"
  by (simp_all add: plain_update_def change_user_mode_def usermode_apply_cloak_def cloak_refresh_display_host_def
      usermode_remove_cloak_def Let_def split: option.split)

lemma no_privileges_io [simp, intro!]: "io_only s (no_privileges c s)"
  by (simp add: no_privileges_def)

lemma full_user_modes_io [simp, intro!]: "io_only s (send_full_user_modes c s)"
  by (simp add: send_full_user_modes_def)

lemma user_mode_replies_keeps [keeps_intros]:
  assumes "keeps c s t"
  shows "keeps c s (no_privileges d t)" "keeps c s (send_full_user_modes d t)"
  by (rule keeps_io [OF assms]; simp)+

lemma user_mode_loop_keeps: "keeps c s t \<Longrightarrow> keeps c s (user_mode_loop d adding ls t)"
  by (induction d adding ls t rule: user_mode_loop.induct) (simp_all add: replies_keeps keeps_upd_client user_mode_replies_keeps)

lemma special_loop_keeps: "keeps c s t \<Longrightarrow> keeps c s (snd (snd (special_loop d o1 sg ls consumed st t)))"
proof (induction d o1 sg ls consumed st t rule: special_loop.induct)
  case (2 d is_oper sg l ls consumed st t)
  have "keeps c s (apply_special d is_oper sg l t)"
    using 2(4) by (simp add: apply_special_def keeps_upd_client user_mode_replies_keeps)
  then show ?case using 2 by simp
qed simp

lemma control_loop_keeps: "keeps c s t \<Longrightarrow> keeps c s (snd (snd (control_loop d sg ls hx st t)))"
proof (induction d sg ls hx st t rule: control_loop.induct)
  case (2 d sg l ls hx st t)
  have "keeps c s (control_cloak d (sg = CHR ''+'') t)" "keeps c s (no_privileges d t)"
    using 2(5) by (simp_all add: control_cloak_def Let_def keeps_upd_client keeps_sends user_mode_replies_keeps)
  then show ?case using 2 by simp
qed simp

lemma mode_user_keeps: "keeps c s (snd (mode_user c target ms s))"
  by (auto simp: mode_user_def Let_def replies_keeps user_mode_loop_keeps split: option.split)

lemma command_mode_inner_keeps: "keeps c s (snd (command_mode_inner c params s))"
  by (auto simp: command_mode_inner_def command_mode_core_keeps replies_keeps mode_user_keeps
      intro!: registered_only_keeps split: option.split)

lemma command_mode_policy_keeps: "keeps c s (snd (command_mode_policy c params s))"
proof -
  have "keeps c s (snd (snd (handle_special_user_modes c target ms s)))" for target ms
    by (simp add: handle_special_user_modes_def special_loop_keeps)
  then show ?thesis
    using keeps_trans [OF _ command_mode_inner_keeps]
    by (simp add: command_mode_policy_def mode_policy_core_keeps command_mode_inner_keeps case_prod_beta Let_def split: option.split)
qed

lemma control_user_modes_keeps: "keeps c s (control_user_modes c target ms rest s)"
proof -
  have "keeps c s (if b then snd (command_mode_policy c p t) else t)" if "keeps c s t" for b p t
    using that keeps_trans [OF _ command_mode_policy_keeps] by simp
  then show ?thesis
    by (simp add: control_user_modes_def control_loop_keeps user_mode_replies_keeps case_prod_beta Let_def)
qed

lemma command_mode_keeps: "keeps c s (snd (command_mode c params s))"
  by (auto simp: command_mode_def command_mode_policy_keeps user_mode_replies_keeps control_user_modes_keeps case_prod_beta Let_def
      intro!: registered_only_keeps split: option.split)

subsection \<open>Which bits a MODE line can change\<close>

text \<open>The modes any user may set on itself, and those that need operator status.\<close>

definition own_modes :: u64 where
  "own_modes = CLIENT_MODE_BOT OR CLIENT_MODE_DEAF OR CLIENT_MODE_INVISIBLE OR CLIENT_MODE_PRIVATE OR
     CLIENT_MODE_REGONLY_MSG OR CLIENT_MODE_NO_CTCP OR CLIENT_MODE_WALLOPS OR CLIENT_MODE_CLOAKED"

definition oper_modes :: u64 where
  "oper_modes = CLIENT_MODE_HIDE_OPER OR CLIENT_MODE_HIDE_IDLE OR CLIENT_MODE_WHOIS_NOTICE OR CLIENT_MODE_GLOBALS OR
     CLIENT_MODE_SERVER_NOTICES"

definition changeable_modes :: "client \<Rightarrow> u64" where
  "changeable_modes cl =
     own_modes OR (if client_mode_has (c_modes cl) (CLIENT_MODE_OPER OR CLIENT_MODE_NETADMIN) then oper_modes else 0)"

text \<open>Between two states the modes of a client differ within a set only; nothing changes for the others.\<close>

definition modes_within :: "u64 \<Rightarrow> cref \<Rightarrow> server \<Rightarrow> server \<Rightarrow> bool" where
  "modes_within A c s t \<longleftrightarrow>
     (\<forall>d. d \<noteq> c \<longrightarrow> sv_client t d = sv_client s d) \<and>
     c_modes (sv_client t c) AND NOT A = c_modes (sv_client s c) AND NOT A"

lemma modes_within_refl [simp]: "modes_within A c s s"
  by (simp add: modes_within_def)

lemma modes_within_trans: "modes_within A c s t \<Longrightarrow> modes_within A c t u \<Longrightarrow> modes_within A c s u"
  by (simp add: modes_within_def)

lemma modes_within_io: "modes_within A c s t \<Longrightarrow> io_only t u \<Longrightarrow> modes_within A c s u"
  by (simp add: modes_within_def io_fields)

lemma set_bits_within: "b AND NOT A = 0 \<Longrightarrow> (m OR b) AND NOT A = m AND NOT (A :: u64)"
  by (simp add: bit.conj_disj_distrib2)

lemma clear_bits_within:
  assumes "b AND NOT A = 0"
  shows "(m AND NOT b) AND NOT A = m AND NOT (A :: u64)"
proof (rule bit_eqI)
  fix n assume n: "possible_bit TYPE(64 word) n"
  have "\<not> bit (b AND NOT A) n" using assms by simp
  then show "bit ((m AND NOT b) AND NOT A) n = bit (m AND NOT A) n" using n by (auto simp: bit_and_iff bit_not_iff)
qed

lemma modes_within_change:
  assumes "modes_within A c s t" "b AND NOT A = 0" "\<And>cl. c_modes (f cl) = c_modes (change_user_mode adding b cl)"
  shows "modes_within A c s (upd_client c f t)"
  using assms set_bits_within [OF assms(2)] clear_bits_within [OF assms(2)]
  by (simp add: modes_within_def change_user_mode_def client_mode_add_def client_mode_remove_def)

lemma own_bits:
  assumes "client_mode_self_settable l" "l \<noteq> CHR ''g''" "l \<noteq> CHR ''s''"
  shows "client_mode_bit l AND NOT own_modes = 0"
proof -
  have "list_all (\<lambda>l. client_mode_bit l AND NOT own_modes = 0) ''BdipRTw''" by code_simp
  then show ?thesis using assms by (auto simp: client_mode_self_settable_def)
qed

lemma cloaked_own: "CLIENT_MODE_CLOAKED AND NOT own_modes = 0"
  by code_simp

lemma special_oper: "special_mode_bit l AND NOT oper_modes = 0"
proof -
  have "CLIENT_MODE_HIDE_OPER AND NOT oper_modes = 0" "CLIENT_MODE_HIDE_IDLE AND NOT oper_modes = 0"
    "CLIENT_MODE_WHOIS_NOTICE AND NOT oper_modes = 0" "CLIENT_MODE_GLOBALS AND NOT oper_modes = 0"
    "CLIENT_MODE_SERVER_NOTICES AND NOT oper_modes = 0" by code_simp+
  then show ?thesis by (simp add: special_mode_bit_def)
qed

lemma within_weaken:
  fixes b :: u64
  assumes "b AND NOT A = 0"
  shows "b AND NOT (A OR B) = 0" "b AND NOT (B OR A) = 0"
proof -
  have "b AND NOT (A OR B) = (b AND NOT A) AND NOT B" by (simp add: bit.de_Morgan_disj and.assoc)
  then show "b AND NOT (A OR B) = 0" using assms by simp
  then show "b AND NOT (B OR A) = 0" by (simp only: or.commute)
qed

lemma cloak_modes [simp]:
  "c_modes (usermode_apply_cloak s cl) = c_modes (change_user_mode True CLIENT_MODE_CLOAKED cl)"
  "c_modes (usermode_remove_cloak cl) = c_modes (change_user_mode False CLIENT_MODE_CLOAKED cl)"
  "c_modes (cloak_refresh_display_host s cl) = c_modes cl"
  by (simp_all add: usermode_apply_cloak_def cloak_refresh_display_host_def usermode_remove_cloak_def change_user_mode_def
      Let_def split: option.split)

lemma user_mode_loop_within:
  assumes "modes_within (own_modes OR B) c s t" "set ls \<inter> set ''gs'' = {}"
  shows "modes_within (own_modes OR B) c s (user_mode_loop c adding ls t)"
  using assms
proof (induction c adding ls t rule: user_mode_loop.induct)
  case (2 c adding l ls t)
  have "modes_within (own_modes OR B) c s (upd_client c (change_user_mode adding (client_mode_bit l)) t)"
    if "client_mode_self_settable l"
    using "2.prems" own_bits [OF that] by (intro modes_within_change within_weaken(1)) auto
  then show ?case
    using 2 modes_within_io [OF "2.prems"(1) reply_io(1)] modes_within_io [OF "2.prems"(1) no_privileges_io] by auto
qed simp

lemma apply_special_within:
  assumes "modes_within (own_modes OR B) c s t" "is_oper \<Longrightarrow> B = oper_modes"
  shows "modes_within (own_modes OR B) c s (apply_special c is_oper sg l t)"
proof -
  have "modes_within (own_modes OR B) c s (upd_client c (change_user_mode a (special_mode_bit l)) t)" if is_oper for a
    using assms that by (intro modes_within_change [OF assms(1)] within_weaken(2)) (simp_all add: special_oper)
  moreover have "modes_within (own_modes OR B) c s (upd_client c (usermode_apply_cloak t) t)"
    "modes_within (own_modes OR B) c s (upd_client c usermode_remove_cloak t)"
    by (rule modes_within_change [OF assms(1) within_weaken(1) [OF cloaked_own]]; simp)+
  ultimately show ?thesis using modes_within_io [OF assms(1)] by (simp add: apply_special_def)
qed

lemma special_loop_within:
  assumes "modes_within (own_modes OR B) c s t" "is_oper \<Longrightarrow> B = oper_modes"
  shows "modes_within (own_modes OR B) c s (snd (snd (special_loop c is_oper sg ls consumed st t)))"
  using assms
  by (induction c is_oper sg ls consumed st t rule: special_loop.induct) (simp_all add: apply_special_within)

lemma control_loop_within:
  assumes "modes_within (own_modes OR B) c s t"
  shows "modes_within (own_modes OR B) c s (snd (snd (control_loop c sg ls hx st t)))"
  using assms
proof (induction c sg ls hx st t rule: control_loop.induct)
  case (2 c sg l ls hx st t)
  have "modes_within (own_modes OR B) c s (upd_client c (\<lambda>cl. cloak_refresh_display_host t (change_user_mode a CLIENT_MODE_CLOAKED cl)) t)" for a
    by (rule modes_within_change [OF "2.prems" within_weaken(1) [OF cloaked_own]]) simp
  then have "modes_within (own_modes OR B) c s (control_cloak c (sg = CHR ''+'') t)"
    using modes_within_io [OF "2.prems"] by (simp add: control_cloak_def Let_def)
  then show ?case using 2 modes_within_io [OF "2.prems" no_privileges_io] by simp
qed simp

text \<open>The letters left for \<open>mode.c\<close> are those that the special handler does not consume.\<close>

lemma filter_emit_letters: "set (snd (filter_emit sg l st)) \<subseteq> set (snd st) \<union> {sg, l}"
  by (auto simp: filter_emit_def case_prod_beta Let_def split: if_splits)

lemma special_loop_filtered:
  assumes "sg \<in> set ''+-''" "set (snd st) \<inter> set ''gs'' = {}"
  shows "set (fst (snd (special_loop c is_oper sg ls consumed st s))) \<inter> set ''gs'' = {}"
  using assms
proof (induction c is_oper sg ls consumed st s rule: special_loop.induct)
  case (2 c is_oper sg l ls consumed st s)
  consider "l \<in> set ''+-''" | "l \<notin> set ''+-''" "l \<in> set ''xHIWgs''" | "l \<notin> set ''+-''" "l \<notin> set ''xHIWgs''" by blast
  then show ?case
  proof cases
    case 3
    have "set (snd (filter_emit sg l st)) \<inter> set ''gs'' = {}" using filter_emit_letters [of sg l st] 3 "2.prems" by auto
    then show ?thesis using "2.IH"(3) "2.prems"(1) 3 by simp
  qed (use 2 in auto)
qed simp

lemma special_loop_unconsumed:
  "\<not> fst (special_loop c is_oper sg ls consumed st s) \<Longrightarrow>
     \<not> consumed \<and> set ls \<inter> set ''gs'' = {} \<and> snd (snd (special_loop c is_oper sg ls consumed st s)) = s"
proof (induction c is_oper sg ls consumed st s rule: special_loop.induct)
  case (2 c is_oper sg l ls consumed st s)
  consider "l \<in> set ''+-''" | "l \<notin> set ''+-''" "l \<in> set ''xHIWgs''" | "l \<notin> set ''+-''" "l \<notin> set ''xHIWgs''" by blast
  then show ?case by cases (use 2 in auto)
qed simp

lemma strtok_letters: "strtok d p = Some (t, r) \<Longrightarrow> set t \<subseteq> set p \<and> set r \<subseteq> set p \<and> t \<noteq> [] \<and> set t \<inter> set d = {}"
proof -
  assume a: "strtok d p = Some (t, r)"
  let ?u = "dropWhile (\<lambda>c. c \<in> set d) p"
  have u: "?u \<noteq> []" "t = takeWhile (\<lambda>c. c \<notin> set d) ?u" "r = drop 1 (dropWhile (\<lambda>c. c \<notin> set d) ?u)"
    using a by (auto simp: strtok_def Let_def split: if_splits)
  have "hd ?u \<notin> set d" using hd_dropWhile [OF u(1)] by simp
  then have "t \<noteq> []" using u(1,2) by (cases ?u) auto
  moreover have "set t \<subseteq> set p" "set r \<subseteq> set p"
    unfolding u(2,3) by (auto dest!: set_takeWhileD in_set_dropD set_dropWhileD)
  moreover have "set t \<inter> set d = {}" using u(2) by (auto dest: set_takeWhileD)
  ultimately show ?thesis by blast
qed

lemma strtok_prefix:
  assumes "t \<noteq> []" "set t \<inter> set d = {}" "x \<in> set d"
  shows "strtok d (t @ x # r) = Some (t, r)" "strtok d t = Some (t, [])"
proof -
  have "dropWhile (\<lambda>c. c \<in> set d) (t @ u) = t @ u" for u using assms(1,2) by (cases t) auto
  moreover have "takeWhile (\<lambda>c. c \<notin> set d) (t @ x # r) = t" "dropWhile (\<lambda>c. c \<notin> set d) (t @ x # r) = x # r"
    using assms(2,3) by (auto simp: takeWhile_append dropWhile_append)
  moreover have whole: "takeWhile (\<lambda>c. c \<notin> set d) t = t" "dropWhile (\<lambda>c. c \<notin> set d) t = []" using assms(2) by (auto simp: disjoint_iff)
  ultimately show "strtok d (t @ x # r) = Some (t, r)"
    using assms(1) by (simp add: strtok_def Let_def)
  have "dropWhile (\<lambda>c. c \<in> set d) t = t" using assms(1,2) by (cases t) auto
  then show "strtok d t = Some (t, [])" using assms(1) by (simp only: strtok_def Let_def whole) simp
qed

lemma tok1_letters: "fst (tok1 p) = Some m \<Longrightarrow> set m \<subseteq> set p"
  using strtok_letters [of "'' ''" p] by (auto simp: tok1_def split: option.splits)

lemma mode_user_within:
  assumes "modes_within (own_modes OR B) c s t"
    and "\<And>m. ms = Some m \<Longrightarrow> hash_get (sv_clients_by_nick t) target = Some c \<Longrightarrow> set m \<inter> set ''gs'' = {}"
  shows "modes_within (own_modes OR B) c s (snd (mode_user c target ms t))"
  using assms user_mode_loop_within [OF assms(1)] modes_within_io [OF _ reply_io(1)]
  by (auto simp: mode_user_def Let_def split: option.split)

lemma inner_user_within:
  assumes "modes_within (own_modes OR B) c s t" "strtok '' '' p = Some (target, rest)" "\<not> starts_with ''#&'' target"
    and "\<And>m. fst (tok1 rest) = Some m \<Longrightarrow> hash_get (sv_clients_by_nick t) target = Some c \<Longrightarrow> set m \<inter> set ''gs'' = {}"
  shows "modes_within (own_modes OR B) c s (snd (command_mode_inner c (Some p) t))"
  unfolding command_mode_inner_def
  using assms modes_within_io [OF assms(1) require_registered_io]
  by (auto intro!: registered_only_cases [where P = "\<lambda>r. modes_within (own_modes OR B) c s (snd r)"] mode_user_within)

lemma special_loop_nicks:
  "sv_clients_by_nick (snd (snd (special_loop c is_oper sg ls consumed st s))) = sv_clients_by_nick s"
  by (induction c is_oper sg ls consumed st s rule: special_loop.induct)
    (simp_all add: apply_special_def io_fields [OF no_privileges_io])

lemma handle_special_within:
  assumes "modes_within (own_modes OR B) c s t"
    and "client_mode_has (c_modes (sv_client t c)) (CLIENT_MODE_OPER OR CLIENT_MODE_NETADMIN) \<Longrightarrow> B = oper_modes"
  shows "modes_within (own_modes OR B) c s (snd (snd (handle_special_user_modes c target ms t)))"
  using assms by (simp add: handle_special_user_modes_def special_loop_within)

lemma policy_within:
  assumes "modes_within (own_modes OR B) c s t"
    and "client_mode_has (c_modes (sv_client t c)) (CLIENT_MODE_OPER OR CLIENT_MODE_NETADMIN) \<Longrightarrow> B = oper_modes"
  shows "modes_within (own_modes OR B) c s (snd (command_mode_policy c params t))"
proof (cases "Option.bind params (strtok '' '')")
  case None
  then show ?thesis
    using modes_within_io [OF assms(1)] registered_only_io
    by (cases params) (auto simp: command_mode_policy_def command_mode_inner_def)
next
  case (Some tr)
  then obtain p target rest where p: "params = Some p" "strtok '' '' p = Some (target, rest)"
    by (cases params; cases tr) auto
  show ?thesis
  proof (cases "starts_with ''#&'' target")
    case True
    then show ?thesis using assms(1) p by (simp add: command_mode_policy_def policy_core_client modes_within_def)
  next
    case False
    have tok: "target \<noteq> []" "set target \<inter> set '' '' = {}" using strtok_letters [OF p(2)] by simp_all
    show ?thesis
    proof (cases "fst (tok1 rest)")
      case None
      then show ?thesis using p False inner_user_within [OF assms(1) p(2) False] by (simp add: command_mode_policy_def)
    next
      case (Some ms)
      obtain consumed filtered u where h: "handle_special_user_modes c target ms t = (consumed, filtered, u)" by (metis prod_cases3)
      have u: "modes_within (own_modes OR B) c s u" using handle_special_within [OF assms, of target ms] h by simp
      let ?own = "hash_get (sv_clients_by_nick t) target = Some c"
      note loop = special_loop_filtered special_loop_unconsumed special_loop_nicks
      have plain: "\<not> consumed \<Longrightarrow> ?own \<Longrightarrow> set ms \<inter> set ''gs'' = {}"
        and left: "?own \<Longrightarrow> set filtered \<inter> set ''gs'' = {}" and nick: "sv_clients_by_nick u = sv_clients_by_nick t"
        using h special_loop_unconsumed [of c _ "CHR ''+''" ms False "(None, [])" t]
          special_loop_filtered [of "CHR ''+''" "(None, [])" c _ ms False t] special_loop_nicks [of c _ "CHR ''+''" ms False "(None, [])" t]
        by (auto simp: handle_special_user_modes_def split: if_splits) (metis fst_conv snd_conv)+
      define fwd where "fwd = (if filtered = [] then target else target @ '' '' @ filtered)"
      have fwd: "strtok '' '' fwd = Some (target, filtered)"
        using strtok_prefix [OF tok] by (simp add: fwd_def)
      have "modes_within (own_modes OR B) c s (snd (command_mode_inner c (Some fwd) u))"
        by (rule inner_user_within [OF u fwd False]) (use tok1_letters left nick in fastforce)
      moreover have "modes_within (own_modes OR B) c s (snd (command_mode_inner c (Some p) u))" if "\<not> consumed"
        by (rule inner_user_within [OF u p(2) False]) (use plain [OF that] nick Some in auto)
      ultimately show ?thesis using p False Some h by (simp add: command_mode_policy_def fwd_def)
    qed
  qed
qed

lemma changeable_oper:
  assumes "modes_within (changeable_modes cl) c s t"
  shows "client_mode_has (c_modes (sv_client t c)) (CLIENT_MODE_OPER OR CLIENT_MODE_NETADMIN) =
    client_mode_has (c_modes (sv_client s c)) (CLIENT_MODE_OPER OR CLIENT_MODE_NETADMIN)"
proof -
  have cut: "x AND M = (x AND NOT A) AND M" if "M AND NOT A = M" for x M A :: u64
    using arg_cong [OF that, of "\<lambda>y. x AND y"] by (simp add: ac_simps)
  have eq: "c_modes (sv_client t c) AND M = c_modes (sv_client s c) AND M"
    if "c_modes (sv_client t c) AND NOT A = c_modes (sv_client s c) AND NOT A" "M AND NOT A = M" for A M
    unfolding cut [OF that(2), of "c_modes (sv_client t c)"] cut [OF that(2), of "c_modes (sv_client s c)"] that(1) ..
  have apart: "M AND NOT A = M" if "M AND A = 0" for M A :: u64
    using that bit.conj_disj_distrib [of M A "NOT A"] by simp
  have "(CLIENT_MODE_OPER OR CLIENT_MODE_NETADMIN) AND own_modes = 0" "(CLIENT_MODE_OPER OR CLIENT_MODE_NETADMIN) AND oper_modes = 0"
    by code_simp+
  then have "(CLIENT_MODE_OPER OR CLIENT_MODE_NETADMIN) AND changeable_modes cl = 0"
    by (simp add: changeable_modes_def bit.conj_disj_distrib)
  then have apart': "(CLIENT_MODE_OPER OR CLIENT_MODE_NETADMIN) AND NOT (changeable_modes cl) = CLIENT_MODE_OPER OR CLIENT_MODE_NETADMIN"
    by (rule apart)
  have "c_modes (sv_client t c) AND NOT (changeable_modes cl) = c_modes (sv_client s c) AND NOT (changeable_modes cl)"
    using assms unfolding modes_within_def by blast
  from eq [OF this apart'] show ?thesis by (simp only: client_mode_has_def)
qed

lemma command_mode_within: "modes_within (changeable_modes (sv_client s c)) c s (snd (command_mode c params s))"
proof -
  let ?A = "changeable_modes (sv_client s c)"
  let ?B = "if client_mode_has (c_modes (sv_client s c)) (CLIENT_MODE_OPER OR CLIENT_MODE_NETADMIN) then oper_modes else 0"
  have A: "?A = own_modes OR ?B" by (simp add: changeable_modes_def)
  have policy: "modes_within ?A c s (snd (command_mode_policy c p t))" if "modes_within ?A c s t" for p t
  proof -
    have "?B = oper_modes" if "client_mode_has (c_modes (sv_client t c)) (CLIENT_MODE_OPER OR CLIENT_MODE_NETADMIN)"
      using that unfolding changeable_oper [OF \<open>modes_within ?A c s t\<close>] by (rule if_P)
    then show ?thesis using that unfolding A by (rule policy_within [rotated])
  qed
  have self: "modes_within ?A c s (snd (registered_only c (\<lambda>s. (COMMAND_KEEP_CLIENT, body s)) s))"
    if "modes_within ?A c s (body s)" for body
    by (rule registered_only_cases [where P = "\<lambda>r. modes_within ?A c s (snd r)"])
      (use that modes_within_io [OF modes_within_refl require_registered_io] in auto)
  have shown: "modes_within ?A c s (if b then send_full_user_modes c t else t)" if "modes_within ?A c s t" for b t
    using that modes_within_io [OF that full_user_modes_io] by simp
  have loop: "modes_within ?A c s (snd (snd (control_loop c sg ms hx st s)))" for sg ms hx st
    unfolding A by (rule control_loop_within) simp
  have "modes_within ?A c s (control_user_modes c target ms rest s)" for target ms rest
    unfolding control_user_modes_def Let_def case_prod_beta
    using loop policy [OF loop] by (intro shown) simp
  then show ?thesis
    using policy self shown [of s True] by (auto simp: command_mode_def case_prod_beta Let_def split: option.split)
qed

subsection \<open>Properties\<close>

text \<open>
  C23: MODE cannot be used to gain privileges.  Whatever a client sends with MODE, no other client's state changes,
  and its own modes change only within BOT, DEAF, INVISIBLE, PRIVATE, REGONLY, NOCTCP, WALLOPS and the
  cloak; an operator may in addition change the five operator preferences.  In particular nobody becomes operator,
  network administrator, registered or secure, and nobody lifts a \<open>+D\<close> or \<open>+M\<close>.
\<close>

theorem user_mode_no_escalation:
  "sv_client (snd (command_mode c params s)) = (sv_client s)(c := sv_client (snd (command_mode c params s)) c) \<and>
   c_modes (sv_client (snd (command_mode c params s)) c) AND NOT (changeable_modes (sv_client s c)) =
     c_modes (sv_client s c) AND NOT (changeable_modes (sv_client s c)) \<and>
   changeable_modes (sv_client s c) AND (CLIENT_MODE_OPER OR CLIENT_MODE_NETADMIN OR CLIENT_MODE_REGISTERED OR CLIENT_MODE_SERVICE OR
     CLIENT_MODE_SECURE OR CLIENT_MODE_VHOST OR CLIENT_MODE_PRIVATE_DEAF OR CLIENT_MODE_CHANNEL_MUTE) = 0"
proof -
  have "own_modes AND (CLIENT_MODE_OPER OR CLIENT_MODE_NETADMIN OR CLIENT_MODE_REGISTERED OR CLIENT_MODE_SERVICE OR
     CLIENT_MODE_SECURE OR CLIENT_MODE_VHOST OR CLIENT_MODE_PRIVATE_DEAF OR CLIENT_MODE_CHANNEL_MUTE) = 0"
    "oper_modes AND (CLIENT_MODE_OPER OR CLIENT_MODE_NETADMIN OR CLIENT_MODE_REGISTERED OR CLIENT_MODE_SERVICE OR
     CLIENT_MODE_SECURE OR CLIENT_MODE_VHOST OR CLIENT_MODE_PRIVATE_DEAF OR CLIENT_MODE_CHANNEL_MUTE) = 0" by code_simp+
  then show ?thesis
    using command_mode_within [of s c params]
    by (auto simp: modes_within_def changeable_modes_def bit.conj_disj_distrib2 fun_eq_iff)
qed

text \<open>
  C34: MODE on a channel without channel authority only reads.  Whatever MODE line a client sends for a channel in which it is not an owner, protected member or operator, every
  client, channel, index and counter stays as it is: only output queues change and, when the channel is registered, the ChanServ database, in which mode\_persist.c stores
  the unchanged channel once more.
\<close>

theorem mode_needs_authority:
  assumes "strtok '' '' p = Some (target, rest)" "starts_with ''#&'' target" "length target \<le> IRC_CHANNEL_NAME_MAX"
    and "hash_get (sv_channels_by_name s) target = Some h"
    and "\<forall>m. find (\<lambda>m. m_client m = c) (ch_members (sv_channel s h)) = Some m \<longrightarrow>
           m_privileges m AND (CHANNEL_PRIV_OWNER OR CHANNEL_PRIV_PROTECTED OR CHANNEL_PRIV_OPERATOR) = 0"
  shows "\<exists>db. io_only (s\<lparr>sv_csdb := db\<rparr>) (snd (command_mode c (Some p) s)) \<and>
    (db = sv_csdb s \<or>
     ch_modes (sv_channel s h) AND CHANNEL_MODE_REGISTERED \<noteq> 0 \<and> db = snd (chanserv_persist_save (sv_channel s h) (sv_csdb s)))"
proof -
  have "\<not> may_change_channel (sv_channel s h) c"
    using assms(5) by (auto simp: may_change_channel_def channel_find_member_def channel_privilege_has_def split: option.split)
  then have core: "saves_at_most h s (snd (command_mode_policy c (Some p) s))"
    using mode_policy_readonly [OF assms(4,3), of c rest] assms(1,2) by (simp add: command_mode_policy_def)
  have "io_only s (snd (registered_only c (\<lambda>s. (COMMAND_KEEP_CLIENT, send_full_user_modes c s)) s))"
    by (rule registered_only_io) (simp add: full_user_modes_io)
  then have "saves_at_most h s (snd (command_mode c (Some p) s))"
    using core assms(1,2) by (auto simp: command_mode_def case_prod_beta Let_def intro: saves_io split: option.split)
  then show ?thesis by (simp add: saves_at_most_def channel_mode_has_def)
qed

theorem mode_needs_authority_witness:
  "sv_channel (snd (command_mode 1 (Some ''#room +o bob'') example_room)) = sv_channel example_room"
proof -
  have "hash_get (sv_channels_by_name example_room) ''#room'' = Some 0"
    by (simp add: chain_get_Cons del: chain_get.simps)
  moreover have "strtok '' '' ''#room +o bob'' = Some (''#room'', ''+o bob'')" by (simp add: strtok_def)
  ultimately obtain db where "io_only (example_room\<lparr>sv_csdb := db\<rparr>) (snd (command_mode 1 (Some ''#room +o bob'') example_room))"
    using mode_needs_authority [of "''#room +o bob''" "''#room''" "''+o bob''" example_room 0 1] by (auto simp: starts_with_def)
  from io_fields(6) [OF this] show ?thesis by simp
qed

end
