(* ===== verification/Channel_Log.thy ===== *)
theory Channel_Log
  imports ChanServ_Store
begin

section \<open>The durable queue of channel logs (src/channel_log.c, src/chanserv_db_logging.c)\<close>

text \<open>
  What a PRIVMSG or NOTICE to a channel does to the channel log: \<open>channel_log_message\<close> formats the line and \<open>enqueue\<close> stores it in the table
  \<open>channel_log_queue\<close> when logging is enabled for the channel and the queue has room.  The statics of the file and the rows of the table are the field \<open>w_channel_log\<close>
  of the world.  Writing the queued rows to text files and rotating those files is work on the file system and not represented.
\<close>

definition log_upd :: "(channel_log \<Rightarrow> channel_log) \<Rightarrow> server \<Rightarrow> server" where
  "log_upd f s = s\<lparr>sv_world := (sv_world s)\<lparr>w_channel_log := f (w_channel_log (sv_world s))\<rparr>\<rparr>"

abbreviation sv_chanlog :: "server \<Rightarrow> channel_log" where
  "sv_chanlog s \<equiv> w_channel_log (sv_world s)"

subsection \<open>The statements\<close>

text \<open>\<open>None\<close> stands for -1; otherwise whether the channel is registered and whether its logging is enabled.\<close>

definition chanserv_db_logging_get :: "server \<Rightarrow> string \<Rightarrow> (bool \<times> bool) option" where
  "chanserv_db_logging_get s name =
     (if lg_queue (sv_chanlog s) = None then None
      else case db_channels (sv_csdb s) (fold_key name) of
             None \<Rightarrow> Some (False, False)
           | Some r \<Rightarrow> Some (csc_enabled r, csc_enabled r \<and> csc_logging_enabled r))"

definition log_line_break :: "string \<Rightarrow> bool" where
  "log_line_break text \<longleftrightarrow> CR \<in> set text \<or> LF \<in> set text"

definition chanserv_db_logging_queue_add :: "string \<Rightarrow> int \<Rightarrow> string \<Rightarrow> server \<Rightarrow> int \<times> server" where
  "chanserv_db_logging_queue_add channel event_time body s =
     (if length channel > IRC_CHANNEL_NAME_MAX \<or> length body \<ge> IRCD_MESSAGE_BUFFER_SIZE + 256 \<or>
         log_line_break channel \<or> log_line_break body
      then (-1, s)
      else case lg_queue (sv_chanlog s) of
             None \<Rightarrow> (-1, s)
           | Some rows \<Rightarrow>
               if lg_insert (sv_chanlog s)
               then (0, log_upd (\<lambda>g. g\<lparr>lg_queue := Some (rows @ [(channel, event_time, body)])\<rparr>) s)
               else (-1, s))"

definition chanserv_db_logging_queue_count :: "server \<Rightarrow> nat option" where
  "chanserv_db_logging_queue_count s = map_option length (lg_queue (sv_chanlog s))"

subsection \<open>The statics\<close>

definition ensure_queue_count :: "server \<Rightarrow> int \<times> server" where
  "ensure_queue_count s =
     (if lg_queue_count (sv_chanlog s) \<noteq> None then (0, s)
      else if \<not> db_ok (sv_csdb s) then (-1, s)
      else case chanserv_db_logging_queue_count s of
             None \<Rightarrow> (-1, s)
           | Some n \<Rightarrow> (0, log_upd (\<lambda>g. g\<lparr>lg_queue_count := Some n\<rparr>) s))"

text \<open>The enabled flag of the state of a channel; a new state is put in front.\<close>

definition state_for :: "string \<Rightarrow> bool \<Rightarrow> server \<Rightarrow> bool option \<times> server" where
  "state_for name create s =
     (case find (\<lambda>(n, _). strcaseeq n name) (lg_states (sv_chanlog s)) of
        Some (_, enabled) \<Rightarrow> (Some enabled, s)
      | None \<Rightarrow>
          if \<not> create \<or> \<not> sv_alloc s then (None, s)
          else (Some False, log_upd (\<lambda>g. g\<lparr>lg_states := (take IRC_CHANNEL_NAME_MAX name, False) # lg_states g\<rparr>) s))"

definition db_get_enabled :: "server \<Rightarrow> string \<Rightarrow> (bool \<times> bool) option" where
  "db_get_enabled s name = (if \<not> db_ok (sv_csdb s) then None else chanserv_db_logging_get s name)"

definition state_enabled :: "string \<Rightarrow> server \<Rightarrow> bool \<times> server" where
  "state_enabled name s =
     (case fst (state_for name False s) of
        Some enabled \<Rightarrow> (enabled, s)
      | None \<Rightarrow>
          if db_get_enabled s name \<noteq> Some (True, True) then (False, s)
          else let (state, s1) = state_for name True s
               in if state = None then (False, s1)
                  else (True, log_upd (\<lambda>g. g\<lparr>lg_states := (fst (hd (lg_states g)), True) # tl (lg_states g)\<rparr>) s1))"

subsection \<open>Queueing\<close>

definition enqueue_full :: "nat \<Rightarrow> server \<Rightarrow> server" where
  "enqueue_full n s =
     (if lg_queue_full_notice_time (sv_chanlog s) = 0 \<or> sv_clock s - lg_queue_full_notice_time (sv_chanlog s) \<ge> 60
      then log_upd (\<lambda>g. g\<lparr>lg_queue_full_notice_time := sv_clock s\<rparr>)
             (snotice_broadcast (SNOTICE_ADMIN OR SNOTICE_FLOOD)
               (''Channel log durable queue full ('' @ dec n @ ''/'' @ dec (cf_channel_log_queue_max_rows (sv_config s)) @
                ''); new log events are being refused until backlog flushes'') s)
      else s)"

definition enqueue :: "chref \<Rightarrow> int \<Rightarrow> string \<Rightarrow> server \<Rightarrow> int \<times> server" where
  "enqueue h event_time body s =
     (let (enabled, s1) = state_enabled (ch_name (sv_channel s h)) s
      in if \<not> enabled then (0, s1)
         else if \<not> db_ok (sv_csdb s1) then (-1, s1)
         else let (rc, s2) = ensure_queue_count s1
              in if rc \<noteq> 0 then (-1, s2)
                 else let n = the (lg_queue_count (sv_chanlog s2))
                      in if n \<ge> cf_channel_log_queue_max_rows (sv_config s2) then (-1, enqueue_full n s2)
                         else let (rc', s3) = chanserv_db_logging_queue_add (ch_name (sv_channel s2 h)) event_time body s2
                              in (rc', if rc' = 0 then log_upd (\<lambda>g. g\<lparr>lg_queue_count := Some (n + 1)\<rparr>) s3 else s3))"

definition channel_log_message :: "chref \<Rightarrow> cref \<Rightarrow> string \<Rightarrow> bool \<Rightarrow> server \<Rightarrow> server" where
  "channel_log_message h c txt notice s =
     (let nick = c_nick (sv_client s c);
          body = take (IRCD_MESSAGE_BUFFER_SIZE + 255) (if notice then ''-'' @ nick @ ''- '' @ txt else ''<'' @ nick @ ''> '' @ txt)
      in snd (enqueue h (sv_clock s) body s))"

subsection \<open>What it changes\<close>

text \<open>A step that changes the channel log and the output only.\<close>

definition log_step :: "server \<Rightarrow> server \<Rightarrow> bool" where
  "log_step s t \<longleftrightarrow> (\<exists>g. io_only (log_upd (\<lambda>_. g) s) t)"

lemma log_upd_step [simp, intro!]: "log_step s (log_upd f s)"
  unfolding log_step_def by (rule exI [of _ "f (sv_chanlog s)"]) (simp add: log_upd_def)

lemma log_step_refl [simp, intro!]: "log_step s s"
  using log_upd_step [of s id] by (simp add: log_upd_def)

lemma log_step_io: "io_only s t \<Longrightarrow> log_step s t"
  unfolding log_step_def by (rule exI [of _ "sv_chanlog s"]) (simp add: log_upd_def)

lemma io_only_log_upd: "io_only s t \<Longrightarrow> io_only (log_upd (\<lambda>_. g) s) (log_upd (\<lambda>_. g) t)"
proof -
  assume "io_only s t"
  then obtain out env log where t: "oe_alloc env = sv_alloc s" "t = s\<lparr>sv_out := out, sv_env := env, sv_log := log\<rparr>"
    by (auto simp: io_only_def)
  show ?thesis
    unfolding io_only_def t(2) using t(1) by (intro exI [of _ out] exI [of _ env] exI [of _ log]) (simp add: log_upd_def)
qed

lemma log_step_trans: "log_step s t \<Longrightarrow> log_step t u \<Longrightarrow> log_step s u"
proof -
  assume "log_step s t" "log_step t u"
  then obtain g g' where g: "io_only (log_upd (\<lambda>_. g) s) t" "io_only (log_upd (\<lambda>_. g') t) u"
    by (auto simp: log_step_def)
  have "io_only (log_upd (\<lambda>_. g') s) (log_upd (\<lambda>_. g') t)"
    using io_only_log_upd [OF g(1), of g'] by (simp add: log_upd_def)
  then show ?thesis unfolding log_step_def using io_only_trans [OF _ g(2)] by blast
qed

lemma log_step_fields:
  assumes "log_step s t"
  shows "sv_config t = sv_config s" "sv_clients t = sv_clients s" "sv_client t = sv_client s" "sv_channel t = sv_channel s"
    "sv_clock t = sv_clock s" "sv_csdb t = sv_csdb s" "w_journal (sv_world t) = w_journal (sv_world s)" "sv_alloc t = sv_alloc s"
proof -
  obtain g where "io_only (log_upd (\<lambda>_. g) s) t" using assms by (auto simp: log_step_def)
  note io = io_fields [OF this]
  show "sv_config t = sv_config s" "sv_clients t = sv_clients s" "sv_client t = sv_client s" "sv_channel t = sv_channel s"
    "sv_clock t = sv_clock s" "sv_csdb t = sv_csdb s" "w_journal (sv_world t) = w_journal (sv_world s)" "sv_alloc t = sv_alloc s"
    using io by (simp_all add: log_upd_def)
qed

lemma log_step_keeps: "keeps c s t \<Longrightarrow> log_step t u \<Longrightarrow> keeps c s u"
  by (auto simp: log_step_def log_upd_def intro: keeps_io [OF keeps_fields(8)])

lemma enqueue_full_step: "log_step s (enqueue_full n s)"
  unfolding enqueue_full_def by (auto intro: log_step_trans [OF log_step_io [OF snotice_broadcast_io] log_upd_step])

lemma state_for_step: "log_step s (snd (state_for name create s))"
  by (auto simp: state_for_def split: option.split)

lemma state_enabled_step: "log_step s (snd (state_enabled name s))"
  by (auto simp: state_enabled_def case_prod_beta Let_def intro: log_step_trans [OF state_for_step log_upd_step] state_for_step
      split: option.split)

lemma ensure_queue_count_step: "log_step s (snd (ensure_queue_count s))"
  by (auto simp: ensure_queue_count_def split: option.split)

lemma queue_add_step: "log_step s (snd (chanserv_db_logging_queue_add n t b s))"
  by (auto simp: chanserv_db_logging_queue_add_def split: option.split)

lemma enqueue_step: "log_step s (snd (enqueue h t body s))"
proof -
  let ?s1 = "snd (state_enabled (ch_name (sv_channel s h)) s)"
  let ?s2 = "snd (ensure_queue_count ?s1)"
  have 1: "log_step s ?s1" by (rule state_enabled_step)
  have 2: "log_step s ?s2" by (rule log_step_trans [OF 1 ensure_queue_count_step])
  have 3: "log_step s (snd (chanserv_db_logging_queue_add n t body ?s2))" for n by (rule log_step_trans [OF 2 queue_add_step])
  show ?thesis
    using 1 2 3 log_step_trans [OF 2 enqueue_full_step] log_step_trans [OF 3 log_upd_step]
    by (auto simp: enqueue_def case_prod_beta Let_def)
qed

lemma channel_log_message_step: "log_step s (channel_log_message h c txt notice s)"
  by (simp add: channel_log_message_def Let_def enqueue_step)

subsection \<open>When a line is stored\<close>

text \<open>
  Logging is on for a channel: the cache says so or, for a channel that is not in the cache, it is registered, enabled and has logging enabled, and the entry of
  the cache can be allocated.
\<close>

definition logging_on :: "server \<Rightarrow> string \<Rightarrow> bool" where
  "logging_on s name \<longleftrightarrow>
     (case find (\<lambda>(n, _). strcaseeq n name) (lg_states (sv_chanlog s)) of
        Some (_, enabled) \<Rightarrow> enabled
      | None \<Rightarrow> db_ok (sv_csdb s) \<and> lg_queue (sv_chanlog s) \<noteq> None \<and> sv_alloc s \<and>
          (\<exists>r. db_channels (sv_csdb s) (fold_key name) = Some r \<and> csc_enabled r \<and> csc_logging_enabled r))"

definition log_length :: "server \<Rightarrow> nat" where
  "log_length s = (case lg_queue_count (sv_chanlog s) of Some n \<Rightarrow> n | None \<Rightarrow> length (the (lg_queue (sv_chanlog s))))"

definition log_writable :: "server \<Rightarrow> bool" where
  "log_writable s \<longleftrightarrow> db_ok (sv_csdb s) \<and> lg_queue (sv_chanlog s) \<noteq> None \<and> lg_insert (sv_chanlog s)"

abbreviation log_full :: "server \<Rightarrow> bool" where
  "log_full s \<equiv> cf_channel_log_queue_max_rows (sv_config s) \<le> log_length s"

lemma log_upd_sel [simp]:
  "sv_chanlog (log_upd f s) = f (sv_chanlog s)" "sv_csdb (log_upd f s) = sv_csdb s" "sv_config (log_upd f s) = sv_config s"
  "sv_channel (log_upd f s) = sv_channel s" "sv_log (log_upd f s) = sv_log s" "sv_clock (log_upd f s) = sv_clock s"
  "sv_env (log_upd f s) = sv_env s" "sv_client (log_upd f s) = sv_client s"
  by (simp_all add: log_upd_def)

lemma state_enabled_result:
  "fst (state_enabled name s) = logging_on s name"
  "lg_queue (sv_chanlog (snd (state_enabled name s))) = lg_queue (sv_chanlog s)"
  "lg_insert (sv_chanlog (snd (state_enabled name s))) = lg_insert (sv_chanlog s)"
  "lg_queue_count (sv_chanlog (snd (state_enabled name s))) = lg_queue_count (sv_chanlog s)"
  "sv_log (snd (state_enabled name s)) = sv_log s"
  by (auto simp: state_enabled_def state_for_def logging_on_def db_get_enabled_def chanserv_db_logging_get_def Let_def split: option.splits)

lemma ensure_queue_count_result:
  assumes "log_writable s"
  shows "fst (ensure_queue_count s) = 0" "lg_queue_count (sv_chanlog (snd (ensure_queue_count s))) = Some (log_length s)"
    "lg_queue (sv_chanlog (snd (ensure_queue_count s))) = lg_queue (sv_chanlog s)"
    "lg_insert (sv_chanlog (snd (ensure_queue_count s))) = lg_insert (sv_chanlog s)"
    "sv_log (snd (ensure_queue_count s)) = sv_log s"
  using assms
  by (auto simp: ensure_queue_count_def chanserv_db_logging_queue_count_def log_length_def log_writable_def split: option.split)

text \<open>
  With a usable table, a line within the limits is stored exactly once when logging is on and the queue has room; otherwise the queue is unchanged.  Lines are sent to
  nobody unless logging is on and the queue is full.
\<close>

lemma enqueue_result:
  fixes s h event_time body
  assumes "log_writable s" "lg_queue (sv_chanlog s) = Some rows"
    and "length (ch_name (sv_channel s h)) \<le> IRC_CHANNEL_NAME_MAX" "length body < IRCD_MESSAGE_BUFFER_SIZE + 256"
    and "\<not> log_line_break (ch_name (sv_channel s h))" "\<not> log_line_break body"
  defines "t \<equiv> snd (enqueue h event_time body s)"
  shows "lg_queue (sv_chanlog t) =
      Some (rows @ (if logging_on s (ch_name (sv_channel s h)) \<and> \<not> log_full s then [(ch_name (sv_channel s h), event_time, body)] else []))"
    and "\<not> (logging_on s (ch_name (sv_channel s h)) \<and> log_full s) \<Longrightarrow> sv_log t = sv_log s"
proof -
  let ?name = "ch_name (sv_channel s h)"
  let ?s1 = "snd (state_enabled ?name s)"
  let ?s2 = "snd (ensure_queue_count ?s1)"
  note f1 = log_step_fields [OF state_enabled_step [of s ?name]]
  note f2 = log_step_fields [OF ensure_queue_count_step [of ?s1]]
  have w1: "log_writable ?s1" "log_length ?s1 = log_length s"
    using assms(1) by (simp_all add: log_writable_def log_length_def state_enabled_result f1 split: option.split)
  note e = ensure_queue_count_result [OF w1(1)]
  have queue_full: "sv_chanlog (snotice_broadcast a b u) = sv_chanlog u" for a b u by simp
  have rest: "(lg_queue (sv_chanlog t) =
      Some (rows @ (if logging_on s ?name \<and> \<not> log_full s then [(?name, event_time, body)] else []))) \<and>
      (\<not> (logging_on s ?name \<and> log_full s) \<longrightarrow> sv_log t = sv_log s)"
    unfolding t_def enqueue_def
    using assms(1-6) e w1 f1 f2
    by (auto simp: case_prod_beta Let_def state_enabled_result log_writable_def chanserv_db_logging_queue_add_def enqueue_full_def
        split: option.split)
  from rest show "lg_queue (sv_chanlog t) = Some (rows @ (if logging_on s ?name \<and> \<not> log_full s then [(?name, event_time, body)] else []))"
    and "\<not> (logging_on s ?name \<and> log_full s) \<Longrightarrow> sv_log t = sv_log s" by blast+
qed

end
