(* ===== verification/Messaging.thy ===== *)
theory Messaging
  imports Channel_Commands Channel_Log
begin

section \<open>PRIVMSG, NOTICE and TAGMSG (src/commands/privmsg.c, notice.c, tagmsg.c, moderation\_policy.c)\<close>

text \<open>
  A message passes the policy of \<open>moderation_policy.c\<close> first and then the handler of its own file, which
  tests the channel or the receiver, cuts colours, stores the message and delivers it through
  theory \<open>IRCv3\<close>.  \<open>services\<close> stands for the text commands of NickServ, ChanServ and MemoServ.

  The rows given to the history database are kept in \<open>w_journal\<close>, in order; the store prunes them on its own.  The channel log is that of theory
  \<open>Channel_Log\<close>.
\<close>

abbreviation IRCD_HISTORY_TEXT_MAX :: nat where "IRCD_HISTORY_TEXT_MAX \<equiv> 510"
abbreviation IRCD_CLIENT_VERSION_MAX :: nat where "IRCD_CLIENT_VERSION_MAX \<equiv> 255"
abbreviation IRCD_CLIENT_WEBSITE_MAX :: nat where "IRCD_CLIENT_WEBSITE_MAX \<equiv> 255"

type_synonym service_handler = "string \<Rightarrow> cref \<Rightarrow> string \<Rightarrow> server \<Rightarrow> server"

subsection \<open>The CTCP probes of nospoof.c\<close>

definition capture_ctcp :: "nat \<Rightarrow> string \<Rightarrow> string \<Rightarrow> string option" where
  "capture_ctcp dest_size txt name =
     (let rest = drop 1 txt; after = drop (length name) rest
      in if \<not> starts_with [CHR 0x01] txt \<or> \<not> strcaseeq (take (length name) rest) name \<or> \<not> starts_with [CHR '' '', CHR 0x01] after
         then None
         else let val1 = (if starts_with '' '' after then drop 1 after else after);
                  val2 = (if val1 \<noteq> [] \<and> last val1 = CHR 0x01 then butlast val1 else val1)
              in Some (take (dest_size - 1) val2))"

definition nospoof_handle_notice :: "cref \<Rightarrow> string \<Rightarrow> server \<Rightarrow> bool \<times> server" where
  "nospoof_handle_notice c params s =
     (case tok1 params of
        (Some target, rest) \<Rightarrow>
          (let txt = (if starts_with '':'' rest then drop 1 rest else rest);
               cl = sv_client s c;
               version = capture_ctcp (IRCD_CLIENT_VERSION_MAX + 1) txt ''VERSION'';
               website = capture_ctcp (IRCD_CLIENT_WEBSITE_MAX + 1) txt ''WEBSITE''
           in if \<not> cf_nospoof_enabled (sv_config s) \<or> rest = [] \<or> \<not> strcaseeq target (server_name s) then (False, s)
              else if c_version_requested cl \<and> \<not> c_version_received cl \<and> version \<noteq> None
              then (True, upd_client c (\<lambda>cl. cl\<lparr>c_client_version := the version, c_version_received := True\<rparr>) s)
              else if c_webirc_active cl \<and> c_website_requested cl \<and> \<not> c_website_received cl \<and> website \<noteq> None
              then (True, upd_client c (\<lambda>cl. cl\<lparr>c_client_website := the website, c_website_received := True\<rparr>) s)
              else (False, s))
      | (None, _) \<Rightarrow> (False, s))"

definition nospoof_version_target_allowed :: "server \<Rightarrow> cref \<Rightarrow> string option \<Rightarrow> bool" where
  "nospoof_version_target_allowed s c target =
     (if \<not> nospoof_version_restricted s (sv_client s c) then True
      else case target of
             None \<Rightarrow> False
           | Some t \<Rightarrow>
               \<not> starts_with ''#&'' t \<and>
               (case hash_get (sv_clients_by_nick s) t of
                  None \<Rightarrow> False
                | Some d \<Rightarrow> client_mode_has (c_modes (sv_client s d)) (CLIENT_MODE_OPER OR CLIENT_MODE_NETADMIN)))"

subsection \<open>Who may speak\<close>

definition is_oper_or_above :: "client \<Rightarrow> bool" where
  "is_oper_or_above cl \<longleftrightarrow> client_mode_has (c_modes cl) (CLIENT_MODE_OPER OR CLIENT_MODE_NETADMIN)"

definition channel_speech_banned :: "server \<Rightarrow> chref \<Rightarrow> cref \<Rightarrow> bool" where
  "channel_speech_banned s h c =
     (case channel_find_member (sv_channel s h) c of
        Some m \<Rightarrow>
          if channel_privilege_has (m_privileges m) CHANNEL_PRIV_OWNER then False
          else if channel_privilege_has (m_privileges m) CHANNEL_PRIV_PROTECTED
          then channel_client_is_banned_protected (sv_channel s h) (sv_client s c)
          else channel_client_is_banned (sv_channel s h) (sv_client s c)
      | None \<Rightarrow> channel_client_is_banned (sv_channel s h) (sv_client s c))"

abbreviation speaking_privileges :: u32 where
  "speaking_privileges \<equiv> CHANNEL_PRIV_VOICE OR CHANNEL_PRIV_HALFOP OR CHANNEL_PRIV_OPERATOR OR CHANNEL_PRIV_PROTECTED OR CHANNEL_PRIV_OWNER"

text \<open>The tests that PRIVMSG, NOTICE and TAGMSG share, with the text of the first that fails.\<close>

definition channel_send_denied :: "server \<Rightarrow> chref \<Rightarrow> cref \<Rightarrow> string option" where
  "channel_send_denied s h c =
     (let ch = sv_channel s h; member = channel_find_member ch c
      in if channel_speech_banned s h c then Some ''banned from channel (+b)''
         else if channel_mode_has (ch_modes ch) CHANNEL_MODE_NO_EXTERNAL \<and> member = None
         then Some ''no external messages (+n)''
         else if channel_mode_has (ch_modes ch) CHANNEL_MODE_REGONLY_SPEAK \<and>
                 \<not> client_mode_has (c_modes (sv_client s c)) CLIENT_MODE_REGISTERED
         then Some ''registered nickname required (+M)''
         else if channel_mode_has (ch_modes ch) CHANNEL_MODE_MODERATED \<and>
                 (case member of None \<Rightarrow> True | Some m \<Rightarrow> \<not> channel_privilege_has (m_privileges m) speaking_privileges)
         then Some ''moderated channel (+m)''
         else None)"

definition cannot_send :: "cref \<Rightarrow> string \<Rightarrow> string \<Rightarrow> server \<Rightarrow> command_result \<times> server" where
  "cannot_send c name why s = reply c ''404'' (name @ '' :Cannot send to channel ('' @ why @ '')'') s"

subsection \<open>Storing\<close>

definition add_journal :: "journal \<Rightarrow> server \<Rightarrow> server" where
  "add_journal j s = s\<lparr>sv_world := (sv_world s)\<lparr>w_journal := w_journal (sv_world s) @ [j]\<rparr>\<rparr>"

definition history_row :: "server \<Rightarrow> cref \<Rightarrow> string \<Rightarrow> string \<Rightarrow> string \<Rightarrow> history_record" where
  "history_row s c target command txt =
     \<lparr>hr_target = take IRC_CHANNEL_NAME_MAX target, hr_command = command, hr_nick = c_nick (sv_client s c),
      hr_user = c_user (sv_client s c), hr_host = c_display_host (sv_client s c),
      hr_account = c_account_name (sv_client s c), hr_text = txt, hr_created_at_ms = w_now_ms (sv_world s)\<rparr>"

definition store_channel_history :: "cref \<Rightarrow> string \<Rightarrow> string \<Rightarrow> string \<Rightarrow> server \<Rightarrow> server" where
  "store_channel_history c target command txt s =
     (if length txt > IRCD_HISTORY_TEXT_MAX \<or> \<not> w_history_open (sv_world s) then s
      else add_journal (JournalHistory (history_row s c target command txt)) s)"

subsection \<open>PRIVMSG\<close>

definition privmsg_too_long :: "cref \<Rightarrow> server \<Rightarrow> command_result \<times> server" where
  "privmsg_too_long c s = reply c ''417'' ''PRIVMSG :Message would exceed the IRC relay line limit'' s"

definition delivered_text :: "channel \<Rightarrow> string \<Rightarrow> string" where
  "delivered_text ch txt =
     (if channel_mode_has (ch_modes ch) CHANNEL_MODE_STRIP_COLOR then message_strip_color txt IRCD_MESSAGE_BUFFER_SIZE else txt)"

definition channel_message :: "string \<Rightarrow> bool \<Rightarrow> cref \<Rightarrow> chref \<Rightarrow> string \<Rightarrow> server \<Rightarrow> server" where
  "channel_message command notice c h txt s =
     (let name = ch_name (sv_channel s h)
      in ircv3_broadcast_message h (Some c) c command name txt
           (channel_log_message h c txt notice (store_channel_history c name command txt s)))"

definition privmsg_channel :: "cref \<Rightarrow> string \<Rightarrow> string \<Rightarrow> server \<Rightarrow> command_result \<times> server" where
  "privmsg_channel c target txt s =
     (case hash_get (sv_channels_by_name s) target of
        None \<Rightarrow> reply c ''403'' (target @ '' :No such channel'') s
      | Some h \<Rightarrow>
          let ch = sv_channel s h; delivered = delivered_text ch txt
          in (case channel_send_denied s h c of
               Some why \<Rightarrow> cannot_send c (ch_name ch) why s
             | None \<Rightarrow>
                 if channel_mode_has (ch_modes ch) CHANNEL_MODE_NO_COLOR \<and> message_contains_color txt
                 then cannot_send c (ch_name ch) ''colors are not permitted (+c)'' s
                 else if \<not> ircv3_message_wire_fits (sv_client s c) ''PRIVMSG'' (ch_name ch) delivered
                 then privmsg_too_long c s
                 else (COMMAND_KEEP_CLIENT,
                       upd_client c (\<lambda>cl. cl\<lparr>c_last_activity := sv_clock s\<rparr>)
                         (channel_message ''PRIVMSG'' False c h delivered s))))"

definition privmsg_user :: "cref \<Rightarrow> string \<Rightarrow> string \<Rightarrow> server \<Rightarrow> command_result \<times> server" where
  "privmsg_user c target txt s =
     (case hash_get (sv_clients_by_nick s) target of
        None \<Rightarrow> reply c ''401'' (target @ '' :No such nick/channel'') s
      | Some d \<Rightarrow>
          let cl = sv_client s c; dest = sv_client s d
          in if presence_silence_matches dest cl then (COMMAND_KEEP_CLIENT, s)
             else if client_mode_has (c_modes dest) CLIENT_MODE_REGONLY_MSG \<and> \<not> client_mode_has (c_modes cl) CLIENT_MODE_REGISTERED
             then reply c ''486'' ('':'' @ c_nick dest @ '' only accepts private messages from registered users'') s
             else if client_mode_has (c_modes dest) CLIENT_MODE_NO_CTCP \<and> starts_with [CHR 0x01] txt
             then reply c ''492'' ('':'' @ c_nick dest @ '' does not accept CTCPs'') s
             else if \<not> ircv3_message_wire_fits cl ''PRIVMSG'' (c_nick dest) txt then privmsg_too_long c s
             else let s1 = server_pmstats_private_message (c_nick cl) (c_nick dest)
                        (ircv3_send_message d c ''PRIVMSG'' (c_nick dest) txt s);
                      s2 = upd_client c (\<lambda>cl. cl\<lparr>c_last_activity := sv_clock s\<rparr>) s1
                  in if c_away (sv_client s2 d) \<noteq> []
                     then reply c ''301'' (c_nick (sv_client s2 d) @ '' :'' @ c_away (sv_client s2 d)) s2
                     else (COMMAND_KEEP_CLIENT, s2))"

text \<open>The services: the first name that matches, and the budget it is charged to.\<close>

definition service_of :: "string \<Rightarrow> (string \<times> string) option" where
  "service_of target =
     find (\<lambda>(name, _). strcaseeq target name)
       [(''NickServ'', ''NICKSERV''), (''ChanServ'', ''CHANSERV''), (''MemoServ'', ''MEMOSERV'')]"

definition command_privmsg_core :: "service_handler \<Rightarrow> cref \<Rightarrow> string option \<Rightarrow> server \<Rightarrow> command_result \<times> server" where
  "command_privmsg_core services c params = registered_only c (\<lambda>s.
     case Option.bind params (strtok '' '') of
       None \<Rightarrow> reply c ''411'' '':No recipient given (PRIVMSG)'' s
     | Some (target, rest) \<Rightarrow>
         if CHR '','' \<in> set target then reply c ''407'' (target @ '' :Duplicate recipients. No message delivered'') s
         else if rest = [] \<or> rest = '':'' then reply c ''412'' '':No text to send'' s
         else let txt = (if starts_with '':'' rest then drop 1 rest else rest)
              in (case service_of target of
                   Some (name, command) \<Rightarrow>
                     (let (ok, s1) = command_expensive_allow c command 2 s
                      in (COMMAND_KEEP_CLIENT, if ok then services name c txt s1 else s1))
                 | None \<Rightarrow>
                     if starts_with ''#&'' target then privmsg_channel c target txt s else privmsg_user c target txt s))"

subsection \<open>NOTICE\<close>

definition notice_channel :: "cref \<Rightarrow> string \<Rightarrow> string \<Rightarrow> server \<Rightarrow> server" where
  "notice_channel c target txt s =
     (case hash_get (sv_channels_by_name s) target of
        None \<Rightarrow> s
      | Some h \<Rightarrow>
          let ch = sv_channel s h; delivered = delivered_text ch txt
          in if channel_mode_has (ch_modes ch) CHANNEL_MODE_NO_NOTICE \<or> channel_send_denied s h c \<noteq> None \<or>
                (channel_mode_has (ch_modes ch) CHANNEL_MODE_NO_COLOR \<and> message_contains_color txt) \<or>
                \<not> ircv3_message_wire_fits (sv_client s c) ''NOTICE'' (ch_name ch) delivered
             then s
             else channel_message ''NOTICE'' True c h delivered s)"

definition notice_user :: "cref \<Rightarrow> string \<Rightarrow> string \<Rightarrow> server \<Rightarrow> server" where
  "notice_user c target txt s =
     (case hash_get (sv_clients_by_nick s) target of
        None \<Rightarrow> s
      | Some d \<Rightarrow>
          let cl = sv_client s c; dest = sv_client s d
          in if presence_silence_matches dest cl \<or>
                (client_mode_has (c_modes dest) CLIENT_MODE_REGONLY_MSG \<and> \<not> client_mode_has (c_modes cl) CLIENT_MODE_REGISTERED) \<or>
                (client_mode_has (c_modes dest) CLIENT_MODE_NO_CTCP \<and> starts_with [CHR 0x01] txt) \<or>
                \<not> ircv3_message_wire_fits cl ''NOTICE'' (c_nick dest) txt
             then s
             else ircv3_send_message d c ''NOTICE'' (c_nick dest) txt s)"

definition command_notice_core :: "cref \<Rightarrow> string option \<Rightarrow> server \<Rightarrow> command_result \<times> server" where
  "command_notice_core c params s =
     (COMMAND_KEEP_CLIENT,
      case params of
        None \<Rightarrow> s
      | Some p \<Rightarrow>
          if \<not> c_registered (sv_client s c) then s
          else let (captured, s1) = nospoof_handle_notice c p s
               in if captured then s1
                  else (case strtok '' '' p of
                         None \<Rightarrow> s1
                       | Some (target, rest) \<Rightarrow>
                           let txt = (if starts_with '':'' rest then drop 1 rest else rest)
                           in if CHR '','' \<in> set target \<or> txt = [] then s1
                              else if starts_with ''#&'' target then notice_channel c target txt s1
                              else notice_user c target txt s1))"

subsection \<open>The policy before both\<close>

definition version_blocks_privmsg :: "cref \<Rightarrow> string option \<Rightarrow> server \<Rightarrow> bool \<times> server" where
  "version_blocks_privmsg c target s =
     (if nospoof_version_target_allowed s c target then (False, s)
      else (True, sendf c ('':'' @ server_name s @ '' NOTICE '' @ c_nick (sv_client s c) @
        '' :You must respond to the CTCP VERSION request before joining channels or messaging anyone except an IRC operator or network administrator.'') s))"

definition muted_channel_send :: "cref \<Rightarrow> string option \<Rightarrow> server \<Rightarrow> bool \<times> server" where
  "muted_channel_send c target s =
     (case target of
        None \<Rightarrow> (False, s)
      | Some t \<Rightarrow>
          let cl = sv_client s c
          in if \<not> starts_with ''#&'' t \<or> \<not> client_mode_has (c_modes cl) CLIENT_MODE_CHANNEL_MUTE \<or> is_oper_or_above cl
             then (False, s)
             else if (case Option.bind (hash_get (sv_channels_by_name s) t) (\<lambda>h. channel_find_member (sv_channel s h) c) of
                        Some m \<Rightarrow> m_privileges m \<noteq> 0 | None \<Rightarrow> False)
             then (False, s)
             else (True, snd (cannot_send c t ''channel messaging disabled by user mode +M'' s)))"

definition banned_channel_send :: "cref \<Rightarrow> string option \<Rightarrow> bool \<Rightarrow> server \<Rightarrow> bool \<times> server" where
  "banned_channel_send c target notice s =
     (case target of
        None \<Rightarrow> (False, s)
      | Some t \<Rightarrow>
          if \<not> starts_with ''#&'' t then (False, s)
          else (case hash_get (sv_channels_by_name s) t of
                 None \<Rightarrow> (False, s)
               | Some h \<Rightarrow>
                   if \<not> channel_speech_banned s h c then (False, s)
                   else (True, if notice then s
                               else snd (cannot_send c (ch_name (sv_channel s h)) ''banned from channel (+b)'' s))))"

definition private_deaf_blocks :: "server \<Rightarrow> cref \<Rightarrow> cref \<Rightarrow> bool" where
  "private_deaf_blocks s c d \<longleftrightarrow>
     (client_mode_has (c_modes (sv_client s d)) CLIENT_MODE_PRIVATE_DEAF \<and> \<not> is_oper_or_above (sv_client s c)) \<or>
     (client_mode_has (c_modes (sv_client s c)) CLIENT_MODE_PRIVATE_DEAF \<and> \<not> is_oper_or_above (sv_client s d))"

definition private_deaf_blocks_privmsg :: "cref \<Rightarrow> string option \<Rightarrow> server \<Rightarrow> bool \<times> server" where
  "private_deaf_blocks_privmsg c target s =
     (case target of
        None \<Rightarrow> (False, s)
      | Some t \<Rightarrow>
          if starts_with ''#&'' t then (False, s)
          else (case hash_get (sv_clients_by_nick s) t of
                 None \<Rightarrow> (False, s)
               | Some d \<Rightarrow>
                   if client_mode_has (c_modes (sv_client s d)) CLIENT_MODE_PRIVATE_DEAF \<and> \<not> is_oper_or_above (sv_client s c)
                   then (True, sendf c ('':'' @ client_identity (sv_client s d) @ '' NOTICE '' @ c_nick (sv_client s c) @
                           '' :I cannot send or receive private messages.'') s)
                   else (private_deaf_blocks s c d, s)))"

definition private_deaf_blocks_notice :: "cref \<Rightarrow> string option \<Rightarrow> server \<Rightarrow> bool" where
  "private_deaf_blocks_notice c target s =
     (case target of
        None \<Rightarrow> False
      | Some t \<Rightarrow>
          \<not> starts_with ''#&'' t \<and>
          (case hash_get (sv_clients_by_nick s) t of None \<Rightarrow> False | Some d \<Rightarrow> private_deaf_blocks s c d))"

text \<open>\<open>if (test) return COMMAND_KEEP_CLIENT;\<close> before the rest.\<close>

definition unless_blocked :: "bool \<times> server \<Rightarrow> (server \<Rightarrow> command_result \<times> server) \<Rightarrow> command_result \<times> server" where
  "unless_blocked r k = (if fst r then (COMMAND_KEEP_CLIENT, snd r) else k (snd r))"

definition command_privmsg :: "service_handler \<Rightarrow> cref \<Rightarrow> string option \<Rightarrow> server \<Rightarrow> command_result \<times> server" where
  "command_privmsg services c params s =
     (case params of
        None \<Rightarrow> command_privmsg_core services c params s
      | Some p \<Rightarrow>
          let target = fst (tok1 p)
          in unless_blocked (version_blocks_privmsg c target s) (\<lambda>s.
             unless_blocked (banned_channel_send c target False s) (\<lambda>s.
             unless_blocked (muted_channel_send c target s) (\<lambda>s.
             unless_blocked (private_deaf_blocks_privmsg c target s) (command_privmsg_core services c params)))))"

definition command_notice :: "cref \<Rightarrow> string option \<Rightarrow> server \<Rightarrow> command_result \<times> server" where
  "command_notice c params s =
     (case params of
        None \<Rightarrow> command_notice_core c params s
      | Some p \<Rightarrow>
          let target = fst (tok1 p)
          in unless_blocked (nospoof_handle_notice c p s) (\<lambda>s.
             unless_blocked (\<not> nospoof_version_target_allowed s c target, s) (\<lambda>s.
             unless_blocked (banned_channel_send c target True s) (\<lambda>s.
             unless_blocked (muted_channel_send c target s) (\<lambda>s.
             unless_blocked (private_deaf_blocks_notice c target s, s) (command_notice_core c params))))))"

subsection \<open>TAGMSG\<close>

definition tagmsg_channel :: "cref \<Rightarrow> string \<Rightarrow> server \<Rightarrow> command_result \<times> server" where
  "tagmsg_channel c target s =
     (case hash_get (sv_channels_by_name s) target of
        None \<Rightarrow> reply c ''403'' (target @ '' :No such channel'') s
      | Some h \<Rightarrow>
          let ch = sv_channel s h; cl = sv_client s c
          in if channel_send_denied s h c \<noteq> None then cannot_send c (ch_name ch) ''channel policy blocks TAGMSG'' s
             else if client_mode_has (c_modes cl) CLIENT_MODE_CHANNEL_MUTE \<and> \<not> is_oper_or_above cl \<and>
                     (case channel_find_member ch c of None \<Rightarrow> True | Some m \<Rightarrow> m_privileges m = 0)
             then cannot_send c (ch_name ch) ''channel messaging disabled by user mode +M'' s
             else (COMMAND_KEEP_CLIENT, ircv3_broadcast_tagmsg h (Some c) c (ch_name ch) s))"

definition tagmsg_user :: "cref \<Rightarrow> string \<Rightarrow> server \<Rightarrow> command_result \<times> server" where
  "tagmsg_user c target s =
     (case hash_get (sv_clients_by_nick s) target of
        None \<Rightarrow> reply c ''401'' (target @ '' :No such nick/channel'') s
      | Some d \<Rightarrow>
          let cl = sv_client s c; dest = sv_client s d
          in if presence_silence_matches dest cl then (COMMAND_KEEP_CLIENT, s)
             else if client_mode_has (c_modes dest) CLIENT_MODE_REGONLY_MSG \<and> \<not> client_mode_has (c_modes cl) CLIENT_MODE_REGISTERED
             then reply c ''486'' ('':'' @ c_nick dest @ '' only accepts private messages from registered users'') s
             else if private_deaf_blocks s c d then (COMMAND_KEEP_CLIENT, s)
             else (COMMAND_KEEP_CLIENT, ircv3_send_tagmsg d c (c_nick dest) s))"

definition command_tagmsg :: "cref \<Rightarrow> string option \<Rightarrow> server \<Rightarrow> command_result \<times> server" where
  "command_tagmsg c params = registered_only c (\<lambda>s.
     if c_capabilities (sv_client s c) AND CLIENT_CAP_MESSAGE_TAGS = 0
     then reply c ''421'' ''TAGMSG :Unknown command'' s
     else case Option.bind params (strtok '' '') of
            None \<Rightarrow> reply c ''411'' '':No recipient given (TAGMSG)'' s
          | Some (target, rest) \<Rightarrow>
              if fst (tok1 rest) \<noteq> None \<or> CHR '','' \<in> set target
              then reply c ''407'' (target @ '' :Duplicate recipients. No message delivered'') s
              else unless_blocked (version_blocks_privmsg c (Some target) s) (\<lambda>s.
                if c_ircv3_client_tags (sv_client s c) = [] then (COMMAND_KEEP_CLIENT, s)
                else if starts_with ''#&'' target then tagmsg_channel c target s else tagmsg_user c target s))"

subsection \<open>The handlers respect the server\<close>

lemma unless_blocked_keeps:
  assumes "keeps c s (snd r)" "\<And>t. keeps c t (snd (k t))"
  shows "keeps c s (snd (unless_blocked r k))"
  using assms keeps_trans [OF assms(1)] by (simp add: unless_blocked_def)

lemma messaging_keeps [keeps_intros]:
  assumes "keeps c s t"
  shows "keeps c s (snd (cannot_send d n w t))" and "keeps c s (snd (privmsg_too_long d t))"
    and "keeps c s (add_journal j t)" and "keeps c s (store_channel_history d n cmd txt t)"
    and "keeps c s (server_pmstats_private_message a b t)" and "keeps c s (ircv3_send_tagmsg r d n t)"
    and "keeps c s (ircv3_broadcast_tagmsg h e d n t)"
  using assms by (simp_all add: cannot_send_def privmsg_too_long_def add_journal_def store_channel_history_def
      replies_keeps keeps_fields keeps_io [OF assms] Let_def)

lemma channel_message_keeps: "keeps c s (channel_message cmd b d h txt s)"
  by (simp add: channel_message_def Let_def messaging_keeps keeps_sends log_step_keeps [OF _ channel_log_message_step])

lemma activity_plain: "plain_update (\<lambda>cl. cl\<lparr>c_last_activity := x\<rparr>)"
  by (simp add: plain_update_def)

lemma privmsg_channel_keeps: "keeps c s (snd (privmsg_channel c target txt s))"
  by (auto simp: privmsg_channel_def Let_def replies_keeps messaging_keeps
      keeps_upd_client [OF channel_message_keeps activity_plain] split: option.split)

lemma privmsg_user_keeps: "keeps c s (snd (privmsg_user c target txt s))"
  by (auto simp: privmsg_user_def Let_def replies_keeps messaging_keeps keeps_sends
      keeps_upd_client [OF _ activity_plain] split: option.split)

lemma nospoof_notice_keeps: "keeps c s (snd (nospoof_handle_notice c p s))"
  by (auto simp: nospoof_handle_notice_def Let_def plain_update_def
      intro!: keeps_upd_client split: prod.split option.split)

lemma policy_keeps:
  "keeps c s (snd (version_blocks_privmsg c target s))" "keeps c s (snd (muted_channel_send c target s))"
  "keeps c s (snd (banned_channel_send c target b s))" "keeps c s (snd (private_deaf_blocks_privmsg c target s))"
  by (auto simp: version_blocks_privmsg_def muted_channel_send_def banned_channel_send_def private_deaf_blocks_privmsg_def
      Let_def messaging_keeps keeps_sends split: option.split)

lemma command_privmsg_keeps:
  assumes "\<And>name txt s. keeps c s (services name c txt s)"
  shows "keeps c s (snd (command_privmsg services c params s))"
proof -
  have "keeps c s (services name c x (snd (command_expensive_allow c cmd n s)))" for s name x cmd n
    using keeps_trans [OF expensive_allow_keeps assms] .
  then have core: "keeps c s (snd (command_privmsg_core services c params s))" for s params
    unfolding command_privmsg_core_def
    by (intro registered_only_keeps)
       (simp add: Let_def replies_keeps privmsg_channel_keeps privmsg_user_keeps expensive_allow_keeps case_prod_beta
          split: option.split)
  show ?thesis
    by (auto simp: command_privmsg_def Let_def core
        intro!: unless_blocked_keeps policy_keeps split: option.split)
qed

lemma command_notice_keeps: "keeps c s (snd (command_notice c params s))"
proof -
  have "keeps c s (notice_channel c target x s)" "keeps c s (notice_user c target x s)" for target x s
    by (auto simp: notice_channel_def notice_user_def Let_def channel_message_keeps keeps_sends split: option.split)
  note body = keeps_trans [OF nospoof_notice_keeps this(1)] keeps_trans [OF nospoof_notice_keeps this(2)]
  have core: "keeps c s (snd (command_notice_core c params s))" for s params
    unfolding command_notice_core_def
    by (auto simp: case_prod_beta Let_def nospoof_notice_keeps body split: option.split)
  show ?thesis
    by (auto simp: command_notice_def Let_def core
        intro!: unless_blocked_keeps policy_keeps nospoof_notice_keeps split: option.split)
qed

lemma command_tagmsg_keeps: "keeps c s (snd (command_tagmsg c params s))"
proof -
  have "keeps c s (snd (tagmsg_channel c target s))" "keeps c s (snd (tagmsg_user c target s))" for target s
    by (auto simp: tagmsg_channel_def tagmsg_user_def Let_def replies_keeps messaging_keeps split: option.split)
  then show ?thesis
    unfolding command_tagmsg_def
    by (intro registered_only_keeps)
       (auto simp: replies_keeps split: option.split intro!: unless_blocked_keeps policy_keeps)
qed

subsection \<open>A refused message\<close>

text \<open>A step that stores nothing and sends lines to \<open>c\<close> only.\<close>

definition answers_only :: "cref \<Rightarrow> server \<Rightarrow> server \<Rightarrow> bool" where
  "answers_only c s t \<longleftrightarrow> sv_world t = sv_world s \<and> (\<exists>ls. sv_log t = sv_log s @ map (Pair c) ls)"

lemma answers_only_refl [simp, intro!]: "answers_only c s s"
  by (auto simp: answers_only_def intro: exI [of _ "[]"])

lemma answers_only_replies [simp, intro!]:
  "answers_only c s (sendf c l s)" "answers_only c s (snd (reply c n r s))" "answers_only c s (snd (cannot_send c n w s))"
  by (auto simp: answers_only_def reply_def cannot_send_def intro: exI [of _ "[l]" for l])

lemma policy_answers:
  "answers_only c s (snd (version_blocks_privmsg c target s))" "answers_only c s (snd (muted_channel_send c target s))"
  "answers_only c s (snd (banned_channel_send c target b s))" "answers_only c s (snd (private_deaf_blocks_privmsg c target s))"
  by (simp_all add: version_blocks_privmsg_def muted_channel_send_def banned_channel_send_def
      private_deaf_blocks_privmsg_def Let_def split: option.split)

lemma answers_only_if: "answers_only c s t \<Longrightarrow> answers_only c s u \<Longrightarrow> answers_only c s (if b then t else u)"
  by simp

lemma answers_only_upd: "answers_only c s (upd_client d f s)"
  by (auto simp: answers_only_def upd_client_def intro: exI [of _ "[]"])

lemma nospoof_notice_answers: "answers_only c s (snd (nospoof_handle_notice c p s))"
proof (cases "tok1 p")
  case (Pair t rest)
  then show ?thesis
    by (cases t) (simp_all add: nospoof_handle_notice_def Let_def answers_only_if answers_only_upd if_distrib [of snd] split del: if_split)
qed

text \<open>A test that lets the message pass has changed nothing.\<close>

definition passes :: "server \<Rightarrow> bool \<times> server \<Rightarrow> bool" where
  "passes s r \<longleftrightarrow> fst r \<or> snd r = s"

lemma passes_if: "passes s r \<Longrightarrow> passes s t \<Longrightarrow> passes s (if b then r else t)"
  by simp

lemma passes_pair [simp]: "passes s (b, t) \<longleftrightarrow> b \<or> t = s"
  by (simp add: passes_def)

lemma unless_blocked_answers:
  assumes "answers_only c s (snd r)" "passes s r" "\<not> fst r \<Longrightarrow> answers_only c s (snd (k s))"
  shows "answers_only c s (snd (unless_blocked r k))"
  using assms by (auto simp: unless_blocked_def passes_def)

lemma nospoof_notice_passes: "passes s (nospoof_handle_notice c p s)"
proof (cases "tok1 p")
  case (Pair t rest)
  then show ?thesis
    by (cases t) (simp_all add: nospoof_handle_notice_def Let_def passes_if split del: if_split)
qed

lemma policy_passes:
  "passes s (version_blocks_privmsg c target s)" "passes s (muted_channel_send c target s)"
  "passes s (banned_channel_send c target b s)" "passes s (private_deaf_blocks_privmsg c target s)"
  by (simp_all add: version_blocks_privmsg_def muted_channel_send_def banned_channel_send_def
      private_deaf_blocks_privmsg_def Let_def split: option.split)

lemma registered_only_answers: "answers_only c s (snd (body s)) \<Longrightarrow> answers_only c s (snd (registered_only c body s))"
  by (rule registered_only_cases [where P = "\<lambda>r. answers_only c s (snd r)"])
     (auto simp: command_require_registered_def answers_only_def intro: exI [of _ "[l]" for l])

lemma service_initials:
  "ascii_lower CHR ''#'' = CHR ''#''" "ascii_lower CHR ''&'' = CHR ''&''"
  "ascii_lower CHR ''N'' = CHR ''n''" "ascii_lower CHR ''C'' = CHR ''c''" "ascii_lower CHR ''M'' = CHR ''m''"
  by code_simp+

lemma service_not_channel: "starts_with ''#&'' target \<Longrightarrow> service_of target = None"
  by (cases target) (auto simp: service_of_def starts_with_def strcaseeq_def service_initials)

text \<open>
  When a channel refuses to hear a client, in terms of its lists, modes and members: a ban without exception (owners are never banned, protected members only by a
  ban that carries the protection mark), +n for those outside, +M for those without a registered nickname, +m for those without a privilege.
\<close>

definition member_has :: "channel \<Rightarrow> cref \<Rightarrow> u32 \<Rightarrow> bool" where
  "member_has ch c privileges \<longleftrightarrow> (\<exists>m. find (\<lambda>m. m_client m = c) (ch_members ch) = Some m \<and> m_privileges m AND privileges \<noteq> 0)"

definition speech_refused :: "server \<Rightarrow> chref \<Rightarrow> cref \<Rightarrow> bool" where
  "speech_refused s h c \<longleftrightarrow>
     (let ch = sv_channel s h; modes = ch_modes ch; who = take 1023 (client_identity (sv_client s c))
      in (\<exists>e\<in>set (ch_ban_list ch). glob rfc1459_fold (me_mask e) who \<and> \<not> member_has ch c CHANNEL_PRIV_OWNER \<and>
             (member_has ch c CHANNEL_PRIV_PROTECTED \<longrightarrow> me_protected_authorized e)) \<and>
           \<not> (\<exists>e\<in>set (ch_exception_list ch). glob rfc1459_fold (me_mask e) who) \<or>
         modes AND CHANNEL_MODE_NO_EXTERNAL \<noteq> 0 \<and> c \<notin> m_client ` set (ch_members ch) \<or>
         modes AND CHANNEL_MODE_REGONLY_SPEAK \<noteq> 0 \<and> c_modes (sv_client s c) AND CLIENT_MODE_REGISTERED = 0 \<or>
         modes AND CHANNEL_MODE_MODERATED \<noteq> 0 \<and> \<not> member_has ch c speaking_privileges)"

text \<open>A client with user mode +M, not an operator, that has no privilege in the channel; and coloured text in a +c channel.\<close>

definition mute_refused :: "server \<Rightarrow> chref \<Rightarrow> cref \<Rightarrow> bool" where
  "mute_refused s h c \<longleftrightarrow>
     (let modes = c_modes (sv_client s c)
      in modes AND CLIENT_MODE_CHANNEL_MUTE \<noteq> 0 \<and> modes AND (CLIENT_MODE_OPER OR CLIENT_MODE_NETADMIN) = 0 \<and>
         \<not> member_has (sv_channel s h) c (- 1))"

definition colour_refused :: "server \<Rightarrow> chref \<Rightarrow> string \<Rightarrow> bool" where
  "colour_refused s h txt \<longleftrightarrow> ch_modes (sv_channel s h) AND CHANNEL_MODE_NO_COLOR \<noteq> 0 \<and> message_contains_color txt"

lemma speech_banned_iff:
  "channel_speech_banned s h c \<longleftrightarrow>
     (let ch = sv_channel s h; who = take 1023 (client_identity (sv_client s c))
      in (\<exists>e\<in>set (ch_ban_list ch). glob rfc1459_fold (me_mask e) who \<and> \<not> member_has ch c CHANNEL_PRIV_OWNER \<and>
             (member_has ch c CHANNEL_PRIV_PROTECTED \<longrightarrow> me_protected_authorized e)) \<and>
           \<not> (\<exists>e\<in>set (ch_exception_list ch). glob rfc1459_fold (me_mask e) who))"
  by (auto simp: channel_speech_banned_def channel_client_is_banned_def channel_client_is_banned_protected_def member_has_def
      channel_mask_matches_client_def authorized_ban_matches_client_def mask_entry_matches_client_def irc_mask_match_glob list_ex_iff
      channel_find_member_def channel_privilege_has_def Let_def split: option.splits)

lemma not_listed_iff: "channel_find_member ch c = None \<longleftrightarrow> c \<notin> m_client ` set (ch_members ch)"
  by (auto simp: channel_find_member_def find_None_iff)

lemma send_denied_iff: "channel_send_denied s h c \<noteq> None \<longleftrightarrow> speech_refused s h c"
proof -
  let ?ch = "sv_channel s h"
  have member: "(case channel_find_member ?ch c of None \<Rightarrow> True | Some m \<Rightarrow> \<not> channel_privilege_has (m_privileges m) p) \<longleftrightarrow> \<not> member_has ?ch c p" for p
    by (simp add: member_has_def channel_find_member_def channel_privilege_has_def split: option.split)
  show ?thesis
    unfolding channel_send_denied_def speech_refused_def Let_def member not_listed_iff speech_banned_iff
      channel_mode_has_def client_mode_has_def by auto
qed

lemma muted_send_iff:
  assumes "starts_with ''#&'' target" "hash_get (sv_channels_by_name s) target = Some h"
  shows "fst (muted_channel_send c (Some target) s) \<longleftrightarrow> mute_refused s h c"
    and "(case channel_find_member (sv_channel s h) c of None \<Rightarrow> True | Some m \<Rightarrow> m_privileges m = 0) \<longleftrightarrow> \<not> member_has (sv_channel s h) c (- 1)"
  using assms
  by (auto simp: muted_channel_send_def mute_refused_def member_has_def channel_find_member_def is_oper_or_above_def client_mode_has_def Let_def
      split: option.splits)

lemmas answers_intros = unless_blocked_answers policy_answers policy_passes nospoof_notice_passes nospoof_notice_answers

text \<open>
  C11: a message the channel refuses reaches nobody.  When the sender is banned from speaking, is outside a +n
  channel, has no registered nickname in a +M channel, has no privilege in a +m channel or is muted by its own user mode +M, neither PRIVMSG nor NOTICE nor TAGMSG to that
  channel stores anything or sends a line to anyone but the sender; the same holds of PRIVMSG and NOTICE for coloured text in a +c channel
  and of NOTICE in a channel that takes no notices.
\<close>

theorem refused_message_reaches_nobody:
  assumes "strtok '' '' p = Some (target, rest)" "starts_with ''#&'' target"
    and "hash_get (sv_channels_by_name s) target = Some h"
  defines "txt \<equiv> if starts_with '':'' rest then drop 1 rest else rest"
  shows "(speech_refused s h c \<or> mute_refused s h c \<or> colour_refused s h txt \<longrightarrow>
      answers_only c s (snd (command_privmsg services c (Some p) s)) \<and> answers_only c s (snd (command_notice c (Some p) s))) \<and>
    (speech_refused s h c \<or> mute_refused s h c \<longrightarrow> answers_only c s (snd (command_tagmsg c (Some p) s))) \<and>
    (ch_modes (sv_channel s h) AND CHANNEL_MODE_NO_NOTICE \<noteq> 0 \<longrightarrow> answers_only c s (snd (command_notice c (Some p) s)))"
proof (intro conjI impI)
  let ?ch = "sv_channel s h"
  have target: "fst (tok1 p) = Some target" using assms(1) by (simp add: tok1_def)
  have colour: "colour_refused s h txt \<longleftrightarrow> channel_mode_has (ch_modes ?ch) CHANNEL_MODE_NO_COLOR \<and> message_contains_color txt"
    by (simp add: colour_refused_def channel_mode_has_def)
  note muted = muted_send_iff [OF assms(2,3), of c]
  have privmsg: "answers_only c s (snd (command_privmsg_core services c (Some p) s))"
    if "speech_refused s h c \<or> colour_refused s h txt"
    unfolding command_privmsg_core_def
    using that send_denied_iff [of s h c] colour
    by (intro registered_only_answers)
       (auto simp: assms(1-3) service_not_channel privmsg_channel_def Let_def txt_def [symmetric] split: option.split)
  show "answers_only c s (snd (command_privmsg services c (Some p) s))"
    if "speech_refused s h c \<or> mute_refused s h c \<or> colour_refused s h txt"
    using that privmsg muted(1) target by (auto simp: command_privmsg_def Let_def intro!: answers_intros)
  have notice: "answers_only c s (snd (command_notice_core c (Some p) s))"
    if "speech_refused s h c \<or> colour_refused s h txt \<or> ch_modes ?ch AND CHANNEL_MODE_NO_NOTICE \<noteq> 0"
  proof -
    have "notice_channel c target txt s = s"
      using that send_denied_iff [of s h c] colour assms(3) by (auto simp: notice_channel_def Let_def channel_mode_has_def)
    then show ?thesis
      using nospoof_notice_passes [of s c p] nospoof_notice_answers [of c s p] assms(1,2)
      by (auto simp: command_notice_core_def case_prod_beta Let_def passes_def txt_def [symmetric])
  qed
  show "answers_only c s (snd (command_notice c (Some p) s))"
    if "speech_refused s h c \<or> mute_refused s h c \<or> colour_refused s h txt"
    using that notice muted(1) target by (auto simp: command_notice_def Let_def intro!: answers_intros)
  show "answers_only c s (snd (command_notice c (Some p) s))" if "ch_modes ?ch AND CHANNEL_MODE_NO_NOTICE \<noteq> 0"
    using that notice by (auto simp: command_notice_def Let_def intro!: answers_intros)
  have "answers_only c s (snd (tagmsg_channel c target s))" if "speech_refused s h c \<or> mute_refused s h c"
    using that assms(3) send_denied_iff [of s h c] muted(2)
    by (auto simp: tagmsg_channel_def Let_def mute_refused_def is_oper_or_above_def client_mode_has_def)
  then show "answers_only c s (snd (command_tagmsg c (Some p) s))" if "speech_refused s h c \<or> mute_refused s h c"
    using that unfolding command_tagmsg_def
    by (intro registered_only_answers) (auto simp: assms(1,2) intro!: answers_intros)
qed

theorem refused_message_reaches_nobody_witness:
  "answers_only 1 (upd_channel 0 (\<lambda>ch. ch\<lparr>ch_modes := CHANNEL_MODE_MODERATED\<rparr>) example_room)
     (snd (command_privmsg (\<lambda>_ _ _ s. s) 1 (Some ''#room :hi'')
        (upd_channel 0 (\<lambda>ch. ch\<lparr>ch_modes := CHANNEL_MODE_MODERATED\<rparr>) example_room)))"
proof -
  let ?s = "upd_channel 0 (\<lambda>ch. ch\<lparr>ch_modes := CHANNEL_MODE_MODERATED\<rparr>) example_room"
  have "speech_refused ?s 0 1"
    by (simp add: speech_refused_def member_has_def upd_channel_def Let_def channel_mode_defs)
  then show ?thesis
    using refused_message_reaches_nobody [of "''#room :hi''" "''#room''" "'':hi''" ?s 0 1]
    by (simp add: strtok_def starts_with_def upd_channel_def chain_get_Cons)
qed

subsection \<open>A delivered message\<close>











end
