(* ===== verification/Ban_Store.thy ===== *)
theory Ban_Store
  imports Server_State Glob
begin

section \<open>K-lines, Z-lines and their exceptions (src/ban\_db.c)\<close>

text \<open>
  The tables \<open>bans\<close> and \<open>exceptions\<close> are lists of rows in the order SQLite returns them; \<open>INSERT OR REPLACE\<close> deletes the
  row with the same primary key and adds the new one at the end (a query without \<open>ORDER BY\<close> promises no order, and no
  property below depends on it).  \<open>unixepoch()\<close> is the argument \<open>now\<close>, \<open>inet_pton\<close> is
  \<open>w_pton4\<close> and \<open>w_pton6\<close> of the world, a failed call is \<open>None\<close>.
\<close>

abbreviation IRCD_OPER_NAME_MAX :: nat where "IRCD_OPER_NAME_MAX \<equiv> 63"
abbreviation IRCD_CONFIG_PATH_MAX :: nat where "IRCD_CONFIG_PATH_MAX \<equiv> 511"

abbreviation BAN_TYPE_KLINE :: int where "BAN_TYPE_KLINE \<equiv> 1"
abbreviation BAN_TYPE_ZLINE :: int where "BAN_TYPE_ZLINE \<equiv> 2"
abbreviation BAN_EXCEPTION_KLINE :: int where "BAN_EXCEPTION_KLINE \<equiv> 1"
abbreviation BAN_EXCEPTION_ZLINE :: int where "BAN_EXCEPTION_ZLINE \<equiv> 2"
abbreviation BAN_EXCEPTION_CONNECTION_LIMIT :: int where "BAN_EXCEPTION_CONNECTION_LIMIT \<equiv> 3"
abbreviation BAN_EXCEPTION_DNSBL :: int where "BAN_EXCEPTION_DNSBL \<equiv> 4"
abbreviation BAN_EXCEPTION_GEOBAN :: int where "BAN_EXCEPTION_GEOBAN \<equiv> 5"
abbreviation BAN_PURGE_INTERVAL_SECONDS :: int where "BAN_PURGE_INTERVAL_SECONDS \<equiv> 300"

definition valid_type :: "int \<Rightarrow> bool" where
  "valid_type type \<longleftrightarrow> type = BAN_TYPE_KLINE \<or> type = BAN_TYPE_ZLINE"

definition valid_exception_type :: "int \<Rightarrow> bool" where
  "valid_exception_type type \<longleftrightarrow> type = BAN_EXCEPTION_KLINE \<or> type = BAN_EXCEPTION_ZLINE \<or>
     type = BAN_EXCEPTION_CONNECTION_LIMIT \<or> type = BAN_EXCEPTION_DNSBL \<or> type = BAN_EXCEPTION_GEOBAN"

definition has_line_break :: "string \<Rightarrow> bool" where
  "has_line_break x \<longleftrightarrow> CR \<in> set x \<or> LF \<in> set x"

subsection \<open>Matching\<close>

definition wildcard_match :: "string \<Rightarrow> string \<Rightarrow> bool" where
  "wildcard_match pattern x = match_loop ascii_lower pattern x None"

definition numeric_ip_equal :: "world \<Rightarrow> string \<Rightarrow> string \<Rightarrow> bool" where
  "numeric_ip_equal w left right =
     (case (w_pton4 w left, w_pton4 w right) of
        (Some a, Some b) \<Rightarrow> a = b
      | _ \<Rightarrow> (case (w_pton6 w left, w_pton6 w right) of (Some a, Some b) \<Rightarrow> a = b | _ \<Rightarrow> False))"

definition byte :: "char \<Rightarrow> 8 word" where
  "byte c = word_of_nat (code c)"

text \<open>The comparison at the end of \<open>cidr_match\<close>: whole bytes, then the leading bits of the next one.\<close>

definition prefix_equal :: "nat \<Rightarrow> string \<Rightarrow> string \<Rightarrow> bool" where
  "prefix_equal prefix network candidate =
     (let whole_bytes = prefix div 8; remainder = prefix mod 8;
          mask8 = push_bit (8 - remainder) (0xFF :: 8 word)
      in if take whole_bytes network \<noteq> take whole_bytes candidate then False
         else if remainder \<noteq> 0 \<and>
                 byte (network ! whole_bytes) AND mask8 \<noteq> byte (candidate ! whole_bytes) AND mask8 then False
         else True)"

definition cidr_match :: "world \<Rightarrow> string \<Rightarrow> string \<Rightarrow> bool" where
  "cidr_match w cidr address =
     (let network_text = takeWhile (\<lambda>c. c \<noteq> CHR ''/'') cidr; after = drop (Suc (length network_text)) cidr;
          (prefix, overflow, tail) = strtoul after;
          within = (\<lambda>max_prefix network candidate.
            (case candidate of None \<Rightarrow> False | Some a \<Rightarrow> prefix \<le> max_prefix \<and> prefix_equal prefix network a))
      in if CHR ''/'' \<notin> set cidr \<or> network_text = [] \<or> CHR ''/'' \<in> set after then False
         else if length network_text \<ge> IRC_IP_MAX + 1 then False
         else if overflow \<or> tail = after \<or> tail \<noteq> [] then False
         else (case w_pton4 w network_text of
                 Some network \<Rightarrow> within 32 network (w_pton4 w address)
               | None \<Rightarrow>
                   (case w_pton6 w network_text of
                      Some network \<Rightarrow> within 128 network (w_pton6 w address)
                    | None \<Rightarrow> False)))"

text \<open>\<open>strrchr(copy, '@')\<close>, the text before it and the text after it.\<close>

definition at_parts :: "string \<Rightarrow> (string \<times> string) option" where
  "at_parts x =
     (if CHR ''@'' \<in> set x
      then Some (rev (drop 1 (dropWhile (\<lambda>c. c \<noteq> CHR ''@'') (rev x))), rev (takeWhile (\<lambda>c. c \<noteq> CHR ''@'') (rev x)))
      else None)"

text \<open>The common course of \<open>cidr_identity_match\<close> and \<open>exact_ip_identity_equal\<close> over the test of the address.\<close>

definition identity_match :: "(string \<Rightarrow> string \<Rightarrow> bool) \<Rightarrow> string \<Rightarrow> string \<Rightarrow> bool" where
  "identity_match address_test pattern identity =
     (if length pattern > IRC_CHANNEL_MASK_MAX \<or> length identity > IRC_CHANNEL_MASK_MAX then False
      else (case (at_parts pattern, at_parts identity) of
              (Some (pu, pa), Some (iu, ia)) \<Rightarrow> wildcard_match pu iu \<and> address_test pa ia
            | (Some _, None) \<Rightarrow> False
            | (None, Some (iu, ia)) \<Rightarrow> address_test pattern ia
            | (None, None) \<Rightarrow> address_test pattern identity))"

definition cidr_identity_match :: "world \<Rightarrow> string \<Rightarrow> string option \<Rightarrow> bool" where
  "cidr_identity_match w pattern identity =
     (case identity of
        None \<Rightarrow> False
      | Some i \<Rightarrow> if CHR ''/'' \<notin> set pattern then False else identity_match (cidr_match w) pattern i)"

definition exact_ip_identity_equal :: "world \<Rightarrow> string \<Rightarrow> string option \<Rightarrow> bool" where
  "exact_ip_identity_equal w pattern identity =
     (case identity of None \<Rightarrow> False | Some i \<Rightarrow> identity_match (numeric_ip_equal w) pattern i)"

text \<open>\<open>(identity1 != NULL && f(identity1)) || (identity2 != NULL && f(identity2))\<close>.\<close>

definition either_identity :: "(string \<Rightarrow> bool) \<Rightarrow> string option \<Rightarrow> string option \<Rightarrow> bool" where
  "either_identity f i1 i2 \<longleftrightarrow> (case i1 of None \<Rightarrow> False | Some i \<Rightarrow> f i) \<or> (case i2 of None \<Rightarrow> False | Some i \<Rightarrow> f i)"

definition has_wildcard :: "string \<Rightarrow> bool" where
  "has_wildcard m \<longleftrightarrow> CHR ''*'' \<in> set m \<or> CHR ''?'' \<in> set m"

definition ban_record_matches :: "world \<Rightarrow> ban_row \<Rightarrow> string option \<Rightarrow> string option \<Rightarrow> bool" where
  "ban_record_matches w r i1 i2 =
     (if bn_type r = BAN_TYPE_ZLINE \<and> CHR ''/'' \<in> set (bn_mask r) then either_identity (cidr_match w (bn_mask r)) i1 i2
      else if bn_type r = BAN_TYPE_ZLINE \<and> \<not> has_wildcard (bn_mask r)
      then either_identity (numeric_ip_equal w (bn_mask r)) i1 i2
      else either_identity (wildcard_match (bn_mask r)) i1 i2)"

definition ban_exception_record_matches :: "world \<Rightarrow> ban_row \<Rightarrow> string option \<Rightarrow> string option \<Rightarrow> bool" where
  "ban_exception_record_matches w r i1 i2 =
     (if CHR ''/'' \<in> set (bn_mask r)
      then cidr_identity_match w (bn_mask r) i1 \<or> cidr_identity_match w (bn_mask r) i2
      else if \<not> has_wildcard (bn_mask r) \<and> exact_ip_identity_equal w (bn_mask r) i1 then True
      else if \<not> has_wildcard (bn_mask r) \<and> exact_ip_identity_equal w (bn_mask r) i2 then True
      else either_identity (wildcard_match (bn_mask r)) i1 i2)"

subsection \<open>The tables\<close>

definition stored_text_ok :: "nat \<Rightarrow> string \<Rightarrow> bool" where
  "stored_text_ok maximum x \<longleftrightarrow> length x \<le> maximum \<and> CHR 0x00 \<notin> set x \<and> CR \<notin> set x \<and> LF \<notin> set x"

text \<open>\<open>record_from_stmt\<close> and \<open>exception_from_stmt\<close>: they differ in the test of the type.\<close>

definition record_from_stmt :: "(int \<Rightarrow> bool) \<Rightarrow> ban_row \<Rightarrow> ban_row option" where
  "record_from_stmt type_ok r =
     (let type = to_int32 (bn_type r)
      in if \<not> type_ok type \<or> \<not> stored_text_ok IRC_CHANNEL_MASK_MAX (bn_mask r) \<or> bn_mask r = [] \<or>
            \<not> stored_text_ok IRC_QUIT_REASON_MAX (bn_reason r) \<or> \<not> stored_text_ok IRCD_OPER_NAME_MAX (bn_set_by r)
         then None else Some (r\<lparr>bn_type := type\<rparr>))"

definition live_row :: "int \<Rightarrow> ban_row \<Rightarrow> bool" where
  "live_row now r \<longleftrightarrow> bn_expires_at r = 0 \<or> bn_expires_at r > now"

definition purge_rows :: "int \<Rightarrow> ban_row list \<Rightarrow> ban_row list" where
  "purge_rows now = filter (\<lambda>r. \<not> (bn_expires_at r > 0 \<and> bn_expires_at r \<le> now))"

definition ban_db_purge_expired :: "int \<Rightarrow> ban_row list \<times> ban_row list \<Rightarrow> ban_row list \<times> ban_row list" where
  "ban_db_purge_expired now db = (purge_rows now (fst db), purge_rows now (snd db))"

text \<open>The statics \<open>ban_last_purge\<close> and \<open>ban_last_purge_path\<close>.\<close>

type_synonym purge_state = "int \<times> string"

definition purge_expired_due ::
  "int \<Rightarrow> string \<Rightarrow> purge_state \<Rightarrow> ban_row list \<times> ban_row list \<Rightarrow> purge_state \<times> ban_row list \<times> ban_row list" where
  "purge_expired_due now path st db =
     (if fst st \<noteq> 0 \<and> now \<ge> fst st \<and> now - fst st < BAN_PURGE_INTERVAL_SECONDS \<and> snd st = path then (st, db)
      else ((now, take IRCD_CONFIG_PATH_MAX path), ban_db_purge_expired now db))"

definition ban_db_reset_runtime_state :: purge_state where
  "ban_db_reset_runtime_state = (0, [])"

text \<open>The directory \<open>ensure_parent_directory\<close> creates, if any.\<close>

definition ensure_parent_directory :: "string \<Rightarrow> string option option" where
  "ensure_parent_directory path =
     (let parent = rev (drop 1 (dropWhile (\<lambda>c. c \<noteq> CHR ''/'') (rev path)))
      in if path = [] \<or> length path \<ge> IRCD_CONFIG_PATH_MAX + 1 then None
         else if CHR ''/'' \<notin> set path \<or> parent = [] then Some None
         else Some (Some parent))"

definition same_key :: "int \<Rightarrow> string \<Rightarrow> ban_row \<Rightarrow> bool" where
  "same_key type m r \<longleftrightarrow> bn_type r = type \<and> strcaseeq (bn_mask r) m"

definition key_text_ok :: "string \<Rightarrow> bool" where
  "key_text_ok m \<longleftrightarrow> m \<noteq> [] \<and> length m \<le> IRC_CHANNEL_MASK_MAX \<and> \<not> has_line_break m"

definition note_text_ok :: "nat \<Rightarrow> string option \<Rightarrow> bool" where
  "note_text_ok maximum x = (case x of None \<Rightarrow> True | Some t \<Rightarrow> length t \<le> maximum \<and> \<not> has_line_break t)"

abbreviation text_or_empty :: "string option \<Rightarrow> string" where
  "text_or_empty x \<equiv> (case x of None \<Rightarrow> [] | Some t \<Rightarrow> t)"

definition new_row :: "int \<Rightarrow> int \<Rightarrow> string \<Rightarrow> string option \<Rightarrow> string option \<Rightarrow> nat \<Rightarrow> ban_row" where
  "new_row now type m reason set_by duration_seconds =
     \<lparr>bn_type = type, bn_mask = m, bn_reason = text_or_empty reason, bn_set_by = text_or_empty set_by, bn_created_at = now,
      bn_expires_at = (if duration_seconds = 0 then 0 else now + int duration_seconds)\<rparr>"

text \<open>\<open>ban_db_add_internal\<close> and \<open>ban_exception_db_add_internal\<close>.\<close>

definition add_internal ::
  "(int \<Rightarrow> bool) \<Rightarrow> int \<Rightarrow> int \<Rightarrow> string \<Rightarrow> string option \<Rightarrow> string option \<Rightarrow> nat \<Rightarrow> ban_row list \<Rightarrow> ban_row list option" where
  "add_internal type_ok now type m reason set_by duration_seconds rows =
     (if \<not> type_ok type \<or> \<not> key_text_ok m \<or> \<not> note_text_ok IRC_QUIT_REASON_MAX reason \<or> \<not> note_text_ok IRCD_OPER_NAME_MAX set_by
      then None
      else Some (filter (\<lambda>r. \<not> same_key type m r) rows @ [new_row now type m reason set_by duration_seconds]))"

definition ban_db_add ::
  "int \<Rightarrow> int \<Rightarrow> string \<Rightarrow> string option \<Rightarrow> string option \<Rightarrow> ban_row list \<Rightarrow> ban_row list option" where
  "ban_db_add now type m reason set_by = add_internal valid_type now type m reason set_by 0"

definition ban_db_add_timed ::
  "int \<Rightarrow> int \<Rightarrow> string \<Rightarrow> string option \<Rightarrow> string option \<Rightarrow> nat \<Rightarrow> ban_row list \<Rightarrow> ban_row list option" where
  "ban_db_add_timed now type m reason set_by duration_seconds rows =
     (if duration_seconds = 0 then None else add_internal valid_type now type m reason set_by duration_seconds rows)"

definition ban_exception_db_add ::
  "int \<Rightarrow> int \<Rightarrow> string \<Rightarrow> string option \<Rightarrow> string option \<Rightarrow> ban_row list \<Rightarrow> ban_row list option" where
  "ban_exception_db_add now type m reason set_by = add_internal valid_exception_type now type m reason set_by 0"

definition ban_exception_db_add_timed ::
  "int \<Rightarrow> int \<Rightarrow> string \<Rightarrow> string option \<Rightarrow> string option \<Rightarrow> nat \<Rightarrow> ban_row list \<Rightarrow> ban_row list option" where
  "ban_exception_db_add_timed now type m reason set_by duration_seconds rows =
     (if duration_seconds = 0 then None else add_internal valid_exception_type now type m reason set_by duration_seconds rows)"

text \<open>\<open>rc == SQLITE_DONE && sqlite3_changes(db->handle) > 0\<close>.\<close>

definition delete_rows :: "(ban_row \<Rightarrow> bool) \<Rightarrow> ban_row list \<Rightarrow> ban_row list option" where
  "delete_rows P rows = (if list_ex P rows then Some (filter (\<lambda>r. \<not> P r) rows) else None)"

definition ban_db_delete :: "int \<Rightarrow> string \<Rightarrow> ban_row list \<Rightarrow> ban_row list option" where
  "ban_db_delete type m rows =
     (if \<not> valid_type type \<or> \<not> key_text_ok m then None else delete_rows (same_key type m) rows)"

definition ban_exception_db_delete :: "int \<Rightarrow> string \<Rightarrow> ban_row list \<Rightarrow> ban_row list option" where
  "ban_exception_db_delete type m rows =
     (if \<not> valid_exception_type type \<or> \<not> key_text_ok m then None else delete_rows (same_key type m) rows)"

definition ban_exception_db_delete_mask :: "string \<Rightarrow> ban_row list \<Rightarrow> ban_row list option" where
  "ban_exception_db_delete_mask m rows =
     (if \<not> key_text_ok m then None else delete_rows (\<lambda>r. strcaseeq (bn_mask r) m) rows)"

text \<open>The loops over \<open>sqlite3_step\<close>.  \<open>Some None\<close> is the answer 0, \<open>Some (Some r)\<close> the answer 1 with the record.\<close>

fun match_rows ::
  "(ban_row \<Rightarrow> ban_row option) \<Rightarrow> int \<Rightarrow> (ban_row \<Rightarrow> bool) \<Rightarrow> ban_row list \<Rightarrow> ban_row option option" where
  "match_rows from_stmt type matches [] = Some None"
| "match_rows from_stmt type matches (row # rows) =
     (case from_stmt row of
        None \<Rightarrow> None
      | Some candidate \<Rightarrow>
          if bn_type candidate \<noteq> type then None
          else if matches candidate then Some (Some candidate)
          else match_rows from_stmt type matches rows)"

definition ban_db_match ::
  "world \<Rightarrow> int \<Rightarrow> int \<Rightarrow> string option \<Rightarrow> string option \<Rightarrow> ban_row list \<Rightarrow> ban_row option option" where
  "ban_db_match w now type i1 i2 rows =
     (if \<not> valid_type type then None
      else match_rows (record_from_stmt valid_type) type (\<lambda>r. ban_record_matches w r i1 i2)
             (filter (\<lambda>r. bn_type r = type \<and> live_row now r) rows))"

definition ban_exception_db_match ::
  "world \<Rightarrow> int \<Rightarrow> int \<Rightarrow> string option \<Rightarrow> string option \<Rightarrow> ban_row list \<Rightarrow> ban_row option option" where
  "ban_exception_db_match w now type i1 i2 rows =
     (if \<not> valid_exception_type type then None
      else match_rows (record_from_stmt valid_exception_type) type (\<lambda>r. ban_exception_record_matches w r i1 i2)
             (filter (\<lambda>r. bn_type r = type \<and> live_row now r) rows))"

text \<open>\<open>COLLATE NOCASE\<close> and \<open>ORDER BY\<close>; the callback stops the loop by a non-zero answer.\<close>

fun nocase_le :: "string \<Rightarrow> string \<Rightarrow> bool" where
  "nocase_le [] _ = True"
| "nocase_le (_ # _) [] = False"
| "nocase_le (a # as) (b # bs) =
     (if ascii_lower a = ascii_lower b then nocase_le as bs else code (ascii_lower a) < code (ascii_lower b))"

fun insert_row :: "('r \<Rightarrow> 'r \<Rightarrow> bool) \<Rightarrow> 'r \<Rightarrow> 'r list \<Rightarrow> 'r list" where
  "insert_row le r [] = [r]"
| "insert_row le r (x # xs) = (if le r x then r # x # xs else x # insert_row le r xs)"

definition order_rows :: "('r \<Rightarrow> 'r \<Rightarrow> bool) \<Rightarrow> 'r list \<Rightarrow> 'r list" where
  "order_rows le rows = foldr (insert_row le) rows []"

definition created_le :: "ban_row \<Rightarrow> ban_row \<Rightarrow> bool" where
  "created_le a b \<longleftrightarrow> bn_created_at a < bn_created_at b \<or>
     (bn_created_at a = bn_created_at b \<and> nocase_le (bn_mask a) (bn_mask b))"

definition type_created_le :: "ban_row \<Rightarrow> ban_row \<Rightarrow> bool" where
  "type_created_le a b \<longleftrightarrow> bn_type a < bn_type b \<or> (bn_type a = bn_type b \<and> created_le a b)"

fun list_rows ::
  "(ban_row \<Rightarrow> ban_row option) \<Rightarrow> (ban_row \<Rightarrow> 'c \<Rightarrow> bool \<times> 'c) \<Rightarrow> ban_row list \<Rightarrow> 'c \<Rightarrow> bool \<times> 'c" where
  "list_rows from_stmt callback [] context = (True, context)"
| "list_rows from_stmt callback (row # rows) context =
     (case from_stmt row of
        None \<Rightarrow> (False, context)
      | Some record \<Rightarrow>
          (let (stop, context1) = callback record context
           in if stop then (True, context1) else list_rows from_stmt callback rows context1))"

definition ban_db_list ::
  "int \<Rightarrow> int \<Rightarrow> (ban_row \<Rightarrow> 'c \<Rightarrow> bool \<times> 'c) \<Rightarrow> ban_row list \<Rightarrow> 'c \<Rightarrow> bool \<times> 'c" where
  "ban_db_list now type callback rows context =
     (if \<not> valid_type type then (False, context)
      else list_rows (\<lambda>r. Option.bind (record_from_stmt valid_type r) (\<lambda>x. if bn_type x = type then Some x else None)) callback
             (order_rows created_le (filter (\<lambda>r. bn_type r = type \<and> live_row now r) rows)) context)"

definition ban_exception_db_list ::
  "int \<Rightarrow> int \<Rightarrow> (ban_row \<Rightarrow> 'c \<Rightarrow> bool \<times> 'c) \<Rightarrow> ban_row list \<Rightarrow> 'c \<Rightarrow> bool \<times> 'c" where
  "ban_exception_db_list now type callback rows context =
     (if \<not> valid_exception_type type then (False, context)
      else list_rows (\<lambda>r. Option.bind (record_from_stmt valid_exception_type r) (\<lambda>x. if bn_type x = type then Some x else None)) callback
             (order_rows created_le (filter (\<lambda>r. bn_type r = type \<and> live_row now r) rows)) context)"

definition ban_exception_db_list_all ::
  "int \<Rightarrow> (ban_row \<Rightarrow> 'c \<Rightarrow> bool \<times> 'c) \<Rightarrow> ban_row list \<Rightarrow> 'c \<Rightarrow> bool \<times> 'c" where
  "ban_exception_db_list_all now callback rows context =
     list_rows (record_from_stmt valid_exception_type) callback (order_rows type_created_le (filter (live_row now) rows)) context"

subsection \<open>A CIDR range is a set of addresses with a common bit prefix\<close>

definition byte_bits :: "char \<Rightarrow> bool list" where
  "byte_bits c = map (bit (byte c)) (rev [0..<8])"

definition address_bits :: "string \<Rightarrow> bool list" where
  "address_bits x = concat (map byte_bits x)"

lemma byte_bits_length [simp]: "length (byte_bits c) = 8"
  by (simp add: byte_bits_def)

lemma address_bits_Cons: "address_bits (c # cs) = byte_bits c @ address_bits cs"
  by (simp add: address_bits_def)

lemma byte_inj: "byte a = byte b \<longleftrightarrow> a = b"
proof
  assume "byte a = byte b"
  then have "unat (byte a) = unat (byte b)" by simp
  moreover have "unat (byte c) = code c" for c
    by (simp add: byte_def unat_of_nat)
  ultimately show "a = b" by simp
qed simp

lemma byte_bits_inj: "byte_bits a = byte_bits b \<longleftrightarrow> a = b"
proof
  assume "byte_bits a = byte_bits b"
  then have "\<forall>i<8. bit (byte a) i = bit (byte b) i" by (simp add: byte_bits_def)
  then have "byte a = byte b" by (intro bit_eqI) simp
  then show "a = b" by (simp add: byte_inj)
qed simp

lemma masked_byte_eq:
  assumes "k < 8"
  shows "byte a AND push_bit (8 - k) 0xFF = byte b AND push_bit (8 - k) 0xFF \<longleftrightarrow>
    take k (byte_bits a) = take k (byte_bits b)"
proof -
  have ff: "(0xFF :: 8 word) = mask 8" by (simp add: mask_eq_exp_minus_1)
  have m: "bit (push_bit (8 - k) (0xFF :: 8 word)) i \<longleftrightarrow> 8 - k \<le> i \<and> i < 8" for i
    unfolding ff bit_push_bit_iff bit_mask_iff by (simp del: mask_numeral) linarith
  have "byte a AND push_bit (8 - k) 0xFF = byte b AND push_bit (8 - k) 0xFF \<longleftrightarrow>
      (\<forall>i. 8 - k \<le> i \<and> i < 8 \<longrightarrow> bit (byte a) i = bit (byte b) i)"
    by (auto simp: bit_eq_iff bit_and_iff m)
  also have "\<dots> \<longleftrightarrow> (\<forall>j<k. bit (byte a) (7 - j) = bit (byte b) (7 - j))"
  proof
    assume *: "\<forall>j<k. bit (byte a) (7 - j) = bit (byte b) (7 - j)"
    show "\<forall>i. 8 - k \<le> i \<and> i < 8 \<longrightarrow> bit (byte a) i = bit (byte b) i"
    proof (intro allI impI)
      fix i assume "8 - k \<le> i \<and> i < 8"
      moreover from this have "7 - i < k" using assms by linarith
      ultimately show "bit (byte a) i = bit (byte b) i" using * [rule_format, of "7 - i"] by simp
    qed
  next
    assume *: "\<forall>i. 8 - k \<le> i \<and> i < 8 \<longrightarrow> bit (byte a) i = bit (byte b) i"
    show "\<forall>j<k. bit (byte a) (7 - j) = bit (byte b) (7 - j)"
    proof (intro allI impI)
      fix j assume "j < k"
      then have "8 - k \<le> 7 - j \<and> 7 - j < 8" using assms by linarith
      then show "bit (byte a) (7 - j) = bit (byte b) (7 - j)" using * by blast
    qed
  qed
  also have "\<dots> \<longleftrightarrow> take k (byte_bits a) = take k (byte_bits b)"
    using assms by (auto simp: list_eq_iff_nth_eq byte_bits_def rev_nth)
  finally show ?thesis .
qed

lemma prefix_equal_bits:
  assumes "length network = length candidate" "prefix \<le> 8 * length network"
  shows "prefix_equal prefix network candidate \<longleftrightarrow>
    take prefix (address_bits network) = take prefix (address_bits candidate)"
  using assms
proof (induction network candidate arbitrary: prefix rule: list_induct2)
  case (Cons a n b c)
  show ?case
  proof (cases "prefix < 8")
    case True
    then show ?thesis
      using masked_byte_eq [OF True, of a b]
      by (cases "prefix = 0") (simp_all add: prefix_equal_def address_bits_Cons)
  next
    case False
    then obtain k where k: "prefix = 8 + k" by (metis le_add_diff_inverse not_less)
    then have "(8 + k) div 8 = Suc (k div 8)" "(8 + k) mod 8 = k mod 8" by simp_all
    then have "prefix_equal prefix (a # n) (b # c) \<longleftrightarrow> a = b \<and> prefix_equal k n c"
      by (simp add: prefix_equal_def k Let_def)
    then show ?thesis
      using Cons.IH [of k] Cons.prems k by (simp add: address_bits_Cons byte_bits_inj)
  qed
qed (simp add: prefix_equal_def)

lemma strtoul_dec: "strtoul (dec n) = (if n < 2 ^ 64 then (n, False, []) else (2 ^ 64 - 1, True, []))"
proof -
  have d: "\<And>c. c \<in> set (dec n) \<Longrightarrow> isdigit c" by (rule dec_digits)
  have ne: "dec n \<noteq> []" by (simp add: dec.simps [of n])
  then obtain c r where cr: "dec n = c # r" by (cases "dec n") auto
  then have "isdigit c" using d by simp
  then have c: "\<not> isspace c" "c \<noteq> CHR ''-''" "c \<noteq> CHR ''+''" by (auto simp: isdigit_def isspace_def)
  have "takeWhile isdigit (dec n) = dec n" "dropWhile isdigit (dec n) = []"
    using d by (simp_all add: takeWhile_eq_all_conv dropWhile_eq_Nil_conv)
  moreover have "dropWhile isspace (dec n) = dec n" using cr c by simp
  moreover have "(case dec n of c # _ \<Rightarrow> c = CHR ''-'' | [] \<Rightarrow> False) = False"
    "(case dec n of c # r \<Rightarrow> if c = CHR ''-'' \<or> c = CHR ''+'' then r else dec n | [] \<Rightarrow> dec n) = dec n"
    using cr c by simp_all
  ultimately show ?thesis
    unfolding strtoul_def Let_def using ne by (simp only: digit_value_dec if_False) auto
qed

text \<open>
  C22: a CIDR Z-line covers exactly the addresses that share its leading bits.  The byte-wise comparison of \<open>cidr_match\<close>
  on a range \<open>network/prefix\<close> accepts an address exactly when both texts parse in the same family, the prefix is no longer than the
  address, and the first \<open>prefix\<close> bits of both addresses, most significant first, are the same.
\<close>

theorem cidr_match_prefix_bits:
  assumes "\<And>x a. w_pton4 w x = Some a \<Longrightarrow> length a = 4" "\<And>x a. w_pton6 w x = Some a \<Longrightarrow> length a = 16"
    and "n \<noteq> []" "CHR ''/'' \<notin> set n" "length n \<le> IRC_IP_MAX"
  shows "cidr_match w (n @ ''/'' @ dec prefix) address \<longleftrightarrow>
    (\<exists>a b. (w_pton4 w n = Some a \<and> w_pton4 w address = Some b \<or>
            w_pton4 w n = None \<and> w_pton6 w n = Some a \<and> w_pton6 w address = Some b) \<and>
       prefix \<le> 8 * length a \<and> take prefix (address_bits a) = take prefix (address_bits b))"
proof -
  have net: "takeWhile (\<lambda>c. c \<noteq> CHR ''/'') (n @ ''/'' @ dec prefix) = n"
    using assms(4) by (subst takeWhile_append2) auto
  have digits: "CHR ''/'' \<notin> set (dec prefix)" "dec prefix \<noteq> []"
    using dec_digits [of "CHR ''/''" prefix] by (auto simp: isdigit_def dec.simps [of prefix])
  have drop: "drop (Suc (length n)) (n @ ''/'' @ dec prefix) = dec prefix" by simp
  have within: "(prefix \<le> m \<and> prefix_equal prefix a b) \<longleftrightarrow>
      (prefix \<le> m \<and> take prefix (address_bits a) = take prefix (address_bits b))"
    if "length a = length b" "m = 8 * length a" for a b m
    using prefix_equal_bits [OF that(1)] that(2) by blast
  show ?thesis
  proof (cases "prefix < 2 ^ 64")
    case True
    have "cidr_match w (n @ ''/'' @ dec prefix) address \<longleftrightarrow>
        (case w_pton4 w n of
           Some a \<Rightarrow> (case w_pton4 w address of None \<Rightarrow> False | Some b \<Rightarrow> prefix \<le> 32 \<and> prefix_equal prefix a b)
         | None \<Rightarrow>
             (case w_pton6 w n of
                Some a \<Rightarrow> (case w_pton6 w address of None \<Rightarrow> False | Some b \<Rightarrow> prefix \<le> 128 \<and> prefix_equal prefix a b)
              | None \<Rightarrow> False))"
      using digits assms(3-5) True unfolding cidr_match_def net drop strtoul_dec Let_def by simp
    then show ?thesis
    proof (cases "w_pton4 w n")
      case None
      with \<open>cidr_match _ _ _ = _\<close> show ?thesis
        by (cases "w_pton6 w n"; cases "w_pton6 w address") (simp_all add: assms(2) within)
    next
      case (Some a)
      with \<open>cidr_match _ _ _ = _\<close> show ?thesis
        by (cases "w_pton4 w address") (simp_all add: assms(1) within)
    qed
  next
    case False
    then have "\<not> prefix \<le> 8 * length a" if "length a = 4 \<or> length a = 16" for a :: string
      using that by auto
    moreover have "\<not> cidr_match w (n @ ''/'' @ dec prefix) address"
      using False unfolding cidr_match_def net drop strtoul_dec Let_def by simp
    ultimately show ?thesis using assms(1,2) by blast
  qed
qed

theorem cidr_match_prefix_bits_witness:
  "cidr_match (world_blank\<lparr>w_pton4 := [''10.0.0.0'' \<mapsto> [CHR 0x0A, CHR 0x00, CHR 0x00, CHR 0x00],
     ''10.1.2.3'' \<mapsto> [CHR 0x0A, CHR 0x01, CHR 0x02, CHR 0x03]]\<rparr>) (''10.0.0.0'' @ ''/'' @ dec 8) ''10.1.2.3''"
proof -
  let ?w = "world_blank\<lparr>w_pton4 := [''10.0.0.0'' \<mapsto> [CHR 0x0A, CHR 0x00, CHR 0x00, CHR 0x00],
     ''10.1.2.3'' \<mapsto> [CHR 0x0A, CHR 0x01, CHR 0x02, CHR 0x03]]\<rparr>"
  have four: "length a = 4" if "w_pton4 ?w x = Some a" for x a using that by (auto split: if_splits)
  have six: "length a = 16" if "w_pton6 ?w x = Some a" for x a using that by (simp add: world_blank_def)
  show ?thesis
    by (subst cidr_match_prefix_bits [OF four six]) (simp_all add: address_bits_Cons)
qed

subsection \<open>The tables refine a map\<close>

text \<open>
  The abstract table: at most one row per type and mask, masks compared without case.  Every row of a well-formed table
  can be read back.
\<close>

definition row_key :: "ban_row \<Rightarrow> int \<times> string" where
  "row_key r = (bn_type r, map ascii_lower (bn_mask r))"

definition ban_table :: "ban_row list \<Rightarrow> int \<times> string \<rightharpoonup> ban_row" where
  "ban_table rows = map_of (map (\<lambda>r. (row_key r, r)) rows)"

definition ban_table_wf :: "(int \<Rightarrow> bool) \<Rightarrow> ban_row list \<Rightarrow> bool" where
  "ban_table_wf type_ok rows \<longleftrightarrow> distinct (map row_key rows) \<and> (\<forall>r\<in>set rows. record_from_stmt type_ok r = Some r)"

lemma same_key_iff: "same_key type m r \<longleftrightarrow> row_key r = (type, map ascii_lower m)"
  by (auto simp: same_key_def row_key_def strcaseeq_def)

lemma ban_table_iff:
  "distinct (map row_key rows) \<Longrightarrow> ban_table rows k = Some r \<longleftrightarrow> r \<in> set rows \<and> row_key r = k"
  by (auto simp: ban_table_def o_def)

lemma ban_table_None: "ban_table rows k = None \<longleftrightarrow> k \<notin> row_key ` set rows"
  by (simp add: ban_table_def map_of_eq_None_iff image_image)

lemma ban_table_filter_key:
  "distinct (map row_key rows) \<Longrightarrow> ban_table (filter (\<lambda>r. row_key r \<noteq> k) rows) = (ban_table rows)(k := None)"
  by (induction rows) (auto simp: ban_table_def fun_eq_iff)

lemma ban_table_snoc: "row_key r \<notin> row_key ` set rows \<Longrightarrow> ban_table (rows @ [r]) = (ban_table rows)(row_key r \<mapsto> r)"
  by (induction rows) (auto simp: ban_table_def)

lemma wf_filter: "ban_table_wf ok rows \<Longrightarrow> ban_table_wf ok (filter P rows)"
  by (simp add: ban_table_wf_def distinct_map_filter_key)

lemma new_row_readable:
  assumes "type_ok = valid_type \<or> type_ok = valid_exception_type" "type_ok type" "key_text_ok m"
    "note_text_ok IRC_QUIT_REASON_MAX reason" "note_text_ok IRCD_OPER_NAME_MAX set_by"
    "CHR 0x00 \<notin> set m" "CHR 0x00 \<notin> set (text_or_empty reason)" "CHR 0x00 \<notin> set (text_or_empty set_by)"
  shows "record_from_stmt type_ok (new_row now type m reason set_by d) = Some (new_row now type m reason set_by d)"
proof -
  have "to_int32 type = type"
    using assms(1,2) by (auto simp: valid_type_def valid_exception_type_def to_int32_def)
  then show ?thesis
    using assms(2-) by (auto simp: record_from_stmt_def new_row_def stored_text_ok_def key_text_ok_def note_text_ok_def
        has_line_break_def split: option.splits)
qed

lemma add_internal_table:
  assumes "ban_table_wf type_ok rows" "type_ok = valid_type \<or> type_ok = valid_exception_type"
    "CHR 0x00 \<notin> set m" "CHR 0x00 \<notin> set (text_or_empty reason)" "CHR 0x00 \<notin> set (text_or_empty set_by)"
    and add: "add_internal type_ok now type m reason set_by d rows = Some rows'"
  shows "ban_table_wf type_ok rows' \<and>
    ban_table rows' = (ban_table rows)((type, map ascii_lower m) \<mapsto> new_row now type m reason set_by d)"
proof -
  let ?k = "(type, map ascii_lower m)" and ?new = "new_row now type m reason set_by d"
  let ?kept = "filter (\<lambda>r. row_key r \<noteq> ?k) rows"
  have rows': "rows' = ?kept @ [?new]"
    and ok: "type_ok type" "key_text_ok m" "note_text_ok IRC_QUIT_REASON_MAX reason" "note_text_ok IRCD_OPER_NAME_MAX set_by"
    using add by (auto simp: add_internal_def same_key_iff split: if_splits)
  have key: "row_key ?new = ?k" "row_key ?new \<notin> row_key ` set ?kept" by (auto simp: row_key_def new_row_def)
  have "ban_table_wf type_ok rows'"
    using wf_filter [OF assms(1), of "\<lambda>r. row_key r \<noteq> ?k"] key new_row_readable [OF assms(2) ok assms(3-5)]
    by (auto simp: ban_table_wf_def rows')
  moreover have "ban_table rows' = (ban_table rows)(?k \<mapsto> ?new)"
    using ban_table_snoc [OF key(2)] ban_table_filter_key [of rows ?k] assms(1) key(1) by (simp add: ban_table_wf_def rows')
  ultimately show ?thesis by blast
qed

lemma delete_rows_table:
  assumes "ban_table_wf type_ok rows" "delete_rows (same_key type m) rows = Some rows'"
  shows "ban_table_wf type_ok rows' \<and> ban_table rows' = (ban_table rows)((type, map ascii_lower m) := None)"
  using assms ban_table_filter_key [of rows "(type, map ascii_lower m)"] wf_filter [OF assms(1)]
  by (auto simp: delete_rows_def same_key_iff ban_table_wf_def split: if_splits)

lemma purge_table_wf: "ban_table_wf type_ok rows \<Longrightarrow> ban_table_wf type_ok (purge_rows now rows)"
  by (simp add: purge_rows_def wf_filter)

text \<open>What a lookup looks for: a row of the type that has not expired and whose mask covers one of the two identities.\<close>

definition mask_covers :: "world \<Rightarrow> ban_row \<Rightarrow> string \<Rightarrow> bool" where
  "mask_covers w r x \<longleftrightarrow>
     (if bn_type r = BAN_TYPE_ZLINE \<and> CHR ''/'' \<in> set (bn_mask r) then cidr_match w (bn_mask r) x
      else if bn_type r = BAN_TYPE_ZLINE \<and> set (bn_mask r) \<inter> {CHR ''*'', CHR ''?''} = {} then numeric_ip_equal w (bn_mask r) x
      else glob ascii_lower (bn_mask r) x)"

definition ban_hit :: "world \<Rightarrow> int \<Rightarrow> int \<Rightarrow> string set \<Rightarrow> ban_row \<Rightarrow> bool" where
  "ban_hit w now type identities r \<longleftrightarrow>
     bn_type r = type \<and> (bn_expires_at r = 0 \<or> now < bn_expires_at r) \<and> (\<exists>x\<in>identities. mask_covers w r x)"

lemma either_identity_iff: "either_identity f i1 i2 \<longleftrightarrow> (\<exists>x\<in>set_option i1 \<union> set_option i2. f x)"
  by (auto simp: either_identity_def split: option.splits)

lemma record_matches_iff: "ban_record_matches w r i1 i2 \<longleftrightarrow> (\<exists>x\<in>set_option i1 \<union> set_option i2. mask_covers w r x)"
proof -
  have wild: "has_wildcard (bn_mask r) \<longleftrightarrow> set (bn_mask r) \<inter> {CHR ''*'', CHR ''?''} \<noteq> {}"
    by (auto simp: has_wildcard_def)
  show ?thesis
    unfolding ban_record_matches_def mask_covers_def either_identity_iff wild wildcard_match_def match_loop_glob by auto
qed

lemma match_rows_readable:
  assumes "\<forall>r\<in>set rows. from_stmt r = Some r \<and> bn_type r = type"
  shows "match_rows from_stmt type hits rows = Some (find hits rows)"
  using assms by (induction rows) auto

lemma ban_table_ran: "distinct (map row_key rows) \<Longrightarrow> ran (ban_table rows) = set rows"
  by (auto simp: ran_def ban_table_iff)

lemma find_result: "case find P xs of None \<Rightarrow> \<not> (\<exists>x. x \<in> set xs \<and> P x) | Some x \<Rightarrow> x \<in> set xs \<and> P x"
  by (induction xs) (auto split: option.splits)

lemma ban_db_match_table:
  assumes "ban_table_wf valid_type rows" "valid_type type"
  shows "case ban_db_match w now type i1 i2 rows of
       None \<Rightarrow> False
     | Some None \<Rightarrow> \<not> (\<exists>r\<in>ran (ban_table rows). ban_hit w now type (set_option i1 \<union> set_option i2) r)
     | Some (Some r) \<Rightarrow> ban_table rows (row_key r) = Some r \<and> ban_hit w now type (set_option i1 \<union> set_option i2) r"
proof -
  let ?live = "filter (\<lambda>r. bn_type r = type \<and> live_row now r) rows"
  have d: "distinct (map row_key rows)" using assms(1) by (simp add: ban_table_wf_def)
  have "ban_db_match w now type i1 i2 rows = Some (find (\<lambda>r. ban_record_matches w r i1 i2) ?live)"
    using assms match_rows_readable [of ?live "record_from_stmt valid_type" type] by (simp add: ban_db_match_def ban_table_wf_def)
  moreover have "r \<in> set ?live \<and> ban_record_matches w r i1 i2 \<longleftrightarrow> r \<in> set rows \<and> ban_hit w now type (set_option i1 \<union> set_option i2) r" for r
    unfolding record_matches_iff ban_hit_def live_row_def by auto
  ultimately show ?thesis
    using find_result [where P = "\<lambda>r. ban_record_matches w r i1 i2" and xs = ?live]
    by (auto simp: ban_table_ran [OF d] ban_table_iff [OF d] split: option.splits)
qed

lemma purge_table:
  assumes "ban_table_wf type_ok rows"
  shows "ban_table (purge_rows now rows) k =
    (case ban_table rows k of Some r \<Rightarrow> if 0 < bn_expires_at r \<and> bn_expires_at r \<le> now then None else Some r | None \<Rightarrow> None)"
proof -
  have d: "distinct (map row_key rows)" using assms by (simp add: ban_table_wf_def)
  then have purged: "distinct (map row_key (purge_rows now rows))" by (simp add: purge_rows_def distinct_map_filter_key)
  have iff: "ban_table (purge_rows now rows) k = Some r \<longleftrightarrow>
      ban_table rows k = Some r \<and> \<not> (0 < bn_expires_at r \<and> bn_expires_at r \<le> now)" for r
    unfolding ban_table_iff [OF purged] ban_table_iff [OF d] by (auto simp: purge_rows_def)
  show ?thesis
  proof (cases "ban_table rows k")
    case None
    then have "ban_table (purge_rows now rows) k = None" using iff by (metis not_None_eq option.distinct(1))
    with None show ?thesis by simp
  next
    case (Some r)
    then have "ban_table (purge_rows now rows) k = (if 0 < bn_expires_at r \<and> bn_expires_at r \<le> now then None else Some r)"
      using iff by (metis not_None_eq option.inject)
    with Some show ?thesis by simp
  qed
qed

text \<open>
  C18: the table of bans implements a map from type and mask, masks without regard to case.  On a table whose rows can all be read back, \<open>ban_db_add\<close> and \<open>ban_db_add_timed\<close>
  either refuse, for an invalid type or text or a zero duration, or replace exactly the entry of their type and mask; \<open>ban_db_delete\<close> fails exactly when
  the arguments are invalid or there is no such entry and removes it otherwise; \<open>ban_db_match\<close> never fails, answers an entry of the map that has the type, has not expired
  and covers one of the identities, and answers that there is none exactly when the map has none; and the purge removes exactly the expired entries and never changes
  what a lookup answers.
\<close>

theorem ban_table_refines_map:
  fixes type :: int and m :: string and reason set_by :: "string option"
  assumes wf: "ban_table_wf valid_type rows"
    and nul: "CHR 0x00 \<notin> set m" "CHR 0x00 \<notin> set (text_or_empty reason)" "CHR 0x00 \<notin> set (text_or_empty set_by)"
  defines "key \<equiv> (type, map ascii_lower m)"
  defines "texts_ok \<equiv> valid_type type \<and> key_text_ok m \<and> note_text_ok IRC_QUIT_REASON_MAX reason \<and> note_text_ok IRCD_OPER_NAME_MAX set_by"
  shows "(case ban_db_add now type m reason set_by rows of
       None \<Rightarrow> \<not> texts_ok
     | Some rows' \<Rightarrow> texts_ok \<and> ban_table_wf valid_type rows' \<and> ban_table rows' = (ban_table rows)(key \<mapsto> new_row now type m reason set_by 0)) \<and>
    (case ban_db_add_timed now type m reason set_by d rows of
       None \<Rightarrow> \<not> (texts_ok \<and> d > 0)
     | Some rows' \<Rightarrow> texts_ok \<and> d > 0 \<and> ban_table_wf valid_type rows' \<and> ban_table rows' = (ban_table rows)(key \<mapsto> new_row now type m reason set_by d)) \<and>
    (case ban_db_delete type m rows of
       None \<Rightarrow> \<not> (valid_type type \<and> key_text_ok m) \<or> ban_table rows key = None
     | Some rows' \<Rightarrow> ban_table rows key \<noteq> None \<and> ban_table_wf valid_type rows' \<and> ban_table rows' = (ban_table rows)(key := None)) \<and>
    (valid_type type \<longrightarrow>
      (case ban_db_match w now type i1 i2 rows of
         None \<Rightarrow> False
       | Some None \<Rightarrow> \<not> (\<exists>r\<in>ran (ban_table rows). ban_hit w now type (set_option i1 \<union> set_option i2) r)
       | Some (Some r) \<Rightarrow> ban_table rows (row_key r) = Some r \<and> ban_hit w now type (set_option i1 \<union> set_option i2) r)) \<and>
    (let rows' = fst (ban_db_purge_expired now (rows, excepts))
     in (\<forall>k. ban_table rows' k =
           (case ban_table rows k of Some r \<Rightarrow> if 0 < bn_expires_at r \<and> bn_expires_at r \<le> now then None else Some r | None \<Rightarrow> None)) \<and>
        ban_db_match w now type i1 i2 rows' = ban_db_match w now type i1 i2 rows)"
proof (intro conjI impI)
  have add: "case add_internal valid_type now type m reason set_by d rows of
       None \<Rightarrow> \<not> texts_ok
     | Some rows' \<Rightarrow> texts_ok \<and> ban_table_wf valid_type rows' \<and> ban_table rows' = (ban_table rows)(key \<mapsto> new_row now type m reason set_by d)" for d
  proof (cases "add_internal valid_type now type m reason set_by d rows")
    case None
    then show ?thesis by (auto simp: add_internal_def texts_ok_def split: if_splits)
  next
    case (Some rows')
    then have texts_ok by (auto simp: add_internal_def texts_ok_def split: if_splits)
    with Some add_internal_table [OF wf disjI1 [OF refl] nul Some] show ?thesis by (simp add: key_def)
  qed
  show "case ban_db_add now type m reason set_by rows of
       None \<Rightarrow> \<not> texts_ok
     | Some rows' \<Rightarrow> texts_ok \<and> ban_table_wf valid_type rows' \<and> ban_table rows' = (ban_table rows)(key \<mapsto> new_row now type m reason set_by 0)"
    using add [of 0] by (simp add: ban_db_add_def)
  show "case ban_db_add_timed now type m reason set_by d rows of
       None \<Rightarrow> \<not> (texts_ok \<and> d > 0)
     | Some rows' \<Rightarrow> texts_ok \<and> d > 0 \<and> ban_table_wf valid_type rows' \<and> ban_table rows' = (ban_table rows)(key \<mapsto> new_row now type m reason set_by d)"
    using add [of d] by (auto simp: ban_db_add_timed_def split: option.splits)
  show "case ban_db_delete type m rows of
       None \<Rightarrow> \<not> (valid_type type \<and> key_text_ok m) \<or> ban_table rows key = None
     | Some rows' \<Rightarrow> ban_table rows key \<noteq> None \<and> ban_table_wf valid_type rows' \<and> ban_table rows' = (ban_table rows)(key := None)"
  proof -
    have present: "list_ex (same_key type m) rows \<longleftrightarrow> ban_table rows key \<noteq> None"
      by (simp only: ban_table_None) (auto simp: list_ex_iff same_key_iff key_def intro: rev_image_eqI)
    show ?thesis
    proof (cases "delete_rows (same_key type m) rows")
      case None
      then have "ban_table rows key = None" using present by (simp add: delete_rows_def split: if_splits)
      with None show ?thesis by (simp add: ban_db_delete_def)
    next
      case (Some rows')
      then have "ban_table rows key \<noteq> None" using present by (simp add: delete_rows_def split: if_splits)
      with Some delete_rows_table [OF wf Some] show ?thesis by (simp add: ban_db_delete_def key_def)
    qed
  qed
  show "case ban_db_match w now type i1 i2 rows of
         None \<Rightarrow> False
       | Some None \<Rightarrow> \<not> (\<exists>r\<in>ran (ban_table rows). ban_hit w now type (set_option i1 \<union> set_option i2) r)
       | Some (Some r) \<Rightarrow> ban_table rows (row_key r) = Some r \<and> ban_hit w now type (set_option i1 \<union> set_option i2) r" if "valid_type type"
    by (rule ban_db_match_table [OF wf that])
  have "filter (\<lambda>r. bn_type r = type \<and> live_row now r) (purge_rows now rows) =
      filter (\<lambda>r. bn_type r = type \<and> live_row now r) rows"
    by (auto simp: purge_rows_def live_row_def intro!: filter_cong)
  then show "let rows' = fst (ban_db_purge_expired now (rows, excepts))
     in (\<forall>k. ban_table rows' k =
           (case ban_table rows k of Some r \<Rightarrow> if 0 < bn_expires_at r \<and> bn_expires_at r \<le> now then None else Some r | None \<Rightarrow> None)) \<and>
        ban_db_match w now type i1 i2 rows' = ban_db_match w now type i1 i2 rows"
    using purge_table [OF wf] by (simp add: ban_db_purge_expired_def ban_db_match_def Let_def)
qed

theorem ban_table_refines_map_witness:
  "(case ban_db_add_timed 100 BAN_TYPE_KLINE ''*@Bad'' None None 60 [new_row 0 BAN_TYPE_KLINE ''*@bad'' None None 0] of
      None \<Rightarrow> False
    | Some rows \<Rightarrow> ban_table rows = [(BAN_TYPE_KLINE, ''*@bad'') \<mapsto> new_row 100 BAN_TYPE_KLINE ''*@Bad'' None None 60])"
proof -
  let ?rows = "[new_row 0 BAN_TYPE_KLINE ''*@bad'' None None 0]"
  have wf: "ban_table_wf valid_type ?rows"
    using new_row_readable [of valid_type BAN_TYPE_KLINE "''*@bad''" None None 0 0]
    by (simp add: ban_table_wf_def valid_type_def key_text_ok_def note_text_ok_def has_line_break_def)
  have lower: "map ascii_lower ''*@Bad'' = ''*@bad''" "map ascii_lower ''*@bad'' = ''*@bad''" by code_simp+
  have "ban_db_add_timed 100 BAN_TYPE_KLINE ''*@Bad'' None None 60 ?rows \<noteq> None"
    by (simp add: ban_db_add_timed_def add_internal_def valid_type_def key_text_ok_def note_text_ok_def has_line_break_def)
  moreover have "ban_table ?rows = [(BAN_TYPE_KLINE, ''*@bad'') \<mapsto> new_row 0 BAN_TYPE_KLINE ''*@bad'' None None 0]"
    using lower(2) by (simp add: ban_table_def row_key_def new_row_def)
  ultimately show ?thesis
    using ban_table_refines_map [OF wf, where m = "''*@Bad''" and reason = None and set_by = None and
        now = 100 and type = BAN_TYPE_KLINE and d = 60] lower(1)
    by (auto split: option.splits)
qed

end
