(* ===== verification/Geoban_Store.thy ===== *)
theory Geoban_Store
  imports Ban_Store
begin

section \<open>Bans by country, region, network and organisation (src/geoban\_db.c)\<close>

text \<open>
  The table \<open>geo_bans\<close> as a list of rows, as in theory \<open>Ban_Store\<close>; its queries are ordered.  The matcher of
  organisation names is recursive, with character classes and escapes.
\<close>

abbreviation GEOBAN_COUNTRY :: int where "GEOBAN_COUNTRY \<equiv> 1"
abbreviation GEOBAN_REGION :: int where "GEOBAN_REGION \<equiv> 2"
abbreviation GEOBAN_ASN :: int where "GEOBAN_ASN \<equiv> 3"
abbreviation GEOBAN_ORG :: int where "GEOBAN_ORG \<equiv> 4"
abbreviation GEOBAN_PURGE_INTERVAL_SECONDS :: int where "GEOBAN_PURGE_INTERVAL_SECONDS \<equiv> 300"
abbreviation IRCD_GEOIP_ORG_MAX :: nat where "IRCD_GEOIP_ORG_MAX \<equiv> 255"
abbreviation IRCD_BAN_DURATION_HARD_MAX_SECONDS :: nat where "IRCD_BAN_DURATION_HARD_MAX_SECONDS \<equiv> 31536000"

definition valid_geoban_type :: "int \<Rightarrow> bool" where
  "valid_geoban_type type \<longleftrightarrow> type = GEOBAN_COUNTRY \<or> type = GEOBAN_REGION \<or> type = GEOBAN_ASN \<or> type = GEOBAN_ORG"

definition text_fits :: "string \<Rightarrow> nat \<Rightarrow> bool \<Rightarrow> bool" where
  "text_fits x maximum allow_empty \<longleftrightarrow> length x \<le> maximum \<and> \<not> has_line_break x \<and> (allow_empty \<or> x \<noteq> [])"

subsection \<open>The values\<close>

definition geoban_type_name :: "int \<Rightarrow> string" where
  "geoban_type_name type =
     (if type = GEOBAN_COUNTRY then ''COUNTRY'' else if type = GEOBAN_REGION then ''REGION''
      else if type = GEOBAN_ASN then ''ASN'' else if type = GEOBAN_ORG then ''ORG'' else ''UNKNOWN'')"

definition geoban_type_parse :: "string \<Rightarrow> int option" where
  "geoban_type_parse x =
     (if strcaseeq x ''COUNTRY'' then Some GEOBAN_COUNTRY else if strcaseeq x ''REGION'' then Some GEOBAN_REGION
      else if strcaseeq x ''ASN'' then Some GEOBAN_ASN else if strcaseeq x ''ORG'' then Some GEOBAN_ORG else None)"

definition ascii_upper :: "char \<Rightarrow> char" where
  "ascii_upper c = (if 97 \<le> code c \<and> code c \<le> 122 then char_of (code c - 32) else c)"

definition geoban_normalize_value :: "int \<Rightarrow> string \<Rightarrow> nat \<Rightarrow> string option" where
  "geoban_normalize_value type input output_size =
     (if output_size = 0 \<or> input = [] \<or> has_line_break input then None
      else if type = GEOBAN_COUNTRY \<or> type = GEOBAN_REGION
      then if length input \<ge> output_size \<or> (type = GEOBAN_COUNTRY \<and> length input \<noteq> 2) then None
           else Some (map ascii_upper input)
      else if type = GEOBAN_ASN
      then let number = (if length input \<ge> 2 \<and> strcaseeq (take 2 input) ''AS'' then drop 2 input else input);
               (asn, overflow, rest) = strtoul number
           in if number = [] \<or> overflow \<or> rest = number \<or> rest \<noteq> [] \<or> asn > 2 ^ 32 - 1 then None
              else Some (take (output_size - 1) (dec asn))
      else if type = GEOBAN_ORG then if length input \<ge> output_size then None else Some input
      else None)"

definition duration_multiplier :: "char \<Rightarrow> u64 option" where
  "duration_multiplier c =
     (if ascii_lower c = CHR ''s'' then Some 1 else if ascii_lower c = CHR ''m'' then Some 60
      else if ascii_lower c = CHR ''h'' then Some 3600 else if ascii_lower c = CHR ''d'' then Some 86400
      else if ascii_lower c = CHR ''w'' then Some 604800 else None)"

text \<open>The product is computed in \<open>unsigned long long\<close>.\<close>

definition geoban_duration_parse :: "string \<Rightarrow> nat option" where
  "geoban_duration_parse x =
     (if x = [] then None
      else if strcaseeq x ''permanent'' \<or> strcaseeq x ''perm'' \<or> strcaseeq x ''forever'' \<or> x = ''0'' then Some 0
      else let (number, overflow, rest) = strtoul x
           in if overflow \<or> rest = x \<or> number = 0 \<or> length rest > 1 then None
              else (case (case rest of [] \<Rightarrow> Some 1 | c # _ \<Rightarrow> duration_multiplier c) of
                      None \<Rightarrow> None
                    | Some multiplier \<Rightarrow>
                        let total = unat (word_of_nat number * multiplier :: u64)
                        in if total > IRCD_BAN_DURATION_HARD_MAX_SECONDS \<or> total > 2 ^ 32 - 1 then None else Some total))"

subsection \<open>The glob matcher\<close>

text \<open>One member of a class, with the escape before it.\<close>

definition class_member :: "string \<Rightarrow> (char \<times> string) option" where
  "class_member p =
     (case p of
        [] \<Rightarrow> None
      | c # r \<Rightarrow> (case r of d # q \<Rightarrow> if c = CHR 0x5C then Some (ascii_lower d, q) else Some (ascii_lower c, r)
                   | [] \<Rightarrow> Some (ascii_lower c, r)))"

lemma class_member_shorter: "class_member p = Some (c, q) \<Longrightarrow> length q < length p"
  by (auto simp: class_member_def split: list.splits if_splits)

text \<open>The loop of \<open>class_match\<close>: \<open>ch\<close> is already folded; the result is the unread pattern and \<open>matched\<close>.\<close>

function class_loop :: "string \<Rightarrow> char \<Rightarrow> bool \<Rightarrow> string \<times> bool" where
  "class_loop p ch matched =
     (if p = [] \<or> starts_with '']'' p then (p, matched)
      else (case class_member p of
              None \<Rightarrow> (p, matched)
            | Some (start, q) \<Rightarrow>
                if starts_with ''-'' q \<and> length q > 1 \<and> q ! 1 \<noteq> CHR '']''
                then (case class_member (drop 1 q) of
                        None \<Rightarrow> (q, matched)
                      | Some (stop, q2) \<Rightarrow> class_loop q2 ch (matched \<or> (code start \<le> code ch \<and> code ch \<le> code stop)))
                else class_loop q ch (matched \<or> ch = start)))"
  by pat_completeness auto
termination
  by (relation "measure (\<lambda>(p, _, _). length p)") (auto dest!: class_member_shorter)

definition class_match :: "string \<Rightarrow> char \<Rightarrow> (bool \<times> string) option" where
  "class_match p ch =
     (let negate = starts_with ''!^'' p;
          (q, matched) = class_loop (if negate then drop 1 p else p) (ascii_lower ch) False
      in if \<not> starts_with '']'' q then None else Some (if negate then \<not> matched else matched, drop 1 q))"

declare class_loop.simps [simp del]

lemma class_loop_shorter: "length (fst (class_loop p ch m)) \<le> length p"
proof (induction p ch m rule: class_loop.induct)
  case (1 p ch m)
  then show ?case
    by (subst class_loop.simps) (fastforce dest: class_member_shorter split: option.split)
qed

lemma class_match_shorter: "class_match p ch = Some (b, q) \<Longrightarrow> length q < length p"
proof -
  assume r: "class_match p ch = Some (b, q)"
  let ?q = "fst (class_loop (if starts_with ''!^'' p then drop 1 p else p) (ascii_lower ch) False)"
  from r have "starts_with '']'' ?q" "q = drop 1 ?q"
    by (auto simp: class_match_def Let_def case_prod_beta split: if_splits)
  moreover have "length ?q \<le> length p"
    using class_loop_shorter [of "if starts_with ''!^'' p then drop 1 p else p" "ascii_lower ch" False] by (auto split: if_splits)
  ultimately show ?thesis by (cases ?q) (auto simp: starts_with_def)
qed

text \<open>\<open>glob_rest\<close> is the loop over the text after a star, which calls the matcher at every position and once more at the end.\<close>

function (sequential) glob_match_ci :: "string \<Rightarrow> string \<Rightarrow> bool" and glob_rest :: "string \<Rightarrow> string \<Rightarrow> bool" where
  "glob_match_ci pattern x =
     (case pattern of
        [] \<Rightarrow> x = []
      | p # ps \<Rightarrow>
          if p = CHR ''*''
          then let rest = dropWhile (\<lambda>c. c = CHR ''*'') ps in if rest = [] then True else glob_rest rest x
          else (case x of
                  [] \<Rightarrow> False
                | t # ts \<Rightarrow>
                    if p = CHR ''?'' then glob_match_ci ps ts
                    else if p = CHR ''['' then
                      (case class_match ps t of
                         None \<Rightarrow> False
                       | Some (ok, rest) \<Rightarrow> if ok then glob_match_ci rest ts else False)
                    else (let (l, rest) = (if p = CHR 0x5C \<and> ps \<noteq> [] then (hd ps, tl ps) else (p, ps))
                          in if ascii_lower l \<noteq> ascii_lower t then False else glob_match_ci rest ts)))"
| "glob_rest pattern x =
     (case x of
        [] \<Rightarrow> glob_match_ci pattern []
      | t # ts \<Rightarrow> if glob_match_ci pattern x then True else glob_rest pattern ts)"
  by pat_completeness auto
termination
  by (relation "measures [\<lambda>c. case c of Inl (p, t) \<Rightarrow> length p | Inr (p, t) \<Rightarrow> length p,
        \<lambda>c. case c of Inl (p, t) \<Rightarrow> length t | Inr (p, t) \<Rightarrow> length t,
        \<lambda>c. case c of Inl _ \<Rightarrow> 0 | Inr _ \<Rightarrow> 1]")
     (auto dest!: class_match_shorter simp: le_imp_less_Suc length_dropWhile_le split: if_splits)

declare glob_match_ci.simps [simp del] glob_rest.simps [simp del]

definition geoban_record_matches :: "geoban_row \<Rightarrow> geoip \<Rightarrow> bool" where
  "geoban_record_matches r g =
     (if gb_type r = GEOBAN_COUNTRY then gi_country_code g \<noteq> [] \<and> strcaseeq (gb_value r) (gi_country_code g)
      else if gb_type r = GEOBAN_REGION then gi_region_code g \<noteq> [] \<and> strcaseeq (gb_value r) (gi_region_code g)
      else if gb_type r = GEOBAN_ASN then gi_asn g \<noteq> 0 \<and> gb_value r = dec (unat (gi_asn g))
      else if gb_type r = GEOBAN_ORG then gi_organization g \<noteq> [] \<and> glob_match_ci (gb_value r) (gi_organization g)
      else False)"

subsection \<open>The table\<close>

definition geoban_record_from_stmt :: "geoban_row \<Rightarrow> geoban_row option" where
  "geoban_record_from_stmt r =
     (let type = to_int32 (gb_type r)
      in if \<not> valid_geoban_type type \<or> \<not> stored_text_ok IRCD_GEOIP_ORG_MAX (gb_value r) \<or> gb_value r = [] \<or>
            \<not> stored_text_ok IRC_QUIT_REASON_MAX (gb_reason r) \<or> \<not> stored_text_ok IRCD_OPER_NAME_MAX (gb_set_by r)
         then None else Some (r\<lparr>gb_type := type\<rparr>))"

definition live_geoban :: "int \<Rightarrow> geoban_row \<Rightarrow> bool" where
  "live_geoban now r \<longleftrightarrow> gb_expires_at r = 0 \<or> gb_expires_at r > now"

definition geoban_purge_expired_now :: "int \<Rightarrow> geoban_row list \<Rightarrow> geoban_row list" where
  "geoban_purge_expired_now now = filter (\<lambda>r. \<not> (gb_expires_at r \<noteq> 0 \<and> gb_expires_at r \<le> now))"

definition geoban_purge_expired_due ::
  "int \<Rightarrow> string \<Rightarrow> purge_state \<Rightarrow> geoban_row list \<Rightarrow> purge_state \<times> geoban_row list" where
  "geoban_purge_expired_due now path st rows =
     (if fst st \<noteq> 0 \<and> now \<ge> fst st \<and> now - fst st < GEOBAN_PURGE_INTERVAL_SECONDS \<and> snd st = path then (st, rows)
      else ((now, take IRCD_CONFIG_PATH_MAX path), geoban_purge_expired_now now rows))"

definition geoban_db_add ::
  "int \<Rightarrow> int \<Rightarrow> string \<Rightarrow> string option \<Rightarrow> string option \<Rightarrow> nat \<Rightarrow> geoban_row list \<Rightarrow> geoban_row list option" where
  "geoban_db_add now type val reason set_by duration_seconds rows =
     (if \<not> valid_geoban_type type \<or> \<not> text_fits val IRCD_GEOIP_ORG_MAX False \<or>
         \<not> text_fits (text_or_empty reason) IRC_QUIT_REASON_MAX True \<or> \<not> text_fits (text_or_empty set_by) IRCD_OPER_NAME_MAX True
      then None
      else Some (filter (\<lambda>r. \<not> (gb_type r = type \<and> strcaseeq (gb_value r) val)) rows @
             [\<lparr>gb_type = type, gb_value = val, gb_reason = text_or_empty reason, gb_set_by = text_or_empty set_by,
               gb_created_at = now, gb_expires_at = (if duration_seconds = 0 then 0 else now + int duration_seconds)\<rparr>]))"

definition geoban_db_delete :: "int \<Rightarrow> string \<Rightarrow> geoban_row list \<Rightarrow> geoban_row list option" where
  "geoban_db_delete type val rows =
     (if \<not> valid_geoban_type type \<or> \<not> text_fits val IRCD_GEOIP_ORG_MAX False then None
      else if list_ex (\<lambda>r. gb_type r = type \<and> strcaseeq (gb_value r) val) rows
      then Some (filter (\<lambda>r. \<not> (gb_type r = type \<and> strcaseeq (gb_value r) val)) rows)
      else None)"

definition geoban_le :: "geoban_row \<Rightarrow> geoban_row \<Rightarrow> bool" where
  "geoban_le a b \<longleftrightarrow> gb_type a < gb_type b \<or> (gb_type a = gb_type b \<and> nocase_le (gb_value a) (gb_value b))"

definition live_geobans :: "int \<Rightarrow> geoban_row list \<Rightarrow> geoban_row list" where
  "live_geobans now rows = order_rows geoban_le (filter (live_geoban now) rows)"

fun geoban_list_loop :: "(geoban_row \<Rightarrow> 'c \<Rightarrow> bool \<times> 'c) \<Rightarrow> geoban_row list \<Rightarrow> 'c \<Rightarrow> bool \<times> 'c" where
  "geoban_list_loop callback [] context = (True, context)"
| "geoban_list_loop callback (row # rows) context =
     (case geoban_record_from_stmt row of
        None \<Rightarrow> (False, context)
      | Some record \<Rightarrow>
          (let (stop, context1) = callback record context
           in if stop then (True, context1) else geoban_list_loop callback rows context1))"

definition geoban_db_list :: "int \<Rightarrow> (geoban_row \<Rightarrow> 'c \<Rightarrow> bool \<times> 'c) \<Rightarrow> geoban_row list \<Rightarrow> 'c \<Rightarrow> bool \<times> 'c" where
  "geoban_db_list now callback rows context = geoban_list_loop callback (live_geobans now rows) context"

fun geoban_match_loop :: "geoip \<Rightarrow> geoban_row list \<Rightarrow> geoban_row option option" where
  "geoban_match_loop g [] = Some None"
| "geoban_match_loop g (row # rows) =
     (case geoban_record_from_stmt row of
        None \<Rightarrow> None
      | Some candidate \<Rightarrow> if geoban_record_matches candidate g then Some (Some candidate) else geoban_match_loop g rows)"

definition geoban_db_match :: "int \<Rightarrow> geoip \<Rightarrow> geoban_row list \<Rightarrow> geoban_row option option" where
  "geoban_db_match now g rows = geoban_match_loop g (live_geobans now rows)"

subsection \<open>What an organisation pattern means\<close>

datatype glob_item = GStar | GOne "char \<Rightarrow> bool"

fun items_match :: "glob_item list \<Rightarrow> string \<Rightarrow> bool" where
  "items_match [] x = (x = [])"
| "items_match (GStar # is) x = (\<exists>k\<le>length x. items_match is (drop k x))"
| "items_match (GOne P # is) x = (case x of [] \<Rightarrow> False | c # cs \<Rightarrow> P c \<and> items_match is cs)"

text \<open>
  The syntax of a class: after an optional \<open>!\<close> or \<open>^\<close> come characters and ranges up to a closing bracket, each character possibly escaped.  A class denotes the characters whose
  lower case lies in one of its ranges, or those for which it does not when it is negated; a single character is the range from it to itself.
\<close>

fun class_char :: "string \<Rightarrow> (char \<times> string) option" where
  "class_char [] = None"
| "class_char [c] = Some (c, [])"
| "class_char (c # d # p) = (if c = CHR 0x5C then Some (d, p) else Some (c, d # p))"

lemma class_char_shorter: "class_char p = Some (c, q) \<Longrightarrow> length q < length p"
  by (induction p rule: class_char.induct) (auto split: if_splits)

function parse_class :: "string \<Rightarrow> ((char \<times> char) list \<times> string) option" where
  "parse_class p =
     (if p = [] then None
      else if hd p = CHR '']'' then Some ([], tl p)
      else (case class_char p of
              None \<Rightarrow> None
            | Some (a, q) \<Rightarrow>
                if length q \<ge> 2 \<and> hd q = CHR ''-'' \<and> hd (tl q) \<noteq> CHR '']''
                then (case class_char (tl q) of
                        None \<Rightarrow> None
                      | Some (b, q2) \<Rightarrow> map_option (apfst ((#) (a, b))) (parse_class q2))
                else map_option (apfst ((#) (a, a))) (parse_class q)))"
  by pat_completeness auto
termination
  by (relation "measure length") (auto dest!: class_char_shorter)

declare parse_class.simps [simp del]

definition in_class :: "bool \<Rightarrow> (char \<times> char) list \<Rightarrow> char \<Rightarrow> bool" where
  "in_class negated ranges c \<longleftrightarrow>
     ((\<exists>(a, b)\<in>set ranges. code (ascii_lower a) \<le> code (ascii_lower c) \<and> code (ascii_lower c) \<le> code (ascii_lower b)) \<noteq> negated)"

definition class_negated :: "string \<Rightarrow> bool" where
  "class_negated p \<longleftrightarrow> p \<noteq> [] \<and> (hd p = CHR ''!'' \<or> hd p = CHR ''^'')"

definition class_body :: "string \<Rightarrow> string" where
  "class_body p = (if class_negated p then tl p else p)"

lemma parse_class_shorter: "parse_class p = Some (rs, q) \<Longrightarrow> length q < length p"
proof (induction p arbitrary: rs q rule: parse_class.induct)
  case (1 p)
  show ?case
    using "1.prems" [unfolded parse_class.simps [of p]] "1.IH" by (fastforce dest: class_char_shorter split: if_splits option.splits)
qed

function glob_items :: "string \<Rightarrow> glob_item list" where
  "glob_items pattern =
     (case pattern of
        [] \<Rightarrow> []
      | p # ps \<Rightarrow>
          if p = CHR ''*'' then GStar # glob_items ps
          else if p = CHR ''?'' then GOne (\<lambda>_. True) # glob_items ps
          else if p = CHR ''['' then
            (case parse_class (class_body ps) of
               None \<Rightarrow> [GOne (\<lambda>_. False)]
             | Some (ranges, rest) \<Rightarrow> GOne (in_class (class_negated ps) ranges) # glob_items rest)
          else if p = CHR 0x5C \<and> ps \<noteq> [] then GOne (\<lambda>c. ascii_lower c = ascii_lower (hd ps)) # glob_items (tl ps)
          else GOne (\<lambda>c. ascii_lower c = ascii_lower p) # glob_items ps)"
  by pat_completeness auto
termination
  by (relation "measure length") (auto simp: class_body_def dest!: parse_class_shorter split: if_splits)

declare glob_items.simps [simp del]

lemma class_member_char: "class_member p = map_option (apfst ascii_lower) (class_char p)"
  by (induction p rule: class_char.induct) (simp_all add: class_member_def)

lemma code_eq_iff: "code a \<le> code b \<and> code b \<le> code a \<longleftrightarrow> a = b"
  by (metis antisym eq_refl of_char_eq_iff)

lemma class_char_Some: "p \<noteq> [] \<Longrightarrow> \<exists>c q. class_char p = Some (c, q)"
  by (induction p rule: class_char.induct) auto

lemma class_loop_parse:
  "case parse_class p of
     None \<Rightarrow> \<not> starts_with '']'' (fst (class_loop p ch m))
   | Some (rs, rest) \<Rightarrow>
       class_loop p ch m = (CHR '']'' # rest, m \<or> (\<exists>(a, b)\<in>set rs. code (ascii_lower a) \<le> code ch \<and> code ch \<le> code (ascii_lower b)))"
proof (induction p arbitrary: m rule: parse_class.induct)
  case (1 p)
  show ?case
  proof (cases "p = [] \<or> hd p = CHR '']''")
    case True
    have "class_loop p ch m = (p, m)"
      using True by (subst class_loop.simps) (cases p; auto simp: starts_with_def)
    moreover have "parse_class p = (if p = [] then None else Some ([], tl p))"
      using True by (subst parse_class.simps) auto
    ultimately show ?thesis using True by (cases p) (auto simp: starts_with_def)
  next
    case False
    then obtain a q where aq: "class_char p = Some (a, q)"
      using class_char_Some [of p] by blast
    have open_class: "p \<noteq> []" "\<not> starts_with '']'' p" "hd p \<noteq> CHR '']''" using False by (cases p; simp add: starts_with_def)+
    have range: "starts_with ''-'' q \<and> length q > 1 \<and> q ! 1 \<noteq> CHR '']'' \<longleftrightarrow> length q \<ge> 2 \<and> hd q = CHR ''-'' \<and> hd (tl q) \<noteq> CHR '']''"
      by (cases q; cases "tl q") (auto simp: starts_with_def)
    show ?thesis
    proof (cases "length q \<ge> 2 \<and> hd q = CHR ''-'' \<and> hd (tl q) \<noteq> CHR '']''")
      case True
      then obtain b q2 where bq: "class_char (tl q) = Some (b, q2)"
        using class_char_Some [of "tl q"] by (cases q; cases "tl q") auto
      have "class_loop p ch m = class_loop q2 ch (m \<or> (code (ascii_lower a) \<le> code ch \<and> code ch \<le> code (ascii_lower b)))"
        using open_class range True aq bq by (subst class_loop.simps) (simp add: class_member_char drop_Suc)
      moreover have "parse_class p = map_option (apfst ((#) (a, b))) (parse_class q2)"
        using False True aq bq by (subst parse_class.simps) simp
      moreover note "1.IH"(1) [OF open_class(1,3) aq refl True bq refl, of "m \<or> (code (ascii_lower a) \<le> code ch \<and> code ch \<le> code (ascii_lower b))"]
      ultimately show ?thesis
        using False True aq bq by (auto split: option.splits)
    next
      case single: False
      have "class_loop p ch m = class_loop q ch (m \<or> ch = ascii_lower a)"
        using open_class range single aq by (subst class_loop.simps) (auto simp: class_member_char)
      moreover have "parse_class p = map_option (apfst ((#) (a, a))) (parse_class q)"
        using False single aq by (subst parse_class.simps) auto
      moreover note "1.IH"(2) [OF open_class(1,3) aq refl single, of "m \<or> ch = ascii_lower a"]
      ultimately show ?thesis
        using False single aq code_eq_iff [of "ascii_lower a" ch] by (auto split: option.splits)
    qed
  qed
qed

lemma class_match_parse:
  "class_match p c = map_option (\<lambda>(ranges, rest). (in_class (class_negated p) ranges c, rest)) (parse_class (class_body p))"
proof -
  have neg: "starts_with ''!^'' p \<longleftrightarrow> class_negated p" "(if starts_with ''!^'' p then drop 1 p else p) = class_body p"
    by (cases p; auto simp: starts_with_def class_negated_def class_body_def)+
  show ?thesis
    using class_loop_parse [of "class_body p" "ascii_lower c" False]
    unfolding class_match_def Let_def unfolding neg(2) unfolding neg(1)
    by (auto simp: in_class_def case_prod_beta starts_with_def split: option.splits)
qed

lemma items_star:
  "items_match (GStar # GStar # is) x \<longleftrightarrow> items_match (GStar # is) x"
proof
  assume "items_match (GStar # is) x"
  then obtain k where "k \<le> length x" "items_match is (drop k x)" by auto
  then show "items_match (GStar # GStar # is) x" by (simp, intro exI [of _ k], simp, intro exI [of _ 0], simp)
next
  assume "items_match (GStar # GStar # is) x"
  then obtain j k where "j \<le> length x" "k \<le> length (drop j x)" "items_match is (drop k (drop j x))" by auto
  then show "items_match (GStar # is) x" by (auto intro: exI [of _ "j + k"] simp: add.commute)
qed

lemma glob_items_stars: "items_match (GStar # glob_items ps) x \<longleftrightarrow>
    items_match (GStar # glob_items (dropWhile (\<lambda>c. c = CHR ''*'') ps)) x"
proof (induction ps)
  case (Cons p ps)
  show ?case
  proof (cases "p = CHR ''*''")
    case True
    then have "glob_items (p # ps) = GStar # glob_items ps" by (subst glob_items.simps) simp
    then show ?thesis using Cons True by (simp only: items_star) simp
  qed simp
qed simp

lemma glob_rest_star:
  assumes "\<And>k. glob_match_ci p (drop k x) \<longleftrightarrow> items_match is (drop k x)"
  shows "glob_rest p x \<longleftrightarrow> items_match (GStar # is) x"
  using assms
proof (induction x)
  case Nil
  then show ?case using Nil [of 0] by (simp add: glob_rest.simps [of p "[]"])
next
  case (Cons c x)
  have "glob_match_ci p (drop k x) \<longleftrightarrow> items_match is (drop k x)" for k
    using Cons.prems [of "Suc k"] by simp
  then have rest: "glob_rest p x \<longleftrightarrow> (\<exists>k\<le>length x. items_match is (drop k x))" using Cons.IH by simp
  have "items_match (GStar # is) (c # x) \<longleftrightarrow> items_match is (c # x) \<or> (\<exists>k\<le>length x. items_match is (drop k x))"
    using Ex_less_Suc2 [of "Suc (length x)" "\<lambda>k. items_match is (drop k (c # x))"] by (simp add: less_Suc_eq_le)
  then show ?case
    using rest Cons.prems [of 0] by (simp add: glob_rest.simps [of p "c # x"])
qed

text \<open>
  C32: an organisation ban means what its pattern says.  The recursive matcher terminates on every pattern and text and accepts
  exactly the texts that the pattern denotes: a star any text, a question mark any character, a class the characters whose lower case lies in one of the ranges it lists or,
  negated, the others, an escaped or plain character itself without case; an unterminated class denotes nothing.
\<close>

theorem glob_match_ci_denotes: "glob_match_ci pattern x \<longleftrightarrow> items_match (glob_items pattern) x"
proof (induction "length pattern" arbitrary: pattern x rule: less_induct)
  case less
  show ?case
  proof (cases pattern)
    case Nil
    then show ?thesis by (simp add: glob_match_ci.simps [of "[]"] glob_items.simps [of "[]"])
  next
    case (Cons p ps)
    let ?rest = "dropWhile (\<lambda>c. c = CHR ''*'') ps"
    have IH: "glob_match_ci q y \<longleftrightarrow> items_match (glob_items q) y" if "length q < length pattern" for q y
      using less that by blast
    consider (star) "p = CHR ''*''" | (nil) "p \<noteq> CHR ''*''" "x = []" | (one) t ts where "p \<noteq> CHR ''*''" "x = t # ts"
      by (cases x) auto
    then show ?thesis
    proof cases
      case star
      have len: "length ?rest < length pattern" using length_dropWhile_le [of _ ps] Cons by (simp add: le_imp_less_Suc)
      have "items_match (glob_items pattern) x \<longleftrightarrow> items_match (GStar # glob_items ?rest) x"
        unfolding glob_items_stars [symmetric] using Cons star by (subst glob_items.simps) simp
      moreover have "glob_match_ci pattern x \<longleftrightarrow> ?rest = [] \<or> glob_rest ?rest x"
        using Cons star by (subst glob_match_ci.simps) (auto simp: Let_def)
      moreover have "glob_rest ?rest x \<longleftrightarrow> items_match (GStar # glob_items ?rest) x"
        by (rule glob_rest_star) (rule IH [OF len])
      moreover have "items_match (GStar # glob_items []) x" by (auto simp: glob_items.simps [of "[]"])
      ultimately show ?thesis by (metis (full_types))
    next
      case nil
      then show ?thesis
        using Cons by (subst glob_match_ci.simps, subst glob_items.simps) (simp split: option.split)
    next
      case one
      have rest: "length q < length pattern" if "parse_class (class_body ps) = Some (rs, q)" for rs q
        using parse_class_shorter [OF that] Cons by (auto simp: class_body_def split: if_splits)
      show ?thesis
        using Cons one IH [of ps ts] IH [of "tl ps" ts] rest
        by (subst glob_match_ci.simps, subst glob_items.simps) (auto simp: IH class_match_parse split: option.split)
    qed
  qed
qed

text \<open>
  Ban durations.  A parsed duration is never longer than the hard limit, and it is the number
  times the unit reduced modulo \<open>2 ^ 64\<close>: a product of at least \<open>2 ^ 64\<close> seconds wraps around and is accepted as the short ban
  that is left, as in 30500568904944 weeks, instead of being refused.
\<close>

theorem geoban_duration_wraps:
  "(case geoban_duration_parse x of None \<Rightarrow> True | Some d \<Rightarrow> d \<le> IRCD_BAN_DURATION_HARD_MAX_SECONDS) \<and>
   geoban_duration_parse ''30500568904944w'' = Some 579584 \<and> geoban_duration_parse ''30500568904943w'' = None"
proof (intro conjI)
  show "case geoban_duration_parse x of None \<Rightarrow> True | Some d \<Rightarrow> d \<le> IRCD_BAN_DURATION_HARD_MAX_SECONDS"
    by (auto simp: geoban_duration_parse_def Let_def case_prod_beta split: option.split)
  have parse: "strtoul ''30500568904944w'' = (30500568904944, False, ''w'')" "strtoul ''30500568904943w'' = (30500568904943, False, ''w'')"
    by (simp_all add: strtoul_def isdigit_def isspace_def digit_value_def)
  have w: "duration_multiplier CHR ''w'' = Some 604800" by code_simp
  have "\<not> strcaseeq ''30500568904944w'' ''permanent''" "\<not> strcaseeq ''30500568904944w'' ''perm''"
    "\<not> strcaseeq ''30500568904944w'' ''forever''" "\<not> strcaseeq ''30500568904943w'' ''permanent''"
    "\<not> strcaseeq ''30500568904943w'' ''perm''" "\<not> strcaseeq ''30500568904943w'' ''forever''"
    by code_simp+
  then show "geoban_duration_parse ''30500568904944w'' = Some 579584" "geoban_duration_parse ''30500568904943w'' = None"
    using w by (simp_all add: geoban_duration_parse_def parse)
qed

end
