(* ===== verification/Text_Files.thy ===== *)
theory Text_Files
  imports Replies
begin

section \<open>MOTD and RULES (src/commands/motd.c, src/commands/rules.c)\<close>

text \<open>
  Both commands send a cached text file line by line.  A line longer than the payload of its numeric is
  cut into pieces, and sending stops when the output queue of the client overflows.  The file cache itself answers
  \<open>w_motd\<close> and \<open>w_rules\<close>.
\<close>

text \<open>The pieces between newlines; a text that ends in a newline has no empty last line.\<close>

function text_lines :: "string \<Rightarrow> string list" where
  "text_lines x =
     (if x = [] then []
      else let l = takeWhile (\<lambda>c. c \<noteq> LF) x in l # text_lines (drop (Suc (length l)) x))"
  by pat_completeness auto
termination
  by (relation "measure length") (auto simp: Let_def)

definition chop_cr :: "string \<Rightarrow> string" where
  "chop_cr l = (if l \<noteq> [] \<and> last l = CR then butlast l else l)"

function chunks :: "nat \<Rightarrow> string \<Rightarrow> string list" where
  "chunks n x = (if n = 0 \<or> x = [] then [] else take n x # chunks n (drop n x))"
  by pat_completeness auto
termination
  by (relation "measure (\<lambda>(n, x). length x)") auto

declare text_lines.simps [simp del] chunks.simps [simp del]

text \<open>\<open>%s\<close> stops at a NUL inside the piece.\<close>

definition text_numeric :: "server \<Rightarrow> cref \<Rightarrow> string \<Rightarrow> string \<Rightarrow> string" where
  "text_numeric s c num piece = numeric s num (c_nick (sv_client s c)) ('':- '' @ takeWhile (\<lambda>x. x \<noteq> CHR 0x00) piece)"

fun send_pieces :: "cref \<Rightarrow> string \<Rightarrow> string list \<Rightarrow> server \<Rightarrow> server" where
  "send_pieces c num [] s = s"
| "send_pieces c num (p # ps) s =
     (if o_overflowed (sv_out s c) then s else send_pieces c num ps (sendf c (text_numeric s c num p) s))"

fun send_text_lines :: "cref \<Rightarrow> string \<Rightarrow> nat \<Rightarrow> string list \<Rightarrow> server \<Rightarrow> server" where
  "send_text_lines c num payload_limit [] s = s"
| "send_text_lines c num payload_limit (l # ls) s =
     (let logical = chop_cr l;
          s1 = (if logical = [] then sendf c (text_numeric s c num []) s
                else send_pieces c num (chunks payload_limit logical) s)
      in if o_overflowed (sv_out s1 c) then s1 else send_text_lines c num payload_limit ls s1)"

definition send_cached_lines :: "cref \<Rightarrow> string \<Rightarrow> string \<Rightarrow> server \<Rightarrow> server" where
  "send_cached_lines c num x s =
     (let overhead = length (text_numeric s c num [])
      in if overhead \<ge> IRC_LINE_CONTENT_MAX then s
         else send_text_lines c num (IRC_LINE_CONTENT_MAX - overhead) (text_lines x) s)"

definition command_send_motd :: "cref \<Rightarrow> server \<Rightarrow> server" where
  "command_send_motd c s =
     (let nick = c_nick (sv_client s c)
      in if \<not> c_registered (sv_client s c) then s
         else (case w_motd (sv_world s) of
                 None \<Rightarrow> sendf c (numeric s ''422'' nick '':MOTD File is missing'') s
               | Some x \<Rightarrow>
                   let s1 = send_cached_lines c ''372'' x
                              (sendf c (numeric s ''375'' nick ('':- '' @ server_name s @ '' Message of the Day - '')) s)
                   in if o_overflowed (sv_out s1 c) then s1
                      else sendf c (numeric s ''376'' nick '':End of /MOTD command.'') s1))"

definition command_motd :: "cref \<Rightarrow> string option \<Rightarrow> server \<Rightarrow> command_result \<times> server" where
  "command_motd c params = registered_only c (\<lambda>s. (COMMAND_KEEP_CLIENT, command_send_motd c s))"

definition command_rules :: "cref \<Rightarrow> string option \<Rightarrow> server \<Rightarrow> command_result \<times> server" where
  "command_rules c params = registered_only c (\<lambda>s.
     case w_rules (sv_world s) of
       None \<Rightarrow> reply c ''434'' '':RULES File is missing'' s
     | Some x \<Rightarrow>
         reply c ''309'' '':End of RULES command.''
           (send_cached_lines c ''232'' x (snd (reply c ''308'' ('':- '' @ server_name s @ '' Server Rules - '') s))))"

subsection \<open>Only output\<close>

lemma send_pieces_io [simp, intro!]: "io_only s (send_pieces c num ps s)"
proof (induction ps arbitrary: s)
  case (Cons p ps)
  show ?case using io_only_trans [OF sendf_io Cons.IH] by simp
qed simp

lemma send_text_lines_io [simp, intro!]: "io_only s (send_text_lines c num n ls s)"
proof (induction ls arbitrary: s)
  case (Cons l ls)
  let ?s1 = "if chop_cr l = [] then sendf c (text_numeric s c num []) s else send_pieces c num (chunks n (chop_cr l)) s"
  have "io_only s ?s1" by simp
  then show ?case using io_only_trans [OF _ Cons.IH, of s ?s1] by (simp add: Let_def)
qed simp

lemma send_cached_lines_io [simp, intro!]: "io_only s (send_cached_lines c num x s)"
  by (simp add: send_cached_lines_def Let_def)

lemma send_motd_io [simp, intro!]: "io_only s (command_send_motd c s)"
proof -
  have "io_only s (send_cached_lines c n x (sendf c l s))" "io_only s (sendf c k (send_cached_lines c n x (sendf c l s)))" for n x l k
    using io_only_trans [OF sendf_io send_cached_lines_io] io_only_trans [OF io_only_trans [OF sendf_io send_cached_lines_io] sendf_io]
    by blast+
  then show ?thesis by (auto simp: command_send_motd_def Let_def split: option.split)
qed

lemma command_motd_keeps: "keeps c s (snd (command_motd c params s))"
  unfolding command_motd_def by (rule registered_only_keeps) (simp add: keeps_io [OF keeps_refl])

lemma command_rules_keeps: "keeps c s (snd (command_rules c params s))"
  unfolding command_rules_def
proof (rule registered_only_keeps)
  fix s
  have "keeps c s (send_cached_lines c n x (snd (reply c m y s)))" for n x m y
    using keeps_io [OF replies_keeps(3) [OF keeps_refl] send_cached_lines_io] .
  then show "keeps c s (snd (case w_rules (sv_world s) of
       None \<Rightarrow> reply c ''434'' '':RULES File is missing'' s
     | Some x \<Rightarrow>
         reply c ''309'' '':End of RULES command.''
           (send_cached_lines c ''232'' x (snd (reply c ''308'' ('':- '' @ server_name s @ '' Server Rules - '') s)))))"
    by (auto intro: replies_keeps split: option.split)
qed

end
