(* ===== verification/Input.thy ===== *)
theory Input
  imports Dispatch
begin

section \<open>Input buffering and line dispatch (src/server.c)\<close>

text \<open>
  The receive side of a connection: appending received bytes to the bounded input buffer, cutting it
  into lines, and the round-robin pass over all clients under an aggregate line budget.  \<open>handle\<close> is
  \<open>irc_handle_line\<close> with its handlers: it gets the client, the line and the server and says whether the client is to be
  disconnected.  \<open>c_inbuf\<close> holds the \<open>inbuf_len\<close> valid bytes of \<open>inbuf\<close>.
\<close>

type_synonym line_handler = "cref \<Rightarrow> string \<Rightarrow> server \<Rightarrow> bool \<times> server"

abbreviation IRC_INPUT_BUFFER_SIZE :: nat where "IRC_INPUT_BUFFER_SIZE \<equiv> 8192"
abbreviation IRCV3_CLIENT_TAG_SECTION_MAX :: nat where "IRCV3_CLIENT_TAG_SECTION_MAX \<equiv> 4096"
abbreviation IRC_INPUT_LINE_MAX :: nat where "IRC_INPUT_LINE_MAX \<equiv> IRCV3_CLIENT_TAG_SECTION_MAX + IRC_LINE_CONTENT_MAX"
abbreviation SERVER_INPUT_LINE_BUDGET_PER_CLIENT :: nat where "SERVER_INPUT_LINE_BUDGET_PER_CLIENT \<equiv> 32"
abbreviation SERVER_INPUT_LINE_BUDGET_GLOBAL :: nat where "SERVER_INPUT_LINE_BUDGET_GLOBAL \<equiv> 512"

subsection \<open>Receiving\<close>

text \<open>What the transport answers: bytes, an operation to retry, or the end of the connection.\<close>

datatype read_answer = ReadData string | ReadWantRead | ReadWantWrite | ReadClosed

text \<open>
  \<open>read_client\<close>.  \<open>SSL_read\<close> and \<open>recv\<close> return at least one and at most \<open>available\<close> bytes.  The result says
  whether the client is to be disconnected.
\<close>

definition set_input_retry :: "bool \<Rightarrow> bool \<Rightarrow> cref \<Rightarrow> server \<Rightarrow> server" where
  "set_input_retry b want_write c s =
     (if o_ssl (sv_out s c)
      then s\<lparr>sv_out := (sv_out s)(c := (sv_out s c)\<lparr>o_input_retry_pending := b, o_input_want_write := want_write\<rparr>)\<rparr>
      else s)"

definition read_client :: "read_answer \<Rightarrow> cref \<Rightarrow> server \<Rightarrow> bool \<times> server" where
  "read_client answer c s =
     (let inbuf = c_inbuf (sv_client s c)
      in if length inbuf \<ge> IRC_INPUT_BUFFER_SIZE - 1 then (True, s)
         else let available = IRC_INPUT_BUFFER_SIZE - length inbuf - 1
              in case answer of
                   ReadData bytes \<Rightarrow>
                     if bytes = [] then (True, s)
                     else (False, upd_client c (\<lambda>cl. cl\<lparr>c_inbuf := inbuf @ take available bytes\<rparr>)
                                    (set_input_retry False False c s))
                 | ReadWantRead \<Rightarrow> (False, set_input_retry True False c s)
                 | ReadWantWrite \<Rightarrow>
                     if o_ssl (sv_out s c) then (False, set_input_retry True True c s) else (True, s)
                 | ReadClosed \<Rightarrow> (True, s))"

subsection \<open>Cutting lines\<close>

definition client_input_line_fits :: "string \<Rightarrow> bool" where
  "client_input_line_fits line =
     (if \<not> starts_with ''@'' line then length line \<le> IRC_LINE_CONTENT_MAX
      else let separator = length (takeWhile (\<lambda>x. x \<noteq> CHR '' '') line);
               tag_section_length = separator + 1
           in if separator = length line \<or> separator = 1 then False
              else tag_section_length \<le> IRCV3_CLIENT_TAG_SECTION_MAX \<and>
                   length line - tag_section_length \<le> IRC_LINE_CONTENT_MAX)"

text \<open>The first complete line of a buffer, without its terminator, and what follows it.\<close>

definition raw_line :: "string \<Rightarrow> string" where
  "raw_line buf = takeWhile (\<lambda>x. x \<noteq> LF) buf"

definition after_line :: "string \<Rightarrow> string" where
  "after_line buf = drop (length (raw_line buf) + 1) buf"

definition chop_cr :: "string \<Rightarrow> string" where
  "chop_cr raw = (if raw \<noteq> [] \<and> last raw = CR then butlast raw else raw)"

definition framing_violation :: "string \<Rightarrow> bool" where
  "framing_violation raw \<longleftrightarrow> CHR 0x00 \<in> set raw \<or> CR \<in> set (chop_cr raw)"

datatype input_outcome = InputOpen | InputReject | InputQuit

definition input_reject :: "cref \<Rightarrow> server \<Rightarrow> server" where
  "input_reject c s = snotice_broadcast SNOTICE_SECURITY
     (''Protocol violation from '' @ c_real_ip (sv_client s c) @ '': malformed or overlong IRC framing'') s"

definition input_too_long :: "cref \<Rightarrow> server \<Rightarrow> server" where
  "input_too_long c s = sendf c (numeric s ''417'' (command_reply_nick (sv_client s c)) '':Input line was too long'') s"

lemma after_line_shorter: "LF \<in> set buf \<Longrightarrow> length (after_line buf) < length buf"
  by (cases buf) (simp_all add: after_line_def)

function line_loop :: "line_handler \<Rightarrow> cref \<Rightarrow> nat \<Rightarrow> nat \<Rightarrow> string \<Rightarrow> server \<Rightarrow> input_outcome \<times> string \<times> nat \<times> server" where
  "line_loop handle c handled budget buf s =
     (if handled < SERVER_INPUT_LINE_BUDGET_PER_CLIENT \<and> budget > 0 \<and> LF \<in> set buf
      then let raw = raw_line buf; line = chop_cr raw; rest = after_line buf
           in if framing_violation raw then (InputReject, buf, budget, input_reject c s)
              else if \<not> client_input_line_fits line
              then (if \<not> starts_with ''@'' buf then (InputReject, buf, budget, input_reject c s)
                    else line_loop handle c (handled + 1) (budget - 1) rest (input_too_long c s))
              else if line = [] then line_loop handle c (handled + 1) (budget - 1) rest s
              else let (quit, s1) = handle c line s
                   in if quit then (InputQuit, rest, budget - 1, s1)
                      else line_loop handle c (handled + 1) (budget - 1) rest s1
      else (InputOpen, buf, budget, s))"
  by pat_completeness auto
termination
  by (relation "measure (\<lambda>(handle, c, handled, budget, buf, s). length buf)") (auto simp: after_line_shorter)

declare line_loop.simps [simp del]

text \<open>Result: whether to disconnect, whether complete lines are still buffered, the remaining global budget.\<close>

definition process_buffered_lines :: "line_handler \<Rightarrow> cref \<Rightarrow> nat \<Rightarrow> server \<Rightarrow> bool \<times> bool \<times> nat \<times> server" where
  "process_buffered_lines handle c budget s =
     (let (outcome, buf, budget1, s1) = line_loop handle c 0 budget (c_inbuf (sv_client s c)) s;
          s2 = upd_client c (\<lambda>cl. cl\<lparr>c_inbuf := buf\<rparr>) s1
      in case outcome of
           InputReject \<Rightarrow> (True, False, budget1, s1)
         | InputQuit \<Rightarrow> (True, False, budget1, s2)
         | InputOpen \<Rightarrow>
             if length buf > (if starts_with ''@'' buf then IRC_INPUT_LINE_MAX else IRC_LINE_CONTENT_MAX) + 1 \<and>
                LF \<notin> set buf
             then let s3 = snotice_broadcast SNOTICE_SECURITY
                        (''Protocol violation from '' @ c_real_ip (sv_client s2 c) @
                         '': overlong partial IRC line ('' @ dec (length buf) @ '' bytes)'') s2
                  in (True, False, budget1, input_too_long c s3)
             else (False, LF \<in> set buf, budget1, s2))"

subsection \<open>The pass over all clients\<close>

definition IRC_DEFAULT_QUIT_REASON :: string where
  "IRC_DEFAULT_QUIT_REASON = ''Client quit''"

definition drain_client :: "line_handler \<Rightarrow> cref \<Rightarrow> nat \<Rightarrow> server \<Rightarrow> bool \<times> bool \<times> nat \<times> server" where
  "drain_client handle c budget s =
     (let (disconnect, pending, budget1, s1) = process_buffered_lines handle c budget s
      in if \<not> disconnect \<and> o_overflowed (sv_out s1 c)
         then let s2 = snotice_broadcast SNOTICE_FLOOD
                    (''SendQ exceeded for '' @ c_real_ip (sv_client s1 c) @ '' (nick='' @
                     (if c_nick (sv_client s1 c) \<noteq> [] then c_nick (sv_client s1 c) else ''*'') @
                     '' limit='' @ dec (o_limit (sv_out s1 c)) @ '' bytes)'') s1
              in (True, pending, budget1, upd_client c (\<lambda>cl. cl\<lparr>c_quit_reason := ''SendQ exceeded''\<rparr>) s2)
         else (disconnect, pending, budget1, s1))"

function drain_loop :: "line_handler \<Rightarrow> nat \<Rightarrow> nat \<Rightarrow> nat \<Rightarrow> nat \<Rightarrow> bool \<Rightarrow> server \<Rightarrow> bool \<times> nat \<times> nat \<times> server" where
  "drain_loop handle initial_count visited index budget pending s =
     (if visited < initial_count \<and> sv_clients s \<noteq> [] \<and> budget > 0
      then let index1 = (if index \<ge> length (sv_clients s) then 0 else index);
               c = sv_clients s ! index1
           in if o_tls_state (sv_out s c) = CLIENT_TLS_HANDSHAKE \<or> c_inbuf (sv_client s c) = []
              then drain_loop handle initial_count (visited + 1) ((index1 + 1) mod length (sv_clients s)) budget pending s
              else let (disconnect, client_pending, budget1, s1) = drain_client handle c budget s
                   in if disconnect
                      then let reason = c_quit_reason (sv_client s1 c);
                               s2 = server_disconnect c (if reason \<noteq> [] then reason else IRC_DEFAULT_QUIT_REASON) s1
                           in if sv_clients s2 = [] then (pending, index1, budget1, s2)
                              else drain_loop handle initial_count (visited + 1)
                                     (if index1 \<ge> length (sv_clients s2) then 0 else index1) budget1 pending s2
                      else drain_loop handle initial_count (visited + 1) ((index1 + 1) mod length (sv_clients s1))
                             budget1 (pending \<or> client_pending) s1
      else (pending, index, budget, s))"
  by pat_completeness auto
termination
  by (relation "measure (\<lambda>(handle, initial_count, visited, index, budget, pending, s). initial_count - visited)") auto

declare drain_loop.simps [simp del]

text \<open>\<open>cursor\<close> is \<open>input_dispatch_cursor\<close>; the result is the pending flag, the new cursor and the remaining budget.\<close>

definition drain_buffered_client_input :: "line_handler \<Rightarrow> nat \<Rightarrow> nat \<Rightarrow> server \<Rightarrow> bool \<times> nat \<times> nat \<times> server" where
  "drain_buffered_client_input handle cursor budget s =
     (if sv_clients s = [] then (False, 0, budget, s)
      else let (pending, index, budget1, s1) =
                 drain_loop handle (length (sv_clients s)) 0 (cursor mod length (sv_clients s)) budget False s;
               cursor1 = (if sv_clients s1 \<noteq> [] then index mod length (sv_clients s1) else 0)
           in (pending \<or> budget1 = 0, cursor1, budget1, s1))"

subsection \<open>What a handler can see\<close>

definition clean_line :: "string \<Rightarrow> bool" where
  "clean_line line \<longleftrightarrow> line \<noteq> [] \<and> CHR 0x00 \<notin> set line \<and> CR \<notin> set line \<and> LF \<notin> set line \<and>
     client_input_line_fits line"

lemma fits_length: "client_input_line_fits line \<Longrightarrow> length line \<le> IRC_INPUT_LINE_MAX"
  by (auto simp: client_input_line_fits_def Let_def split: if_splits)

lemma set_raw_line: "LF \<notin> set (raw_line buf)" "set (chop_cr raw) \<subseteq> set raw"
  by (auto simp: raw_line_def chop_cr_def dest: set_takeWhileD in_set_butlastD)

lemma clean_first_line:
  "\<not> framing_violation (raw_line buf) \<Longrightarrow> client_input_line_fits (chop_cr (raw_line buf)) \<Longrightarrow>
     chop_cr (raw_line buf) \<noteq> [] \<Longrightarrow> clean_line (chop_cr (raw_line buf))"
  using set_raw_line(1) [of buf] set_raw_line(2) [of "raw_line buf"]
  by (auto simp: framing_violation_def clean_line_def)


lemma line_loop_cong:
  assumes same: "\<And>line s. clean_line line \<Longrightarrow> handle c line s = handle' c line s"
  shows "line_loop handle c handled budget buf s = line_loop handle' c handled budget buf s"
proof (induction "length buf" arbitrary: buf handled budget s rule: less_induct)
  case less
  let ?line = "chop_cr (raw_line buf)"
  show ?case
  proof (cases "handled < SERVER_INPUT_LINE_BUDGET_PER_CLIENT \<and> budget > 0 \<and> LF \<in> set buf")
    case False
    then show ?thesis
      by (auto simp: line_loop.simps [of handle c handled budget buf s] line_loop.simps [of handle' c handled budget buf s])
  next
    case True
    note IH = less [OF after_line_shorter]
    have "handle c ?line s = handle' c ?line s"
      if "\<not> framing_violation (raw_line buf)" "client_input_line_fits ?line" "?line \<noteq> []"
      using same clean_first_line that by blast
    then show ?thesis
      using True IH
      by (simp add: line_loop.simps [of handle c handled budget buf s] line_loop.simps [of handle' c handled budget buf s]
          Let_def case_prod_beta)
  qed
qed

subsection \<open>Lines in order\<close>

text \<open>All complete lines of a buffer, without their LF.\<close>

function input_lines :: "string \<Rightarrow> string list" where
  "input_lines buf = (if LF \<in> set buf then raw_line buf # input_lines (after_line buf) else [])"
  by pat_completeness auto
termination by (relation "measure length") (auto simp: after_line_shorter)

declare input_lines.simps [simp del]

text \<open>
  What is done with one line: a line that is malformed ends the pass, an overlong line with tags is answered by 417, an empty one skipped and any other given to the handler, which may
  end the connection.
\<close>

definition malformed :: "string \<Rightarrow> bool" where
  "malformed raw \<longleftrightarrow> framing_violation raw \<or> \<not> client_input_line_fits (chop_cr raw) \<and> \<not> starts_with ''@'' raw"

definition run_line :: "line_handler \<Rightarrow> cref \<Rightarrow> string \<Rightarrow> server \<Rightarrow> server" where
  "run_line handle c raw s =
     (if \<not> client_input_line_fits (chop_cr raw) then input_too_long c s
      else if chop_cr raw = [] then s
      else snd (handle c (chop_cr raw) s))"

definition ends_at :: "line_handler \<Rightarrow> cref \<Rightarrow> string \<Rightarrow> server \<Rightarrow> bool" where
  "ends_at handle c raw s \<longleftrightarrow> client_input_line_fits (chop_cr raw) \<and> chop_cr raw \<noteq> [] \<and> fst (handle c (chop_cr raw) s)"

text \<open>The first \<open>k\<close> of at most \<open>n\<close> lines have been dealt with in order, and why it stopped there.\<close>

definition pass_ok :: "line_handler \<Rightarrow> cref \<Rightarrow> nat \<Rightarrow> string list \<Rightarrow> server \<Rightarrow> input_outcome \<Rightarrow> nat \<Rightarrow> server \<Rightarrow> bool" where
  "pass_ok handle c n raws s out k s' \<longleftrightarrow>
     k \<le> n \<and>
     (\<forall>i<k. \<not> malformed (raws ! i)) \<and>
     (\<forall>i<k. ends_at handle c (raws ! i) (fold (run_line handle c) (take i raws) s) \<longleftrightarrow> out = InputQuit \<and> Suc i = k) \<and>
     (case out of
        InputOpen \<Rightarrow> k = n \<and> s' = fold (run_line handle c) (take k raws) s
      | InputQuit \<Rightarrow> 0 < k \<and> s' = fold (run_line handle c) (take k raws) s
      | InputReject \<Rightarrow> k < n \<and> malformed (raws ! k) \<and> s' = input_reject c (fold (run_line handle c) (take k raws) s))"

lemma pass_ok_Cons:
  assumes "\<not> malformed r" "\<not> ends_at handle c r s" "pass_ok handle c n raws (run_line handle c r s) out k s'"
  shows "pass_ok handle c (Suc n) (r # raws) s out (Suc k) s'"
  using assms unfolding pass_ok_def All_less_Suc2 by (cases out) auto

lemma line_loop_lines:
  "\<exists>k. line_loop handle c handled budget buf s = (out, (after_line ^^ k) buf, budget - k, s') \<and>
     pass_ok handle c (min (SERVER_INPUT_LINE_BUDGET_PER_CLIENT - handled) (min budget (length (input_lines buf)))) (input_lines buf) s out k s'"
  if "line_loop handle c handled budget buf s = (out, buf', budget', s')"
  using that
proof (induction "length buf" arbitrary: buf handled budget s rule: less_induct)
  case less
  let ?n = "min (SERVER_INPUT_LINE_BUDGET_PER_CLIENT - handled) (min budget (length (input_lines buf)))"
  show ?case
  proof (cases "handled < SERVER_INPUT_LINE_BUDGET_PER_CLIENT \<and> budget > 0 \<and> LF \<in> set buf")
    case False
    then have "?n = 0" by (auto simp: input_lines.simps [of buf])
    moreover have "line_loop handle c handled budget buf s = (InputOpen, buf, budget, s)"
      using False by (auto simp: line_loop.simps [of handle c handled budget buf s])
    ultimately show ?thesis using less.prems by (intro exI [of _ 0]) (simp add: pass_ok_def)
  next
    case True
    let ?raw = "raw_line buf" and ?rest = "after_line buf"
    let ?m = "min (SERVER_INPUT_LINE_BUDGET_PER_CLIENT - Suc handled) (min (budget - 1) (length (input_lines ?rest)))"
    have lines: "input_lines buf = ?raw # input_lines ?rest" using True by (simp add: input_lines.simps [of buf])
    then have n: "?n = Suc ?m" using True by (auto simp: min_def)
    have at: "starts_with ''@'' buf \<longleftrightarrow> starts_with ''@'' ?raw"
      using True by (cases buf) (auto simp: starts_with_def raw_line_def)
    note unf = line_loop.simps [of handle c handled budget buf s, unfolded if_P [OF True] Let_def at]
    show ?thesis
    proof (cases "malformed ?raw \<or> ends_at handle c ?raw s")
      case False
      then have step: "line_loop handle c handled budget buf s = line_loop handle c (Suc handled) (budget - 1) ?rest (run_line handle c ?raw s)"
        unfolding unf by (auto simp: malformed_def ends_at_def run_line_def case_prod_beta)
      then obtain k where k: "line_loop handle c (Suc handled) (budget - 1) ?rest (run_line handle c ?raw s) = (out, (after_line ^^ k) ?rest, budget - 1 - k, s')"
          "pass_ok handle c ?m (input_lines ?rest) (run_line handle c ?raw s) out k s'"
        using less.hyps [OF after_line_shorter] True less.prems by metis
      then have "pass_ok handle c ?n (input_lines buf) s out (Suc k) s'"
        unfolding n unfolding lines using pass_ok_Cons False by blast
      then show ?thesis
        using k(1) step by (intro exI [of _ "Suc k"]) (simp add: funpow_Suc_right del: funpow.simps)
    next
      case bad: True
      show ?thesis
      proof (cases "malformed ?raw")
        case True
        then have "line_loop handle c handled budget buf s = (InputReject, buf, budget, input_reject c s)"
          unfolding unf by (auto simp: malformed_def)
        then show ?thesis using less.prems True unfolding n unfolding lines by (intro exI [of _ 0]) (simp add: pass_ok_def)
      next
        case False
        with bad have "line_loop handle c handled budget buf s = (InputQuit, ?rest, budget - 1, run_line handle c ?raw s)"
          unfolding unf by (auto simp: malformed_def ends_at_def run_line_def case_prod_beta)
        then show ?thesis
          using less.prems False bad unfolding n unfolding lines by (intro exI [of _ 1]) (simp add: pass_ok_def)
      qed
    qed
  qed
qed

subsection \<open>One round of the loop\<close>

lemma line_loop_step:
  obtains (stop) "line_loop handle c handled budget buf s = (InputOpen, buf, budget, s)"
  | (reject) "line_loop handle c handled budget buf s = (InputReject, buf, budget, input_reject c s)"
  | (quit) s1 where "LF \<in> set buf" "budget > 0" "handled < SERVER_INPUT_LINE_BUDGET_PER_CLIENT"
      "handle c (chop_cr (raw_line buf)) s = (True, s1)"
      "line_loop handle c handled budget buf s = (InputQuit, after_line buf, budget - 1, s1)"
  | (more) s1 where "LF \<in> set buf" "budget > 0" "handled < SERVER_INPUT_LINE_BUDGET_PER_CLIENT"
      "s1 = input_too_long c s \<or> s1 = s \<or> handle c (chop_cr (raw_line buf)) s = (False, s1)"
      "line_loop handle c handled budget buf s = line_loop handle c (Suc handled) (budget - 1) (after_line buf) s1"
proof (cases "handled < SERVER_INPUT_LINE_BUDGET_PER_CLIENT \<and> budget > 0 \<and> LF \<in> set buf")
  case False
  then show ?thesis using stop by (auto simp: line_loop.simps [of handle c handled budget buf s])
next
  case True
  then have unf: "line_loop handle c handled budget buf s =
      (if framing_violation (raw_line buf) then (InputReject, buf, budget, input_reject c s)
       else if \<not> client_input_line_fits (chop_cr (raw_line buf))
       then (if \<not> starts_with ''@'' buf then (InputReject, buf, budget, input_reject c s)
             else line_loop handle c (Suc handled) (budget - 1) (after_line buf) (input_too_long c s))
       else if chop_cr (raw_line buf) = [] then line_loop handle c (Suc handled) (budget - 1) (after_line buf) s
       else let (quit, s1) = handle c (chop_cr (raw_line buf)) s
            in if quit then (InputQuit, after_line buf, budget - 1, s1)
               else line_loop handle c (Suc handled) (budget - 1) (after_line buf) s1)"
    by (simp add: line_loop.simps [of handle c handled budget buf s] Let_def case_prod_beta)
  obtain q s1 where h: "handle c (chop_cr (raw_line buf)) s = (q, s1)" by fastforce
  show ?thesis
    using True unf h reject quit [of s1] more [of s1] more [of s] more [of "input_too_long c s"]
    by (auto simp: Let_def split: if_splits)
qed

lemma line_loop_result:
  "line_loop handle c handled budget buf s = (out, buf', budget', s') \<Longrightarrow>
     length buf' \<le> length buf \<and> budget' \<le> budget \<and> budget - budget' \<le> SERVER_INPUT_LINE_BUDGET_PER_CLIENT - handled"
proof (induction "length buf" arbitrary: buf handled budget s rule: less_induct)
  case less
  show ?case
  proof (cases rule: line_loop_step [of handle c handled budget buf s])
    case (more s1)
    have "length buf' \<le> length (after_line buf) \<and> budget' \<le> budget - 1 \<and>
        budget - 1 - budget' \<le> SERVER_INPUT_LINE_BUDGET_PER_CLIENT - Suc handled"
      using less.hyps [OF after_line_shorter [OF more(1)]] more(5) less.prems by metis
    then show ?thesis using after_line_shorter [OF more(1)] more(2,3) by linarith
  next
    case (quit s1)
    then show ?thesis using less.prems after_line_shorter [OF quit(1)] by auto
  qed (use less.prems in auto)
qed

subsection \<open>The pass respects the server\<close>

lemma disconnect_wf: "server_wf s \<Longrightarrow> c \<in> set (sv_clients s) \<Longrightarrow> server_wf (server_disconnect c reason s)"
  by (rule server_disconnect_core [of s c reason]) (auto intro: server_wf_aux)

context command_handlers begin

abbreviation handle :: line_handler where
  "handle \<equiv> irc_handle_line handler"

lemma line_loop_keeps: "keeps c s (snd (snd (snd (line_loop handle c handled budget buf s))))"
proof (induction "length buf" arbitrary: buf handled budget s rule: less_induct)
  case less
  have io: "keeps c s (input_too_long c s)" "keeps c s (input_reject c s)"
    by (auto simp: input_too_long_def input_reject_def intro!: keeps_sends)
  have handled: "keeps c s s1" if "handle c (chop_cr (raw_line buf)) s = (q, s1)" for q s1
    using handle_line_keeps [of c s "chop_cr (raw_line buf)"] that by simp
  show ?case
  proof (cases rule: line_loop_step [of handle c handled budget buf s])
    case (more s1)
    then have "keeps c s s1" using io handled by auto
    then show ?thesis
      using keeps_trans less.hyps [OF after_line_shorter [OF more(1)]] more(5) by metis
  next
    case (quit s1)
    then show ?thesis using handled by simp
  qed (use io in simp_all)
qed

lemma process_keeps: "keeps c s (snd (snd (snd (process_buffered_lines handle c budget s))))"
proof -
  obtain out buf b s1 where l: "line_loop handle c 0 budget (c_inbuf (sv_client s c)) s = (out, buf, b, s1)"
    by (metis prod_cases4)
  have k: "keeps c s s1" using line_loop_keeps [of c s 0 budget "c_inbuf (sv_client s c)"] l by simp
  then show ?thesis
    by (cases out) (auto simp: process_buffered_lines_def l Let_def input_too_long_def plain_update_def
        intro!: keeps_sends keeps_upd_client)
qed

lemma drain_client_keeps: "keeps c s (snd (snd (snd (drain_client handle c budget s))))"
  using process_keeps [of c s budget]
  by (auto simp: drain_client_def Let_def case_prod_beta plain_update_def intro!: keeps_sends keeps_upd_client)

lemma drain_loop_wf:
  "server_wf s \<Longrightarrow> server_wf (snd (snd (snd (drain_loop handle n visited index budget pending s))))"
proof (induction "n - visited" arbitrary: visited index budget pending s rule: less_induct)
  case less
  show ?case
  proof (cases "visited < n \<and> sv_clients s \<noteq> [] \<and> budget > 0")
    case False
    then show ?thesis using less.prems by (auto simp: drain_loop.simps [of handle n visited])
  next
    case True
    define i where "i = (if index \<ge> length (sv_clients s) then 0 else index)"
    define c where "c = sv_clients s ! i"
    have c: "c \<in> set (sv_clients s)" unfolding c_def i_def using True by (intro nth_mem) auto
    obtain d p b s1 where dc: "drain_client handle c budget s = (d, p, b, s1)" by (metis prod_cases4)
    have s1: "server_wf s1" "c \<in> set (sv_clients s1)"
      using keepsD [OF drain_client_keeps less.prems c, of budget] dc by simp_all
    have IH: "server_wf t \<Longrightarrow> server_wf (snd (snd (snd (drain_loop handle n (visited + 1) j k q t))))" for j k q t
      by (rule less.hyps) (use True in auto)
    show ?thesis
      using less.prems s1 disconnect_wf [OF s1] IH
      unfolding drain_loop.simps [of handle n visited] if_P [OF True] Let_def i_def [symmetric] c_def [symmetric] dc
      by (simp split: prod.split)
  qed
qed

end

subsection \<open>Properties\<close>

text \<open>
  C29: input is dispatched line by line, in order and within the budgets.  For any handler and any buffered bytes, one pass over a client takes the complete lines of the buffer in
  order, at most as many as the per-client budget of 32 and the global budget allow, and keeps the rest of the buffer as it is.  Each line is run on the state that the earlier lines left: an overlong tagged
  line is answered, an empty one skipped and any other given to the handler.  The pass stops before the budgets only at a line at which the handler ends the connection, which is
  then the last one run, or at a malformed line, which is not given to the handler and rejects the client.
\<close>

theorem lines_dispatched_in_order:
  fixes handle c budget s
  defines "raws \<equiv> input_lines (c_inbuf (sv_client s c))"
  defines "state \<equiv> \<lambda>i. fold (run_line handle c) (take i raws) s"
  defines "n \<equiv> min 32 (min budget (length raws))"
  shows "case line_loop handle c 0 budget (c_inbuf (sv_client s c)) s of (out, buf', budget', s') \<Rightarrow>
    \<exists>k\<le>n. buf' = (after_line ^^ k) (c_inbuf (sv_client s c)) \<and> budget' = budget - k \<and>
      (\<forall>i<k. \<not> malformed (raws ! i)) \<and>
      (\<forall>i<k. ends_at handle c (raws ! i) (state i) \<longleftrightarrow> out = InputQuit \<and> Suc i = k) \<and>
      (case out of
         InputOpen \<Rightarrow> k = n \<and> s' = state k
       | InputQuit \<Rightarrow> 0 < k \<and> s' = state k
       | InputReject \<Rightarrow> k < n \<and> malformed (raws ! k) \<and> s' = input_reject c (state k))"
proof -
  obtain out buf' budget' s' where run: "line_loop handle c 0 budget (c_inbuf (sv_client s c)) s = (out, buf', budget', s')"
    by (metis prod_cases4)
  from line_loop_lines [OF this] obtain k where
    "buf' = (after_line ^^ k) (c_inbuf (sv_client s c))" "budget' = budget - k" "pass_ok handle c n raws s out k s'"
    unfolding run n_def raws_def by auto
  then show ?thesis unfolding run prod.case pass_ok_def state_def by (intro exI [of _ k]) blast
qed

definition example_pipelined :: server where
  "example_pipelined = upd_client 0 (\<lambda>cl. cl\<lparr>c_inbuf := ''PING a'' @ [CR, LF] @ ''NI''\<rparr>) example_room"

theorem lines_dispatched_in_order_witness:
  "line_loop (\<lambda>c line s. (False, sendf c line s)) 0 0 9 (c_inbuf (sv_client example_pipelined 0)) example_pipelined =
     (InputOpen, ''NI'', 8, sendf 0 ''PING a'' example_pipelined)"
proof -
  let ?h = "\<lambda>c line s. (False, sendf c line s)" and ?buf = "''PING a'' @ [CR, LF] @ ''NI''" and ?s = example_pipelined
    and ?raws = "[''PING a'' @ [CR]]"
  have buf: "c_inbuf (sv_client ?s 0) = ?buf" by (simp add: example_pipelined_def)
  have parts: "raw_line ?buf = ''PING a'' @ [CR]" "after_line ?buf = ''NI''" "LF \<in> set ?buf" "LF \<notin> set ''NI''"
    by (simp_all add: raw_line_def after_line_def)
  have l: "input_lines ?buf = [''PING a'' @ [CR]]"
    unfolding input_lines.simps [of ?buf] input_lines.simps [of "''NI''"] parts(1,2) using parts(3,4) by simp
  have line: "\<not> malformed (''PING a'' @ [CR])" "run_line ?h 0 (''PING a'' @ [CR]) ?s = sendf 0 ''PING a'' ?s"
    "\<And>t. \<not> ends_at ?h 0 r t" for r
    by (simp_all add: malformed_def framing_violation_def chop_cr_def client_input_line_fits_def starts_with_def run_line_def ends_at_def)
  obtain out buf' budget' s' where run: "line_loop ?h 0 0 9 ?buf ?s = (out, buf', budget', s')"
    by (metis prod_cases4)
  from lines_dispatched_in_order [where handle = ?h and c = 0 and s = ?s and budget = 9] obtain k where
    k: "k \<le> min 32 (min 9 (length ?raws))" "buf' = (after_line ^^ k) ?buf" "budget' = 9 - k"
      "\<forall>i<k. ends_at ?h 0 (?raws ! i) (fold (run_line ?h 0) (take i ?raws) ?s) \<longleftrightarrow> out = InputQuit \<and> Suc i = k"
      "case out of InputOpen \<Rightarrow> k = min 32 (min 9 (length ?raws)) \<and> s' = fold (run_line ?h 0) (take k ?raws) ?s
       | InputQuit \<Rightarrow> 0 < k \<and> s' = fold (run_line ?h 0) (take k ?raws) ?s
       | InputReject \<Rightarrow> k < min 32 (min 9 (length ?raws)) \<and> malformed (?raws ! k) \<and> s' = input_reject 0 (fold (run_line ?h 0) (take k ?raws) ?s)"
    unfolding buf l run prod.case by blast
  from k(1,4,5) line(1,3) have "out = InputOpen" by (cases out) (auto simp: less_Suc_eq_0_disj dest: spec [of _ "k - 1"])
  then show ?thesis using k line(2) run buf parts(2) by simp
qed

text \<open>
  C30: a handler only ever sees well-framed lines.  Two handlers that agree on non-empty lines without NUL, CR and LF
  that fit the tag and content limits give the same pass over any input whatever, and such lines fit the line buffer.
\<close>

theorem handlers_see_clean_lines:
  assumes "\<And>line s. clean_line line \<Longrightarrow> length line \<le> IRC_INPUT_LINE_MAX \<Longrightarrow> handle c line s = handle' c line s"
  shows "process_buffered_lines handle c budget s = process_buffered_lines handle' c budget s"
proof -
  have "clean_line line \<Longrightarrow> handle c line s = handle' c line s" for line s
    using assms fits_length by (simp add: clean_line_def)
  then show ?thesis
    unfolding process_buffered_lines_def using line_loop_cong [of handle c handle'] by simp
qed

theorem handlers_see_clean_lines_witness:
  "process_buffered_lines (\<lambda>c line s. (CR \<in> set line, s)) 0 5 example_room =
   process_buffered_lines (\<lambda>c line s. (False, s)) 0 5 example_room"
  by (rule handlers_see_clean_lines) (simp add: clean_line_def)

end
