(* ===== verification/Registration.thy ===== *)
theory Registration
  imports User_Mode Messaging Geoban_Store Text_Files Input
begin

section \<open>Connection registration (src/commands/common.c, nick.c, user.c, pass.c, cap.c, ping.c, quit.c, src/nospoof.c)\<close>

text \<open>
  A connection becomes a registered client in \<open>command_maybe_register\<close>, which NICK, USER, PASS, CAP END and a correct PONG call.
  The ban databases, the GeoIP lookup, the DNSBL resolver and the random bytes of the cookie are the answers of
  \<open>sv_world\<close>; a null database handle is \<open>None\<close>, and \<open>unixepoch()\<close> is \<open>sv_clock\<close>.  The cache of persistent channel names is
  \<open>w_pchannels\<close>.
\<close>

abbreviation IRCD_NOSPOOF_COOKIE_BYTES :: nat where "IRCD_NOSPOOF_COOKIE_BYTES \<equiv> 16"
abbreviation IRC_KICK_REASON_MAX :: nat where "IRC_KICK_REASON_MAX \<equiv> 255"

definition IRCD_VERSION :: string where "IRCD_VERSION = ''ScratchIRCd-0.34''"
definition IRCD_CREATED :: string where "IRCD_CREATED = ''August 2026''"

subsection \<open>Bans at registration\<close>

text \<open>The three refusals end alike: 465, a quit reason and a shut socket.\<close>

definition refuse_registration :: "cref \<Rightarrow> string \<Rightarrow> server \<Rightarrow> server" where
  "refuse_registration c reason s =
     (let s1 = sendf c (numeric s ''465'' (command_reply_nick (sv_client s c))
                  ('':You are banned from this server.  Mail '' @ cf_admin_email (sv_config s) @ '' for more information'')) s
      in add_journal (JournalShutdown c) (upd_client c (\<lambda>cl. cl\<lparr>c_quit_reason := take IRC_QUIT_REASON_MAX reason\<rparr>) s1))"

definition who :: "client \<Rightarrow> string" where
  "who cl = command_reply_nick cl @ ''!'' @ c_user cl @ ''@'' @ c_display_host cl @ '' [real_ip='' @ c_real_ip cl @ '']''"

definition ip_identity :: "client \<Rightarrow> string" where
  "ip_identity cl = take (IRCD_MESSAGE_BUFFER_SIZE - 1) (c_user cl @ ''@'' @ c_real_ip cl)"

definition host_identity :: "client \<Rightarrow> string" where
  "host_identity cl =
     (if c_real_host cl \<noteq> [] then take (IRCD_MESSAGE_BUFFER_SIZE - 1) (c_user cl @ ''@'' @ c_real_host cl) else ip_identity cl)"

definition registration_exception_matches :: "server \<Rightarrow> int \<Rightarrow> string \<Rightarrow> string \<Rightarrow> bool" where
  "registration_exception_matches s type i1 i2 =
     (case w_exceptions (sv_world s) of
        None \<Rightarrow> False
      | Some rows \<Rightarrow>
          (case ban_exception_db_match (sv_world s) (sv_clock s) type (Some i1) (Some i2) rows of
             Some (Some _) \<Rightarrow> True | _ \<Rightarrow> False))"

definition registration_geo_banned :: "cref \<Rightarrow> server \<Rightarrow> bool \<times> server" where
  "registration_geo_banned c s =
     (let cl = sv_client s c
      in case w_geobans (sv_world s) of
           None \<Rightarrow> (False, s)
         | Some rows \<Rightarrow>
             (case geoban_db_match (sv_clock s) (c_geoip cl) rows of
                Some (Some record) \<Rightarrow>
                  (let hit = who cl @ '' matched '' @ geoban_type_name (gb_type record) @ '' {'' @ gb_value record @ ''}''
                   in if w_bans (sv_world s) \<noteq> None \<and>
                         registration_exception_matches s BAN_EXCEPTION_GEOBAN (c_real_ip cl) (ip_identity cl)
                      then (False, snotice_broadcast SNOTICE_GEOBANS (''Registration GEOBAN match exempted by ELINE: '' @ hit) s)
                      else (True, refuse_registration c (if gb_reason record \<noteq> [] then gb_reason record else ''GeoIP policy ban'')
                              (snotice_broadcast SNOTICE_GEOBANS (''Registration rejected by GEOBAN: '' @ hit) s)))
              | _ \<Rightarrow> (False, s)))"

definition registration_ban_policy_error :: "cref \<Rightarrow> server \<Rightarrow> bool \<times> server" where
  "registration_ban_policy_error c s =
     (True, refuse_registration c ''Ban policy database error''
        (snotice_broadcast (SNOTICE_SECURITY OR SNOTICE_BANS)
           (''Registration rejected because KLINE/ZLINE policy could not be read safely for '' @ who (sv_client s c)) s))"

definition exempted :: "cref \<Rightarrow> string \<Rightarrow> ban_row \<Rightarrow> server \<Rightarrow> server" where
  "exempted c name record s =
     snotice_broadcast SNOTICE_BANS
       (''Registration '' @ name @ '' match exempted by ELINE: '' @ who (sv_client s c) @ '' matched '' @ bn_mask record) s"

definition rejected :: "cref \<Rightarrow> string \<Rightarrow> ban_row \<Rightarrow> server \<Rightarrow> bool \<times> server" where
  "rejected c name record s =
     (True, refuse_registration c (if bn_reason record \<noteq> [] then bn_reason record else ''Banned'')
        (snotice_broadcast SNOTICE_BANS
           (''Registration rejected by '' @ name @ '': '' @ who (sv_client s c) @ '' matched '' @ bn_mask record) s))"

definition registration_kline :: "cref \<Rightarrow> ban_row list \<Rightarrow> server \<Rightarrow> bool \<times> server" where
  "registration_kline c rows s =
     (let cl = sv_client s c; i1 = host_identity cl; i2 = ip_identity cl
      in case ban_db_match (sv_world s) (sv_clock s) BAN_TYPE_KLINE (Some i1) (Some i2) rows of
           None \<Rightarrow> registration_ban_policy_error c s
         | Some None \<Rightarrow> (False, s)
         | Some (Some record) \<Rightarrow>
             if registration_exception_matches s BAN_EXCEPTION_KLINE i1 i2 then (False, exempted c ''KLINE'' record s)
             else rejected c ''KLINE'' record s)"

definition registration_banned :: "cref \<Rightarrow> server \<Rightarrow> bool \<times> server" where
  "registration_banned c s =
     (let cl = sv_client s c
      in case w_bans (sv_world s) of
           None \<Rightarrow> registration_ban_policy_error c s
         | Some rows \<Rightarrow>
             (case ban_db_match (sv_world s) (sv_clock s) BAN_TYPE_ZLINE (Some (c_real_ip cl)) None rows of
                None \<Rightarrow> registration_ban_policy_error c s
              | Some None \<Rightarrow> registration_kline c rows s
              | Some (Some record) \<Rightarrow>
                  if registration_exception_matches s BAN_EXCEPTION_ZLINE (c_real_ip cl) (ip_identity cl)
                  then registration_kline c rows (exempted c ''ZLINE'' record s)
                  else rejected c ''ZLINE'' record s))"

subsection \<open>RPL\_ISUPPORT\<close>

definition isupport_line :: "server \<Rightarrow> cref \<Rightarrow> string \<Rightarrow> string" where
  "isupport_line s c payload = numeric s ''005'' (c_nick (sv_client s c)) (payload @ '' :are supported by this server'')"

definition isupport_payload_fits :: "server \<Rightarrow> cref \<Rightarrow> string \<Rightarrow> bool" where
  "isupport_payload_fits s c payload \<longleftrightarrow> length (isupport_line s c payload) \<le> IRC_LINE_CONTENT_MAX"

definition send_isupport_payload :: "cref \<Rightarrow> string \<Rightarrow> server \<Rightarrow> server" where
  "send_isupport_payload c payload s =
     (if isupport_payload_fits s c payload then sendf c (isupport_line s c payload) s else s)"

function pchannels_loop :: "cref \<Rightarrow> string \<Rightarrow> string \<Rightarrow> bool \<Rightarrow> server \<Rightarrow> server" where
  "pchannels_loop c cursor payload names_in_chunk s =
     (if cursor = [] then send_isupport_payload c payload s
      else let name = takeWhile (\<lambda>x. x \<noteq> CHR '','') cursor;
               rest = drop (Suc (length name)) cursor;
               candidate = payload @ (if names_in_chunk then '','' else []) @ name;
               next = ''PCHANNELS='' @ name
           in if name = [] \<or> length name > IRC_CHANNEL_NAME_MAX then s
              else if length candidate < IRC_LINE_CONTENT_MAX + 1 \<and> isupport_payload_fits s c candidate
              then pchannels_loop c rest candidate True s
              else let s1 = send_isupport_payload c payload s
                   in if length next \<ge> IRC_LINE_CONTENT_MAX + 1 \<or> \<not> isupport_payload_fits s1 c next then s1
                      else pchannels_loop c rest next True s1)"
  by pat_completeness auto
termination
  by (relation "measure (\<lambda>(c, cursor, _). length cursor)") (auto simp: Let_def)

declare pchannels_loop.simps [simp del]

definition send_isupport :: "cref \<Rightarrow> server \<Rightarrow> server" where
  "send_isupport c s =
     (let first = take (IRCD_MESSAGE_BUFFER_SIZE - 1)
            (''CASEMAPPING=rfc1459 CHANTYPES=#& PREFIX=(qaohv)~&@%+ CHANMODES=beI,,kljBL,AciKMmnOprRSstTVz CHANLIMIT=#&:'' @
             dec IRC_MAX_CHANNELS_PER_CLIENT @ '' NICKLEN='' @ dec IRC_NICK_MAX @ '' USERLEN='' @ dec IRC_USER_MAX @
             '' HOSTLEN='' @ dec IRC_HOST_MAX @ '' CHANNELLEN='' @ dec IRC_CHANNEL_NAME_MAX @ '' TOPICLEN='' @
             dec (irc_topic_limit s) @ '' KICKLEN='' @ dec IRC_KICK_REASON_MAX @ '' MODES='' @ dec IRC_MODE_MAX_PARAMS @
             '' NETWORK='' @ cf_network_name (sv_config s));
          second_base = take (IRCD_MESSAGE_BUFFER_SIZE - 1)
            (''EXCEPTS=e INVEX=I MAXLIST=b:'' @ dec IRC_CHANNEL_MASK_LIST_MAX @ '',e:'' @ dec IRC_CHANNEL_MASK_LIST_MAX @
             '',I:'' @ dec IRC_CHANNEL_MASK_LIST_MAX @ '' WATCH='' @ dec IRCD_WATCH_MAX @ '' SILENCE='' @ dec IRCD_SILENCE_MAX @
             '' TARGMAX=PRIVMSG:1,NOTICE:1,JOIN:1,PART:1,KICK:1,NAMES:1 MSGREFTYPES=timestamp CHATHISTORY='' @
             dec (cf_history_limit (sv_config s)))
      in pchannels_loop c (w_pchannels (sv_world s)) (take IRC_LINE_CONTENT_MAX (second_base @ '' PCHANNELS='')) False
           (send_isupport_payload c first s))"

subsection \<open>Becoming registered\<close>

text \<open>The early returns at the head of \<open>command_maybe_register\<close>.\<close>

definition ready_to_register :: "server \<Rightarrow> client \<Rightarrow> bool" where
  "ready_to_register s cl \<longleftrightarrow>
     \<not> c_registered cl \<and> c_nick cl \<noteq> [] \<and> c_user cl \<noteq> [] \<and> \<not> c_cap_negotiating cl \<and>
     c_dns_state cl \<noteq> CLIENT_DNS_PENDING \<and> c_dns_state cl \<noteq> CLIENT_DNS_NONE \<and>
     (cf_server_password (sv_config s) = [] \<or> c_pass_accepted cl) \<and>
     (cf_nospoof_enabled (sv_config s) \<longrightarrow> c_nospoof_started cl \<and> c_nospoof_verified cl)"

definition registration_geoip :: "cref \<Rightarrow> server \<Rightarrow> server" where
  "registration_geoip c s =
     (if c_geoip_complete (sv_client s c) then s
      else upd_client c (\<lambda>cl. cl\<lparr>c_geoip := w_geoip (sv_world s) (c_real_ip cl), c_geoip_complete := True\<rparr>) s)"

text \<open>\<open>True\<close> when the DNSBL lookup has been submitted and registration waits for it.\<close>

definition registration_dnsbl :: "cref \<Rightarrow> server \<Rightarrow> bool \<times> server" where
  "registration_dnsbl c s =
     (if c_dnsbl_state (sv_client s c) \<noteq> CLIENT_DNSBL_NONE then (False, s)
      else if cf_dnsbls (sv_config s) = [] then (False, upd_client c (\<lambda>cl. cl\<lparr>c_dnsbl_state := CLIENT_DNSBL_CLEAR\<rparr>) s)
      else if w_dnsbl_submits (sv_world s)
      then (True, upd_client c (\<lambda>cl. cl\<lparr>c_dnsbl_state := CLIENT_DNSBL_PENDING,
              c_dnsbl_deadline := sv_clock s + uint (cf_dnsbl_timeout_seconds (sv_config s))\<rparr>) s)
      else (False, snotice_broadcast (SNOTICE_DNS OR SNOTICE_FLOOD)
              (''DNSBL resolver queue saturated/unavailable for '' @ c_real_ip (sv_client s c) @ ''; registration fails open'')
              (upd_client c (\<lambda>cl. cl\<lparr>c_dnsbl_state := CLIENT_DNSBL_ERROR\<rparr>) s)))"

definition complete_registration :: "cref \<Rightarrow> server \<Rightarrow> server" where
  "complete_registration c s =
     (let s1 = upd_client c (\<lambda>cl. (usermode_apply_cloak s cl)\<lparr>c_registered := True\<rparr>) s;
          cl = sv_client s1 c;
          s2 = fold (\<lambda>l. sendf c l)
            [numeric s1 ''001'' (c_nick cl) ('':Welcome to the '' @ cf_network_name (sv_config s1) @ '' IRC Network '' @ client_identity cl),
             numeric s1 ''002'' (c_nick cl) ('':Your host is '' @ server_name s1 @ '' running version '' @ IRCD_VERSION),
             numeric s1 ''003'' (c_nick cl) ('':This server was created '' @ IRCD_CREATED),
             numeric s1 ''004'' (c_nick cl) (server_name s1 @ '' '' @ IRCD_VERSION @ ''  '')] s1
      in snotice_broadcast SNOTICE_CONNECTIONS
           (''Client registered: '' @ client_identity cl @ '' [real_ip='' @ c_real_ip cl @ '' real_host='' @
            (if c_real_host cl \<noteq> [] then c_real_host cl else ''-'') @ (if c_webirc_active cl then '' webirc'' else []) @ '']'')
           (presence_watch_online c (command_send_motd c (send_isupport c s2))))"

definition command_maybe_register :: "cref \<Rightarrow> server \<Rightarrow> server" where
  "command_maybe_register c s =
     (if \<not> ready_to_register s (sv_client s c) then s
      else let (geo_banned, s2) = registration_geo_banned c (registration_geoip c s)
           in if geo_banned then s2
              else let (waiting, s3) = registration_dnsbl c s2
                   in if waiting \<or> c_dnsbl_state (sv_client s3 c) = CLIENT_DNSBL_PENDING \<or>
                         c_dnsbl_state (sv_client s3 c) = CLIENT_DNSBL_LISTED
                      then s3
                      else let (banned, s4) = registration_banned c s3
                           in if banned then s4 else complete_registration c s4)"

subsection \<open>The PING cookie and the CTCP probes (nospoof.c)\<close>

text \<open>\<open>%02x\<close> of every byte.\<close>

definition hex_byte :: "char \<Rightarrow> string" where
  "hex_byte b = map (\<lambda>n. ascii_lower (hex_digit n)) [code b div 16, code b mod 16]"

definition hex_cookie :: "server \<Rightarrow> string \<times> server" where
  "hex_cookie s =
     (case w_random (sv_world s) of
        [] \<Rightarrow> ([], s)
      | r # rs \<Rightarrow>
          (case r of None \<Rightarrow> [] | Some bytes \<Rightarrow> concat (map hex_byte (take IRCD_NOSPOOF_COOKIE_BYTES bytes)),
           s\<lparr>sv_world := (sv_world s)\<lparr>w_random := rs\<rparr>\<rparr>))"

definition ctcp :: "string \<Rightarrow> string" where
  "ctcp x = [CHR 0x01] @ x @ [CHR 0x01]"

definition request_version :: "cref \<Rightarrow> server \<Rightarrow> server" where
  "request_version c s =
     (let cl = sv_client s c
      in if \<not> cf_nospoof_enabled (sv_config s) \<or> \<not> c_nospoof_verified cl \<or> c_version_requested cl \<or> c_nick cl = [] then s
         else upd_client c (\<lambda>cl. cl\<lparr>c_version_requested := True\<rparr>)
                (sendf c ('':'' @ server_name s @ '' PRIVMSG '' @ c_nick cl @ '' :'' @ ctcp ''VERSION'') s))"

definition nospoof_start :: "cref \<Rightarrow> server \<Rightarrow> server" where
  "nospoof_start c s =
     (let cl = sv_client s c
      in if \<not> cf_nospoof_enabled (sv_config s) \<or> c_nospoof_started cl \<or> c_nick cl = [] then s
         else let (cookie, s1) = hex_cookie s;
                  s2 = upd_client c (\<lambda>cl. cl\<lparr>c_nospoof_cookie := cookie\<rparr>) s1
              in if cookie = [] then s2
                 else sendf c (''PING :'' @ cookie)
                        (upd_client c (\<lambda>cl. cl\<lparr>c_nospoof_started := True,
                           c_nospoof_deadline := sv_clock s + uint (cf_nospoof_timeout_seconds (sv_config s))\<rparr>) s2))"

definition nospoof_request_website :: "cref \<Rightarrow> server \<Rightarrow> server" where
  "nospoof_request_website c s =
     (let cl = sv_client s c
      in if \<not> cf_nospoof_enabled (sv_config s) \<or> \<not> c_nospoof_verified cl \<or> \<not> c_webirc_active cl \<or> c_website_requested cl \<or>
            c_nick cl = [] then s
         else upd_client c (\<lambda>cl. cl\<lparr>c_website_requested := True\<rparr>)
                (sendf c ('':'' @ server_name s @ '' PRIVMSG '' @ c_nick cl @ '' :'' @ ctcp ''WEBSITE'') s))"

definition clean_param :: "string \<Rightarrow> string" where
  "clean_param params = (let p = dropWhile (\<lambda>x. x = CHR '' '') params in if starts_with '':'' p then drop 1 p else p)"

text \<open>\<open>strrchr(token, ' ') + 1\<close>.\<close>

definition after_last_space :: "string \<Rightarrow> string option" where
  "after_last_space x = (if CHR '' '' \<in> set x then Some (rev (takeWhile (\<lambda>c. c \<noteq> CHR '' '') (rev x))) else None)"

definition nospoof_handle_pong :: "cref \<Rightarrow> string option \<Rightarrow> server \<Rightarrow> server" where
  "nospoof_handle_pong c params s =
     (case params of
        None \<Rightarrow> s
      | Some p \<Rightarrow>
          let cl = sv_client s c; token = clean_param p;
              token1 = (case after_last_space token of None \<Rightarrow> token | Some l \<Rightarrow> clean_param l)
          in if \<not> c_nospoof_started cl \<or> c_nospoof_verified cl \<or> token1 \<noteq> c_nospoof_cookie cl then s
             else command_maybe_register c (nospoof_request_website c (request_version c
                    (upd_client c (\<lambda>cl. cl\<lparr>c_nospoof_verified := True, c_nospoof_cookie := []\<rparr>) s))))"

subsection \<open>PING, PONG and QUIT\<close>

definition command_ping :: "cref \<Rightarrow> string option \<Rightarrow> server \<Rightarrow> command_result \<times> server" where
  "command_ping c params s =
     (let token = (case params of None \<Rightarrow> server_name s | Some p \<Rightarrow> if p \<noteq> [] then p else server_name s);
          start = '':'' @ server_name s @ '' PONG '' @ server_name s @ '' :''
      in (COMMAND_KEEP_CLIENT,
          if length start \<ge> IRC_LINE_CONTENT_MAX then s
          else sendf c (start @ take (IRC_LINE_CONTENT_MAX - length start) token) s))"

definition pong_token :: "string option \<Rightarrow> string option" where
  "pong_token params =
     (case params of
        None \<Rightarrow> None
      | Some p \<Rightarrow>
          let token = dropWhile (\<lambda>x. x = CHR '' '') p;
              token1 = (case after_last_space token of None \<Rightarrow> token | Some l \<Rightarrow> l);
              token2 = (if starts_with '':'' token1 then drop 1 token1 else token1)
          in if token2 \<noteq> [] then Some token2 else None)"

definition command_pong :: "cref \<Rightarrow> string option \<Rightarrow> server \<Rightarrow> command_result \<times> server" where
  "command_pong c params s =
     (let s1 = nospoof_handle_pong c params s; cl = sv_client s1 c
      in (COMMAND_KEEP_CLIENT,
          if c_ping_pending cl \<and> pong_token params = Some (c_ping_token cl)
          then upd_client c (\<lambda>cl. cl\<lparr>c_ping_pending := False, c_ping_deadline := 0, c_ping_token := [],
                 c_last_liveness_activity := sv_clock s1\<rparr>) s1
          else s1))"

definition quit_wire_fits :: "client \<Rightarrow> string \<Rightarrow> bool" where
  "quit_wire_fits cl reason \<longleftrightarrow>
     1 + length (c_nick cl) + 1 + length (c_user cl) + 1 + length (c_display_host cl) + length '' QUIT :'' + length reason
       \<le> IRC_LINE_CONTENT_MAX"

definition command_quit :: "cref \<Rightarrow> string option \<Rightarrow> server \<Rightarrow> command_result \<times> server" where
  "command_quit c params s =
     (let reason = (case params of None \<Rightarrow> [] | Some p \<Rightarrow> if starts_with '':'' p then drop 1 p else p);
          cl = sv_client s c;
          reason1 = (if reason = [] \<or> length reason > IRC_QUIT_REASON_MAX \<or> (c_registered cl \<and> \<not> quit_wire_fits cl reason)
                     then IRC_DEFAULT_QUIT_REASON else reason)
      in (COMMAND_DISCONNECT_CLIENT, upd_client c (\<lambda>cl. cl\<lparr>c_quit_reason := take IRC_QUIT_REASON_MAX reason1\<rparr>) s))"

subsection \<open>NICK\<close>

definition valid_nick_char :: "char \<Rightarrow> bool" where
  "valid_nick_char ch \<longleftrightarrow> isalnum ch \<or> ch \<in> set (''-_[]`^{}|'' @ [CHR 0x5C])"

definition valid_nickname :: "string \<Rightarrow> bool" where
  "valid_nickname nick =
     (case nick of
        [] \<Rightarrow> False
      | x # xs \<Rightarrow> length nick \<le> IRC_NICK_MAX \<and> (isalpha x \<or> x \<in> set (''[]`_^{|}'' @ [CHR 0x5C])) \<and> list_all valid_nick_char xs)"

definition service_nickname_reserved :: "string \<Rightarrow> bool" where
  "service_nickname_reserved nick \<longleftrightarrow>
     strcaseeq nick ''NickServ'' \<or> strcaseeq nick ''ChanServ'' \<or> strcaseeq nick ''MemoServ''"

definition nickserv_config_reserved_nickname :: "server \<Rightarrow> string \<Rightarrow> bool" where
  "nickserv_config_reserved_nickname s nick \<longleftrightarrow> list_ex (\<lambda>r. strcaseeq r nick) (cf_reserved_nicks (sv_config s))"

definition nickserv_reserved_nickname_allowed :: "client \<Rightarrow> bool" where
  "nickserv_reserved_nickname_allowed cl \<longleftrightarrow>
     client_mode_has (c_modes cl) CLIENT_MODE_OPER \<or> client_mode_has (c_modes cl) CLIENT_MODE_NETADMIN"

definition broadcast_nick_change :: "cref \<Rightarrow> string \<Rightarrow> server \<Rightarrow> server" where
  "broadcast_nick_change c old_nick s =
     (let cl = sv_client s c;
          message = take (IRCD_MESSAGE_BUFFER_SIZE - 1)
            ('':'' @ old_nick @ ''!'' @ c_user cl @ ''@'' @ c_display_host cl @ '' NICK :'' @ c_nick cl)
      in send_each (\<lambda>_. message) (filter (\<lambda>d. d \<noteq> c \<and> clients_share_channel s c d) (sv_clients s) @ [c]) s)"

text \<open>The index: out with the old name, in with the new one; without memory the client is left with no name.\<close>

definition set_nick :: "cref \<Rightarrow> string \<Rightarrow> server \<Rightarrow> bool \<times> server" where
  "set_nick c nick s =
     (let old = c_nick (sv_client s c);
          t = (if old \<noteq> [] then snd (hash_remove (sv_clients_by_nick s) old) else sv_clients_by_nick s);
          (rc, t1) = hash_set (sv_alloc s) t nick c
      in (rc = 0, upd_client c (\<lambda>cl. cl\<lparr>c_nick := (if rc = 0 then take IRC_NICK_MAX nick else [])\<rparr>) (s\<lparr>sv_clients_by_nick := t1\<rparr>)))"

definition command_nick :: "cref \<Rightarrow> string option \<Rightarrow> server \<Rightarrow> command_result \<times> server" where
  "command_nick c params s =
     (let cl = sv_client s c; me = command_reply_nick cl
      in case params of
           None \<Rightarrow> (COMMAND_KEEP_CLIENT, sendf c (numeric s ''431'' me '':No nickname given'') s)
         | Some p \<Rightarrow>
             let nick = takeWhile (\<lambda>x. x \<noteq> CHR '' '') p; announce = c_registered cl \<and> c_nick cl \<noteq> []
             in if p = [] then (COMMAND_KEEP_CLIENT, sendf c (numeric s ''431'' me '':No nickname given'') s)
                else if \<not> valid_nickname nick
                then (COMMAND_KEEP_CLIENT, sendf c (numeric s ''432'' me (nick @ '' :Erroneous Nickname: Illegal characters'')) s)
                else if service_nickname_reserved nick \<or>
                        (nickserv_config_reserved_nickname s nick \<and> \<not> nickserv_reserved_nickname_allowed cl)
                then (COMMAND_KEEP_CLIENT, sendf c (numeric s ''437'' me (nick @ '' :is a reserved nick'')) s)
                else if hash_get (sv_clients_by_nick s) nick \<notin> {None, Some c}
                then (COMMAND_KEEP_CLIENT, sendf c (numeric s ''433'' me (nick @ '' :Nickname is already in use.'')) s)
                else let s1 = (if announce then presence_watch_offline c (c_nick cl) (presence_whowas_record c (c_nick cl) s) else s);
                         (ok, s2) = set_nick c nick s1
                     in if \<not> ok then (COMMAND_KEEP_CLIENT, s2)
                        else let s3 = (if announce
                                       then server_pmstats_nick_change (c_nick cl) (c_nick (sv_client s2 c))
                                              (presence_watch_online c (broadcast_nick_change c (c_nick cl) s2))
                                       else s2);
                                 s4 = (if \<not> c_registered cl then nospoof_start c s3 else s3)
                             in (COMMAND_KEEP_CLIENT, command_maybe_register c s4))"

subsection \<open>USER and PASS\<close>

definition valid_user_char :: "char \<Rightarrow> bool" where
  "valid_user_char ch \<longleftrightarrow> isalnum ch \<or> ch \<in> set ''-_.''"

definition valid_username :: "string \<Rightarrow> bool" where
  "valid_username user \<longleftrightarrow> user \<noteq> [] \<and> length user \<le> IRC_USER_MAX \<and> list_all valid_user_char user"

definition valid_realname :: "string \<Rightarrow> bool" where
  "valid_realname realname \<longleftrightarrow> realname \<noteq> [] \<and> length realname \<le> IRC_REALNAME_MAX \<and>
     list_all (\<lambda>ch. \<not> (code ch < 0x20 \<or> code ch = 0x7F)) realname"

definition command_user :: "cref \<Rightarrow> string option \<Rightarrow> server \<Rightarrow> command_result \<times> server" where
  "command_user c params s =
     (let cl = sv_client s c; me = command_reply_nick cl;
          (user, r1) = (case params of None \<Rightarrow> (None, []) | Some p \<Rightarrow> tok1 p);
          (mode, r2) = tok1 r1; (unused, r3) = tok1 r2; real = tok_rest r3
      in if c_registered cl \<or> c_user cl \<noteq> []
         then (COMMAND_KEEP_CLIENT, sendf c (numeric s ''462'' me '':You may not reregister'') s)
         else (case (user, unused, real) of
                 (Some u, Some _, Some r) \<Rightarrow>
                   let realname = (if starts_with '':'' r then drop 1 r else r)
                   in if \<not> valid_username u \<or> \<not> valid_realname realname
                      then (COMMAND_KEEP_CLIENT, sendf c (numeric s ''468'' me '':Invalid USER identity'') s)
                      else (COMMAND_KEEP_CLIENT, command_maybe_register c
                              (upd_client c (\<lambda>cl. cl\<lparr>c_user := take IRC_USER_MAX u, c_realname := take IRC_REALNAME_MAX realname\<rparr>) s))
               | _ \<Rightarrow> (COMMAND_KEEP_CLIENT, sendf c (numeric s ''461'' me ''USER :Not enough parameters'') s)))"

definition command_pass :: "cref \<Rightarrow> string option \<Rightarrow> server \<Rightarrow> command_result \<times> server" where
  "command_pass c params s =
     (let cl = sv_client s c; me = command_reply_nick cl
      in if c_registered cl then reply c ''462'' '':You may not reregister'' s
         else (case Option.bind params (strtok '' '') of
                 None \<Rightarrow> (COMMAND_KEEP_CLIENT, sendf c (numeric s ''461'' me ''PASS :Not enough parameters'') s)
               | Some (password, _) \<Rightarrow>
                   if cf_server_password (sv_config s) = [] \<or> password = cf_server_password (sv_config s)
                   then (COMMAND_KEEP_CLIENT, command_maybe_register c (upd_client c (\<lambda>cl. cl\<lparr>c_pass_accepted := True\<rparr>) s))
                   else (COMMAND_KEEP_CLIENT, sendf c (numeric s ''464'' me '':Password Incorrect'')
                           (upd_client c (\<lambda>cl. cl\<lparr>c_pass_accepted := False\<rparr>) s))))"

subsection \<open>CAP\<close>

definition capability_table :: "(string \<times> u64) list" where
  "capability_table =
     [(''account-notify'', CLIENT_CAP_ACCOUNT_NOTIFY), (''away-notify'', CLIENT_CAP_AWAY_NOTIFY), (''batch'', CLIENT_CAP_BATCH),
      (''draft/chathistory'', CLIENT_CAP_CHATHISTORY), (''extended-join'', CLIENT_CAP_EXTENDED_JOIN),
      (''labeled-response'', CLIENT_CAP_LABELED_RESPONSE), (''message-tags'', CLIENT_CAP_MESSAGE_TAGS),
      (''sasl'', CLIENT_CAP_SASL), (''server-time'', CLIENT_CAP_SERVER_TIME)]"

definition CAP_ADVERTISED_LEGACY :: string where
  "CAP_ADVERTISED_LEGACY =
     ''account-notify away-notify batch draft/chathistory extended-join labeled-response message-tags sasl server-time''"

definition CAP_ADVERTISED_302 :: string where
  "CAP_ADVERTISED_302 =
     ''account-notify away-notify batch draft/chathistory extended-join labeled-response message-tags sasl=PLAIN server-time''"

definition send_cap :: "cref \<Rightarrow> string \<Rightarrow> string \<Rightarrow> server \<Rightarrow> server" where
  "send_cap c subcommand caps s =
     sendf c ('':'' @ server_name s @ '' CAP '' @ command_reply_nick (sv_client s c) @ '' '' @ subcommand @ '' :'' @ caps) s"

definition capability_bit :: "string \<Rightarrow> u64" where
  "capability_bit name = (case find (\<lambda>(n, _). n = name) capability_table of Some (_, b) \<Rightarrow> b | None \<Rightarrow> 0)"

definition enabled_capabilities :: "client \<Rightarrow> string" where
  "enabled_capabilities cl = join (CHR '' '') (map fst (filter (\<lambda>(_, b). c_capabilities cl AND b \<noteq> 0) capability_table))"

fun request_loop :: "string list \<Rightarrow> u64 \<Rightarrow> u64 option" where
  "request_loop [] proposed = Some proposed"
| "request_loop (token # ts) proposed =
     (let disable = starts_with ''-'' token; name = (if disable then drop 1 token else token); b = capability_bit name
      in if name = [] \<or> b = 0 then None
         else request_loop ts (if disable then proposed AND NOT b else proposed OR b))"

definition requested_capabilities :: "client \<Rightarrow> string \<Rightarrow> u64 option" where
  "requested_capabilities cl request =
     (if request = [] then None
      else case request_loop (tokens '' '' (take (IRCD_MESSAGE_BUFFER_SIZE - 1) request)) (c_capabilities cl) of
             None \<Rightarrow> None
           | Some proposed \<Rightarrow>
               if proposed AND CLIENT_CAP_LABELED_RESPONSE \<noteq> 0 \<and> proposed AND CLIENT_CAP_BATCH = 0 then None else Some proposed)"

definition cap_ls :: "cref \<Rightarrow> string option \<Rightarrow> server \<Rightarrow> server" where
  "cap_ls c rest s =
     (let (version, _, unread) = (case rest of None \<Rightarrow> (0, False, []) | Some x \<Rightarrow> strtoul x);
          raise = (\<lambda>v :: u32. if rest \<noteq> None \<and> unread \<noteq> the rest \<and> unread = [] \<and> version > unat v
                     then (if version > 302 then 302 else word_of_nat version) else v)
      in send_cap c ''LS'' (if version \<ge> 302 then CAP_ADVERTISED_302 else CAP_ADVERTISED_LEGACY)
           (upd_client c (\<lambda>cl. cl\<lparr>c_cap_version := raise (c_cap_version cl), c_cap_negotiating := True\<rparr>) s))"

definition cap_req :: "cref \<Rightarrow> string \<Rightarrow> server \<Rightarrow> server" where
  "cap_req c request s =
     (let s1 = upd_client c (\<lambda>cl. cl\<lparr>c_cap_negotiating := True\<rparr>) s
      in case requested_capabilities (sv_client s1 c) request of
           Some proposed \<Rightarrow> upd_client c (\<lambda>cl. cl\<lparr>c_capabilities := proposed\<rparr>) (send_cap c ''ACK'' request s1)
         | None \<Rightarrow> send_cap c ''NAK'' request s1)"

definition command_cap :: "cref \<Rightarrow> string option \<Rightarrow> server \<Rightarrow> command_result \<times> server" where
  "command_cap c params s =
     (COMMAND_KEEP_CLIENT,
      case Option.bind params (strtok '' '') of
        None \<Rightarrow> s
      | Some (subcommand, r) \<Rightarrow>
          let rest = map_option (dropWhile (\<lambda>x. x = CHR '' '' \<or> x = CHR '':'')) (tok_rest r)
          in if strcaseeq subcommand ''LS'' then cap_ls c rest s
             else if strcaseeq subcommand ''LIST'' then send_cap c ''LIST'' (enabled_capabilities (sv_client s c)) s
             else if strcaseeq subcommand ''REQ'' then cap_req c (case rest of None \<Rightarrow> [] | Some x \<Rightarrow> x) s
             else if strcaseeq subcommand ''END'' then
               command_maybe_register c (upd_client c (\<lambda>cl. cl\<lparr>c_cap_negotiating := False\<rparr>) s)
             else s)"

subsection \<open>The handlers respect the server\<close>

lemma refuse_registration_keeps: "keeps c s t \<Longrightarrow> keeps c s (refuse_registration d r t)"
  by (simp add: refuse_registration_def Let_def messaging_keeps keeps_upd_client keeps_sends plain_update_def)

lemma geo_banned_keeps: "keeps c s (snd (registration_geo_banned c s))"
  by (auto simp: registration_geo_banned_def Let_def keeps_sends refuse_registration_keeps split: option.split)

lemma ban_policy_keeps:
  assumes "keeps c s t"
  shows "keeps c s (snd (registration_ban_policy_error d t))" "keeps c s (exempted d n r t)" "keeps c s (snd (rejected d n r t))"
  using assms by (simp_all add: registration_ban_policy_error_def exempted_def rejected_def refuse_registration_keeps keeps_sends)

lemma kline_keeps: "keeps c s (snd (registration_kline d rows s))"
  by (auto simp: registration_kline_def Let_def ban_policy_keeps split: option.split)

lemma banned_keeps: "keeps c s (snd (registration_banned d s))"
  by (auto simp: registration_banned_def Let_def ban_policy_keeps kline_keeps
      keeps_trans [OF ban_policy_keeps(2) [OF keeps_refl] kline_keeps] split: option.split)

lemma isupport_payload_io [simp, intro!]: "io_only s (send_isupport_payload c p s)"
  by (simp add: send_isupport_payload_def)

lemma pchannels_loop_io [simp, intro!]: "io_only s (pchannels_loop c cursor p b s)"
proof (induction c cursor p b s rule: pchannels_loop.induct)
  case (1 c cursor p b s)
  show ?case
    using 1 io_only_trans [OF isupport_payload_io [of s c p]] by (subst pchannels_loop.simps) (auto simp: Let_def)
qed

lemma send_isupport_io [simp, intro!]: "io_only s (send_isupport c s)"
  unfolding send_isupport_def Let_def by (rule io_only_trans [OF isupport_payload_io pchannels_loop_io])

lemma complete_registration_keeps: "keeps c s (complete_registration c s)"
proof -
  let ?f = "\<lambda>cl. (usermode_apply_cloak s cl)\<lparr>c_registered := True\<rparr>"
  have "plain_update ?f"
    using plain_updates(2) [of s] by (simp add: plain_update_def)
  then have s1: "keeps c s (upd_client c ?f s)" by (rule keeps_upd_client [OF keeps_refl])
  have "io_only t (fold (\<lambda>l. sendf c l) ls t)" for ls t by (rule io_only_fold) simp
  from keeps_io [OF keeps_io [OF keeps_io [OF s1 this] send_isupport_io] send_motd_io]
  show ?thesis unfolding complete_registration_def Let_def by (rule keeps_sends(2) [OF keeps_sends(9)])
qed

lemma registration_steps_keep:
  "keeps c s (registration_geoip c s)" "keeps c s (snd (registration_dnsbl c s))"
  by (simp_all add: registration_geoip_def registration_dnsbl_def keeps_upd_client keeps_sends plain_update_def)

lemma maybe_register_keeps: "keeps c s (command_maybe_register c s)"
proof -
  have s2: "keeps c s (snd (registration_geo_banned c (registration_geoip c s)))"
    by (rule keeps_trans [OF registration_steps_keep(1) geo_banned_keeps])
  note s3 = keeps_trans [OF s2 registration_steps_keep(2)]
  note s4 = keeps_trans [OF s3 banned_keeps]
  show ?thesis
    using s2 s3 s4 keeps_trans [OF s4 complete_registration_keeps]
    by (simp add: command_maybe_register_def case_prod_beta Let_def)
qed

lemma then_register_keeps: "keeps c s t \<Longrightarrow> keeps c s (command_maybe_register c t)"
  by (rule keeps_trans [OF _ maybe_register_keeps])

lemma nospoof_keeps:
  assumes "keeps c s t"
  shows "keeps c s (request_version d t)" "keeps c s (nospoof_start d t)" "keeps c s (nospoof_request_website d t)"
proof -
  have "keeps c s (snd (hex_cookie t))"
    using assms by (auto simp: hex_cookie_def keeps_fields split: list.split)
  then show "keeps c s (nospoof_start d t)"
    using assms by (auto simp: nospoof_start_def Let_def case_prod_beta keeps_sends keeps_upd_client plain_update_def)
qed (use assms in \<open>auto simp: request_version_def nospoof_request_website_def Let_def keeps_sends keeps_upd_client plain_update_def\<close>)

lemma handle_pong_keeps: "keeps c s (nospoof_handle_pong c params s)"
  by (auto simp: nospoof_handle_pong_def Let_def plain_update_def
      intro!: then_register_keeps nospoof_keeps keeps_upd_client split: option.split)

lemma command_ping_keeps: "keeps c s (snd (command_ping c params s))"
  by (auto simp: command_ping_def Let_def keeps_sends)

lemma command_pong_keeps: "keeps c s (snd (command_pong c params s))"
  by (simp add: command_pong_def Let_def handle_pong_keeps keeps_upd_client plain_update_def)

lemma command_quit_keeps: "keeps c s (snd (command_quit c params s))"
  by (simp add: command_quit_def Let_def keeps_upd_client plain_update_def)

lemma command_user_keeps: "keeps c s (snd (command_user c params s))"
proof -
  obtain user r1 where 1: "(case params of None \<Rightarrow> (None, []) | Some p \<Rightarrow> tok1 p) = (user, r1)" by fastforce
  obtain mode r2 where 2: "tok1 r1 = (mode, r2)" by fastforce
  obtain unused r3 where 3: "tok1 r2 = (unused, r3)" by fastforce
  show ?thesis
    by (cases user; cases unused; cases "tok_rest r3")
       (simp_all add: command_user_def 1 2 3 Let_def if_distrib [of snd] keeps_sends then_register_keeps keeps_upd_client plain_update_def)
qed

lemma command_pass_keeps: "keeps c s (snd (command_pass c params s))"
  by (auto simp: command_pass_def Let_def case_prod_beta plain_update_def replies_keeps
      intro!: then_register_keeps keeps_upd_client keeps_sends split: option.split)

lemma send_cap_keeps: "keeps c s t \<Longrightarrow> keeps c s (send_cap d sub caps t)"
  by (simp add: send_cap_def keeps_sends)

lemma cap_keeps: "keeps c s (cap_ls d rest s)" "keeps c s (cap_req d request s)"
  by (simp_all add: cap_ls_def cap_req_def Let_def case_prod_beta keeps_upd_client plain_update_def send_cap_keeps split: option.split)

lemma command_cap_keeps: "keeps c s (snd (command_cap c params s))"
  by (simp add: command_cap_def Let_def case_prod_beta cap_keeps send_cap_keeps then_register_keeps keeps_upd_client plain_update_def
      split: option.split)

text \<open>A change of nickname together with the index.\<close>

lemma server_wf_set_nick:
  assumes wf: "server_wf s" and c: "c \<in> set (sv_clients s)"
    and inv: "hash_inv t" and idx: "index_of (hash_get t) ((nick_of s)(c := (if n = [] then None else Some n)))"
  shows "server_wf (upd_client c (\<lambda>cl. cl\<lparr>c_nick := n\<rparr>) (s\<lparr>sv_clients_by_nick := t\<rparr>))"
proof -
  let ?s = "upd_client c (\<lambda>cl. cl\<lparr>c_nick := n\<rparr>) (s\<lparr>sv_clients_by_nick := t\<rparr>)"
  have "id_of ?s = id_of s" "chan_of ?s = chan_of s" "ip_clients ?s = ip_clients s"
    by (auto simp: fun_eq_iff id_of_def chan_of_def ip_clients_def upd_client_def intro!: filter_cong)
  moreover have "nick_of ?s = (nick_of s)(c := (if n = [] then None else Some n))"
    using c by (auto simp: fun_eq_iff nick_of_def upd_client_def)
  moreover have "c_channels (sv_client ?s d) = c_channels (sv_client s d)"
    "c_channel_count (sv_client ?s d) = c_channel_count (sv_client s d)" "c_id (sv_client ?s d) = c_id (sv_client s d)" for d
    by (simp_all add: upd_client_def)
  ultimately show ?thesis
    using wf inv idx by (simp add: wf_defs)
qed

lemma set_nick_keeps:
  assumes free: "hash_get (sv_clients_by_nick s) nick \<in> {None, Some c}" and "nick \<noteq> []" "length nick \<le> IRC_NICK_MAX"
  shows "keeps c s (snd (set_nick c nick s))"
  unfolding keeps_def
proof (intro impI, elim conjE)
  assume wf: "server_wf s" and c: "c \<in> set (sv_clients s)"
  let ?old = "c_nick (sv_client s c)" and ?names = "sv_clients_by_nick s"
  let ?t = "if ?old \<noteq> [] then snd (hash_remove ?names ?old) else ?names" and ?nm = "(nick_of s)(c := None)"
  have inv0: "hash_inv ?names" and idx0: "index_of (hash_get ?names) (nick_of s)" using wf by (simp_all add: wf_defs)
  have nm: "nick_of s c = (if ?old = [] then None else Some ?old)" using c by (simp add: nick_of_def)
  have inv: "hash_inv ?t" using inv0 by (simp add: hash_remove_inv)
  have idx: "index_of (hash_get ?t) ?nm"
  proof (cases "?old = []")
    case True
    then have "?nm = nick_of s" using nm by (simp add: fun_eq_iff)
    then show ?thesis using True idx0 by simp
  next
    case False
    then show ?thesis using ht.index_delete [OF inv0 idx0, of c ?old ?old] nm by simp
  qed
  have "hash_get ?t nick = None"
  proof (rule ccontr)
    assume "hash_get ?t nick \<noteq> None"
    then obtain d where d: "hash_get ?t nick = Some d" by blast
    then have "?nm d \<noteq> None" using idx by (auto simp: index_of_def)
    then have "d \<noteq> c" by auto
    moreover have "hash_get ?names nick = Some d"
      using d hash_remove_get [OF inv0, of ?old nick] by (auto split: if_splits)
    ultimately show False using free by auto
  qed
  then have ins: "index_of (hash_get (snd (hash_set True ?t nick c))) (?nm(c := Some nick))"
    using ht.index_insert [OF inv idx, of nick c] by simp
  obtain rc t1 where set: "hash_set (sv_alloc s) ?t nick c = (rc, t1)" by fastforce
  have "hash_inv t1" using hash_set_inv [OF inv, of "sv_alloc s" nick c] set by simp
  moreover have "index_of (hash_get t1) ((nick_of s)(c := (if rc = 0 then Some nick else None)))"
  proof (cases "rc = 0")
    case True
    have "t1 = snd (hash_set True ?t nick c)"
      using set True by (auto simp: hash_set_def Let_def split: if_splits option.splits)
    then show ?thesis using ins True by simp
  next
    case False
    then have "t1 = ?t" using hash_set_failed [of "sv_alloc s" ?t nick c] set by simp
    then show ?thesis using idx False by simp
  qed
  ultimately show "server_wf (snd (set_nick c nick s)) \<and> c \<in> set (sv_clients (snd (set_nick c nick s)))"
    using server_wf_set_nick [OF wf c, of t1 nick] server_wf_set_nick [OF wf c, of t1 "[]"] c set assms(2,3)
    by (cases "rc = 0") (simp_all add: set_nick_def Let_def)
qed

lemma command_nick_keeps: "keeps c s (snd (command_nick c params s))"
proof (cases params)
  case (Some p)
  let ?cl = "sv_client s c" and ?nick = "takeWhile (\<lambda>x. x \<noteq> CHR '' '') p"
  let ?announce = "c_registered ?cl \<and> c_nick ?cl \<noteq> []"
  let ?s1 = "if ?announce then presence_watch_offline c (c_nick ?cl) (presence_whowas_record c (c_nick ?cl) s) else s"
  obtain ok s2 where set: "set_nick c ?nick ?s1 = (ok, s2)" by fastforce
  have "keeps c s s2" if "valid_nickname ?nick" "hash_get (sv_clients_by_nick s) ?nick \<in> {None, Some c}"
  proof -
    have "keeps c s ?s1" by (simp add: keeps_sends)
    moreover have "keeps c ?s1 (snd (set_nick c ?nick ?s1))"
      using that by (intro set_nick_keeps) (auto simp: valid_nickname_def split: list.splits)
    ultimately show ?thesis using set keeps_trans [of c s ?s1 s2] by simp
  qed
  then show ?thesis
    using set by (auto simp: command_nick_def Some Let_def broadcast_nick_change_def keeps_sends
        intro!: then_register_keeps nospoof_keeps)
qed (simp add: command_nick_def Let_def keeps_sends)

subsection \<open>Who is admitted\<close>























end
