(* ===== verification/User_Queries.thy ===== *)
theory User_Queries
  imports Registration
begin

section \<open>Information and presence commands (src/commands/away.c, ison.c, list.c, lusers.c, silence.c, userhost.c, userip.c, watch.c, who.c, whois.c, whowas.c)\<close>

text \<open>
  The commands that read the state of other clients.  Real addresses are for the client itself and for operators: the main result
  is that the answers of WHO, WHOIS and USERHOST to anybody else do not depend on them.
  \<open>w_strftime\<close> stands for \<open>localtime_r\<close> and \<open>strftime\<close>; the statics of LUSERS are in \<open>w_high_water\<close>.
\<close>

subsection \<open>AWAY\<close>

definition set_away :: "cref \<Rightarrow> string \<Rightarrow> server \<Rightarrow> server" where
  "set_away c message s =
     (let s1 = upd_client c (\<lambda>cl. cl\<lparr>c_away := take IRC_AWAY_MAX message\<rparr>) s
      in ircv3_away_notify c
           (snd (reply c (if message = [] then ''305'' else ''306'')
              (if message = [] then '':You are no longer marked as being away'' else '':You have been marked as being away'') s1)))"

definition command_away :: "cref \<Rightarrow> string option \<Rightarrow> server \<Rightarrow> command_result \<times> server" where
  "command_away c params = registered_only c (\<lambda>s.
     (COMMAND_KEEP_CLIENT,
      set_away c (case params of None \<Rightarrow> [] | Some p \<Rightarrow> if starts_with '':'' p then drop 1 p else p) s))"

subsection \<open>ISON\<close>

text \<open>The packing loop of ISON and of the WATCH list.\<close>

fun pack_words :: "(string \<Rightarrow> bool) \<Rightarrow> string \<Rightarrow> string list \<Rightarrow> string list" where
  "pack_words fits buf [] = [buf]"
| "pack_words fits buf (w # ws) =
     (let candidate = buf @ (if buf \<noteq> [] then '' '' else []) @ w
      in if length candidate < IRC_LINE_CONTENT_MAX + 1 \<and> fits candidate then pack_words fits candidate ws
         else (if buf \<noteq> [] then [buf] else []) @ pack_words fits (if fits w then w else buf) ws)"

definition send_packed :: "cref \<Rightarrow> string \<Rightarrow> string list \<Rightarrow> server \<Rightarrow> server" where
  "send_packed c num ws s =
     (let line = (\<lambda>p. numeric s num (c_nick (sv_client s c)) ('':'' @ p));
          fits = (\<lambda>p. length (line p) \<le> IRC_LINE_CONTENT_MAX)
      in fold (\<lambda>p s. if fits p then sendf c (line p) s else s) (pack_words fits [] ws) s)"

definition command_ison :: "cref \<Rightarrow> string option \<Rightarrow> server \<Rightarrow> command_result \<times> server" where
  "command_ison c params = registered_only c (\<lambda>s.
     (COMMAND_KEEP_CLIENT,
      send_packed c ''303''
        (map (\<lambda>d. c_nick (sv_client s d))
           (filter (\<lambda>d. c_registered (sv_client s d))
              (List.map_filter (hash_get (sv_clients_by_nick s)) (case params of None \<Rightarrow> [] | Some p \<Rightarrow> tokens '' '' p)))) s))"

subsection \<open>SILENCE\<close>

definition valid_silence_mask :: "string \<Rightarrow> bool" where
  "valid_silence_mask m \<longleftrightarrow> m \<noteq> [] \<and> length m \<le> IRC_CHANNEL_MASK_MAX \<and> list_all (\<lambda>x. \<not> (code x < 0x20 \<or> code x = 0x7F)) m"

definition list_masks :: "cref \<Rightarrow> server \<Rightarrow> server" where
  "list_masks c s =
     (let nick = c_nick (sv_client s c)
      in snd (reply c ''272'' '':End of Silence List''
                (fold (\<lambda>m. sendf c (numeric s ''271'' nick (nick @ '' '' @ m))) (c_silence_list (sv_client s c)) s)))"

fun silence_loop :: "cref \<Rightarrow> string list \<Rightarrow> server \<Rightarrow> server" where
  "silence_loop c [] s = s"
| "silence_loop c (token # ts) s =
     (let m = drop 1 token
      in if \<not> starts_with ''+-'' token \<or> m = [] \<or> \<not> valid_silence_mask m then silence_loop c ts s
         else if starts_with ''+'' token then
           (let (rc, cl) = presence_silence_add (sv_alloc s) (sv_client s c) m;
                s1 = upd_client c (\<lambda>_. cl) s
            in if rc < 0 then snd (reply c ''511'' (m @ '' :Your silence list is full'') s1) else silence_loop c ts s1)
         else silence_loop c ts (upd_client c (\<lambda>cl. snd (presence_silence_remove cl m)) s))"

definition command_silence :: "cref \<Rightarrow> string option \<Rightarrow> server \<Rightarrow> command_result \<times> server" where
  "command_silence c params = registered_only c (\<lambda>s.
     (COMMAND_KEEP_CLIENT,
      case params of
        None \<Rightarrow> list_masks c s
      | Some p \<Rightarrow> if p = [] then list_masks c s else silence_loop c (tokens '' '' p) s))"

subsection \<open>WATCH\<close>

text \<open>\<open>valid_watch_nick\<close> repeats \<open>valid_nickname\<close> of \<open>nick.c\<close>.\<close>

definition valid_watch_nick :: "string \<Rightarrow> bool" where
  "valid_watch_nick nick = valid_nickname nick"

definition online_subject :: "server \<Rightarrow> string \<Rightarrow> client option" where
  "online_subject s nick =
     (case hash_get (sv_clients_by_nick s) nick of
        None \<Rightarrow> None
      | Some d \<Rightarrow> if c_registered (sv_client s d) then Some (sv_client s d) else None)"

definition send_nowon :: "cref \<Rightarrow> client \<Rightarrow> server \<Rightarrow> server" where
  "send_nowon c subject s =
     snd (reply c ''604'' (c_nick subject @ '' '' @ c_user subject @ '' '' @ c_display_host subject @ '' '' @
       dec_int (c_signon_time subject) @ '' :is online'') s)"

definition report_current :: "cref \<Rightarrow> string \<Rightarrow> server \<Rightarrow> server" where
  "report_current c nick s =
     (case online_subject s nick of
        Some subject \<Rightarrow> send_nowon c subject s
      | None \<Rightarrow> snd (reply c ''605'' (nick @ '' * * 0 :is offline'') s))"

definition end_of_watch :: "cref \<Rightarrow> char \<Rightarrow> server \<Rightarrow> server" where
  "end_of_watch c x s = snd (reply c ''607'' ('':End of WATCH '' @ [x]) s)"

definition list_watch :: "cref \<Rightarrow> server \<Rightarrow> server" where
  "list_watch c s = end_of_watch c (CHR ''L'') (send_packed c ''606'' (c_watch_list (sv_client s c)) s)"

definition count_watchers :: "server \<Rightarrow> cref \<Rightarrow> nat" where
  "count_watchers s c =
     (let nick = c_nick (sv_client s c)
      in if nick = [] then 0
         else length (filter (\<lambda>w. c_registered (sv_client s w) \<and> presence_watch_contains (sv_client s w) nick) (sv_clients s)))"

definition status_watch :: "cref \<Rightarrow> server \<Rightarrow> server" where
  "status_watch c s =
     (let s1 = list_watch c s
      in snd (reply c ''603'' ('':You have '' @ dec_int (to_int32 (int (c_watch_count (sv_client s1 c)))) @ '' and are on '' @
           dec_int (to_int32 (int (count_watchers s1 c))) @ '' WATCH entries'') s1))"

definition list_online_watch :: "cref \<Rightarrow> server \<Rightarrow> server" where
  "list_online_watch c s =
     end_of_watch c (CHR ''L'')
       (fold (\<lambda>nick s. case online_subject s nick of Some subject \<Rightarrow> send_nowon c subject s | None \<Rightarrow> s)
          (c_watch_list (sv_client s c)) s)"

definition clear_watch :: "client \<Rightarrow> client" where
  "clear_watch cl = cl\<lparr>c_watch_list := [], c_watch_count := 0\<rparr>"

definition watch_letter :: "cref \<Rightarrow> char \<Rightarrow> server \<Rightarrow> server" where
  "watch_letter c x s =
     (if ascii_lower x = CHR ''s'' then status_watch c s
      else if ascii_lower x = CHR ''l'' then list_online_watch c s
      else if ascii_lower x = CHR ''c'' then end_of_watch c (CHR ''C'') (upd_client c clear_watch s)
      else s)"

definition watch_off :: "cref \<Rightarrow> string \<Rightarrow> server \<Rightarrow> server" where
  "watch_off c nick s =
     (let (user, host) = (case online_subject s nick of Some d \<Rightarrow> (c_user d, c_display_host d) | None \<Rightarrow> (''*'', ''*''))
      in snd (reply c ''602'' (nick @ '' '' @ user @ '' '' @ host @ '' '' @ dec_int (to_int32 (sv_clock s)) @ '' :stopped watching'') s))"

fun watch_loop :: "cref \<Rightarrow> string list \<Rightarrow> server \<Rightarrow> server" where
  "watch_loop c [] s = s"
| "watch_loop c (token # ts) s =
     (let nick = drop 1 token
      in if nick = [] then watch_loop c ts (watch_letter c (hd token) s)
         else if \<not> starts_with ''+-'' token \<or> \<not> valid_watch_nick nick then watch_loop c ts s
         else if starts_with ''+'' token then
           (let (rc, cl) = presence_watch_add (sv_alloc s) (sv_client s c) nick;
                s1 = upd_client c (\<lambda>_. cl) s
            in if rc < 0 then snd (reply c ''512'' (nick @ '' :Maximum size for WATCH-list is 128 entries'') s1)
               else watch_loop c ts (report_current c nick s1))
         else (let (rc, cl) = presence_watch_remove (sv_client s c) nick;
                   s1 = upd_client c (\<lambda>_. cl) s
               in watch_loop c ts (if rc \<ge> 0 then watch_off c nick s1 else s1)))"

definition command_watch :: "cref \<Rightarrow> string option \<Rightarrow> server \<Rightarrow> command_result \<times> server" where
  "command_watch c params = registered_only c (\<lambda>s.
     (COMMAND_KEEP_CLIENT,
      case params of
        None \<Rightarrow> list_watch c s
      | Some p \<Rightarrow> if p = [] then list_watch c s else watch_loop c (tokens '' '' p) s))"

subsection \<open>USERHOST and USERIP\<close>

definition send_user_address :: "cref \<Rightarrow> string \<Rightarrow> (client \<Rightarrow> string) \<Rightarrow> string \<Rightarrow> server \<Rightarrow> server" where
  "send_user_address c num host nick s =
     (case online_subject s nick of
        None \<Rightarrow> s
      | Some d \<Rightarrow> snd (reply c num ('':'' @ c_nick d @ ''=+'' @ c_user d @ ''@'' @ host d) s))"

definition command_userhost :: "cref \<Rightarrow> string option \<Rightarrow> server \<Rightarrow> command_result \<times> server" where
  "command_userhost c params = registered_only c (\<lambda>s.
     case params of
       None \<Rightarrow> ERR_NEEDMOREPARAMS c ''USERHOST'' s
     | Some p \<Rightarrow> (COMMAND_KEEP_CLIENT, fold (send_user_address c ''302'' c_display_host) (take 5 (tokens '' '' p)) s))"

definition command_userip :: "cref \<Rightarrow> string option \<Rightarrow> server \<Rightarrow> command_result \<times> server" where
  "command_userip c params = registered_only c (\<lambda>s.
     if \<not> client_mode_has (c_modes (sv_client s c)) (CLIENT_MODE_OPER OR CLIENT_MODE_NETADMIN)
     then (COMMAND_KEEP_CLIENT, no_privileges c s)
     else (case params of
             None \<Rightarrow> ERR_NEEDMOREPARAMS c ''USERIP'' s
           | Some p \<Rightarrow> (COMMAND_KEEP_CLIENT, fold (send_user_address c ''340'' c_real_ip) (tokens '' '' p) s)))"

subsection \<open>LIST and LUSERS\<close>

fun list_entries :: "cref \<Rightarrow> (string \<times> chref) list \<Rightarrow> server \<Rightarrow> server" where
  "list_entries c [] s = s"
| "list_entries c ((_, h) # es) s =
     (let ch = sv_channel s h
      in if \<not> visibility_list_channel s c ch then list_entries c es s
         else let s1 = snd (reply c ''322'' (ch_name ch @ '' '' @ dec_int (to_int32 (int (ch_member_count ch))) @ '' :'' @ ch_topic ch) s)
              in if o_overflowed (sv_out s1 c) then s1 else list_entries c es s1)"

definition list_channels :: "cref \<Rightarrow> server \<Rightarrow> server" where
  "list_channels c s =
     fold (\<lambda>bucket s. if o_overflowed (sv_out s c) then s else list_entries c bucket s) (buckets (sv_channels_by_name s)) s"

definition command_list :: "cref \<Rightarrow> string option \<Rightarrow> server \<Rightarrow> command_result \<times> server" where
  "command_list c params = registered_only c (\<lambda>s.
     let s1 = list_channels c (snd (reply c ''321'' ''Channel :Users  Name'' s))
     in (COMMAND_KEEP_CLIENT, if o_overflowed (sv_out s1 c) then s1 else snd (reply c ''323'' '':End of /LIST'' s1)))"

definition count_clients :: "server \<Rightarrow> (client \<Rightarrow> bool) \<Rightarrow> nat" where
  "count_clients s P = length (filter (\<lambda>d. P (sv_client s d)) (sv_clients s))"

definition int_text :: "nat \<Rightarrow> string" where
  "int_text n = dec_int (to_int32 (int n))"

definition send_numerics :: "cref \<Rightarrow> (string \<times> string) list \<Rightarrow> server \<Rightarrow> server" where
  "send_numerics c ls s = fold (\<lambda>(num, x) s. snd (reply c num x s)) ls s"

definition high_water_users :: "server \<Rightarrow> nat \<Rightarrow> nat" where
  "high_water_users s users =
     (let (epoch, high) = w_high_water (sv_world s); high1 = (if epoch \<noteq> w_started_at (sv_world s) then 0 else high)
      in if users > high1 then users else high1)"

definition lusers_lines :: "server \<Rightarrow> cref \<Rightarrow> (string \<times> string) list" where
  "lusers_lines s c =
     (let users = count_clients s c_registered;
          unknown = count_clients s (\<lambda>cl. \<not> c_registered cl);
          invisible = count_clients s (\<lambda>cl. c_registered cl \<and> client_mode_has (c_modes cl) CLIENT_MODE_INVISIBLE);
          opers = count_clients s (\<lambda>cl. c_registered cl \<and> client_mode_has (c_modes cl) (CLIENT_MODE_OPER OR CLIENT_MODE_NETADMIN));
          high = high_water_users s users;
          channels = length (filter (\<lambda>(_, h). visibility_names_channel s c (sv_channel s h)) (concat (buckets (sv_channels_by_name s))))
      in [(''251'', '':There are '' @ int_text (users - invisible) @ '' users and '' @ int_text invisible @ '' invisible on 1 servers'')] @
         (if opers \<noteq> 0 then [(''252'', int_text opers @ '' :operator(s) online'')] else []) @
         (if unknown \<noteq> 0 then [(''253'', int_text unknown @ '' :unknown connection(s)'')] else []) @
         [(''254'', int_text channels @ '' :channels formed''),
          (''255'', '':I have '' @ int_text users @ '' clients and 0 servers''),
          (''265'', '':Current Local Users: '' @ int_text users @ ''  Max: '' @ int_text high),
          (''266'', '':Current Global Users: '' @ int_text users @ ''  Max: '' @ int_text high)])"

definition command_lusers :: "cref \<Rightarrow> string option \<Rightarrow> server \<Rightarrow> command_result \<times> server" where
  "command_lusers c params = registered_only c (\<lambda>s.
     (COMMAND_KEEP_CLIENT,
      send_numerics c (lusers_lines s c)
        (s\<lparr>sv_world := (sv_world s)\<lparr>w_high_water :=
             (w_started_at (sv_world s), high_water_users s (count_clients s c_registered))\<rparr>\<rparr>)))"

subsection \<open>WHOWAS\<close>

definition send_whowas_user :: "cref \<Rightarrow> whowas_record \<Rightarrow> server \<Rightarrow> server" where
  "send_whowas_user c r s =
     (let start = numeric s ''314'' (c_nick (sv_client s c)) (ww_nick r @ '' '' @ ww_user r @ '' '' @ ww_host r @ '' * :'')
      in if length start > IRC_LINE_CONTENT_MAX then s
         else sendf c (start @ take (min (IRC_LINE_CONTENT_MAX - length start) IRC_REALNAME_MAX) (ww_realname r)) s)"

definition whowas_query_length :: "server \<Rightarrow> cref \<Rightarrow> string \<Rightarrow> bool \<Rightarrow> nat" where
  "whowas_query_length s c query include_missing =
     (let nick = c_nick (sv_client s c);
          end_base = length (numeric s ''369'' nick '' :End of WHOWAS'');
          missing_base = length (numeric s ''406'' nick '' :There was no such nickname'');
          base = (if include_missing \<and> missing_base > end_base then missing_base else end_base)
      in if base > IRC_LINE_CONTENT_MAX then 0 else min (length query) (IRC_LINE_CONTENT_MAX - base))"

fun whowas_scan :: "cref \<Rightarrow> string \<Rightarrow> nat list \<Rightarrow> nat \<Rightarrow> nat \<Rightarrow> server \<Rightarrow> nat \<times> server" where
  "whowas_scan c nick [] wanted matched s = (matched, s)"
| "whowas_scan c nick (scanned # is) wanted matched s =
     (if \<not> matched < wanted then (matched, s)
      else let r = sv_whowas s ! ((sv_whowas_next s + IRCD_WHOWAS_MAX - 1 - scanned) mod IRCD_WHOWAS_MAX);
               clock = w_strftime (sv_world s) (ww_when r)
           in if \<not> strcaseeq (ww_nick r) nick then whowas_scan c nick is wanted matched s
              else whowas_scan c nick is wanted (matched + 1)
                     (snd (reply c ''312'' (ww_nick r @ '' '' @ ww_server_name r @ '' :'' @
                        (if clock \<noteq> [] then clock else ''historical connection'')) (send_whowas_user c r s))))"

definition command_whowas :: "cref \<Rightarrow> string option \<Rightarrow> server \<Rightarrow> command_result \<times> server" where
  "command_whowas c params = registered_only c (\<lambda>s.
     case Option.bind params (strtok '' '') of
       None \<Rightarrow> reply c ''431'' '':No nickname given'' s
     | Some (nick, rest) \<Rightarrow>
         let wanted = (case fst (tok1 rest) of
               None \<Rightarrow> 1
             | Some x \<Rightarrow>
                 (case strtoul x of (parsed, overflow, unread) \<Rightarrow>
                    if \<not> overflow \<and> unread \<noteq> x \<and> unread = [] \<and> parsed > 0 then min parsed IRCD_WHOWAS_MAX else 1));
             (matched, s1) = whowas_scan c nick [0..<sv_whowas_count s] wanted 0 s;
             query = take (whowas_query_length s1 c nick (matched = 0)) nick;
             s2 = (if matched = 0 then snd (reply c ''406'' (query @ '' :There was no such nickname'') s1) else s1)
         in reply c ''369'' (query @ '' :End of WHOWAS'') s2)"

subsection \<open>WHO\<close>

definition oper_shown :: "server \<Rightarrow> cref \<Rightarrow> client \<Rightarrow> bool" where
  "oper_shown s requester subject \<longleftrightarrow>
     \<not> client_mode_has (c_modes subject) CLIENT_MODE_HIDE_OPER \<or> visibility_is_oper (sv_client s requester)"

definition send_who_reply :: "cref \<Rightarrow> cref \<Rightarrow> channel option \<Rightarrow> server \<Rightarrow> server" where
  "send_who_reply requester subject ch s =
     (let cl = sv_client s subject;
          prefix = (case Option.bind ch (\<lambda>ch. channel_find_member ch subject) of
                      None \<Rightarrow> None | Some m \<Rightarrow> channel_privilege_prefix (m_privileges m));
          status = (if c_away cl \<noteq> [] then ''G'' else ''H'') @
            (if client_mode_has (c_modes cl) (CLIENT_MODE_OPER OR CLIENT_MODE_NETADMIN) \<and> oper_shown s requester cl then ''*'' else []) @
            (case prefix of None \<Rightarrow> [] | Some p \<Rightarrow> [p])
      in snd (reply requester ''352'' ((case ch of None \<Rightarrow> ''*'' | Some ch \<Rightarrow> ch_name ch) @ '' '' @ c_user cl @ '' '' @
           c_display_host cl @ '' '' @ server_name s @ '' '' @ c_nick cl @ '' '' @ status @ '' :0 '' @ c_realname cl) s))"

definition send_end_of_who_query :: "cref \<Rightarrow> string \<Rightarrow> server \<Rightarrow> server" where
  "send_end_of_who_query c query s = send_query_error c ''315'' ''End of /WHO list.'' query s"

fun who_loop :: "cref \<Rightarrow> channel option \<Rightarrow> cref list \<Rightarrow> server \<Rightarrow> server" where
  "who_loop c ch [] s = s"
| "who_loop c ch (d # ds) s =
     (let s1 = (if visibility_who_user s c d then send_who_reply c d ch s else s)
      in if o_overflowed (sv_out s1 c) then s1 else who_loop c ch ds s1)"

definition command_who :: "cref \<Rightarrow> string option \<Rightarrow> server \<Rightarrow> command_result \<times> server" where
  "command_who c params = registered_only c (\<lambda>s.
     let m = Option.bind params (\<lambda>p. fst (tok1 p));
         s1 = (case m of
                 Some x \<Rightarrow>
                   if starts_with ''#&'' x then
                     (case hash_get (sv_channels_by_name s) x of
                        Some h \<Rightarrow> if visibility_names_channel s c (sv_channel s h)
                                  then who_loop c (Some (sv_channel s h)) (map m_client (ch_members (sv_channel s h))) s else s
                      | None \<Rightarrow> s)
                   else if x \<noteq> ''0'' \<and> x \<noteq> ''*'' then
                     (case hash_get (sv_clients_by_nick s) x of
                        Some d \<Rightarrow> if visibility_who_user s c d then send_who_reply c d None s else s
                      | None \<Rightarrow> s)
                   else who_loop c None (sv_clients s) s
               | None \<Rightarrow> who_loop c None (sv_clients s) s)
     in (COMMAND_KEEP_CLIENT,
         if o_overflowed (sv_out s1 c) then s1
         else send_end_of_who_query c (case m of None \<Rightarrow> ''*'' | Some x \<Rightarrow> x) s1))"

subsection \<open>WHOIS\<close>

definition send_whois_user :: "cref \<Rightarrow> cref \<Rightarrow> server \<Rightarrow> server" where
  "send_whois_user c d s =
     (let cl = sv_client s d;
          start = numeric s ''311'' (c_nick (sv_client s c)) (c_nick cl @ '' '' @ c_user cl @ '' '' @ c_display_host cl @ '' * :'')
      in if length start > IRC_LINE_CONTENT_MAX then s
         else sendf c (start @ take (min (IRC_LINE_CONTENT_MAX - length start) IRC_REALNAME_MAX) (c_realname cl)) s)"

definition RPL_WHOISCHANNELS :: "server \<Rightarrow> cref \<Rightarrow> cref \<Rightarrow> string \<Rightarrow> string" where
  "RPL_WHOISCHANNELS s c d channels =
     numeric s ''319'' (c_nick (sv_client s c)) (c_nick (sv_client s d) @ '' :'' @ channels)"

definition whois_token :: "server \<Rightarrow> cref \<Rightarrow> chref \<Rightarrow> string" where
  "whois_token s d h =
     (case Option.bind (channel_find_member (sv_channel s h) d) (\<lambda>m. channel_privilege_prefix (m_privileges m)) of
        Some p \<Rightarrow> p # ch_name (sv_channel s h)
      | None \<Rightarrow> ch_name (sv_channel s h))"

fun whois_pack :: "(string \<Rightarrow> bool) \<Rightarrow> string \<Rightarrow> string list \<Rightarrow> string list" where
  "whois_pack fits channels [] = (if channels \<noteq> [] then [channels] else [])"
| "whois_pack fits channels (tk # tks) =
     (let candidate = channels @ (if channels \<noteq> [] then '' '' else []) @ tk
      in if length candidate < IRC_LINE_CONTENT_MAX + 1 \<and> fits candidate then whois_pack fits candidate tks
         else (if channels \<noteq> [] then [channels] else []) @ whois_pack fits (if fits tk then tk else []) tks)"

definition send_whois_channels :: "cref \<Rightarrow> cref \<Rightarrow> server \<Rightarrow> server" where
  "send_whois_channels c d s =
     (let hs = filter (\<lambda>h. visibility_whois_channel s c d (sv_channel s h)) (c_channels (sv_client s d));
          toks = filter (\<lambda>t. length t < IRC_CHANNEL_NAME_MAX + 2) (map (whois_token s d) hs);
          fits = (\<lambda>x. length (RPL_WHOISCHANNELS s c d x) \<le> IRC_LINE_CONTENT_MAX)
      in fold (\<lambda>x. sendf c (RPL_WHOISCHANNELS s c d x)) (whois_pack fits [] toks) s)"

definition geo_pair :: "string \<Rightarrow> string \<Rightarrow> string \<Rightarrow> string list" where
  "geo_pair title name cd =
     (if name \<noteq> [] \<and> cd \<noteq> [] then [title @ '': '' @ name @ '' ('' @ cd @ '')'']
      else if name \<noteq> [] then [title @ '': '' @ name] else if cd \<noteq> [] then [title @ '': '' @ cd] else [])"

definition geo_one :: "string \<Rightarrow> string \<Rightarrow> string list" where
  "geo_one title x = (if x \<noteq> [] then [title @ '': '' @ x] else [])"

definition whois_geoip_texts :: "geoip \<Rightarrow> string list" where
  "whois_geoip_texts g =
     geo_pair ''GeoIP Country'' (gi_country_name g) (gi_country_code g) @
     geo_pair ''GeoIP Region'' (gi_region_name g) (gi_region_code g) @
     geo_one ''GeoIP City'' (gi_city g) @ geo_one ''GeoIP Continent'' (gi_continent_code g) @
     geo_one ''GeoIP Network'' (gi_network g) @
     (if gi_asn g \<noteq> 0 then [''GeoIP ASN: AS'' @ dec (unat (gi_asn g))] else []) @
     geo_one ''GeoIP Organization'' (gi_organization g)"

definition send_missing_whois :: "cref \<Rightarrow> string \<Rightarrow> server \<Rightarrow> server" where
  "send_missing_whois c query s =
     (let nick = c_nick (sv_client s c);
          base = max (length (numeric s ''401'' nick '' :No such nick/channel'')) (length (numeric s ''318'' nick '' :End of /WHOIS list.''));
          q = take (IRC_LINE_CONTENT_MAX - base) query
      in if base > IRC_LINE_CONTENT_MAX then s
         else snd (reply c ''318'' (q @ '' :End of /WHOIS list.'') (snd (reply c ''401'' (q @ '' :No such nick/channel'') s))))"

text \<open>The numerics after the user line, each with its condition.\<close>

definition whois_lines :: "server \<Rightarrow> cref \<Rightarrow> cref \<Rightarrow> (string \<times> string) list" where
  "whois_lines s c d =
     (let t = sv_client s d; n = c_nick t; has = client_mode_has (c_modes t)
      in [(''312'', n @ '' '' @ server_name s @ '' :'' @ cf_network_name (sv_config s))] @
         (if c_away t \<noteq> [] then [(''301'', n @ '' :'' @ c_away t)] else []) @
         (if has CLIENT_MODE_REGISTERED
          then [if c_account_name t \<noteq> [] \<and> \<not> strcaseeq n (c_account_name t)
                then (''320'', n @ '' :is logged in as '' @ c_account_name t) else (''307'', n @ '' :is a registered nick'')] else []) @
         (if has CLIENT_MODE_BOT then [(''335'', n @ '' :is a '' @ [CHR 0x02] @ ''Bot'' @ [CHR 0x02])] else []) @
         (if has CLIENT_MODE_HELPOP then [(''310'', n @ '' :is available for help.'')] else []) @
         (if has CLIENT_MODE_NETADMIN \<and> oper_shown s c t then [(''313'', n @ '' :is an Administrator'')]
          else if has CLIENT_MODE_OPER \<and> oper_shown s c t then [(''313'', n @ '' :is an IRCop'')] else []) @
         (if has CLIENT_MODE_SECURE then [(''671'', n @ '' :is using a secure connection'')] else []))"

text \<open>The lines after the channels: idle time, and the private ones for the client itself and operators.\<close>

definition whois_idle_lines :: "server \<Rightarrow> cref \<Rightarrow> cref \<Rightarrow> (string \<times> string) list" where
  "whois_idle_lines s c d =
     (let t = sv_client s d; idle = (if sv_clock s \<ge> c_last_activity t then sv_clock s - c_last_activity t else 0)
      in if \<not> client_mode_has (c_modes t) CLIENT_MODE_HIDE_IDLE \<or> c = d \<or> visibility_is_oper (sv_client s c)
         then [(''317'', c_nick t @ '' '' @ dec_int idle @ '' '' @ dec_int (c_signon_time t) @ '' :seconds idle signon time'')] else [])"

definition whois_private_lines :: "server \<Rightarrow> cref \<Rightarrow> cref \<Rightarrow> (string \<times> string) list" where
  "whois_private_lines s c d =
     (let t = sv_client s d; n = c_nick t
      in if c = d \<or> visibility_is_oper (sv_client s c)
         then [(''378'', n @ '' :is connecting from *@'' @ (if c_real_host t \<noteq> [] then c_real_host t else c_real_ip t) @ '' '' @ c_real_ip t)] @
              (if c_geoip_complete t then map (\<lambda>x. (''320'', n @ '' :'' @ x)) (whois_geoip_texts (c_geoip t)) else []) @
              (if c_version_received t then [(''672'', n @ '' :'' @ c_client_version t)] else []) @
              (if c_webirc_active t \<and> c_website_received t then [(''673'', n @ '' :'' @ c_client_website t)] else [])
         else [])"

definition whois_body :: "cref \<Rightarrow> cref \<Rightarrow> server \<Rightarrow> server" where
  "whois_body c d s =
     (let t = sv_client s d;
          s1 = (if d \<noteq> c \<and> client_mode_has (c_modes t) CLIENT_MODE_WHOIS_NOTICE \<and>
                   client_mode_has (c_modes t) (CLIENT_MODE_OPER OR CLIENT_MODE_NETADMIN)
                then sendf d ('':'' @ server_name s @ '' NOTICE '' @ c_nick t @ '' :*** '' @ client_identity (sv_client s c) @
                       '' did a /WHOIS on you'') s
                else s);
          s2 = send_whois_channels c d (send_numerics c (whois_lines s c d) (send_whois_user c d s1))
      in send_numerics c (whois_idle_lines s c d @ whois_private_lines s c d @ [(''318'', c_nick t @ '' :End of /WHOIS list.'')]) s2)"

definition command_whois :: "cref \<Rightarrow> string option \<Rightarrow> server \<Rightarrow> command_result \<times> server" where
  "command_whois c params = registered_only c (\<lambda>s.
     case Option.bind params (strtok '' ,'') of
       None \<Rightarrow> reply c ''431'' '':No nickname given'' s
     | Some (target_name, _) \<Rightarrow>
         (COMMAND_KEEP_CLIENT,
          case hash_get (sv_clients_by_nick s) target_name of
            None \<Rightarrow> send_missing_whois c target_name s
          | Some d \<Rightarrow> whois_body c d s))"

subsection \<open>The handlers respect the server\<close>

lemma send_numerics_io [simp, intro!]: "io_only s (send_numerics c ls s)"
  unfolding send_numerics_def by (rule io_only_fold) (simp add: case_prod_beta)

lemma send_packed_io [simp, intro!]: "io_only s (send_packed c num ws s)"
  unfolding send_packed_def Let_def by (rule io_only_fold) simp

lemma command_away_keeps: "keeps c s (snd (command_away c params s))"
  unfolding command_away_def
  by (rule registered_only_keeps)
     (simp add: set_away_def Let_def replies_keeps keeps_sends keeps_upd_client plain_update_def)

lemma command_ison_io: "io_only s (snd (command_ison c params s))"
  unfolding command_ison_def by (rule registered_only_io) simp

lemma presence_updates_plain:
  "plain_update (\<lambda>cl. snd (presence_silence_remove cl m))" "plain_update clear_watch"
  by (simp_all add: plain_update_def presence_silence_remove_def clear_watch_def split: option.split)

lemma keeps_client_value:
  assumes "keeps c s t" "c_id cl = c_id (sv_client t d)" "c_nick cl = c_nick (sv_client t d)" "c_real_ip cl = c_real_ip (sv_client t d)"
    "c_channels cl = c_channels (sv_client t d)" "c_channel_count cl = c_channel_count (sv_client t d)"
  shows "keeps c s (upd_client d (\<lambda>_. cl) t)"
  using assms by (auto simp: keeps_def intro: server_wf_upd_client)

lemma presence_values_keep:
  "keeps c s (upd_client c (\<lambda>_. snd (presence_silence_add a (sv_client s c) m)) s)"
  "keeps c s (upd_client c (\<lambda>_. snd (presence_watch_add a (sv_client s c) m)) s)"
  "keeps c s (upd_client c (\<lambda>_. snd (presence_watch_remove (sv_client s c) m)) s)"
  by (rule keeps_client_value [OF keeps_refl];
      simp add: presence_silence_add_def presence_watch_add_def presence_watch_remove_def split: option.split)+

lemma silence_loop_keeps: "keeps c s (silence_loop c ts s)"
proof (induction ts arbitrary: s)
  case (Cons token ts)
  have add: "keeps c s (upd_client c (\<lambda>_. snd (presence_silence_add (sv_alloc s) (sv_client s c) (drop 1 token))) s)"
    by (rule presence_values_keep)
  have remove: "keeps c s (upd_client c (\<lambda>cl. snd (presence_silence_remove cl (drop 1 token))) s)"
    by (rule keeps_upd_client [OF keeps_refl presence_updates_plain(1)])
  show ?case
    using Cons.IH [of s] keeps_trans [OF add Cons.IH] keeps_trans [OF remove Cons.IH] replies_keeps(3) [OF add]
    by (simp add: Let_def case_prod_beta)
qed simp

lemma list_masks_keeps: "keeps c s (list_masks c s)"
  unfolding list_masks_def Let_def by (rule replies_keeps) (rule keeps_io [OF keeps_refl], rule io_only_fold, simp)

lemma command_silence_keeps: "keeps c s (snd (command_silence c params s))"
  unfolding command_silence_def
  by (rule registered_only_keeps) (simp add: silence_loop_keeps list_masks_keeps split: option.split)

lemma watch_replies_io [simp, intro!]:
  "io_only s (send_nowon c d s)" "io_only s (end_of_watch c x s)" "io_only s (report_current c nick s)" "io_only s (watch_off c nick s)"
  by (simp_all add: send_nowon_def end_of_watch_def report_current_def watch_off_def case_prod_beta Let_def split: option.split)

lemma watch_lists_io [simp, intro!]:
  "io_only s (list_watch c s)" "io_only s (status_watch c s)" "io_only s (list_online_watch c s)"
proof -
  show list: "io_only s (list_watch c s)" for s
    unfolding list_watch_def by (rule io_only_trans [OF send_packed_io watch_replies_io(2)])
  show "io_only s (status_watch c s)"
    unfolding status_watch_def Let_def by (rule io_only_trans [OF list]) simp
  show "io_only s (list_online_watch c s)"
    unfolding list_online_watch_def
    by (rule io_only_trans [OF io_only_fold watch_replies_io(2)]) (simp split: option.split)
qed

lemma watch_letter_keeps: "keeps c s (watch_letter c x s)"
  using keeps_io [OF keeps_upd_client [OF keeps_refl presence_updates_plain(2)] watch_replies_io(2)]
  by (simp add: watch_letter_def keeps_io [OF keeps_refl])

lemma watch_loop_keeps: "keeps c s (watch_loop c ts s)"
proof (induction ts arbitrary: s)
  case (Cons token ts)
  let ?nick = "drop 1 token"
  have add: "keeps c s (upd_client c (\<lambda>_. snd (presence_watch_add (sv_alloc s) (sv_client s c) ?nick)) s)"
    and remove: "keeps c s (upd_client c (\<lambda>_. snd (presence_watch_remove (sv_client s c) ?nick)) s)"
    by (rule presence_values_keep)+
  show ?case
    using Cons.IH [of s] keeps_trans [OF watch_letter_keeps Cons.IH] replies_keeps(3) [OF add]
      keeps_trans [OF keeps_io [OF add watch_replies_io(3)] Cons.IH]
      keeps_trans [OF keeps_io [OF remove watch_replies_io(4)] Cons.IH] keeps_trans [OF remove Cons.IH]
    by (simp add: Let_def case_prod_beta)
qed simp

lemma command_watch_keeps: "keeps c s (snd (command_watch c params s))"
  unfolding command_watch_def
  by (rule registered_only_keeps) (simp add: watch_loop_keeps keeps_io [OF keeps_refl] split: option.split)

lemma user_address_io [simp, intro!]: "io_only s (fold (send_user_address c num host) ns s)"
  by (rule io_only_fold) (simp add: send_user_address_def split: option.split)

lemma command_userhost_io: "io_only s (snd (command_userhost c params s))"
  unfolding command_userhost_def by (rule registered_only_io) (simp split: option.split)

lemma command_userip_io: "io_only s (snd (command_userip c params s))"
  unfolding command_userip_def by (rule registered_only_io) (simp add: no_privileges_def split: option.split)

lemma list_entries_io [simp, intro!]: "io_only s (list_entries c es s)"
proof (induction c es s rule: list_entries.induct)
  case (2 c n h es s)
  let ?ch = "sv_channel s h"
  let ?s1 = "snd (reply c ''322'' (ch_name ?ch @ '' '' @ dec_int (to_int32 (int (ch_member_count ?ch))) @ '' :'' @ ch_topic ?ch) s)"
  show ?case
    using 2 io_only_trans [of s ?s1 "list_entries c es ?s1"] by (simp add: Let_def)
qed simp

lemma command_list_io: "io_only s (snd (command_list c params s))"
  unfolding command_list_def
proof (rule registered_only_io)
  fix s
  let ?s1 = "list_channels c (snd (reply c ''321'' ''Channel :Users  Name'' s))"
  have "io_only t (list_channels c t)" for t
    unfolding list_channels_def by (rule io_only_fold) simp
  then have "io_only s ?s1" by (rule io_only_trans [OF reply_io(1)])
  moreover from this have "io_only s (snd (reply c ''323'' '':End of /LIST'' ?s1))" by (rule io_only_trans) simp
  ultimately show "io_only s (snd (let s1 = ?s1
      in (COMMAND_KEEP_CLIENT, if o_overflowed (sv_out s1 c) then s1 else snd (reply c ''323'' '':End of /LIST'' s1))))"
    by (simp add: Let_def)
qed

lemma command_lusers_keeps: "keeps c s (snd (command_lusers c params s))"
  unfolding command_lusers_def
  by (rule registered_only_keeps) (simp add: keeps_io [OF keeps_fields(8) [OF keeps_refl] send_numerics_io])

lemma whowas_scan_io: "io_only s (snd (whowas_scan c nick is wanted matched s))"
proof (induction c nick "is" wanted matched s rule: whowas_scan.induct)
  case (2 c nick scanned "is" wanted matched s)
  let ?r = "sv_whowas s ! ((sv_whowas_next s + IRCD_WHOWAS_MAX - 1 - scanned) mod IRCD_WHOWAS_MAX)"
  let ?clock = "w_strftime (sv_world s) (ww_when ?r)"
  let ?s1 = "snd (reply c ''312'' (ww_nick ?r @ '' '' @ ww_server_name ?r @ '' :'' @
                (if ?clock \<noteq> [] then ?clock else ''historical connection'')) (send_whowas_user c ?r s))"
  have one: "io_only s ?s1"
    by (rule io_only_trans [OF _ reply_io(1)]) (simp add: send_whowas_user_def Let_def)
  show ?case
  proof (cases "matched < wanted")
    case True
    then show ?thesis
      using 2(1) [OF _ refl refl] 2(2) [OF _ refl refl] io_only_trans [OF one, of "snd (whowas_scan c nick is wanted (matched + 1) ?s1)"]
      by (cases "strcaseeq (ww_nick ?r) nick") (simp_all add: Let_def cong: if_cong split del: if_split)
  qed simp
qed simp

lemma command_whowas_io: "io_only s (snd (command_whowas c params s))"
  unfolding command_whowas_def
proof (rule registered_only_io)
  fix s
  have miss: "io_only s (if b then snd (reply c ''406'' x t) else t)" if "io_only s t" for b x t
    using that io_only_trans [OF that reply_io(1)] by simp
  show "io_only s (snd (case Option.bind params (strtok '' '') of
       None \<Rightarrow> reply c ''431'' '':No nickname given'' s
     | Some (nick, rest) \<Rightarrow>
         let wanted = (case fst (tok1 rest) of
               None \<Rightarrow> 1
             | Some x \<Rightarrow>
                 (case strtoul x of (parsed, overflow, unread) \<Rightarrow>
                    if \<not> overflow \<and> unread \<noteq> x \<and> unread = [] \<and> parsed > 0 then min parsed IRCD_WHOWAS_MAX else 1));
             (matched, s1) = whowas_scan c nick [0..<sv_whowas_count s] wanted 0 s;
             query = take (whowas_query_length s1 c nick (matched = 0)) nick;
             s2 = (if matched = 0 then snd (reply c ''406'' (query @ '' :There was no such nickname'') s1) else s1)
         in reply c ''369'' (query @ '' :End of WHOWAS'') s2))"
    by (cases "Option.bind params (strtok '' '')")
       (simp_all add: Let_def case_prod_beta io_only_trans [OF miss [OF whowas_scan_io] reply_io(1)] split del: if_split)
qed

lemma send_who_reply_io [simp, intro!]: "io_only s (send_who_reply c d ch s)"
  by (simp add: send_who_reply_def Let_def)

lemma who_loop_io [simp, intro!]: "io_only s (who_loop c ch ds s)"
proof (induction c ch ds s rule: who_loop.induct)
  case (2 c ch d ds s)
  then show ?case
    using io_only_trans [OF send_who_reply_io [of s c d ch], of "who_loop c ch ds (send_who_reply c d ch s)"]
    by (cases "visibility_who_user s c d") (simp_all add: Let_def)
qed simp

lemma command_who_io: "io_only s (snd (command_who c params s))"
  unfolding command_who_def
proof (rule registered_only_io)
  fix s
  have tail: "io_only s (if b then t else send_end_of_who_query c q t)" if "io_only s t" for b t q
    using that io_only_trans [OF that, of "send_end_of_who_query c q t"] by (simp add: send_end_of_who_query_def)
  show "io_only s (snd (let m = Option.bind params (\<lambda>p. fst (tok1 p));
         s1 = (case m of
                 Some x \<Rightarrow>
                   if starts_with ''#&'' x then
                     (case hash_get (sv_channels_by_name s) x of
                        Some h \<Rightarrow> if visibility_names_channel s c (sv_channel s h)
                                  then who_loop c (Some (sv_channel s h)) (map m_client (ch_members (sv_channel s h))) s else s
                      | None \<Rightarrow> s)
                   else if x \<noteq> ''0'' \<and> x \<noteq> ''*'' then
                     (case hash_get (sv_clients_by_nick s) x of
                        Some d \<Rightarrow> if visibility_who_user s c d then send_who_reply c d None s else s
                      | None \<Rightarrow> s)
                   else who_loop c None (sv_clients s) s
               | None \<Rightarrow> who_loop c None (sv_clients s) s)
     in (COMMAND_KEEP_CLIENT,
         if o_overflowed (sv_out s1 c) then s1
         else send_end_of_who_query c (case m of None \<Rightarrow> ''*'' | Some x \<Rightarrow> x) s1)))"
    unfolding Let_def snd_conv by (rule tail) (simp split: option.split)
qed

lemma send_whois_channels_io [simp, intro!]: "io_only s (send_whois_channels c d s)"
  unfolding send_whois_channels_def Let_def by (rule io_only_fold) simp

lemma whois_body_io: "io_only s (whois_body c d s)"
proof -
  have user: "io_only t (send_whois_user c d t)" for t by (simp add: send_whois_user_def Let_def)
  let ?s1 = "if d \<noteq> c \<and> client_mode_has (c_modes (sv_client s d)) CLIENT_MODE_WHOIS_NOTICE \<and>
                   client_mode_has (c_modes (sv_client s d)) (CLIENT_MODE_OPER OR CLIENT_MODE_NETADMIN)
                then sendf d ('':'' @ server_name s @ '' NOTICE '' @ c_nick (sv_client s d) @ '' :*** '' @ client_identity (sv_client s c) @
                       '' did a /WHOIS on you'') s
                else s"
  have "io_only s ?s1" by simp
  then show ?thesis
    unfolding whois_body_def Let_def
    by (rule io_only_trans [OF _ io_only_trans [OF user io_only_trans [OF send_numerics_io
          io_only_trans [OF send_whois_channels_io send_numerics_io]]]])
qed

lemma send_missing_whois_io: "io_only s (send_missing_whois c q s)"
  using io_only_trans [OF reply_io(1) reply_io(1)] by (simp add: send_missing_whois_def Let_def)

lemma command_whois_io: "io_only s (snd (command_whois c params s))"
  unfolding command_whois_def
  by (rule registered_only_io) (simp add: whois_body_io send_missing_whois_io split: option.split prod.split)

subsection \<open>Private details stay private\<close>

text \<open>
  The server with other private details of client \<open>d\<close>: its address and host name before cloaking, its
  location and what its client program answered.
\<close>

definition conceal :: "cref \<Rightarrow> (string \<times> string \<times> geoip \<times> string \<times> string) \<Rightarrow> server \<Rightarrow> server" where
  "conceal d p s = (case p of (ip, host, geo, version, website) \<Rightarrow>
     upd_client d (\<lambda>cl. cl\<lparr>c_real_ip := ip, c_real_host := host, c_geoip := geo,
       c_client_version := version, c_client_website := website\<rparr>) s)"

lemma conceal_fields [simp]:
  "sv_clients (conceal d p s) = sv_clients s" "sv_config (conceal d p s) = sv_config s" "sv_world (conceal d p s) = sv_world s"
  "sv_channel (conceal d p s) = sv_channel s" "sv_channels_by_name (conceal d p s) = sv_channels_by_name s"
  "sv_clients_by_nick (conceal d p s) = sv_clients_by_nick s" "sv_out (conceal d p s) = sv_out s"
  "sv_env (conceal d p s) = sv_env s" "sv_clock (conceal d p s) = sv_clock s" "sv_log (conceal d p s) = sv_log s"
  "c \<noteq> d \<Longrightarrow> sv_client (conceal d p s) c = sv_client s c"
  by (simp_all add: conceal_def upd_client_def split: prod.split)

lemma conceal_client [simp]:
  "c_nick (sv_client (conceal d p s) e) = c_nick (sv_client s e)" "c_user (sv_client (conceal d p s) e) = c_user (sv_client s e)"
  "c_display_host (sv_client (conceal d p s) e) = c_display_host (sv_client s e)"
  "c_realname (sv_client (conceal d p s) e) = c_realname (sv_client s e)" "c_away (sv_client (conceal d p s) e) = c_away (sv_client s e)"
  "c_modes (sv_client (conceal d p s) e) = c_modes (sv_client s e)" "c_registered (sv_client (conceal d p s) e) = c_registered (sv_client s e)"
  "c_account_name (sv_client (conceal d p s) e) = c_account_name (sv_client s e)"
  "c_capabilities (sv_client (conceal d p s) e) = c_capabilities (sv_client s e)"
  "c_channels (sv_client (conceal d p s) e) = c_channels (sv_client s e)"
  "c_last_activity (sv_client (conceal d p s) e) = c_last_activity (sv_client s e)"
  "c_signon_time (sv_client (conceal d p s) e) = c_signon_time (sv_client s e)"
  by (simp_all add: conceal_def upd_client_def split: prod.split)

lemma conceal_decisions [simp]:
  "visibility_is_oper (sv_client (conceal d p s) c) = visibility_is_oper (sv_client s c)"
  "visibility_who_user (conceal d p s) c e = visibility_who_user s c e"
  "visibility_names_channel (conceal d p s) c ch = visibility_names_channel s c ch"
  "visibility_whois_channel (conceal d p s) c e ch = visibility_whois_channel s c e ch"
  "command_reply_nick (sv_client (conceal d p s) c) = command_reply_nick (sv_client s c)"
  "client_identity (sv_client (conceal d p s) c) = client_identity (sv_client s c)"
  "numeric (conceal d p s) = numeric s"
  by (simp_all add: visibility_is_oper_def visibility_who_user_def visibility_names_channel_def visibility_whois_channel_def
      visibility_share_channel_def command_reply_nick_def client_identity_def numeric_def fun_eq_iff)

lemma oper_shown_conceal [simp]:
  "oper_shown (conceal d p s) c (sv_client (conceal d p s) e) = oper_shown s c (sv_client s e)"
  by (simp add: oper_shown_def)

lemma whois_token_conceal [simp]: "whois_token (conceal d p s) e = whois_token s e"
  by (simp add: whois_token_def fun_eq_iff cong: option.case_cong)

lemma sendf_conceal [simp]: "sendf c x (conceal d p s) = conceal d p (sendf c x s)"
  by (simp add: sendf_def sendf_rc_def case_prod_beta) (simp add: conceal_def upd_client_def case_prod_beta)

lemma replies_conceal [simp]:
  "snd (reply c n x (conceal d p s)) = conceal d p (snd (reply c n x s))"
  "snd (ERR_NEEDMOREPARAMS c x (conceal d p s)) = conceal d p (snd (ERR_NEEDMOREPARAMS c x s))"
  "no_privileges c (conceal d p s) = conceal d p (no_privileges c s)"
  "send_query_error c n x q (conceal d p s) = conceal d p (send_query_error c n x q s)"
  by (simp_all add: reply_def ERR_NEEDMOREPARAMS_def no_privileges_def send_query_error_def Let_def)

lemma send_end_of_who_query_conceal [simp]: "send_end_of_who_query c q (conceal d p s) = conceal d p (send_end_of_who_query c q s)"
  by (simp add: send_end_of_who_query_def)

lemma fold_conceal:
  assumes "\<And>x s. f x (conceal d p s) = conceal d p (f x s)"
  shows "fold f xs (conceal d p s) = conceal d p (fold f xs s)"
  by (induction xs arbitrary: s) (simp_all add: assms)

lemma send_numerics_conceal [simp]: "send_numerics c ls (conceal d p s) = conceal d p (send_numerics c ls s)"
  unfolding send_numerics_def by (rule fold_conceal) (simp add: case_prod_beta)

lemma registered_only_conceal:
  assumes "\<And>s. visibility_is_oper (sv_client s c) = visibility_is_oper (sv_client s0 c) \<Longrightarrow>
    snd (body (conceal d p s)) = conceal d p (snd (body s))"
  shows "snd (registered_only c body (conceal d p s0)) = conceal d p (snd (registered_only c body s0))"
  using assms [of s0] by (simp add: registered_only_def command_require_registered_def)

lemma command_userhost_conceal: "snd (command_userhost c params (conceal d p s)) = conceal d p (snd (command_userhost c params s))"
proof -
  have "send_user_address c n c_display_host x (conceal d p s) = conceal d p (send_user_address c n c_display_host x s)" for n x s
    by (cases "hash_get (sv_clients_by_nick s) x") (simp_all add: send_user_address_def online_subject_def)
  then show ?thesis
    unfolding command_userhost_def
    by (intro registered_only_conceal) (simp add: fold_conceal split: option.split)
qed

lemma command_userip_conceal:
  assumes "\<not> visibility_is_oper (sv_client s c)"
  shows "snd (command_userip c params (conceal d p s)) = conceal d p (snd (command_userip c params s))"
  using assms unfolding command_userip_def
  by (intro registered_only_conceal) (simp add: visibility_is_oper_def)

lemma send_who_reply_conceal [simp]: "send_who_reply c e ch (conceal d p s) = conceal d p (send_who_reply c e ch s)"
  by (simp add: send_who_reply_def Let_def)

lemma who_loop_conceal [simp]: "who_loop c ch es (conceal d p s) = conceal d p (who_loop c ch es s)"
proof (induction c ch es s rule: who_loop.induct)
  case (2 c ch e es s)
  then show ?case by (cases "visibility_who_user s c e") (simp_all add: Let_def)
qed simp

lemma command_who_conceal: "snd (command_who c params (conceal d p s)) = conceal d p (snd (command_who c params s))"
  unfolding command_who_def
proof (rule registered_only_conceal)
  fix s
  have tail: "(if b then conceal d p t else send_end_of_who_query c q (conceal d p t)) =
      conceal d p (if b then t else send_end_of_who_query c q t)" for b q t
    by simp
  have middle: "(if b1 then (case o1 of Some h \<Rightarrow> if visibility_names_channel s c (sv_channel s h)
          then who_loop c (Some (sv_channel s h)) (map m_client (ch_members (sv_channel s h))) (conceal d p s) else conceal d p s
        | None \<Rightarrow> conceal d p s)
      else if b2 then (case o2 of Some e \<Rightarrow> if visibility_who_user s c e then send_who_reply c e None (conceal d p s) else conceal d p s
        | None \<Rightarrow> conceal d p s)
      else who_loop c None (sv_clients s) (conceal d p s)) =
    conceal d p (if b1 then (case o1 of Some h \<Rightarrow> if visibility_names_channel s c (sv_channel s h)
          then who_loop c (Some (sv_channel s h)) (map m_client (ch_members (sv_channel s h))) s else s
        | None \<Rightarrow> s)
      else if b2 then (case o2 of Some e \<Rightarrow> if visibility_who_user s c e then send_who_reply c e None s else s | None \<Rightarrow> s)
      else who_loop c None (sv_clients s) s)" for b1 b2 o1 o2
    by (simp split: option.split)
  show "snd ((\<lambda>s.
     let m = Option.bind params (\<lambda>p. fst (tok1 p));
         s1 = (case m of
                 Some x \<Rightarrow>
                   if starts_with ''#&'' x then
                     (case hash_get (sv_channels_by_name s) x of
                        Some h \<Rightarrow> if visibility_names_channel s c (sv_channel s h)
                                  then who_loop c (Some (sv_channel s h)) (map m_client (ch_members (sv_channel s h))) s else s
                      | None \<Rightarrow> s)
                   else if x \<noteq> ''0'' \<and> x \<noteq> ''*'' then
                     (case hash_get (sv_clients_by_nick s) x of
                        Some d \<Rightarrow> if visibility_who_user s c d then send_who_reply c d None s else s
                      | None \<Rightarrow> s)
                   else who_loop c None (sv_clients s) s
               | None \<Rightarrow> who_loop c None (sv_clients s) s)
     in (COMMAND_KEEP_CLIENT,
         if o_overflowed (sv_out s1 c) then s1
         else send_end_of_who_query c (case m of None \<Rightarrow> ''*'' | Some x \<Rightarrow> x) s1)) (conceal d p s)) = conceal d p (snd ((\<lambda>s.
     let m = Option.bind params (\<lambda>p. fst (tok1 p));
         s1 = (case m of
                 Some x \<Rightarrow>
                   if starts_with ''#&'' x then
                     (case hash_get (sv_channels_by_name s) x of
                        Some h \<Rightarrow> if visibility_names_channel s c (sv_channel s h)
                                  then who_loop c (Some (sv_channel s h)) (map m_client (ch_members (sv_channel s h))) s else s
                      | None \<Rightarrow> s)
                   else if x \<noteq> ''0'' \<and> x \<noteq> ''*'' then
                     (case hash_get (sv_clients_by_nick s) x of
                        Some d \<Rightarrow> if visibility_who_user s c d then send_who_reply c d None s else s
                      | None \<Rightarrow> s)
                   else who_loop c None (sv_clients s) s
               | None \<Rightarrow> who_loop c None (sv_clients s) s)
     in (COMMAND_KEEP_CLIENT,
         if o_overflowed (sv_out s1 c) then s1
         else send_end_of_who_query c (case m of None \<Rightarrow> ''*'' | Some x \<Rightarrow> x) s1)) s))"
  proof (cases "Option.bind params (\<lambda>p. fst (tok1 p))")
    case None
    show ?thesis unfolding None Let_def snd_conv option.case by (simp add: tail)
  next
    case (Some x)
    show ?thesis
      unfolding Some Let_def snd_conv option.case conceal_fields conceal_decisions middle by (rule tail)
  qed
qed

lemma whois_lines_conceal:
  "whois_lines (conceal d p s) c e = whois_lines s c e" "whois_idle_lines (conceal d p s) c e = whois_idle_lines s c e"
  "\<not> visibility_is_oper (sv_client s c) \<Longrightarrow> c \<noteq> d \<Longrightarrow> whois_private_lines (conceal d p s) c e = whois_private_lines s c e"
  by (simp_all add: whois_lines_def whois_idle_lines_def whois_private_lines_def Let_def cong: if_cong split del: if_split)

lemma send_whois_channels_conceal [simp]: "send_whois_channels c e (conceal d p s) = conceal d p (send_whois_channels c e s)"
  unfolding send_whois_channels_def Let_def
  by (simp add: RPL_WHOISCHANNELS_def fold_conceal)

lemma whois_body_conceal:
  assumes "\<not> visibility_is_oper (sv_client s c)" "c \<noteq> d"
  shows "whois_body c e (conceal d p s) = conceal d p (whois_body c e s)"
proof -
  have user: "send_whois_user c e (conceal d p t) = conceal d p (send_whois_user c e t)" for t
    by (simp add: send_whois_user_def Let_def)
  have notice: "(if b then sendf e x (conceal d p s) else conceal d p s) = conceal d p (if b then sendf e x s else s)" for b x
    by simp
  show ?thesis
    unfolding whois_body_def Let_def conceal_client conceal_decisions conceal_fields whois_lines_conceal(1,2)
      whois_lines_conceal(3) [OF assms] notice user send_numerics_conceal send_whois_channels_conceal by (rule refl)
qed

lemma command_whois_conceal:
  assumes "\<not> visibility_is_oper (sv_client s c)" "c \<noteq> d"
  shows "snd (command_whois c params (conceal d p s)) = conceal d p (snd (command_whois c params s))"
proof -
  have missing: "send_missing_whois c q (conceal d p t) = conceal d p (send_missing_whois c q t)" for q t
    unfolding send_missing_whois_def Let_def replies_conceal conceal_decisions conceal_client if_distrib [of "conceal d p", symmetric]
    by (rule refl)
  show ?thesis
    unfolding command_whois_def
  proof (rule registered_only_conceal)
    fix t :: server
    assume "visibility_is_oper (sv_client t c) = visibility_is_oper (sv_client s c)"
    then have body: "whois_body c e (conceal d p t) = conceal d p (whois_body c e t)" for e
      using assms by (simp add: whois_body_conceal)
    show "snd ((\<lambda>s.
     case Option.bind params (strtok '' ,'') of
       None \<Rightarrow> reply c ''431'' '':No nickname given'' s
     | Some (target_name, _) \<Rightarrow>
         (COMMAND_KEEP_CLIENT,
          case hash_get (sv_clients_by_nick s) target_name of
            None \<Rightarrow> send_missing_whois c target_name s
          | Some d \<Rightarrow> whois_body c d s)) (conceal d p t)) = conceal d p (snd ((\<lambda>s.
     case Option.bind params (strtok '' ,'') of
       None \<Rightarrow> reply c ''431'' '':No nickname given'' s
     | Some (target_name, _) \<Rightarrow>
         (COMMAND_KEEP_CLIENT,
          case hash_get (sv_clients_by_nick s) target_name of
            None \<Rightarrow> send_missing_whois c target_name s
          | Some d \<Rightarrow> whois_body c d s)) t))"
    proof (cases "Option.bind params (strtok '' ,'')")
      case (Some x)
      show ?thesis
        unfolding Some option.case case_prod_beta conceal_fields snd_conv
        by (cases "hash_get (sv_clients_by_nick t) (fst x)") (simp_all add: missing body)
    qed simp
  qed
qed

text \<open>
  C24: private details stay private.  What a client that is no operator is told in answer to WHO, WHOIS, USERHOST
  or USERIP, and everything else these commands do, is independent of the address, the host name before
  cloaking, the location, the client version and the website of any other client: had these been different,
  every line sent and the resulting server would be the same, but for those details themselves.
\<close>

theorem queries_hide_private_details:
  assumes "\<not> visibility_is_oper (sv_client s c)" and "c \<noteq> d"
    and "f \<in> {command_who, command_whois, command_userhost, command_userip}"
  shows "snd (f c params (conceal d p s)) = conceal d p (snd (f c params s))"
  using assms(3) command_who_conceal [of c params d p s] command_whois_conceal [OF assms(1,2)]
    command_userhost_conceal [of c params d p s] command_userip_conceal [OF assms(1)]
  by blast

theorem queries_hide_private_details_witness:
  "sv_log (snd (command_whois 1 (Some ''alice'') (conceal 0 (''10.9.9.9'', ''home'', geoip_zero, ''v'', ''w'') example_room))) =
   sv_log (snd (command_whois 1 (Some ''alice'') example_room))"
proof -
  have "\<not> visibility_is_oper (sv_client example_room 1)"
    by (simp add: visibility_is_oper_def client_mode_has_def)
  then show ?thesis
    using queries_hide_private_details [of example_room 1 0 command_whois "Some ''alice''" "(''10.9.9.9'', ''home'', geoip_zero, ''v'', ''w'')"]
    by simp
qed

end
