(* ===== verification/Client_Loop.thy ===== *)
theory Client_Loop
  imports Server_Steps "HOL-Library.While_Combinator"
begin

section \<open>Loops over the connected clients that may disconnect them\<close>

text \<open>
  \<open>server_disconnect\<close> moves the last client of the array into the free place.  The loops of \<open>kline.c\<close>, \<open>zline.c\<close>, \<open>geoban.c\<close> and
  \<open>server.c\<close> that disconnect clients while they run over the array therefore leave the index where it is after a disconnect.
  \<open>sweep\<close> is that loop; every pass shortens the part that is left by one, hence the number of clients at the start is enough fuel (\<open>sweep_while\<close>).
  The locales state what a body has to satisfy: \<open>client_loop\<close> gives that the loop ends and keeps the server well formed,
  \<open>client_sweep\<close> that it strikes exactly the clients it should, \<open>row_sweep\<close> the same for one loop per row of a table.
\<close>

text \<open>\<open>act d s\<close> deals with client \<open>d\<close> and tells whether it was disconnected.\<close>

fun sweep :: "(cref \<Rightarrow> server \<Rightarrow> bool \<times> server) \<Rightarrow> nat \<Rightarrow> nat \<Rightarrow> server \<Rightarrow> server" where
  "sweep act 0 i s = s"
| "sweep act (Suc fuel) i s =
     (if i \<ge> length (sv_clients s) then s
      else let (gone, s1) = act (sv_clients s ! i) s in sweep act fuel (if gone then i else i + 1) s1)"

text \<open>The same loop without fuel: its test and one pass, on the index and the server.\<close>

definition sweep_test :: "nat \<times> server \<Rightarrow> bool" where
  "sweep_test st \<longleftrightarrow> fst st < length (sv_clients (snd st))"

definition sweep_pass :: "(cref \<Rightarrow> server \<Rightarrow> bool \<times> server) \<Rightarrow> nat \<times> server \<Rightarrow> nat \<times> server" where
  "sweep_pass act st =
     (let (i, s) = st; (gone, s1) = act (sv_clients s ! i) s in (if gone then i else i + 1, s1))"

subsection \<open>The invariant\<close>

text \<open>Disconnecting another client.\<close>

lemma keeps_disconnect:
  assumes "keeps c s t" "d \<noteq> c" "server_wf t \<Longrightarrow> c \<in> set (sv_clients t) \<Longrightarrow> d \<in> set (sv_clients t)"
  shows "keeps c s (server_disconnect d reason t)"
proof -
  have "server_wf (server_disconnect d reason t) \<and> c \<in> set (sv_clients (server_disconnect d reason t))"
    if "server_wf t" "c \<in> set (sv_clients t)"
  proof -
    note wf = that(1) and c = that(2) and d = assms(3) [OF that]
    obtain u where u: "aux_only u (server_disconnect d reason t)" "server_wf u" "sv_clients u = swap_remove d (sv_clients t)"
      by (rule server_disconnect_core [OF wf d])
    have "mset (sv_clients u) = mset (sv_clients t) - {#d#}"
      using u(3) mset_swap_remove d by metis
    then have "count (mset (sv_clients u)) c = count (mset (sv_clients t)) c"
      using assms(2) by simp
    then have "c \<in> set (sv_clients u)" using c by (metis count_mset_0_iff)
    then show ?thesis using server_wf_aux [OF u(1,2)] aux_fields(2) [OF u(1)] by simp
  qed
  then show ?thesis using assms(1) by (auto simp: keeps_def)
qed

lemma sweep_keeps:
  assumes "\<And>d s. d \<in> set (sv_clients s) \<Longrightarrow> keeps c s (snd (act d s))"
  shows "keeps c s (sweep act fuel i s)"
  using assms
proof (induction act fuel i s rule: sweep.induct)
  case (2 act fuel i s)
  obtain gone s1 where r: "act (sv_clients s ! i) s = (gone, s1)" by fastforce
  show ?case
  proof (cases "i < length (sv_clients s)")
    case True
    then have 1: "keeps c s s1" using 2(2) [of "sv_clients s ! i" s] r by simp
    have "keeps c s1 (sweep act fuel (if gone then i else i + 1) s1)"
      by (rule 2(1)) (use True r 2(2) in auto)
    then have "keeps c s (sweep act fuel (if gone then i else i + 1) s1)" by (rule keeps_trans [OF 1])
    then show ?thesis using True r by (simp split del: if_split)
  qed simp
qed simp

subsection \<open>What a pass leaves unchanged\<close>

text \<open>\<open>t\<close> is \<open>s\<close> after some clients have left: the tables, the clock and the clients that stay are the same.\<close>

definition shrunk :: "server \<Rightarrow> server \<Rightarrow> bool" where
  "shrunk s t \<longleftrightarrow> server_wf t \<and> sv_world t = sv_world s \<and> sv_clock t = sv_clock s \<and> sv_config t = sv_config s \<and>
     set (sv_clients t) \<subseteq> set (sv_clients s) \<and> (\<forall>d\<in>set (sv_clients t). sv_client t d = sv_client s d)"

lemma shrunk_trans: "shrunk s t \<Longrightarrow> shrunk t u \<Longrightarrow> shrunk s u"
  by (auto simp: shrunk_def)

lemma shrunk_io: "server_wf s \<Longrightarrow> io_only s t \<Longrightarrow> shrunk s t"
  by (simp add: shrunk_def server_wf_io io_fields)

lemma leave_environment [simp]:
  "sv_world (server_remove_channel_if_empty h (remove_member h c s)) = sv_world s"
  "sv_clock (server_remove_channel_if_empty h (remove_member h c s)) = sv_clock s"
  "sv_config (server_remove_channel_if_empty h (remove_member h c s)) = sv_config s"
  by (simp_all add: server_remove_channel_if_empty_def remove_member_def Let_def case_prod_beta)

lemma disconnect_environment:
  "sv_world (server_disconnect d reason s) = sv_world s" "sv_clock (server_disconnect d reason s) = sv_clock s"
  "sv_config (server_disconnect d reason s) = sv_config s"
proof -
  have fold_leave: "sv_world (fold (\<lambda>h s. server_remove_channel_if_empty h (remove_member h d s)) hs t) = sv_world t \<and>
      sv_clock (fold (\<lambda>h s. server_remove_channel_if_empty h (remove_member h d s)) hs t) = sv_clock t \<and>
      sv_config (fold (\<lambda>h s. server_remove_channel_if_empty h (remove_member h d s)) hs t) = sv_config t" for hs t
    by (induction hs arbitrary: t) simp_all
  have counts: "sv_world (connection_count_remove ip t) = sv_world t" "sv_clock (connection_count_remove ip t) = sv_clock t"
    "sv_config (connection_count_remove ip t) = sv_config t" for ip t
    by (simp_all add: connection_count_remove_def set_counts_def split: option.split)
  note frames = aux_fields [OF client_free_aux] io_fields [OF pmstats_disconnect_io] fold_leave counts
  show "sv_world (server_disconnect d reason s) = sv_world s" "sv_clock (server_disconnect d reason s) = sv_clock s"
    "sv_config (server_disconnect d reason s) = sv_config s"
    by (simp_all add: server_disconnect_def leave_all_channels_def frames Let_def)
qed

lemma disconnect_shrunk:
  assumes "server_wf s" "d \<in> set (sv_clients s)"
  shows "shrunk s (server_disconnect d reason s)" and "sv_clients (server_disconnect d reason s) = swap_remove d (sv_clients s)"
proof -
  obtain u where u: "aux_only u (server_disconnect d reason s)" "server_wf u" "sv_clients u = swap_remove d (sv_clients s)"
    "\<And>e. e \<noteq> d \<Longrightarrow> sv_client u e = sv_client s e"
    by (rule server_disconnect_core [OF assms, where reason = reason]) blast
  note f = aux_fields [OF u(1)]
  have "distinct (sv_clients s)" using assms(1) by (simp add: server_wf_def wf_alloc_def)
  then have "set (sv_clients u) = set (sv_clients s) - {d}" using swap_remove_distinct(1) [OF assms(2)] u(3) by simp
  then show "shrunk s (server_disconnect d reason s)"
    using server_wf_aux [OF u(1,2)] u(4) f disconnect_environment by (auto simp: shrunk_def)
  show "sv_clients (server_disconnect d reason s) = swap_remove d (sv_clients s)" using u(3) f by simp
qed

lemma swap_remove_at:
  assumes "i < length xs" "distinct xs"
  shows "take i (swap_remove (xs ! i) xs) = take i xs" and "set (drop i (swap_remove (xs ! i) xs)) = set (drop (Suc i) xs)"
    and "length (swap_remove (xs ! i) xs) = length xs - 1"
  using assms
proof (induction xs arbitrary: i)
  case (Cons x xs)
  {
    case 1
    then show ?case using Cons.IH(1) by (cases i) (auto simp: nth_Cons')
  next
    case 2
    then show ?case using Cons.IH(2) by (cases i) (auto simp: nth_Cons' dest: in_set_butlastD, metis append_butlast_last_id set_append Un_iff list.set_intros(1) set_ConsD empty_iff list.set(1))
  next
    case 3
    then show ?case using Cons.IH(3) by (cases i) (auto simp: nth_Cons')
  }
qed simp_all

text \<open>The least a body has to satisfy: it keeps the server well formed and removes at most the client it deals with.\<close>

locale client_loop =
  fixes act :: "cref \<Rightarrow> server \<Rightarrow> bool \<times> server"
  assumes act_wf: "server_wf s \<Longrightarrow> d \<in> set (sv_clients s) \<Longrightarrow> server_wf (snd (act d s))"
    and act_leaves: "server_wf s \<Longrightarrow> d \<in> set (sv_clients s) \<Longrightarrow>
      sv_clients (snd (act d s)) = (if fst (act d s) then swap_remove d (sv_clients s) else sv_clients s)"
begin

lemma pass_length:
  assumes "server_wf s" "i < length (sv_clients s)" "length (sv_clients s) \<le> i + Suc fuel"
  shows "length (sv_clients (snd (act (sv_clients s ! i) s))) \<le> (if fst (act (sv_clients s ! i) s) then i else i + 1) + fuel"
proof -
  have "distinct (sv_clients s)" using assms(1) by (simp add: server_wf_def wf_alloc_def)
  from swap_remove_at(3) [OF assms(2) this] show ?thesis
    using act_leaves [OF assms(1) nth_mem [OF assms(2)]] assms(3) by auto
qed

lemma sweep_wf: "server_wf s \<Longrightarrow> server_wf (sweep act fuel i s)"
proof (induction fuel arbitrary: i s)
  case (Suc fuel)
  then show ?case
    using act_wf [OF Suc.prems, of "sv_clients s ! i"] by (auto simp: case_prod_beta not_le simp del: One_nat_def)
qed simp

lemma sweep_enough:
  assumes "server_wf s" "length (sv_clients s) \<le> i + fuel"
  shows "sweep act (fuel + n) i s = sweep act fuel i s"
  using assms
proof (induction fuel arbitrary: i s)
  case 0
  then show ?case by (cases n) simp_all
next
  case (Suc fuel)
  show ?case
  proof (cases "i < length (sv_clients s)")
    case True
    have "server_wf (snd (act (sv_clients s ! i) s))" by (rule act_wf [OF Suc.prems(1) nth_mem [OF True]])
    note IH = Suc.IH [OF this pass_length [OF Suc.prems(1) True Suc.prems(2)]]
    show ?thesis using True IH by (simp add: case_prod_beta split del: if_split)
  qed simp
qed

text \<open>The loop without fuel leaves by its own test, with the result of \<open>sweep\<close>, and each of its passes shortens what is left by one.\<close>

lemma sweep_while:
  assumes "server_wf s" "length (sv_clients s) \<le> i + fuel"
  shows "\<exists>j. while_option sweep_test (sweep_pass act) (i, s) = Some (j, sweep act fuel i s)"
  using assms
proof (induction fuel arbitrary: i s)
  case 0
  then show ?case by (subst while_option_unfold) (simp add: sweep_test_def)
next
  case (Suc fuel)
  show ?case
  proof (cases "i < length (sv_clients s)")
    case True
    have "server_wf (snd (act (sv_clients s ! i) s))" by (rule act_wf [OF Suc.prems(1) nth_mem [OF True]])
    note IH = Suc.IH [OF this pass_length [OF Suc.prems(1) True Suc.prems(2)]]
    have "sweep_test (i, s)" using True by (simp add: sweep_test_def)
    moreover have "sweep_pass act (i, s) = (if fst (act (sv_clients s ! i) s) then i else i + 1, snd (act (sv_clients s ! i) s))"
      by (simp add: sweep_pass_def case_prod_beta)
    moreover have "sweep act (Suc fuel) i s =
        sweep act fuel (if fst (act (sv_clients s ! i) s) then i else i + 1) (snd (act (sv_clients s ! i) s))"
      using True by (simp add: case_prod_beta split del: if_split)
    ultimately show ?thesis using IH by (subst while_option_unfold) (simp only: if_True)
  next
    case False
    then show ?thesis by (subst while_option_unfold) (simp add: sweep_test_def)
  qed
qed

lemma sweep_count:
  assumes "server_wf s" "i \<le> length (sv_clients s)"
  shows "(\<forall>j<length (sv_clients s) - i. sweep_test ((sweep_pass act ^^ j) (i, s))) \<and>
    \<not> sweep_test ((sweep_pass act ^^ (length (sv_clients s) - i)) (i, s))"
  using assms
proof (induction "length (sv_clients s) - i" arbitrary: i s)
  case 0
  then show ?case by (simp add: sweep_test_def)
next
  case (Suc n)
  let ?u = "snd (act (sv_clients s ! i) s)" and ?j = "if fst (act (sv_clients s ! i) s) then i else i + 1"
  have i: "i < length (sv_clients s)" using Suc(2) by simp
  have dist: "distinct (sv_clients s)" using Suc.prems(1) by (simp add: server_wf_def wf_alloc_def)
  have left: "n = length (sv_clients ?u) - ?j" "?j \<le> length (sv_clients ?u)"
    using act_leaves [OF Suc.prems(1) nth_mem [OF i]] swap_remove_at(3) [OF i dist] i Suc(2) by auto
  have step: "sweep_pass act (i, s) = (?j, ?u)" by (simp add: sweep_pass_def case_prod_beta)
  note IH = Suc(1) [OF left(1) act_wf [OF Suc.prems(1) nth_mem [OF i]] left(2)]
  show ?case
    using IH i step unfolding Suc(2) [symmetric] left(1) [symmetric] All_less_Suc2
    by (simp add: sweep_test_def funpow_Suc_right del: funpow.simps)
qed

text \<open>Induction over the passes: \<open>P i s t\<close> relates the index and state before the rest of the loop to the state after it.\<close>

lemma sweep_passes:
  assumes wf: "server_wf s" and fuel: "length (sv_clients s) \<le> i + fuel"
    and stop: "\<And>i s. server_wf s \<Longrightarrow> length (sv_clients s) \<le> i \<Longrightarrow> P i s s"
    and pass: "\<And>i s t. server_wf s \<Longrightarrow> i < length (sv_clients s) \<Longrightarrow>
      P (if fst (act (sv_clients s ! i) s) then i else i + 1) (snd (act (sv_clients s ! i) s)) t \<Longrightarrow> P i s t"
  shows "P i s (sweep act fuel i s)"
  using wf fuel
proof (induction fuel arbitrary: i s)
  case (Suc fuel)
  show ?case
  proof (cases "i < length (sv_clients s)")
    case True
    have "server_wf (snd (act (sv_clients s ! i) s))" by (rule act_wf [OF Suc.prems(1) nth_mem [OF True]])
    note IH = Suc.IH [OF this pass_length [OF Suc.prems(1) True Suc.prems(2)]]
    show ?thesis using pass [OF Suc.prems(1) True IH] True by (simp add: case_prod_beta split del: if_split)
  qed (use Suc.prems stop in simp)
qed (use stop in simp)

end

lemma split_at:
  assumes "i < length xs"
  shows "set (drop i xs) = insert (xs ! i) (set (drop (Suc i) xs))" and "set (take (Suc i) xs) = insert (xs ! i) (set (take i xs))"
  using Cons_nth_drop_Suc [OF assms] by (metis list.simps(15)) (simp add: take_Suc_conv_app_nth [OF assms])

text \<open>A body that strikes the clients it should and changes nothing else.\<close>

locale client_sweep =
  fixes act :: "cref \<Rightarrow> server \<Rightarrow> bool \<times> server" and hit :: "server \<Rightarrow> cref \<Rightarrow> bool"
  assumes hit_view: "shrunk s t \<Longrightarrow> d \<in> set (sv_clients t) \<Longrightarrow> hit t d = hit s d"
    and verdict: "server_wf s \<Longrightarrow> d \<in> set (sv_clients s) \<Longrightarrow> fst (act d s) = hit s d"
    and effect: "server_wf s \<Longrightarrow> d \<in> set (sv_clients s) \<Longrightarrow> shrunk s (snd (act d s))"
    and leaves: "server_wf s \<Longrightarrow> d \<in> set (sv_clients s) \<Longrightarrow>
      sv_clients (snd (act d s)) = (if hit s d then swap_remove d (sv_clients s) else sv_clients s)"

sublocale client_sweep \<subseteq> client_loop act
  using verdict effect leaves by unfold_locales (simp_all add: shrunk_def)

context client_sweep begin

lemma sweep_removes:
  assumes "server_wf s" "length (sv_clients s) \<le> i + fuel"
  shows "shrunk s (sweep act fuel i s) \<and>
    set (sv_clients (sweep act fuel i s)) = set (take i (sv_clients s)) \<union> {d \<in> set (drop i (sv_clients s)). \<not> hit s d}"
proof (rule sweep_passes [OF assms, where P = "\<lambda>i s t. shrunk s t \<and>
    set (sv_clients t) = set (take i (sv_clients s)) \<union> {d \<in> set (drop i (sv_clients s)). \<not> hit s d}"], goal_cases)
  case (2 i s t)
  let ?d = "sv_clients s ! i"
  let ?u = "snd (act ?d s)" and ?j = "if hit s ?d then i else i + 1"
  have d: "?d \<in> set (sv_clients s)" and dist: "distinct (sv_clients s)"
    using 2(1,2) by (simp_all add: server_wf_def wf_alloc_def)
  note act = verdict [OF 2(1) d] effect [OF 2(1) d] leaves [OF 2(1) d]
  have view: "hit ?u e = hit s e" if "e \<in> set (sv_clients ?u)" for e using hit_view [OF act(2) that] .
  have "{e \<in> set (drop ?j (sv_clients ?u)). \<not> hit ?u e} = {e \<in> set (drop ?j (sv_clients ?u)). \<not> hit s e}"
    using view in_set_dropD by fast
  also have "set (take ?j (sv_clients ?u)) \<union> \<dots> = set (take i (sv_clients s)) \<union> {e \<in> set (drop i (sv_clients s)). \<not> hit s e}"
    using act(3) swap_remove_at(1,2) [OF 2(2) dist] split_at [OF 2(2)]
    by (cases "hit s ?d") (simp_all add: Collect_disj_eq conj_disj_distribR, blast+)
  finally show ?case using 2(3) act shrunk_trans [OF act(2)] by simp
qed (simp add: shrunk_io)

lemma sweep_fuel:
  "server_wf s \<Longrightarrow> length (sv_clients s) \<le> i + fuel \<Longrightarrow> sweep act (fuel + n) i s = sweep act fuel i s"
  by (rule sweep_enough)

lemma loop_ends:
  assumes "server_wf s"
  shows "(\<exists>i. while_option sweep_test (sweep_pass act) (0, s) = Some (i, sweep act (length (sv_clients s)) 0 s)) \<and>
    (\<forall>j<length (sv_clients s). sweep_test ((sweep_pass act ^^ j) (0, s))) \<and>
    \<not> sweep_test ((sweep_pass act ^^ length (sv_clients s)) (0, s))"
  using sweep_while [OF assms, of 0 "length (sv_clients s)"] sweep_count [OF assms, of 0] by simp

text \<open>The fuel that the handlers give, the number of clients, lets the loop see everybody.\<close>

lemma sweep_all:
  assumes "server_wf s"
  shows "shrunk s (sweep act (length (sv_clients s)) 0 s)"
    and "set (sv_clients (sweep act (length (sv_clients s)) 0 s)) = {d \<in> set (sv_clients s). \<not> hit s d}"
  using sweep_removes [OF assms, of 0 "length (sv_clients s)"] by simp_all

end

text \<open>A family of loops, one per row of a table.\<close>

locale row_sweep =
  fixes act :: "'r \<Rightarrow> cref \<Rightarrow> server \<Rightarrow> bool \<times> server" and hit :: "'r \<Rightarrow> server \<Rightarrow> cref \<Rightarrow> bool"
  assumes rows: "client_sweep (act r) (hit r)"
begin

lemma fold_sweep:
  assumes "server_wf s"
  shows "shrunk s (fold (\<lambda>r s. sweep (act r) (length (sv_clients s)) 0 s) rs s) \<and>
    set (sv_clients (fold (\<lambda>r s. sweep (act r) (length (sv_clients s)) 0 s) rs s)) = {d \<in> set (sv_clients s). \<forall>r\<in>set rs. \<not> hit r s d}"
  using assms
proof (induction rs arbitrary: s)
  case (Cons r rs)
  let ?t = "sweep (act r) (length (sv_clients s)) 0 s"
  note one = client_sweep.sweep_all [OF rows Cons.prems, of r]
  have wf: "server_wf ?t" using one(1) by (simp add: shrunk_def)
  have "hit q ?t d = hit q s d" if "d \<in> set (sv_clients ?t)" for q d
    using client_sweep.hit_view [OF rows one(1) that] .
  then show ?case using Cons.IH [OF wf] shrunk_trans [OF one(1)] one(2) by auto
qed (simp add: shrunk_io)

end

text \<open>A body that may also change the client it visits: \<open>post\<close> relates that client before and after the visit.\<close>

locale client_visit = client_loop +
  fixes hit :: "time_t \<Rightarrow> server_config \<Rightarrow> client \<Rightarrow> bool" and post :: "time_t \<Rightarrow> server_config \<Rightarrow> client \<Rightarrow> client \<Rightarrow> bool"
  assumes visit_verdict: "server_wf s \<Longrightarrow> d \<in> set (sv_clients s) \<Longrightarrow> fst (act d s) = hit (sv_clock s) (sv_config s) (sv_client s d)"
    and visit_others: "server_wf s \<Longrightarrow> d \<in> set (sv_clients s) \<Longrightarrow> e \<noteq> d \<Longrightarrow> sv_client (snd (act d s)) e = sv_client s e"
    and visit_clock: "server_wf s \<Longrightarrow> d \<in> set (sv_clients s) \<Longrightarrow>
      sv_clock (snd (act d s)) = sv_clock s \<and> sv_config (snd (act d s)) = sv_config s"
    and visit_post: "server_wf s \<Longrightarrow> d \<in> set (sv_clients s) \<Longrightarrow> \<not> fst (act d s) \<Longrightarrow>
      post (sv_clock s) (sv_config s) (sv_client s d) (sv_client (snd (act d s)) d)"
begin

abbreviation struck :: "server \<Rightarrow> cref \<Rightarrow> bool" where
  "struck s d \<equiv> hit (sv_clock s) (sv_config s) (sv_client s d)"

lemma sweep_visits:
  assumes "server_wf s" "length (sv_clients s) \<le> i + fuel"
  shows "set (sv_clients (sweep act fuel i s)) = set (take i (sv_clients s)) \<union> {d \<in> set (drop i (sv_clients s)). \<not> struck s d} \<and>
    (\<forall>d\<in>set (take i (sv_clients s)). sv_client (sweep act fuel i s) d = sv_client s d) \<and>
    (\<forall>d\<in>set (drop i (sv_clients s)). struck s d \<or> post (sv_clock s) (sv_config s) (sv_client s d) (sv_client (sweep act fuel i s) d))"
proof (rule sweep_passes [OF assms, where P = "\<lambda>i s t.
    set (sv_clients t) = set (take i (sv_clients s)) \<union> {d \<in> set (drop i (sv_clients s)). \<not> struck s d} \<and>
    (\<forall>d\<in>set (take i (sv_clients s)). sv_client t d = sv_client s d) \<and>
    (\<forall>d\<in>set (drop i (sv_clients s)). struck s d \<or> post (sv_clock s) (sv_config s) (sv_client s d) (sv_client t d))"], goal_cases)
  case (2 i s t)
  let ?d = "sv_clients s ! i"
  let ?u = "snd (act ?d s)"
  have d: "?d \<in> set (sv_clients s)" and dist: "distinct (sv_clients s)"
    using 2(1,2) by (simp_all add: server_wf_def wf_alloc_def)
  have new: "?d \<notin> set (take i (sv_clients s))" "?d \<notin> set (drop (Suc i) (sv_clients s))"
    using dist 2(2) id_take_nth_drop [OF 2(2)] by (metis distinct_append disjoint_iff not_distinct_conv_prefix list.set_intros(1) distinct.simps(2))+
  note v = visit_verdict [OF 2(1) d] and l = act_leaves [OF 2(1) d] and e = visit_clock [OF 2(1) d]
  have same: "sv_client ?u x = sv_client s x" if "x \<in> set (take i (sv_clients s)) \<union> set (drop (Suc i) (sv_clients s))" for x
    by (rule visit_others [OF 2(1) d]) (use new that in auto)
  then have hits: "struck ?u x = struck s x" if "x \<in> set (take i (sv_clients s)) \<union> set (drop (Suc i) (sv_clients s))" for x
    using e that by simp
  show ?case
  proof (cases "fst (act ?d s)")
    case True
    then have u: "take i (sv_clients ?u) = take i (sv_clients s)" "set (drop i (sv_clients ?u)) = set (drop (Suc i) (sv_clients s))"
      using l swap_remove_at(1,2) [OF 2(2) dist] by simp_all
    then show ?thesis using 2(3) True v same hits e split_at(1) [OF 2(2)] by (auto simp: ball_Un)
  next
    case False
    then have u: "sv_clients ?u = sv_clients s" using l by simp
    note p = visit_post [OF 2(1) d False]
    show ?thesis using 2(3) False v same hits e split_at [OF 2(2)] u p by (auto simp: ball_Un)
  qed
qed simp

text \<open>Every client that is not struck is visited by one of the passes, in the state it had before the loop, and keeps what that visit made of it.\<close>

lemma sweep_visits_one:
  assumes "server_wf s" "length (sv_clients s) \<le> i + fuel" "d \<in> set (drop i (sv_clients s))" "\<not> struck s d"
  shows "\<exists>j<length (sv_clients s) - i. \<exists>i' v. (sweep_pass act ^^ j) (i, s) = (i', v) \<and> i' < length (sv_clients v) \<and> sv_clients v ! i' = d \<and> server_wf v \<and>
    sv_client v d = sv_client s d \<and> sv_clock v = sv_clock s \<and> sv_config v = sv_config s \<and>
    sv_client (sweep act fuel i s) d = sv_client (snd (act d v)) d"
  using assms
proof (induction fuel arbitrary: i s)
  case (Suc fuel)
  let ?e = "sv_clients s ! i"
  let ?u = "snd (act ?e s)" and ?j = "if fst (act ?e s) then i else i + 1"
  have i: "i < length (sv_clients s)" using Suc.prems(3) by (cases "i < length (sv_clients s)") auto
  have dist: "distinct (sv_clients s)" using Suc.prems(1) by (simp add: server_wf_def wf_alloc_def)
  have e: "?e \<in> set (sv_clients s)" using i by simp
  note l = act_leaves [OF Suc.prems(1) e] and wf = act_wf [OF Suc.prems(1) e] and len = pass_length [OF Suc.prems(1) i Suc.prems(2)]
  have run: "sweep act (Suc fuel) i s = sweep act fuel ?j ?u" using i by (simp add: case_prod_beta split del: if_split)
  have step: "sweep_pass act (i, s) = (?j, ?u)" by (simp add: sweep_pass_def case_prod_beta)
  show ?case
  proof (cases "d = ?e")
    case True
    then have "\<not> fst (act ?e s)" using visit_verdict [OF Suc.prems(1) e] Suc.prems(4) by simp
    then have "d \<in> set (take ?j (sv_clients ?u))" using l True split_at(2) [OF i] by simp
    then have "sv_client (sweep act fuel ?j ?u) d = sv_client ?u d" using sweep_visits [OF wf len] by blast
    then show ?thesis
      using run True i Suc.prems(1) by (intro exI [of _ 0] conjI exI [of _ i] exI [of _ s]) simp_all
  next
    case False
    then have d: "d \<in> set (drop (Suc i) (sv_clients s))" using Suc.prems(3) split_at(1) [OF i] by auto
    have same: "sv_client ?u d = sv_client s d" "sv_clock ?u = sv_clock s" "sv_config ?u = sv_config s"
      using visit_others [OF Suc.prems(1) e False] visit_clock [OF Suc.prems(1) e] by simp_all
    have "d \<in> set (drop ?j (sv_clients ?u))" using l d swap_remove_at(2) [OF i dist] by simp
    from Suc.IH [OF wf len this] Suc.prems(4) same obtain j i' v where
      v: "j < length (sv_clients ?u) - ?j" "(sweep_pass act ^^ j) (?j, ?u) = (i', v)" "i' < length (sv_clients v)" "sv_clients v ! i' = d" "server_wf v"
        "sv_client v d = sv_client s d" "sv_clock v = sv_clock s" "sv_config v = sv_config s"
        "sv_client (sweep act fuel ?j ?u) d = sv_client (snd (act d v)) d" by auto
    have n: "Suc j < length (sv_clients s) - i" using v(1) l swap_remove_at(3) [OF i dist] by (auto split: if_splits)
    have "(sweep_pass act ^^ Suc j) (i, s) = (i', v)" using v(2) step by (simp add: funpow_Suc_right del: funpow.simps)
    then show ?thesis unfolding run by (intro exI [of _ "Suc j"] conjI exI [of _ i'] exI [of _ v] n v(3-9))
  qed
qed simp

lemma sweep_visits_all:
  assumes "server_wf s"
  shows "set (sv_clients (sweep act (length (sv_clients s)) 0 s)) = {d \<in> set (sv_clients s). \<not> struck s d}"
    and "d \<in> set (sv_clients (sweep act (length (sv_clients s)) 0 s)) \<Longrightarrow>
      post (sv_clock s) (sv_config s) (sv_client s d) (sv_client (sweep act (length (sv_clients s)) 0 s) d)"
  using sweep_visits [OF assms, of 0 "length (sv_clients s)"] by auto

end

end
