(* ===== verification/Oper_Commands.thy ===== *)
theory Oper_Commands
  imports User_Queries Client_Loop
begin

section \<open>Operator commands (src/commands/kill.c, wallops.c, globops.c, setname.c, sethost.c, setident.c, sajoin.c, sapart.c, deafmute.c, flash.c)\<close>

text \<open>
  The commands by which operators act on other clients.  \<open>permitted\<close> and \<open>operators_only\<close> are the checks that open
  these handlers: registration first, then a permission of the operator account or the operator user modes.
  The records that \<open>channel_log_join\<close> and \<open>channel_log_part\<close> append to the channel log are not represented.
\<close>

definition permitted :: "u64 \<Rightarrow> cref \<Rightarrow> (server \<Rightarrow> command_result \<times> server) \<Rightarrow> server \<Rightarrow> command_result \<times> server" where
  "permitted permission c body = registered_only c (\<lambda>s.
     if \<not> oper_permission_has (c_oper_permissions (sv_client s c)) permission then (COMMAND_KEEP_CLIENT, no_privileges c s)
     else body s)"

definition operators_only :: "cref \<Rightarrow> (server \<Rightarrow> command_result \<times> server) \<Rightarrow> server \<Rightarrow> command_result \<times> server" where
  "operators_only c body = registered_only c (\<lambda>s.
     if \<not> client_mode_has (c_modes (sv_client s c)) (CLIENT_MODE_OPER OR CLIENT_MODE_NETADMIN)
     then (COMMAND_KEEP_CLIENT, no_privileges c s) else body s)"

definition no_such_nick :: "cref \<Rightarrow> string \<Rightarrow> server \<Rightarrow> command_result \<times> server" where
  "no_such_nick c nick s = reply c ''401'' (nick @ '' :No such nick/channel'') s"

definition server_notice_to :: "cref \<Rightarrow> string \<Rightarrow> server \<Rightarrow> server" where
  "server_notice_to c x s = sendf c ('':'' @ server_name s @ '' NOTICE '' @ c_nick (sv_client s c) @ '' :'' @ x) s"

text \<open>The words that \<open>strtok(params, " ")\<close> and \<open>strtok(NULL, "")\<close> give.\<close>

definition nick_and_rest :: "string option \<Rightarrow> (string \<times> string) option" where
  "nick_and_rest params =
     (case Option.bind params (strtok '' '') of
        Some (nick, rest) \<Rightarrow> if rest = [] then None else Some (nick, rest)
      | None \<Rightarrow> None)"

definition drop_colon :: "string \<Rightarrow> string" where
  "drop_colon x = (if starts_with '':'' x then drop 1 x else x)"

subsection \<open>KILL\<close>

definition send_kill_notification :: "cref \<Rightarrow> string \<Rightarrow> server \<Rightarrow> server" where
  "send_kill_notification d reason s =
     (let start = '':'' @ server_name s @ '' KILL '' @ c_nick (sv_client s d) @ '' :''
      in if length start > IRC_LINE_CONTENT_MAX then s
         else sendf d (start @ take (IRC_LINE_CONTENT_MAX - length start) reason) s)"

definition kill_denied :: "client \<Rightarrow> client \<Rightarrow> bool" where
  "kill_denied cl target \<longleftrightarrow>
     client_mode_has (c_modes target) CLIENT_MODE_SERVICE \<or>
     client_mode_has (c_modes target) CLIENT_MODE_NETADMIN \<and> \<not> client_mode_has (c_modes cl) CLIENT_MODE_NETADMIN"

definition kill_client :: "cref \<Rightarrow> cref \<Rightarrow> string \<Rightarrow> server \<Rightarrow> command_result \<times> server" where
  "kill_client c d reason s =
     (let cl = sv_client s c; target = sv_client s d;
          quit_reason = take IRC_QUIT_REASON_MAX (''Killed ('' @ c_nick cl @ '' ('' @ reason @ ''))'');
          s1 = snotice_broadcast SNOTICE_KILLS
                 (''KILL by '' @ c_nick cl @ '' ['' @ c_oper_name cl @ '']: '' @ client_identity target @
                  '' [real_ip='' @ c_real_ip target @ ''] ('' @ reason @ '')'') s;
          s2 = send_kill_notification d reason s1
      in if d = c then (COMMAND_DISCONNECT_CLIENT, upd_client c (\<lambda>cl. cl\<lparr>c_quit_reason := quit_reason\<rparr>) s2)
         else (COMMAND_KEEP_CLIENT, server_disconnect d quit_reason s2))"

definition command_kill :: "cref \<Rightarrow> string option \<Rightarrow> server \<Rightarrow> command_result \<times> server" where
  "command_kill c params = permitted OPER_PERMISSION_KILL c (\<lambda>s.
     case nick_and_rest params of
       None \<Rightarrow> ERR_NEEDMOREPARAMS c ''KILL'' s
     | Some (nick, rest) \<Rightarrow>
         let reason = drop_colon rest
         in if reason = [] then ERR_NEEDMOREPARAMS c ''KILL'' s
            else case hash_get (sv_clients_by_nick s) nick of
                   None \<Rightarrow> (COMMAND_KEEP_CLIENT, send_query_error c ''401'' ''No such nick/channel'' nick s)
                 | Some d \<Rightarrow>
                     if kill_denied (sv_client s c) (sv_client s d)
                     then reply c ''485'' ('':Cannot kill protected user '' @ c_nick (sv_client s d) @ ''.'') s
                     else kill_client c d reason s)"

subsection \<open>WALLOPS, GLOBOPS, LOCOPS and SNOTICE\<close>

definition command_wallops :: "cref \<Rightarrow> string option \<Rightarrow> server \<Rightarrow> command_result \<times> server" where
  "command_wallops c params = permitted OPER_PERMISSION_WALLOPS c (\<lambda>s.
     case params of
       None \<Rightarrow> ERR_NEEDMOREPARAMS c ''WALLOPS'' s
     | Some p \<Rightarrow>
         if p = [] then ERR_NEEDMOREPARAMS c ''WALLOPS'' s
         else let line = take (IRCD_MESSAGE_BUFFER_SIZE - 1) ('':'' @ client_identity (sv_client s c) @ '' WALLOPS :'' @ drop_colon p)
              in (COMMAND_KEEP_CLIENT,
                  fold (\<lambda>d s. if c_registered (sv_client s d) \<and> client_mode_has (c_modes (sv_client s d)) CLIENT_MODE_WALLOPS
                              then sendf d line s else s) (sv_clients s) s))"

definition oper_message_wire_fits :: "client \<Rightarrow> string \<Rightarrow> string \<Rightarrow> bool" where
  "oper_message_wire_fits cl command x \<longleftrightarrow>
     length ('':'' @ client_identity cl @ '' '' @ command @ '' :'' @ x) \<le> IRC_LINE_CONTENT_MAX"

definition send_oper_message :: "string \<Rightarrow> cref \<Rightarrow> string option \<Rightarrow> server \<Rightarrow> command_result \<times> server" where
  "send_oper_message command c params = registered_only c (\<lambda>s.
     let cl = sv_client s c
     in if \<not> client_mode_has (c_modes cl) (CLIENT_MODE_OPER OR CLIENT_MODE_NETADMIN) \<or>
           \<not> client_mode_has (c_modes cl) CLIENT_MODE_GLOBALS
        then (COMMAND_KEEP_CLIENT, no_privileges c s)
        else case params of
               None \<Rightarrow> ERR_NEEDMOREPARAMS c command s
             | Some p \<Rightarrow>
                 if p = [] then ERR_NEEDMOREPARAMS c command s
                 else if \<not> oper_message_wire_fits cl command (drop_colon p)
                 then reply c ''417'' (command @ '' :Message would exceed the IRC relay line limit'') s
                 else (COMMAND_KEEP_CLIENT, oper_message_broadcast cl command (drop_colon p) s))"

definition command_globops :: "cref \<Rightarrow> string option \<Rightarrow> server \<Rightarrow> command_result \<times> server" where
  "command_globops = send_oper_message ''GLOBOPS''"

definition command_locops :: "cref \<Rightarrow> string option \<Rightarrow> server \<Rightarrow> command_result \<times> server" where
  "command_locops = send_oper_message ''LOCOPS''"

fun snotice_loop :: "cref \<Rightarrow> bool \<Rightarrow> string \<Rightarrow> server \<Rightarrow> server" where
  "snotice_loop c adding [] s = s"
| "snotice_loop c adding (l # ls) s =
     (if l = CHR '' '' then s
      else if l = CHR ''+'' \<or> l = CHR ''-'' then snotice_loop c (l = CHR ''+'') ls s
      else let b = (if l = CHR ''*'' then SNOTICE_ALL else snotice_mask_for_letter l)
           in if b = 0 then snotice_loop c adding ls (server_notice_to c (''Unknown SNOTICE mask letter: '' @ [l]) s)
              else snotice_loop c adding ls
                     (upd_client c (\<lambda>cl. cl\<lparr>c_snotice_mask := (if adding then c_snotice_mask cl OR b else c_snotice_mask cl AND NOT b)\<rparr>) s))"

definition snotice_mode :: "client \<Rightarrow> client" where
  "snotice_mode cl = cl\<lparr>c_modes := (if c_snotice_mask cl \<noteq> 0 then client_mode_add (c_modes cl) CLIENT_MODE_SERVER_NOTICES
                                   else client_mode_remove (c_modes cl) CLIENT_MODE_SERVER_NOTICES)\<rparr>"

definition command_snotice :: "cref \<Rightarrow> string option \<Rightarrow> server \<Rightarrow> command_result \<times> server" where
  "command_snotice c params = operators_only c (\<lambda>s.
     let show = (\<lambda>title s. (COMMAND_KEEP_CLIENT, server_notice_to c (title @ snotice_mask_format (c_snotice_mask (sv_client s c)) 32) s))
     in case params of
          None \<Rightarrow> show ''SNOTICE mask: +'' s
        | Some p \<Rightarrow>
            if p = [] then show ''SNOTICE mask: +'' s
            else show ''SNOTICE mask now: +'' (upd_client c snotice_mode (snotice_loop c True p s)))"

subsection \<open>SETNAME, SETHOST and SETIDENT\<close>

definition command_setname :: "cref \<Rightarrow> string option \<Rightarrow> server \<Rightarrow> command_result \<times> server" where
  "command_setname c params = permitted OPER_PERMISSION_OVERRIDE c (\<lambda>s.
     case nick_and_rest params of
       None \<Rightarrow> ERR_NEEDMOREPARAMS c ''SETNAME'' s
     | Some (nick, rest) \<Rightarrow>
         let realname = drop_colon rest
         in if realname = [] \<or> length realname > IRC_REALNAME_MAX then ERR_NEEDMOREPARAMS c ''SETNAME'' s
            else case hash_get (sv_clients_by_nick s) nick of
                   None \<Rightarrow> no_such_nick c nick s
                 | Some d \<Rightarrow>
                     let target = sv_client s d;
                         s1 = upd_client d (\<lambda>cl. cl\<lparr>c_realname := realname\<rparr>) s;
                         s2 = server_notice_to c (''SETNAME completed for '' @ c_nick target) s1;
                         s3 = server_notice_to d (''Your real name is now '' @ realname) s2
                     in (COMMAND_KEEP_CLIENT,
                         snotice_broadcast SNOTICE_IDENTITY
                           (''SETNAME by '' @ c_nick (sv_client s c) @ '': '' @ c_nick target @ '' '' @ [CHR 0x27] @ c_realname target @
                            [CHR 0x27] @ '' -> '' @ [CHR 0x27] @ realname @ [CHR 0x27] @ '' [real_ip='' @ c_real_ip target @ '']'') s3))"

definition valid_display_host :: "string \<Rightarrow> bool" where
  "valid_display_host host \<longleftrightarrow>
     host \<noteq> [] \<and> length host \<le> IRC_HOST_MAX \<and> list_all (\<lambda>x. isalnum x \<or> x \<in> set ''.-_:'') host"

definition valid_ident :: "string \<Rightarrow> bool" where
  "valid_ident ident \<longleftrightarrow>
     ident \<noteq> [] \<and> length ident \<le> IRC_USER_MAX \<and> list_all (\<lambda>x. isalnum x \<or> x \<in> set ''-_.'') ident"

text \<open>The common course of SETHOST and SETIDENT: \<open>valid\<close> is the check of the value, \<open>put\<close> the assignment, \<open>get\<close> the old value.\<close>

definition set_identity ::
  "string \<Rightarrow> string \<Rightarrow> (string \<Rightarrow> bool) \<Rightarrow> (client \<Rightarrow> string) \<Rightarrow> (string \<Rightarrow> client \<Rightarrow> client) \<Rightarrow>
   cref \<Rightarrow> string option \<Rightarrow> server \<Rightarrow> command_result \<times> server" where
  "set_identity command told valid get put c params = permitted OPER_PERMISSION_OVERRIDE c (\<lambda>s.
     case Option.bind params (strtok '' '') of
       None \<Rightarrow> ERR_NEEDMOREPARAMS c command s
     | Some (nick, rest) \<Rightarrow>
         (case fst (tok1 rest) of
            None \<Rightarrow> ERR_NEEDMOREPARAMS c command s
          | Some x \<Rightarrow>
              if \<not> valid x then ERR_NEEDMOREPARAMS c command s
              else case hash_get (sv_clients_by_nick s) nick of
                     None \<Rightarrow> no_such_nick c nick s
                   | Some d \<Rightarrow>
                       let target = sv_client s d;
                           s1 = upd_client d (put x) s;
                           s2 = server_notice_to c (command @ '' '' @ c_nick target @ '' -> '' @ x) s1;
                           s3 = server_notice_to d (told @ x) s2
                       in (COMMAND_KEEP_CLIENT,
                           snotice_broadcast SNOTICE_IDENTITY
                             (command @ '' by '' @ c_nick (sv_client s c) @ '': '' @ c_nick target @ '' '' @ get target @ '' -> '' @ x @
                              '' [real_ip='' @ c_real_ip target @ '']'') s3)))"

definition command_sethost :: "cref \<Rightarrow> string option \<Rightarrow> server \<Rightarrow> command_result \<times> server" where
  "command_sethost = set_identity ''SETHOST'' ''Your displayed hostname is now '' valid_display_host c_display_host
     (\<lambda>x cl. cl\<lparr>c_display_host := x, c_account_vhost_active := False,
                c_modes := client_mode_add (c_modes cl) CLIENT_MODE_VHOST\<rparr>)"

definition command_setident :: "cref \<Rightarrow> string option \<Rightarrow> server \<Rightarrow> command_result \<times> server" where
  "command_setident = set_identity ''SETIDENT'' ''Your ident is now '' valid_ident c_user (\<lambda>x cl. cl\<lparr>c_user := x\<rparr>)"

subsection \<open>SAJOIN and SAPART\<close>

definition sajoin_enter :: "chref \<Rightarrow> cref \<Rightarrow> bool \<Rightarrow> server \<Rightarrow> server" where
  "sajoin_enter h d first s =
     (if channel_mode_has (ch_modes (sv_channel s h)) CHANNEL_MODE_REGISTERED
      then let privileges = chanserv_client_privileges s (sv_client s d) (ch_name (sv_channel s h))
           in if privileges \<noteq> 0 then upd_channel h (\<lambda>ch. snd (channel_set_service_privileges ch d privileges)) s else s
      else if first
      then upd_channel h (\<lambda>ch. snd (channel_add_privileges ch d (CHANNEL_PRIV_OWNER OR CHANNEL_PRIV_OPERATOR))) s
      else s)"

definition sajoin_announce :: "cref \<Rightarrow> chref \<Rightarrow> cref \<Rightarrow> server \<Rightarrow> server" where
  "sajoin_announce c h d s =
     (let ch = sv_channel s h; target = sv_client s d;
          s1 = ircv3_away_notify_join h d (ircv3_broadcast_join h d s);
          s2 = snotice_broadcast SNOTICE_MODERATION
                 (''SAJOIN by '' @ c_nick (sv_client s c) @ '': '' @ c_nick target @ '' -> '' @ ch_name ch @
                  '' [real_ip='' @ c_real_ip target @ '']'') s1;
          s3 = (if ch_topic ch \<noteq> [] then snd (reply d ''332'' (ch_name ch @ '' :'' @ ch_topic ch) s2) else s2)
      in command_send_names h d s3)"

definition sajoin_one :: "cref \<Rightarrow> cref \<Rightarrow> string \<Rightarrow> server \<Rightarrow> server" where
  "sajoin_one c d name s =
     (if \<not> channel_name_valid name \<or> c_channel_count (sv_client s d) \<ge> IRC_MAX_CHANNELS_PER_CLIENT then s
      else case server_get_or_create_channel name s of
             (None, s1) \<Rightarrow> s1
           | (Some h, s1) \<Rightarrow>
               if channel_has_client (sv_channel s1 h) d then s1
               else let first = (ch_member_count (sv_channel s1 h) = 0);
                        (rc, s2) = add_member h d s1
                    in if rc \<noteq> 0 then s2 else sajoin_announce c h d (sajoin_enter h d first s2))"

definition sapart_one :: "cref \<Rightarrow> cref \<Rightarrow> string \<Rightarrow> server \<Rightarrow> server" where
  "sapart_one c d name s =
     (case hash_get (sv_channels_by_name s) name of
        None \<Rightarrow> s
      | Some h \<Rightarrow>
          if \<not> channel_has_client (sv_channel s h) d then s
          else let target = sv_client s d; cname = ch_name (sv_channel s h);
                   reason = take 63 (''Forced part by '' @ c_nick (sv_client s c));
                   message = take (IRCD_MESSAGE_BUFFER_SIZE - 1)
                     ('':'' @ client_identity target @ '' PART '' @ cname @ '' :'' @ reason @ [CR, LF]);
                   s1 = channel_broadcast h None message s;
                   s2 = snotice_broadcast SNOTICE_MODERATION
                          (''SAPART by '' @ c_nick (sv_client s c) @ '': '' @ c_nick target @ '' <- '' @ cname @
                           '' [real_ip='' @ c_real_ip target @ '']'') s1
               in server_remove_channel_if_empty h (remove_member h d s2))"

definition forced_channels ::
  "string \<Rightarrow> (cref \<Rightarrow> cref \<Rightarrow> string \<Rightarrow> server \<Rightarrow> server) \<Rightarrow> cref \<Rightarrow> string option \<Rightarrow> server \<Rightarrow> command_result \<times> server" where
  "forced_channels command one c params = permitted OPER_PERMISSION_OVERRIDE c (\<lambda>s.
     case nick_and_rest params of
       None \<Rightarrow> ERR_NEEDMOREPARAMS c command s
     | Some (nick, channels) \<Rightarrow>
         (case hash_get (sv_clients_by_nick s) nick of
            None \<Rightarrow> no_such_nick c nick s
          | Some d \<Rightarrow>
              (COMMAND_KEEP_CLIENT,
               server_notice_to c (command @ '' completed for '' @ c_nick (sv_client s d)) (fold (one c d) (tokens '', '' channels) s))))"

definition command_sajoin :: "cref \<Rightarrow> string option \<Rightarrow> server \<Rightarrow> command_result \<times> server" where
  "command_sajoin = forced_channels ''SAJOIN'' sajoin_one"

definition command_sapart :: "cref \<Rightarrow> string option \<Rightarrow> server \<Rightarrow> command_result \<times> server" where
  "command_sapart = forced_channels ''SAPART'' sapart_one"

subsection \<open>DEAF and MUTE\<close>

definition control_spec :: "string \<Rightarrow> bool \<times> string" where
  "control_spec spec = (if starts_with ''+'' spec then (True, drop 1 spec) else if starts_with ''-'' spec then (False, drop 1 spec)
     else (True, spec))"

definition set_control_mode :: "string \<Rightarrow> char \<Rightarrow> u64 \<Rightarrow> cref \<Rightarrow> string option \<Rightarrow> server \<Rightarrow> command_result \<times> server" where
  "set_control_mode command letter b c params = operators_only c (\<lambda>s.
     case Option.bind params (strtok [CHR '' '', CHR 0x09]) of
       None \<Rightarrow> ERR_NEEDMOREPARAMS c command s
     | Some (spec, rest) \<Rightarrow>
         let (adding, target_name) = control_spec spec
         in if strtok [CHR '' '', CHR 0x09] rest \<noteq> None \<or> target_name = [] then ERR_NEEDMOREPARAMS c command s
            else case hash_get (sv_clients_by_nick s) target_name of
                   None \<Rightarrow> no_such_nick c target_name s
                 | Some d \<Rightarrow>
                     let sg = (if adding then CHR ''+'' else CHR ''-'');
                         s1 = upd_client d (\<lambda>cl. cl\<lparr>c_modes := (if adding then client_mode_add (c_modes cl) b
                                                                else client_mode_remove (c_modes cl) b)\<rparr>) s;
                         line = take (IRCD_MESSAGE_BUFFER_SIZE - 1)
                           ('':'' @ client_identity (sv_client s c) @ '' MODE '' @ c_nick (sv_client s d) @ '' '' @ [sg, letter]);
                         s2 = sendf d line s1;
                         s3 = (if d \<noteq> c then sendf c line s2 else s2)
                     in (COMMAND_KEEP_CLIENT,
                         snotice_broadcast SNOTICE_MODERATION
                           (command @ '' by '' @ c_nick (sv_client s c) @ '': '' @ [sg] @ c_nick (sv_client s d) @ '' ('' @ [sg, letter] @
                            '') [real_ip='' @ c_real_ip (sv_client s d) @ '']'') s3))"

definition command_deaf :: "cref \<Rightarrow> string option \<Rightarrow> server \<Rightarrow> command_result \<times> server" where
  "command_deaf = set_control_mode ''DEAF'' CHR ''D'' CLIENT_MODE_PRIVATE_DEAF"

definition command_mute :: "cref \<Rightarrow> string option \<Rightarrow> server \<Rightarrow> command_result \<times> server" where
  "command_mute = set_control_mode ''MUTE'' CHR ''M'' CLIENT_MODE_CHANNEL_MUTE"

subsection \<open>FLASH\<close>

definition flash_text_fits :: "server \<Rightarrow> string \<Rightarrow> bool" where
  "flash_text_fits s x \<longleftrightarrow> length (numeric s ''343'' (replicate IRC_NICK_MAX CHR ''n'') ('':'' @ x)) \<le> IRC_LINE_CONTENT_MAX"

definition send_flash :: "string \<Rightarrow> cref \<Rightarrow> server \<Rightarrow> server" where
  "send_flash x d s = (if \<not> c_registered (sv_client s d) then s else snd (reply d ''343'' ('':'' @ x) s))"

definition flash_target :: "cref \<Rightarrow> string \<Rightarrow> string \<Rightarrow> server \<Rightarrow> server" where
  "flash_target c x target s =
     (if starts_with ''#&'' target
      then case hash_get (sv_channels_by_name s) target of
             None \<Rightarrow> snd (reply c ''403'' (target @ '' :No such channel'') s)
           | Some h \<Rightarrow> fold (send_flash x) (map m_client (ch_members (sv_channel s h))) s
      else case hash_get (sv_clients_by_nick s) target of
             None \<Rightarrow> snd (no_such_nick c target s)
           | Some d \<Rightarrow> if \<not> c_registered (sv_client s d) then snd (no_such_nick c target s) else send_flash x d s)"

definition command_flash :: "cref \<Rightarrow> string option \<Rightarrow> server \<Rightarrow> command_result \<times> server" where
  "command_flash c params = operators_only c (\<lambda>s.
     case nick_and_rest params of
       None \<Rightarrow> ERR_NEEDMOREPARAMS c ''FLASH'' s
     | Some (targets, rest) \<Rightarrow>
         let x = drop_colon rest
         in if x = [] then ERR_NEEDMOREPARAMS c ''FLASH'' s
            else if \<not> flash_text_fits s x then reply c ''417'' ''FLASH :Message would exceed the IRC line limit'' s
            else (COMMAND_KEEP_CLIENT,
                  if targets = ''*'' then fold (send_flash x) (sv_clients s) s
                  else fold (flash_target c x) (tokens '','' targets) s))"

subsection \<open>The handlers respect the server\<close>

lemma permitted_keeps:
  assumes "\<And>s. keeps c s (snd (body s))"
  shows "keeps c s (snd (permitted permission c body s))"
  unfolding permitted_def by (rule registered_only_keeps) (simp add: assms keeps_io [OF keeps_refl] no_privileges_io)

lemma operators_only_keeps:
  assumes "\<And>s. keeps c s (snd (body s))"
  shows "keeps c s (snd (operators_only c body s))"
  unfolding operators_only_def by (rule registered_only_keeps) (simp add: assms keeps_io [OF keeps_refl] no_privileges_io)

lemma oper_replies_io [simp, intro!]:
  "io_only s (snd (no_such_nick c nick s))" "io_only s (server_notice_to c x s)" "io_only s (send_kill_notification d x s)"
  "io_only s (send_flash x d s)"
  by (simp_all add: no_such_nick_def server_notice_to_def send_kill_notification_def send_flash_def Let_def)

lemma oper_replies_keeps [keeps_intros]:
  assumes "keeps c s t"
  shows "keeps c s (snd (no_such_nick d nick t))" and "keeps c s (server_notice_to d x t)" and "keeps c s (send_kill_notification d x t)"
    and "keeps c s (send_flash x d t)"
  by (rule keeps_io [OF assms]; simp)+

lemma kill_client_keeps:
  assumes "hash_get (sv_clients_by_nick s) nick = Some d"
  shows "keeps c s (snd (kill_client c d reason s))"
proof -
  have io: "io_only s (send_kill_notification d reason (snotice_broadcast SNOTICE_KILLS x s))" for x
    by (rule io_only_trans [OF snotice_broadcast_io oper_replies_io(3)])
  have kept: "keeps c s (send_kill_notification d reason (snotice_broadcast SNOTICE_KILLS x s))" for x
    by (rule keeps_io [OF keeps_refl io])
  have "keeps c s (server_disconnect d r (send_kill_notification d reason (snotice_broadcast SNOTICE_KILLS x s)))" if "d \<noteq> c" for x r
    by (rule keeps_disconnect [OF kept that]) (use wf_nick_lookup assms io_fields [OF io [of x]] in metis)
  moreover have "keeps c s (upd_client c (\<lambda>cl. cl\<lparr>c_quit_reason := r\<rparr>) (send_kill_notification d reason (snotice_broadcast SNOTICE_KILLS x s)))" for x r
    by (rule keeps_upd_client [OF kept]) (simp add: plain_update_def)
  ultimately show ?thesis by (cases "d = c") (simp_all add: kill_client_def Let_def)
qed

lemma command_kill_keeps: "keeps c s (snd (command_kill c params s))"
  unfolding command_kill_def
  by (rule permitted_keeps)
     (simp add: Let_def replies_keeps kill_client_keeps keeps_io [OF keeps_refl] split: option.split prod.split)

lemma command_wallops_io: "io_only s (snd (command_wallops c params s))"
proof -
  have "io_only s (fold (\<lambda>d s. if c_registered (sv_client s d) \<and> client_mode_has (c_modes (sv_client s d)) CLIENT_MODE_WALLOPS
      then sendf d line s else s) ds s)" for line ds s
    by (rule io_only_fold) simp
  then show ?thesis
    unfolding command_wallops_def permitted_def
    by (intro registered_only_io) (simp add: no_privileges_io Let_def split: option.split)
qed

lemma send_oper_message_io: "io_only s (snd (send_oper_message command c params s))"
  unfolding send_oper_message_def
  by (rule registered_only_io) (simp add: no_privileges_io Let_def split: option.split)

lemma snotice_loop_keeps: "keeps c s (snotice_loop c adding ls s)"
proof (induction c adding ls s rule: snotice_loop.induct)
  case (2 c adding l ls s)
  have put: "keeps c s (upd_client c (\<lambda>cl. cl\<lparr>c_snotice_mask := f cl\<rparr>) s)" for f
    by (rule keeps_upd_client [OF keeps_refl]) (simp add: plain_update_def)
  let ?b = "if l = CHR ''*'' then SNOTICE_ALL else snotice_mask_for_letter l"
  let ?s1 = "server_notice_to c (''Unknown SNOTICE mask letter: '' @ [l]) s"
  let ?s2 = "upd_client c (\<lambda>cl. cl\<lparr>c_snotice_mask := (if adding then c_snotice_mask cl OR ?b else c_snotice_mask cl AND NOT ?b)\<rparr>) s"
  consider "l = CHR '' ''" | "l = CHR ''+'' \<or> l = CHR ''-''"
    | "l \<notin> set '' +-''" "?b = 0" | "l \<notin> set '' +-''" "?b \<noteq> 0" by auto
  then show ?case
  proof cases
    case 3
    moreover have "keeps c s (snotice_loop c adding ls ?s1)"
      by (rule keeps_trans [OF oper_replies_keeps(2) [OF keeps_refl] 2(2)]) (use 3 in auto)
    ultimately show ?thesis by (simp add: Let_def)
  next
    case 4
    moreover have "keeps c s (snotice_loop c adding ls ?s2)"
      by (rule keeps_trans [OF put 2(3)]) (use 4 in auto)
    ultimately show ?thesis by (simp add: Let_def split del: if_split)
  qed (use 2(1) in auto)
qed simp

lemma command_snotice_keeps: "keeps c s (snd (command_snotice c params s))"
proof -
  have "keeps c s (upd_client c snotice_mode (snotice_loop c True p s))" for p s
    by (rule keeps_upd_client [OF snotice_loop_keeps]) (simp add: plain_update_def snotice_mode_def)
  then show ?thesis
    unfolding command_snotice_def
    by (intro operators_only_keeps) (simp add: Let_def oper_replies_keeps split: option.split)
qed

lemma command_setname_keeps: "keeps c s (snd (command_setname c params s))"
proof -
  have "keeps c s (upd_client d (\<lambda>cl. cl\<lparr>c_realname := x\<rparr>) s)" for d x s
    by (rule keeps_upd_client [OF keeps_refl]) (simp add: plain_update_def)
  then show ?thesis
    unfolding command_setname_def
    by (intro permitted_keeps) (simp add: Let_def oper_replies_keeps replies_keeps keeps_sends split: option.split prod.split)
qed

lemma set_identity_keeps:
  assumes "\<And>x. plain_update (put x)"
  shows "keeps c s (snd (set_identity command told valid get put c params s))"
  unfolding set_identity_def
  by (rule permitted_keeps)
     (simp add: Let_def oper_replies_keeps replies_keeps keeps_sends keeps_upd_client assms split: option.split prod.split)

lemma command_sethost_keeps: "keeps c s (snd (command_sethost c params s))"
  unfolding command_sethost_def by (rule set_identity_keeps) (simp add: plain_update_def)

lemma command_setident_keeps: "keeps c s (snd (command_setident c params s))"
  unfolding command_setident_def by (rule set_identity_keeps) (simp add: plain_update_def)

lemma sajoin_enter_keeps: "keeps c s t \<Longrightarrow> keeps c s (sajoin_enter h d first t)"
  by (simp add: sajoin_enter_def Let_def keeps_same_members privilege_members)

lemma sajoin_announce_io: "io_only s (sajoin_announce c h d s)"
proof -
  have "io_only s (ircv3_away_notify_join h d (ircv3_broadcast_join h d s))"
    by (rule io_only_trans [OF broadcast_join_io away_notify_join_io])
  then have "io_only s (snotice_broadcast SNOTICE_MODERATION x (ircv3_away_notify_join h d (ircv3_broadcast_join h d s)))" for x
    by (rule io_only_trans [OF _ snotice_broadcast_io])
  then have "io_only s (if b then snd (reply d n y (snotice_broadcast SNOTICE_MODERATION x (ircv3_away_notify_join h d (ircv3_broadcast_join h d s))))
      else snotice_broadcast SNOTICE_MODERATION x (ircv3_away_notify_join h d (ircv3_broadcast_join h d s)))" for b n x y
    by (cases b) (simp_all add: io_only_trans [OF _ reply_io(1)])
  then show ?thesis
    unfolding sajoin_announce_def Let_def by (rule io_only_trans [OF _ send_names_io])
qed

lemma sajoin_one_keeps:
  assumes "server_wf s \<Longrightarrow> d \<in> set (sv_clients s)"
  shows "keeps e s (sajoin_one c d name s)"
proof (cases "server_get_or_create_channel name s")
  case (Pair r s1)
  have made: "keeps e s s1"
    using get_or_create_wf [OF _ Pair] Pair
    by (auto simp: keeps_def server_get_or_create_channel_def Let_def case_prod_beta split: option.splits if_splits)
  show ?thesis
  proof (cases r)
    case (Some h)
    have "keeps e s (snd (add_member h d s1))"
    proof -
      have "server_wf (snd (add_member h d s1)) \<and> sv_clients (snd (add_member h d s1)) = sv_clients s" if wf: "server_wf s"
        using add_member_wf [of s1 d h] get_or_create_wf [OF wf Pair] get_or_create_live [OF wf, of name h s1] Pair Some assms [OF wf]
        by (simp add: add_member_def case_prod_beta Let_def)
      then show ?thesis by (simp add: keeps_def)
    qed
    then have "keeps e s (sajoin_announce c h d (sajoin_enter h d first (snd (add_member h d s1))))" for first
      by (rule keeps_io [OF sajoin_enter_keeps sajoin_announce_io])
    with made \<open>keeps e s (snd (add_member h d s1))\<close> show ?thesis
      by (simp add: sajoin_one_def Pair Some Let_def case_prod_beta)
  qed (use made Pair in \<open>simp add: sajoin_one_def\<close>)
qed

lemma sapart_one_keeps:
  assumes "server_wf s \<Longrightarrow> d \<in> set (sv_clients s)"
  shows "keeps e s (sapart_one c d name s)"
proof (cases "hash_get (sv_channels_by_name s) name")
  case (Some h)
  have io: "io_only s (snotice_broadcast k x (channel_broadcast h None m s))" for k x m
    by (rule io_only_trans [OF channel_broadcast_io snotice_broadcast_io])
  have "keeps e s (server_remove_channel_if_empty h (remove_member h d (snotice_broadcast k x (channel_broadcast h None m s))))" for k x m
  proof (rule keeps_remove_if_empty)
    let ?t = "snotice_broadcast k x (channel_broadcast h None m s)"
    have t: "server_wf ?t" "h \<in> set (sv_live ?t)" "d \<in> set (sv_clients ?t)" "sv_clients ?t = sv_clients s" if "server_wf s"
      using that server_wf_io [OF io] io_fields [OF io] wf_channel_lookup [OF that Some] assms by simp_all
    then show "keeps e s (remove_member h d ?t)"
      using remove_member_wf [of ?t d h] by (simp add: keeps_def remove_member_frame)
    show "h \<in> set (sv_live (remove_member h d ?t))" if "server_wf s"
      using t [OF that] by (simp add: remove_member_frame)
  qed
  then show ?thesis by (simp add: sapart_one_def Some Let_def)
qed (simp add: sapart_one_def)

lemma forced_channels_keeps:
  assumes one: "\<And>e name s. (server_wf s \<Longrightarrow> d \<in> set (sv_clients s)) \<Longrightarrow> keeps e s (one c d name s)"
    and d: "server_wf s \<Longrightarrow> d \<in> set (sv_clients s)"
  shows "keeps c s (fold (one c d) names s)"
proof -
  have "server_wf (fold (one c d) names s) \<and> c \<in> set (sv_clients (fold (one c d) names s))"
    if "server_wf s" "c \<in> set (sv_clients s)" "d \<in> set (sv_clients s)"
    using that
  proof (induction names arbitrary: s)
    case (Cons n names)
    have "server_wf (one c d n s) \<and> e \<in> set (sv_clients (one c d n s))" if "e \<in> set (sv_clients s)" for e
      using one [of s e n] Cons.prems that by (simp add: keeps_def)
    then show ?case using Cons.IH Cons.prems by simp
  qed simp
  then show ?thesis using d by (simp add: keeps_def)
qed

lemma forced_keeps:
  assumes "\<And>d e name s. (server_wf s \<Longrightarrow> d \<in> set (sv_clients s)) \<Longrightarrow> keeps e s (one c d name s)"
  shows "keeps c s (snd (forced_channels command one c params s))"
  unfolding forced_channels_def
proof (rule permitted_keeps)
  fix s
  have "keeps c s (fold (one c d) names s)" if "hash_get (sv_clients_by_nick s) nick = Some d" for d nick names
    by (rule forced_channels_keeps [where one = one and c = c and d = d]) (rule assms, assumption, use wf_nick_lookup that in blast)
  then show "keeps c s (snd (case nick_and_rest params of
       None \<Rightarrow> ERR_NEEDMOREPARAMS c command s
     | Some (nick, channels) \<Rightarrow>
         (case hash_get (sv_clients_by_nick s) nick of
            None \<Rightarrow> no_such_nick c nick s
          | Some d \<Rightarrow>
              (COMMAND_KEEP_CLIENT,
               server_notice_to c (command @ '' completed for '' @ c_nick (sv_client s d)) (fold (one c d) (tokens '', '' channels) s)))))"
    by (simp add: replies_keeps oper_replies_keeps split: option.split prod.split)
qed

lemma command_sajoin_keeps: "keeps c s (snd (command_sajoin c params s))"
  unfolding command_sajoin_def by (rule forced_keeps) (rule sajoin_one_keeps)

lemma command_sapart_keeps: "keeps c s (snd (command_sapart c params s))"
  unfolding command_sapart_def by (rule forced_keeps) (rule sapart_one_keeps)

lemma set_control_mode_keeps: "keeps c s (snd (set_control_mode command letter b c params s))"
proof -
  have "keeps c s (upd_client d (\<lambda>cl. cl\<lparr>c_modes := f cl\<rparr>) s)" for d f s
    by (rule keeps_upd_client [OF keeps_refl]) (simp add: plain_update_def)
  then show ?thesis
    unfolding set_control_mode_def
    by (intro operators_only_keeps)
       (simp add: Let_def case_prod_beta oper_replies_keeps replies_keeps keeps_sends split: option.split)
qed

lemma flash_target_io: "io_only s (flash_target c x target s)"
proof -
  have "io_only s (fold (send_flash x) ds s)" for ds s by (rule io_only_fold) simp
  then show ?thesis by (simp add: flash_target_def split: option.split)
qed

lemma command_flash_io: "io_only s (snd (command_flash c params s))"
proof -
  have "io_only s (fold (send_flash x) ds s)" "io_only s (fold (flash_target c x) ts s)" for x ds ts s
    by (rule io_only_fold, simp add: flash_target_io)+
  then show ?thesis
    unfolding command_flash_def operators_only_def
    by (intro registered_only_io) (simp add: no_privileges_io Let_def split: option.split prod.split)
qed

end
