(* ===== verification/Ban_Commands.thy ===== *)
theory Ban_Commands
  imports Oper_Commands
begin

section \<open>Ban management (src/commands/kline.c, zline.c, geoban.c)\<close>

text \<open>
  KLINE, ZLINE, ELINE, GEOBAN and UNGEOBAN: they change the tables of theories \<open>Ban_Store\<close> and \<open>Geoban_Store\<close> and
  disconnect the clients that a ban now covers.  \<open>open_bans\<close> is \<open>ban_db_open\<close>: it fails when a table cannot be read or the
  path is unusable, and otherwise removes the expired rows when the last removal is old enough.  The loops over the clients
  are those of theory \<open>Client_Loop\<close>.
\<close>

subsection \<open>Opening the tables\<close>

definition open_bans :: "server \<Rightarrow> bool \<times> server" where
  "open_bans s =
     (let w = sv_world s; path = cf_bans_db (sv_config s)
      in case (ensure_parent_directory path, w_bans w, w_exceptions w) of
           (Some _, Some bans, Some exceptions) \<Rightarrow>
             (case purge_expired_due (sv_clock s) path (w_ban_purge w) (bans, exceptions) of
                (st, b, e) \<Rightarrow> (True, s\<lparr>sv_world := w\<lparr>w_bans := Some b, w_exceptions := Some e, w_ban_purge := st\<rparr>\<rparr>))
         | _ \<Rightarrow> (False, s))"

definition open_geobans :: "server \<Rightarrow> bool \<times> server" where
  "open_geobans s =
     (let w = sv_world s; path = cf_bans_db (sv_config s)
      in case (ensure_parent_directory path, w_geobans w) of
           (Some _, Some rows) \<Rightarrow>
             (case geoban_purge_expired_due (sv_clock s) path (w_geoban_purge w) rows of
                (st, g) \<Rightarrow> (True, s\<lparr>sv_world := w\<lparr>w_geobans := Some g, w_geoban_purge := st\<rparr>\<rparr>))
         | _ \<Rightarrow> (False, s))"

definition ban_rows :: "server \<Rightarrow> ban_row list" where
  "ban_rows s = (case w_bans (sv_world s) of None \<Rightarrow> [] | Some rows \<Rightarrow> rows)"

definition exception_rows :: "server \<Rightarrow> ban_row list" where
  "exception_rows s = (case w_exceptions (sv_world s) of None \<Rightarrow> [] | Some rows \<Rightarrow> rows)"

definition geoban_rows :: "server \<Rightarrow> geoban_row list" where
  "geoban_rows s = (case w_geobans (sv_world s) of None \<Rightarrow> [] | Some rows \<Rightarrow> rows)"

definition set_bans :: "ban_row list \<Rightarrow> server \<Rightarrow> server" where
  "set_bans rows s = s\<lparr>sv_world := (sv_world s)\<lparr>w_bans := Some rows\<rparr>\<rparr>"

definition set_exceptions :: "ban_row list \<Rightarrow> server \<Rightarrow> server" where
  "set_exceptions rows s = s\<lparr>sv_world := (sv_world s)\<lparr>w_exceptions := Some rows\<rparr>\<rparr>"

definition set_geobans :: "geoban_row list \<Rightarrow> server \<Rightarrow> server" where
  "set_geobans rows s = s\<lparr>sv_world := (sv_world s)\<lparr>w_geobans := Some rows\<rparr>\<rparr>"

definition setter :: "client \<Rightarrow> string" where
  "setter cl = (if c_oper_name cl \<noteq> [] then c_oper_name cl else c_nick cl)"

subsection \<open>Enforcing a ban on the connected clients\<close>

definition banned_creep :: "cref \<Rightarrow> string \<Rightarrow> server \<Rightarrow> server" where
  "banned_creep d reason s =
     server_disconnect d reason
       (sendf d (numeric s ''465'' (command_reply_nick (sv_client s d))
          ('':You are banned from this server.  Mail '' @ cf_admin_email (sv_config s) @ '' for more information'')) s)"

text \<open>
  What \<open>kline_disconnect_row\<close> and \<open>zline_disconnect_row\<close> compare: the first identity, the second one of the ban (\<open>None\<close> for the
  null pointer) and the second one of the exception.
\<close>

record line_kind =
  lk_name :: string
  lk_type :: int
  lk_exception :: int
  lk_first :: "client \<Rightarrow> string"
  lk_second :: "client \<Rightarrow> string option"
  lk_excepted :: "client \<Rightarrow> string"

definition kline_kind :: line_kind where
  "kline_kind = \<lparr>lk_name = ''KLINE'', lk_type = BAN_TYPE_KLINE, lk_exception = BAN_EXCEPTION_KLINE, lk_first = host_identity,
     lk_second = (\<lambda>cl. Some (ip_identity cl)), lk_excepted = ip_identity\<rparr>"

definition zline_kind :: line_kind where
  "zline_kind = \<lparr>lk_name = ''ZLINE'', lk_type = BAN_TYPE_ZLINE, lk_exception = BAN_EXCEPTION_ZLINE, lk_first = c_real_ip,
     lk_second = (\<lambda>_. None),
     lk_excepted = (\<lambda>cl. take (IRC_USER_MAX + 1 + IRC_IP_MAX) ((if c_user cl \<noteq> [] then c_user cl else ''*'') @ ''@'' @ c_real_ip cl))\<rparr>"

definition line_hits :: "line_kind \<Rightarrow> ban_row \<Rightarrow> server \<Rightarrow> cref \<Rightarrow> bool" where
  "line_hits k record s d = ban_record_matches (sv_world s) record (Some (lk_first k (sv_client s d))) (lk_second k (sv_client s d))"

definition line_exception :: "line_kind \<Rightarrow> server \<Rightarrow> cref \<Rightarrow> ban_row option" where
  "line_exception k s d =
     (case ban_exception_db_match (sv_world s) (sv_clock s) (lk_exception k) (Some (lk_first k (sv_client s d)))
             (Some (lk_excepted k (sv_client s d))) (exception_rows s) of
        Some (Some x) \<Rightarrow> Some x | _ \<Rightarrow> None)"

definition line_target :: "client \<Rightarrow> string" where
  "line_target t = command_reply_nick t @ '' ('' @ c_user t @ ''@'' @ c_display_host t @ '') [real_ip='' @ c_real_ip t @ '']''"

definition line_act :: "line_kind \<Rightarrow> cref \<Rightarrow> string \<Rightarrow> string \<Rightarrow> ban_row \<Rightarrow> cref \<Rightarrow> server \<Rightarrow> bool \<times> server" where
  "line_act k c reason added_mask record d s =
     (if d \<noteq> c \<and> line_hits k record s d
      then case line_exception k s d of
             Some x \<Rightarrow>
               (False, snotice_broadcast SNOTICE_BANS
                  (lk_name k @ '' matched but ELINE exempted '' @ line_target (sv_client s d) @ '' ban='' @ added_mask @
                   '' exception='' @ bn_mask x) s)
           | None \<Rightarrow>
               (True, banned_creep d (if reason \<noteq> [] then reason else bn_reason record)
                  (snotice_broadcast SNOTICE_BANS
                     (lk_name k @ '' matched '' @ line_target (sv_client s d) @ '' by '' @ added_mask) s))
      else (False, s))"

definition line_disconnect_row :: "line_kind \<Rightarrow> cref \<Rightarrow> string \<Rightarrow> string \<Rightarrow> ban_row \<Rightarrow> server \<Rightarrow> server" where
  "line_disconnect_row k c reason added_mask record s =
     sweep (line_act k c reason added_mask record) (length (sv_clients s)) 0 s"

definition enforce_lines :: "line_kind \<Rightarrow> cref \<Rightarrow> string \<Rightarrow> string \<Rightarrow> server \<Rightarrow> server" where
  "enforce_lines k c reason added_mask s =
     snd (ban_db_list (sv_clock s) (lk_type k) (\<lambda>record s. (False, line_disconnect_row k c reason added_mask record s)) (ban_rows s) s)"

subsection \<open>KLINE and ZLINE\<close>

definition remove_line :: "line_kind \<Rightarrow> cref \<Rightarrow> string \<Rightarrow> server \<Rightarrow> command_result \<times> server" where
  "remove_line k c m s =
     (let failed = (\<lambda>s. (COMMAND_KEEP_CLIENT, server_notice_to c (lk_name k @ '' removal failed'') s))
      in if m = [] then failed s
         else case open_bans s of
                (False, s1) \<Rightarrow> failed s1
              | (True, s1) \<Rightarrow>
                  (case ban_db_delete (lk_type k) m (ban_rows s1) of
                     None \<Rightarrow> failed s1
                   | Some rows \<Rightarrow>
                       (COMMAND_KEEP_CLIENT,
                        snotice_broadcast SNOTICE_BANS (c_nick (sv_client s c) @ '' removed '' @ lk_name k @ '' '' @ m)
                          (server_notice_to c (lk_name k @ '' removed: '' @ m) (set_bans rows s1)))))"

text \<open>\<open>timed\<close> is the default duration of the shorthand form, \<open>None\<close> for an explicit mask.\<close>

definition add_line :: "line_kind \<Rightarrow> cref \<Rightarrow> string \<Rightarrow> string \<Rightarrow> u32 option \<Rightarrow> server \<Rightarrow> command_result \<times> server" where
  "add_line k c m reason timed s =
     (let cl = sv_client s c;
          failed = (\<lambda>s. (COMMAND_KEEP_CLIENT, server_notice_to c (lk_name k @ '' failed'') s))
      in case open_bans s of
           (False, s1) \<Rightarrow> failed s1
         | (True, s1) \<Rightarrow>
             (case (case timed of
                      Some d \<Rightarrow> ban_db_add_timed (sv_clock s1) (lk_type k) m (Some reason) (Some (setter cl)) (unat d) (ban_rows s1)
                    | None \<Rightarrow> ban_db_add (sv_clock s1) (lk_type k) m (Some reason) (Some (setter cl)) (ban_rows s1)) of
                None \<Rightarrow> failed s1
              | Some rows \<Rightarrow>
                  (let s2 = enforce_lines k c reason m (set_bans rows s1)
                   in (COMMAND_KEEP_CLIENT,
                       case timed of
                         Some d \<Rightarrow>
                           snotice_broadcast SNOTICE_BANS
                             (c_nick cl @ '' added temporary '' @ lk_name k @ '' '' @ m @ '' for '' @ dec (unat d) @ ''s ('' @ reason @ '')'')
                             (server_notice_to c (lk_name k @ '' added: '' @ m @ '' ('' @ dec (unat d) @ ''s, '' @ reason @ '')'') s2)
                       | None \<Rightarrow>
                           snotice_broadcast SNOTICE_BANS (c_nick cl @ '' added '' @ lk_name k @ '' '' @ m @ '' ('' @ reason @ '')'')
                             (server_notice_to c (lk_name k @ '' added: '' @ m) s2)))))"

definition explicit_reason :: "string \<Rightarrow> string \<Rightarrow> string" where
  "explicit_reason standard rest = (if drop_colon rest = [] then standard else drop_colon rest)"

definition kline_body :: "cref \<Rightarrow> string \<Rightarrow> string \<Rightarrow> server \<Rightarrow> command_result \<times> server" where
  "kline_body c m rest s =
     (let permissions = c_oper_permissions (sv_client s c)
      in if starts_with ''-'' m
         then if \<not> oper_permission_has permissions OPER_PERMISSION_UNKLINE then (COMMAND_KEEP_CLIENT, no_privileges c s)
              else remove_line kline_kind c (drop 1 m) s
         else if \<not> oper_permission_has permissions OPER_PERMISSION_KLINE then (COMMAND_KEEP_CLIENT, no_privileges c s)
         else if CHR ''@'' \<notin> set m
         then case hash_get (sv_clients_by_nick s) m of
                None \<Rightarrow> no_such_nick c m s
              | Some d \<Rightarrow>
                  (let t = sv_client s d; resolved = ''*@'' @ (if c_real_host t \<noteq> [] then c_real_host t else c_real_ip t)
                   in if length resolved > IRC_CHANNEL_MASK_MAX
                      then (COMMAND_KEEP_CLIENT, server_notice_to c ''KLINE failed: resolved host is too long for a ban mask'' s)
                      else add_line kline_kind c resolved (cf_kline_default_reason (sv_config s))
                             (Some (cf_kline_default_duration_seconds (sv_config s))) s)
         else add_line kline_kind c m (explicit_reason ''K-lined'' rest) None s)"

definition command_kline :: "cref \<Rightarrow> string option \<Rightarrow> server \<Rightarrow> command_result \<times> server" where
  "command_kline c params = registered_only c (\<lambda>s.
     case Option.bind params (strtok '' '') of
       None \<Rightarrow> ERR_NEEDMOREPARAMS c ''KLINE'' s
     | Some (m, rest) \<Rightarrow> kline_body c m rest s)"

definition valid_cidr_mask :: "world \<Rightarrow> string \<Rightarrow> bool" where
  "valid_cidr_mask w m =
     (let address = takeWhile (\<lambda>x. x \<noteq> CHR ''/'') m; after = drop (Suc (length address)) m;
          (prefix, overflow, tail) = strtoul after;
          within = (\<lambda>max_prefix. \<not> overflow \<and> tail \<noteq> after \<and> tail = [] \<and> prefix \<le> max_prefix)
      in if CHR ''/'' \<notin> set m \<or> address = [] \<or> CHR ''/'' \<in> set after \<or> length address \<ge> IRC_IP_MAX + 1 then False
         else if w_pton4 w address \<noteq> None then within 32
         else if w_pton6 w address \<noteq> None then within 128
         else False)"

definition zline_body :: "cref \<Rightarrow> string \<Rightarrow> string \<Rightarrow> server \<Rightarrow> command_result \<times> server" where
  "zline_body c m rest s =
     (if starts_with ''-'' m then remove_line zline_kind c (drop 1 m) s
      else if set m \<inter> set ''.:*?'' = {}
      then case hash_get (sv_clients_by_nick s) m of
             None \<Rightarrow> no_such_nick c m s
           | Some d \<Rightarrow>
               add_line zline_kind c (take IRC_IP_MAX (c_real_ip (sv_client s d))) (cf_zline_default_reason (sv_config s))
                 (Some (cf_zline_default_duration_seconds (sv_config s))) s
      else if length m > IRC_CHANNEL_MASK_MAX \<or> CHR ''/'' \<in> set m \<and> \<not> valid_cidr_mask (sv_world s) m
      then (COMMAND_KEEP_CLIENT, server_notice_to c (''Invalid ZLINE mask: '' @ m) s)
      else add_line zline_kind c m (explicit_reason ''Z-lined'' rest) None s)"

definition command_zline :: "cref \<Rightarrow> string option \<Rightarrow> server \<Rightarrow> command_result \<times> server" where
  "command_zline c params = permitted OPER_PERMISSION_ZLINE c (\<lambda>s.
     case Option.bind params (strtok '' '') of
       None \<Rightarrow> ERR_NEEDMOREPARAMS c ''ZLINE'' s
     | Some (m, rest) \<Rightarrow> zline_body c m rest s)"

subsection \<open>ELINE\<close>

definition eline_types :: "(char \<times> int) list" where
  "eline_types = [(CHR ''k'', BAN_EXCEPTION_KLINE), (CHR ''z'', BAN_EXCEPTION_ZLINE), (CHR ''m'', BAN_EXCEPTION_CONNECTION_LIMIT),
     (CHR ''B'', BAN_EXCEPTION_DNSBL), (CHR ''G'', BAN_EXCEPTION_GEOBAN)]"

definition eline_type_letter :: "int \<Rightarrow> char" where
  "eline_type_letter type = (case find (\<lambda>(_, t). t = type) eline_types of Some (l, _) \<Rightarrow> l | None \<Rightarrow> CHR ''?'')"

definition eline_type_from_letter :: "char \<Rightarrow> int" where
  "eline_type_from_letter letter = (case map_of eline_types letter of Some t \<Rightarrow> t | None \<Rightarrow> 0)"

definition parse_eline_type_filter :: "string \<Rightarrow> int option" where
  "parse_eline_type_filter x =
     (if length x \<noteq> 1 \<or> eline_type_from_letter (hd x) = 0 then None else Some (eline_type_from_letter (hd x)))"

definition eline_type_selected :: "int list \<Rightarrow> int \<Rightarrow> bool" where
  "eline_type_selected types type = list_ex (\<lambda>t. t = type) types"

fun eline_types_loop :: "nat \<Rightarrow> string \<Rightarrow> int list \<Rightarrow> int list option" where
  "eline_types_loop sz [] types = (if types = [] then None else Some types)"
| "eline_types_loop sz (p # ps) types =
     (let type = eline_type_from_letter p
      in if type = 0 then None
         else if eline_type_selected types type then eline_types_loop sz ps types
         else if length types \<ge> sz then None
         else eline_types_loop sz ps (types @ [type]))"

definition parse_eline_types :: "string \<Rightarrow> int list option" where
  "parse_eline_types x = (if x = [] then None else eline_types_loop 5 x [])"

definition eline_multiplier :: "char \<Rightarrow> nat option" where
  "eline_multiplier x = map_of [(CHR ''m'', 60), (CHR ''h'', 60 * 60), (CHR ''d'', 24 * 60 * 60), (CHR ''w'', 7 * 24 * 60 * 60)] x"

definition parse_eline_duration :: "string \<Rightarrow> u32 option" where
  "parse_eline_duration x =
     (if x = [] then None
      else if x = ''0'' then Some 0
      else let (number, overflow, rest) = strtoul x
           in if overflow \<or> rest = x \<or> number = 0 \<or> length rest \<noteq> 1 then None
              else (case eline_multiplier (hd rest) of
                      None \<Rightarrow> None
                    | Some multiplier \<Rightarrow>
                        if number > (2 ^ 32 - 1) div multiplier then None else Some (word_of_nat (number * multiplier))))"

definition valid_eline_mask :: "world \<Rightarrow> string \<Rightarrow> bool" where
  "valid_eline_mask w m =
     (let host = (if CHR ''@'' \<in> set m then drop (Suc (length (takeWhile (\<lambda>x. x \<noteq> CHR ''@'') m))) m else m)
      in if \<not> key_text_ok m then False
         else if CHR ''/'' \<in> set host \<and> \<not> valid_cidr_mask w host then False
         else True)"

definition eline_list_row :: "cref \<Rightarrow> ban_row \<Rightarrow> nat \<times> server \<Rightarrow> bool \<times> nat \<times> server" where
  "eline_list_row c record context = (case context of (n, s) \<Rightarrow>
     (False, n + 1,
      server_notice_to c (''ELINE '' @ [eline_type_letter (bn_type record)] @ '' '' @ bn_mask record @ '' set_by='' @ bn_set_by record @
        '' created='' @ dec_int (bn_created_at record) @ '' expires='' @
        (if bn_expires_at record = 0 then ''permanent'' else dec_int (bn_expires_at record)) @ '' :'' @ bn_reason record) s))"

definition eline_list :: "cref \<Rightarrow> string \<Rightarrow> server \<Rightarrow> command_result \<times> server" where
  "eline_list c rest s =
     (let failed = (\<lambda>s. (COMMAND_KEEP_CLIENT, server_notice_to c ''ELINE list failed'' s));
          finish = (\<lambda>r. case r of
             (False, n, s) \<Rightarrow> failed s
           | (True, n, s) \<Rightarrow>
               (COMMAND_KEEP_CLIENT, server_notice_to c (''End of ELINE list ('' @ dec n @ '' entries)'') s))
      in if \<not> client_mode_has (c_modes (sv_client s c)) (CLIENT_MODE_OPER OR CLIENT_MODE_NETADMIN)
         then (COMMAND_KEEP_CLIENT, no_privileges c s)
         else case open_bans s of
                (False, s1) \<Rightarrow> failed s1
              | (True, s1) \<Rightarrow>
                  (case strtok '' '' rest of
                     None \<Rightarrow> finish (ban_exception_db_list_all (sv_clock s1) (eline_list_row c) (exception_rows s1) (0, s1))
                   | Some (kind, more_words) \<Rightarrow>
                       (case parse_eline_type_filter kind of
                          Some type \<Rightarrow>
                            if strtok '' '' more_words \<noteq> None
                            then (COMMAND_KEEP_CLIENT, server_notice_to c ''Invalid ELINE type filter'' s1)
                            else finish (ban_exception_db_list (sv_clock s1) type (eline_list_row c) (exception_rows s1) (0, s1))
                        | None \<Rightarrow> (COMMAND_KEEP_CLIENT, server_notice_to c ''Invalid ELINE type filter'' s1))))"

definition eline_remove :: "cref \<Rightarrow> string \<Rightarrow> server \<Rightarrow> command_result \<times> server" where
  "eline_remove c m s =
     (let failed = (\<lambda>s. (COMMAND_KEEP_CLIENT, server_notice_to c ''ELINE removal failed'' s))
      in if m = [] then failed s
         else case open_bans s of
                (False, s1) \<Rightarrow> failed s1
              | (True, s1) \<Rightarrow>
                  (case ban_exception_db_delete_mask m (exception_rows s1) of
                     None \<Rightarrow> failed s1
                   | Some rows \<Rightarrow>
                       (COMMAND_KEEP_CLIENT,
                        snotice_broadcast SNOTICE_BANS (c_nick (sv_client s c) @ '' removed ELINE '' @ m)
                          (server_notice_to c (''ELINE removed: '' @ m) (set_exceptions rows s1)))))"

text \<open>The loop over the types: it stops at the first failure, and the rows added before it stay.\<close>

fun eline_add_loop :: "cref \<Rightarrow> string \<Rightarrow> string \<Rightarrow> u32 \<Rightarrow> int list \<Rightarrow> server \<Rightarrow> bool \<times> server" where
  "eline_add_loop c m reason duration [] s = (True, s)"
| "eline_add_loop c m reason duration (t # ts) s =
     (case (if duration = 0
            then ban_exception_db_add (sv_clock s) t m (Some reason) (Some (setter (sv_client s c))) (exception_rows s)
            else ban_exception_db_add_timed (sv_clock s) t m (Some reason) (Some (setter (sv_client s c))) (unat duration)
                   (exception_rows s)) of
        None \<Rightarrow> (False, s)
      | Some rows \<Rightarrow> eline_add_loop c m reason duration ts (set_exceptions rows s))"

definition eline_add :: "cref \<Rightarrow> string \<Rightarrow> string \<Rightarrow> server \<Rightarrow> command_result \<times> server" where
  "eline_add c m rest s =
     (let (types_text, rest1) = tok1 rest; (duration_text, rest2) = tok1 rest1;
          failed = (\<lambda>s. (COMMAND_KEEP_CLIENT, server_notice_to c ''ELINE failed'' s))
      in if \<not> oper_permission_has (c_oper_permissions (sv_client s c)) OPER_PERMISSION_ELINE then (COMMAND_KEEP_CLIENT, no_privileges c s)
         else case (types_text, duration_text) of
                (Some tt, Some dt) \<Rightarrow>
                  if drop_colon rest2 = [] then ERR_NEEDMOREPARAMS c ''ELINE'' s
                  else (case (parse_eline_types tt, parse_eline_duration dt) of
                          (Some types, Some duration) \<Rightarrow>
                            if \<not> valid_eline_mask (sv_world s) m
                            then (COMMAND_KEEP_CLIENT, server_notice_to c ''Invalid ELINE syntax'' s)
                            else (case open_bans s of
                                    (False, s1) \<Rightarrow> failed s1
                                  | (True, s1) \<Rightarrow>
                                      (case eline_add_loop c m (drop_colon rest2) duration types s1 of
                                         (False, s2) \<Rightarrow> failed s2
                                       | (True, s2) \<Rightarrow>
                                           (COMMAND_KEEP_CLIENT,
                                            snotice_broadcast SNOTICE_BANS
                                              (c_nick (sv_client s c) @ '' added ELINE '' @ m @ '' '' @ tt @ '' ('' @ drop_colon rest2 @ '')'')
                                              (server_notice_to c (''ELINE added: '' @ m @ '' '' @ tt) s2))))
                        | _ \<Rightarrow> (COMMAND_KEEP_CLIENT, server_notice_to c ''Invalid ELINE syntax'' s))
              | _ \<Rightarrow> ERR_NEEDMOREPARAMS c ''ELINE'' s)"

definition command_eline :: "cref \<Rightarrow> string option \<Rightarrow> server \<Rightarrow> command_result \<times> server" where
  "command_eline c params = registered_only c (\<lambda>s.
     case Option.bind params (strtok '' '') of
       None \<Rightarrow> ERR_NEEDMOREPARAMS c ''ELINE'' s
     | Some (m, rest) \<Rightarrow>
         if strcaseeq m ''LIST'' then eline_list c rest s
         else if starts_with ''-'' m
         then if \<not> oper_permission_has (c_oper_permissions (sv_client s c)) OPER_PERMISSION_ELINE then (COMMAND_KEEP_CLIENT, no_privileges c s)
              else eline_remove c (drop 1 m) s
         else eline_add c m rest s)"

subsection \<open>GEOBAN and UNGEOBAN\<close>

definition skip_space :: "string \<Rightarrow> string" where
  "skip_space p = dropWhile (\<lambda>x. x = CHR '' '' \<or> x = CHR 0x09) p"

text \<open>The field and the new cursor; \<open>None\<close> leaves the cursor where it was.\<close>

definition next_field :: "string \<Rightarrow> nat \<Rightarrow> (string \<times> string) option" where
  "next_field cursor output_size =
     (let p = skip_space cursor
      in if p = [] then None
         else if starts_with ''{'' p
         then let inner = takeWhile (\<lambda>x. x \<noteq> CHR ''}'') (drop 1 p); r = dropWhile (\<lambda>x. x \<noteq> CHR ''}'') (drop 1 p); after = drop 1 r
              in if r = [] \<or> (after \<noteq> [] \<and> \<not> starts_with [CHR '' '', CHR 0x09] after) then None
                 else Some (take (output_size - 1) inner, after)
         else let word = takeWhile (\<lambda>x. x \<noteq> CHR '' '' \<and> x \<noteq> CHR 0x09) p
              in if take (output_size - 1) word = [] then None
                 else Some (take (output_size - 1) word, drop (length word) p))"

definition geoban_list_callback :: "cref \<Rightarrow> geoban_row \<Rightarrow> nat \<times> server \<Rightarrow> bool \<times> nat \<times> server" where
  "geoban_list_callback c record context = (case context of (n, s) \<Rightarrow>
     (False, n + 1,
      server_notice_to c (''GEOBAN '' @ geoban_type_name (gb_type record) @ '' {'' @ gb_value record @ ''} expires='' @
        (if gb_expires_at record = 0 then ''permanent'' else dec_int (max 0 (gb_expires_at record - sv_clock s)) @ ''s'') @
        '' set_by='' @ (if gb_set_by record \<noteq> [] then gb_set_by record else ''unknown'') @ '' :'' @
        (if gb_reason record \<noteq> [] then gb_reason record else ''GeoIP policy ban'')) s))"

definition geoban_hits :: "geoban_row \<Rightarrow> server \<Rightarrow> cref \<Rightarrow> bool" where
  "geoban_hits record s d \<longleftrightarrow> c_registered (sv_client s d) \<and> c_geoip_complete (sv_client s d) \<and>
     geoban_record_matches record (c_geoip (sv_client s d))"

definition geoban_act :: "cref \<Rightarrow> string \<Rightarrow> geoban_row \<Rightarrow> cref \<Rightarrow> server \<Rightarrow> bool \<times> server" where
  "geoban_act c reason record d s =
     (if d \<noteq> c \<and> geoban_hits record s d
      then (True, banned_creep d (if reason \<noteq> [] then reason else ''GeoIP policy ban'')
              (snotice_broadcast SNOTICE_GEOBANS
                 (''GeoBAN matched '' @ command_reply_nick (sv_client s d) @ '' [real_ip='' @ c_real_ip (sv_client s d) @ ''] by '' @
                  geoban_type_name (gb_type record) @ '' {'' @ gb_value record @ ''}'') s))
      else (False, s))"

definition disconnect_matches :: "cref \<Rightarrow> string \<Rightarrow> server \<Rightarrow> server" where
  "disconnect_matches c reason s =
     snd (geoban_db_list (sv_clock s)
            (\<lambda>record s. (False, sweep (geoban_act c reason record) (length (sv_clients s)) 0 s)) (geoban_rows s) s)"

definition geoban_list :: "cref \<Rightarrow> server \<Rightarrow> command_result \<times> server" where
  "geoban_list c s =
     (case (case open_geobans s of
              (False, s1) \<Rightarrow> (False, 0, s1)
            | (True, s1) \<Rightarrow> geoban_db_list (sv_clock s1) (geoban_list_callback c) (geoban_rows s1) (0, s1)) of
        (False, n, s2) \<Rightarrow> (COMMAND_KEEP_CLIENT, server_notice_to c ''GEOBAN LIST failed'' s2)
      | (True, n, s2) \<Rightarrow> (COMMAND_KEEP_CLIENT, server_notice_to c (''End of GEOBAN list ('' @ dec n @ '' active)'') s2))"

definition geoban_add_row :: "cref \<Rightarrow> int \<Rightarrow> string \<Rightarrow> string \<Rightarrow> nat \<Rightarrow> string \<Rightarrow> server \<Rightarrow> command_result \<times> server" where
  "geoban_add_row c type val duration_text duration reason s =
     (let cl = sv_client s c; failed = (\<lambda>s. (COMMAND_KEEP_CLIENT, server_notice_to c ''GEOBAN add failed'' s));
          name = geoban_type_name type @ '' {'' @ val @ ''}''
      in case open_geobans s of
           (False, s1) \<Rightarrow> failed s1
         | (True, s1) \<Rightarrow>
             (case geoban_db_add (sv_clock s1) type val (Some reason) (Some (setter cl)) duration (geoban_rows s1) of
                None \<Rightarrow> failed s1
              | Some rows \<Rightarrow>
                  (COMMAND_KEEP_CLIENT,
                   disconnect_matches c reason
                     (snotice_broadcast SNOTICE_GEOBANS (c_nick cl @ '' added GEOBAN '' @ name @ '' ('' @ reason @ '')'')
                       (server_notice_to c (''GEOBAN added: '' @ name @ '' '' @ (if duration = 0 then ''permanent'' else duration_text))
                         (set_geobans rows s1))))))"

text \<open>The type, the normalised value and the cursor after it.\<close>

definition geoban_operand :: "string \<Rightarrow> string \<Rightarrow> (int \<times> string \<times> string) option" where
  "geoban_operand type_text cursor =
     Option.bind (geoban_type_parse type_text) (\<lambda>type.
     Option.bind (next_field cursor (IRCD_GEOIP_ORG_MAX + 1)) (\<lambda>(raw, cursor1).
     Option.bind (geoban_normalize_value type raw (IRCD_GEOIP_ORG_MAX + 1)) (\<lambda>val. Some (type, val, cursor1))))"

definition geoban_reason :: "string \<Rightarrow> string" where
  "geoban_reason cursor = (if drop_colon (skip_space cursor) = [] then ''GeoIP policy ban'' else drop_colon (skip_space cursor))"

definition geoban_body :: "cref \<Rightarrow> string \<Rightarrow> string \<Rightarrow> server \<Rightarrow> command_result \<times> server" where
  "geoban_body c type_text cursor s =
     (if strcaseeq type_text ''LIST'' then geoban_list c s
      else case Option.bind (geoban_operand type_text cursor) (\<lambda>(type, val, cursor1).
                  Option.bind (next_field cursor1 32) (\<lambda>(duration_text, cursor2).
                  Option.bind (geoban_duration_parse duration_text) (\<lambda>duration. Some (type, val, duration_text, duration, cursor2)))) of
             None \<Rightarrow> (COMMAND_KEEP_CLIENT, server_notice_to c ''Invalid GEOBAN syntax or value'' s)
           | Some (type, val, duration_text, duration, cursor2) \<Rightarrow>
               geoban_add_row c type val duration_text duration (geoban_reason cursor2) s)"

definition command_geoban :: "cref \<Rightarrow> string option \<Rightarrow> server \<Rightarrow> command_result \<times> server" where
  "command_geoban c params = permitted OPER_PERMISSION_GEOBAN c (\<lambda>s.
     case Option.bind params (\<lambda>p. next_field p 32) of
       None \<Rightarrow> ERR_NEEDMOREPARAMS c ''GEOBAN'' s
     | Some (type_text, cursor) \<Rightarrow> geoban_body c type_text cursor s)"

definition command_ungeoban :: "cref \<Rightarrow> string option \<Rightarrow> server \<Rightarrow> command_result \<times> server" where
  "command_ungeoban c params = permitted OPER_PERMISSION_GEOBAN c (\<lambda>s.
     case Option.bind (Option.bind params (\<lambda>p. next_field p 32)) (\<lambda>(type_text, cursor). geoban_operand type_text cursor) of
       None \<Rightarrow> ERR_NEEDMOREPARAMS c ''UNGEOBAN'' s
     | Some (type, val, _) \<Rightarrow>
         (let name = geoban_type_name type @ '' {'' @ val @ ''}'';
              failed = (\<lambda>s. (COMMAND_KEEP_CLIENT, server_notice_to c (''UNGEOBAN failed: '' @ name) s))
          in case open_geobans s of
               (False, s1) \<Rightarrow> failed s1
             | (True, s1) \<Rightarrow>
                 (case geoban_db_delete type val (geoban_rows s1) of
                    None \<Rightarrow> failed s1
                  | Some rows \<Rightarrow>
                      (COMMAND_KEEP_CLIENT,
                       snotice_broadcast SNOTICE_GEOBANS (c_nick (sv_client s c) @ '' removed GEOBAN '' @ name)
                         (server_notice_to c (''GEOBAN removed: '' @ name) (set_geobans rows s1))))))"

subsection \<open>The handlers respect the server\<close>

text \<open>What every call of the callback keeps, the iteration over the rows keeps.\<close>

lemma list_rows_invariant:
  assumes "\<And>r x. P x \<Longrightarrow> P (snd (callback r x))" and "P x"
  shows "P (snd (list_rows from_stmt callback rows x))"
  using assms(2)
proof (induction rows arbitrary: x)
  case (Cons r rows)
  then show ?case
    using assms(1) by (auto split: option.split prod.split) (metis snd_conv)+
qed simp

lemma geoban_list_loop_invariant:
  assumes "\<And>r x. P x \<Longrightarrow> P (snd (callback r x))" and "P x"
  shows "P (snd (geoban_list_loop callback rows x))"
  using assms(2)
proof (induction rows arbitrary: x)
  case (Cons r rows)
  then show ?case
    using assms(1) by (auto split: option.split prod.split) (metis snd_conv)+
qed simp

lemmas db_list_invariant = list_rows_invariant geoban_list_loop_invariant

lemma open_bans_keeps:
  assumes "keeps c s t"
  shows "keeps c s (snd (open_bans t))"
  using keeps_fields [OF assms] assms by (auto simp: open_bans_def Let_def split: option.split prod.split)

lemma open_geobans_keeps:
  assumes "keeps c s t"
  shows "keeps c s (snd (open_geobans t))"
  using keeps_fields [OF assms] assms by (auto simp: open_geobans_def Let_def split: option.split prod.split)

lemma set_tables_keeps:
  assumes "keeps c s t"
  shows "keeps c s (set_bans r t)" and "keeps c s (set_exceptions r t)" and "keeps c s (set_geobans g t)"
  using keeps_fields [OF assms] by (simp_all add: set_bans_def set_exceptions_def set_geobans_def)

lemma banned_creep_keeps:
  assumes "d \<in> set (sv_clients s)" "d \<noteq> c"
  shows "keeps c s (banned_creep d reason (snotice_broadcast k x s))"
proof -
  let ?t = "sendf d (numeric (snotice_broadcast k x s) ''465'' (command_reply_nick (sv_client (snotice_broadcast k x s) d))
          ('':You are banned from this server.  Mail '' @ cf_admin_email (sv_config (snotice_broadcast k x s)) @ '' for more information''))
          (snotice_broadcast k x s)"
  have io: "io_only s ?t" by (rule io_only_trans [OF snotice_broadcast_io sendf_io])
  show ?thesis
    unfolding banned_creep_def
    by (rule keeps_disconnect [OF keeps_io [OF keeps_refl io] assms(2)]) (use io_fields [OF io] assms(1) in simp)
qed

lemma line_act_keeps: "d \<in> set (sv_clients s) \<Longrightarrow> keeps c s (snd (line_act k c reason m record d s))"
  by (simp add: line_act_def banned_creep_keeps keeps_io [OF keeps_refl snotice_broadcast_io] split: option.split)

lemma geoban_act_keeps: "d \<in> set (sv_clients s) \<Longrightarrow> keeps c s (snd (geoban_act c reason record d s))"
  by (simp add: geoban_act_def banned_creep_keeps)

lemma enforcement_keeps:
  assumes "keeps c s t"
  shows "keeps c s (enforce_lines k c reason m t)" and "keeps c s (disconnect_matches c reason t)"
proof -
  have row: "keeps c s (line_disconnect_row k c reason m r x)" "keeps c s (sweep (geoban_act c reason g) n 0 x)" if "keeps c s x" for r x n g
    unfolding line_disconnect_row_def
    by (rule keeps_trans [OF that sweep_keeps], erule line_act_keeps, rule keeps_trans [OF that sweep_keeps], erule geoban_act_keeps)
  show "keeps c s (enforce_lines k c reason m t)"
    unfolding enforce_lines_def ban_db_list_def
    using list_rows_invariant [of "keeps c s"] row assms by simp
  show "keeps c s (disconnect_matches c reason t)"
    unfolding disconnect_matches_def geoban_db_list_def
    using geoban_list_loop_invariant [of "keeps c s"] row assms by simp
qed

lemma notices_keep:
  assumes "keeps c s t"
  shows "keeps c s (snotice_broadcast k x t)"
  by (rule keeps_io [OF assms snotice_broadcast_io])

lemmas ban_parts_keep = enforcement_keeps set_tables_keeps oper_replies_keeps notices_keep replies_keeps

lemma line_commands_keep:
  shows "keeps c s (snd (remove_line k c m s))" and "keeps c s (snd (add_line k c m reason timed s))"
  using open_bans_keeps [OF keeps_refl, of c s]
  by (auto simp: remove_line_def add_line_def Let_def ban_parts_keep split: prod.split option.split bool.split)

lemma command_kline_keeps: "keeps c s (snd (command_kline c params s))"
proof -
  have "keeps c s (snd (kline_body c m rest s))" for m rest s
    by (simp add: kline_body_def Let_def ban_parts_keep line_commands_keep keeps_io [OF keeps_refl no_privileges_io] split: option.split)
  then show ?thesis
    unfolding command_kline_def
    by (intro registered_only_keeps) (simp add: replies_keeps split: option.split prod.split)
qed

lemma command_zline_keeps: "keeps c s (snd (command_zline c params s))"
proof -
  have "keeps c s (snd (zline_body c m rest s))" for m rest s
    by (simp add: zline_body_def Let_def ban_parts_keep line_commands_keep split: option.split)
  then show ?thesis
    unfolding command_zline_def
    by (intro permitted_keeps) (simp add: replies_keeps split: option.split prod.split)
qed

lemma eline_list_keeps: "keeps c s (snd (eline_list c rest s))"
proof -
  have row: "keeps c s (snd (snd (eline_list_row c r x)))" if "keeps c s (snd x)" for r x
    using that by (cases x) (simp add: eline_list_row_def oper_replies_keeps)
  have inv: "keeps c s (snd (snd (list_rows f (eline_list_row c) rows x)))" if "keeps c s (snd x)" for f rows x
    by (rule list_rows_invariant [of "\<lambda>x. keeps c s (snd x)"]) (use that row in auto)
  have "keeps c s (snd (snd (ban_exception_db_list_all now (eline_list_row c) rows (0, t))))"
    "keeps c s (snd (snd (ban_exception_db_list now ty (eline_list_row c) rows (0, t))))" if "keeps c s t" for now rows ty t
    using inv that by (simp_all add: ban_exception_db_list_all_def ban_exception_db_list_def)
  note lists = this
  obtain b t where o: "open_bans s = (b, t)" by fastforce
  have t: "keeps c s t" using open_bans_keeps [OF keeps_refl, of c s] o by simp
  have all: "keeps c s v" if "ban_exception_db_list_all now (eline_list_row c) rows (0, t) = (r, n, v)" for now rows r n v
    using lists(1) [OF t] that by (metis snd_conv)
  have one: "keeps c s v" if "ban_exception_db_list now ty (eline_list_row c) rows (0, t) = (r, n, v)" for now ty rows r n v
    using lists(2) [OF t] that by (metis snd_conv)
  show ?thesis
    using t by (auto simp: eline_list_def o Let_def keeps_io [OF keeps_refl no_privileges_io] intro!: oper_replies_keeps(2)
        split: prod.split option.split bool.split dest: all one)
qed

lemma eline_add_loop_keeps: "keeps c s (snd (eline_add_loop c m reason duration ts s))"
proof (induction ts arbitrary: s)
  case (Cons t ts)
  have "keeps c s (snd (eline_add_loop c m reason duration ts (set_exceptions rows s)))" for rows
    by (rule keeps_trans [OF set_tables_keeps(2) [OF keeps_refl] Cons.IH])
  then show ?case by (simp split: option.split split del: if_split)
qed simp

lemma eline_remove_keeps: "keeps c s (snd (eline_remove c m s))"
  using open_bans_keeps [OF keeps_refl, of c s]
  by (auto simp: eline_remove_def Let_def ban_parts_keep split: prod.split option.split bool.split)

lemma eline_add_keeps: "keeps c s (snd (eline_add c m rest s))"
proof -
  have "keeps c s u" if "open_bans s = (b, t)" "eline_add_loop c m reason d ts t = (r, u)" for b t reason d ts r u
    using keeps_trans [OF open_bans_keeps [OF keeps_refl], of c s u] eline_add_loop_keeps [of c t m reason d ts] that by simp
  moreover have "keeps c s t" if "open_bans s = (b, t)" for b t
    using open_bans_keeps [OF keeps_refl, of c s] that by simp
  ultimately show ?thesis
    by (auto simp: eline_add_def Let_def ban_parts_keep keeps_io [OF keeps_refl no_privileges_io]
        split: prod.split option.split bool.split)
qed

lemma command_eline_keeps: "keeps c s (snd (command_eline c params s))"
  unfolding command_eline_def
  by (rule registered_only_keeps)
     (simp add: replies_keeps eline_list_keeps eline_remove_keeps eline_add_keeps keeps_io [OF keeps_refl no_privileges_io] split: option.split prod.split)

lemma geoban_list_keeps: "keeps c s (snd (geoban_list c s))"
proof -
  have row: "keeps c s (snd (snd (geoban_list_callback c r x)))" if "keeps c s (snd x)" for r x
    using that by (cases x) (simp add: geoban_list_callback_def oper_replies_keeps)
  have inv: "keeps c s (snd (snd (geoban_list_loop (geoban_list_callback c) rows x)))" if "keeps c s (snd x)" for rows x
    by (rule geoban_list_loop_invariant [of "\<lambda>x. keeps c s (snd x)"]) (use that row in auto)
  have "keeps c s v" if "open_geobans s = (b, t)" "geoban_list_loop (geoban_list_callback c) rows (n, t) = (r, u, v)" for b t n rows r u v
    using inv [of "(n, t)" rows] open_geobans_keeps [OF keeps_refl, of c s] that by simp
  moreover have "keeps c s t" if "open_geobans s = (b, t)" for b t
    using open_geobans_keeps [OF keeps_refl, of c s] that by simp
  ultimately show ?thesis
    by (auto simp: geoban_list_def geoban_db_list_def oper_replies_keeps split: prod.splits bool.splits)
qed

lemma geoban_add_row_keeps: "keeps c s (snd (geoban_add_row c type v dt d reason s))"
  using open_geobans_keeps [OF keeps_refl, of c s]
  by (auto simp: geoban_add_row_def Let_def ban_parts_keep split: prod.split option.split bool.split)

lemma command_geoban_keeps: "keeps c s (snd (command_geoban c params s))"
proof -
  have "keeps c s (snd (geoban_body c ty cu s))" for ty cu s
    by (simp add: geoban_body_def geoban_list_keeps geoban_add_row_keeps oper_replies_keeps split: option.split prod.split)
  then show ?thesis
    unfolding command_geoban_def
    by (intro permitted_keeps) (simp add: replies_keeps split: option.split prod.split)
qed

lemma command_ungeoban_keeps: "keeps c s (snd (command_ungeoban c params s))"
  unfolding command_ungeoban_def
proof (rule permitted_keeps, goal_cases)
  case (1 s)
  show ?case
    using open_geobans_keeps [OF keeps_refl, of c s]
    by (auto simp: Let_def ban_parts_keep split: prod.split option.split bool.split)
qed

subsection \<open>Enforcement reaches everybody\<close>

lemma banned_creep_shrunk:
  assumes "server_wf s" "d \<in> set (sv_clients s)" "io_only s t"
  shows "shrunk s (banned_creep d reason t)" and "sv_clients (banned_creep d reason t) = swap_remove d (sv_clients s)"
proof -
  have io: "io_only s (sendf d l t)" for l by (rule io_only_trans [OF assms(3) sendf_io])
  have "server_wf (sendf d l t)" "d \<in> set (sv_clients (sendf d l t))" for l
    using server_wf_io [OF io assms(1)] io_fields [OF io] assms(2) by simp_all
  note gone = disconnect_shrunk [OF this]
  show "shrunk s (banned_creep d reason t)"
    unfolding banned_creep_def by (rule shrunk_trans [OF shrunk_io [OF assms(1) io] gone(1)])
  show "sv_clients (banned_creep d reason t) = swap_remove d (sv_clients s)"
    unfolding banned_creep_def using gone(2) io_fields [OF assms(3)] by simp
qed

lemma order_rows_set: "set (order_rows le rows) = set rows"
proof -
  have "set (insert_row le r rows) = insert r (set rows)" for r rows
    by (induction rows) auto
  then show ?thesis unfolding order_rows_def by (induction rows) simp_all
qed

lemma list_rows_fold:
  assumes "\<forall>r\<in>set rows. from_stmt r = Some r"
  shows "list_rows from_stmt (\<lambda>r x. (False, f r x)) rows x = (True, fold f rows x)"
  using assms by (induction rows arbitrary: x) simp_all

lemma geoban_list_fold:
  assumes "\<forall>r\<in>set rows. geoban_record_from_stmt r = Some r"
  shows "geoban_list_loop (\<lambda>r x. (False, f r x)) rows x = (True, fold f rows x)"
  using assms by (induction rows arbitrary: x) simp_all

definition line_strikes :: "line_kind \<Rightarrow> cref \<Rightarrow> ban_row \<Rightarrow> server \<Rightarrow> cref \<Rightarrow> bool" where
  "line_strikes k c r s d \<longleftrightarrow> d \<noteq> c \<and> line_hits k r s d \<and> line_exception k s d = None"

interpretation line: row_sweep "line_act k c reason m" "line_strikes k c" for k c reason m
proof (unfold_locales, goal_cases)
  case (1 s t d r)
  then show ?case by (simp add: shrunk_def line_strikes_def line_hits_def line_exception_def exception_rows_def)
next
  case (2 s d r)
  then show ?case by (simp add: line_strikes_def line_act_def split: option.split)
next
  case (3 s d r)
  then show ?case
    by (auto simp: line_act_def shrunk_io banned_creep_shrunk(1) [OF 3 snotice_broadcast_io] split: option.split)
next
  case (4 s d r)
  then show ?case
    by (auto simp: line_act_def line_strikes_def banned_creep_shrunk(2) [OF 4 snotice_broadcast_io] split: option.split)
qed

interpretation geo: row_sweep "geoban_act c reason" "\<lambda>r s d. d \<noteq> c \<and> geoban_hits r s d" for c reason
proof (unfold_locales, goal_cases)
  case (1 s t d r)
  then show ?case by (simp add: shrunk_def geoban_hits_def)
next
  case (2 s d r)
  then show ?case by (simp add: geoban_act_def)
next
  case (3 s d r)
  then show ?case by (simp add: geoban_act_def shrunk_io banned_creep_shrunk(1) [OF 3 snotice_broadcast_io])
next
  case (4 s d r)
  then show ?case by (simp add: geoban_act_def banned_creep_shrunk(2) [OF 4 snotice_broadcast_io])
qed

lemma enforce_lines_shrinks:
  assumes wf: "server_wf s" and rows: "ban_table_wf valid_type (ban_rows s)" and ty: "valid_type (lk_type k)"
  shows "shrunk s (enforce_lines k c reason m s)" and "set (sv_clients (enforce_lines k c reason m s)) =
    {d \<in> set (sv_clients s). \<forall>r\<in>set (ban_rows s). bn_type r = lk_type k \<and> live_row (sv_clock s) r \<longrightarrow> \<not> line_strikes k c r s d}"
proof -
  let ?rs = "order_rows created_le (filter (\<lambda>r. bn_type r = lk_type k \<and> live_row (sv_clock s) r) (ban_rows s))"
  have set: "set ?rs = {r \<in> set (ban_rows s). bn_type r = lk_type k \<and> live_row (sv_clock s) r}"
    by (simp add: order_rows_set)
  then have "\<forall>r\<in>set ?rs. Option.bind (record_from_stmt valid_type r) (\<lambda>x. if bn_type x = lk_type k then Some x else None) = Some r"
    using rows by (auto simp: ban_table_wf_def)
  note go = list_rows_fold [OF this, where f = "\<lambda>r s. sweep (line_act k c reason m r) (length (sv_clients s)) 0 s" and x = s]
  have e: "enforce_lines k c reason m s = fold (\<lambda>r s. sweep (line_act k c reason m r) (length (sv_clients s)) 0 s) ?rs s"
    using go ty by (simp add: enforce_lines_def ban_db_list_def line_disconnect_row_def)
  show "shrunk s (enforce_lines k c reason m s)" using line.fold_sweep [OF wf] e by simp
  show "set (sv_clients (enforce_lines k c reason m s)) =
    {d \<in> set (sv_clients s). \<forall>r\<in>set (ban_rows s). bn_type r = lk_type k \<and> live_row (sv_clock s) r \<longrightarrow> \<not> line_strikes k c r s d}"
    using line.fold_sweep [OF wf] e set by auto
qed

text \<open>
  C37: the loops that disconnect the banned clients end.  While a KLINE, ZLINE or GEOBAN row is enforced on a well-formed server, every pass either moves the
  index on or removes a client at it.  The loop of the code, its test and its pass repeated without any bound, therefore returns, with the state that the model computes; its
  test holds before each of the first passes, as many as there are clients, and fails after them.
\<close>

theorem enforcement_loops_end:
  assumes "server_wf s" and "act = line_act k c reason m row \<or> act = geoban_act c reason georow"
  shows "(\<exists>i. while_option sweep_test (sweep_pass act) (0, s) = Some (i, sweep act (length (sv_clients s)) 0 s)) \<and>
    (\<forall>j<length (sv_clients s). sweep_test ((sweep_pass act ^^ j) (0, s))) \<and>
    \<not> sweep_test ((sweep_pass act ^^ length (sv_clients s)) (0, s))"
  using assms(2)
  by (elim disjE; simp only:) (rule client_sweep.loop_ends [OF line.rows assms(1)], rule client_sweep.loop_ends [OF geo.rows assms(1)])

definition zlined_room :: server where
  "zlined_room = set_exceptions [] (set_bans [new_row 0 BAN_TYPE_ZLINE ''10.*'' None None 0] example_room)"

lemma zlined_room_wf: "server_wf zlined_room"
  by (simp add: zlined_room_def set_bans_def set_exceptions_def example_room_wf)

theorem enforcement_loops_end_witness:
  "\<exists>i. while_option sweep_test (sweep_pass (line_act zline_kind 0 [] ''10.*'' (new_row 0 BAN_TYPE_ZLINE ''10.*'' None None 0))) (0, zlined_room) =
     Some (i, line_disconnect_row zline_kind 0 [] ''10.*'' (new_row 0 BAN_TYPE_ZLINE ''10.*'' None None 0) zlined_room)"
  using enforcement_loops_end [OF zlined_room_wf disjI1 [OF refl]] by (simp add: line_disconnect_row_def)

text \<open>
  C5: a new ban takes effect on everybody it covers and on nobody else.  On a well-formed server whose ban table can be read back,
  enforcing the KLINEs or ZLINEs leaves exactly these clients connected: the operator who set the ban, the ones an ELINE
  of the type exempts, and the ones no live row of the type matches.  The clients that stay are not changed, the
  server stays well formed and the tables stay as they were.
\<close>

theorem enforcement_exact:
  assumes wf: "server_wf s" and rows: "ban_table_wf valid_type (ban_rows s)" and k: "k = kline_kind \<or> k = zline_kind"
  shows "set (sv_clients (enforce_lines k c reason m s)) =
      {d \<in> set (sv_clients s). d = c \<or> line_exception k s d \<noteq> None \<or>
         (\<forall>r\<in>set (ban_rows s). bn_type r = lk_type k \<and> live_row (sv_clock s) r \<longrightarrow> \<not> line_hits k r s d)} \<and>
    (\<forall>d\<in>set (sv_clients (enforce_lines k c reason m s)). sv_client (enforce_lines k c reason m s) d = sv_client s d) \<and>
    server_wf (enforce_lines k c reason m s) \<and> sv_world (enforce_lines k c reason m s) = sv_world s"
proof -
  have "valid_type (lk_type k)" using k by (auto simp: kline_kind_def zline_kind_def valid_type_def)
  note shrinks = enforce_lines_shrinks [OF wf rows this, of c reason m]
  then show ?thesis by (auto simp: shrunk_def line_strikes_def)
qed

theorem enforcement_exact_witness:
  "set (sv_clients (enforce_lines zline_kind 0 [] ''10.*'' zlined_room)) = {0}"
proof -
  have ban: "ban_table_wf valid_type (ban_rows zlined_room)"
    using new_row_readable [of valid_type BAN_TYPE_ZLINE "''10.*''" None None 0 0]
    by (simp add: ban_table_wf_def valid_type_def key_text_ok_def note_text_ok_def has_line_break_def zlined_room_def
        set_bans_def set_exceptions_def ban_rows_def)
  have glob: "wildcard_match ''10.*'' ''10.0.0.1''" by code_simp
  have "line_exception zline_kind zlined_room d = None" for d
    by (simp add: line_exception_def zlined_room_def set_bans_def set_exceptions_def zline_kind_def exception_rows_def
        ban_exception_db_match_def)
  moreover have "\<exists>r\<in>set (ban_rows zlined_room). bn_type r = lk_type zline_kind \<and> live_row (sv_clock zlined_room) r \<and>
      line_hits zline_kind r zlined_room (Suc 0)"
    using glob
    by (simp add: line_hits_def zlined_room_def set_bans_def set_exceptions_def zline_kind_def new_row_def live_row_def ban_rows_def
        ban_record_matches_def has_wildcard_def either_identity_def)
  moreover have "set (sv_clients zlined_room) = {0, Suc 0}" by (simp add: zlined_room_def set_bans_def set_exceptions_def)
  ultimately show ?thesis
    using enforcement_exact [OF zlined_room_wf ban, of zline_kind 0 "[]" "''10.*''"] by auto
qed

end
