(* ===== verification/Auth_Limit.thy ===== *)
theory Auth_Limit
  imports Server_Steps
begin

section \<open>Limits on password work (include/auth_limit.h, src/commands/nickserv.c)\<close>

text \<open>
  Verifying or hashing a password is expensive, so each attempt takes a unit from three fixed windows: the second, the minute and a window
  per address.  The slots of the addresses are arrays of fixed size; a slot whose window is over may be taken by another
  address.  \<open>take_slot\<close> is the search that \<open>auth_limit_consume\<close> and \<open>throttle_slot\<close> share.
\<close>

definition window_over :: "time_t \<Rightarrow> int \<Rightarrow> time_t \<Rightarrow> bool" where
  "window_over now window start \<longleftrightarrow> start = 0 \<or> now < start \<or> now - start \<ge> window"

text \<open>The index of the slot of the address, and the first slot that is free.\<close>

fun scan_slots :: "string \<Rightarrow> time_t \<Rightarrow> int \<Rightarrow> nat \<Rightarrow> nat option \<Rightarrow> throttle list \<Rightarrow> nat option \<times> nat option" where
  "scan_slots ip now window i free [] = (None, free)"
| "scan_slots ip now window i free (slot # slots) =
     (if th_ip slot \<noteq> [] \<and> th_ip slot = ip then (Some i, free)
      else scan_slots ip now window (i + 1)
             (if (th_ip slot = [] \<or> window_over now window (th_window_start slot)) \<and> free = None then Some i else free) slots)"

definition take_slot :: "string \<Rightarrow> time_t \<Rightarrow> int \<Rightarrow> throttle list \<Rightarrow> nat option \<times> throttle list" where
  "take_slot ip now window slots =
     (case scan_slots ip now window 0 None slots of
        (Some i, _) \<Rightarrow>
          (Some i, if window_over now window (th_window_start (slots ! i))
                   then slots[i := (slots ! i)\<lparr>th_window_start := now, th_count := 0\<rparr>] else slots)
      | (None, Some i) \<Rightarrow> (Some i, slots[i := \<lparr>th_ip = take IRC_IP_MAX ip, th_window_start = now, th_count = 0\<rparr>])
      | (None, None) \<Rightarrow> (None, slots))"

text \<open>A window that is over starts again with a count of zero.\<close>

definition roll :: "time_t \<Rightarrow> int \<Rightarrow> time_t \<times> u32 \<Rightarrow> time_t \<times> u32" where
  "roll now window w = (if window_over now window (fst w) then (now, 0) else w)"

definition throttled :: "cref \<Rightarrow> string \<Rightarrow> string \<Rightarrow> string \<Rightarrow> server \<Rightarrow> server" where
  "throttled c what operation limit s =
     snotice_broadcast (SNOTICE_SECURITY OR SNOTICE_FLOOD)
       (''Argon2 work '' @ what @ '' nick='' @ (if c_nick (sv_client s c) \<noteq> [] then c_nick (sv_client s c) else ''*'') @
        '' real_ip='' @ c_real_ip (sv_client s c) @ '' operation='' @ operation @ '' limit='' @ limit) s"

text \<open>The three tests in turn; each leaves its window rolled even when a later one refuses.\<close>

definition burst_test :: "cref \<Rightarrow> string \<Rightarrow> server \<Rightarrow> bool \<times> server" where
  "burst_test c operation s =
     (let burst = cf_argon2_global_burst_per_second (sv_config s); li = sv_limits s;
          (start, n) = roll (sv_clock s) 1 (li_argon2_burst_window_start li, li_argon2_burst_count li);
          s1 = s\<lparr>sv_limits := li\<lparr>li_argon2_burst_window_start := start, li_argon2_burst_count := n\<rparr>\<rparr>
      in if burst = 0 then (True, s)
         else if n \<ge> burst then (False, throttled c ''burst throttled:'' operation (dec (unat burst) @ ''/sec'') s1)
         else (True, s1))"

definition global_test :: "cref \<Rightarrow> string \<Rightarrow> server \<Rightarrow> bool \<times> server" where
  "global_test c operation s =
     (let global = cf_argon2_global_ops_per_minute (sv_config s); li = sv_limits s;
          (start, n) = roll (sv_clock s) 60 (li_argon2_global_window_start li, li_argon2_global_count li);
          s1 = s\<lparr>sv_limits := li\<lparr>li_argon2_global_window_start := start, li_argon2_global_count := n\<rparr>\<rparr>
      in if global = 0 then (True, s)
         else if n \<ge> global then (False, throttled c ''globally throttled:'' operation (dec (unat global) @ ''/min'') s1)
         else (True, s1))"

text \<open>The slot that was found goes with the answer.\<close>

definition address_test :: "cref \<Rightarrow> string \<Rightarrow> server \<Rightarrow> bool \<times> nat option \<times> server" where
  "address_test c operation s =
     (let per_ip = cf_argon2_ops_per_ip (sv_config s); window = cf_argon2_window_seconds (sv_config s); li = sv_limits s;
          (slot, slots) = take_slot (c_real_ip (sv_client s c)) (sv_clock s) (uint window) (li_argon2_throttles li);
          s1 = s\<lparr>sv_limits := li\<lparr>li_argon2_throttles := slots\<rparr>\<rparr>;
          refuse = throttled c ''throttled:'' operation (dec (unat per_ip) @ ''/'' @ dec (unat window) @ ''s'') s1
      in if per_ip = 0 then (True, None, s)
         else case slot of
                None \<Rightarrow> (False, None, refuse)
              | Some i \<Rightarrow> if th_count (slots ! i) \<ge> per_ip then (False, Some i, refuse) else (True, Some i, s1))"

definition count_work :: "nat option \<Rightarrow> server \<Rightarrow> server" where
  "count_work slot s =
     (let li = sv_limits s;
          slots = (case slot of
                     None \<Rightarrow> li_argon2_throttles li
                   | Some i \<Rightarrow> (li_argon2_throttles li)[i := (li_argon2_throttles li ! i)\<lparr>th_count := th_count (li_argon2_throttles li ! i) + 1\<rparr>])
      in s\<lparr>sv_limits := li\<lparr>li_argon2_throttles := slots,
           li_argon2_global_count := (if cf_argon2_global_ops_per_minute (sv_config s) \<noteq> 0 then li_argon2_global_count li + 1 else li_argon2_global_count li),
           li_argon2_burst_count := (if cf_argon2_global_burst_per_second (sv_config s) \<noteq> 0 then li_argon2_burst_count li + 1 else li_argon2_burst_count li)\<rparr>\<rparr>)"

definition auth_limit_consume :: "cref \<Rightarrow> string \<Rightarrow> server \<Rightarrow> bool \<times> server" where
  "auth_limit_consume c operation s =
     (let cfg = sv_config s
      in if c_real_ip (sv_client s c) = [] then (False, s)
         else if cf_argon2_ops_per_ip cfg = 0 \<and> cf_argon2_global_ops_per_minute cfg = 0 \<and> cf_argon2_global_burst_per_second cfg = 0
         then (True, s)
         else case burst_test c operation s of
                (False, s1) \<Rightarrow> (False, s1)
              | (True, s1) \<Rightarrow>
                  (case global_test c operation s1 of
                     (False, s2) \<Rightarrow> (False, s2)
                   | (True, s2) \<Rightarrow>
                       (case address_test c operation s2 of
                          (False, _, s3) \<Rightarrow> (False, s3)
                        | (True, slot, s3) \<Rightarrow> (True, count_work slot s3))))"

subsection \<open>What the test changes\<close>

text \<open>Only the limits change, and lines are sent.\<close>

definition limit_step :: "server \<Rightarrow> server \<Rightarrow> bool" where
  "limit_step s t \<longleftrightarrow> (\<exists>li. io_only (s\<lparr>sv_limits := li\<rparr>) t)"

lemma limit_step_refl [simp, intro!]: "limit_step s s"
  unfolding limit_step_def by (rule exI [of _ "sv_limits s"]) simp

lemma limit_step_limits [intro]:
  assumes "limit_step s t"
  shows "limit_step s (t\<lparr>sv_limits := li\<rparr>)"
proof -
  obtain lj out env log where t: "t = s\<lparr>sv_limits := lj, sv_out := out, sv_env := env, sv_log := log\<rparr>" "oe_alloc env = oe_alloc (sv_env s)"
    using assms unfolding limit_step_def io_only_def by auto
  have "io_only (s\<lparr>sv_limits := li\<rparr>) (t\<lparr>sv_limits := li\<rparr>)"
    unfolding io_only_def t by (intro exI [of _ out] exI [of _ env] exI [of _ log]) (cases s, simp add: t)
  then show ?thesis unfolding limit_step_def by blast
qed

lemma limit_step_io: "limit_step s t \<Longrightarrow> io_only t u \<Longrightarrow> limit_step s u"
  unfolding limit_step_def using io_only_trans by blast

lemma throttled_io [simp, intro!]: "io_only s (throttled c what operation limit s)"
  by (simp add: throttled_def)

lemma consume_limit_step: "limit_step s (snd (auth_limit_consume c operation s))"
proof -
  have burst: "limit_step s (snd (burst_test c operation t))" if "limit_step s t" for t
    using limit_step_limits [OF that] limit_step_io [OF limit_step_limits [OF that] throttled_io]
    by (simp add: burst_test_def Let_def case_prod_beta that)
  have global: "limit_step s (snd (global_test c operation t))" if "limit_step s t" for t
    using limit_step_limits [OF that] limit_step_io [OF limit_step_limits [OF that] throttled_io]
    by (simp add: global_test_def Let_def case_prod_beta that)
  have address: "limit_step s (snd (snd (address_test c operation t)))" if "limit_step s t" for t
    using limit_step_limits [OF that] limit_step_io [OF limit_step_limits [OF that] throttled_io]
    by (simp add: address_test_def Let_def case_prod_beta that split: option.split)
  have count: "limit_step s (count_work slot t)" if "limit_step s t" for slot t
    using limit_step_limits [OF that] by (simp add: count_work_def Let_def)
  obtain b s1 where b: "burst_test c operation s = (b, s1)" by fastforce
  obtain g s2 where g: "global_test c operation s1 = (g, s2)" by fastforce
  obtain a slot s3 where a: "address_test c operation s2 = (a, slot, s3)" by (metis prod_cases3)
  have s1: "limit_step s s1" using burst [OF limit_step_refl] b by simp
  have s2: "limit_step s s2" using global [OF s1] g by simp
  have s3: "limit_step s s3" using address [OF s2] a by simp
  show ?thesis using s1 s2 s3 count [OF s3] by (simp add: auth_limit_consume_def Let_def b g a split: bool.split)
qed

lemma limit_step_keeps: "keeps c s t \<Longrightarrow> limit_step t u \<Longrightarrow> keeps c s u"
  unfolding limit_step_def using keeps_io keeps_fields(9) by blast

lemma limit_step_fields:
  assumes "limit_step s t"
  shows "sv_client t = sv_client s" and "sv_config t = sv_config s" and "sv_world t = sv_world s" and "sv_clock t = sv_clock s"
    and "sv_clients t = sv_clients s"
  using assms unfolding limit_step_def io_only_def by auto

subsection \<open>Fixed windows\<close>

text \<open>
  A test that keeps the start of a window and a count, and admits a request only below the limit.  Requests come in
  order of time.  Whatever else decides about a request, in any span as long as the window at most twice the limit are admitted, for the span may
  meet two windows.
\<close>

fun decide_all :: "('r \<Rightarrow> 's \<Rightarrow> bool \<times> 's) \<Rightarrow> 'r list \<Rightarrow> 's \<Rightarrow> nat \<times> 's" where
  "decide_all decide [] s = (0, s)"
| "decide_all decide (r # rs) s =
     (let (admitted, s1) = decide r s; (n, s2) = decide_all decide rs s1 in ((if admitted then n + 1 else n), s2))"

locale fixed_window =
  fixes decide :: "'r \<Rightarrow> 's \<Rightarrow> bool \<times> 's" and at :: "'r \<Rightarrow> time_t" and win :: "'s \<Rightarrow> time_t \<times> u32"
    and good :: "'s \<Rightarrow> bool" and span :: int and limit :: u32
  assumes span_pos: "span > 0"
    and good_kept: "good s \<Longrightarrow> good (snd (decide r s))"
    and admits: "good s \<Longrightarrow> fst (decide r s) \<Longrightarrow> snd (roll (at r) span (win s)) < limit \<and>
          win (snd (decide r s)) = (fst (roll (at r) span (win s)), snd (roll (at r) span (win s)) + 1)"
    and refuses: "good s \<Longrightarrow> \<not> fst (decide r s) \<Longrightarrow> win (snd (decide r s)) \<in> {win s, roll (at r) span (win s)}"
begin

text \<open>What the window of the state still allows when it does not end before the requests do.\<close>

definition room :: "'s \<Rightarrow> nat" where
  "room s = unat limit - unat (snd (win s))"

lemma count_up: "x < limit \<Longrightarrow> unat (x + 1) = unat x + 1"
proof -
  assume "x < limit"
  moreover have "unat limit < 2 ^ LENGTH(32)" by (rule unsigned_less)
  ultimately show ?thesis using unat_add_lem [of x 1] by (simp add: word_less_nat_alt)
qed

lemma within_window:
  assumes "good s" "fst (win s) > 0" "\<forall>r\<in>set rs. fst (win s) \<le> at r \<and> at r < fst (win s) + span"
  shows "fst (decide_all decide rs s) \<le> room s"
  using assms
proof (induction rs arbitrary: s)
  case (Cons r rs)
  have still: "roll (at r) span (win s) = win s" using Cons.prems by (simp add: roll_def window_over_def)
  obtain b t where d: "decide r s = (b, t)" by fastforce
  have "good t" using good_kept [OF Cons.prems(1), of r] d by simp
  have win: "win t = (if b then (fst (win s), snd (win s) + 1) else win s)" "b \<Longrightarrow> snd (win s) < limit"
    using admits [OF Cons.prems(1), of r] refuses [OF Cons.prems(1), of r] still d by auto
  have "fst (decide_all decide rs t) \<le> room t" using Cons.IH [OF \<open>good t\<close>] Cons.prems win by auto
  then show ?case using win d count_up [of "snd (win s)"] by (auto simp: room_def Let_def case_prod_beta word_less_nat_alt)
qed simp

lemma room_admitted: "snd (win s) < limit \<Longrightarrow> win t = (x, snd (win s) + 1) \<Longrightarrow> Suc (room t) = room s"
  using count_up [of "snd (win s)"] by (simp add: room_def word_less_nat_alt)

lemma span_room:
  assumes "good s" "0 < a" "\<forall>r\<in>set rs. a \<le> at r \<and> at r < a + span" "sorted (map at rs)"
  shows "fst (decide_all decide rs s) \<le> unat limit + room s"
  using assms
proof (induction rs arbitrary: s)
  case (Cons r rs)
  obtain b t where d: "decide r s = (b, t)" by fastforce
  have good: "good t" using good_kept [OF Cons.prems(1), of r] d by simp
  have later: "fst (decide_all decide rs t) \<le> unat limit + room t" using Cons.IH [OF good] Cons.prems by simp
  let ?w = "roll (at r) span (win s)"
  show ?case
  proof (cases "win t = win s \<and> \<not> b \<or> ?w = win s")
    case True
    then have "b \<Longrightarrow> Suc (room t) = room s" "\<not> b \<Longrightarrow> room t = room s"
      using admits [OF Cons.prems(1), of r] refuses [OF Cons.prems(1), of r] d room_admitted [of s t] by (auto simp: room_def)
    then show ?thesis using later d by (cases b) (auto simp: Let_def case_prod_beta)
  next
    case False
    then have w: "?w = (at r, 0)" by (auto simp: roll_def)
    then have t: "win t = (at r, if b then 1 else 0)" "b \<Longrightarrow> limit > 0"
      using admits [OF Cons.prems(1), of r] refuses [OF Cons.prems(1), of r] d False by auto
    have "\<forall>q\<in>set rs. at r \<le> at q" using Cons.prems(4) by simp
    then have "fst (decide_all decide rs t) \<le> room t"
      using t Cons.prems(2,3) by (intro within_window good) (force+)
    then show ?thesis using d t by (auto simp: room_def Let_def case_prod_beta word_less_nat_alt)
  qed
qed simp

lemma span_bound:
  assumes "good s" "0 < a" "\<forall>r\<in>set rs. a \<le> at r \<and> at r < a + span" "sorted (map at rs)"
  shows "fst (decide_all decide rs s) \<le> 2 * unat limit"
  using span_room [OF assms] by (simp add: room_def)

text \<open>A window of one second: the requests of the same second share it.\<close>

lemma instant_bound:
  assumes "span = 1" "0 < a"
  shows "good s \<Longrightarrow> \<forall>r\<in>set rs. at r = a \<Longrightarrow> fst (decide_all decide rs s) \<le> unat limit"
proof (induction rs arbitrary: s)
  case (Cons r rs)
  obtain b t where d: "decide r s = (b, t)" by fastforce
  have good: "good t" using good_kept [OF Cons.prems(1), of r] d by simp
  have here: "fst (decide_all decide qs u) \<le> room u" if "good u" "fst (win u) = a" "\<forall>q\<in>set qs. at q = a" for u qs
    using that assms by (intro within_window) auto
  show ?case
  proof (cases "fst (win s) = a")
    case True
    from here [OF Cons.prems(1) this Cons.prems(2)] show ?thesis by (simp add: room_def)
  next
    case False
    then have w: "roll (at r) span (win s) = (a, 0)" using Cons.prems(2) assms by (auto simp: roll_def window_over_def)
    show ?thesis
    proof (cases "win t = win s \<and> \<not> b")
      case True
      then show ?thesis using Cons.IH [OF good] Cons.prems(2) d by (simp add: Let_def case_prod_beta)
    next
      case False
      then have t: "win t = (a, if b then 1 else 0)" "b \<Longrightarrow> limit > 0"
        using admits [OF Cons.prems(1), of r] refuses [OF Cons.prems(1), of r] d w by auto
      then have "fst (decide_all decide rs t) \<le> room t" using Cons.prems(2) by (intro here good) auto
      then show ?thesis using d t by (cases b) (auto simp: room_def Let_def case_prod_beta word_less_nat_alt)
    qed
  qed
qed simp

end

subsection \<open>The windows of the password work\<close>

text \<open>A request: the client, the operation and the time.\<close>

definition consume_at :: "cref \<times> string \<times> time_t \<Rightarrow> server \<Rightarrow> bool \<times> server" where
  "consume_at r s = (case r of (c, operation, now) \<Rightarrow> auth_limit_consume c operation (s\<lparr>sv_clock := now\<rparr>))"

abbreviation request_time :: "cref \<times> string \<times> time_t \<Rightarrow> time_t" where
  "request_time r \<equiv> snd (snd r)"

abbreviation global_win :: "server \<Rightarrow> time_t \<times> u32" where
  "global_win s \<equiv> (li_argon2_global_window_start (sv_limits s), li_argon2_global_count (sv_limits s))"

abbreviation burst_win :: "server \<Rightarrow> time_t \<times> u32" where
  "burst_win s \<equiv> (li_argon2_burst_window_start (sv_limits s), li_argon2_burst_count (sv_limits s))"

lemma throttled_limits: "sv_limits (throttled c what operation limit s) = sv_limits s"
  using throttled_io [of s c what operation limit] unfolding io_only_def by auto

lemma test_windows:
  "global_win (snd (burst_test c operation s)) = global_win s"
  "burst_win (snd (global_test c operation s)) = burst_win s"
  "global_win (snd (snd (address_test c operation s))) = global_win s"
  "burst_win (snd (snd (address_test c operation s))) = burst_win s"
  by (simp_all add: burst_test_def global_test_def address_test_def Let_def case_prod_beta throttled_limits split: option.split)

lemma burst_test_window:
  assumes "cf_argon2_global_burst_per_second (sv_config s) \<noteq> 0"
  shows "burst_win (snd (burst_test c operation s)) = roll (sv_clock s) 1 (burst_win s)"
    and "fst (burst_test c operation s) \<longleftrightarrow> snd (roll (sv_clock s) 1 (burst_win s)) < cf_argon2_global_burst_per_second (sv_config s)"
  using assms by (auto simp: burst_test_def Let_def case_prod_beta throttled_limits not_le)

lemma global_test_window:
  assumes "cf_argon2_global_ops_per_minute (sv_config s) \<noteq> 0"
  shows "global_win (snd (global_test c operation s)) = roll (sv_clock s) 60 (global_win s)"
    and "fst (global_test c operation s) \<longleftrightarrow> snd (roll (sv_clock s) 60 (global_win s)) < cf_argon2_global_ops_per_minute (sv_config s)"
  using assms by (auto simp: global_test_def Let_def case_prod_beta throttled_limits not_le)

lemma test_environment:
  "sv_config (snd (burst_test c operation s)) = sv_config s" "sv_clock (snd (burst_test c operation s)) = sv_clock s"
  "sv_config (snd (global_test c operation s)) = sv_config s"
  "sv_config (snd (snd (address_test c operation s))) = sv_config s"
  by (simp_all add: burst_test_def global_test_def address_test_def Let_def case_prod_beta io_fields [OF throttled_io] split: option.split)

lemma consume_global:
  assumes "cf_argon2_global_ops_per_minute (sv_config s) \<noteq> 0"
  shows "fst (auth_limit_consume c operation s) \<Longrightarrow> snd (roll (sv_clock s) 60 (global_win s)) < cf_argon2_global_ops_per_minute (sv_config s) \<and>
      global_win (snd (auth_limit_consume c operation s)) =
        (fst (roll (sv_clock s) 60 (global_win s)), snd (roll (sv_clock s) 60 (global_win s)) + 1)"
    and "\<not> fst (auth_limit_consume c operation s) \<Longrightarrow>
      global_win (snd (auth_limit_consume c operation s)) \<in> {global_win s, roll (sv_clock s) 60 (global_win s)}"
proof -
  obtain b s1 where b: "burst_test c operation s = (b, s1)" by fastforce
  obtain g s2 where g: "global_test c operation s1 = (g, s2)" by fastforce
  obtain a slot s3 where a: "address_test c operation s2 = (a, slot, s3)" by (metis prod_cases3)
  have s1: "global_win s1 = global_win s" "sv_clock s1 = sv_clock s" "sv_config s1 = sv_config s"
    using test_windows(1) [of c operation s] test_environment(1,2) [of c operation s] b by simp_all
  have s2: "global_win s2 = roll (sv_clock s) 60 (global_win s)" "sv_config s2 = sv_config s"
    "g \<longleftrightarrow> snd (roll (sv_clock s) 60 (global_win s)) < cf_argon2_global_ops_per_minute (sv_config s)"
    using global_test_window [of s1 c operation] test_environment(3) [of c operation s1] assms s1 g by simp_all
  have s3: "global_win s3 = global_win s2" "sv_config s3 = sv_config s2"
    using test_windows(3) [of c operation s2] test_environment(4) [of c operation s2] a by simp_all
  show "fst (auth_limit_consume c operation s) \<Longrightarrow> snd (roll (sv_clock s) 60 (global_win s)) < cf_argon2_global_ops_per_minute (sv_config s) \<and>
      global_win (snd (auth_limit_consume c operation s)) =
        (fst (roll (sv_clock s) 60 (global_win s)), snd (roll (sv_clock s) 60 (global_win s)) + 1)"
    using assms s2 s3 by (auto simp: auth_limit_consume_def Let_def b g a count_work_def prod_eq_iff split: if_splits bool.splits)
  show "\<not> fst (auth_limit_consume c operation s) \<Longrightarrow>
      global_win (snd (auth_limit_consume c operation s)) \<in> {global_win s, roll (sv_clock s) 60 (global_win s)}"
    using assms s1 s2 s3 by (auto simp: auth_limit_consume_def Let_def b g a split: if_splits bool.splits)
qed

lemma consume_burst:
  assumes "cf_argon2_global_burst_per_second (sv_config s) \<noteq> 0"
  shows "fst (auth_limit_consume c operation s) \<Longrightarrow> snd (roll (sv_clock s) 1 (burst_win s)) < cf_argon2_global_burst_per_second (sv_config s) \<and>
      burst_win (snd (auth_limit_consume c operation s)) =
        (fst (roll (sv_clock s) 1 (burst_win s)), snd (roll (sv_clock s) 1 (burst_win s)) + 1)"
    and "\<not> fst (auth_limit_consume c operation s) \<Longrightarrow>
      burst_win (snd (auth_limit_consume c operation s)) \<in> {burst_win s, roll (sv_clock s) 1 (burst_win s)}"
proof -
  obtain b s1 where b: "burst_test c operation s = (b, s1)" by fastforce
  obtain g s2 where g: "global_test c operation s1 = (g, s2)" by fastforce
  obtain a slot s3 where a: "address_test c operation s2 = (a, slot, s3)" by (metis prod_cases3)
  have s1: "burst_win s1 = roll (sv_clock s) 1 (burst_win s)" "sv_config s1 = sv_config s"
    "b \<longleftrightarrow> snd (roll (sv_clock s) 1 (burst_win s)) < cf_argon2_global_burst_per_second (sv_config s)"
    using burst_test_window [OF assms, of c operation] test_environment(1) [of c operation s] b by simp_all
  have s2: "burst_win s2 = burst_win s1" "sv_config s2 = sv_config s1"
    using test_windows(2) [of c operation s1] test_environment(3) [of c operation s1] g by simp_all
  have s3: "burst_win s3 = burst_win s2" "sv_config s3 = sv_config s2"
    using test_windows(4) [of c operation s2] test_environment(4) [of c operation s2] a by simp_all
  show "fst (auth_limit_consume c operation s) \<Longrightarrow> snd (roll (sv_clock s) 1 (burst_win s)) < cf_argon2_global_burst_per_second (sv_config s) \<and>
      burst_win (snd (auth_limit_consume c operation s)) =
        (fst (roll (sv_clock s) 1 (burst_win s)), snd (roll (sv_clock s) 1 (burst_win s)) + 1)"
    using assms s1 s2 s3 by (auto simp: auth_limit_consume_def Let_def b g a count_work_def prod_eq_iff split: if_splits bool.splits)
  show "\<not> fst (auth_limit_consume c operation s) \<Longrightarrow>
      burst_win (snd (auth_limit_consume c operation s)) \<in> {burst_win s, roll (sv_clock s) 1 (burst_win s)}"
    using assms s1 s2 s3 by (auto simp: auth_limit_consume_def Let_def b g a split: if_splits bool.splits)
qed

lemma consume_config: "sv_config (snd (consume_at r s)) = sv_config s"
  using limit_step_fields(2) [OF consume_limit_step] by (simp add: consume_at_def case_prod_beta)

interpretation minute: fixed_window consume_at request_time global_win
    "\<lambda>s. cf_argon2_global_ops_per_minute (sv_config s) = n \<and> n \<noteq> 0" 60 n for n
proof (unfold_locales, goal_cases)
  case (3 s r)
  then show ?case using consume_global(1) [of "s\<lparr>sv_clock := request_time r\<rparr>"] by (simp add: consume_at_def case_prod_beta split: if_splits)
next
  case (4 s r)
  then show ?case using consume_global(2) [of "s\<lparr>sv_clock := request_time r\<rparr>"] by (simp add: consume_at_def case_prod_beta split: if_splits)
qed (simp_all add: consume_config)

interpretation second: fixed_window consume_at request_time burst_win
    "\<lambda>s. cf_argon2_global_burst_per_second (sv_config s) = n \<and> n \<noteq> 0" 1 n for n
proof (unfold_locales, goal_cases)
  case (3 s r)
  then show ?case using consume_burst(1) [of "s\<lparr>sv_clock := request_time r\<rparr>"] by (simp add: consume_at_def case_prod_beta split: if_splits)
next
  case (4 s r)
  then show ?case using consume_burst(2) [of "s\<lparr>sv_clock := request_time r\<rparr>"] by (simp add: consume_at_def case_prod_beta split: if_splits)
qed (simp_all add: consume_config)

subsection \<open>Properties\<close>

text \<open>
  C27: password work is bounded.  Whatever clients ask for password checks, and whatever the limit per address decides, of the requests
  of one second at most the configured burst are admitted, and of the requests of any minute, taken in
  order of time, at most twice the configured number per minute: the windows are fixed, so a minute may meet two of them.
\<close>

theorem password_work_bounded:
  assumes minute: "cf_argon2_global_ops_per_minute (sv_config s) \<noteq> 0" and burst: "cf_argon2_global_burst_per_second (sv_config s) \<noteq> 0"
    and requests: "0 < t" "\<forall>r\<in>set requests. t \<le> request_time r \<and> request_time r < t + 60" "sorted (map request_time requests)"
  shows "fst (decide_all consume_at requests s) \<le> 2 * unat (cf_argon2_global_ops_per_minute (sv_config s)) \<and>
    ((\<forall>r\<in>set requests. request_time r = t) \<longrightarrow>
      fst (decide_all consume_at requests s) \<le> unat (cf_argon2_global_burst_per_second (sv_config s)))"
  using minute.span_bound [of s _ t requests] second.instant_bound [of t s _ requests] assms by simp

theorem password_work_bounded_witness:
  "fst (decide_all consume_at (replicate 10 (0, ''OPER'', 1000)) (server_blank 1 config_blank env_blank)) \<le> 8"
  using password_work_bounded [of "server_blank 1 config_blank env_blank" 1000 "replicate 10 (0, ''OPER'', 1000)"]
  by (simp add: server_blank_def config_blank_def)

end
