(* ===== verification/Operators.thy ===== *)
theory Operators
  imports Auth_Limit Oper_Commands Geoban_Store
begin

section \<open>Operator accounts (src/operator_db.c, src/commands/oper.c, operator_admin.c)\<close>

text \<open>
  The table of operator accounts, the command by which a client becomes an operator, and the commands by which the network administrator
  edits the table.  The rows are keyed by name without regard to case, as the collation of the column demands;
  a row as another program may have left it is checked when it is read.  \<open>None\<close> is the answer \<open>-1\<close> of the functions of the store.
\<close>

subsection \<open>The store\<close>

abbreviation IRCD_OPER_HASH_MAX :: nat where "IRCD_OPER_HASH_MAX \<equiv> 255"

abbreviation IRCD_OPER_FLAGS_MAX :: nat where "IRCD_OPER_FLAGS_MAX \<equiv> 255"

abbreviation IRCD_ARGON2_SALT_BYTES :: nat where "IRCD_ARGON2_SALT_BYTES \<equiv> 16"

definition oper_text_fits :: "string \<Rightarrow> nat \<Rightarrow> bool \<Rightarrow> bool" where
  "oper_text_fits x maximum allow_empty \<longleftrightarrow> length x \<le> maximum \<and> \<not> has_line_break x \<and> (allow_empty \<or> x \<noteq> [])"

definition oper_name_valid :: "string \<Rightarrow> bool" where
  "oper_name_valid name \<longleftrightarrow> oper_text_fits name IRCD_OPER_NAME_MAX False"

definition operator_from_stmt :: "operator_row \<Rightarrow> operator_row option" where
  "operator_from_stmt r =
     (if \<not> stored_text_ok IRCD_OPER_NAME_MAX (op_name r) \<or> \<not> stored_text_ok IRCD_OPER_HASH_MAX (op_password_hash r) \<or>
         \<not> stored_text_ok IRCD_OPER_FLAGS_MAX (op_permissions r) \<or> \<not> stored_text_ok IRC_HOST_MAX (op_vhost r) \<or>
         op_name r = [] \<or> op_password_hash r = []
      then None else Some (r\<lparr>op_enabled := to_int32 (op_enabled r)\<rparr>))"

text \<open>Opening fails for an empty path, for a table that is not there and for one with an overlong virtual host.\<close>

definition operator_db_open :: "server \<Rightarrow> operator_row list option" where
  "operator_db_open s =
     (if cf_operators_db (sv_config s) = [] then None
      else case w_operators (sv_world s) of
             None \<Rightarrow> None
           | Some rows \<Rightarrow> if list_ex (\<lambda>r. length (op_vhost r) > IRC_HOST_MAX) rows then None else Some rows)"

definition operator_db_get :: "string \<Rightarrow> operator_row list \<Rightarrow> operator_row option option" where
  "operator_db_get name rows =
     (if \<not> oper_name_valid name then None
      else case find (\<lambda>r. strcaseeq (op_name r) name) rows of
             None \<Rightarrow> Some None
           | Some r \<Rightarrow> (case operator_from_stmt r of None \<Rightarrow> None | Some record \<Rightarrow> Some (Some record)))"

definition operator_db_add :: "int \<Rightarrow> operator_row \<Rightarrow> operator_row list \<Rightarrow> operator_row list option" where
  "operator_db_add now r rows =
     (if \<not> oper_name_valid (op_name r) \<or> \<not> oper_text_fits (op_password_hash r) IRCD_OPER_HASH_MAX False \<or>
         \<not> oper_text_fits (op_permissions r) IRCD_OPER_FLAGS_MAX True \<or> \<not> oper_text_fits (op_vhost r) IRC_HOST_MAX True
      then None
      else if list_ex (\<lambda>x. strcaseeq (op_name x) (op_name r)) rows then None
      else Some (rows @ [r\<lparr>op_enabled := (if op_enabled r \<noteq> 0 then 1 else 0), op_created_at := now, op_updated_at := now, op_last_opered_at := 0\<rparr>]))"

definition operator_db_delete :: "string \<Rightarrow> operator_row list \<Rightarrow> operator_row list option" where
  "operator_db_delete name rows =
     (if \<not> oper_name_valid name then None
      else if list_ex (\<lambda>r. strcaseeq (op_name r) name) rows
      then Some (filter (\<lambda>r. \<not> strcaseeq (op_name r) name) rows) else None)"

text \<open>An \<open>UPDATE\<close> of the row with the name; without such a row \<open>sqlite3_changes\<close> is zero.\<close>

definition update_operator :: "int \<Rightarrow> string \<Rightarrow> (operator_row \<Rightarrow> operator_row) \<Rightarrow> operator_row list \<Rightarrow> operator_row list option" where
  "update_operator now name f rows =
     (if \<not> oper_name_valid name then None
      else if list_ex (\<lambda>r. strcaseeq (op_name r) name) rows
      then Some (map (\<lambda>r. if strcaseeq (op_name r) name then (f r)\<lparr>op_updated_at := now\<rparr> else r) rows) else None)"

text \<open>A new name that another row has breaks the key, and the statement fails.\<close>

definition operator_db_set_name :: "int \<Rightarrow> string \<Rightarrow> string \<Rightarrow> operator_row list \<Rightarrow> operator_row list option" where
  "operator_db_set_name now name new_name rows =
     (if \<not> oper_text_fits new_name IRCD_OPER_NAME_MAX False then None
      else if list_ex (\<lambda>r. strcaseeq (op_name r) new_name \<and> \<not> strcaseeq (op_name r) name) rows \<and>
              list_ex (\<lambda>r. strcaseeq (op_name r) name) rows then None
      else update_operator now name (\<lambda>r. r\<lparr>op_name := new_name\<rparr>) rows)"

definition operator_db_set_password :: "int \<Rightarrow> string \<Rightarrow> string \<Rightarrow> operator_row list \<Rightarrow> operator_row list option" where
  "operator_db_set_password now name password_hash rows =
     (if \<not> oper_text_fits password_hash IRCD_OPER_HASH_MAX False then None
      else update_operator now name (\<lambda>r. r\<lparr>op_password_hash := password_hash\<rparr>) rows)"

definition operator_db_set_permissions :: "int \<Rightarrow> string \<Rightarrow> string \<Rightarrow> operator_row list \<Rightarrow> operator_row list option" where
  "operator_db_set_permissions now name permissions rows =
     (if \<not> oper_text_fits permissions IRCD_OPER_FLAGS_MAX True then None
      else update_operator now name (\<lambda>r. r\<lparr>op_permissions := permissions\<rparr>) rows)"

definition operator_db_set_vhost :: "int \<Rightarrow> string \<Rightarrow> string \<Rightarrow> operator_row list \<Rightarrow> operator_row list option" where
  "operator_db_set_vhost now name vhost rows =
     (if \<not> oper_text_fits vhost IRC_HOST_MAX True then None
      else update_operator now name (\<lambda>r. r\<lparr>op_vhost := vhost\<rparr>) rows)"

definition operator_db_set_enabled :: "int \<Rightarrow> string \<Rightarrow> bool \<Rightarrow> operator_row list \<Rightarrow> operator_row list option" where
  "operator_db_set_enabled now name enabled rows =
     update_operator now name (\<lambda>r. r\<lparr>op_enabled := (if enabled then 1 else 0)\<rparr>) rows"

definition operator_db_set_last_opered :: "int \<Rightarrow> string \<Rightarrow> int \<Rightarrow> operator_row list \<Rightarrow> operator_row list option" where
  "operator_db_set_last_opered now name at rows =
     (if at \<le> 0 then None else update_operator now name (\<lambda>r. r\<lparr>op_last_opered_at := at\<rparr>) rows)"

fun operator_list_loop :: "(operator_row \<Rightarrow> 'c \<Rightarrow> bool \<times> 'c) \<Rightarrow> operator_row list \<Rightarrow> 'c \<Rightarrow> bool \<times> 'c" where
  "operator_list_loop callback [] context = (True, context)"
| "operator_list_loop callback (row # rows) context =
     (case operator_from_stmt row of
        None \<Rightarrow> (False, context)
      | Some record \<Rightarrow>
          (let (stop, context1) = callback record context
           in if stop then (True, context1) else operator_list_loop callback rows context1))"

definition operator_db_list :: "(operator_row \<Rightarrow> 'c \<Rightarrow> bool \<times> 'c) \<Rightarrow> operator_row list \<Rightarrow> 'c \<Rightarrow> bool \<times> 'c" where
  "operator_db_list callback rows context =
     operator_list_loop callback (order_rows (\<lambda>a b. nocase_le (op_name a) (op_name b)) rows) context"

text \<open>The result of a write becomes the table of the world.\<close>

definition put_operators :: "operator_row list option \<Rightarrow> server \<Rightarrow> bool \<times> server" where
  "put_operators rows s =
     (case rows of None \<Rightarrow> (False, s) | Some x \<Rightarrow> (True, s\<lparr>sv_world := (sv_world s)\<lparr>w_operators := Some x\<rparr>\<rparr>))"

subsection \<open>OPER\<close>

definition netadmin_host_matches :: "client \<Rightarrow> string \<Rightarrow> bool" where
  "netadmin_host_matches cl m =
     (let identity = (\<lambda>host. take (IRCD_MESSAGE_BUFFER_SIZE - 1) (c_nick cl @ ''!'' @ c_user cl @ ''@'' @ host))
      in m \<noteq> [] \<and> (c_real_host cl \<noteq> [] \<and> irc_mask_match m (identity (c_real_host cl)) \<or> irc_mask_match m (identity (c_real_ip cl))))"

definition grant_oper :: "string \<Rightarrow> u64 \<Rightarrow> string \<Rightarrow> client \<Rightarrow> client" where
  "grant_oper name permissions vhost cl =
     (let cl1 = cl\<lparr>c_oper_permissions := permissions, c_oper_name := take IRCD_OPER_NAME_MAX name,
                   c_modes := client_mode_add (c_modes cl) CLIENT_MODE_OPER, c_snotice_mask := SNOTICE_ALL\<rparr>;
          cl2 = (if oper_permission_has permissions OPER_PERMISSION_NETADMIN
                 then cl1\<lparr>c_modes := client_mode_add (c_modes cl1) CLIENT_MODE_NETADMIN\<rparr> else cl1);
          cl3 = (if oper_permission_has permissions OPER_PERMISSION_HELPOP
                 then cl2\<lparr>c_modes := client_mode_add (c_modes cl2) CLIENT_MODE_HELPOP\<rparr> else cl2)
      in if oper_permission_has permissions OPER_PERMISSION_GETHOST \<and> vhost \<noteq> []
         then cl3\<lparr>c_display_host := take IRC_HOST_MAX vhost, c_account_vhost_active := False,
                  c_modes := client_mode_add (client_mode_remove (c_modes cl3) CLIENT_MODE_CLOAKED) CLIENT_MODE_VHOST\<rparr>
         else cl3)"

definition failed_oper :: "cref \<Rightarrow> string \<Rightarrow> string \<Rightarrow> server \<Rightarrow> server" where
  "failed_oper c name why s =
     snotice_broadcast SNOTICE_OPERATORS
       (''Failed OPER: '' @ client_identity (sv_client s c) @ '' [real_ip='' @ c_real_ip (sv_client s c) @ ''] name='' @ name @ '' ('' @ why @ '')'') s"

definition ERR_NOOPERHOST :: "cref \<Rightarrow> server \<Rightarrow> command_result \<times> server" where
  "ERR_NOOPERHOST c s = reply c ''491'' '':No O-lines for your host'' s"

definition ERR_PASSWDMISMATCH_to :: "cref \<Rightarrow> server \<Rightarrow> command_result \<times> server" where
  "ERR_PASSWDMISMATCH_to c s = reply c ''464'' '':Password Incorrect'' s"

definition now_oper :: "cref \<Rightarrow> string \<Rightarrow> u64 \<Rightarrow> string \<Rightarrow> string \<Rightarrow> string \<Rightarrow> server \<Rightarrow> command_result \<times> server" where
  "now_oper c name permissions vhost rank title s =
     (let s1 = upd_client c (grant_oper name permissions vhost) s;
          s2 = snd (reply c ''381'' ('':You are now a'' @ rank) s1); cl = sv_client s2 c
      in (COMMAND_KEEP_CLIENT, snotice_broadcast SNOTICE_OPERATORS
            (''OPER successful: '' @ client_identity cl @ '' [real_ip='' @ c_real_ip cl @ ''] as '' @ title @ c_oper_name cl) s2))"

definition oper_netadmin :: "cref \<Rightarrow> string \<Rightarrow> string \<Rightarrow> server \<Rightarrow> command_result \<times> server" where
  "oper_netadmin c name password s =
     (let cfg = sv_config s
      in if cf_netadmin_password_hash cfg = [] \<or> \<not> netadmin_host_matches (sv_client s c) (cf_netadmin_hostmask cfg)
         then ERR_NOOPERHOST c (failed_oper c name ''host not authorized'' s)
         else case auth_limit_consume c ''OPER netadmin'' s of
                (False, s1) \<Rightarrow> ERR_PASSWDMISMATCH_to c (failed_oper c name ''authentication throttled'' s1)
              | (True, s1) \<Rightarrow>
                  if \<not> w_argon2_verify (sv_world s1) (cf_netadmin_password_hash cfg) password
                  then ERR_PASSWDMISMATCH_to c (failed_oper c name ''bad password'' s1)
                  else now_oper c (cf_netadmin_name cfg) OPER_PERMISSION_ALL (cf_netadmin_vhost cfg)
                         '' Network Administrator'' ''Network Administrator '' s1)"

definition last_opered :: "string \<Rightarrow> server \<Rightarrow> server" where
  "last_opered name s =
     (case operator_db_open s of
        None \<Rightarrow> s
      | Some rows \<Rightarrow> snd (put_operators (operator_db_set_last_opered (sv_clock s) name (sv_clock s) rows) s))"

definition oper_account :: "cref \<Rightarrow> string \<Rightarrow> string \<Rightarrow> server \<Rightarrow> command_result \<times> server" where
  "oper_account c name password s =
     (case operator_db_open s of
        None \<Rightarrow> (COMMAND_KEEP_CLIENT, no_privileges c (failed_oper c name ''operator database unavailable'' s))
      | Some rows \<Rightarrow>
          (case operator_db_get name rows of
             Some (Some record) \<Rightarrow>
               if op_enabled record = 0 then ERR_NOOPERHOST c (failed_oper c name ''unknown or disabled operator'' s)
               else (case auth_limit_consume c ''OPER'' s of
                       (False, s1) \<Rightarrow> ERR_PASSWDMISMATCH_to c (failed_oper c name ''authentication throttled'' s1)
                     | (True, s1) \<Rightarrow>
                         if \<not> w_argon2_verify (sv_world s1) (op_password_hash record) password
                         then ERR_PASSWDMISMATCH_to c (failed_oper c name ''bad password'' s1)
                         else (case oper_permissions_parse (op_permissions record) of
                                 None \<Rightarrow> (COMMAND_KEEP_CLIENT, no_privileges c (failed_oper c name ''invalid stored permissions'' s1))
                               | Some permissions \<Rightarrow>
                                   if oper_permission_has permissions OPER_PERMISSION_NETADMIN
                                   then (COMMAND_KEEP_CLIENT, no_privileges c (failed_oper c name ''invalid stored permissions'' s1))
                                   else now_oper c (op_name record) permissions (op_vhost record) ''n IRC operator'' []
                                          (last_opered (op_name record) s1)))
           | _ \<Rightarrow> ERR_NOOPERHOST c (failed_oper c name ''unknown or disabled operator'' s)))"

definition command_oper :: "cref \<Rightarrow> string option \<Rightarrow> server \<Rightarrow> command_result \<times> server" where
  "command_oper c params = registered_only c (\<lambda>s.
     case nick_and_rest params of
       None \<Rightarrow> ERR_NEEDMOREPARAMS c ''OPER'' s
     | Some (name, rest) \<Rightarrow>
         let password = drop_colon rest
         in if password = [] then ERR_NEEDMOREPARAMS c ''OPER'' s
            else if cf_netadmin_name (sv_config s) \<noteq> [] \<and> strcaseeq name (cf_netadmin_name (sv_config s))
            then oper_netadmin c name password s else oper_account c name password s)"

subsection \<open>OPERADD, OPERDEL, OPERSET and OPERLIST\<close>

definition netadmins_only :: "cref \<Rightarrow> (server \<Rightarrow> command_result \<times> server) \<Rightarrow> server \<Rightarrow> command_result \<times> server" where
  "netadmins_only c body = registered_only c (\<lambda>s.
     if \<not> client_mode_has (c_modes (sv_client s c)) CLIENT_MODE_NETADMIN then (COMMAND_KEEP_CLIENT, no_privileges c s) else body s)"

definition admin_notice :: "cref \<Rightarrow> string \<Rightarrow> server \<Rightarrow> command_result \<times> server" where
  "admin_notice c x s = (COMMAND_KEEP_CLIENT, server_notice_to c x s)"

definition format_admin_time :: "server \<Rightarrow> int \<Rightarrow> string" where
  "format_admin_time s at =
     (if at \<le> 0 then ''never'' else case w_gmtime (sv_world s) at of None \<Rightarrow> ''unknown'' | Some x \<Rightarrow> x)"

text \<open>The salt is filled from as many answers of \<open>getrandom\<close> as it takes.\<close>

fun fill_salt :: "string \<Rightarrow> string option list \<Rightarrow> string option \<times> string option list" where
  "fill_salt salt [] = (if length salt \<ge> IRCD_ARGON2_SALT_BYTES then Some salt else None, [])"
| "fill_salt salt (got # gots) =
     (if length salt \<ge> IRCD_ARGON2_SALT_BYTES then (Some salt, got # gots)
      else case got of
             None \<Rightarrow> (None, gots)
           | Some bytes \<Rightarrow>
               if bytes = [] then (None, gots)
               else fill_salt (salt @ take (IRCD_ARGON2_SALT_BYTES - length salt) bytes) gots)"

definition hash_password :: "string \<Rightarrow> nat \<Rightarrow> server \<Rightarrow> string option \<times> server" where
  "hash_password password maximum s =
     (let (salt, gots) = fill_salt [] (w_salts (sv_world s)); s1 = s\<lparr>sv_world := (sv_world s)\<lparr>w_salts := gots\<rparr>\<rparr>
      in case Option.bind salt (\<lambda>x. w_argon2_hash (sv_world s) x password) of
           None \<Rightarrow> (None, s1)
         | Some encoded \<Rightarrow> (if length encoded > maximum then None else Some encoded, s1))"

definition valid_oper_name :: "server \<Rightarrow> string option \<Rightarrow> bool" where
  "valid_oper_name s name =
     (case name of
        None \<Rightarrow> False
      | Some n \<Rightarrow> n \<noteq> [] \<and> length n \<le> IRCD_OPER_NAME_MAX \<and>
          \<not> (cf_netadmin_name (sv_config s) \<noteq> [] \<and> strcaseeq n (cf_netadmin_name (sv_config s))) \<and>
          list_all (\<lambda>x. isalnum x \<or> x \<in> set ''-_.'') n)"

definition valid_oper_vhost :: "string \<Rightarrow> bool" where
  "valid_oper_vhost host \<longleftrightarrow> length host \<le> IRC_HOST_MAX \<and> list_all (\<lambda>x. isalnum x \<or> x \<in> set ''.-_:'') host"

definition normalized_permissions :: "string \<Rightarrow> string option" where
  "normalized_permissions input =
     (let x = (if input = ''-'' then [] else input)
      in if length x > IRCD_OPER_FLAGS_MAX then None
         else case oper_permissions_parse x of
                None \<Rightarrow> None
              | Some permissions \<Rightarrow> if oper_permission_has permissions OPER_PERMISSION_NETADMIN then None else Some x)"

definition dash_empty :: "string \<Rightarrow> string" where
  "dash_empty x = (if x = ''-'' then [] else x)"

definition add_operator :: "cref \<Rightarrow> string \<Rightarrow> string \<Rightarrow> string \<Rightarrow> string \<Rightarrow> server \<Rightarrow> command_result \<times> server" where
  "add_operator c name password vhost permissions s =
     (case hash_password password IRCD_OPER_HASH_MAX s of
        (None, s1) \<Rightarrow> admin_notice c ''OPERADD failed'' s1
      | (Some encoded, s1) \<Rightarrow>
          (case operator_db_open s1 of
             None \<Rightarrow> admin_notice c ''OPERADD failed'' s1
           | Some rows \<Rightarrow>
               let record = \<lparr>op_name = name, op_password_hash = encoded, op_permissions = permissions, op_vhost = vhost, op_enabled = 1,
                             op_created_at = 0, op_updated_at = 0, op_last_opered_at = 0\<rparr>;
                   (ok, s2) = put_operators (operator_db_add (sv_clock s1) record rows) s1
               in admin_notice c (if ok then ''Operator added'' else ''OPERADD failed (name may already exist)'') s2))"

definition command_operadd :: "cref \<Rightarrow> string option \<Rightarrow> server \<Rightarrow> command_result \<times> server" where
  "command_operadd c params = netadmins_only c (\<lambda>s.
     case params of
       None \<Rightarrow> ERR_NEEDMOREPARAMS c ''OPERADD'' s
     | Some p \<Rightarrow>
         let (name, r1) = tok1 p; (password, r2) = tok1 r1; (vhost, r3) = tok1 r2;
             permissions = Option.bind (map_option drop_colon (tok_rest r3)) normalized_permissions
         in case (name, password, map_option dash_empty vhost, permissions) of
              (Some n, Some pw, Some v, Some perms) \<Rightarrow>
                if valid_oper_name s name \<and> valid_oper_vhost v then add_operator c n pw v perms s
                else admin_notice c ''OPERADD invalid parameters'' s
            | _ \<Rightarrow> admin_notice c ''OPERADD invalid parameters'' s)"

definition command_operdel :: "cref \<Rightarrow> string option \<Rightarrow> server \<Rightarrow> command_result \<times> server" where
  "command_operdel c params = netadmins_only c (\<lambda>s.
     case Option.bind params (strtok '' '') of
       None \<Rightarrow> ERR_NEEDMOREPARAMS c ''OPERDEL'' s
     | Some (name, _) \<Rightarrow>
         let (ok, s1) = put_operators (Option.bind (operator_db_open s) (operator_db_delete name)) s
         in admin_notice c (if ok then ''Operator deleted'' else ''OPERDEL failed'') s1)"

definition set_operator :: "string \<Rightarrow> string \<Rightarrow> string \<Rightarrow> operator_row list \<Rightarrow> server \<Rightarrow> bool \<times> server" where
  "set_operator name field val rows s =
     (if strcaseeq field ''NAME''
      then if valid_oper_name s (Some val) then put_operators (operator_db_set_name (sv_clock s) name val rows) s else (False, s)
      else if strcaseeq field ''PASSWORD''
      then (case hash_password val IRCD_OPER_HASH_MAX s of
              (None, s1) \<Rightarrow> (False, s1)
            | (Some encoded, s1) \<Rightarrow> put_operators (operator_db_set_password (sv_clock s1) name encoded rows) s1)
      else if strcaseeq field ''PERMISSIONS''
      then (case normalized_permissions val of
              None \<Rightarrow> (False, s)
            | Some permissions \<Rightarrow> put_operators (operator_db_set_permissions (sv_clock s) name permissions rows) s)
      else if strcaseeq field ''VHOST''
      then if valid_oper_vhost (dash_empty val) then put_operators (operator_db_set_vhost (sv_clock s) name (dash_empty val) rows) s else (False, s)
      else if strcaseeq field ''ENABLED''
      then if val = ''0'' \<or> val = ''1'' then put_operators (operator_db_set_enabled (sv_clock s) name (val = ''1'') rows) s else (False, s)
      else (False, s))"

definition command_operset :: "cref \<Rightarrow> string option \<Rightarrow> server \<Rightarrow> command_result \<times> server" where
  "command_operset c params = netadmins_only c (\<lambda>s.
     case params of
       None \<Rightarrow> ERR_NEEDMOREPARAMS c ''OPERSET'' s
     | Some p \<Rightarrow>
         let (name, r1) = tok1 p; (field, r2) = tok1 r1
         in case (name, field, map_option drop_colon (tok_rest r2)) of
              (Some n, Some f, Some v) \<Rightarrow>
                if v = [] then ERR_NEEDMOREPARAMS c ''OPERSET'' s
                else (case operator_db_open s of
                        None \<Rightarrow> admin_notice c ''OPERSET failed'' s
                      | Some rows \<Rightarrow>
                          let (ok, s1) = set_operator n f v rows s
                          in admin_notice c (if ok then ''Operator updated'' else ''OPERSET failed'') s1)
            | _ \<Rightarrow> ERR_NEEDMOREPARAMS c ''OPERSET'' s)"

definition list_one :: "cref \<Rightarrow> operator_row \<Rightarrow> server \<Rightarrow> bool \<times> server" where
  "list_one c r s =
     (let line = ''OPER '' @ op_name r @ '' enabled='' @ dec_int (op_enabled r) @
            '' vhost='' @ (if op_vhost r \<noteq> [] then op_vhost r else ''-'') @
            '' permissions='' @ (if op_permissions r \<noteq> [] then op_permissions r else ''-'') @
            '' created='' @ format_admin_time s (op_created_at r) @ '' updated='' @ format_admin_time s (op_updated_at r) @
            '' last_opered='' @ format_admin_time s (op_last_opered_at r);
          s1 = server_notice_to c (take (1024 - 1) line) s
      in (o_overflowed (sv_out s1 c), s1))"

definition command_operlist :: "cref \<Rightarrow> string option \<Rightarrow> server \<Rightarrow> command_result \<times> server" where
  "command_operlist c params = netadmins_only c (\<lambda>s.
     case operator_db_open s of
       None \<Rightarrow> admin_notice c ''OPERLIST failed'' s
     | Some rows \<Rightarrow>
         let s1 = (case Option.bind params (strtok '' '') of
                     Some (name, _) \<Rightarrow>
                       (case operator_db_get name rows of
                          Some (Some record) \<Rightarrow> snd (list_one c record s)
                        | _ \<Rightarrow> server_notice_to c ''No such operator'' s)
                   | None \<Rightarrow>
                       (case operator_db_list (list_one c) rows s of
                          (True, s1) \<Rightarrow> s1
                        | (False, s1) \<Rightarrow> server_notice_to c ''OPERLIST failed'' s1))
         in (COMMAND_KEEP_CLIENT, if o_overflowed (sv_out s1 c) then s1 else server_notice_to c ''End of operator list'' s1))"

subsection \<open>RESTART and DIE\<close>

definition command_restart :: "cref \<Rightarrow> string option \<Rightarrow> server \<Rightarrow> command_result \<times> server" where
  "command_restart c params = permitted OPER_PERMISSION_RESTART c (\<lambda>s.
     let cl = sv_client s c;
         s1 = snotice_broadcast SNOTICE_ADMIN (''RESTART requested by '' @ c_nick cl @ '' from '' @ c_real_ip cl) s
     in (COMMAND_KEEP_CLIENT, (server_notice_to c ''Restarting ScratchIRCd'' s1)\<lparr>sv_restart_requested := True\<rparr>))"

definition command_die :: "cref \<Rightarrow> string option \<Rightarrow> server \<Rightarrow> command_result \<times> server" where
  "command_die c params = permitted OPER_PERMISSION_DIE c (\<lambda>s.
     let cl = sv_client s c;
         s1 = snotice_broadcast SNOTICE_ADMIN (''DIE requested by '' @ c_nick cl @ '' from '' @ c_real_ip cl) s
     in (COMMAND_KEEP_CLIENT,
         (server_notice_to c ''Shutting down ScratchIRCd'' s1)\<lparr>sv_shutdown_requested := True, sv_restart_requested := True\<rparr>))"

subsection \<open>The handlers keep the server\<close>

lemma oper_io [simp, intro!]:
  "io_only s (failed_oper c name why s)" "io_only s (server_notice_to c x s)" "io_only s (snd (admin_notice c x s))"
  "io_only s (snd (ERR_NOOPERHOST c s))" "io_only s (snd (ERR_PASSWDMISMATCH_to c s))"
  by (simp_all add: failed_oper_def server_notice_to_def admin_notice_def ERR_NOOPERHOST_def ERR_PASSWDMISMATCH_to_def)

lemma grant_oper_plain: "plain_update (grant_oper name permissions vhost)"
  by (simp add: plain_update_def grant_oper_def Let_def)

lemma now_oper_keeps: "keeps c s t \<Longrightarrow> keeps c s (snd (now_oper c name permissions vhost rank title t))"
  by (auto simp: now_oper_def Let_def reply_def intro!: keeps_sends keeps_upd_client grant_oper_plain)

lemma put_operators_keeps: "keeps c s t \<Longrightarrow> keeps c s (snd (put_operators rows t))"
  using keeps_fields(8) by (simp add: put_operators_def split: option.split)

lemma last_opered_keeps: "keeps c s t \<Longrightarrow> keeps c s (last_opered name t)"
  using put_operators_keeps by (simp add: last_opered_def split: option.split)

lemma consume_keeps: "keeps c s t \<Longrightarrow> keeps c s (snd (auth_limit_consume d operation t))"
  by (rule limit_step_keeps [OF _ consume_limit_step])

lemmas keeps_oper_io = keeps_io [OF _ oper_io(1)] keeps_io [OF _ oper_io(2)] keeps_io [OF _ oper_io(3)] keeps_io [OF _ oper_io(4)]
  keeps_io [OF _ oper_io(5)] keeps_io [OF _ no_privileges_io]

lemma oper_netadmin_keeps: "keeps c s t \<Longrightarrow> keeps c s (snd (oper_netadmin c name password t))"
  using consume_keeps [of c s t c]
  by (auto simp: oper_netadmin_def Let_def split: prod.split bool.split intro!: keeps_oper_io now_oper_keeps) (metis snd_conv)+

lemma oper_account_keeps: "keeps c s t \<Longrightarrow> keeps c s (snd (oper_account c name password t))"
  using consume_keeps [of c s t c]
  by (auto simp: oper_account_def split: option.split prod.split bool.split intro!: keeps_oper_io now_oper_keeps last_opered_keeps) (metis snd_conv)+

lemma command_oper_keeps: "keeps c s (snd (command_oper c params s))"
  by (auto simp: command_oper_def Let_def replies_keeps intro!: registered_only_keeps oper_netadmin_keeps oper_account_keeps split: option.split)

lemma hash_password_keeps: "keeps c s t \<Longrightarrow> keeps c s (snd (hash_password password maximum t))"
  using keeps_fields(8) by (simp add: hash_password_def Let_def case_prod_beta split: option.split)

lemma netadmins_only_keeps:
  assumes "\<And>t. keeps c t (snd (body t))"
  shows "keeps c s (snd (netadmins_only c body s))"
  unfolding netadmins_only_def by (rule registered_only_keeps) (simp add: assms keeps_io [OF keeps_refl] no_privileges_io)

lemma add_operator_keeps: "keeps c s (snd (add_operator c name password vhost permissions s))"
  using hash_password_keeps [OF keeps_refl, of c s password IRCD_OPER_HASH_MAX]
  by (auto simp: add_operator_def Let_def case_prod_beta split: prod.split option.split intro!: keeps_oper_io put_operators_keeps)

lemma set_operator_keeps: "keeps c s (snd (set_operator name field val rows s))"
  using hash_password_keeps [OF keeps_refl, of c s val IRCD_OPER_HASH_MAX] put_operators_keeps [OF keeps_refl, of c s]
  by (auto simp: set_operator_def split: prod.split option.split intro!: put_operators_keeps)

lemma list_one_io: "io_only s (snd (list_one c r s))"
  by (simp add: list_one_def Let_def)

lemma operator_list_io:
  assumes "\<And>r t. io_only t (snd (callback r t))"
  shows "io_only s (snd (operator_list_loop callback rows s))"
proof (induction rows arbitrary: s)
  case (Cons r rows)
  show ?case using Cons.IH io_only_trans [OF assms Cons.IH] assms by (auto simp: Let_def case_prod_beta split: option.split)
qed simp

lemma operator_admin_keeps:
  "keeps c s (snd (command_operadd c params s))" "keeps c s (snd (command_operdel c params s))"
  "keeps c s (snd (command_operset c params s))"
  unfolding command_operadd_def command_operdel_def command_operset_def
  by (rule netadmins_only_keeps;
      auto simp: Let_def case_prod_beta replies_keeps add_operator_keeps set_operator_keeps put_operators_keeps split: option.split intro!: keeps_oper_io(3))+

lemma command_operlist_keeps: "keeps c s (snd (command_operlist c params s))"
proof -
  have list: "io_only t (snd (operator_db_list (list_one c) rows t))" for rows t
    unfolding operator_db_list_def by (rule operator_list_io) (rule list_one_io)
  have ended: "io_only t (case operator_db_list (list_one c) rows t of (True, s1) \<Rightarrow> s1 | (False, s1) \<Rightarrow> server_notice_to c ''OPERLIST failed'' s1)" for rows t
    using list [of t rows] io_only_trans [OF list oper_io(2)] by (simp add: case_prod_beta split: bool.split)
  show ?thesis
    unfolding command_operlist_def
    by (rule netadmins_only_keeps)
       (auto simp: Let_def keeps_io [OF keeps_refl ended] keeps_io [OF keeps_refl list_one_io] keeps_io [OF keeps_refl oper_io(2)]
          keeps_io [OF keeps_refl oper_io(3)] split: option.split intro!: keeps_oper_io(2))
qed

lemma restart_keeps: "keeps c s (snd (command_restart c params s))" "keeps c s (snd (command_die c params s))"
  unfolding command_restart_def command_die_def
  by (rule permitted_keeps; auto simp: Let_def intro!: keeps_fields(10,11) keeps_oper_io(2) keeps_sends)+

subsection \<open>Who becomes an operator\<close>

text \<open>The clients as a refusal leaves them.\<close>

definition clients_same :: "server \<Rightarrow> server \<Rightarrow> bool" where
  "clients_same s t \<longleftrightarrow> sv_client t = sv_client s"

lemma clients_same_io: "clients_same s t \<Longrightarrow> io_only t u \<Longrightarrow> clients_same s u"
  by (simp add: clients_same_def io_fields(4))

lemma clients_same_refused:
  assumes "clients_same s t"
  shows "clients_same s (snd (ERR_NOOPERHOST c (failed_oper c name why t)))"
    and "clients_same s (snd (ERR_PASSWDMISMATCH_to c (failed_oper c name why t)))"
    and "clients_same s (no_privileges c (failed_oper c name why t))"
    and "clients_same s (snd (ERR_NEEDMOREPARAMS c cmd t))"
  using clients_same_io [OF clients_same_io [OF assms oper_io(1)] oper_io(4)]
    clients_same_io [OF clients_same_io [OF assms oper_io(1)] oper_io(5)]
    clients_same_io [OF clients_same_io [OF assms oper_io(1)] no_privileges_io] clients_same_io [OF assms]
  by (simp_all add: ERR_NEEDMOREPARAMS_def reply_def)

lemma now_oper_clients:
  "sv_client (snd (now_oper c name permissions vhost rank title s)) = (sv_client s)(c := grant_oper name permissions vhost (sv_client s c))"
  by (simp add: now_oper_def Let_def reply_def io_fields(4) [OF snotice_broadcast_io] io_fields(4) [OF sendf_io] upd_client_def)

lemma last_opered_clients: "sv_client (last_opered name s) = sv_client s"
  by (simp add: last_opered_def put_operators_def split: option.split)

text \<open>What the name and the password prove.\<close>

definition netadmin_proved :: "server \<Rightarrow> cref \<Rightarrow> string \<Rightarrow> string \<Rightarrow> bool" where
  "netadmin_proved s c name password \<longleftrightarrow>
     cf_netadmin_name (sv_config s) \<noteq> [] \<and> strcaseeq name (cf_netadmin_name (sv_config s)) \<and>
     netadmin_host_matches (sv_client s c) (cf_netadmin_hostmask (sv_config s)) \<and>
     w_argon2_verify (sv_world s) (cf_netadmin_password_hash (sv_config s)) password"

definition account_proved :: "server \<Rightarrow> operator_row \<Rightarrow> string \<Rightarrow> string \<Rightarrow> bool" where
  "account_proved s row name password \<longleftrightarrow>
     w_operators (sv_world s) \<noteq> None \<and> row \<in> set (the (w_operators (sv_world s))) \<and> strcaseeq (op_name row) name \<and>
     to_int32 (op_enabled row) \<noteq> 0 \<and> w_argon2_verify (sv_world s) (op_password_hash row) password"

lemma oper_netadmin_clients:
  assumes "cf_netadmin_name (sv_config s) \<noteq> []" "strcaseeq name (cf_netadmin_name (sv_config s))"
  shows "clients_same s (snd (oper_netadmin c name password s)) \<or> netadmin_proved s c name password \<and>
    sv_client (snd (oper_netadmin c name password s)) =
      (sv_client s)(c := grant_oper (cf_netadmin_name (sv_config s)) OPER_PERMISSION_ALL (cf_netadmin_vhost (sv_config s)) (sv_client s c))"
proof -
  obtain b s1 where l: "auth_limit_consume c ''OPER netadmin'' s = (b, s1)" by fastforce
  have "limit_step s s1" using consume_limit_step [of s c "''OPER netadmin''"] l by simp
  note same = limit_step_fields [OF this]
  have s1: "clients_same s s1" using same(1) by (simp add: clients_same_def)
  have refl: "clients_same s s" by (simp add: clients_same_def)
  show ?thesis
    using clients_same_refused [OF s1] clients_same_refused [OF refl] assms
    by (cases b) (simp_all add: oper_netadmin_def Let_def l same now_oper_clients netadmin_proved_def)
qed

lemma operator_db_get_row:
  assumes "operator_db_get name rows = Some (Some record)"
  shows "\<exists>row\<in>set rows. strcaseeq (op_name row) name \<and> record = row\<lparr>op_enabled := to_int32 (op_enabled row)\<rparr>"
  using assms by (auto simp: operator_db_get_def operator_from_stmt_def find_Some_iff split: option.splits if_splits intro: nth_mem)

lemma oper_account_clients:
  "clients_same s (snd (oper_account c name password s)) \<or>
   (\<exists>row permissions. account_proved s row name password \<and> oper_permissions_parse (op_permissions row) = Some permissions \<and>
      \<not> oper_permission_has permissions OPER_PERMISSION_NETADMIN \<and>
      sv_client (snd (oper_account c name password s)) = (sv_client s)(c := grant_oper (op_name row) permissions (op_vhost row) (sv_client s c)))"
proof -
  obtain b s1 where l: "auth_limit_consume c ''OPER'' s = (b, s1)" by fastforce
  have "limit_step s s1" using consume_limit_step [of s c "''OPER''"] l by simp
  note same = limit_step_fields [OF this]
  have s1: "clients_same s s1" using same(1) by (simp add: clients_same_def)
  have refl: "clients_same s s" by (simp add: clients_same_def)
  note refusals = clients_same_refused [OF s1] clients_same_refused [OF refl]
  show ?thesis
  proof (cases "\<exists>rows record. operator_db_open s = Some rows \<and> operator_db_get name rows = Some (Some record) \<and> op_enabled record \<noteq> 0 \<and> b \<and>
      w_argon2_verify (sv_world s) (op_password_hash record) password")
    case True
    then obtain rows r where o: "operator_db_open s = Some rows" "operator_db_get name rows = Some (Some r)" "op_enabled r \<noteq> 0" b
      "w_argon2_verify (sv_world s) (op_password_hash r) password" by blast
    obtain row where row: "row \<in> set rows" "strcaseeq (op_name row) name" "r = row\<lparr>op_enabled := to_int32 (op_enabled row)\<rparr>"
      using operator_db_get_row [OF o(2)] by blast
    have "account_proved s row name password"
      using o row by (auto simp: account_proved_def operator_db_open_def split: if_splits option.splits)
    then show ?thesis
      using o l refusals row(3)
      by (auto simp: oper_account_def same now_oper_clients last_opered_clients split: option.split)
  next
    case False
    then show ?thesis
      using l refusals by (cases b) (auto simp: oper_account_def same split: option.split)
  qed
qed

subsection \<open>Properties\<close>

text \<open>
  C6: nobody becomes an operator without the password.  If OPER changes the record of any client, it is the client that sent it, and
  either the name is that of the network administrator of the configuration, the address matches the configured
  mask and the password has been verified against the configured hash; or the table has an enabled account of that name, the password has
  been verified against the hash of that account, and exactly the permissions stored there are granted,
  which never include those of a network administrator.
\<close>

theorem oper_needs_password:
  assumes "sv_client (snd (command_oper c params s)) d \<noteq> sv_client s d"
  shows "d = c \<and> (\<exists>name rest. nick_and_rest params = Some (name, rest) \<and>
    (netadmin_proved s c name (drop_colon rest) \<and>
       sv_client (snd (command_oper c params s)) c =
         grant_oper (cf_netadmin_name (sv_config s)) OPER_PERMISSION_ALL (cf_netadmin_vhost (sv_config s)) (sv_client s c) \<or>
     (\<exists>row permissions. account_proved s row name (drop_colon rest) \<and> oper_permissions_parse (op_permissions row) = Some permissions \<and>
        \<not> oper_permission_has permissions OPER_PERMISSION_NETADMIN \<and>
        sv_client (snd (command_oper c params s)) c = grant_oper (op_name row) permissions (op_vhost row) (sv_client s c))))"
proof -
  have refl: "clients_same s s" by (simp add: clients_same_def)
  have changed: "\<not> clients_same s (snd (command_oper c params s))" using assms by (auto simp: clients_same_def)
  then have reg: "command_oper c params s = (case nick_and_rest params of
       None \<Rightarrow> ERR_NEEDMOREPARAMS c ''OPER'' s
     | Some (name, rest) \<Rightarrow>
         let password = drop_colon rest
         in if password = [] then ERR_NEEDMOREPARAMS c ''OPER'' s
            else if cf_netadmin_name (sv_config s) \<noteq> [] \<and> strcaseeq name (cf_netadmin_name (sv_config s))
            then oper_netadmin c name password s else oper_account c name password s)"
    using clients_same_io [OF refl] by (auto simp: command_oper_def registered_only_def command_require_registered_def reply_def split: if_splits)
  then obtain name rest where p: "nick_and_rest params = Some (name, rest)" "drop_colon rest \<noteq> []"
    using changed clients_same_refused(4) [OF refl] by (auto simp: Let_def split: option.splits if_splits)
  show ?thesis
  proof (cases "cf_netadmin_name (sv_config s) \<noteq> [] \<and> strcaseeq name (cf_netadmin_name (sv_config s))")
    case True
    then show ?thesis using oper_netadmin_clients [of s name c "drop_colon rest"] changed assms reg p by (auto split: if_splits)
  next
    case False
    then have "command_oper c params s = oper_account c name (drop_colon rest) s" using False reg p by (auto simp: Let_def)
    then show ?thesis using oper_account_clients [of s c name "drop_colon rest"] changed assms p by (auto split: if_splits)
  qed
qed

definition oper_example_row :: operator_row where
  "oper_example_row = \<lparr>op_name = ''Root'', op_password_hash = ''h'', op_permissions = ''can_kill'', op_vhost = [], op_enabled = 1,
     op_created_at = 1, op_updated_at = 1, op_last_opered_at = 0\<rparr>"

definition oper_example :: server where
  "oper_example = example_room\<lparr>
     sv_config := config_blank\<lparr>cf_argon2_ops_per_ip := 0, cf_argon2_global_ops_per_minute := 0, cf_argon2_global_burst_per_second := 0\<rparr>,
     sv_world := world_blank\<lparr>
       w_operators := Some [oper_example_row],
       w_argon2_verify := (\<lambda>h p. h = ''h'' \<and> p = ''secret'')\<rparr>\<rparr>"

theorem oper_needs_password_witness:
  "\<exists>row permissions. account_proved oper_example row ''root'' ''secret'' \<and> oper_permissions_parse (op_permissions row) = Some permissions \<and>
     sv_client (snd (command_oper 0 (Some ''root :secret'') oper_example)) 0 = grant_oper (op_name row) permissions (op_vhost row) (sv_client oper_example 0)"
proof -
  have words: "nick_and_rest (Some ''root :secret'') = Some (''root'', '':secret'')" by code_simp
  have parse: "oper_permissions_parse ''can_kill'' = Some OPER_PERMISSION_KILL" by code_simp
  have kill: "\<not> oper_permission_has OPER_PERMISSION_KILL OPER_PERMISSION_NETADMIN" by code_simp
  have found: "operator_db_open oper_example = Some [oper_example_row]" "operator_db_get ''root'' [oper_example_row] = Some (Some oper_example_row)"
    by (simp add: operator_db_open_def oper_example_def config_blank_def oper_example_row_def) code_simp
  have limits: "auth_limit_consume 0 ''OPER'' oper_example = (True, oper_example)"
    by (simp add: auth_limit_consume_def oper_example_def)
  have verified: "w_argon2_verify (sv_world oper_example) (op_password_hash oper_example_row) ''secret''" "op_permissions oper_example_row = ''can_kill''"
    "op_enabled oper_example_row = 1" "c_registered (sv_client oper_example 0)" "cf_netadmin_name (sv_config oper_example) = []"
    by (simp_all add: oper_example_def oper_example_row_def config_blank_def)
  have "c_oper_permissions (sv_client (snd (command_oper 0 (Some ''root :secret'') oper_example)) 0) = OPER_PERMISSION_KILL"
    by (simp add: command_oper_def registered_only_def command_require_registered_def words drop_colon_def starts_with_def oper_account_def found
        limits verified parse kill now_oper_clients last_opered_clients) (simp add: grant_oper_def Let_def oper_example_def config_blank_def example_client_def)
  then have "sv_client (snd (command_oper 0 (Some ''root :secret'') oper_example)) 0 \<noteq> sv_client oper_example 0"
    by (auto simp: oper_example_def example_client_def client_zero_def OPER_PERMISSION_KILL_def)
  from oper_needs_password [OF this] words show ?thesis by (auto simp: netadmin_proved_def oper_example_def config_blank_def drop_colon_def starts_with_def)
qed

subsection \<open>The table the administrator edits\<close>

abbreviation oper_key :: "operator_row \<Rightarrow> string" where
  "oper_key r \<equiv> map ascii_lower (op_name r)"

text \<open>One row per name, and no row with the permissions of a network administrator or with a virtual host that would keep the table from opening.\<close>

definition row_sound :: "operator_row \<Rightarrow> bool" where
  "row_sound r \<longleftrightarrow> length (op_vhost r) \<le> IRC_HOST_MAX \<and>
     (case oper_permissions_parse (op_permissions r) of None \<Rightarrow> False | Some p \<Rightarrow> \<not> oper_permission_has p OPER_PERMISSION_NETADMIN)"

definition rows_sound :: "operator_row list \<Rightarrow> bool" where
  "rows_sound rows \<longleftrightarrow> distinct (map oper_key rows) \<and> list_all row_sound rows"

definition operators_sound :: "server \<Rightarrow> bool" where
  "operators_sound s \<longleftrightarrow>
     (case w_operators (sv_world s) of None \<Rightarrow> True | Some rows \<Rightarrow> rows_sound rows)"

lemma normalized_sound: "normalized_permissions x = Some p \<Longrightarrow> length v \<le> IRC_HOST_MAX \<Longrightarrow> row_sound (r\<lparr>op_permissions := p, op_vhost := v\<rparr>)"
  by (auto simp: normalized_permissions_def row_sound_def Let_def split: if_splits option.splits)

lemma distinct_map_keys:
  assumes "distinct (map oper_key rows)" "\<And>r. r \<in> set rows \<Longrightarrow> strcaseeq (op_name r) name \<Longrightarrow> oper_key (f r) = k"
    and "\<And>r. r \<in> set rows \<Longrightarrow> \<not> strcaseeq (op_name r) name \<Longrightarrow> oper_key r \<noteq> k"
  shows "distinct (map (\<lambda>r. oper_key (if strcaseeq (op_name r) name then f r else r)) rows)"
proof -
  have keys: "distinct rows" "inj_on oper_key (set rows)" using assms(1) by (simp_all add: distinct_map)
  have "a = b" if "a \<in> set rows" "b \<in> set rows"
    "oper_key (if strcaseeq (op_name a) name then f a else a) = oper_key (if strcaseeq (op_name b) name then f b else b)" for a b
  proof (cases "strcaseeq (op_name a) name = strcaseeq (op_name b) name")
    case True
    then have "oper_key a = oper_key b" using that(3) by (cases "strcaseeq (op_name a) name") (simp_all add: strcaseeq_def)
    then show ?thesis using keys(2) that(1,2) by (simp add: inj_on_def)
  next
    case False
    then show ?thesis using that assms(2,3) by (cases "strcaseeq (op_name a) name") (metis that)+
  qed
  then show ?thesis using keys(1) by (auto simp: distinct_map inj_on_def)
qed

lemma update_operator_sound:
  assumes "rows_sound rows" "update_operator now name f rows = Some rows'"
    and "\<And>r. row_sound r \<Longrightarrow> row_sound (f r)"
    and "\<And>r. strcaseeq (op_name r) name \<Longrightarrow> oper_key (f r) = k"
    and "\<And>r. r \<in> set rows \<Longrightarrow> \<not> strcaseeq (op_name r) name \<Longrightarrow> oper_key r \<noteq> k"
  shows "rows_sound rows'"
proof -
  have rows': "rows' = map (\<lambda>r. if strcaseeq (op_name r) name then (f r)\<lparr>op_updated_at := now\<rparr> else r) rows"
    using assms(2) by (auto simp: update_operator_def split: if_splits)
  have "map oper_key rows' = map (\<lambda>r. oper_key (if strcaseeq (op_name r) name then f r else r)) rows"
    unfolding rows' by simp
  moreover have "distinct \<dots>" by (rule distinct_map_keys [where k = k]) (use assms in \<open>auto simp: rows_sound_def\<close>)
  moreover have "row_sound ((f r)\<lparr>op_updated_at := now\<rparr>)" if "row_sound r" for r
    using assms(3) [OF that] by (simp add: row_sound_def)
  then have "list_all row_sound rows'" using assms(1) unfolding rows' by (auto simp: list_all_iff rows_sound_def)
  ultimately show ?thesis by (simp add: rows_sound_def)
qed

lemma update_fixed_sound:
  assumes "rows_sound rows" "update_operator now name f rows = Some rows'"
    and "\<And>r. row_sound r \<Longrightarrow> row_sound (f r)" "\<And>r. op_name (f r) = op_name r"
  shows "rows_sound rows'"
  by (rule update_operator_sound [OF assms(1,2,3), where k = "map ascii_lower name"]) (auto simp: assms(4) strcaseeq_def)

lemma store_sound:
  assumes "rows_sound rows"
  shows "operator_db_add now r rows = Some rows' \<Longrightarrow> row_sound r \<Longrightarrow> rows_sound rows'"
    and "operator_db_delete name rows = Some rows' \<Longrightarrow> rows_sound rows'"
    and "operator_db_set_name now name x rows = Some rows' \<Longrightarrow> rows_sound rows'"
    and "operator_db_set_password now name x rows = Some rows' \<Longrightarrow> rows_sound rows'"
    and "operator_db_set_permissions now name x rows = Some rows' \<Longrightarrow> normalized_permissions y = Some x \<Longrightarrow> rows_sound rows'"
    and "operator_db_set_vhost now name x rows = Some rows' \<Longrightarrow> rows_sound rows'"
    and "operator_db_set_enabled now name b rows = Some rows' \<Longrightarrow> rows_sound rows'"
    and "operator_db_set_last_opered now name t rows = Some rows' \<Longrightarrow> rows_sound rows'"
proof -
  note fixed = update_fixed_sound [OF assms]
  show "operator_db_add now r rows = Some rows' \<Longrightarrow> row_sound r \<Longrightarrow> rows_sound rows'"
    using assms by (auto simp: rows_sound_def operator_db_add_def row_sound_def strcaseeq_def list_ex_iff split: if_splits) metis+
  show "operator_db_delete name rows = Some rows' \<Longrightarrow> rows_sound rows'"
    using assms by (auto simp: rows_sound_def operator_db_delete_def list_all_iff distinct_map inj_on_def split: if_splits)
  show "operator_db_set_name now name x rows = Some rows' \<Longrightarrow> rows_sound rows'"
  proof -
    assume h: "operator_db_set_name now name x rows = Some rows'"
    then have upd: "update_operator now name (\<lambda>r. r\<lparr>op_name := x\<rparr>) rows = Some rows'"
      by (auto simp: operator_db_set_name_def split: if_splits)
    have free: "oper_key r \<noteq> map ascii_lower x" if "r \<in> set rows" "\<not> strcaseeq (op_name r) name" for r
      using h that by (auto simp: operator_db_set_name_def update_operator_def strcaseeq_def list_ex_iff split: if_splits)
    show "rows_sound rows'"
      by (rule update_operator_sound [OF assms upd, where k = "map ascii_lower x"]) (use free in \<open>auto simp: row_sound_def\<close>)
  qed
  show "operator_db_set_password now name x rows = Some rows' \<Longrightarrow> rows_sound rows'"
    using fixed [of now name "\<lambda>r. r\<lparr>op_password_hash := x\<rparr>" rows'] by (simp add: operator_db_set_password_def row_sound_def split: if_splits)
  show "operator_db_set_permissions now name x rows = Some rows' \<Longrightarrow> normalized_permissions y = Some x \<Longrightarrow> rows_sound rows'"
    using fixed [of now name "\<lambda>r. r\<lparr>op_permissions := x\<rparr>" rows'] normalized_sound [of y x "[]"]
    by (simp add: operator_db_set_permissions_def row_sound_def split: if_splits)
  show "operator_db_set_vhost now name x rows = Some rows' \<Longrightarrow> rows_sound rows'"
    using fixed [of now name "\<lambda>r. r\<lparr>op_vhost := x\<rparr>" rows'] by (simp add: operator_db_set_vhost_def oper_text_fits_def row_sound_def split: if_splits)
  show "operator_db_set_enabled now name b rows = Some rows' \<Longrightarrow> rows_sound rows'"
    using fixed [of now name "\<lambda>r. r\<lparr>op_enabled := (if b then 1 else 0)\<rparr>" rows'] by (simp add: operator_db_set_enabled_def row_sound_def)
  show "operator_db_set_last_opered now name t rows = Some rows' \<Longrightarrow> rows_sound rows'"
    using fixed [of now name "\<lambda>r. r\<lparr>op_last_opered_at := t\<rparr>" rows'] by (simp add: operator_db_set_last_opered_def row_sound_def split: if_splits)
qed

text \<open>A command that edits the table writes what the store gives.\<close>

lemma sound_io: "io_only s t \<Longrightarrow> operators_sound t = operators_sound s"
  by (simp add: operators_sound_def io_fields)

lemma put_operators_sound:
  assumes "operators_sound s" "\<And>rows'. x = Some rows' \<Longrightarrow> rows_sound rows'"
  shows "operators_sound (snd (put_operators x s))"
  using assms by (auto simp: put_operators_def operators_sound_def split: option.split)

lemma open_sound: "operators_sound s \<Longrightarrow> operator_db_open s = Some rows \<Longrightarrow> rows_sound rows"
  by (auto simp: operators_sound_def operator_db_open_def split: option.splits if_splits)

lemma hash_password_sound: "operators_sound (snd (hash_password password maximum s)) = operators_sound s"
proof -
  have "w_operators (sv_world (snd (hash_password password maximum s))) = w_operators (sv_world s)"
    by (simp add: hash_password_def Let_def case_prod_beta split: option.split)
  then show ?thesis by (simp add: operators_sound_def)
qed

lemma guards_sound:
  assumes "\<And>t. operators_sound t \<Longrightarrow> operators_sound (snd (body t))" "operators_sound s"
  shows "operators_sound (snd (registered_only c body s))" and "operators_sound (snd (netadmins_only c body s))"
  using assms sound_io [OF no_privileges_io] sound_io [OF sendf_io]
  by (simp_all add: netadmins_only_def registered_only_def command_require_registered_def reply_def)

lemma replies_sound:
  "operators_sound (snd (admin_notice c x s)) = operators_sound s" "operators_sound (snd (ERR_NEEDMOREPARAMS c cmd s)) = operators_sound s"
  "operators_sound (server_notice_to c x s) = operators_sound s" "operators_sound (failed_oper c name why s) = operators_sound s"
  "operators_sound (no_privileges c s) = operators_sound s" "operators_sound (snd (ERR_NOOPERHOST c s)) = operators_sound s"
  "operators_sound (snd (ERR_PASSWDMISMATCH_to c s)) = operators_sound s"
  by (simp_all add: sound_io [OF oper_io(1)] sound_io [OF oper_io(2)] sound_io [OF oper_io(3)] sound_io [OF oper_io(4)] sound_io [OF oper_io(5)]
      sound_io [OF no_privileges_io] ERR_NEEDMOREPARAMS_def reply_def sound_io [OF sendf_io])

lemma add_operator_sound:
  assumes "operators_sound s" "length vhost \<le> IRC_HOST_MAX" "normalized_permissions y = Some permissions"
  shows "operators_sound (snd (add_operator c name password vhost permissions s))"
proof -
  obtain encoded s1 where h: "hash_password password IRCD_OPER_HASH_MAX s = (encoded, s1)" by fastforce
  have s1: "operators_sound s1" using hash_password_sound [of password IRCD_OPER_HASH_MAX s] h assms(1) by simp
  have sound: "row_sound \<lparr>op_name = name, op_password_hash = x, op_permissions = permissions, op_vhost = vhost, op_enabled = 1,
      op_created_at = 0, op_updated_at = 0, op_last_opered_at = 0\<rparr>" for x
    using normalized_sound [OF assms(3,2)] by (simp add: row_sound_def)
  show ?thesis
    using s1 put_operators_sound [OF s1 store_sound(1) [OF open_sound [OF s1] _ sound]]
    by (auto simp: add_operator_def h Let_def case_prod_beta replies_sound split: option.split)
qed

lemma set_operator_sound:
  assumes "operators_sound s" "rows_sound rows"
  shows "operators_sound (snd (set_operator name field val rows s))"
proof -
  obtain encoded s1 where h: "hash_password val IRCD_OPER_HASH_MAX s = (encoded, s1)" by fastforce
  have s1: "operators_sound s1" using hash_password_sound [of val IRCD_OPER_HASH_MAX s] h assms(1) by simp
  show ?thesis
    using assms(1) s1 put_operators_sound [OF assms(1) store_sound(3) [OF assms(2)]] put_operators_sound [OF s1 store_sound(4) [OF assms(2)]]
      put_operators_sound [OF assms(1) store_sound(5) [OF assms(2)]] put_operators_sound [OF assms(1) store_sound(6) [OF assms(2)]]
      put_operators_sound [OF assms(1) store_sound(7) [OF assms(2)]]
    by (simp add: set_operator_def h split: option.split)
qed

lemma last_opered_sound: "operators_sound s \<Longrightarrow> operators_sound (last_opered name s)"
  using put_operators_sound store_sound(8) [OF open_sound] by (auto simp: last_opered_def split: option.split)

lemma limit_step_sound: "limit_step s t \<Longrightarrow> operators_sound t = operators_sound s"
  by (simp add: operators_sound_def limit_step_fields)

lemma now_oper_sound: "operators_sound (snd (now_oper c name permissions vhost rank title s)) = operators_sound s"
  by (simp add: now_oper_def Let_def reply_def sound_io [OF snotice_broadcast_io] sound_io [OF sendf_io]) (simp add: operators_sound_def upd_client_def)

lemma oper_sound:
  assumes "operators_sound s"
  shows "operators_sound (snd (oper_netadmin c name password s))" "operators_sound (snd (oper_account c name password s))"
proof -
  have l: "operators_sound (snd (auth_limit_consume c x s))" for x
    using limit_step_sound [OF consume_limit_step] assms by simp
  show "operators_sound (snd (oper_netadmin c name password s))"
    using assms l [of "''OPER netadmin''"] by (auto simp: oper_netadmin_def Let_def replies_sound now_oper_sound split: prod.split bool.split)
  show "operators_sound (snd (oper_account c name password s))"
    using assms l [of "''OPER''"]
    by (auto simp: oper_account_def replies_sound now_oper_sound last_opered_sound split: prod.split bool.split option.split)
qed

text \<open>
  C28: the operator accounts stay sound.  OPERADD, OPERDEL, OPERSET and OPER keep one row for each name without regard to case,
  also when an account is renamed, and they never write a row that carries the permissions of a network administrator, an unknown permission or a
  virtual host that would keep the table from being opened.
\<close>

theorem operator_accounts_stay_sound:
  assumes "operators_sound s"
  shows "operators_sound (snd (command_operadd c params s)) \<and> operators_sound (snd (command_operdel c params s)) \<and>
    operators_sound (snd (command_operset c params s)) \<and> operators_sound (snd (command_oper c params s))"
proof (intro conjI)
  show "operators_sound (snd (command_operadd c params s))"
    unfolding command_operadd_def
    by (rule guards_sound(2) [OF _ assms])
       (auto simp: Let_def case_prod_beta replies_sound valid_oper_vhost_def split: option.split intro!: add_operator_sound dest!: bind_eq_Some_conv [THEN iffD1])
  show "operators_sound (snd (command_operdel c params s))"
    unfolding command_operdel_def
    by (rule guards_sound(2) [OF _ assms])
       (auto simp: Let_def case_prod_beta replies_sound bind_eq_Some_conv split: option.split intro!: put_operators_sound dest: store_sound(2) [OF open_sound])
  show "operators_sound (snd (command_operset c params s))"
    unfolding command_operset_def
    by (rule guards_sound(2) [OF _ assms])
       (auto simp: Let_def case_prod_beta replies_sound split: option.split intro!: set_operator_sound open_sound)
  show "operators_sound (snd (command_oper c params s))"
    unfolding command_oper_def
    by (rule guards_sound(1) [OF _ assms]) (auto simp: Let_def replies_sound oper_sound split: option.split)
qed

theorem operator_accounts_stay_sound_witness:
  "operators_sound (snd (command_operset 0 (Some ''root NAME admin'') oper_example)) \<and>
   operators_sound (snd (command_operadd 0 (Some ''second pw - :can_kill'') oper_example))"
proof -
  have "row_sound oper_example_row" by code_simp
  then have "operators_sound oper_example" by (simp add: operators_sound_def rows_sound_def oper_example_def)
  from operator_accounts_stay_sound [OF this] show ?thesis by simp
qed

end
