(* ===== verification/NickServ_Store.thy ===== *)
theory NickServ_Store
  imports Operators
begin

section \<open>The accounts of NickServ (src/nickserv_db.c)\<close>

text \<open>
  The table of registered accounts, keyed by name without regard to case.  \<open>None\<close> is the answer \<open>-1\<close> of the functions of the store.
  The services keep a connection open between commands; the model opens the table anew each time, which differs only if another
  program writes an overlong virtual host in between.
\<close>

abbreviation IRCD_EMAIL_MAX :: nat where "IRCD_EMAIL_MAX \<equiv> 254"

abbreviation IRCD_TOKEN_HASH_HEX_LEN :: nat where "IRCD_TOKEN_HASH_HEX_LEN \<equiv> 64"

abbreviation IRCD_NICKSERV_ACCOUNT_HARD_MAX :: nat where "IRCD_NICKSERV_ACCOUNT_HARD_MAX \<equiv> 100000"

subsection \<open>Statements\<close>

definition account_name_valid :: "string \<Rightarrow> bool" where
  "account_name_valid name \<longleftrightarrow> oper_text_fits name IRC_NICK_MAX False"

definition account_from_stmt :: "account_row \<Rightarrow> account_row option" where
  "account_from_stmt r =
     (if \<not> stored_text_ok IRC_NICK_MAX (ac_name r) \<or> \<not> stored_text_ok IRCD_OPER_HASH_MAX (ac_password_hash r) \<or>
         \<not> stored_text_ok IRC_HOST_MAX (ac_vhost r) \<or> \<not> stored_text_ok IRCD_EMAIL_MAX (ac_email r) \<or>
         \<not> stored_text_ok IRCD_EMAIL_MAX (ac_pending_email r) \<or> \<not> stored_text_ok IRCD_TOKEN_HASH_HEX_LEN (ac_email_verify_token_hash r) \<or>
         \<not> stored_text_ok IRCD_TOKEN_HASH_HEX_LEN (ac_reset_token_hash r) \<or> ac_name r = [] \<or> ac_password_hash r = []
      then None
      else Some (r\<lparr>ac_enabled := to_int32 (ac_enabled r), ac_email_verified := to_int32 (ac_email_verified r)\<rparr>))"

definition nickserv_db_open :: "server \<Rightarrow> account_row list option" where
  "nickserv_db_open s =
     (if cf_nickserv_db (sv_config s) = [] then None
      else case w_accounts (sv_world s) of
             None \<Rightarrow> None
           | Some rows \<Rightarrow> if list_ex (\<lambda>r. length (ac_vhost r) > IRC_HOST_MAX) rows then None else Some rows)"

definition put_accounts :: "account_row list \<Rightarrow> server \<Rightarrow> server" where
  "put_accounts rows s = s\<lparr>sv_world := (sv_world s)\<lparr>w_accounts := Some rows\<rparr>\<rparr>"

definition nickserv_db_get :: "string \<Rightarrow> account_row list \<Rightarrow> account_row option option" where
  "nickserv_db_get name rows =
     (if \<not> account_name_valid name then None
      else case find (\<lambda>r. strcaseeq (ac_name r) name) rows of
             None \<Rightarrow> Some None
           | Some r \<Rightarrow> (case account_from_stmt r of None \<Rightarrow> None | Some account \<Rightarrow> Some (Some account)))"

definition nickserv_db_add :: "int \<Rightarrow> account_row \<Rightarrow> account_row list \<Rightarrow> account_row list option" where
  "nickserv_db_add now r rows =
     (if \<not> account_name_valid (ac_name r) \<or> \<not> oper_text_fits (ac_password_hash r) IRCD_OPER_HASH_MAX False \<or>
         \<not> oper_text_fits (ac_vhost r) IRC_HOST_MAX True \<or> \<not> oper_text_fits (ac_email r) IRCD_EMAIL_MAX True
      then None
      else if length rows \<ge> IRCD_NICKSERV_ACCOUNT_HARD_MAX then None
      else if list_ex (\<lambda>x. strcaseeq (ac_name x) (ac_name r)) rows then None
      else Some (rows @ [r\<lparr>ac_enabled := (if ac_enabled r \<noteq> 0 then 1 else 0), ac_email_verified := (if ac_email_verified r \<noteq> 0 then 1 else 0),
             ac_pending_email := [], ac_email_verify_token_hash := [], ac_email_verify_expires_at := 0, ac_reset_token_hash := [],
             ac_reset_expires_at := 0, ac_created_at := now, ac_updated_at := now\<rparr>]))"

definition nickserv_db_delete :: "string \<Rightarrow> account_row list \<Rightarrow> account_row list option" where
  "nickserv_db_delete name rows =
     (if \<not> account_name_valid name then None
      else if list_ex (\<lambda>r. strcaseeq (ac_name r) name) rows
      then Some (filter (\<lambda>r. \<not> strcaseeq (ac_name r) name) rows) else None)"

text \<open>An \<open>UPDATE\<close> of the row with the name, under a further condition; without such a row \<open>sqlite3_changes\<close> is zero.\<close>

definition update_where :: "int \<Rightarrow> (account_row \<Rightarrow> bool) \<Rightarrow> (account_row \<Rightarrow> account_row) \<Rightarrow> account_row list \<Rightarrow> account_row list option" where
  "update_where now P f rows =
     (if list_ex P rows then Some (map (\<lambda>r. if P r then (f r)\<lparr>ac_updated_at := now\<rparr> else r) rows) else None)"

definition update_account :: "int \<Rightarrow> string \<Rightarrow> (account_row \<Rightarrow> account_row) \<Rightarrow> account_row list \<Rightarrow> account_row list option" where
  "update_account now name f rows =
     (if \<not> account_name_valid name then None else update_where now (\<lambda>r. strcaseeq (ac_name r) name) f rows)"

text \<open>A new password ends a reset that is under way.\<close>

definition nickserv_db_set_password :: "int \<Rightarrow> string \<Rightarrow> string \<Rightarrow> account_row list \<Rightarrow> account_row list option" where
  "nickserv_db_set_password now name password_hash rows =
     (if \<not> oper_text_fits password_hash IRCD_OPER_HASH_MAX False then None
      else update_account now name (\<lambda>r. r\<lparr>ac_password_hash := password_hash, ac_reset_token_hash := [], ac_reset_expires_at := 0\<rparr>) rows)"

definition nickserv_db_set_vhost :: "int \<Rightarrow> string \<Rightarrow> string \<Rightarrow> account_row list \<Rightarrow> account_row list option" where
  "nickserv_db_set_vhost now name vhost rows =
     (if \<not> oper_text_fits vhost IRC_HOST_MAX True then None else update_account now name (\<lambda>r. r\<lparr>ac_vhost := vhost\<rparr>) rows)"

definition nickserv_db_set_enabled :: "int \<Rightarrow> string \<Rightarrow> bool \<Rightarrow> account_row list \<Rightarrow> account_row list option" where
  "nickserv_db_set_enabled now name enabled rows = update_account now name (\<lambda>r. r\<lparr>ac_enabled := (if enabled then 1 else 0)\<rparr>) rows"

definition nickserv_db_set_last_identified :: "int \<Rightarrow> string \<Rightarrow> int \<Rightarrow> account_row list \<Rightarrow> account_row list option" where
  "nickserv_db_set_last_identified now name at rows =
     (if at \<le> 0 then None else update_account now name (\<lambda>r. r\<lparr>ac_last_identified_at := at\<rparr>) rows)"

definition nickserv_db_set_email_challenge :: "int \<Rightarrow> string \<Rightarrow> string \<Rightarrow> string \<Rightarrow> int \<Rightarrow> account_row list \<Rightarrow> account_row list option" where
  "nickserv_db_set_email_challenge now name pending_email token_hash expires_at rows =
     (if \<not> oper_text_fits pending_email IRCD_EMAIL_MAX False \<or> \<not> oper_text_fits token_hash IRCD_TOKEN_HASH_HEX_LEN False then None
      else update_account now name
             (\<lambda>r. r\<lparr>ac_pending_email := pending_email, ac_email_verify_token_hash := token_hash, ac_email_verify_expires_at := expires_at\<rparr>) rows)"

text \<open>\<open>Some None\<close>: the statement changed no row.\<close>

definition nickserv_db_verify_email :: "int \<Rightarrow> string \<Rightarrow> string \<Rightarrow> account_row list \<Rightarrow> account_row list option option" where
  "nickserv_db_verify_email now name token_hash rows =
     (if \<not> account_name_valid name \<or> \<not> oper_text_fits token_hash IRCD_TOKEN_HASH_HEX_LEN False then None
      else Some (update_where now
             (\<lambda>r. strcaseeq (ac_name r) name \<and> ac_email_verify_token_hash r = token_hash \<and> ac_email_verify_expires_at r \<ge> now \<and> ac_pending_email r \<noteq> [])
             (\<lambda>r. r\<lparr>ac_email := ac_pending_email r, ac_email_verified := 1, ac_pending_email := [], ac_email_verify_token_hash := [],
                    ac_email_verify_expires_at := 0\<rparr>) rows))"

definition nickserv_db_admin_set_email :: "int \<Rightarrow> string \<Rightarrow> string \<Rightarrow> bool \<Rightarrow> account_row list \<Rightarrow> account_row list option" where
  "nickserv_db_admin_set_email now name email verified rows =
     (if \<not> oper_text_fits email IRCD_EMAIL_MAX True then None
      else update_account now name
             (\<lambda>r. r\<lparr>ac_email := email, ac_email_verified := (if verified then 1 else 0), ac_pending_email := [], ac_email_verify_token_hash := [],
                    ac_email_verify_expires_at := 0\<rparr>) rows)"

definition nickserv_db_set_reset_token :: "int \<Rightarrow> string \<Rightarrow> string \<Rightarrow> int \<Rightarrow> account_row list \<Rightarrow> account_row list option" where
  "nickserv_db_set_reset_token now name token_hash expires_at rows =
     (if \<not> oper_text_fits token_hash IRCD_TOKEN_HASH_HEX_LEN False then None
      else update_account now name (\<lambda>r. r\<lparr>ac_reset_token_hash := token_hash, ac_reset_expires_at := expires_at\<rparr>) rows)"

definition nickserv_db_consume_reset_token :: "int \<Rightarrow> string \<Rightarrow> string \<Rightarrow> string \<Rightarrow> account_row list \<Rightarrow> account_row list option option" where
  "nickserv_db_consume_reset_token now name token_hash new_password_hash rows =
     (if \<not> account_name_valid name \<or> \<not> oper_text_fits token_hash IRCD_TOKEN_HASH_HEX_LEN False \<or>
         \<not> oper_text_fits new_password_hash IRCD_OPER_HASH_MAX False then None
      else Some (update_where now
             (\<lambda>r. strcaseeq (ac_name r) name \<and> ac_reset_token_hash r = token_hash \<and> ac_reset_expires_at r \<ge> now \<and> ac_enabled r = 1)
             (\<lambda>r. r\<lparr>ac_password_hash := new_password_hash, ac_reset_token_hash := [], ac_reset_expires_at := 0\<rparr>) rows))"

end
