(* ===== verification/Server_Info.thy ===== *)
theory Server_Info
  imports Ban_Commands NickServ_Store
begin

section \<open>Information about the server (src/commands/admin.c) and PMSTATS (src/commands/dispatch.c)\<close>

text \<open>
  ADMIN, INFO, LINKS, STATS, TIME and VERSION answer from the configuration, the clock and the tables; STATS lists bans, exceptions and geo-bans and shows
  when an account or an operator last logged in, to operators only.  PMSTATS subscribes the client to the notices about private messages.
  \<open>w_localtime\<close> is \<open>localtime_r\<close> with \<open>strftime\<close> in the format of TIME, \<open>w_gmtime\<close> \<open>gmtime_r\<close> with the format of STATS.
\<close>

definition command_admin :: "cref \<Rightarrow> string option \<Rightarrow> server \<Rightarrow> command_result \<times> server" where
  "command_admin c params = registered_only c (\<lambda>s.
     let cfg = sv_config s
     in if cf_admin_location1 cfg = [] \<and> cf_admin_location2 cfg = [] \<and> cf_admin_email cfg = []
        then reply c ''423'' (server_name s @ '' :No administrative info available'') s
        else let s1 = snd (reply c ''256'' ('':Administrative info about '' @ server_name s) s);
                 s2 = snd (reply c ''257'' ('':'' @ cf_admin_location1 cfg) s1);
                 s3 = snd (reply c ''258'' ('':'' @ cf_admin_location2 cfg) s2)
             in reply c ''259'' ('':'' @ cf_admin_email cfg) s3)"

definition command_info :: "cref \<Rightarrow> string option \<Rightarrow> server \<Rightarrow> command_result \<times> server" where
  "command_info c params = registered_only c (\<lambda>s.
     let s1 = snd (reply c ''373'' '':Server INFO'' s);
         overhead = 1 + length (server_name s) + length '' 371 '' + length (c_nick (sv_client s c)) + length '' :'' + length ''ScratchIRCd '' +
           length IRCD_VERSION + length '' on '';
         repeated_name_limit = min (if overhead < IRC_LINE_CONTENT_MAX then IRC_LINE_CONTENT_MAX - overhead else 0) (length (server_name s));
         version_line = take IRC_LINE_CONTENT_MAX (''ScratchIRCd '' @ IRCD_VERSION @ '' on '' @ take repeated_name_limit (server_name s));
         s2 = snd (reply c ''371'' ('':'' @ version_line) s1);
         s3 = snd (reply c ''371'' '':Single-server IRC daemon written in C for Linux'' s2);
         s4 = snd (reply c ''371'' '':NickServ, ChanServ, and MemoServ are virtual services'' s3)
     in reply c ''374'' '':End of /INFO list.'' s4)"

definition command_links :: "cref \<Rightarrow> string option \<Rightarrow> server \<Rightarrow> command_result \<times> server" where
  "command_links c params = registered_only c (\<lambda>s.
     let mask = (case params of None \<Rightarrow> ''*'' | Some p \<Rightarrow> if p = [] then ''*'' else p);
         s1 = snd (reply c ''364'' (server_name s @ '' '' @ server_name s @ '' :0 ScratchIRCd single-server daemon'') s);
         base_length = length (numeric s ''365'' (c_nick (sv_client s c)) '' :End of /LINKS list.'')
     in if base_length > IRC_LINE_CONTENT_MAX then (COMMAND_KEEP_CLIENT, s1)
        else reply c ''365'' (take (IRC_LINE_CONTENT_MAX - base_length) mask @ '' :End of /LINKS list.'') s1)"

definition command_time :: "cref \<Rightarrow> string option \<Rightarrow> server \<Rightarrow> command_result \<times> server" where
  "command_time c params = registered_only c (\<lambda>s.
     let now_text = (case w_localtime (sv_world s) (sv_clock s) of None \<Rightarrow> [] | Some x \<Rightarrow> if length x < 128 then x else [])
     in reply c ''391'' (server_name s @ '' :'' @ (if now_text \<noteq> [] then now_text else ''Unknown server time'')) s)"

definition command_version :: "cref \<Rightarrow> string option \<Rightarrow> server \<Rightarrow> command_result \<times> server" where
  "command_version c params = registered_only c (\<lambda>s.
     reply c ''351'' (IRCD_VERSION @ '' '' @ server_name s @ '' :single-server C11 Linux'') s)"

subsection \<open>STATS\<close>

text \<open>A row is sent with its reason cut to what is left of the line; the answer says whether the listing stops.\<close>

definition stats_row :: "cref \<Rightarrow> string \<Rightarrow> string \<Rightarrow> string \<Rightarrow> server \<Rightarrow> bool \<times> server" where
  "stats_row c num rest reason s =
     (let base_length = length (numeric s num (c_nick (sv_client s c)) rest);
          reason_precision = (if base_length > IRC_LINE_CONTENT_MAX then 0 else IRC_LINE_CONTENT_MAX - base_length);
          s1 = snd (reply c num (rest @ take reason_precision reason) s)
      in (o_overflowed (sv_out s1 c), s1))"

definition stats_ban_row :: "cref \<Rightarrow> bool \<Rightarrow> ban_row \<Rightarrow> server \<Rightarrow> bool \<times> server" where
  "stats_ban_row c kline record =
     (if kline then stats_row c ''216'' (bn_mask record @ '' '' @ bn_set_by record @ '' :'') (bn_reason record)
      else stats_row c ''210'' ('':ZLINE '' @ bn_mask record @ '' set-by='' @ bn_set_by record @ '' expires='' @ dec_int (bn_expires_at record) @ '' reason='')
             (bn_reason record))"

definition stats_geoban_row :: "cref \<Rightarrow> geoban_row \<Rightarrow> server \<Rightarrow> bool \<times> server" where
  "stats_geoban_row c record =
     stats_row c ''210'' ('':GEOBAN '' @ geoban_type_name (gb_type record) @ '' {'' @ gb_value record @ ''} set-by='' @ gb_set_by record @ '' expires='' @
       dec_int (gb_expires_at record) @ '' reason='') (gb_reason record)"

definition stats_eline_type_letter :: "int \<Rightarrow> char" where
  "stats_eline_type_letter type =
     (if type = BAN_EXCEPTION_KLINE then CHR ''k'' else if type = BAN_EXCEPTION_ZLINE then CHR ''z''
      else if type = BAN_EXCEPTION_CONNECTION_LIMIT then CHR ''m'' else if type = BAN_EXCEPTION_DNSBL then CHR ''B''
      else if type = BAN_EXCEPTION_GEOBAN then CHR ''G'' else CHR ''?'')"

definition stats_eline_row :: "cref \<Rightarrow> ban_row \<Rightarrow> server \<Rightarrow> bool \<times> server" where
  "stats_eline_row c record =
     stats_row c ''210'' ('':ELINE '' @ [stats_eline_type_letter (bn_type record)] @ '' '' @ bn_mask record @ '' set-by='' @ bn_set_by record @ '' expires='' @
       dec_int (bn_expires_at record) @ '' reason='') (bn_reason record)"

definition stats_param_arg :: "string option \<Rightarrow> string option" where
  "stats_param_arg params =
     (let blank = dropWhile (\<lambda>x. x = CHR '' '' \<or> x = CHR 0x09)
      in case params of
           None \<Rightarrow> None
         | Some p \<Rightarrow>
             if p = [] then None
             else let arg = blank (drop 1 p); arg1 = (if starts_with '':'' arg then blank (drop 1 arg) else arg)
                  in if arg1 \<noteq> [] then Some arg1 else None)"

definition format_stats_time :: "server \<Rightarrow> int \<Rightarrow> string" where
  "format_stats_time s at =
     (if at \<le> 0 then ''never''
      else case w_gmtime (sv_world s) at of None \<Rightarrow> ''unknown'' | Some x \<Rightarrow> if length x < 32 then x else ''unknown'')"

definition stats_nickserv_account :: "cref \<Rightarrow> string option \<Rightarrow> server \<Rightarrow> server" where
  "stats_nickserv_account c arg s =
     snd (reply c ''210'' (case arg of
        None \<Rightarrow> '':NICKSERV syntax: STATS N <account>''
      | Some name \<Rightarrow>
          (case nickserv_db_open s of
             None \<Rightarrow> '':NICKSERV account database unavailable''
           | Some rows \<Rightarrow>
               (case nickserv_db_get name rows of
                  Some (Some r) \<Rightarrow>
                    '':NICKSERV account='' @ name @ '' enabled='' @ (if ac_enabled r \<noteq> 0 then ''1'' else ''0'') @ '' created='' @
                      format_stats_time s (ac_created_at r) @ '' updated='' @ format_stats_time s (ac_updated_at r) @ '' last_identified='' @
                      format_stats_time s (ac_last_identified_at r)
                | _ \<Rightarrow> '':NICKSERV account='' @ name @ '' not-found''))) s)"

definition stats_operator_account :: "cref \<Rightarrow> string option \<Rightarrow> server \<Rightarrow> server" where
  "stats_operator_account c arg s =
     snd (reply c ''210'' (case arg of
        None \<Rightarrow> '':OPER syntax: STATS O <oper>''
      | Some name \<Rightarrow>
          (case operator_db_open s of
             None \<Rightarrow> '':OPER operator database unavailable''
           | Some rows \<Rightarrow>
               (case operator_db_get name rows of
                  Some (Some r) \<Rightarrow>
                    '':OPER name='' @ op_name r @ '' enabled='' @ (if op_enabled r \<noteq> 0 then ''1'' else ''0'') @ '' created='' @
                      format_stats_time s (op_created_at r) @ '' updated='' @ format_stats_time s (op_updated_at r) @ '' last_opered='' @
                      format_stats_time s (op_last_opered_at r)
                | _ \<Rightarrow> '':OPER name='' @ name @ '' not-found''))) s)"

text \<open>\<open>%02ld\<close>.\<close>

definition two_digits :: "int \<Rightarrow> string" where
  "two_digits i = (if i < 10 then CHR ''0'' # dec_int i else dec_int i)"

definition stats_uptime :: "cref \<Rightarrow> server \<Rightarrow> server" where
  "stats_uptime c s =
     (let started = w_started_at (sv_world s); now = sv_clock s;
          uptime = (if started > 0 \<and> now > started then now - started else 0)
      in snd (reply c ''242'' ('':Server Up '' @ dec_int (uptime div 86400) @ '' days '' @ dec_int (uptime mod 86400 div 3600) @ '':'' @
           two_digits (uptime mod 3600 div 60) @ '':'' @ two_digits (uptime mod 60)) s))"

definition stats_help :: "string list" where
  "stats_help =
     [''STATS u - server uptime'', ''STATS k - persistent KLINEs (IRCops only)'', ''STATS z - persistent ZLINEs (IRCops only)'',
      ''STATS e - persistent E-LINE exceptions (IRCops only)'', ''STATS g - persistent GeoBAN policies (IRCops only)'',
      ''STATS N <account> - NickServ account last successful identify (IRCops only)'',
      ''STATS O <oper> - operator account last successful OPER (IRCops only)'']"

definition stats_bans :: "cref \<Rightarrow> int \<Rightarrow> bool \<Rightarrow> server \<Rightarrow> server" where
  "stats_bans c type kline s =
     (case open_bans s of
        (False, s1) \<Rightarrow> s1
      | (True, s1) \<Rightarrow> snd (ban_db_list (sv_clock s1) type (stats_ban_row c kline) (ban_rows s1) s1))"

definition stats_elines :: "cref \<Rightarrow> server \<Rightarrow> server" where
  "stats_elines c s =
     (case open_bans s of
        (False, s1) \<Rightarrow> s1
      | (True, s1) \<Rightarrow> snd (ban_exception_db_list_all (sv_clock s1) (stats_eline_row c) (exception_rows s1) s1))"

definition stats_geobans :: "cref \<Rightarrow> server \<Rightarrow> server" where
  "stats_geobans c s =
     (case open_geobans s of
        (False, s1) \<Rightarrow> s1
      | (True, s1) \<Rightarrow> snd (geoban_db_list (sv_clock s1) (stats_geoban_row c) (geoban_rows s1) s1))"

definition command_stats :: "cref \<Rightarrow> string option \<Rightarrow> server \<Rightarrow> command_result \<times> server" where
  "command_stats c params = registered_only c (\<lambda>s.
     let selector = (case params of None \<Rightarrow> CHR ''?'' | Some p \<Rightarrow> if p = [] then CHR ''?'' else hd p);
         arg = stats_param_arg params;
         finish = (\<lambda>letter s. (COMMAND_KEEP_CLIENT,
           if o_overflowed (sv_out s c) then s else snd (reply c ''219'' ([letter] @ '' :End of /STATS report'') s)));
         opers = (\<lambda>letter body. if c_oper_permissions (sv_client s c) \<noteq> 0 then finish letter (body s) else (COMMAND_KEEP_CLIENT, no_privileges c s))
     in if selector \<in> set ''uU'' then finish selector (stats_uptime c s)
        else if selector \<in> set ''kK'' then opers CHR ''k'' (stats_bans c BAN_TYPE_KLINE True)
        else if selector \<in> set ''zZ'' then opers CHR ''z'' (stats_bans c BAN_TYPE_ZLINE False)
        else if selector \<in> set ''eE'' then opers CHR ''e'' (stats_elines c)
        else if selector \<in> set ''gG'' then opers CHR ''g'' (stats_geobans c)
        else if selector \<in> set ''nN'' then opers CHR ''N'' (stats_nickserv_account c arg)
        else if selector \<in> set ''oO'' then opers CHR ''O'' (stats_operator_account c arg)
        else if selector \<in> set ''?hH'' then finish CHR ''?'' (fold (\<lambda>l s. snd (reply c ''210'' ('':'' @ l) s)) stats_help s)
        else finish selector s)"

subsection \<open>PMSTATS\<close>

text \<open>
  With no parameter the C code trims the literal \<open>""\<close> in place, an undefined write of a NUL over a NUL; the model goes on as if the write had no effect.
\<close>

definition command_pmstats :: "cref \<Rightarrow> string option \<Rightarrow> server \<Rightarrow> command_result \<times> server" where
  "command_pmstats c params s =
     (let cl = sv_client s c;
          is_netadmin = client_mode_has (c_modes cl) CLIENT_MODE_NETADMIN;
          is_stats_oper = (client_mode_has (c_modes cl) CLIENT_MODE_OPER \<and> client_mode_has (c_modes cl) CLIENT_MODE_BOT \<and>
            oper_permission_has (c_oper_permissions cl) OPER_PERMISSION_STATS);
          blank = dropWhile (\<lambda>x. x = CHR '' '');
          val = rev (blank (rev (blank (case params of None \<Rightarrow> [] | Some p \<Rightarrow> p))))
      in (COMMAND_KEEP_CLIENT,
          if \<not> is_netadmin \<and> \<not> is_stats_oper then sendf c (numeric s ''421'' (command_reply_nick cl) ''PMSTATS :Unknown command'') s
          else if strcaseeq val ''on'' then server_pmstats_set_enabled c True s
          else if strcaseeq val ''off'' then server_pmstats_set_enabled c False s
          else sendf c (numeric s ''461'' (command_reply_nick cl) ''PMSTATS :Expected ON or OFF'') s))"

subsection \<open>They keep the server well formed\<close>

declare replies_keeps(3) [simp]

lemma information_keeps:
  "keeps c s (snd (command_admin c params s))" "keeps c s (snd (command_info c params s))" "keeps c s (snd (command_links c params s))"
  "keeps c s (snd (command_time c params s))" "keeps c s (snd (command_version c params s))"
  unfolding command_admin_def command_info_def command_links_def command_time_def command_version_def
  by (rule registered_only_keeps; simp add: Let_def)+

lemma stats_rows_keep:
  assumes "keeps c s t"
  shows "keeps c s (snd (stats_ban_row c k r t))" and "keeps c s (snd (stats_geoban_row c g t))" and "keeps c s (snd (stats_eline_row c r t))"
  using assms by (simp_all add: stats_ban_row_def stats_geoban_row_def stats_eline_row_def stats_row_def Let_def)

lemma stats_lists_keep: "keeps c s (stats_bans c ty k s)" "keeps c s (stats_elines c s)" "keeps c s (stats_geobans c s)"
proof -
  have bans: "keeps c s (snd (list_rows f (stats_ban_row c k) rows t))" "keeps c s (snd (list_rows f (stats_eline_row c) rows t))"
    "keeps c s (snd (geoban_list_loop (stats_geoban_row c) grows t))" if "keeps c s t" for f rows grows t
    using that by (auto intro!: list_rows_invariant [of "keeps c s"] geoban_list_loop_invariant [of "keeps c s"] stats_rows_keep)
  obtain b t g u where o: "open_bans s = (b, t)" "open_geobans s = (g, u)" by fastforce
  have t: "keeps c s t" and u: "keeps c s u"
    using open_bans_keeps [OF keeps_refl, of c s] open_geobans_keeps [OF keeps_refl, of c s] o by simp_all
  show "keeps c s (stats_bans c ty k s)" "keeps c s (stats_elines c s)" "keeps c s (stats_geobans c s)"
    using bans [OF t] bans(3) [OF u] t u
    by (simp_all add: stats_bans_def stats_elines_def stats_geobans_def o ban_db_list_def ban_exception_db_list_all_def geoban_db_list_def split: bool.split)
qed

lemma command_stats_keeps: "keeps c s (snd (command_stats c params s))"
proof -
  have lines: "keeps c s (fold (\<lambda>l s. snd (reply c ''210'' (CHR '':'' # l) s)) ls t)" if "keeps c s t" for ls s t
    using that by (induction ls arbitrary: t) simp_all
  show ?thesis
    unfolding command_stats_def
    by (rule registered_only_keeps)
       (simp add: Let_def lines stats_lists_keep stats_uptime_def stats_nickserv_account_def stats_operator_account_def keeps_io [OF keeps_refl no_privileges_io])
qed

lemma command_pmstats_keeps: "keeps c s (snd (command_pmstats c params s))"
proof -
  have "keeps c s (server_pmstats_set_enabled c b s)" for b
    using keeps_aux [OF keeps_upd_client [OF keeps_refl, of "\<lambda>cl. cl\<lparr>c_pmstats_enabled := b\<rparr>" c s c] aux_only_hook]
      keeps_upd_client [OF keeps_refl, of "\<lambda>cl. cl\<lparr>c_pmstats_enabled := b\<rparr>" c s c]
    by (cases b) (simp_all add: server_pmstats_set_enabled_def Let_def plain_update_def)
  then show ?thesis by (simp add: command_pmstats_def Let_def keeps_sends)
qed

declare replies_keeps(3) [simp del]

end
