(* ===== verification/MemoServ.thy ===== *)
theory MemoServ
  imports NickServ_Store Messaging
begin

section \<open>MemoServ (src/memoserv.c, src/memoserv_db.c, src/memoserv_db_extra.c, src/commands/memoserv.c, memoserv_admin.c)\<close>

text \<open>
  The service by which identified accounts leave each other messages.  A row is visible to its sender and to its receiver until they hide it;
  it is deleted when both have, or when it is older than the retention allows.  The ids of the rows come from a sequence that never
  repeats (\<open>w_memo_sequence\<close>).  \<open>None\<close> is the answer \<open>-1\<close> of the functions of the store.  As in \<open>NickServ_Store\<close> the tables
  are opened anew for each command.
\<close>

abbreviation IRCD_MEMOSERV_TEXT_MAX :: nat where "IRCD_MEMOSERV_TEXT_MAX \<equiv> 400"

abbreviation IRCD_MEMOSERV_LIST_LIMIT :: nat where "IRCD_MEMOSERV_LIST_LIMIT \<equiv> 50"

abbreviation MEMOSERV_PURGE_INTERVAL_SECONDS :: int where "MEMOSERV_PURGE_INTERVAL_SECONDS \<equiv> 300"

abbreviation IRCD_OUTPUT_BUFFER_SIZE :: nat where "IRCD_OUTPUT_BUFFER_SIZE \<equiv> 1024"

subsection \<open>The store\<close>

definition memo_account_fits :: "string \<Rightarrow> bool" where
  "memo_account_fits account \<longleftrightarrow> account \<noteq> [] \<and> length account \<le> IRC_NICK_MAX \<and> \<not> has_line_break account"

definition fill_memo :: "memo_row \<Rightarrow> memo_row option" where
  "fill_memo m =
     (if stored_text_ok IRC_NICK_MAX (mo_sender m) \<and> stored_text_ok IRC_NICK_MAX (mo_recipient m) \<and> stored_text_ok IRCD_MEMOSERV_TEXT_MAX (mo_body m)
      then Some m else None)"

definition in_box :: "string \<Rightarrow> memo_row \<Rightarrow> bool" where
  "in_box account m \<longleftrightarrow> strcaseeq (mo_recipient m) account \<and> mo_recipient_deleted m = 0"

definition in_sent :: "string \<Rightarrow> memo_row \<Rightarrow> bool" where
  "in_sent account m \<longleftrightarrow> strcaseeq (mo_sender m) account \<and> mo_sender_deleted m = 0"

definition purge_fully_deleted_memos :: "memo_row list \<Rightarrow> memo_row list" where
  "purge_fully_deleted_memos rows = filter (\<lambda>m. \<not> (mo_sender_deleted m = 1 \<and> mo_recipient_deleted m = 1)) rows"

text \<open>The id of the new row and the table with it; \<open>inserted\<close> is the answer of SQLite to the INSERT.\<close>

definition memoserv_db_send :: "bool \<Rightarrow> int \<Rightarrow> string \<Rightarrow> string \<Rightarrow> string \<Rightarrow> int \<Rightarrow> memo_row list \<Rightarrow> (int \<times> memo_row list) option" where
  "memoserv_db_send inserted now sender recipient body sequence rows =
     (if \<not> memo_account_fits sender \<or> \<not> memo_account_fits recipient \<or> body = [] \<or> has_line_break body \<or> length body > IRCD_MEMOSERV_TEXT_MAX
      then None
      else if \<not> inserted then None
      else Some (sequence + 1, rows @ [\<lparr>mo_id = sequence + 1, mo_sender = sender, mo_recipient = recipient, mo_body = body, mo_created_at = now,
             mo_read_at = 0, mo_sender_deleted = 0, mo_recipient_deleted = 0\<rparr>]))"

definition memoserv_db_unread_count :: "string \<Rightarrow> memo_row list \<Rightarrow> nat option" where
  "memoserv_db_unread_count recipient rows =
     (if \<not> memo_account_fits recipient then None else Some (length (filter (\<lambda>m. in_box recipient m \<and> mo_read_at m = 0) rows)))"

definition memoserv_db_count :: "string \<Rightarrow> memo_row list \<Rightarrow> nat option" where
  "memoserv_db_count recipient rows =
     (if \<not> memo_account_fits recipient then None else Some (length (filter (in_box recipient) rows)))"

definition memoserv_db_count_sender_outstanding :: "string \<Rightarrow> int \<Rightarrow> memo_row list \<Rightarrow> nat option" where
  "memoserv_db_count_sender_outstanding sender cutoff rows =
     (if \<not> memo_account_fits sender then None
      else Some (length (filter (\<lambda>m. strcaseeq (mo_sender m) sender \<and> mo_recipient_deleted m = 0 \<and> (cutoff > 0 \<longrightarrow> mo_created_at m \<ge> cutoff)) rows)))"

text \<open>\<open>ORDER BY id DESC LIMIT\<close>; one row that does not fit spoils the list.\<close>

definition newest :: "memo_row list \<Rightarrow> memo_row list option" where
  "newest rows =
     (let chosen = map fill_memo (take IRCD_MEMOSERV_LIST_LIMIT (order_rows (\<lambda>a b. mo_id b \<le> mo_id a) rows))
      in if None \<in> set chosen then None else Some (map the chosen))"

definition memoserv_db_list :: "string \<Rightarrow> memo_row list \<Rightarrow> memo_row list option" where
  "memoserv_db_list recipient rows = (if \<not> memo_account_fits recipient then None else newest (filter (in_box recipient) rows))"

definition memoserv_db_list_sent :: "string \<Rightarrow> memo_row list \<Rightarrow> memo_row list option" where
  "memoserv_db_list_sent sender rows = (if \<not> memo_account_fits sender then None else newest (filter (in_sent sender) rows))"

definition memoserv_db_get :: "string \<Rightarrow> int \<Rightarrow> memo_row list \<Rightarrow> memo_row option option" where
  "memoserv_db_get recipient i rows =
     (if \<not> memo_account_fits recipient \<or> i \<le> 0 then None
      else case find (\<lambda>m. in_box recipient m \<and> mo_id m = i) rows of
             None \<Rightarrow> Some None
           | Some m \<Rightarrow> (case fill_memo m of None \<Rightarrow> None | Some memo \<Rightarrow> Some (Some memo)))"

definition memoserv_db_mark_read :: "string \<Rightarrow> int \<Rightarrow> int \<Rightarrow> memo_row list \<Rightarrow> memo_row list option" where
  "memoserv_db_mark_read recipient i at rows =
     (if \<not> memo_account_fits recipient \<or> i \<le> 0 \<or> at \<le> 0 then None
      else Some (map (\<lambda>m. if in_box recipient m \<and> mo_id m = i \<and> mo_read_at m = 0 then m\<lparr>mo_read_at := at\<rparr> else m) rows))"

text \<open>The flag tells whether a row was hidden.\<close>

definition memoserv_db_delete :: "string \<Rightarrow> int \<Rightarrow> memo_row list \<Rightarrow> (bool \<times> memo_row list) option" where
  "memoserv_db_delete recipient i rows =
     (if \<not> memo_account_fits recipient \<or> i \<le> 0 then None
      else if list_ex (\<lambda>m. in_box recipient m \<and> mo_id m = i) rows
      then Some (True, purge_fully_deleted_memos
             (map (\<lambda>m. if in_box recipient m \<and> mo_id m = i then m\<lparr>mo_recipient_deleted := 1\<rparr> else m) rows))
      else Some (False, rows))"

definition memoserv_db_delete_all :: "string \<Rightarrow> memo_row list \<Rightarrow> memo_row list option" where
  "memoserv_db_delete_all recipient rows =
     (if \<not> memo_account_fits recipient then None
      else Some (purge_fully_deleted_memos (map (\<lambda>m. if in_box recipient m then m\<lparr>mo_recipient_deleted := 1\<rparr> else m) rows)))"

definition memoserv_db_delete_sent :: "string \<Rightarrow> int \<Rightarrow> memo_row list \<Rightarrow> (bool \<times> memo_row list) option" where
  "memoserv_db_delete_sent sender i rows =
     (if \<not> memo_account_fits sender \<or> i \<le> 0 then None
      else if list_ex (\<lambda>m. in_sent sender m \<and> mo_id m = i) rows
      then Some (True, purge_fully_deleted_memos
             (map (\<lambda>m. if in_sent sender m \<and> mo_id m = i then m\<lparr>mo_sender_deleted := 1\<rparr> else m) rows))
      else Some (False, rows))"

definition memoserv_db_delete_all_sent :: "string \<Rightarrow> memo_row list \<Rightarrow> memo_row list option" where
  "memoserv_db_delete_all_sent sender rows =
     (if \<not> memo_account_fits sender then None
      else Some (purge_fully_deleted_memos (map (\<lambda>m. if in_sent sender m then m\<lparr>mo_sender_deleted := 1\<rparr> else m) rows)))"

text \<open>How many rows were deleted goes with the table.\<close>

definition memoserv_db_purge_before :: "string option \<Rightarrow> int \<Rightarrow> memo_row list \<Rightarrow> (nat \<times> memo_row list) option" where
  "memoserv_db_purge_before recipient cutoff rows =
     (if cutoff \<le> 0 \<or> (case recipient of None \<Rightarrow> False | Some r \<Rightarrow> \<not> memo_account_fits r) then None
      else let old = (\<lambda>m. (case recipient of None \<Rightarrow> True | Some r \<Rightarrow> strcaseeq (mo_recipient m) r) \<and> mo_created_at m < cutoff)
           in Some (length (filter old rows), filter (\<lambda>m. \<not> old m) rows))"

definition memoserv_db_get_sent :: "string \<Rightarrow> int \<Rightarrow> memo_row list \<Rightarrow> memo_row option option" where
  "memoserv_db_get_sent sender i rows =
     (if \<not> memo_account_fits sender \<or> i \<le> 0 then None
      else case find (\<lambda>m. in_sent sender m \<and> mo_id m = i) rows of
             None \<Rightarrow> Some None
           | Some m \<Rightarrow> (case fill_memo m of None \<Rightarrow> None | Some memo \<Rightarrow> Some (Some memo)))"

definition memoserv_db_delete_account :: "string \<Rightarrow> memo_row list \<Rightarrow> (nat \<times> memo_row list) option" where
  "memoserv_db_delete_account account rows =
     (if \<not> memo_account_fits account then None
      else let mine = (\<lambda>m. strcaseeq (mo_sender m) account \<or> strcaseeq (mo_recipient m) account)
           in Some (length (filter mine rows), filter (\<lambda>m. \<not> mine m) rows))"

subsection \<open>The service\<close>

text \<open>The statics of the service; its connections are not state of the model.\<close>

definition memoserv_reset_runtime_state :: "server \<Rightarrow> server" where
  "memoserv_reset_runtime_state s = s\<lparr>sv_world := (sv_world s)\<lparr>w_memo_purge := (0, 0, [])\<rparr>\<rparr>"

definition memo_db :: "server \<Rightarrow> memo_row list option" where
  "memo_db s = (if cf_memoserv_db (sv_config s) = [] then None else w_memos (sv_world s))"

definition put_memos :: "memo_row list \<Rightarrow> server \<Rightarrow> server" where
  "put_memos rows s = s\<lparr>sv_world := (sv_world s)\<lparr>w_memos := Some rows\<rparr>\<rparr>"

text \<open>The text in pieces that fit the line; the output limit ends the loop.\<close>

function memo_chunks :: "nat \<Rightarrow> string \<Rightarrow> string list" where
  "memo_chunks limit x = (if x = [] \<or> limit = 0 then [] else take limit x # memo_chunks limit (drop limit x))"
  by pat_completeness auto
termination by (relation "measure (\<lambda>(limit, x). length x)") auto

declare memo_chunks.simps [simp del]

definition ms_notice :: "cref \<Rightarrow> string \<Rightarrow> server \<Rightarrow> server" where
  "ms_notice c x s =
     (let prefix = '':MemoServ!service@'' @ server_name s @ '' NOTICE '' @ c_nick (sv_client s c) @ '' :''
      in if length prefix \<ge> IRC_LINE_CONTENT_MAX then s
         else if x = [] then sendf c prefix s
         else fold (\<lambda>chunk s. if o_overflowed (sv_out s c) then s else sendf c (prefix @ chunk) s)
                (memo_chunks (IRC_LINE_CONTENT_MAX - length prefix) x) s)"

definition with_account :: "cref \<Rightarrow> (server \<Rightarrow> server) \<Rightarrow> server \<Rightarrow> server" where
  "with_account c body s =
     (if c_account_name (sv_client s c) \<noteq> [] then body s
      else ms_notice c ''You must identify to NickServ before using MemoServ.'' s)"

definition strtoll :: "string \<Rightarrow> int \<times> bool \<times> string" where
  "strtoll s =
     (let t = dropWhile isspace s;
          neg = (case t of c # _ \<Rightarrow> c = CHR ''-'' | [] \<Rightarrow> False);
          u = (case t of c # r \<Rightarrow> if c = CHR ''-'' \<or> c = CHR ''+'' then r else t | [] \<Rightarrow> t);
          ds = takeWhile isdigit u;
          v = (if neg then - int (digit_value ds) else int (digit_value ds))
      in if ds = [] then (0, False, s)
         else if v > 2 ^ 63 - 1 then (2 ^ 63 - 1, True, dropWhile isdigit u)
         else if v < - (2 ^ 63) then (- (2 ^ 63), True, dropWhile isdigit u)
         else (v, False, dropWhile isdigit u))"

definition parse_id :: "string option \<Rightarrow> int option" where
  "parse_id x =
     (case x of
        None \<Rightarrow> None
      | Some t \<Rightarrow>
          let (v, overflow, rest) = strtoll t
          in if t = [] \<or> overflow \<or> length rest = length t \<or> rest \<noteq> [] \<or> v \<le> 0 then None else Some v)"

definition format_memo_time :: "server \<Rightarrow> int \<Rightarrow> string" where
  "format_memo_time s at =
     (if at \<le> 0 then ''unknown''
      else case w_gmtime (sv_world s) at of None \<Rightarrow> ''unknown'' | Some x \<Rightarrow> if length x > 20 then ''unknown'' else x)"

text \<open>The retention runs at most every five minutes for the same database and number of days.\<close>

definition retention_seconds :: "server \<Rightarrow> int" where
  "retention_seconds s = uint (cf_memoserv_retention_days (sv_config s)) * 86400"

definition purge_expired :: "memo_row list \<Rightarrow> server \<Rightarrow> memo_row list \<times> server" where
  "purge_expired rows s =
     (let days = cf_memoserv_retention_days (sv_config s); now = sv_clock s; path = cf_memoserv_db (sv_config s);
          (last, last_days, last_path) = w_memo_purge (sv_world s)
      in if days = 0 then (rows, s)
         else if last \<noteq> 0 \<and> now \<ge> last \<and> now - last < MEMOSERV_PURGE_INTERVAL_SECONDS \<and> last_days = days \<and> last_path = path then (rows, s)
         else case memoserv_db_purge_before None (now - retention_seconds s) rows of
                None \<Rightarrow> (rows, s)
              | Some (_, kept) \<Rightarrow> (kept, s\<lparr>sv_world := (sv_world s)\<lparr>w_memos := Some kept, w_memo_purge := (now, days, path)\<rparr>\<rparr>))"

definition load_enabled_account :: "server \<Rightarrow> string \<Rightarrow> account_row option" where
  "load_enabled_account s name =
     (case Option.bind (nickserv_db_open s) (nickserv_db_get name) of
        Some (Some account) \<Rightarrow> if ac_enabled account \<noteq> 0 then Some account else None
      | _ \<Rightarrow> None)"

definition notify_online_recipient :: "string \<Rightarrow> string \<Rightarrow> int \<Rightarrow> server \<Rightarrow> server" where
  "notify_online_recipient account sender i s =
     (let line = take (IRCD_OUTPUT_BUFFER_SIZE - 1)
            (''New memo #'' @ dec_int i @ '' from '' @ sender @ ''. Use /MEMOSERV READ '' @ dec_int i @ '' to read it.'')
      in fold (\<lambda>d s. if c_registered (sv_client s d) \<and> c_account_name (sv_client s d) \<noteq> [] \<and> strcaseeq (c_account_name (sv_client s d)) account
                     then ms_notice d line s else s) (sv_clients s) s)"

definition memoserv_notify_unread :: "cref \<Rightarrow> server \<Rightarrow> server" where
  "memoserv_notify_unread c s =
     (if c_account_name (sv_client s c) = [] then s
      else case memo_db s of
             None \<Rightarrow> s
           | Some rows \<Rightarrow>
               let (rows1, s1) = purge_expired rows s
               in case memoserv_db_unread_count (c_account_name (sv_client s c)) rows1 of
                    None \<Rightarrow> s1
                  | Some unread \<Rightarrow>
                      if unread = 0 then s1
                      else ms_notice c (''You have '' @ dec unread @ '' unread memo'' @ (if unread = 1 then [] else ''s'') @
                             ''. Use /MEMOSERV LIST to view them.'') s1)"

text \<open>The id of the memo that was stored.\<close>

definition store_memo :: "cref \<Rightarrow> string \<Rightarrow> string \<Rightarrow> server \<Rightarrow> int option \<times> server" where
  "store_memo c recipient_name body s =
     (case load_enabled_account s recipient_name of
        None \<Rightarrow> (None, ms_notice c ''That NickServ account does not exist or is disabled.'' s)
      | Some recipient \<Rightarrow>
          (case memo_db s of
             None \<Rightarrow> (None, ms_notice c ''Memo database is unavailable.'' s)
           | Some rows \<Rightarrow>
               let (rows1, s1) = purge_expired rows s
               in case memoserv_db_count (ac_name recipient) rows1 of
                    None \<Rightarrow> (None, ms_notice c ''Memo database is unavailable.'' s1)
                  | Some n \<Rightarrow>
                      if n \<ge> cf_memoserv_quota (sv_config s) then (None, ms_notice c ''Recipient memo box is full.'' s1)
                      else (case memoserv_db_send (w_memo_insert (sv_world s1)) (sv_clock s1) (c_account_name (sv_client s1 c)) (ac_name recipient) body
                                   (w_memo_sequence (sv_world s1)) rows1 of
                              None \<Rightarrow> (None, ms_notice c ''Memo could not be stored.'' s1)
                            | Some (i, rows2) \<Rightarrow>
                                let s2 = s1\<lparr>sv_world := (sv_world s1)\<lparr>w_memos := Some rows2, w_memo_sequence := i\<rparr>\<rparr>
                                in (Some i, notify_online_recipient (ac_name recipient) (c_account_name (sv_client s2 c)) i s2))))"

text \<open>What follows the first word: blanks and then one colon are skipped.\<close>

definition memo_text :: "string \<Rightarrow> string option" where
  "memo_text rest =
     (if rest = [] then None
      else let t = dropWhile (\<lambda>x. x = CHR '' '') rest in Some (if starts_with '':'' t then drop 1 t else t))"

definition memo_line :: "cref \<Rightarrow> string \<Rightarrow> server \<Rightarrow> server" where
  "memo_line c x s = ms_notice c (take (IRCD_OUTPUT_BUFFER_SIZE - 1) x) s"

definition memo_send :: "cref \<Rightarrow> string \<Rightarrow> server \<Rightarrow> server" where
  "memo_send c params = with_account c (\<lambda>s.
     let (account, rest) = tok1 params
     in case (account, Option.bind account (\<lambda>_. memo_text rest)) of
          (Some a, Some body) \<Rightarrow>
            if body = [] then ms_notice c ''Syntax: SEND <account> :<message>'' s
            else if length body > IRCD_MEMOSERV_TEXT_MAX then ms_notice c ''Memo text is too long.'' s
            else (case store_memo c a body s of
                    (None, s1) \<Rightarrow> s1
                  | (Some i, s1) \<Rightarrow> memo_line c (''Memo #'' @ dec_int i @ '' sent to '' @ a @ ''.'') s1)
        | _ \<Rightarrow> ms_notice c ''Syntax: SEND <account> :<message>'' s)"

definition memo_status :: "cref \<Rightarrow> server \<Rightarrow> server" where
  "memo_status c = with_account c (\<lambda>s.
     case memo_db s of
       None \<Rightarrow> ms_notice c ''Memo database is unavailable.'' s
     | Some rows \<Rightarrow>
         let (rows1, s1) = purge_expired rows s; account = c_account_name (sv_client s1 c)
         in case (memoserv_db_unread_count account rows1, memoserv_db_count account rows1) of
              (Some unread, Some stored) \<Rightarrow>
                memo_line c (''Memos: '' @ dec stored @ ''/'' @ dec (cf_memoserv_quota (sv_config s1)) @ '' stored, '' @ dec unread @ '' unread.'') s1
            | _ \<Rightarrow> ms_notice c ''Memo database is unavailable.'' s1)"

definition memo_entry :: "bool \<Rightarrow> memo_row \<Rightarrow> server \<Rightarrow> string" where
  "memo_entry sent m s =
     ''#'' @ dec_int (mo_id m) @
     (if sent
      then '' TO '' @ mo_recipient m @
           (if mo_read_at m \<noteq> 0
            then '' READ sent '' @ format_memo_time s (mo_created_at m) @ '' read '' @ format_memo_time s (mo_read_at m)
            else '' UNREAD sent '' @ format_memo_time s (mo_created_at m))
      else (if mo_read_at m = 0 then '' UNREAD'' else '' READ'') @ '' from '' @ mo_sender m @ '' at '' @ format_memo_time s (mo_created_at m))"

definition list_records :: "bool \<Rightarrow> cref \<Rightarrow> server \<Rightarrow> server" where
  "list_records sent c = with_account c (\<lambda>s.
     case memo_db s of
       None \<Rightarrow> ms_notice c ''Memo database is unavailable.'' s
     | Some rows \<Rightarrow>
         let (rows1, s1) = purge_expired rows s; account = c_account_name (sv_client s1 c)
         in case (if sent then memoserv_db_list_sent account rows1 else memoserv_db_list account rows1) of
              None \<Rightarrow> ms_notice c ''Memo database is unavailable.'' s1
            | Some memos \<Rightarrow>
                if memos = [] then ms_notice c (if sent then ''You have no sent memos.'' else ''You have no memos.'') s1
                else fold (\<lambda>m s. memo_line c (memo_entry sent m s) s) memos s1)"

definition memo_read :: "cref \<Rightarrow> string \<Rightarrow> server \<Rightarrow> server" where
  "memo_read c params = with_account c (\<lambda>s.
     case parse_id (fst (tok1 params)) of
       None \<Rightarrow> ms_notice c ''Syntax: READ <memo-id>'' s
     | Some i \<Rightarrow>
         (case memo_db s of
            None \<Rightarrow> ms_notice c ''Memo database is unavailable.'' s
          | Some rows \<Rightarrow>
              let (rows1, s1) = purge_expired rows s; account = c_account_name (sv_client s1 c)
              in case memoserv_db_get account i rows1 of
                   None \<Rightarrow> ms_notice c ''Memo lookup failed.'' s1
                 | Some None \<Rightarrow> ms_notice c ''No such memo.'' s1
                 | Some (Some memo) \<Rightarrow>
                     let s2 = (case memoserv_db_mark_read account i (sv_clock s1) rows1 of None \<Rightarrow> s1 | Some rows2 \<Rightarrow> put_memos rows2 s1)
                     in memo_line c (''Memo #'' @ dec_int (mo_id memo) @ '' from '' @ mo_sender memo @ '' at '' @
                          format_memo_time s2 (mo_created_at memo) @ '': '' @ mo_body memo) s2))"

text \<open>\<open>command_delete\<close> and \<open>command_delete_sent\<close> differ in the statements and the texts.\<close>

definition memo_hide ::
  "(string \<Rightarrow> memo_row list \<Rightarrow> memo_row list option) \<Rightarrow> (string \<Rightarrow> int \<Rightarrow> memo_row list \<Rightarrow> (bool \<times> memo_row list) option) \<Rightarrow>
   string \<Rightarrow> string \<times> string \<times> string \<times> string \<Rightarrow> cref \<Rightarrow> string \<Rightarrow> server \<Rightarrow> server" where
  "memo_hide hide_all hide usage texts c params = with_account c (\<lambda>s.
     case fst (tok1 params) of
       None \<Rightarrow> ms_notice c usage s
     | Some what \<Rightarrow>
         (case memo_db s of
            None \<Rightarrow> ms_notice c ''Memo database is unavailable.'' s
          | Some rows \<Rightarrow>
              let account = c_account_name (sv_client s c); (all, one, missing, failed) = texts
              in if strcaseeq what ''ALL''
                 then (case hide_all account rows of None \<Rightarrow> ms_notice c failed s | Some rows1 \<Rightarrow> ms_notice c all (put_memos rows1 s))
                 else (case parse_id (Some what) of
                         None \<Rightarrow> ms_notice c usage s
                       | Some i \<Rightarrow>
                           (case hide account i rows of
                              None \<Rightarrow> ms_notice c failed s
                            | Some (True, rows1) \<Rightarrow> ms_notice c one (put_memos rows1 s)
                            | Some (False, _) \<Rightarrow> ms_notice c missing s))))"

definition memo_delete :: "cref \<Rightarrow> string \<Rightarrow> server \<Rightarrow> server" where
  "memo_delete = memo_hide memoserv_db_delete_all memoserv_db_delete ''Syntax: DEL <memo-id|ALL>''
     (''All memos deleted.'', ''Memo deleted.'', ''No such memo.'', ''Memo deletion failed.'')"

definition memo_delete_sent :: "cref \<Rightarrow> string \<Rightarrow> server \<Rightarrow> server" where
  "memo_delete_sent = memo_hide memoserv_db_delete_all_sent memoserv_db_delete_sent ''Syntax: DELSENT <memo-id|ALL>''
     (''All sent memos removed from sent history.'', ''Sent memo removed from sent history.'', ''No such sent memo.'', ''Sent-history update failed.'')"

text \<open>A memo of the box, for \<open>REPLY\<close> and \<open>FORWARD\<close>.\<close>

definition with_memo :: "cref \<Rightarrow> int \<Rightarrow> (memo_row \<Rightarrow> server \<Rightarrow> server) \<Rightarrow> server \<Rightarrow> server" where
  "with_memo c i body s =
     (case memo_db s of
        None \<Rightarrow> ms_notice c ''Memo database is unavailable.'' s
      | Some rows \<Rightarrow>
          let (rows1, s1) = purge_expired rows s
          in case memoserv_db_get (c_account_name (sv_client s1 c)) i rows1 of
               Some (Some memo) \<Rightarrow> body memo s1
             | _ \<Rightarrow> ms_notice c ''No such memo.'' s1)"

definition memo_reply :: "cref \<Rightarrow> string \<Rightarrow> server \<Rightarrow> server" where
  "memo_reply c params = with_account c (\<lambda>s.
     let (id_text, rest) = tok1 params
     in case (parse_id id_text, Option.bind id_text (\<lambda>_. memo_text rest)) of
          (Some i, Some body) \<Rightarrow>
            if body = [] \<or> length body > IRCD_MEMOSERV_TEXT_MAX then ms_notice c ''Syntax: REPLY <memo-id> :<message>'' s
            else with_memo c i (\<lambda>memo s.
                   case store_memo c (mo_sender memo) body s of
                     (None, s1) \<Rightarrow> s1
                   | (Some j, s1) \<Rightarrow> memo_line c (''Reply memo #'' @ dec_int j @ '' sent to '' @ mo_sender memo @ ''.'') s1) s
        | _ \<Rightarrow> ms_notice c ''Syntax: REPLY <memo-id> :<message>'' s)"

definition memo_forward :: "cref \<Rightarrow> string \<Rightarrow> server \<Rightarrow> server" where
  "memo_forward c params = with_account c (\<lambda>s.
     let (id_text, rest) = tok1 params; (account, _) = tok1 rest
     in case (parse_id id_text, account) of
          (Some i, Some a) \<Rightarrow>
            with_memo c i (\<lambda>memo s.
              case store_memo c a (mo_body memo) s of
                (None, s1) \<Rightarrow> s1
              | (Some j, s1) \<Rightarrow> memo_line c (''Memo #'' @ dec_int j @ '' forwarded to '' @ a @ ''.'') s1) s
        | _ \<Rightarrow> ms_notice c ''Syntax: FORWARD <memo-id> <account>'' s)"

definition memo_help_texts :: "(string \<times> string) list" where
  "memo_help_texts =
     [(''SEND'', ''SEND <account> :<message> - send a memo to an enabled NickServ account.''),
      (''LIST'', ''LIST - show received memos with READ or UNREAD state.''),
      (''SENT'', ''SENT - show sent memos and whether recipients have read them.''),
      (''READ'', ''READ <memo-id> - read a received memo and mark it read.''),
      (''REPLY'', ''REPLY <memo-id> :<message> - reply to the memo sender.''),
      (''FORWARD'', ''FORWARD <memo-id> <account> - forward memo text to another enabled account.''),
      (''DEL'', ''DEL <memo-id>|ALL - hide one or all received memos from your inbox.''),
      (''DELETE'', ''DEL <memo-id>|ALL - hide one or all received memos from your inbox.''),
      (''DELSENT'', ''DELSENT <memo-id>|ALL - hide one or all memos from your sent history.''),
      (''STATUS'', ''STATUS - show visible stored and unread memo counts.'')]"

definition memo_help :: "cref \<Rightarrow> string \<Rightarrow> server \<Rightarrow> server" where
  "memo_help c params s =
     (case fst (tok1 params) of
        Some topic \<Rightarrow>
          (case find (\<lambda>e. strcaseeq topic (fst e)) memo_help_texts of
             Some (_, x) \<Rightarrow> ms_notice c x s
           | None \<Rightarrow> ms_notice c ''Unknown MemoServ help topic. Use /MEMOSERV HELP.'' s)
      | None \<Rightarrow>
          fold (ms_notice c)
            [''MemoServ commands require an identified NickServ account.'',
             ''Commands: SEND, LIST, SENT, READ, REPLY, FORWARD, DEL, DELSENT, STATUS, HELP'',
             ''DEL hides inbox rows; DELSENT hides sent rows. A row is reclaimed after both sides hide it.'',
             ''Use /MEMOSERV HELP <command> for command-specific help.'',
             ''You can also use: PRIVMSG MemoServ :<command>.''] s)"

definition memoserv_handle_message :: "cref \<Rightarrow> string \<Rightarrow> server \<Rightarrow> server" where
  "memoserv_handle_message c x s =
     (case strtok '' '' x of
        None \<Rightarrow> s
      | Some (command, params) \<Rightarrow>
          if strcaseeq command ''SEND'' then memo_send c params s
          else if strcaseeq command ''LIST'' then list_records False c s
          else if strcaseeq command ''SENT'' then list_records True c s
          else if strcaseeq command ''READ'' then memo_read c params s
          else if strcaseeq command ''REPLY'' then memo_reply c params s
          else if strcaseeq command ''FORWARD'' then memo_forward c params s
          else if strcaseeq command ''DEL'' \<or> strcaseeq command ''DELETE'' then memo_delete c params s
          else if strcaseeq command ''DELSENT'' then memo_delete_sent c params s
          else if strcaseeq command ''STATUS'' then memo_status c s
          else if strcaseeq command ''HELP'' then memo_help c params s
          else ms_notice c ''Unknown MemoServ command. Use /MEMOSERV HELP.'' s)"

subsection \<open>The command\<close>

definition memo_creating_command :: "string \<Rightarrow> bool" where
  "memo_creating_command x =
     (case strtok '' '' (take (IRCD_MESSAGE_BUFFER_SIZE - 1) x) of
        None \<Rightarrow> False
      | Some (command, _) \<Rightarrow> strcaseeq command ''SEND'' \<or> strcaseeq command ''REPLY'' \<or> strcaseeq command ''FORWARD'')"

definition sender_retained_count :: "string \<Rightarrow> server \<Rightarrow> nat option" where
  "sender_retained_count sender s =
     (if sender = [] then None
      else Option.bind (memo_db s) (memoserv_db_count_sender_outstanding sender
             (if cf_memoserv_retention_days (sv_config s) \<noteq> 0 then sv_clock s - retention_seconds s else 0)))"

definition memo_plain_notice :: "cref \<Rightarrow> string \<Rightarrow> server \<Rightarrow> server" where
  "memo_plain_notice c x s = sendf c ('':MemoServ!service@'' @ server_name s @ '' NOTICE '' @ c_nick (sv_client s c) @ '' :'' @ x) s"

definition command_memoserv_message :: "cref \<Rightarrow> string \<Rightarrow> server \<Rightarrow> server" where
  "command_memoserv_message c x s =
     (let account = c_account_name (sv_client s c); quota = cf_memoserv_sender_quota (sv_config s)
      in if account \<noteq> [] \<and> memo_creating_command x \<and> quota \<noteq> 0
         then (case sender_retained_count account s of
                 None \<Rightarrow> memo_plain_notice c ''Unable to verify your sent-memo quota.'' s
               | Some sent \<Rightarrow>
                   if sent \<ge> quota
                   then memo_plain_notice c (''You have reached your outstanding sent-memo limit of '' @ dec quota @
                          ''. Capacity returns when recipients delete memos or retention expires them.'') s
                   else memoserv_handle_message c x s)
         else memoserv_handle_message c x s)"

definition command_memoserv :: "cref \<Rightarrow> string option \<Rightarrow> server \<Rightarrow> command_result \<times> server" where
  "command_memoserv c params = registered_only c (\<lambda>s.
     (COMMAND_KEEP_CLIENT,
      command_memoserv_message c (case params of None \<Rightarrow> ''HELP'' | Some p \<Rightarrow> if p = [] then ''HELP'' else p) s))"

definition command_msinfo :: "cref \<Rightarrow> string option \<Rightarrow> server \<Rightarrow> command_result \<times> server" where
  "command_msinfo c params = netadmins_only c (\<lambda>s.
     case Option.bind params (strtok '' '') of
       None \<Rightarrow> ERR_NEEDMOREPARAMS c ''MSINFO'' s
     | Some (account, _) \<Rightarrow>
         (case (Option.bind (memo_db s) (memoserv_db_count account), Option.bind (memo_db s) (memoserv_db_unread_count account)) of
            (Some stored, Some unread) \<Rightarrow>
              (COMMAND_KEEP_CLIENT, memo_plain_notice c (take (IRCD_OUTPUT_BUFFER_SIZE - 1)
                 (''MEMOSERV account='' @ account @ '' stored='' @ dec stored @ '' unread='' @ dec unread @
                  '' quota='' @ dec (cf_memoserv_quota (sv_config s)) @ '' retention_days='' @ dec (unat (cf_memoserv_retention_days (sv_config s))))) s)
          | _ \<Rightarrow> (COMMAND_KEEP_CLIENT, memo_plain_notice c ''MemoServ database is unavailable.'' s)))"

definition command_mspurge :: "cref \<Rightarrow> string option \<Rightarrow> server \<Rightarrow> command_result \<times> server" where
  "command_mspurge c params = netadmins_only c (\<lambda>s.
     case Option.bind params (strtok '' '') of
       None \<Rightarrow> ERR_NEEDMOREPARAMS c ''MSPURGE'' s
     | Some (account, _) \<Rightarrow>
         if cf_memoserv_retention_days (sv_config s) = 0
         then (COMMAND_KEEP_CLIENT, memo_plain_notice c ''MemoServ automatic retention is disabled.'' s)
         else (case Option.bind (memo_db s)
                      (memoserv_db_purge_before (if account = ''*'' then None else Some account) (sv_clock s - retention_seconds s)) of
                 None \<Rightarrow> (COMMAND_KEEP_CLIENT, memo_plain_notice c ''MemoServ purge failed.'' s)
               | Some (n, rows) \<Rightarrow>
                   let s1 = memo_plain_notice c (''MemoServ purge deleted '' @ dec n @ '' expired memo'' @ (if n = 1 then [] else ''s'') @ ''.'') (put_memos rows s)
                   in (COMMAND_KEEP_CLIENT, snotice_broadcast SNOTICE_SERVICES
                         (''MemoServ purge by '' @ c_nick (sv_client s1 c) @ '': target='' @ account @ '' deleted='' @ dec n) s1)))"

subsection \<open>Lines of the service\<close>

lemma ms_notice_io [simp, intro!]: "io_only s (ms_notice c x s)"
  by (auto simp: ms_notice_def Let_def intro!: io_only_fold)

lemma memo_line_io [simp, intro!]: "io_only s (memo_line c x s)" "io_only s (memo_plain_notice c x s)"
  by (simp_all add: memo_line_def memo_plain_notice_def)

lemma notify_recipient_io [simp, intro!]: "io_only s (notify_online_recipient account sender i s)"
  by (auto simp: notify_online_recipient_def Let_def intro!: io_only_fold)

subsection \<open>Mailboxes\<close>

text \<open>
  The abstract service: what an account can do to the mailboxes.  \<open>quota\<close> bounds a box, \<open>horizon\<close> is the time before which memos have expired, if
  they expire.  A state is the last id and the table.
\<close>

type_synonym mailboxes = "int \<times> memo_row list"

inductive mail_step :: "nat \<Rightarrow> string \<Rightarrow> int option \<Rightarrow> mailboxes \<Rightarrow> mailboxes \<Rightarrow> bool" for quota account horizon where
  expire: "horizon = Some t \<Longrightarrow> mail_step quota account horizon (n, rows) (n, filter (\<lambda>m. \<not> mo_created_at m < t) rows)"
| send: "length (filter (in_box r) rows) < quota \<Longrightarrow>
    mail_step quota account horizon (n, rows) (n + 1, rows @ [\<lparr>mo_id = n + 1, mo_sender = account, mo_recipient = r, mo_body = b, mo_created_at = t,
      mo_read_at = 0, mo_sender_deleted = 0, mo_recipient_deleted = 0\<rparr>])"
| mark: "mail_step quota account horizon (n, rows)
    (n, map (\<lambda>m. if in_box account m \<and> mo_id m = i \<and> mo_read_at m = 0 then m\<lparr>mo_read_at := t\<rparr> else m) rows)"
| hide: "mail_step quota account horizon (n, rows) (n, map (\<lambda>m. if in_box account m \<and> P m then m\<lparr>mo_recipient_deleted := 1\<rparr> else m) rows)"
| hide_sent: "mail_step quota account horizon (n, rows) (n, map (\<lambda>m. if in_sent account m \<and> P m then m\<lparr>mo_sender_deleted := 1\<rparr> else m) rows)"
| reclaim: "mail_step quota account horizon (n, rows) (n, purge_fully_deleted_memos rows)"

abbreviation mail_steps :: "nat \<Rightarrow> string \<Rightarrow> int option \<Rightarrow> mailboxes \<Rightarrow> mailboxes \<Rightarrow> bool" where
  "mail_steps quota account horizon \<equiv> (mail_step quota account horizon)\<^sup>*\<^sup>*"

subsection \<open>The commands are steps of the mailboxes\<close>

definition memo_horizon :: "server \<Rightarrow> int option" where
  "memo_horizon s = (if cf_memoserv_retention_days (sv_config s) = 0 then None else Some (sv_clock s - retention_seconds s))"

definition mailboxes_of :: "server \<Rightarrow> mailboxes option" where
  "mailboxes_of s = map_option (Pair (w_memo_sequence (sv_world s))) (w_memos (sv_world s))"

text \<open>A command run by the client \<open>c\<close>.\<close>

definition memo_run :: "cref \<Rightarrow> server \<Rightarrow> server \<Rightarrow> bool" where
  "memo_run c s t \<longleftrightarrow>
     keeps c s t \<and> sv_client t = sv_client s \<and> sv_config t = sv_config s \<and> sv_clock t = sv_clock s \<and>
     (case mailboxes_of s of
        None \<Rightarrow> mailboxes_of t = None
      | Some b \<Rightarrow> \<exists>b'. mailboxes_of t = Some b' \<and>
          mail_steps (cf_memoserv_quota (sv_config s)) (c_account_name (sv_client s c)) (memo_horizon s) b b')"

lemma memo_run_refl [simp, intro!]: "memo_run c s s"
  by (simp add: memo_run_def split: option.split)

lemma memo_run_trans:
  assumes "memo_run c s t" "memo_run c t u"
  shows "memo_run c s u"
proof -
  have h: "memo_horizon t = memo_horizon s" using assms(1) by (simp add: memo_run_def memo_horizon_def retention_seconds_def)
  have "keeps c s u" using assms keeps_trans by (auto simp: memo_run_def)
  then show ?thesis
    using assms h unfolding memo_run_def by (auto split: option.splits intro: rtranclp_trans)
qed

lemma memo_run_io: "io_only s t \<Longrightarrow> memo_run c s t"
  using keeps_io [OF keeps_refl] by (auto simp: memo_run_def mailboxes_of_def io_fields split: option.split)

lemma memo_run_step:
  assumes "w_memos (sv_world s) = Some rows"
    and "mail_steps (cf_memoserv_quota (sv_config s)) (c_account_name (sv_client s c)) (memo_horizon s) (w_memo_sequence (sv_world s), rows) (n, rows')"
  shows "memo_run c s (s\<lparr>sv_world := (sv_world s)\<lparr>w_memos := Some rows', w_memo_sequence := n, w_memo_purge := p\<rparr>\<rparr>)"
  using assms keeps_fields(8) [OF keeps_refl] by (simp add: memo_run_def mailboxes_of_def)

lemma memo_run_then_io: "memo_run c s t \<Longrightarrow> io_only t u \<Longrightarrow> memo_run c s u"
  using memo_run_trans memo_run_io by blast

lemma put_memos_run:
  assumes "w_memos (sv_world s) = Some rows"
    and "mail_steps (cf_memoserv_quota (sv_config s)) (c_account_name (sv_client s c)) (memo_horizon s)
      (w_memo_sequence (sv_world s), rows) (w_memo_sequence (sv_world s), rows')"
  shows "memo_run c s (put_memos rows' s)"
  using memo_run_step [OF assms, of "w_memo_purge (sv_world s)"] by (simp add: put_memos_def)

lemma purge_expired_run:
  assumes "memo_db s = Some rows" "purge_expired rows s = (rows1, s1)"
  shows "memo_run c s s1" and "memo_db s1 = Some rows1" and "w_memos (sv_world s1) = Some rows1"
proof -
  have rows: "w_memos (sv_world s) = Some rows" "cf_memoserv_db (sv_config s) \<noteq> []" using assms(1) by (auto simp: memo_db_def split: if_splits)
  have step: "mail_steps q a (memo_horizon s) (n, rows) (n, filter (\<lambda>m. \<not> mo_created_at m < sv_clock s - retention_seconds s) rows)"
    if "cf_memoserv_retention_days (sv_config s) \<noteq> 0" for q a n
    by (rule r_into_rtranclp, rule mail_step.expire) (simp add: memo_horizon_def that)
  have result: "(rows1, s1) = (rows, s) \<or> cf_memoserv_retention_days (sv_config s) \<noteq> 0 \<and>
      rows1 = filter (\<lambda>m. \<not> mo_created_at m < sv_clock s - retention_seconds s) rows \<and>
      (\<exists>p. s1 = s\<lparr>sv_world := (sv_world s)\<lparr>w_memos := Some rows1, w_memo_purge := p\<rparr>\<rparr>)"
    using assms(2) by (auto simp: purge_expired_def Let_def case_prod_beta memoserv_db_purge_before_def split: if_splits option.splits)
  show "memo_run c s s1"
    using result memo_run_step [OF rows(1) step, of c] by auto
  show "memo_db s1 = Some rows1" "w_memos (sv_world s1) = Some rows1"
    using result rows by (auto simp: memo_db_def)
qed

lemma memo_notice_run:
  assumes "memo_run c s t"
  shows "memo_run c s (ms_notice d x t)" and "memo_run c s (memo_line d x t)" and "memo_run c s (memo_plain_notice d x t)"
  by (rule memo_run_then_io [OF assms], simp)+

lemma store_memo_run: "memo_run c s (snd (store_memo c name body s))"
proof (cases "load_enabled_account s name")
  case None
  then show ?thesis by (simp add: store_memo_def memo_notice_run)
next
  case (Some recipient)
  show ?thesis
  proof (cases "memo_db s")
    case None
    then show ?thesis using Some by (simp add: store_memo_def memo_notice_run)
  next
    case (Some rows)
    obtain rows1 s1 where p: "purge_expired rows s = (rows1, s1)" by fastforce
    note s1 = purge_expired_run(1) [OF Some p, of c] purge_expired_run(2,3) [OF Some p]
    have same: "sv_client s1 = sv_client s" "sv_config s1 = sv_config s" "sv_clock s1 = sv_clock s" using s1(1) by (simp_all add: memo_run_def)
    have sent: "memo_run c s (notify_online_recipient x y i (s1\<lparr>sv_world := (sv_world s1)\<lparr>w_memos := Some rows2, w_memo_sequence := i\<rparr>\<rparr>))"
      if "length (filter (in_box (ac_name recipient)) rows1) < cf_memoserv_quota (sv_config s1)"
        and "memoserv_db_send (w_memo_insert (sv_world s1)) (sv_clock s1) (c_account_name (sv_client s1 c)) (ac_name recipient) body (w_memo_sequence (sv_world s1)) rows1 = Some (i, rows2)"
      for x y i rows2
    proof -
      have "i = w_memo_sequence (sv_world s1) + 1" "rows2 = rows1 @ [\<lparr>mo_id = w_memo_sequence (sv_world s1) + 1,
          mo_sender = c_account_name (sv_client s1 c), mo_recipient = ac_name recipient, mo_body = body, mo_created_at = sv_clock s1,
          mo_read_at = 0, mo_sender_deleted = 0, mo_recipient_deleted = 0\<rparr>]"
        using that(2) by (auto simp: memoserv_db_send_def split: if_splits)
      then have "mail_steps (cf_memoserv_quota (sv_config s1)) (c_account_name (sv_client s1 c)) (memo_horizon s1) (w_memo_sequence (sv_world s1), rows1) (i, rows2)"
        using mail_step.send [OF that(1)] by (metis r_into_rtranclp)
      from memo_run_step [OF s1(3) this, of "w_memo_purge (sv_world s1)"]
      have "memo_run c s1 (s1\<lparr>sv_world := (sv_world s1)\<lparr>w_memos := Some rows2, w_memo_sequence := i\<rparr>\<rparr>)" by simp
      then show ?thesis using memo_run_trans [OF s1(1)] memo_run_then_io [OF _ notify_recipient_io] by blast
    qed
    show ?thesis
      using Some \<open>load_enabled_account s name = Some recipient\<close> p s1(1) sent same
      by (auto simp: store_memo_def Let_def memoserv_db_count_def split: option.split intro!: memo_notice_run)
  qed
qed

lemma with_account_run: "(\<And>t. memo_run c t (body t)) \<Longrightarrow> memo_run c s (with_account c body s)"
  by (simp add: with_account_def memo_notice_run)

lemma with_memo_run:
  assumes "\<And>memo t. memo_run c t (body memo t)"
  shows "memo_run c s (with_memo c i body s)"
proof (cases "memo_db s")
  case (Some rows)
  obtain rows1 s1 where p: "purge_expired rows s = (rows1, s1)" by fastforce
  note s1 = purge_expired_run(1) [OF Some p, of c]
  show ?thesis
    using Some p s1 memo_run_trans [OF s1 assms] by (auto simp: with_memo_def split: option.split intro!: memo_notice_run)
qed (simp add: with_memo_def memo_notice_run)

lemma memo_send_run: "memo_run c s (memo_send c params s)"
  unfolding memo_send_def
  by (rule with_account_run) (auto simp: case_prod_beta store_memo_run memo_notice_run split: option.split intro!: memo_notice_run)

lemma memo_reply_run: "memo_run c s (memo_reply c params s)"
  unfolding memo_reply_def
  by (rule with_account_run) (auto simp: case_prod_beta memo_notice_run split: option.split intro!: with_memo_run store_memo_run memo_notice_run)

lemma memo_forward_run: "memo_run c s (memo_forward c params s)"
  unfolding memo_forward_def
  by (rule with_account_run) (auto simp: case_prod_beta memo_notice_run split: option.split intro!: with_memo_run store_memo_run memo_notice_run)

lemma memo_status_run: "memo_run c s (memo_status c s)"
  unfolding memo_status_def
  by (rule with_account_run)
     (auto simp: case_prod_beta Let_def memo_notice_run purge_expired_run(1) [OF _ prod.collapse [symmetric]] split: option.split intro!: memo_notice_run)

lemma list_records_run: "memo_run c s (list_records sent c s)"
proof -
  have fold: "memo_run c s (fold (\<lambda>m s. memo_line c (memo_entry sent' m s) s) memos t)" if "memo_run c s t" for sent' memos s t
    by (rule memo_run_then_io [OF that], rule io_only_fold) simp
  show ?thesis
    unfolding list_records_def
    by (rule with_account_run)
       (auto simp: case_prod_beta Let_def memo_notice_run purge_expired_run(1) [OF _ prod.collapse [symmetric]] split: option.split intro!: memo_notice_run fold)
qed

lemma memo_read_run: "memo_run c s (memo_read c params s)"
proof -
  have marked: "memo_run c s (put_memos rows2 (snd (purge_expired rows s)))"
    if "memo_db s = Some rows" "memoserv_db_mark_read (c_account_name (sv_client (snd (purge_expired rows s)) c)) i at (fst (purge_expired rows s)) = Some rows2"
    for s rows rows2 i at
  proof -
    let ?s1 = "snd (purge_expired rows s)" and ?rows1 = "fst (purge_expired rows s)"
    note s1 = purge_expired_run(1) [OF that(1) prod.collapse [symmetric], of c] purge_expired_run(3) [OF that(1) prod.collapse [symmetric]]
    have "memo_run c ?s1 (put_memos (map (\<lambda>m. if in_box (c_account_name (sv_client ?s1 c)) m \<and> mo_id m = i \<and> mo_read_at m = 0 then m\<lparr>mo_read_at := at\<rparr> else m) ?rows1) ?s1)"
      by (rule put_memos_run [OF s1(2)], rule r_into_rtranclp, rule mail_step.mark)
    from memo_run_trans [OF s1(1) this] show ?thesis using that(2) by (simp add: memoserv_db_mark_read_def split: if_splits)
  qed
  show ?thesis
    unfolding memo_read_def
    by (rule with_account_run)
       (auto simp: case_prod_beta Let_def memo_notice_run purge_expired_run(1) [OF _ prod.collapse [symmetric]]
          split: option.split intro!: memo_notice_run elim: marked)
qed

lemma memo_hide_run:
  assumes "\<And>account rows rows'. hide_all account rows = Some rows' \<Longrightarrow> (\<And>q h n. mail_steps q account h (n, rows) (n, rows'))"
    and "\<And>account i rows rows'. hide account i rows = Some (True, rows') \<Longrightarrow> (\<And>q h n. mail_steps q account h (n, rows) (n, rows'))"
  shows "memo_run c s (memo_hide hide_all hide usage texts c params s)"
proof -
  have put: "memo_run c t (put_memos rows' t)"
    if "memo_db t = Some rows" "\<And>q h n. mail_steps q (c_account_name (sv_client t c)) h (n, rows) (n, rows')" for t rows rows'
    by (rule put_memos_run [OF _ that(2)]) (use that(1) in \<open>auto simp: memo_db_def split: if_splits\<close>)
  show ?thesis
    unfolding memo_hide_def
    by (rule with_account_run)
       (auto simp: case_prod_beta Let_def memo_notice_run split: option.split bool.split intro!: memo_notice_run intro: put assms)
qed

lemma hide_steps:
  "mail_steps q a h (n, rows) (n, purge_fully_deleted_memos (map (\<lambda>m. if in_box a m \<and> P m then m\<lparr>mo_recipient_deleted := 1\<rparr> else m) rows))"
  "mail_steps q a h (n, rows) (n, purge_fully_deleted_memos (map (\<lambda>m. if in_sent a m \<and> P m then m\<lparr>mo_sender_deleted := 1\<rparr> else m) rows))"
  by (rule converse_rtranclp_into_rtranclp, rule mail_step.hide, rule r_into_rtranclp, rule mail_step.reclaim)
     (rule converse_rtranclp_into_rtranclp, rule mail_step.hide_sent, rule r_into_rtranclp, rule mail_step.reclaim)

lemma memo_delete_run: "memo_run c s (memo_delete c params s)" "memo_run c s (memo_delete_sent c params s)"
  unfolding memo_delete_def memo_delete_sent_def
  using hide_steps(1) [where P = "\<lambda>_. True"] hide_steps(2) [where P = "\<lambda>_. True"]
  by (auto intro!: memo_hide_run simp: memoserv_db_delete_all_def memoserv_db_delete_def memoserv_db_delete_all_sent_def memoserv_db_delete_sent_def
      hide_steps split: if_splits)

lemma memo_help_run: "memo_run c s (memo_help c params s)"
  by (auto simp: memo_help_def split: option.split intro!: memo_notice_run)

lemma handle_message_run: "memo_run c s (memoserv_handle_message c x s)"
  by (simp add: memoserv_handle_message_def memo_send_run list_records_run memo_read_run memo_reply_run memo_forward_run memo_delete_run
      memo_status_run memo_help_run memo_notice_run split: option.split)

lemma command_memoserv_message_run: "memo_run c s (command_memoserv_message c x s)"
  by (simp add: command_memoserv_message_def Let_def handle_message_run memo_notice_run split: option.split)

lemma command_memoserv_keeps: "keeps c s (snd (command_memoserv c params s))"
  using command_memoserv_message_run unfolding command_memoserv_def by (intro registered_only_keeps) (simp add: memo_run_def)

lemma memo_admin_keeps: "keeps c s (snd (command_msinfo c params s))" "keeps c s (snd (command_mspurge c params s))"
proof -
  note io = keeps_io [OF keeps_refl memo_line_io(2)]
  have put: "keeps c t (put_memos rows t)" for rows t using keeps_fields(8) [OF keeps_refl] by (simp add: put_memos_def)
  show "keeps c s (snd (command_msinfo c params s))"
    unfolding command_msinfo_def by (rule netadmins_only_keeps) (simp add: io replies_keeps split: option.split)
  show "keeps c s (snd (command_mspurge c params s))"
    unfolding command_mspurge_def
    by (rule netadmins_only_keeps)
       (auto simp: io replies_keeps Let_def split: option.split intro!: keeps_sends(2) keeps_io [OF put memo_line_io(2)])
qed

subsection \<open>What the steps keep\<close>

text \<open>Ids are given out once and every box holds at most the quota.\<close>

definition boxes_ok :: "nat \<Rightarrow> mailboxes \<Rightarrow> bool" where
  "boxes_ok quota b \<longleftrightarrow>
     distinct (map mo_id (snd b)) \<and> list_all (\<lambda>m. mo_id m \<le> fst b) (snd b) \<and>
     list_all (\<lambda>m. length (filter (in_box (mo_recipient m)) (snd b)) \<le> quota) (snd b)"

lemma in_box_same: "strcaseeq r a \<Longrightarrow> in_box r = in_box a"
  by (simp add: in_box_def strcaseeq_def fun_eq_iff)

lemma boxes_ok_iff:
  "boxes_ok quota (n, rows) \<longleftrightarrow>
     distinct (map mo_id rows) \<and> (\<forall>m \<in> set rows. mo_id m \<le> n) \<and> (\<forall>a. length (filter (in_box a) rows) \<le> quota)"
proof -
  have "length (filter (in_box a) rows) \<le> quota" if "\<forall>m \<in> set rows. length (filter (in_box (mo_recipient m)) rows) \<le> quota" for a
  proof (cases "filter (in_box a) rows")
    case (Cons m ms)
    then have "m \<in> set rows" "in_box a m" by (auto simp: filter_eq_Cons_iff)
    then show ?thesis using that in_box_same by (metis in_box_def)
  qed simp
  then show ?thesis by (auto simp: boxes_ok_def list_all_iff)
qed

lemma filter_map_le: "(\<And>x. P (f x) \<Longrightarrow> P x) \<Longrightarrow> length (filter P (map f xs)) \<le> length (filter P xs)"
  by (induction xs) (auto simp: le_Suc_eq)

lemma boxes_ok_map:
  assumes "boxes_ok quota (n, rows)" "\<And>m. mo_id (f m) = mo_id m" "\<And>a m. in_box a (f m) \<Longrightarrow> in_box a m"
  shows "boxes_ok quota (n, map f rows)"
proof -
  have "map mo_id (map f rows) = map mo_id rows" using assms(2) by simp
  moreover have "length (filter (in_box a) (map f rows)) \<le> length (filter (in_box a) rows)" for a
    by (rule filter_map_le) (rule assms(3))
  ultimately show ?thesis using assms(1,2) unfolding boxes_ok_iff by (metis (mono_tags, lifting) image_iff le_trans set_map)
qed

lemma boxes_ok_filter:
  assumes "boxes_ok quota (n, rows)"
  shows "boxes_ok quota (n, filter P rows)"
proof -
  have "length (filter (in_box a) (filter P rows)) \<le> length (filter (in_box a) rows)" for a
    by (induction rows) (auto simp: le_Suc_eq)
  then show ?thesis using assms unfolding boxes_ok_iff by (auto simp: distinct_map_filter intro: le_trans)
qed

lemma mail_step_ok: "mail_step quota a h b b' \<Longrightarrow> boxes_ok quota b \<Longrightarrow> boxes_ok quota b'"
proof (induction rule: mail_step.induct)
  case (send r rows n body t)
  have "length (filter (in_box a') (rows @ [m])) \<le> quota"
    if "mo_recipient m = r" "mo_recipient_deleted m = 0" for a' m
    using that send in_box_same [of r a'] by (cases "strcaseeq r a'") (auto simp: boxes_ok_iff in_box_def)
  moreover have "n + 1 \<notin> mo_id ` set rows" using send(2) by (force simp: boxes_ok_iff)
  ultimately show ?case using send(2) unfolding boxes_ok_iff by (auto intro: order.trans)
qed (auto simp: purge_fully_deleted_memos_def in_box_def intro!: boxes_ok_map boxes_ok_filter split: if_splits)

lemma mail_steps_ok: "mail_steps quota a h b b' \<Longrightarrow> boxes_ok quota b \<Longrightarrow> boxes_ok quota b'"
  by (induction rule: rtranclp_induct) (auto intro: mail_step_ok)

text \<open>A row that neither comes from the account nor goes to it.\<close>

definition foreign_memo :: "string \<Rightarrow> memo_row \<Rightarrow> bool" where
  "foreign_memo a m \<longleftrightarrow> \<not> strcaseeq (mo_sender m) a \<and> \<not> strcaseeq (mo_recipient m) a"

definition memo_due :: "int option \<Rightarrow> memo_row \<Rightarrow> bool" where
  "memo_due h m \<longleftrightarrow> mo_sender_deleted m = 1 \<and> mo_recipient_deleted m = 1 \<or> (case h of None \<Rightarrow> False | Some t \<Rightarrow> mo_created_at m < t)"

text \<open>Deleting an account from the store leaves exactly the rows of others; resetting the service makes the next command purge.\<close>

lemma delete_account_foreign:
  assumes "memoserv_db_delete_account a rows = Some (n, rows')"
  shows "set rows' = {m \<in> set rows. foreign_memo a m}" and "n + length rows' = length rows"
  using assms sum_length_filter_compl [of "\<lambda>m. strcaseeq (mo_sender m) a \<or> strcaseeq (mo_recipient m) a" rows]
  by (auto simp: memoserv_db_delete_account_def foreign_memo_def Let_def split: if_splits)

lemma reset_then_purge:
  assumes "cf_memoserv_retention_days (sv_config s) \<noteq> 0" "sv_clock s - retention_seconds s > 0"
  shows "fst (purge_expired rows (memoserv_reset_runtime_state s)) = filter (\<lambda>m. \<not> mo_created_at m < sv_clock s - retention_seconds s) rows"
  using assms by (simp add: purge_expired_def memoserv_reset_runtime_state_def memoserv_db_purge_before_def retention_seconds_def Let_def)

lemma foreign_mem_map:
  assumes "foreign_memo a m" "\<And>x. f x \<noteq> x \<Longrightarrow> \<not> foreign_memo a x \<and> \<not> foreign_memo a (f x)"
  shows "m \<in> set (map f rows) \<longleftrightarrow> m \<in> set rows"
  using assms by (force simp: image_iff)

lemma mail_step_foreign:
  assumes "mail_step quota a h b b'" "foreign_memo a m"
  shows "m \<in> set (snd b') \<Longrightarrow> m \<in> set (snd b)" and "m \<in> set (snd b) \<Longrightarrow> \<not> memo_due h m \<Longrightarrow> m \<in> set (snd b')"
  using assms
  by (induction rule: mail_step.induct)
     (auto simp: purge_fully_deleted_memos_def memo_due_def foreign_memo_def in_box_def in_sent_def image_iff strcaseeq_def split: if_splits)

lemma mail_steps_foreign:
  assumes "mail_steps quota a h b b'" "foreign_memo a m" "\<not> memo_due h m"
  shows "m \<in> set (snd b') \<longleftrightarrow> m \<in> set (snd b)"
  using assms(1) by (induction rule: rtranclp_induct) (use mail_step_foreign [OF _ assms(2)] assms(3) in blast)+

subsection \<open>Properties\<close>

lemma command_memoserv_run: "memo_run c s (snd (command_memoserv c params s))"
  by (simp add: command_memoserv_def registered_only_def command_require_registered_def command_memoserv_message_run memo_run_io)

lemma store_memo_stored:
  assumes "store_memo c name body s = (Some j, t)"
  obtains recipient rows rows1 s1 where
    "load_enabled_account s name = Some recipient" "memo_db s = Some rows" "purge_expired rows s = (rows1, s1)"
    "memoserv_db_send (w_memo_insert (sv_world s1)) (sv_clock s1) (c_account_name (sv_client s1 c)) (ac_name recipient) body (w_memo_sequence (sv_world s1)) rows1
       = Some (j, the (w_memos (sv_world t)))"
    "w_memos (sv_world t) \<noteq> None"
proof -
  have io: "w_memos (sv_world (notify_online_recipient x y i u)) = w_memos (sv_world u)" for x y i u
    using notify_recipient_io by (metis io_fields)
  show thesis
    using assms that [OF _ _ prod.collapse [symmetric]]
    by (auto simp: store_memo_def case_prod_beta Let_def io split: option.splits if_splits)
qed

lemma load_enabled_account_text: "load_enabled_account s name = Some a \<Longrightarrow> stored_text_ok IRC_NICK_MAX (ac_name a)"
  by (auto simp: load_enabled_account_def nickserv_db_get_def account_from_stmt_def bind_eq_Some_conv split: option.splits if_splits)

text \<open>
  C20: every MemoServ command of a client refines the abstract service: it takes the mailboxes by steps of the client's own account - sending under its
  name to a box with room, marking or hiding rows of its own, letting expired or twice hidden rows go - and by no others.  If MemoServ has no
  store, the command leaves it so.
\<close>

theorem memo_commands_refine_mailboxes:
  shows "case mailboxes_of s of
      None \<Rightarrow> mailboxes_of (snd (command_memoserv c params s)) = None
    | Some b \<Rightarrow> \<exists>b'. mailboxes_of (snd (command_memoserv c params s)) = Some b' \<and>
        mail_steps (cf_memoserv_quota (sv_config s)) (c_account_name (sv_client s c)) (memo_horizon s) b b'"
  using command_memoserv_run [of c s params] by (simp add: memo_run_def)

text \<open>
  C19: a MemoServ command keeps the ids of the memos distinct and every box within the quota, and of the memos between two other accounts
  it neither removes, changes nor forges any, unless the memo has expired or both of them have hidden it.
\<close>

theorem memos_of_others_untouched:
  assumes "mailboxes_of s = Some b" "boxes_ok (cf_memoserv_quota (sv_config s)) b"
  shows "\<exists>b'. mailboxes_of (snd (command_memoserv c params s)) = Some b' \<and> boxes_ok (cf_memoserv_quota (sv_config s)) b' \<and>
    (\<forall>m. foreign_memo (c_account_name (sv_client s c)) m \<and> \<not> memo_due (memo_horizon s) m \<longrightarrow> (m \<in> set (snd b') \<longleftrightarrow> m \<in> set (snd b)))"
proof -
  obtain b' where b': "mailboxes_of (snd (command_memoserv c params s)) = Some b'"
      "mail_steps (cf_memoserv_quota (sv_config s)) (c_account_name (sv_client s c)) (memo_horizon s) b b'"
    using command_memoserv_run [of c s params] assms(1) by (auto simp: memo_run_def)
  show ?thesis using b'(1) mail_steps_ok [OF b'(2) assms(2)] mail_steps_foreign [OF b'(2)] by blast
qed

text \<open>
  C21: a memo that is accepted is delivered: the receiver, looking it up by the id the sender was given, gets the text, the name of the
  sender's account and an unread mark.
\<close>

theorem stored_memo_is_delivered:
  assumes "mailboxes_of s = Some b" "boxes_ok q b" "0 \<le> fst b"
    and "CHR 0x00 \<notin> set body" "CHR 0x00 \<notin> set (c_account_name (sv_client s c))"
    and "store_memo c name body s = (Some j, t)"
  shows "\<exists>recipient rows m. load_enabled_account s name = Some recipient \<and> w_memos (sv_world t) = Some rows \<and>
    memoserv_db_get (ac_name recipient) j rows = Some (Some m) \<and>
    mo_sender m = c_account_name (sv_client s c) \<and> mo_body m = body \<and> mo_read_at m = 0"
proof -
  obtain recipient rows rows1 s1 where
    r: "load_enabled_account s name = Some recipient" and db: "memo_db s = Some rows" and p: "purge_expired rows s = (rows1, s1)" and
    sent: "memoserv_db_send (w_memo_insert (sv_world s1)) (sv_clock s1) (c_account_name (sv_client s1 c)) (ac_name recipient) body (w_memo_sequence (sv_world s1)) rows1
       = Some (j, the (w_memos (sv_world t)))" and t: "w_memos (sv_world t) \<noteq> None"
    using store_memo_stored [OF assms(6)] by blast
  note run = purge_expired_run(1) [OF db p, of c] purge_expired_run(3) [OF db p]
  have b: "b = (w_memo_sequence (sv_world s), rows)" using assms(1) db by (auto simp: mailboxes_of_def memo_db_def split: if_splits)
  have seq: "w_memo_sequence (sv_world s1) = w_memo_sequence (sv_world s)" and sub: "set rows1 \<subseteq> set rows"
    using p by (auto simp: purge_expired_def Let_def case_prod_beta memoserv_db_purge_before_def split: if_splits option.splits)
  have "mo_id x \<noteq> j" if "x \<in> set rows1" for x
    using that sub assms(2) sent unfolding b boxes_ok_iff by (force simp: memoserv_db_send_def seq split: if_splits)
  then have none: "find (\<lambda>m. in_box (ac_name recipient) m \<and> mo_id m = j) rows1 = None" by (auto simp: find_None_iff)
  have "find P (xs @ [m]) = Some m" if "find P xs = None" "P m" for P and xs :: "memo_row list" and m
    using that by (induction xs) (auto split: if_splits)
  from this [OF none] show ?thesis
    using r t sent assms(3,4,5) run(1) load_enabled_account_text [OF r]
    by (auto simp: memoserv_db_send_def memoserv_db_get_def fill_memo_def stored_text_ok_def memo_account_fits_def has_line_break_def
        in_box_def strcaseeq_def b seq memo_run_def split: if_splits)
qed

definition example_memo :: memo_row where
  "example_memo = \<lparr>mo_id = 1, mo_sender = ''bob'', mo_recipient = ''carol'', mo_body = ''hello'', mo_created_at = 900, mo_read_at = 0,
     mo_sender_deleted = 0, mo_recipient_deleted = 0\<rparr>"

definition example_account :: account_row where
  "example_account = \<lparr>ac_name = ''bob'', ac_password_hash = ''x'', ac_vhost = [], ac_enabled = 1, ac_email = [], ac_email_verified = 0, ac_pending_email = [],
     ac_email_verify_token_hash = [], ac_email_verify_expires_at = 0, ac_reset_token_hash = [], ac_reset_expires_at = 0, ac_created_at = 1,
     ac_updated_at = 1, ac_last_identified_at = 0\<rparr>"

definition memo_room :: server where
  "memo_room = upd_client 0 (c_account_name_update (\<lambda>_. ''alice''))
     (example_room\<lparr>sv_world := world_blank\<lparr>w_memos := Some [example_memo], w_memo_sequence := 1, w_accounts := Some [example_account]\<rparr>\<rparr>)"

lemma memo_room_fields:
  "mailboxes_of memo_room = Some (1, [example_memo])" "sv_config memo_room = config_blank" "c_account_name (sv_client memo_room 0) = ''alice''"
  "boxes_ok (cf_memoserv_quota config_blank) (1, [example_memo])" "memo_horizon memo_room = None"
  by (simp_all add: memo_room_def mailboxes_of_def boxes_ok_def example_memo_def in_box_def config_blank_def memo_horizon_def upd_client_def world_blank_def)

theorem memos_of_others_untouched_witness:
  "\<exists>b'. mailboxes_of (snd (command_memoserv 0 (Some ''DEL ALL'') memo_room)) = Some b' \<and> example_memo \<in> set (snd b')"
  using memos_of_others_untouched [OF memo_room_fields(1), of 0 "Some ''DEL ALL''"] memo_room_fields
  by (fastforce simp: foreign_memo_def memo_due_def example_memo_def strcaseeq_def ascii_lower_def)

lemma memo_room_store:
  "fst (store_memo 0 ''bob'' ''hi'' memo_room) = Some 2"
  by (simp add: store_memo_def load_enabled_account_def nickserv_db_open_def nickserv_db_get_def account_name_valid_def oper_text_fits_def
      has_line_break_def account_from_stmt_def stored_text_ok_def to_int32_def memo_db_def purge_expired_def memoserv_db_count_def memo_account_fits_def
      memoserv_db_send_def memo_room_def example_memo_def example_account_def in_box_def config_blank_def upd_client_def world_blank_def
      strcaseeq_def Let_def)

theorem stored_memo_is_delivered_witness:
  "\<exists>rows m. w_memos (sv_world (snd (store_memo 0 ''bob'' ''hi'' memo_room))) = Some rows \<and>
     memoserv_db_get ''bob'' 2 rows = Some (Some m) \<and> mo_sender m = ''alice'' \<and> mo_body m = ''hi''"
proof -
  have "load_enabled_account memo_room ''bob'' = Some example_account"
    by (simp add: load_enabled_account_def nickserv_db_open_def nickserv_db_get_def account_name_valid_def oper_text_fits_def
      has_line_break_def account_from_stmt_def stored_text_ok_def to_int32_def memo_room_def example_account_def config_blank_def upd_client_def
      world_blank_def strcaseeq_def)
  then show ?thesis
    using stored_memo_is_delivered [OF memo_room_fields(1,4), of "''hi''" 0 "''bob''" 2 "snd (store_memo 0 ''bob'' ''hi'' memo_room)"]
      memo_room_store memo_room_fields(3)
    by (auto simp: prod_eq_iff example_account_def)
qed

end
