(* ===== verification/NickServ.thy ===== *)
theory NickServ
  imports MemoServ
begin

section \<open>NickServ and SASL (src/nickserv.c, src/commands/nickserv.c, identify.c, authenticate.c)\<close>

text \<open>
  Registering nicknames and proving that one owns them, by IDENTIFY, by the service and by SASL PLAIN, which all end in
  \<open>nickserv_identify\<close>.  Mails are handed to \<open>mail_send_async\<close>, recorded in the journal.  The payload of SASL is the field
  \<open>c_sasl_buffer\<close>; its capacity is not modelled, since every frame that is added is longer than the room left and so asks for memory.
\<close>

abbreviation IRCD_RESET_TOKEN_BYTES :: nat where "IRCD_RESET_TOKEN_BYTES \<equiv> 16"

abbreviation SHA256_DIGEST_LENGTH :: nat where "SHA256_DIGEST_LENGTH \<equiv> 32"

abbreviation IRCD_MAIL_SUBJECT_MAX :: nat where "IRCD_MAIL_SUBJECT_MAX \<equiv> 127"

abbreviation IRCD_MAIL_BODY_MAX :: nat where "IRCD_MAIL_BODY_MAX \<equiv> 1023"

abbreviation IRCD_SASL_FRAME_MAX :: nat where "IRCD_SASL_FRAME_MAX \<equiv> 400"

abbreviation IRCD_SASL_ENCODED_MAX :: nat where "IRCD_SASL_ENCODED_MAX \<equiv> 800"

abbreviation IRCD_SASL_DECODED_MAX :: nat where "IRCD_SASL_DECODED_MAX \<equiv> 600"

subsection \<open>Tokens and mail\<close>

definition nickserv_notice :: "cref \<Rightarrow> string \<Rightarrow> server \<Rightarrow> server" where
  "nickserv_notice c x s = sendf c ('':NickServ!service@'' @ server_name s @ '' NOTICE '' @ c_nick (sv_client s c) @ '' :'' @ x) s"

definition generate_token :: "server \<Rightarrow> string option \<times> server" where
  "generate_token s =
     (case w_random (sv_world s) of
        [] \<Rightarrow> (None, s)
      | r # rs \<Rightarrow> (map_option (\<lambda>bytes. concat (map hex_byte (take IRCD_RESET_TOKEN_BYTES bytes))) r, s\<lparr>sv_world := (sv_world s)\<lparr>w_random := rs\<rparr>\<rparr>))"

definition hash_token :: "server \<Rightarrow> string \<Rightarrow> string" where
  "hash_token s token = concat (map hex_byte (take SHA256_DIGEST_LENGTH (w_sha256 (sv_world s) token)))"

text \<open>One \<open>@\<close> with something on both sides, and a last dot in the domain with something on both sides.\<close>

definition valid_email :: "string \<Rightarrow> bool" where
  "valid_email address \<longleftrightarrow>
     3 \<le> length address \<and> length address \<le> IRCD_EMAIL_MAX \<and> list_all (\<lambda>x. code x > 32 \<and> code x \<noteq> 127) address \<and>
     (let local = takeWhile (\<lambda>x. x \<noteq> CHR ''@'') address; rest = dropWhile (\<lambda>x. x \<noteq> CHR ''@'') address; domain = drop 1 rest;
          top = takeWhile (\<lambda>x. x \<noteq> CHR ''.'') (rev domain)
      in rest \<noteq> [] \<and> local \<noteq> [] \<and> CHR ''@'' \<notin> set domain \<and> domain \<noteq> [] \<and>
         CHR ''.'' \<in> set domain \<and> length domain \<noteq> length top + 1 \<and> top \<noteq> [])"

definition mail_available :: "server \<Rightarrow> bool" where
  "mail_available s \<longleftrightarrow> cf_sendmail_path (sv_config s) \<noteq> [] \<and> cf_mail_from (sv_config s) \<noteq> []"

definition mail_body :: "server \<Rightarrow> string \<Rightarrow> string \<Rightarrow> bool \<Rightarrow> string" where
  "mail_body s account token verification =
     (let network = cf_network_name (sv_config s); nl2 = [LF, LF];
          lifetime = (if verification then cf_nickserv_verify_seconds (sv_config s) else cf_nickserv_reset_seconds (sv_config s))
      in if verification
         then ''A request was made to verify this email address for NickServ account '' @ account @ '' on '' @ network @ ''.'' @ nl2 @
              ''Verification token: '' @ token @ nl2 @ ''On IRC, use: /NICKSERV VERIFY '' @ token @ nl2 @
              ''This token expires in '' @ dec (unat lifetime) @ '' seconds. If you did not request this, ignore this message.''
         else ''A password reset was requested for NickServ account '' @ account @ '' on '' @ network @ ''.'' @ nl2 @
              ''Reset token: '' @ token @ nl2 @ ''On IRC, use: /NICKSERV RESET '' @ account @ '' '' @ token @ '' <new-password>'' @ nl2 @
              ''This token expires in '' @ dec (unat lifetime) @
              '' seconds and can be used only once. If you did not request this, ignore this message.'')"

definition send_token_mail :: "string \<Rightarrow> string \<Rightarrow> string \<Rightarrow> bool \<Rightarrow> server \<Rightarrow> bool \<times> server" where
  "send_token_mail to account token verification s =
     (if \<not> mail_available s then (False, s)
      else (w_mail_queued (sv_world s),
            s\<lparr>sv_world := (sv_world s)\<lparr>w_journal := w_journal (sv_world s) @
              [JournalMail (take IRCD_EMAIL_MAX to) (take IRCD_EMAIL_MAX (cf_mail_from (sv_config s)))
                 (take IRCD_MAIL_SUBJECT_MAX (cf_network_name (sv_config s) @ '' NickServ '' @
                    (if verification then ''email verification'' else ''password reset'')))
                 (take IRCD_MAIL_BODY_MAX (mail_body s account token verification))]\<rparr>\<rparr>))"

subsection \<open>Identifying\<close>

definition apply_account :: "cref \<Rightarrow> account_row \<Rightarrow> server \<Rightarrow> server" where
  "apply_account c account s =
     upd_client c (\<lambda>cl.
       let cl1 = cl\<lparr>c_account_name := take IRC_NICK_MAX (ac_name account), c_modes := client_mode_add (c_modes cl) CLIENT_MODE_REGISTERED\<rparr>
       in if ac_vhost account \<noteq> []
          then if \<not> client_mode_has (c_modes cl1) CLIENT_MODE_VHOST \<or> c_account_vhost_active cl1
               then cl1\<lparr>c_display_host := take IRC_HOST_MAX (ac_vhost account),
                      c_modes := client_mode_add (client_mode_remove (c_modes cl1) CLIENT_MODE_CLOAKED) CLIENT_MODE_VHOST,
                      c_account_vhost_active := True\<rparr>
               else cl1
          else if c_account_vhost_active cl1
          then usermode_apply_cloak s (cl1\<lparr>c_account_vhost_active := False, c_modes := client_mode_remove (c_modes cl1) CLIENT_MODE_VHOST\<rparr>)
          else cl1) s"

definition record_successful_identify :: "string \<Rightarrow> server \<Rightarrow> server" where
  "record_successful_identify account_name s =
     (if account_name = [] then s
      else case Option.bind (nickserv_db_open s) (nickserv_db_set_last_identified (sv_clock s) account_name (sv_clock s)) of
             None \<Rightarrow> s
           | Some rows \<Rightarrow> put_accounts rows s)"

definition nickserv_identify :: "cref \<Rightarrow> string \<Rightarrow> string \<Rightarrow> server \<Rightarrow> bool \<times> server" where
  "nickserv_identify c account_name password s =
     (let own = c_account_name (sv_client s c)
      in if account_name = [] \<or> password = [] then (False, s)
         else if own \<noteq> [] \<and> \<not> strcaseeq own account_name then (False, s)
         else case load_enabled_account s account_name of
                None \<Rightarrow> (False, s)
              | Some account \<Rightarrow>
                  (case auth_limit_consume c ''NickServ IDENTIFY'' s of
                     (False, s1) \<Rightarrow> (False, s1)
                   | (True, s1) \<Rightarrow>
                       if \<not> w_argon2_verify (sv_world s1) (ac_password_hash account) password then (False, s1)
                       else (True, apply_account c account (record_successful_identify (ac_name account) s1))))"

text \<open>The account and the password of \<open>IDENTIFY [nick] password\<close>.\<close>

definition identify_words :: "client \<Rightarrow> string \<Rightarrow> (string \<times> string) option" where
  "identify_words cl params =
     (case strtok '' '' params of
        None \<Rightarrow> None
      | Some (first, rest) \<Rightarrow>
          (case tok_rest rest of
             None \<Rightarrow> Some (c_nick cl, first)
           | Some second \<Rightarrow> Some (first, dropWhile (\<lambda>x. x = CHR '' '') second)))"

definition announce_identified :: "cref \<Rightarrow> server \<Rightarrow> server" where
  "announce_identified c s = memoserv_notify_unread c (chanserv_sync_client_privileges c (ircv3_account_notify c s))"

subsection \<open>identify.c\<close>

definition command_identify :: "cref \<Rightarrow> string option \<Rightarrow> server \<Rightarrow> command_result \<times> server" where
  "command_identify c params = registered_only c (\<lambda>s.
     case Option.bind params (identify_words (sv_client s c)) of
       None \<Rightarrow> ERR_NEEDMOREPARAMS c ''IDENTIFY'' s
     | Some (account, password) \<Rightarrow>
         (case nickserv_identify c account password s of
            (True, s1) \<Rightarrow>
              let s2 = (if c_account_name (sv_client s c) = [] then announce_identified c s1 else s1)
              in (COMMAND_KEEP_CLIENT, nickserv_notice c ''Password accepted - you are now identified.'' s2)
          | (False, s1) \<Rightarrow> (COMMAND_KEEP_CLIENT, nickserv_notice c ''Password incorrect or account unavailable.'' s1)))"

subsection \<open>authenticate.c\<close>

definition sasl_reset_payload :: "client \<Rightarrow> client" where
  "sasl_reset_payload cl = cl\<lparr>c_sasl_buffer := []\<rparr>"

definition sasl_end :: "string \<Rightarrow> string \<Rightarrow> cref \<Rightarrow> server \<Rightarrow> server" where
  "sasl_end num x c s =
     (let s1 = upd_client c (\<lambda>cl. (sasl_reset_payload cl)\<lparr>c_sasl_state := CLIENT_SASL_FAILED\<rparr>) s
      in sendf c (numeric s1 num (command_reply_nick (sv_client s1 c)) ('':'' @ x)) s1)"

definition sasl_fail :: "cref \<Rightarrow> server \<Rightarrow> server" where
  "sasl_fail = sasl_end ''904'' ''SASL authentication failed''"

definition sasl_too_long :: "cref \<Rightarrow> server \<Rightarrow> server" where
  "sasl_too_long = sasl_end ''905'' ''SASL message too long''"

text \<open>\<open>None\<close>: the limit; \<open>Some None\<close>: no memory.\<close>

definition sasl_append_frame :: "bool \<Rightarrow> string \<Rightarrow> client \<Rightarrow> client option option" where
  "sasl_append_frame alloc frame cl =
     (if length (c_sasl_buffer cl) > IRCD_SASL_ENCODED_MAX \<or> length frame > IRCD_SASL_ENCODED_MAX - length (c_sasl_buffer cl) then None
      else if \<not> alloc then Some None
      else Some (Some (cl\<lparr>c_sasl_buffer := c_sasl_buffer cl @ frame\<rparr>)))"

definition plain_fields :: "string \<Rightarrow> (string \<times> string \<times> string) option" where
  "plain_fields decoded =
     (let authzid = takeWhile (\<lambda>x. x \<noteq> CHR 0x00) decoded; rest = drop (length authzid + 1) decoded;
          authcid = takeWhile (\<lambda>x. x \<noteq> CHR 0x00) rest; password = drop (length authcid + 1) rest
      in if CHR 0x00 \<notin> set decoded \<or> CHR 0x00 \<notin> set rest \<or> authcid = [] \<or> password = [] \<or> CHR 0x00 \<in> set password then None
         else Some (authzid, authcid, password))"

definition sasl_padding :: "string \<Rightarrow> nat" where
  "sasl_padding payload = length (takeWhile (\<lambda>x. x = CHR ''='') (rev payload))"

text \<open>The name and the password that the payload carries, \<open>None\<close> where the code goes to \<open>rejected\<close>.\<close>

definition sasl_credentials :: "server \<Rightarrow> string \<Rightarrow> (string \<times> string) option" where
  "sasl_credentials s payload =
     (let padding = sasl_padding payload
      in if payload = [] \<or> length payload mod 4 \<noteq> 0 then None
         else if padding > 2 \<or> CHR ''='' \<in> set (take (length payload - padding) payload) then None
         else case w_decode_block (sv_world s) payload of
                None \<Rightarrow> None
              | Some decoded \<Rightarrow>
                  if decoded = [] \<or> length decoded < padding then None
                  else if length decoded - padding \<ge> IRCD_SASL_DECODED_MAX + 1 then None
                  else (case plain_fields (take (length decoded - padding) decoded) of
                          None \<Rightarrow> None
                        | Some (authzid, authcid, password) \<Rightarrow>
                            if authzid \<noteq> [] \<and> \<not> strcaseeq authzid authcid then None else Some (authcid, password)))"

definition sasl_finish_plain :: "cref \<Rightarrow> server \<Rightarrow> server" where
  "sasl_finish_plain c s =
     (case sasl_credentials s (c_sasl_buffer (sv_client s c)) of
        None \<Rightarrow> sasl_fail c s
      | Some (authcid, password) \<Rightarrow>
          (case nickserv_identify c authcid password s of
             (False, s1) \<Rightarrow> sasl_fail c s1
           | (True, s1) \<Rightarrow>
               let s2 = upd_client c sasl_reset_payload s1;
                   s3 = (if c_account_name (sv_client s c) = [] \<and> c_registered (sv_client s2 c)
                         then chanserv_sync_client_privileges c (ircv3_account_notify c s2) else s2);
                   s4 = upd_client c (\<lambda>cl. cl\<lparr>c_sasl_state := CLIENT_SASL_COMPLETE\<rparr>) (memoserv_notify_unread c s3);
                   cl = sv_client s4 c;
                   s5 = sendf c (numeric s4 ''900'' (command_reply_nick cl)
                          ((if c_nick cl \<noteq> [] then c_nick cl else ''*'') @ ''!'' @ (if c_user cl \<noteq> [] then c_user cl else ''*'') @ ''@'' @
                           c_display_host cl @ '' '' @ c_account_name cl @ '' :You are now logged in as '' @ c_account_name cl)) s4
               in sendf c (numeric s5 ''903'' (command_reply_nick cl) '':SASL authentication successful'') s5))"

definition command_authenticate :: "cref \<Rightarrow> string option \<Rightarrow> server \<Rightarrow> command_result \<times> server" where
  "command_authenticate c params s =
     (COMMAND_KEEP_CLIENT,
      case params of
        None \<Rightarrow> s
      | Some p \<Rightarrow>
          let frame = takeWhile (\<lambda>x. x \<noteq> CHR '' '') p; cl = sv_client s c
          in if p = [] then s
             else if c_sasl_state cl = CLIENT_SASL_COMPLETE
             then sendf c (numeric s ''907'' (command_reply_nick cl) '':You have already authenticated using SASL'') s
             else if c_capabilities cl AND CLIENT_CAP_SASL = 0 then sasl_fail c s
             else if frame = ''*'' then sasl_end ''906'' ''SASL authentication aborted'' c s
             else if c_sasl_state cl = CLIENT_SASL_NONE \<or> c_sasl_state cl = CLIENT_SASL_FAILED
             then if \<not> strcaseeq frame ''PLAIN'' then sasl_fail c s
                  else sendf c ''AUTHENTICATE +''
                         (upd_client c (\<lambda>cl. (sasl_reset_payload cl)\<lparr>c_sasl_state := CLIENT_SASL_PLAIN_WAIT_DATA\<rparr>) s)
             else if length frame > IRCD_SASL_FRAME_MAX then sasl_too_long c s
             else if frame = ''+'' then sasl_finish_plain c s
             else case sasl_append_frame (sv_alloc s) frame cl of
                    None \<Rightarrow> sasl_too_long c s
                  | Some None \<Rightarrow> sasl_fail c s
                  | Some (Some cl1) \<Rightarrow>
                      let s1 = upd_client c (\<lambda>_. cl1) s
                      in if length frame < IRCD_SASL_FRAME_MAX then sasl_finish_plain c s1 else s1)"

subsection \<open>The text commands (nickserv.c)\<close>

definition skip_blanks :: "string \<Rightarrow> string" where
  "skip_blanks = dropWhile (\<lambda>x. x = CHR '' '')"

definition new_account :: "string \<Rightarrow> string \<Rightarrow> time_t \<Rightarrow> account_row" where
  "new_account name password_hash now =
     \<lparr>ac_name = name, ac_password_hash = password_hash, ac_vhost = [], ac_enabled = 1, ac_email = [], ac_email_verified = 0, ac_pending_email = [],
      ac_email_verify_token_hash = [], ac_email_verify_expires_at = 0, ac_reset_token_hash = [], ac_reset_expires_at = 0, ac_created_at = 0,
      ac_updated_at = 0, ac_last_identified_at = now\<rparr>"

definition ns_register :: "cref \<Rightarrow> string option \<Rightarrow> server \<Rightarrow> server" where
  "ns_register c params s =
     (let cl = sv_client s c; nick = c_nick cl
      in case params of
           None \<Rightarrow> nickserv_notice c ''Syntax: REGISTER <password>'' s
         | Some password \<Rightarrow>
             if password = [] then nickserv_notice c ''Syntax: REGISTER <password>'' s
             else if nick = [] then nickserv_notice c ''You must have a nickname before registering.'' s
             else if c_account_name cl \<noteq> [] then nickserv_notice c ''You are already identified to an account.'' s
             else if service_nickname_reserved nick \<or> (nickserv_config_reserved_nickname s nick \<and> \<not> nickserv_reserved_nickname_allowed cl)
             then sendf c (numeric s ''437'' nick (nick @ '' :is a reserved nick'')) s
             else (case nickserv_db_open s of
                     None \<Rightarrow> nickserv_notice c ''Account database is unavailable.'' s
                   | Some rows \<Rightarrow>
                       (case nickserv_db_get nick rows of
                          None \<Rightarrow> nickserv_notice c ''Account lookup failed.'' s
                        | Some (Some _) \<Rightarrow> nickserv_notice c ''That nickname is already registered.'' s
                        | Some None \<Rightarrow>
                            (case auth_limit_consume c ''NickServ REGISTER'' s of
                               (False, s1) \<Rightarrow> nickserv_notice c ''Password hashing rate limit reached; try again later.'' s1
                             | (True, s1) \<Rightarrow>
                                 (case hash_password password IRCD_OPER_HASH_MAX s1 of
                                    (None, s2) \<Rightarrow> nickserv_notice c ''Nickname registration failed.'' s2
                                  | (Some encoded, s2) \<Rightarrow>
                                      let account = new_account (take IRC_NICK_MAX nick) encoded (sv_clock s2)
                                      in case nickserv_db_add (sv_clock s2) account rows of
                                           None \<Rightarrow> nickserv_notice c ''Nickname registration failed.'' s2
                                         | Some rows1 \<Rightarrow>
                                             nickserv_notice c ''Nickname registered and identified.'' (apply_account c account (put_accounts rows1 s2)))))))"

text \<open>What LOGOUT does to the client.\<close>

definition logged_out :: "server \<Rightarrow> client \<Rightarrow> client" where
  "logged_out s cl =
     (let cl1 = cl\<lparr>c_account_name := [], c_modes := client_mode_remove (c_modes cl) CLIENT_MODE_REGISTERED, c_sasl_state := CLIENT_SASL_NONE\<rparr>
      in if c_account_vhost_active cl1
         then usermode_apply_cloak s (cl1\<lparr>c_account_vhost_active := False, c_modes := client_mode_remove (c_modes cl1) CLIENT_MODE_VHOST\<rparr>)
         else cl1)"

definition ns_logout :: "cref \<Rightarrow> string option \<Rightarrow> server \<Rightarrow> server" where
  "ns_logout c params s =
     (if params \<notin> {None, Some []} then nickserv_notice c ''Syntax: LOGOUT'' s
      else if c_account_name (sv_client s c) = [] then nickserv_notice c ''You are not identified to an account.'' s
      else nickserv_notice c ''You are now logged out of your account.'' (upd_client c (logged_out s) s))"

definition ns_identify :: "cref \<Rightarrow> string option \<Rightarrow> server \<Rightarrow> server" where
  "ns_identify c params s =
     (case Option.bind params (identify_words (sv_client s c)) of
        None \<Rightarrow> nickserv_notice c ''Syntax: IDENTIFY [nick] <password>'' s
      | Some (account, password) \<Rightarrow>
          (case nickserv_identify c account password s of
             (True, s1) \<Rightarrow> nickserv_notice c ''Password accepted - you are now identified.'' s1
           | (False, s1) \<Rightarrow> nickserv_notice c ''Password incorrect, account unavailable, or authentication throttled.'' s1))"

definition ns_set_password :: "cref \<Rightarrow> string \<Rightarrow> server \<Rightarrow> server" where
  "ns_set_password c password s =
     (if c_account_name (sv_client s c) = [] then nickserv_notice c ''You must identify before changing your password.'' s
      else if password = [] then nickserv_notice c ''Syntax: SET PASSWORD <new-password>'' s
      else case auth_limit_consume c ''NickServ SET PASSWORD'' s of
             (False, s1) \<Rightarrow> nickserv_notice c ''Password hashing rate limit reached; try again later.'' s1
           | (True, s1) \<Rightarrow>
               (case hash_password password IRCD_OPER_HASH_MAX s1 of
                  (None, s2) \<Rightarrow> nickserv_notice c ''Password change failed.'' s2
                | (Some encoded, s2) \<Rightarrow>
                    (case Option.bind (nickserv_db_open s2) (nickserv_db_set_password (sv_clock s2) (c_account_name (sv_client s2 c)) encoded) of
                       None \<Rightarrow> nickserv_notice c ''Password change failed.'' s2
                     | Some rows \<Rightarrow> nickserv_notice c ''Password changed.'' (put_accounts rows s2))))"

definition ns_set_email :: "cref \<Rightarrow> string \<Rightarrow> server \<Rightarrow> server" where
  "ns_set_email c address s =
     (let own = c_account_name (sv_client s c)
      in if own = [] then nickserv_notice c ''You must identify before setting an email address.'' s
         else if \<not> valid_email address then nickserv_notice c ''Syntax: SET EMAIL <address>'' s
         else if \<not> mail_available s then nickserv_notice c ''Email services are not configured on this server.'' s
         else case generate_token s of
                (None, s1) \<Rightarrow> nickserv_notice c ''Unable to create verification token.'' s1
              | (Some token, s1) \<Rightarrow>
                  (case Option.bind (nickserv_db_open s1) (nickserv_db_set_email_challenge (sv_clock s1) own address (hash_token s1 token)
                          (sv_clock s1 + uint (cf_nickserv_verify_seconds (sv_config s1)))) of
                     None \<Rightarrow> nickserv_notice c ''Unable to save email verification request.'' s1
                   | Some rows \<Rightarrow>
                       (case send_token_mail address own token True (put_accounts rows s1) of
                          (False, s2) \<Rightarrow> nickserv_notice c ''Unable to queue verification email.'' s2
                        | (True, s2) \<Rightarrow> nickserv_notice c ''Verification email queued. Use NICKSERV VERIFY <token> when it arrives.'' s2)))"

definition ns_verify :: "cref \<Rightarrow> string option \<Rightarrow> server \<Rightarrow> server" where
  "ns_verify c params s =
     (let own = c_account_name (sv_client s c)
      in if own = [] then nickserv_notice c ''You must identify before verifying an email address.'' s
         else if params \<in> {None, Some []} then nickserv_notice c ''Syntax: VERIFY <token>'' s
         else case nickserv_db_open s of
                None \<Rightarrow> nickserv_notice c ''Account database is unavailable.'' s
              | Some rows \<Rightarrow>
                  (case nickserv_db_verify_email (sv_clock s) own (hash_token s (the params)) rows of
                     Some (Some rows1) \<Rightarrow> nickserv_notice c ''Email address verified.'' (put_accounts rows1 s)
                   | _ \<Rightarrow> nickserv_notice c ''Verification token is invalid or expired.'' s))"

text \<open>The other session gets the name \<open>Guest\<close> and its number.\<close>

definition guest_nick :: "client \<Rightarrow> string" where
  "guest_nick cl = take IRC_NICK_MAX (''Guest'' @ dec (unat (c_id cl)))"

definition recover_rename :: "cref \<Rightarrow> server \<Rightarrow> bool \<times> server" where
  "recover_rename d s =
     (let old = c_nick (sv_client s d); guest = guest_nick (sv_client s d)
      in if hash_get (sv_clients_by_nick s) guest \<noteq> None then (False, s)
         else let t = snd (hash_remove (sv_clients_by_nick s) old); (rc, t1) = hash_set (sv_alloc s) t guest d
              in if rc \<noteq> 0
                 then (False, s\<lparr>sv_clients_by_nick := snd (hash_set (sv_alloc s) t1 old d)\<rparr>)
                 else let s1 = upd_client d (\<lambda>cl. cl\<lparr>c_nick := guest\<rparr>) (s\<lparr>sv_clients_by_nick := t1\<rparr>); cl = sv_client s1 d;
                          message = take (IRCD_MESSAGE_BUFFER_SIZE - 1)
                            ('':'' @ old @ ''!'' @ c_user cl @ ''@'' @ c_display_host cl @ '' NICK :'' @ c_nick cl @ [CR, LF]);
                          s2 = fold (\<lambda>h. channel_broadcast h None message) (c_channels cl) s1
                      in (True, nickserv_notice d (''Your nickname was recovered by its registered owner; you are now '' @ c_nick cl @ ''.'') s2))"

definition recover_authorized :: "cref \<Rightarrow> string \<Rightarrow> server \<Rightarrow> bool" where
  "recover_authorized c nick s \<longleftrightarrow>
     c_account_name (sv_client s c) \<noteq> [] \<and> strcaseeq (c_account_name (sv_client s c)) nick \<and> load_enabled_account s nick \<noteq> None"

definition ns_recover :: "bool \<Rightarrow> cref \<Rightarrow> string option \<Rightarrow> server \<Rightarrow> server" where
  "ns_recover ghost c params s =
     (let (nick, rest) = (case params of None \<Rightarrow> (None, []) | Some p \<Rightarrow> tok1 p); action = fst (tok1 rest);
          kill = (ghost \<or> (case action of None \<Rightarrow> False | Some a \<Rightarrow> strcaseeq a ''KILL''))
      in case nick of
           None \<Rightarrow> nickserv_notice c (if ghost then ''Syntax: GHOST <nick>'' else ''Syntax: RECOVER <nick> [KILL]'') s
         | Some n \<Rightarrow>
             if \<not> ghost \<and> action \<noteq> None \<and> \<not> kill then nickserv_notice c ''Syntax: RECOVER <nick> [KILL]'' s
             else if \<not> recover_authorized c n s then nickserv_notice c ''You must be identified to that registered account.'' s
             else (case hash_get (sv_clients_by_nick s) n of
                     None \<Rightarrow> nickserv_notice c ''That nickname is not currently in use.'' s
                   | Some d \<Rightarrow>
                       if d = c then nickserv_notice c ''You are already using that nickname.'' s
                       else if kill
                       then nickserv_notice c ''Nickname session disconnected.''
                              (server_disconnect d (take IRC_QUIT_REASON_MAX (''NickServ '' @ (if ghost then ''GHOST'' else ''RECOVER'') @ '' by '' @
                                 c_account_name (sv_client s c))) s)
                       else (case recover_rename d s of
                               (True, s1) \<Rightarrow> nickserv_notice c ''Nickname recovered; the previous user was safely renamed.'' s1
                             | (False, s1) \<Rightarrow> nickserv_notice c ''Unable to recover that nickname.'' s1)))"

text \<open>The first form of RESET: the answer to the client is the same in every case.\<close>

definition reset_request :: "string \<Rightarrow> server \<Rightarrow> server" where
  "reset_request name s =
     (if \<not> mail_available s then s
      else case nickserv_db_open s of
             None \<Rightarrow> s
           | Some rows \<Rightarrow>
               (case nickserv_db_get name rows of
                  Some (Some account) \<Rightarrow>
                    if ac_enabled account = 0 \<or> ac_email_verified account = 0 \<or> ac_email account = [] then s
                    else (case generate_token s of
                            (None, s1) \<Rightarrow> s1
                          | (Some token, s1) \<Rightarrow>
                              (case nickserv_db_set_reset_token (sv_clock s1) (ac_name account) (hash_token s1 token)
                                      (sv_clock s1 + uint (cf_nickserv_reset_seconds (sv_config s1))) rows of
                                 None \<Rightarrow> s1
                               | Some rows1 \<Rightarrow> snd (send_token_mail (ac_email account) (ac_name account) token False (put_accounts rows1 s1))))
                | _ \<Rightarrow> s))"

definition reset_password :: "cref \<Rightarrow> string \<Rightarrow> string \<Rightarrow> string \<Rightarrow> server \<Rightarrow> server" where
  "reset_password c name token password s =
     (case auth_limit_consume c ''NickServ RESET password'' s of
        (False, s1) \<Rightarrow> nickserv_notice c ''Password hashing rate limit reached; try again later.'' s1
      | (True, s1) \<Rightarrow>
          (case hash_password password IRCD_OPER_HASH_MAX s1 of
             (None, s2) \<Rightarrow> nickserv_notice c ''Reset token is invalid or expired.'' s2
           | (Some encoded, s2) \<Rightarrow>
               (case Option.bind (nickserv_db_open s2) (nickserv_db_consume_reset_token (sv_clock s2) name (hash_token s token) encoded) of
                  Some (Some rows) \<Rightarrow> nickserv_notice c ''Password reset complete. You may now IDENTIFY with the new password.'' (put_accounts rows s2)
                | _ \<Rightarrow> nickserv_notice c ''Reset token is invalid or expired.'' s2)))"

definition ns_reset :: "cref \<Rightarrow> string option \<Rightarrow> server \<Rightarrow> server" where
  "ns_reset c params s =
     (let (name, r1) = (case params of None \<Rightarrow> (None, []) | Some p \<Rightarrow> tok1 p); (token, r2) = tok1 r1
      in case name of
           None \<Rightarrow> nickserv_notice c ''Syntax: RESET <nick>  OR  RESET <nick> <token> <new-password>'' s
         | Some n \<Rightarrow>
             (case token of
                None \<Rightarrow>
                  nickserv_notice c ''If that account exists and has a verified email address, a password reset message has been queued.''
                    (reset_request n s)
              | Some t \<Rightarrow>
                  (case tok_rest r2 of
                     None \<Rightarrow> nickserv_notice c ''Syntax: RESET <nick> <token> <new-password>'' s
                   | Some password \<Rightarrow> reset_password c n t (skip_blanks password) s)))"

definition ns_set :: "cref \<Rightarrow> string option \<Rightarrow> server \<Rightarrow> server" where
  "ns_set c params s =
     (let (field, r1) = (case params of None \<Rightarrow> (None, []) | Some p \<Rightarrow> tok1 p)
      in case (field, Option.bind field (\<lambda>_. map_option skip_blanks (tok_rest r1))) of
           (Some f, Some x) \<Rightarrow>
             if strcaseeq f ''PASSWORD'' then ns_set_password c x s
             else if strcaseeq f ''EMAIL'' then ns_set_email c x s
             else nickserv_notice c ''Syntax: SET PASSWORD <new-password>  OR  SET EMAIL <address>'' s
         | _ \<Rightarrow> nickserv_notice c ''Syntax: SET PASSWORD <new-password>  OR  SET EMAIL <address>'' s)"

definition nickserv_handle_message :: "cref \<Rightarrow> string \<Rightarrow> server \<Rightarrow> server" where
  "nickserv_handle_message c x s =
     (case strtok '' '' x of
        None \<Rightarrow> s
      | Some (command, r) \<Rightarrow>
          let rest = map_option skip_blanks (tok_rest r)
          in if strcaseeq command ''REGISTER'' then ns_register c rest s
             else if strcaseeq command ''IDENTIFY'' then ns_identify c rest s
             else if strcaseeq command ''LOGOUT'' then ns_logout c rest s
             else if strcaseeq command ''RECOVER'' then ns_recover False c rest s
             else if strcaseeq command ''GHOST'' then ns_recover True c rest s
             else if strcaseeq command ''RESET'' then ns_reset c rest s
             else if strcaseeq command ''VERIFY'' then ns_verify c rest s
             else if strcaseeq command ''SET'' then ns_set c rest s
             else if strcaseeq command ''HELP''
             then nickserv_notice c ''Commands: REGISTER, IDENTIFY, LOGOUT, RECOVER, GHOST, SET PASSWORD, SET EMAIL, VERIFY, RESET'' s
             else nickserv_notice c ''Unknown command. Use HELP.'' s)"

subsection \<open>The command (commands/nickserv.c)\<close>

definition handle_identify_alias :: "cref \<Rightarrow> string option \<Rightarrow> server \<Rightarrow> server" where
  "handle_identify_alias c params s =
     (case Option.bind params (identify_words (sv_client s c)) of
        None \<Rightarrow> s
      | Some (account, secret) \<Rightarrow>
          (case nickserv_identify c account secret s of
             (True, s1) \<Rightarrow>
               let s2 = (if c_account_name (sv_client s c) = [] then announce_identified c s1 else s1)
               in nickserv_notice c ''Password accepted - you are now identified.'' s2
           | (False, s1) \<Rightarrow> nickserv_notice c ''Password incorrect, account unavailable, or authentication throttled.'' s1))"

definition handle_logout_alias :: "cref \<Rightarrow> string option \<Rightarrow> server \<Rightarrow> server" where
  "handle_logout_alias c params s =
     (if params \<notin> {None, Some []} then nickserv_notice c ''Syntax: LOGOUT'' s
      else if c_account_name (sv_client s c) = [] then nickserv_notice c ''You are not identified to an account.'' s
      else nickserv_notice c ''You are now logged out of your account.''
             (chanserv_sync_client_privileges c (ircv3_account_notify c (upd_client c (logged_out s) s))))"

definition throttle_slot :: "throttle list \<Rightarrow> string \<Rightarrow> time_t \<Rightarrow> u32 \<Rightarrow> nat option \<times> throttle list" where
  "throttle_slot slots ip now window = (if ip = [] \<or> window = 0 then (None, slots) else take_slot ip now (uint window) slots)"

definition count_slot :: "nat \<Rightarrow> throttle list \<Rightarrow> throttle list" where
  "count_slot i slots = slots[i := (slots ! i)\<lparr>th_count := th_count (slots ! i) + 1\<rparr>]"

definition server_nickserv_registration_allowed :: "string \<Rightarrow> bool \<Rightarrow> server \<Rightarrow> bool \<times> server" where
  "server_nickserv_registration_allowed ip consuming s =
     (let limit = cf_nickserv_registrations_per_ip (sv_config s); li = sv_limits s;
          (slot, slots) = throttle_slot (li_nickserv_registration_throttles li) ip (sv_clock s) (cf_nickserv_registration_window_seconds (sv_config s));
          put = (\<lambda>x. s\<lparr>sv_limits := li\<lparr>li_nickserv_registration_throttles := x\<rparr>\<rparr>)
      in if ip = [] then (False, s)
         else if limit = 0 then (True, s)
         else case slot of
                None \<Rightarrow> (False, put slots)
              | Some i \<Rightarrow> if th_count (slots ! i) \<ge> limit then (False, put slots) else (True, put (if consuming then count_slot i slots else slots)))"

definition nickserv_mail_request_allowed :: "string \<Rightarrow> server \<Rightarrow> bool \<times> server" where
  "nickserv_mail_request_allowed ip s =
     (let li = sv_limits s; per_ip = cf_nickserv_mail_requests_per_ip (sv_config s);
          (start, n) = roll (sv_clock s) 60 (li_nickserv_mail_global_window_start li, li_nickserv_mail_global_count li);
          li1 = li\<lparr>li_nickserv_mail_global_window_start := start, li_nickserv_mail_global_count := n\<rparr>;
          (slot, slots) = throttle_slot (li_nickserv_mail_throttles li1) ip (sv_clock s) (cf_nickserv_mail_window_seconds (sv_config s))
      in if ip = [] then (False, s)
         else if n \<ge> cf_nickserv_mail_global_per_minute (sv_config s) then (False, s\<lparr>sv_limits := li1\<rparr>)
         else if per_ip = 0 then (True, s\<lparr>sv_limits := li1\<lparr>li_nickserv_mail_global_count := n + 1\<rparr>\<rparr>)
         else case slot of
                None \<Rightarrow> (False, s\<lparr>sv_limits := li1\<lparr>li_nickserv_mail_throttles := slots\<rparr>\<rparr>)
              | Some i \<Rightarrow>
                  if th_count (slots ! i) \<ge> per_ip then (False, s\<lparr>sv_limits := li1\<lparr>li_nickserv_mail_throttles := slots\<rparr>\<rparr>)
                  else (True, s\<lparr>sv_limits := li1\<lparr>li_nickserv_mail_throttles := count_slot i slots, li_nickserv_mail_global_count := n + 1\<rparr>\<rparr>))"

definition mail_producing_request :: "string \<Rightarrow> bool" where
  "mail_producing_request x =
     (let (command, r1) = tok1 x; (first, r2) = tok1 r1; (second, _) = tok1 r2
      in case (command, first) of
           (Some w, Some f) \<Rightarrow> if strcaseeq w ''SET'' then strcaseeq f ''EMAIL'' else strcaseeq w ''RESET'' \<and> second = None
         | _ \<Rightarrow> False)"

definition recover_target_before :: "string \<Rightarrow> server \<Rightarrow> (cref \<times> string) option" where
  "recover_target_before params s =
     (let (command, r1) = tok1 (take (IRCD_MESSAGE_BUFFER_SIZE - 1) params); (nick, r2) = tok1 r1; (action, _) = tok1 r2
      in case (command, nick) of
           (Some w, Some n) \<Rightarrow>
             if \<not> strcaseeq w ''RECOVER'' \<or> action \<noteq> None then None
             else map_option (\<lambda>d. (d, c_nick (sv_client s d))) (hash_get (sv_clients_by_nick s) n)
         | _ \<Rightarrow> None)"

definition recover_presence_after :: "(cref \<times> string) option \<Rightarrow> server \<Rightarrow> server" where
  "recover_presence_after before s =
     (case before of
        None \<Rightarrow> s
      | Some (d, old) \<Rightarrow>
          if old = [] \<or> server_find_client_by_id s (c_id (sv_client s d)) \<noteq> Some d \<or> c_nick (sv_client s d) = old then s
          else presence_watch_online d (presence_watch_offline d old (presence_whowas_record d old s)))"

text \<open>What follows a command that changed who the client is.\<close>

definition nickserv_after :: "cref \<Rightarrow> bool \<Rightarrow> bool \<Rightarrow> server \<Rightarrow> server" where
  "nickserv_after c was_identified registering s =
     (if \<not> was_identified \<and> c_account_name (sv_client s c) \<noteq> []
      then let s1 = announce_identified c s; cl = sv_client s1 c;
               s2 = (if client_mode_has (c_modes cl) CLIENT_MODE_NETADMIN then s1 else snd (server_nickserv_registration_allowed (c_real_ip cl) True s1))
           in if \<not> registering then s1
              else snotice_broadcast SNOTICE_REGISTRATIONS
                     (''NickServ registration: account='' @ c_account_name cl @ '' nick='' @ c_nick cl @ '' real_ip='' @ c_real_ip cl) s2
      else if was_identified \<and> c_account_name (sv_client s c) = []
      then chanserv_sync_client_privileges c (ircv3_account_notify c s)
      else s)"

definition nickserv_run :: "cref \<Rightarrow> bool \<Rightarrow> string \<Rightarrow> server \<Rightarrow> server" where
  "nickserv_run c registering x s =
     nickserv_after c (c_account_name (sv_client s c) \<noteq> []) registering
       (recover_presence_after (recover_target_before x s) (nickserv_handle_message c x s))"

definition registration_throttled :: "cref \<Rightarrow> server \<Rightarrow> server" where
  "registration_throttled c s =
     snotice_broadcast (SNOTICE_REGISTRATIONS OR SNOTICE_FLOOD)
       (''NickServ registration throttled: nick='' @ c_nick (sv_client s c) @ '' real_ip='' @ c_real_ip (sv_client s c) @ '' limit='' @
        dec (unat (cf_nickserv_registrations_per_ip (sv_config s))) @ ''/'' @ dec (unat (cf_nickserv_registration_window_seconds (sv_config s))) @ ''s'')
       (nickserv_notice c ''Registration rate limit reached for your IP address; try again later.'' s)"

definition mail_throttled :: "cref \<Rightarrow> server \<Rightarrow> server" where
  "mail_throttled c s =
     snotice_broadcast (SNOTICE_REGISTRATIONS OR SNOTICE_FLOOD)
       (''NickServ email request throttled: nick='' @ c_nick (sv_client s c) @ '' real_ip='' @ c_real_ip (sv_client s c) @ '' per_ip='' @
        dec (unat (cf_nickserv_mail_requests_per_ip (sv_config s))) @ ''/'' @ dec (unat (cf_nickserv_mail_window_seconds (sv_config s))) @ ''s global='' @
        dec (unat (cf_nickserv_mail_global_per_minute (sv_config s))) @ ''/min'')
       (nickserv_notice c ''Email request rate limit reached; try again later.'' s)"

definition command_nickserv_message :: "cref \<Rightarrow> string \<Rightarrow> server \<Rightarrow> server" where
  "command_nickserv_message c x s =
     (let copy = take (IRCD_MESSAGE_BUFFER_SIZE - 1) x; (command, r) = tok1 copy;
          params = Option.bind command (\<lambda>_. map_option skip_blanks (tok_rest r)); admin = client_mode_has (c_modes (sv_client s c)) CLIENT_MODE_NETADMIN;
          is = (\<lambda>name. case command of None \<Rightarrow> False | Some w \<Rightarrow> strcaseeq w name); registering = is ''REGISTER'';
          ip = c_real_ip (sv_client s c)
      in if is ''IDENTIFY'' then handle_identify_alias c params s
         else if is ''LOGOUT'' then handle_logout_alias c params s
         else let (admitted, s1) = (if registering \<and> c_account_name (sv_client s c) = [] \<and> \<not> admin
                                    then server_nickserv_registration_allowed ip False s else (True, s))
              in if \<not> admitted then registration_throttled c s1
                 else let (mailed, s2) = (if mail_producing_request copy \<and> mail_available s1 \<and> \<not> admin
                                          then nickserv_mail_request_allowed ip s1 else (True, s1))
                      in if \<not> mailed then mail_throttled c s2 else nickserv_run c registering x s2)"

definition command_nickserv :: "cref \<Rightarrow> string option \<Rightarrow> server \<Rightarrow> command_result \<times> server" where
  "command_nickserv c params = registered_only c (\<lambda>s.
     case params of
       None \<Rightarrow> ERR_NEEDMOREPARAMS c ''NICKSERV'' s
     | Some p \<Rightarrow> if p = [] then ERR_NEEDMOREPARAMS c ''NICKSERV'' s else (COMMAND_KEEP_CLIENT, command_nickserv_message c p s))"

subsection \<open>The server stays well formed\<close>

lemma nickserv_notice_io [simp, intro!]: "io_only s (nickserv_notice c x s)"
  by (simp add: nickserv_notice_def)

lemma sasl_end_keeps: "keeps c s t \<Longrightarrow> keeps c s (sasl_end n x c t)"
  by (auto simp: sasl_end_def Let_def sasl_reset_payload_def plain_update_def intro!: keeps_sends keeps_upd_client)

lemmas sasl_failures = sasl_fail_def sasl_too_long_def

lemma cloak_plain: "plain_update (usermode_apply_cloak s)"
  by (auto simp: plain_update_def usermode_apply_cloak_def cloak_refresh_display_host_def Let_def split: option.split)

lemma logged_out_plain: "plain_update (logged_out s)"
  using cloak_plain [of s] by (auto simp: logged_out_def plain_update_def Let_def)

lemma apply_account_keeps:
  assumes "keeps c s t"
  shows "keeps c s (apply_account d account t)"
  unfolding apply_account_def
  by (rule keeps_upd_client [OF assms]) (use cloak_plain [of t] in \<open>auto simp: plain_update_def Let_def\<close>)

lemma put_accounts_keeps: "keeps c s t \<Longrightarrow> keeps c s (put_accounts rows t)"
  using keeps_fields(8) by (simp add: put_accounts_def)

lemma nickserv_identify_keeps: "keeps c s t \<Longrightarrow> keeps c s (snd (nickserv_identify c account password t))"
  using consume_keeps [of c s t c "''NickServ IDENTIFY''"]
  by (auto simp: nickserv_identify_def Let_def record_successful_identify_def split: option.split prod.split bool.split
      intro!: apply_account_keeps put_accounts_keeps)

lemma memoserv_notify_unread_run: "memo_run c s (memoserv_notify_unread d s)"
  by (auto simp: memoserv_notify_unread_def case_prod_beta purge_expired_run(1) [OF _ prod.collapse [symmetric]] split: option.split
      intro!: memo_notice_run)

lemma announce_identified_keeps:
  assumes "keeps c s t"
  shows "keeps c s (announce_identified d t)" and "keeps c s (memoserv_notify_unread d t)"
proof -
  have unread: "keeps c s (memoserv_notify_unread d u)" if "keeps c s u" for u
    using memoserv_notify_unread_run [of c u d] that keeps_trans by (auto simp: memo_run_def)
  then show "keeps c s (memoserv_notify_unread d t)" using assms by blast
  show "keeps c s (announce_identified d t)"
    unfolding announce_identified_def by (intro unread keeps_trans [OF _ sync_client_keeps] keeps_sends assms)
qed

lemma command_identify_keeps: "keeps c s (snd (command_identify c params s))"
proof -
  have ok: "keeps c t (snd (nickserv_identify c account password t))" for t account password by (rule nickserv_identify_keeps) simp
  show ?thesis
    unfolding command_identify_def
    by (rule registered_only_keeps)
       (use ok in \<open>auto simp: replies_keeps Let_def split: option.split prod.split bool.split
          intro!: keeps_io [OF _ nickserv_notice_io] announce_identified_keeps\<close>, (metis snd_conv)+)
qed

lemma sasl_finish_keeps:
  assumes "keeps c s t"
  shows "keeps c s (sasl_finish_plain c t)"
proof (cases "sasl_credentials t (c_sasl_buffer (sv_client t c))")
  case (Some p)
  obtain account password where p: "p = (account, password)" by fastforce
  obtain ok t1 where t1: "nickserv_identify c account password t = (ok, t1)" by fastforce
  then have "keeps c s t1" using nickserv_identify_keeps [OF assms, of account password] by simp
  then show ?thesis
    using Some p t1
    by (auto simp: sasl_finish_plain_def sasl_failures Let_def sasl_reset_payload_def plain_update_def split: bool.split
        intro!: sasl_end_keeps keeps_sends keeps_upd_client announce_identified_keeps(2) keeps_trans [OF _ sync_client_keeps])
qed (simp add: sasl_finish_plain_def sasl_failures sasl_end_keeps assms)

lemma command_authenticate_keeps: "keeps c s (snd (command_authenticate c params s))"
proof -
  have start: "keeps c s (upd_client c (\<lambda>cl. (sasl_reset_payload cl)\<lparr>c_sasl_state := x\<rparr>) s)" for x
    by (rule keeps_upd_client [OF keeps_refl]) (simp add: plain_update_def sasl_reset_payload_def)
  have frame: "keeps c s (upd_client c (\<lambda>_. cl1) s)" if "sasl_append_frame alloc frame (sv_client s c) = Some (Some cl1)" for alloc frame cl1
  proof -
    have "upd_client c (\<lambda>_. cl1) s = upd_client c (\<lambda>cl. cl\<lparr>c_sasl_buffer := c_sasl_buffer cl @ frame\<rparr>) s"
      using that by (auto simp: sasl_append_frame_def upd_client_def split: if_splits)
    then show ?thesis by (simp add: keeps_upd_client plain_update_def)
  qed
  show ?thesis
    by (auto simp: command_authenticate_def Let_def sasl_failures split: option.split
        intro!: sasl_end_keeps sasl_finish_keeps keeps_sends start elim: frame)
qed

lemma recover_rename_keeps:
  assumes "sv_alloc s" "hash_get (sv_clients_by_nick s) n = Some d"
  shows "keeps c s (snd (recover_rename d s))"
proof (cases "server_wf s \<and> c \<in> set (sv_clients s)")
  case True
  let ?guest = "guest_nick (sv_client s d)" and ?old = "c_nick (sv_client s d)"
  let ?t = "snd (hash_remove (sv_clients_by_nick s) ?old)"
  have old: "d \<in> set (sv_clients s)" "?old \<noteq> []" using wf_nick_lookup [OF _ assms(2)] True by auto
  have inv: "hash_inv ?t" using True by (simp add: wf_defs hash_remove_inv)
  obtain rc t1 where set: "hash_set (sv_alloc s) ?t ?guest d = (rc, t1)" by fastforce
  have "rc = 0" using set assms(1) inv by (auto simp: hash_set_def hash_inv_def Let_def split: if_splits option.splits)
  then have named: "snd (set_nick d ?guest s) = upd_client d (\<lambda>cl. cl\<lparr>c_nick := ?guest\<rparr>) (s\<lparr>sv_clients_by_nick := t1\<rparr>)"
    using set old by (simp add: set_nick_def guest_nick_def)
  show ?thesis
  proof (cases "hash_get (sv_clients_by_nick s) ?guest = None")
    case free: True
    have "keeps d s (snd (set_nick d ?guest s))" by (rule set_nick_keeps) (use free in \<open>auto simp: guest_nick_def\<close>)
    then have "keeps c s (snd (set_nick d ?guest s))" using True old unfolding named by (simp add: keeps_def)
    then have "keeps c s (fold (\<lambda>h. channel_broadcast h None m) hs (snd (set_nick d ?guest s)))" for m hs
      using keeps_trans keeps_fold [where f = "\<lambda>h. channel_broadcast h None m"] keeps_sends(4) [OF keeps_refl] by blast
    then show ?thesis
      using free set \<open>rc = 0\<close> named by (simp add: recover_rename_def Let_def keeps_io [OF _ nickserv_notice_io])
  qed (simp add: recover_rename_def Let_def)
qed (auto simp: keeps_def)

lemmas nickserv_notice_keeps = keeps_io [OF _ nickserv_notice_io]

lemma generate_token_keeps: "keeps c s t \<Longrightarrow> keeps c s (snd (generate_token t))"
  using keeps_fields(8) by (simp add: generate_token_def split: list.split)

lemma send_token_mail_keeps: "keeps c s t \<Longrightarrow> keeps c s (snd (send_token_mail to account token verification t))"
  using keeps_fields(8) by (simp add: send_token_mail_def)

lemma ns_register_keeps: "keeps c s (ns_register c params s)"
proof -
  have reg: "keeps c s (snd (auth_limit_consume c op s))" for op by (rule consume_keeps) simp
  have hashed: "keeps c s (snd (hash_password p m (snd (auth_limit_consume c op s))))" for p m op by (rule hash_password_keeps [OF reg])
  show ?thesis
    using reg hashed
    by (auto simp: ns_register_def Let_def keeps_sends split: option.split prod.split bool.split
        intro!: nickserv_notice_keeps apply_account_keeps put_accounts_keeps) (metis snd_conv)+
qed

lemma ns_password_keeps: "keeps c s (ns_set_password c password s)" "keeps c s (reset_password c name token password s)"
proof -
  have reg: "keeps c s (snd (auth_limit_consume c op s))" for op by (rule consume_keeps) simp
  have hashed: "keeps c s (snd (hash_password p m (snd (auth_limit_consume c op s))))" for p m op by (rule hash_password_keeps [OF reg])
  show "keeps c s (ns_set_password c password s)" "keeps c s (reset_password c name token password s)"
    using reg hashed
    by (auto simp: ns_set_password_def reset_password_def split: option.split prod.split bool.split
        intro!: nickserv_notice_keeps put_accounts_keeps) (metis snd_conv)+
qed

lemma ns_mail_keeps: "keeps c s (ns_set_email c address s)" "keeps c s (reset_request name s)"
proof -
  have token: "keeps c s (snd (generate_token s))" by (rule generate_token_keeps) simp
  have sent: "keeps c s (snd (send_token_mail to a x v (put_accounts rows (snd (generate_token s)))))" for to a x v rows
    by (rule send_token_mail_keeps [OF put_accounts_keeps [OF token]])
  show "keeps c s (ns_set_email c address s)" "keeps c s (reset_request name s)"
    using token sent
    by (auto simp: ns_set_email_def reset_request_def Let_def split: option.split prod.split bool.split intro!: nickserv_notice_keeps) (metis snd_conv)+
qed

lemma ns_recover_keeps:
  assumes "sv_alloc s"
  shows "keeps c s (ns_recover ghost c params s)"
proof -
  have kill: "keeps c s (server_disconnect d reason s)" if "hash_get (sv_clients_by_nick s) n = Some d" "d \<noteq> c" for n d reason
    by (rule keeps_disconnect [OF keeps_refl that(2)]) (use wf_nick_lookup that(1) in blast)
  show ?thesis
    by (auto simp: ns_recover_def case_prod_beta Let_def split: option.split prod.split bool.split intro!: nickserv_notice_keeps elim: kill recover_rename_keeps [OF assms])
qed

lemma nickserv_handle_message_keeps:
  assumes "sv_alloc s"
  shows "keeps c s (nickserv_handle_message c x s)"
proof -
  have "keeps c s (snd (nickserv_identify c account password s))" for account password by (rule nickserv_identify_keeps) simp
  then have "keeps c s (ns_identify c params s)" for params
    by (auto simp: ns_identify_def split: option.split prod.split bool.split intro!: nickserv_notice_keeps) (metis snd_conv)+
  moreover have "keeps c s (ns_logout c params s)" for params
    by (auto simp: ns_logout_def intro!: nickserv_notice_keeps keeps_upd_client logged_out_plain)
  moreover have "keeps c s (ns_verify c params s)" for params
    by (auto simp: ns_verify_def Let_def split: option.split intro!: nickserv_notice_keeps put_accounts_keeps)
  ultimately show ?thesis
    using ns_recover_keeps [OF assms]
    by (auto simp: nickserv_handle_message_def Let_def ns_set_def ns_reset_def case_prod_beta ns_register_keeps ns_password_keeps ns_mail_keeps
        split: option.split prod.split intro!: nickserv_notice_keeps)
qed

lemma nickserv_limits_keeps:
  assumes "keeps c s t"
  shows "keeps c s (snd (server_nickserv_registration_allowed ip consuming t))" and "keeps c s (snd (nickserv_mail_request_allowed ip t))"
  using assms keeps_fields(9)
  by (simp_all add: server_nickserv_registration_allowed_def nickserv_mail_request_allowed_def Let_def case_prod_beta split: option.split)

lemma nickserv_run_keeps:
  assumes "keeps c s t" "sv_alloc t"
  shows "keeps c s (nickserv_run c registering x t)"
proof -
  have "keeps c s (nickserv_handle_message c x t)" using nickserv_handle_message_keeps [OF assms(2)] assms(1) keeps_trans by blast
  then have "keeps c s (recover_presence_after b (nickserv_handle_message c x t))" for b
    by (auto simp: recover_presence_after_def split: option.split intro!: keeps_sends)
  then show ?thesis
    unfolding nickserv_run_def nickserv_after_def Let_def
    by (auto intro!: keeps_sends announce_identified_keeps nickserv_limits_keeps keeps_trans [OF _ sync_client_keeps])
qed

text \<open>While memory lasts; see \<open>recover_rename\<close>, which without memory for the new name may not get the old one back into the index.\<close>

lemma command_nickserv_message_keeps:
  assumes "sv_alloc s"
  shows "keeps c s (command_nickserv_message c x s)"
proof -
  have ok: "keeps c s (snd (nickserv_identify c account password s))" for account password by (rule nickserv_identify_keeps) simp
  have identify: "keeps c s (handle_identify_alias c params s)" for params
    using ok by (auto simp: handle_identify_alias_def Let_def split: option.split prod.split bool.split
        intro!: nickserv_notice_keeps announce_identified_keeps) (metis snd_conv)+
  have logout: "keeps c s (handle_logout_alias c params s)" for params
    by (auto simp: handle_logout_alias_def intro!: nickserv_notice_keeps keeps_upd_client logged_out_plain keeps_trans [OF _ sync_client_keeps] keeps_sends)
  have alloc: "sv_alloc (snd (server_nickserv_registration_allowed ip False s))" "sv_alloc t \<Longrightarrow> sv_alloc (snd (nickserv_mail_request_allowed ip t))" for ip t
    using assms by (simp_all add: server_nickserv_registration_allowed_def nickserv_mail_request_allowed_def Let_def case_prod_beta split: option.split)
  define r1 where "r1 = server_nickserv_registration_allowed (c_real_ip (sv_client s c)) False s"
  have r1: "keeps c s (snd r1)" "sv_alloc (snd r1)" unfolding r1_def by (simp_all add: nickserv_limits_keeps alloc)
  have run: "keeps c s (mail_throttled c (snd (nickserv_mail_request_allowed ip t)))"
      "keeps c s (nickserv_run c registering x (snd (nickserv_mail_request_allowed ip t)))" "keeps c s (nickserv_run c registering x t)"
    if "keeps c s t" "sv_alloc t" for ip t registering
    using that nickserv_limits_keeps(2) [OF that(1)] alloc(2) [OF that(2)]
    by (auto simp: mail_throttled_def intro!: keeps_sends nickserv_notice_keeps nickserv_run_keeps)
  have throttled: "keeps c s (registration_throttled c (snd r1))" unfolding registration_throttled_def by (intro keeps_sends nickserv_notice_keeps r1)
  show ?thesis
    unfolding command_nickserv_message_def Let_def case_prod_beta r1_def [symmetric]
    by (simp add: identify logout throttled run [OF r1] run [OF keeps_refl assms])
qed

subsection \<open>Who may do what to an account\<close>

abbreviation account_names :: "server \<Rightarrow> cref \<Rightarrow> string" where
  "account_names s d \<equiv> c_account_name (sv_client s d)"

text \<open>Nobody is identified or logged out and the table stays.\<close>

definition quiet :: "server \<Rightarrow> server \<Rightarrow> bool" where
  "quiet s t \<longleftrightarrow> account_names t = account_names s \<and> w_accounts (sv_world t) = w_accounts (sv_world s)"

text \<open>Nothing changes that bears on the rights of a client.\<close>

definition steady :: "server \<Rightarrow> server \<Rightarrow> bool" where
  "steady s t \<longleftrightarrow> quiet s t \<and> (\<lambda>d. c_nick (sv_client t d)) = (\<lambda>d. c_nick (sv_client s d)) \<and> sv_config t = sv_config s \<and> sv_clock t = sv_clock s \<and>
     w_argon2_verify (sv_world t) = w_argon2_verify (sv_world s) \<and> w_sha256 (sv_world t) = w_sha256 (sv_world s)"

text \<open>
  The name is that of an enabled account whose password was given, or a name no account had; the row of an account keeps name and password,
  or is that of the client's own account, or a reset token of it that has not expired was given.
\<close>

definition account_proof :: "server \<Rightarrow> string \<Rightarrow> bool" where
  "account_proof s name \<longleftrightarrow> (\<exists>asked account password. load_enabled_account s asked = Some account \<and> ac_name account = name \<and>
     w_argon2_verify (sv_world s) (ac_password_hash account) password)"

definition name_unclaimed :: "server \<Rightarrow> string \<Rightarrow> bool" where
  "name_unclaimed s name \<longleftrightarrow> (\<exists>rows. nickserv_db_open s = Some rows \<and> (\<forall>r \<in> set rows. \<not> strcaseeq (ac_name r) name))"

definition password_kept :: "account_row list \<Rightarrow> account_row \<Rightarrow> bool" where
  "password_kept rows r \<longleftrightarrow> (\<exists>r' \<in> set rows. ac_name r' = ac_name r \<and> ac_password_hash r' = ac_password_hash r)"

definition may_change_password :: "cref \<Rightarrow> server \<Rightarrow> account_row \<Rightarrow> bool" where
  "may_change_password c s r \<longleftrightarrow>
     account_names s c \<noteq> [] \<and> strcaseeq (ac_name r) (account_names s c) \<or>
     ac_enabled r = 1 \<and> ac_reset_token_hash r \<noteq> [] \<and> sv_clock s \<le> ac_reset_expires_at r \<and> (\<exists>token. ac_reset_token_hash r = hash_token s token)"

definition authorised :: "cref \<Rightarrow> server \<Rightarrow> server \<Rightarrow> bool" where
  "authorised c s t \<longleftrightarrow>
     (\<forall>d. d \<noteq> c \<longrightarrow> account_names t d = account_names s d) \<and>
     (account_names t c = account_names s c \<or> account_names t c = [] \<or> account_proof s (account_names t c) \<or>
      account_names t c = c_nick (sv_client s c) \<and> name_unclaimed s (account_names t c)) \<and>
     (\<forall>rows. w_accounts (sv_world s) = Some rows \<longrightarrow>
        (\<exists>rows'. w_accounts (sv_world t) = Some rows' \<and> (\<forall>r \<in> set rows. password_kept rows' r \<or> may_change_password c s r)))"

lemma quiet_trans: "quiet s t \<Longrightarrow> quiet t u \<Longrightarrow> quiet s u"
  by (simp add: quiet_def)

lemma steady_trans: "steady s t \<Longrightarrow> steady t u \<Longrightarrow> steady s u"
  by (simp add: steady_def quiet_def)

lemma steady_quiet: "steady s t \<Longrightarrow> quiet s t"
  by (simp add: steady_def)

lemma steady_refl [simp]: "steady s s"
  by (simp add: steady_def quiet_def)

lemma steady_io: "io_only s t \<Longrightarrow> steady s t"
  by (simp add: steady_def quiet_def io_fields)

lemma authorised_quiet: "authorised c s t \<Longrightarrow> quiet t u \<Longrightarrow> authorised c s u"
  by (simp add: authorised_def quiet_def fun_eq_iff)

lemma password_kept_refl: "r \<in> set rows \<Longrightarrow> password_kept rows r"
  by (auto simp: password_kept_def)

lemma quiet_authorised: "quiet s t \<Longrightarrow> authorised c s t"
  using password_kept_refl by (auto simp: authorised_def quiet_def fun_eq_iff)

lemma steady_open: "steady s t \<Longrightarrow> nickserv_db_open t = nickserv_db_open s"
  by (simp add: steady_def quiet_def nickserv_db_open_def)

lemma steady_authorised:
  assumes "steady s t" "authorised c t u"
  shows "authorised c s u"
proof -
  have "load_enabled_account t = load_enabled_account s" "name_unclaimed t = name_unclaimed s"
    by (simp_all add: fun_eq_iff load_enabled_account_def name_unclaimed_def steady_open [OF assms(1)])
  then have "account_proof t = account_proof s" "name_unclaimed t = name_unclaimed s" "may_change_password c t = may_change_password c s"
    using assms(1) by (simp_all add: fun_eq_iff account_proof_def may_change_password_def hash_token_def steady_def quiet_def)
  then show ?thesis using assms by (simp add: authorised_def steady_def quiet_def fun_eq_iff)
qed

lemma steady_steps:
  "steady s (snd (auth_limit_consume c operation s))" "steady s (snd (hash_password password maximum s))" "steady s (snd (generate_token s))"
  "steady s (snd (send_token_mail to account token verification s))"
  "steady s (snd (server_nickserv_registration_allowed ip consuming s))" "steady s (snd (nickserv_mail_request_allowed ip s))"
  using limit_step_fields [OF consume_limit_step [of s c operation]]
  by (simp_all add: steady_def quiet_def hash_password_def generate_token_def send_token_mail_def server_nickserv_registration_allowed_def
      nickserv_mail_request_allowed_def Let_def case_prod_beta split: option.split list.split)

lemma sync_member_clients: "sv_client (sync_member_privileges h c s) = sv_client s" "sv_world (sync_member_privileges h c s) = sv_world s"
  by (simp_all add: sync_member_privileges_def Let_def split: option.split)

lemma quiet_sync: "quiet s (chanserv_sync_client_privileges c s)"
proof -
  have "quiet s (fold (\<lambda>h. sync_member_privileges h c) hs s)" for hs
    by (induction hs arbitrary: s) (simp_all add: quiet_def sync_member_clients)
  then show ?thesis by (simp add: chanserv_sync_client_privileges_def)
qed

lemma quiet_unread: "quiet s (memoserv_notify_unread c s)"
proof -
  have purge: "quiet s (snd (purge_expired rows s))" for rows
    by (simp add: purge_expired_def quiet_def Let_def case_prod_beta split: option.split)
  note noticed = quiet_trans [OF purge steady_quiet [OF steady_io [OF ms_notice_io]]]
  show ?thesis
    using purge noticed steady_quiet [OF steady_refl] by (auto simp: memoserv_notify_unread_def case_prod_beta split: option.split)
qed

lemma quiet_announce: "quiet s (chanserv_sync_client_privileges c (ircv3_account_notify c s))" "quiet s (announce_identified c s)"
proof -
  show "quiet s (chanserv_sync_client_privileges c (ircv3_account_notify c s))"
    by (rule quiet_trans [OF steady_quiet [OF steady_io [OF account_notify_io]] quiet_sync])
  then show "quiet s (announce_identified c s)"
    unfolding announce_identified_def by (rule quiet_trans) (rule quiet_unread)
qed

lemma quiet_aux: "aux_only s t \<Longrightarrow> quiet s t"
  by (simp add: quiet_def aux_fields)

lemma quiet_disconnect: "quiet s (server_disconnect d reason s)"
proof -
  have leave: "c_account_name (sv_client (remove_member h d t) e) = c_account_name (sv_client t e)" for h t e
    by (simp add: remove_member_def Let_def case_prod_beta channel_remove_client_def split: option.split)
  have fold_leave: "c_account_name (sv_client (fold (\<lambda>h s. server_remove_channel_if_empty h (remove_member h d s)) hs t) e) = c_account_name (sv_client t e)"
    for hs t e
    by (induction hs arbitrary: t) (simp_all add: leave)
  have counts: "sv_client (connection_count_remove ip t) = sv_client t" for ip t
    by (simp add: connection_count_remove_def set_counts_def split: option.split)
  note frames = aux_fields [OF client_free_aux] io_fields [OF pmstats_disconnect_io] fold_leave counts
  have "c_account_name (sv_client (server_disconnect d reason s) e) = c_account_name (sv_client s e)" for e
    by (simp add: server_disconnect_def leave_all_channels_def frames Let_def)
  then show ?thesis by (simp add: quiet_def disconnect_environment fun_eq_iff)
qed

lemma quiet_rename: "quiet s (snd (recover_rename d s))"
proof -
  have "io_only s (fold (\<lambda>h. channel_broadcast h None m) hs s)" for s m hs by (rule io_only_fold) simp
  then have "quiet s (nickserv_notice d x (fold (\<lambda>h. channel_broadcast h None m) hs s))" for s m hs x
    using steady_quiet steady_io nickserv_notice_io quiet_trans by blast
  then have "quiet s (nickserv_notice d x (fold (\<lambda>h. channel_broadcast h None m) hs (upd_client d (\<lambda>cl. cl\<lparr>c_nick := n\<rparr>) (s\<lparr>sv_clients_by_nick := t\<rparr>))))"
    for m hs x n t
    by (rule quiet_trans [rotated]) (simp add: quiet_def upd_client_def fun_eq_iff)
  then show ?thesis by (simp add: recover_rename_def Let_def case_prod_beta) (simp add: quiet_def)
qed

lemma authorised_notice: "authorised c s t \<Longrightarrow> authorised c s (nickserv_notice d x t)"
  using authorised_quiet steady_quiet steady_io nickserv_notice_io by blast

lemma quiet_notice: "quiet s t \<Longrightarrow> authorised c s (nickserv_notice d x t)"
  by (rule authorised_notice) (rule quiet_authorised)

text \<open>An update that leaves name and password.\<close>

lemma update_kept:
  assumes "update_where now P f rows = Some rows'" "\<And>r. ac_name (f r) = ac_name r \<and> (P r \<longrightarrow> Q r \<or> ac_password_hash (f r) = ac_password_hash r)"
  shows "\<forall>r \<in> set rows. password_kept rows' r \<or> Q r"
proof
  fix r assume r: "r \<in> set rows"
  let ?u = "if P r then (f r)\<lparr>ac_updated_at := now\<rparr> else r"
  have "?u \<in> set rows'" using assms(1) r by (auto simp: update_where_def split: if_splits)
  moreover have "ac_name ?u = ac_name r" "Q r \<or> ac_password_hash ?u = ac_password_hash r" using assms(2) [of r] by auto
  ultimately show "password_kept rows' r \<or> Q r" unfolding password_kept_def by blast
qed

lemma update_harmless:
  assumes "update_where now P f rows = Some rows'" "\<And>r. ac_name (f r) = ac_name r \<and> ac_password_hash (f r) = ac_password_hash r" "r \<in> set rows"
  shows "password_kept rows' r"
  using update_kept [OF assms(1), where Q = "\<lambda>_. False"] assms(2,3) by auto

lemma authorised_put:
  assumes "nickserv_db_open s = Some rows" "\<forall>r \<in> set rows. password_kept rows' r \<or> may_change_password c s r"
  shows "authorised c s (put_accounts rows' s)"
  using assms by (auto simp: authorised_def put_accounts_def nickserv_db_open_def split: if_splits option.splits)

lemma cloak_account: "c_account_name (usermode_apply_cloak u cl) = c_account_name cl"
  by (simp add: usermode_apply_cloak_def cloak_refresh_display_host_def Let_def split: option.split)

lemma logged_out_authorised: "authorised c s (upd_client c (logged_out s) s)"
  using password_kept_refl by (auto simp: authorised_def upd_client_def logged_out_def Let_def cloak_account)

lemma authorised_apply:
  assumes "authorised c s t" "account_names t = account_names s"
    and "account_proof s (take IRC_NICK_MAX (ac_name account)) \<or>
      take IRC_NICK_MAX (ac_name account) = c_nick (sv_client s c) \<and> name_unclaimed s (take IRC_NICK_MAX (ac_name account))"
  shows "authorised c s (apply_account c account t)"
proof -
  have "account_names (apply_account c account t) = (account_names t)(c := take IRC_NICK_MAX (ac_name account))"
    by (auto simp: apply_account_def upd_client_def Let_def cloak_account fun_eq_iff)
  moreover have "sv_world (apply_account c account t) = sv_world t" by (simp add: apply_account_def)
  ultimately show ?thesis using assms by (simp add: authorised_def fun_eq_iff)
qed

lemma nickserv_identify_authorised: "authorised c s (snd (nickserv_identify c name password s))"
proof -
  define s1 where "s1 = snd (auth_limit_consume c ''NickServ IDENTIFY'' s)"
  have st: "steady s s1" unfolding s1_def by (rule steady_steps)
  have refused: "authorised c s s" "authorised c s s1" using st steady_quiet quiet_authorised steady_refl by blast+
  have granted: "authorised c s (apply_account c account (record_successful_identify (ac_name account) s1))"
    if "load_enabled_account s name = Some account" "w_argon2_verify (sv_world s1) (ac_password_hash account) password" for account
  proof (rule steady_authorised [OF st])
    have tk: "take IRC_NICK_MAX (ac_name account) = ac_name account"
      using load_enabled_account_text [OF that(1)] by (simp add: stored_text_ok_def)
    have "load_enabled_account s1 name = load_enabled_account s name"
      by (simp add: load_enabled_account_def steady_open [OF st])
    then have "account_proof s1 (take IRC_NICK_MAX (ac_name account))" using that unfolding tk account_proof_def by metis
    moreover have "authorised c s1 (record_successful_identify (ac_name account) s1)"
      using quiet_authorised [OF steady_quiet [OF steady_refl]]
      by (auto simp: record_successful_identify_def nickserv_db_set_last_identified_def update_account_def bind_eq_Some_conv split: option.split if_splits
          intro!: authorised_put dest: update_harmless)
    moreover have "account_names (record_successful_identify (ac_name account) s1) = account_names s1"
      by (simp add: record_successful_identify_def put_accounts_def split: option.split)
    ultimately show "authorised c s1 (apply_account c account (record_successful_identify (ac_name account) s1))" by (intro authorised_apply) simp_all
  qed
  show ?thesis
    using refused granted s1_def
    by (auto simp: nickserv_identify_def Let_def split: option.split prod.split bool.split)
qed

lemma authorised_after_identify:
  "nickserv_identify c name password s = (b, t) \<Longrightarrow> authorised c s t"
  using nickserv_identify_authorised [of c s name password] by simp

lemma ns_register_authorised: "authorised c s (ns_register c params s)"
proof -
  define s1 where "s1 = snd (auth_limit_consume c ''NickServ REGISTER'' s)"
  have st: "steady s s1" unfolding s1_def by (rule steady_steps)
  have st2: "steady s (snd (hash_password p m s1))" for p m by (rule steady_trans [OF st steady_steps(2)])
  have granted: "authorised c s (apply_account c (new_account (take IRC_NICK_MAX (c_nick (sv_client s c))) h at) (put_accounts rows1 s2))"
    if s2: "steady s s2" and db: "nickserv_db_open s = Some rows" "nickserv_db_get (c_nick (sv_client s c)) rows = Some None"
      and add: "nickserv_db_add now (new_account (take IRC_NICK_MAX (c_nick (sv_client s c))) h at) rows = Some rows1" for s2 rows rows1 h at now
  proof (rule steady_authorised [OF s2])
    have open2: "nickserv_db_open s2 = Some rows" "c_nick (sv_client s2 c) = c_nick (sv_client s c)"
      using db(1) s2 by (simp_all add: steady_open) (simp add: steady_def fun_eq_iff)
    have tk: "take IRC_NICK_MAX (c_nick (sv_client s c)) = c_nick (sv_client s c)" and free: "\<forall>r \<in> set rows. \<not> strcaseeq (ac_name r) (c_nick (sv_client s c))"
      using db(2) by (auto simp: nickserv_db_get_def account_name_valid_def oper_text_fits_def find_None_iff split: if_splits option.splits)
    have "set rows \<subseteq> set rows1" using add by (auto simp: nickserv_db_add_def split: if_splits)
    then have "authorised c s2 (put_accounts rows1 s2)"
      by (intro authorised_put [OF open2(1)]) (use password_kept_refl in blast)
    then show "authorised c s2 (apply_account c (new_account (take IRC_NICK_MAX (c_nick (sv_client s c))) h at) (put_accounts rows1 s2))"
      using open2 tk free by (intro authorised_apply) (auto simp: put_accounts_def new_account_def name_unclaimed_def)
  qed
  have refused: "authorised c s s" "authorised c s s1" "\<And>x. authorised c s (sendf c x s)"
    using st steady_quiet quiet_authorised steady_io [OF sendf_io] steady_refl by blast+
  have ok: "steady s s2" if "hash_password p m s1 = (e, s2)" for p m e s2 using st2 [of p m] that by simp
  have failed: "authorised c s s2" if "hash_password p m s1 = (e, s2)" for p m e s2 using ok [OF that] steady_quiet quiet_authorised by blast
  show ?thesis
    using refused s1_def
    by (auto simp: ns_register_def Let_def split: option.split prod.split bool.split intro!: authorised_notice elim: failed granted [OF ok])
qed

lemma ns_set_password_authorised: "authorised c s (ns_set_password c password s)"
proof -
  define s1 where "s1 = snd (auth_limit_consume c ''NickServ SET PASSWORD'' s)"
  have st: "steady s s1" unfolding s1_def by (rule steady_steps)
  have ok: "steady s s2" if "hash_password p m s1 = (e, s2)" for p m e s2 using steady_trans [OF st steady_steps(2) [of s1 p m]] that by simp
  have refused: "authorised c s s" "authorised c s s1" using st steady_quiet quiet_authorised steady_refl by blast+
  have failed: "authorised c s s2" if "hash_password p m s1 = (e, s2)" for p m e s2 using ok [OF that] steady_quiet quiet_authorised by blast
  have changed: "authorised c s (put_accounts rows' s2)"
    if "hash_password p m s1 = (e, s2)" "nickserv_db_open s2 = Some rows" "account_names s c \<noteq> []"
      "nickserv_db_set_password now (account_names s2 c) h rows = Some rows'" for p m e s2 rows now h rows'
  proof (rule steady_authorised [OF ok [OF that(1)]], rule authorised_put [OF that(2)])
    have "account_names s2 c = account_names s c" using ok [OF that(1)] by (simp add: steady_def quiet_def fun_eq_iff)
    then show "\<forall>r \<in> set rows. password_kept rows' r \<or> may_change_password c s2 r"
      using that(3,4)
      by (intro update_kept) (auto simp: nickserv_db_set_password_def update_account_def may_change_password_def split: if_splits)
  qed
  show ?thesis
    using refused s1_def
    by (auto simp: ns_set_password_def bind_eq_Some_conv split: option.split prod.split bool.split intro!: authorised_notice elim: failed changed)
qed

lemma reset_password_authorised: "authorised c s (reset_password c name token password s)"
proof -
  define s1 where "s1 = snd (auth_limit_consume c ''NickServ RESET password'' s)"
  have st: "steady s s1" unfolding s1_def by (rule steady_steps)
  have ok: "steady s s2" if "hash_password p m s1 = (e, s2)" for p m e s2 using steady_trans [OF st steady_steps(2) [of s1 p m]] that by simp
  have refused: "authorised c s s" "authorised c s s1" using st steady_quiet quiet_authorised steady_refl by blast+
  have failed: "authorised c s s2" if "hash_password p m s1 = (e, s2)" for p m e s2 using ok [OF that] steady_quiet quiet_authorised by blast
  have changed: "authorised c s (put_accounts rows' s2)"
    if "hash_password p m s1 = (e, s2)" "nickserv_db_open s2 = Some rows"
      "nickserv_db_consume_reset_token (sv_clock s2) name (hash_token s token) h rows = Some (Some rows')" for p m e s2 rows h rows'
  proof (rule steady_authorised [OF ok [OF that(1)]], rule authorised_put [OF that(2)])
    have "hash_token s token = hash_token s2 token" using ok [OF that(1)] by (simp add: steady_def hash_token_def)
    then show "\<forall>r \<in> set rows. password_kept rows' r \<or> may_change_password c s2 r"
      using that(3)
      by (intro update_kept) (auto simp: nickserv_db_consume_reset_token_def may_change_password_def oper_text_fits_def split: if_splits)
  qed
  show ?thesis
    using refused s1_def
    by (auto simp: reset_password_def bind_eq_Some_conv split: option.split prod.split bool.split intro!: authorised_notice elim: failed changed)
qed

lemma ns_mail_authorised: "authorised c s (ns_set_email c address s)" "authorised c s (reset_request name s)"
proof -
  have ok: "steady s s1" if "generate_token s = (x, s1)" for x s1 using steady_steps(3) [of s] that by simp
  have refused: "authorised c s s" using quiet_authorised [OF steady_quiet [OF steady_refl]] .
  have failed: "authorised c s s1" if "generate_token s = (x, s1)" for x s1 using ok [OF that] steady_quiet quiet_authorised by blast
  have sent: "authorised c s (snd (send_token_mail to a x v (put_accounts rows' s1)))"
    if "generate_token s = (y, s1)" "nickserv_db_open s1 = Some rows" "\<And>r. r \<in> set rows \<Longrightarrow> password_kept rows' r" for to a x v y s1 rows rows'
  proof (rule steady_authorised [OF ok [OF that(1)]])
    have "authorised c s1 (put_accounts rows' s1)" by (rule authorised_put [OF that(2)]) (use that(3) in blast)
    then show "authorised c s1 (snd (send_token_mail to a x v (put_accounts rows' s1)))"
      using authorised_quiet steady_quiet steady_steps(4) by blast
  qed
  have challenge: "r \<in> set rows \<Longrightarrow> password_kept rows' r"
    if "nickserv_db_set_email_challenge now n e h at rows = Some rows'" for now n e h at rows rows' r
    using that by (auto simp: nickserv_db_set_email_challenge_def update_account_def split: if_splits elim: update_harmless)
  have reset: "r \<in> set rows \<Longrightarrow> password_kept rows' r"
    if "nickserv_db_set_reset_token now n h at rows = Some rows'" for now n h at rows rows' r
    using that by (auto simp: nickserv_db_set_reset_token_def update_account_def split: if_splits elim: update_harmless)
  have emailed: "authorised c s s2"
    if "send_token_mail to a x v (put_accounts rows' s1) = (b, s2)" "generate_token s = (y, s1)" "nickserv_db_open s1 = Some rows"
      "nickserv_db_set_email_challenge now n e h at rows = Some rows'" for to a x v b s2 y s1 rows rows' now n e h at
    using sent [OF that(2,3) challenge [OF that(4)], of to a x v] that(1) by simp
  have requested: "authorised c s (snd (send_token_mail to a x v (put_accounts rows' s1)))"
    if "generate_token s = (y, s1)" "nickserv_db_open s = Some rows" "nickserv_db_set_reset_token now n h at rows = Some rows'"
    for to a x v y s1 rows rows' now n h at
    using that(1) sent [OF that(1) _ reset [OF that(3)]] steady_open [OF ok [OF that(1)]] that(2) by simp
  show "authorised c s (ns_set_email c address s)"
    using refused by (auto simp: ns_set_email_def Let_def bind_eq_Some_conv split: option.split prod.split bool.split intro!: authorised_notice elim: failed emailed)
  show "authorised c s (reset_request name s)"
    using refused by (auto simp: reset_request_def split: option.split prod.split elim: failed requested)
qed

lemma ns_other_authorised:
  "authorised c s (ns_identify c params s)" "authorised c s (ns_logout c params s)" "authorised c s (ns_verify c params s)"
  "authorised c s (ns_recover ghost c params s)"
proof -
  have refused: "authorised c s s" using quiet_authorised [OF steady_quiet [OF steady_refl]] .
  show "authorised c s (ns_identify c params s)"
    using refused by (auto simp: ns_identify_def split: option.split prod.split bool.split intro!: authorised_notice elim: authorised_after_identify)
  show "authorised c s (ns_logout c params s)"
    using refused logged_out_authorised by (auto simp: ns_logout_def intro!: authorised_notice)
  have verify: "authorised c s (put_accounts rows' s)"
    if "nickserv_db_open s = Some rows" "nickserv_db_verify_email now n h rows = Some (Some rows')" for rows now n h rows'
    by (rule authorised_put [OF that(1)])
       (use that(2) in \<open>auto simp: nickserv_db_verify_email_def split: if_splits dest: update_harmless\<close>)
  show "authorised c s (ns_verify c params s)"
    using refused by (auto simp: ns_verify_def Let_def split: option.split intro!: authorised_notice elim: verify)
  have renamed: "authorised c s s1" if "recover_rename d s = (b, s1)" for d b s1 using quiet_authorised [OF quiet_rename [of s d]] that by simp
  show "authorised c s (ns_recover ghost c params s)"
    using refused
    by (auto simp: ns_recover_def case_prod_beta Let_def quiet_authorised [OF quiet_disconnect] quiet_authorised [OF quiet_rename] split: option.split prod.split bool.split intro!: authorised_notice elim: renamed)
qed

lemma nickserv_handle_message_authorised: "authorised c s (nickserv_handle_message c x s)"
proof -
  have refused: "authorised c s s" using quiet_authorised [OF steady_quiet [OF steady_refl]] .
  show ?thesis
    using refused
    by (auto simp: nickserv_handle_message_def Let_def ns_set_def ns_reset_def case_prod_beta ns_register_authorised ns_set_password_authorised
        reset_password_authorised ns_mail_authorised ns_other_authorised split: option.split prod.split intro!: authorised_notice)
qed

lemma nickserv_run_authorised: "authorised c s (nickserv_run c registering x s)"
proof -
  let ?t = "nickserv_handle_message c x s"
  have presence: "quiet t (recover_presence_after b t)" for b t
    by (simp add: recover_presence_after_def quiet_def split: option.split)
  have after: "quiet t (nickserv_after c b registering t)" for b t
  proof -
    have limit: "quiet t u \<Longrightarrow> quiet t (snd (server_nickserv_registration_allowed ip True u))" for u ip
      using quiet_trans steady_quiet steady_steps(5) by blast
    have broadcast: "quiet t u \<Longrightarrow> quiet t (snotice_broadcast k y u)" for u k y
      using quiet_trans steady_quiet steady_io snotice_broadcast_io by blast
    show ?thesis
      using quiet_announce [of t c] steady_quiet [OF steady_refl]
      by (auto simp: nickserv_after_def Let_def intro!: limit broadcast)
  qed
  show ?thesis
    unfolding nickserv_run_def
    by (rule authorised_quiet [OF authorised_quiet [OF nickserv_handle_message_authorised presence] after])
qed

lemma authorised_announce: "authorised c s t \<Longrightarrow> authorised c s (announce_identified d t)"
  using authorised_quiet quiet_announce(2) by blast

lemma handle_alias_authorised: "authorised c s (handle_identify_alias c params s)" "authorised c s (handle_logout_alias c params s)"
proof -
  have refused: "authorised c s s" using quiet_authorised [OF steady_quiet [OF steady_refl]] .
  show "authorised c s (handle_identify_alias c params s)"
    using refused by (auto simp: handle_identify_alias_def Let_def split: option.split prod.split bool.split
        intro!: authorised_notice authorised_announce elim: authorised_after_identify)
  show "authorised c s (handle_logout_alias c params s)"
    using refused authorised_quiet [OF logged_out_authorised quiet_announce(1)] by (auto simp: handle_logout_alias_def intro!: authorised_notice)
qed

lemma command_nickserv_message_authorised: "authorised c s (command_nickserv_message c x s)"
proof -
  define r1 where "r1 = server_nickserv_registration_allowed (c_real_ip (sv_client s c)) False s"
  have r1: "steady s (snd r1)" unfolding r1_def by (rule steady_steps)
  have io: "steady t (mail_throttled c t)" "steady t (registration_throttled c t)" for t
    using steady_trans [OF steady_io [OF nickserv_notice_io] steady_io [OF snotice_broadcast_io]]
    by (simp_all add: mail_throttled_def registration_throttled_def)
  have throttled: "authorised c s (registration_throttled c (snd r1))"
    using steady_quiet [OF steady_trans [OF r1 io(2)]] by (rule quiet_authorised)
  have run: "authorised c s (mail_throttled c (snd (nickserv_mail_request_allowed ip t)))"
      "authorised c s (nickserv_run c registering x (snd (nickserv_mail_request_allowed ip t)))" "authorised c s (nickserv_run c registering x t)"
    if "steady s t" for ip t registering
  proof -
    have m: "steady s (snd (nickserv_mail_request_allowed ip t))" by (rule steady_trans [OF that steady_steps(6)])
    show "authorised c s (mail_throttled c (snd (nickserv_mail_request_allowed ip t)))"
      using steady_quiet [OF steady_trans [OF m io(1)]] by (rule quiet_authorised)
    show "authorised c s (nickserv_run c registering x (snd (nickserv_mail_request_allowed ip t)))" "authorised c s (nickserv_run c registering x t)"
      by (rule steady_authorised [OF m nickserv_run_authorised], rule steady_authorised [OF that nickserv_run_authorised])
  qed
  show ?thesis
    unfolding command_nickserv_message_def Let_def case_prod_beta r1_def [symmetric]
    by (simp add: handle_alias_authorised throttled run [OF r1] run [OF steady_refl])
qed

lemma sasl_end_quiet: "quiet s (sasl_end n x c s)"
proof -
  have "quiet s (upd_client c (\<lambda>cl. (sasl_reset_payload cl)\<lparr>c_sasl_state := st\<rparr>) s)" for st
    by (simp add: quiet_def upd_client_def fun_eq_iff sasl_reset_payload_def)
  then show ?thesis using quiet_trans steady_quiet steady_io sendf_io by (fastforce simp: sasl_end_def Let_def)
qed

lemma sasl_finish_authorised: "authorised c s (sasl_finish_plain c s)"
proof (cases "sasl_credentials s (c_sasl_buffer (sv_client s c))")
  case None
  then show ?thesis by (simp add: sasl_finish_plain_def sasl_failures quiet_authorised [OF sasl_end_quiet])
next
  case (Some p)
  obtain account password where p: "p = (account, password)" by fastforce
  obtain ok t where t: "nickserv_identify c account password s = (ok, t)" by fastforce
  note auth = authorised_after_identify [OF t]
  have state: "quiet u (upd_client c f u)" if "\<And>cl. c_account_name (f cl) = c_account_name cl" for f u
    by (simp add: quiet_def upd_client_def fun_eq_iff that)
  have send: "authorised c s (sendf c x u)" if "authorised c s u" for x u using authorised_quiet [OF that] steady_quiet steady_io sendf_io by blast
  have reset: "authorised c s (upd_client c sasl_reset_payload t)" by (rule authorised_quiet [OF auth state]) (simp add: sasl_reset_payload_def)
  have finish: "authorised c s (upd_client c (\<lambda>cl. cl\<lparr>c_sasl_state := CLIENT_SASL_COMPLETE\<rparr>) (memoserv_notify_unread c u))" if "authorised c s u" for u
    by (rule authorised_quiet [OF authorised_quiet [OF that quiet_unread] state]) simp
  show ?thesis
    using Some p t authorised_quiet [OF auth sasl_end_quiet] finish [OF reset] finish [OF authorised_quiet [OF reset quiet_announce(1)]]
    by (auto simp: sasl_finish_plain_def sasl_failures Let_def split: bool.split intro!: send)
qed

lemma command_authenticate_authorised: "authorised c s (snd (command_authenticate c params s))"
proof -
  have refused: "authorised c s s" using quiet_authorised [OF steady_quiet [OF steady_refl]] .
  have frame: "steady s (upd_client c (\<lambda>_. cl1) s)" if "sasl_append_frame alloc frame (sv_client s c) = Some (Some cl1)" for alloc frame cl1
    using that by (auto simp: sasl_append_frame_def steady_def quiet_def upd_client_def fun_eq_iff split: if_splits)
  have start: "quiet s (upd_client c (\<lambda>cl. (sasl_reset_payload cl)\<lparr>c_sasl_state := st\<rparr>) s)" for st
    by (simp add: quiet_def upd_client_def fun_eq_iff sasl_reset_payload_def)
  have send: "authorised c s (sendf c x u)" if "quiet s u" for x u
    using quiet_authorised [OF quiet_trans [OF that steady_quiet [OF steady_io [OF sendf_io]]]] .
  show ?thesis
    using refused
    by (auto simp: command_authenticate_def Let_def sasl_failures quiet_authorised [OF sasl_end_quiet] sasl_finish_authorised send [OF start]
        send [OF steady_quiet [OF steady_refl]] split: option.split
        intro: steady_authorised [OF frame sasl_finish_authorised] quiet_authorised [OF steady_quiet [OF frame]])
qed

lemma registered_only_authorised: "(\<And>t. authorised c t (snd (body t))) \<Longrightarrow> authorised c s (snd (registered_only c body s))"
  using quiet_authorised steady_quiet steady_io by (simp add: registered_only_def command_require_registered_def)

lemma account_commands_authorised:
  assumes "h \<in> {command_identify, command_authenticate, command_nickserv}"
  shows "authorised c s (snd (h c params s))"
proof -
  have refused: "authorised c t t" "authorised c t (snd (ERR_NEEDMOREPARAMS c x t))" for t x
    using quiet_authorised [OF steady_quiet [OF steady_refl]] quiet_authorised [OF steady_quiet [OF steady_io [OF sendf_io]]]
    by (simp_all add: ERR_NEEDMOREPARAMS_def reply_def)
  have "authorised c s (snd (command_identify c params s))"
    unfolding command_identify_def
    by (rule registered_only_authorised)
       (use refused in \<open>auto simp: Let_def split: option.split prod.split bool.split
          intro!: authorised_notice authorised_announce elim: authorised_after_identify\<close>)
  moreover have "authorised c s (snd (command_nickserv c params s))"
    unfolding command_nickserv_def
    by (rule registered_only_authorised) (simp add: refused command_nickserv_message_authorised split: option.split)
  ultimately show ?thesis using assms command_authenticate_authorised by auto
qed

subsection \<open>Properties\<close>

text \<open>
  C7: nobody takes over an account.  If IDENTIFY, AUTHENTICATE or a NickServ command changes the account any client is identified to, it is the
  client that sent it, and it has logged out, or the new name is that of an enabled account whose stored hash verifies a password, or the client has
  registered its own nickname, which no account had.
\<close>

theorem account_needs_proof:
  assumes "h \<in> {command_identify, command_authenticate, command_nickserv}"
    and "c_account_name (sv_client (snd (h c params s)) d) \<noteq> c_account_name (sv_client s d)"
  shows "d = c \<and> (c_account_name (sv_client (snd (h c params s)) c) = [] \<or> account_proof s (c_account_name (sv_client (snd (h c params s)) c)) \<or>
    c_account_name (sv_client (snd (h c params s)) c) = c_nick (sv_client s c) \<and>
    name_unclaimed s (c_account_name (sv_client (snd (h c params s)) c)))"
  using account_commands_authorised [OF assms(1), of c s params] assms(2) unfolding authorised_def by metis

text \<open>
  C8: only its owner or the holder of a reset token changes the password of an account.  Unless the client is identified to the account, or the account
  is enabled and has a reset token that has not expired, which some text hashes to, none of these commands changes or removes name
  and password of its row, nor the table as a whole.
\<close>

theorem password_change_needs_authority:
  assumes "h \<in> {command_identify, command_authenticate, command_nickserv}"
    and "w_accounts (sv_world s) = Some rows" "r \<in> set rows" "\<not> may_change_password c s r"
  shows "\<exists>rows'. w_accounts (sv_world (snd (h c params s))) = Some rows' \<and> password_kept rows' r"
  using account_commands_authorised [OF assms(1), of c s params] assms(2-) unfolding authorised_def by blast

definition account_room :: server where
  "account_room = example_room\<lparr>
     sv_config := config_blank\<lparr>cf_argon2_ops_per_ip := 0, cf_argon2_global_ops_per_minute := 0, cf_argon2_global_burst_per_second := 0\<rparr>,
     sv_world := world_blank\<lparr>w_accounts := Some [example_account], w_argon2_verify := (\<lambda>h p. h = ''x'' \<and> p = ''secret'')\<rparr>\<rparr>"

theorem account_needs_proof_witness: "account_proof account_room ''bob''"
proof -
  have words: "identify_words (sv_client account_room 0) ''bob secret'' = Some (''bob'', ''secret'')"
    by (simp add: identify_words_def strtok_def tok_rest_def)
  have found: "load_enabled_account account_room ''bob'' = Some example_account"
    by (simp add: load_enabled_account_def nickserv_db_open_def nickserv_db_get_def account_name_valid_def oper_text_fits_def has_line_break_def
      account_from_stmt_def stored_text_ok_def to_int32_def account_room_def example_account_def config_blank_def strcaseeq_def)
  have limits: "auth_limit_consume 0 ''NickServ IDENTIFY'' account_room = (True, account_room)"
    by (simp add: auth_limit_consume_def account_room_def)
  have verified: "w_argon2_verify (sv_world account_room) (ac_password_hash example_account) ''secret''" "c_registered (sv_client account_room 0)"
    "c_account_name (sv_client account_room 0) = []" "c_nick (sv_client account_room 0) = ''alice''" "ac_vhost example_account = []"
    "ac_name example_account = ''bob''"
    by (simp_all add: account_room_def example_account_def)
  obtain t where t: "nickserv_identify 0 ''bob'' ''secret'' account_room = (True, t)" "c_account_name (sv_client t 0) = ''bob''"
  proof -
    have "nickserv_identify 0 ''bob'' ''secret'' account_room =
        (True, apply_account 0 example_account (record_successful_identify ''bob'' account_room))"
      using found limits verified by (simp add: nickserv_identify_def)
    moreover have "c_account_name (sv_client (apply_account 0 example_account (record_successful_identify ''bob'' account_room)) 0) = ''bob''"
      using verified by (simp add: apply_account_def upd_client_def Let_def cloak_account)
    ultimately show thesis using that by blast
  qed
  have "c_account_name (sv_client (snd (command_identify 0 (Some ''bob secret'') account_room)) 0) = ''bob''"
    using verified words t quiet_announce(2) [of t 0]
    by (simp add: command_identify_def registered_only_def command_require_registered_def nickserv_notice_def quiet_def fun_eq_iff Let_def)
  then show ?thesis
    using account_needs_proof [of command_identify 0 "Some ''bob secret''" account_room 0] verified by simp
qed

theorem password_change_needs_authority_witness:
  "\<exists>rows. w_accounts (sv_world (snd (command_nickserv 0 (Some ''RESET bob 123 mine'') account_room))) = Some rows \<and> password_kept rows example_account"
  by (rule password_change_needs_authority [where rows = "[example_account]"])
     (simp_all add: account_room_def may_change_password_def example_account_def)

end
