(* ===== verification/Event_Loop.thy ===== *)
theory Event_Loop
  imports Ban_Commands
begin

section \<open>The event loop (src/server.c)\<close>

text \<open>
  The results of the resolvers, the deadlines of a connection, the PINGs that keep it alive, and one turn of \<open>server_run\<close>.
  What \<open>poll\<close>, \<open>accept\<close>, \<open>SSL_accept\<close>, the two resolvers and the clock answer during a turn is the argument \<open>turn_answer\<close>; the bytes
  that \<open>send\<close> accepts are the answers in \<open>sv_env\<close>, as in theory \<open>Output\<close>.  The rotation of the channel logs is not represented.
\<close>

abbreviation SERVER_ACCEPT_BUDGET_PER_LISTENER :: nat where "SERVER_ACCEPT_BUDGET_PER_LISTENER \<equiv> 32"
abbreviation SERVER_DNS_RESULT_BUDGET :: nat where "SERVER_DNS_RESULT_BUDGET \<equiv> 64"
abbreviation SERVER_DNSBL_RESULT_BUDGET :: nat where "SERVER_DNSBL_RESULT_BUDGET \<equiv> 64"
abbreviation SERVER_DNSBL_LISTED_BUDGET :: nat where "SERVER_DNSBL_LISTED_BUDGET \<equiv> 4"
abbreviation SERVER_TLS_HANDSHAKE_BUDGET :: nat where "SERVER_TLS_HANDSHAKE_BUDGET \<equiv> 32"
abbreviation IRCD_DNSBL_NAME_MAX :: nat where "IRCD_DNSBL_NAME_MAX \<equiv> 63"
abbreviation SERVER_DNSBL_REASON_ZONE_MAX :: nat where
  "SERVER_DNSBL_REASON_ZONE_MAX \<equiv> IRC_QUIT_REASON_MAX - 6 - IRCD_DNSBL_NAME_MAX - 3"
abbreviation SERVER_DNSBL_SET_BY_NAME_MAX :: nat where "SERVER_DNSBL_SET_BY_NAME_MAX \<equiv> IRCD_OPER_NAME_MAX - 6"
abbreviation IRCD_PING_TOKEN_MAX :: nat where "IRCD_PING_TOKEN_MAX \<equiv> 20"

definition nick_or_star :: "client \<Rightarrow> string" where
  "nick_or_star cl = (if c_nick cl \<noteq> [] then c_nick cl else ''*'')"

definition dns_notice :: "string \<Rightarrow> cref \<Rightarrow> server \<Rightarrow> server" where
  "dns_notice x c s = sendf c ('':'' @ server_name s @ '' NOTICE AUTH :*** '' @ x) s"

definition NOTICE_STARTDNS :: "cref \<Rightarrow> server \<Rightarrow> server" where
  "NOTICE_STARTDNS = dns_notice ''Looking up your hostname''"

definition NOTICE_GOTDNS :: "cref \<Rightarrow> server \<Rightarrow> server" where
  "NOTICE_GOTDNS = dns_notice ''Done looking up your hostname''"

definition NOTICE_FAILDNS :: "cref \<Rightarrow> server \<Rightarrow> server" where
  "NOTICE_FAILDNS = dns_notice ''Hostname lookup failed; using IP instead''"

subsection \<open>Results of the host name lookup\<close>

record dns_result =
  dr_client_id :: u64
  dr_verified :: bool
  dr_resolved_host :: string

definition dns_verified :: "cref \<Rightarrow> string \<Rightarrow> server \<Rightarrow> server" where
  "dns_verified c host s =
     (let s1 = upd_client c (\<lambda>cl. cl\<lparr>c_dns_state := CLIENT_DNS_VERIFIED, c_real_host := take IRC_HOST_MAX host\<rparr>) s;
          cl = sv_client s1 c;
          s2 = snotice_broadcast SNOTICE_DNS (''FCrDNS verified: '' @ c_real_ip cl @ '' -> '' @ c_real_host cl) s1;
          s3 = (if client_mode_has (c_modes cl) (CLIENT_MODE_CLOAKED OR CLIENT_MODE_VHOST) then s2
                else upd_client c (\<lambda>cl. cl\<lparr>c_display_host := c_real_host cl\<rparr>) s2)
      in if o_tls_state (sv_out s3 c) \<noteq> CLIENT_TLS_HANDSHAKE then NOTICE_GOTDNS c s3 else s3)"

definition dns_failed :: "dns_state \<Rightarrow> string \<Rightarrow> cref \<Rightarrow> server \<Rightarrow> server" where
  "dns_failed state text c s =
     (let s1 = upd_client c (\<lambda>cl. cl\<lparr>c_dns_state := state, c_real_host := []\<rparr>) s;
          s2 = snotice_broadcast SNOTICE_DNS (text @ c_real_ip (sv_client s1 c)) s1
      in if o_tls_state (sv_out s2 c) \<noteq> CLIENT_TLS_HANDSHAKE then NOTICE_FAILDNS c s2 else s2)"

definition handle_dns_result :: "dns_result \<Rightarrow> server \<Rightarrow> server" where
  "handle_dns_result r s =
     (case server_find_client_by_id s (dr_client_id r) of
        None \<Rightarrow> s
      | Some c \<Rightarrow>
          if c_dns_state (sv_client s c) \<noteq> CLIENT_DNS_PENDING then s
          else command_maybe_register c
                 (if dr_verified r \<and> dr_resolved_host r \<noteq> [] then dns_verified c (dr_resolved_host r) s
                  else dns_failed CLIENT_DNS_FAILED ''FCrDNS failed or did not verify for '' c s))"

definition drain_dns_results :: "dns_result list \<Rightarrow> server \<Rightarrow> server" where
  "drain_dns_results results s = fold handle_dns_result (take SERVER_DNS_RESULT_BUDGET results) s"

subsection \<open>Results of the DNS block lists\<close>

record dnsbl_result =
  br_client_id :: u64
  br_listed :: bool
  br_name :: string
  br_zone :: string

definition eline_policy_match_server :: "int \<Rightarrow> string \<Rightarrow> string option \<Rightarrow> server \<Rightarrow> bool \<times> server" where
  "eline_policy_match_server type identity1 identity2 s =
     (if cf_bans_db (sv_config s) = [] \<or> identity1 = [] then (False, s)
      else case open_bans s of
             (False, s1) \<Rightarrow> (False, s1)
           | (True, s1) \<Rightarrow>
               (case ban_exception_db_match (sv_world s1) (sv_clock s1) type (Some identity1) identity2 (exception_rows s1) of
                  Some (Some _) \<Rightarrow> (True, s1) | _ \<Rightarrow> (False, s1)))"

definition dnsbl_where :: "dnsbl_result \<Rightarrow> client \<Rightarrow> string" where
  "dnsbl_where r cl = c_real_ip cl @ '' in '' @ (if br_zone r \<noteq> [] then br_zone r else ''unknown'') @ '' ('' @
     (if br_name r \<noteq> [] then br_name r else ''listed'') @ '')''"

definition dnsbl_zline :: "cref \<Rightarrow> string \<Rightarrow> string \<Rightarrow> server \<Rightarrow> server" where
  "dnsbl_zline c reason set_by s =
     (case open_bans s of
        (False, s1) \<Rightarrow> s1
      | (True, s1) \<Rightarrow>
          (case ban_db_add_timed (sv_clock s1) BAN_TYPE_ZLINE (c_real_ip (sv_client s1 c)) (Some reason) (Some set_by)
                  (unat (cf_zline_default_duration_seconds (sv_config s1))) (ban_rows s1) of
             None \<Rightarrow> s1 | Some rows \<Rightarrow> set_bans rows s1))"

definition dnsbl_listed :: "dnsbl_result \<Rightarrow> cref \<Rightarrow> server \<Rightarrow> server" where
  "dnsbl_listed r c s =
     (let name = (if br_name r \<noteq> [] then br_name r else ''listed''); zone = (if br_zone r \<noteq> [] then br_zone r else ''unknown'');
          s1 = upd_client c (\<lambda>cl. cl\<lparr>c_dnsbl_state := CLIENT_DNSBL_LISTED\<rparr>) s;
          reason = take IRC_QUIT_REASON_MAX
            (''DNSBL '' @ take IRCD_DNSBL_NAME_MAX name @ '' ('' @ take SERVER_DNSBL_REASON_ZONE_MAX zone @ '')'');
          set_by = take IRCD_OPER_NAME_MAX (''DNSBL:'' @ take SERVER_DNSBL_SET_BY_NAME_MAX name);
          (exempt, s2) = eline_policy_match_server BAN_EXCEPTION_DNSBL (c_real_ip (sv_client s1 c)) None s1
      in if exempt
         then command_maybe_register c
                (snotice_broadcast (SNOTICE_DNS OR SNOTICE_BANS)
                   (''DNSBL listed '' @ dnsbl_where r (sv_client s2 c) @ ''; exempted by ELINE'')
                   (upd_client c (\<lambda>cl. cl\<lparr>c_dnsbl_state := CLIENT_DNSBL_CLEAR\<rparr>) s2))
         else
           let s3 = dnsbl_zline c reason set_by s2; cl = sv_client s3 c;
               s4 = snotice_broadcast (SNOTICE_DNS OR SNOTICE_BANS)
                 (''DNSBL listed '' @ dnsbl_where r cl @ ''; automatic exact-IP ZLINE created for '' @
                  dec (unat (cf_zline_default_duration_seconds (sv_config s3))) @ '' seconds'') s3;
               s5 = sendf c (numeric s4 ''465'' (nick_or_star cl)
                 ('':You are banned from this server.  Mail '' @ cf_admin_email (sv_config s4) @ '' for more information'')) s4
           in add_journal (JournalShutdown c) (upd_client c (\<lambda>cl. cl\<lparr>c_quit_reason := reason\<rparr>) s5))"

definition handle_dnsbl_result :: "dnsbl_result \<Rightarrow> server \<Rightarrow> server" where
  "handle_dnsbl_result r s =
     (case server_find_client_by_id s (br_client_id r) of
        None \<Rightarrow> s
      | Some c \<Rightarrow>
          if c_dnsbl_state (sv_client s c) \<noteq> CLIENT_DNSBL_PENDING then s
          else if \<not> br_listed r
          then command_maybe_register c (upd_client c (\<lambda>cl. cl\<lparr>c_dnsbl_state := CLIENT_DNSBL_CLEAR\<rparr>) s)
          else dnsbl_listed r c s)"

fun drain_dnsbl_loop :: "nat \<Rightarrow> nat \<Rightarrow> dnsbl_result list \<Rightarrow> server \<Rightarrow> server" where
  "drain_dnsbl_loop handled listed [] s = s"
| "drain_dnsbl_loop handled listed (r # rs) s =
     (if handled \<ge> SERVER_DNSBL_RESULT_BUDGET then s
      else let s1 = handle_dnsbl_result r s
           in if br_listed r \<and> listed + 1 \<ge> SERVER_DNSBL_LISTED_BUDGET then s1
              else drain_dnsbl_loop (handled + 1) (if br_listed r then listed + 1 else listed) rs s1)"

definition drain_dnsbl_results :: "dnsbl_result list \<Rightarrow> server \<Rightarrow> server" where
  "drain_dnsbl_results results s = drain_dnsbl_loop 0 0 results s"

subsection \<open>Deadlines of a connection\<close>

text \<open>\<open>%d\<close> of the enumeration.\<close>

definition sasl_number :: "sasl_state \<Rightarrow> nat" where
  "sasl_number st = (case st of CLIENT_SASL_NONE \<Rightarrow> 0 | CLIENT_SASL_PLAIN_WAIT_DATA \<Rightarrow> 1 | CLIENT_SASL_COMPLETE \<Rightarrow> 2 | CLIENT_SASL_FAILED \<Rightarrow> 3)"

definition time_out :: "u32 \<Rightarrow> string \<Rightarrow> string \<Rightarrow> cref \<Rightarrow> server \<Rightarrow> server" where
  "time_out k notice reason d s =
     server_disconnect d reason (sendf d ('':'' @ server_name s @ '' ERROR :'' @ reason) (snotice_broadcast k notice s))"

definition registration_late :: "server \<Rightarrow> client \<Rightarrow> bool" where
  "registration_late s cl \<longleftrightarrow> \<not> c_registered cl \<and> sv_clock s - c_signon_time cl \<ge> uint (cf_registration_timeout_seconds (sv_config s))"

definition nospoof_late :: "server \<Rightarrow> client \<Rightarrow> bool" where
  "nospoof_late s cl \<longleftrightarrow> cf_nospoof_enabled (sv_config s) \<and> c_nospoof_started cl \<and> \<not> c_nospoof_verified cl \<and> c_nospoof_deadline cl \<le> sv_clock s"

definition expire_dns :: "cref \<Rightarrow> server \<Rightarrow> server" where
  "expire_dns d s =
     (if c_dns_state (sv_client s d) = CLIENT_DNS_PENDING \<and> c_dns_deadline (sv_client s d) \<le> sv_clock s
      then command_maybe_register d (dns_failed CLIENT_DNS_TIMEOUT ''FCrDNS timeout for '' d s) else s)"

definition expire_dnsbl :: "cref \<Rightarrow> server \<Rightarrow> server" where
  "expire_dnsbl d s =
     (if c_dnsbl_state (sv_client s d) = CLIENT_DNSBL_PENDING \<and> c_dnsbl_deadline (sv_client s d) \<le> sv_clock s
      then command_maybe_register d
             (snotice_broadcast SNOTICE_DNS (''DNSBL lookup timeout for '' @ c_real_ip (sv_client s d))
                (upd_client d (\<lambda>cl. cl\<lparr>c_dnsbl_state := CLIENT_DNSBL_TIMEOUT\<rparr>) s))
      else s)"

definition expire_client :: "cref \<Rightarrow> server \<Rightarrow> bool \<times> server" where
  "expire_client d s =
     (let cl = sv_client s d
      in if registration_late s cl
         then (True, time_out SNOTICE_FLOOD
                 (''Registration timeout for '' @ c_real_ip cl @ '' (nick='' @ nick_or_star cl @ '' cap='' @
                  (if c_cap_negotiating cl then ''yes'' else ''no'') @ '' sasl_state='' @ dec (sasl_number (c_sasl_state cl)) @ '')'')
                 ''Registration timeout'' d s)
         else if nospoof_late s cl
         then (True, time_out SNOTICE_SECURITY
                 (''No-spoof PING timeout for '' @ c_real_ip cl @ '' (nick='' @ nick_or_star cl @ '')'') ''No-spoof PING timeout'' d s)
         else (False, expire_dnsbl d (expire_dns d s)))"

definition expire_connection_lookups :: "server \<Rightarrow> server" where
  "expire_connection_lookups s = sweep expire_client (length (sv_clients s)) 0 s"

subsection \<open>PINGs\<close>

definition ping_expired :: "time_t \<Rightarrow> client \<Rightarrow> bool" where
  "ping_expired now cl \<longleftrightarrow> c_registered cl \<and> c_ping_pending cl \<and> c_ping_deadline cl \<le> now"

text \<open>A clock that has gone back counts as no idle time.\<close>

definition ping_due :: "time_t \<Rightarrow> server_config \<Rightarrow> client \<Rightarrow> bool" where
  "ping_due now cfg cl \<longleftrightarrow> c_registered cl \<and> \<not> c_ping_pending cl \<and>
     now - (if now < c_last_liveness_activity cl then now else c_last_liveness_activity cl) \<ge> uint (cf_ping_interval_seconds cfg)"

definition send_ping :: "cref \<Rightarrow> server \<Rightarrow> server" where
  "send_ping d s =
     (let deadline = sv_clock s + uint (cf_ping_timeout_seconds (sv_config s));
          s1 = upd_client d (\<lambda>cl. cl\<lparr>c_ping_deadline := deadline, c_ping_token := take IRCD_PING_TOKEN_MAX (dec_int deadline)\<rparr>) s;
          (rc, s2) = sendf_rc d (''PING :'' @ c_ping_token (sv_client s1 d)) s1
      in if rc \<ge> 0 then upd_client d (\<lambda>cl. cl\<lparr>c_ping_pending := True\<rparr>) s2 else s2)"

definition liveness_client :: "cref \<Rightarrow> server \<Rightarrow> bool \<times> server" where
  "liveness_client d s =
     (let cl = sv_client s d; now = sv_clock s;
          reason = ''Ping Timeout: '' @ dec (unat (cf_ping_timeout_seconds (sv_config s))) @ '' seconds''
      in if \<not> c_registered cl then (False, s)
         else if c_ping_pending cl
         then if c_ping_deadline cl \<le> now
              then (True, time_out SNOTICE_CONNECTIONS (''PING timeout for '' @ c_real_ip cl @ '' (nick='' @ nick_or_star cl @ '')'')
                      (take 63 reason) d s)
              else (False, s)
         else let s1 = (if now < c_last_liveness_activity cl then upd_client d (\<lambda>cl. cl\<lparr>c_last_liveness_activity := now\<rparr>) s else s)
              in (False, if ping_due now (sv_config s) cl then send_ping d s1 else s1))"

definition maintain_client_liveness :: "server \<Rightarrow> server" where
  "maintain_client_liveness s = sweep liveness_client (length (sv_clients s)) 0 s"

subsection \<open>One turn of the loop\<close>

datatype handshake_answer = HandshakeDone | HandshakeWantRead | HandshakeWantWrite | HandshakeError

definition set_tls :: "cref \<Rightarrow> (client_out \<Rightarrow> client_out) \<Rightarrow> server \<Rightarrow> server" where
  "set_tls c f s = s\<lparr>sv_out := (sv_out s)(c := f (sv_out s c))\<rparr>"

definition advance_tls_handshake :: "handshake_answer \<Rightarrow> cref \<Rightarrow> server \<Rightarrow> bool \<times> server" where
  "advance_tls_handshake answer c s =
     (if o_tls_state (sv_out s c) \<noteq> CLIENT_TLS_HANDSHAKE \<or> \<not> o_ssl (sv_out s c) then (False, s)
      else case answer of
             HandshakeDone \<Rightarrow>
               (let s1 = upd_client c (\<lambda>cl. cl\<lparr>c_modes := client_mode_add (c_modes cl) CLIENT_MODE_SECURE\<rparr>)
                           (set_tls c (\<lambda>t. t\<lparr>o_tls_state := CLIENT_TLS_ESTABLISHED, o_tls_want_write := False\<rparr>) s)
                in (False,
                    if c_dns_state (sv_client s1 c) = CLIENT_DNS_PENDING then NOTICE_STARTDNS c s1
                    else if c_dns_state (sv_client s1 c) = CLIENT_DNS_VERIFIED then NOTICE_GOTDNS c s1
                    else NOTICE_FAILDNS c s1))
           | HandshakeWantRead \<Rightarrow> (False, set_tls c (\<lambda>t. t\<lparr>o_tls_want_write := False\<rparr>) s)
           | HandshakeWantWrite \<Rightarrow> (False, set_tls c (\<lambda>t. t\<lparr>o_tls_want_write := True\<rparr>) s)
           | HandshakeError \<Rightarrow> (True, snotice_broadcast SNOTICE_SECURITY (''TLS handshake failed from '' @ c_real_ip (sv_client s c)) s))"

definition flush_client :: "cref \<Rightarrow> server \<Rightarrow> int \<times> server" where
  "flush_client c s =
     (let (rc, o1, net) = client_flush_output (sv_out s c) (oe_net (sv_env s))
      in (rc, s\<lparr>sv_out := (sv_out s)(c := o1), sv_env := (sv_env s)\<lparr>oe_net := net\<rparr>\<rparr>))"

text \<open>The events that \<open>poll\<close> reports for a client, and what its transport answers when it is used.\<close>

record poll_events =
  pe_in :: bool
  pe_out :: bool
  pe_error :: bool
  pe_read :: read_answer
  pe_handshake :: handshake_answer

definition sendq_exceeded :: "cref \<Rightarrow> server \<Rightarrow> server" where
  "sendq_exceeded c s =
     snotice_broadcast SNOTICE_FLOOD
       (''SendQ exceeded for '' @ c_real_ip (sv_client s c) @ '' (nick='' @ nick_or_star (sv_client s c) @ '' limit='' @
        dec (o_limit (sv_out s c)) @ '' bytes)'') s"

definition serve_plain :: "poll_events \<Rightarrow> cref \<Rightarrow> server \<Rightarrow> bool \<times> server" where
  "serve_plain ev c s =
     (let t = sv_out s c;
          (disconnect, s1) = (if client_output_pending t \<and> (pe_out ev \<or> o_want_read t \<and> pe_in ev)
                              then let (rc, s1) = flush_client c s in (rc < 0, s1) else (False, s))
      in if \<not> disconnect \<and> \<not> o_retry_pending (sv_out s1 c) \<and> pe_in ev then read_client (pe_read ev) c s1
         else (disconnect, s1))"

definition serve_events :: "poll_events \<Rightarrow> nat \<Rightarrow> cref \<Rightarrow> server \<Rightarrow> bool \<times> nat \<times> server" where
  "serve_events ev handshakes c s =
     (let t = sv_out s c; tls = (o_tls_state t = CLIENT_TLS_ESTABLISHED \<and> o_ssl t)
      in if pe_error ev then (True, handshakes, s)
         else if o_tls_state t = CLIENT_TLS_HANDSHAKE
         then if (pe_in ev \<or> pe_out ev) \<and> handshakes < SERVER_TLS_HANDSHAKE_BUDGET
              then let (d, s1) = advance_tls_handshake (pe_handshake ev) c s in (d, handshakes + 1, s1)
              else (False, handshakes, s)
         else if tls \<and> o_input_retry_pending t
         then if o_input_want_write t \<and> pe_out ev \<or> \<not> o_input_want_write t \<and> pe_in ev
              then let (d, s1) = read_client (pe_read ev) c s in (d, handshakes, s1)
              else (False, handshakes, s)
         else if tls \<and> o_retry_pending t
         then if o_want_read t \<and> pe_in ev \<or> \<not> o_want_read t \<and> pe_out ev
              then let (rc, s1) = flush_client c s in (rc < 0, handshakes, s1)
              else (False, handshakes, s)
         else let (d, s1) = serve_plain ev c s in (d, handshakes, s1))"

definition serve_client :: "poll_events \<Rightarrow> nat \<Rightarrow> cref \<Rightarrow> server \<Rightarrow> nat \<times> server" where
  "serve_client ev handshakes c s =
     (if o_overflowed (sv_out s c) then (handshakes, server_disconnect c ''SendQ exceeded'' (sendq_exceeded c s))
      else if \<not> pe_in ev \<and> \<not> pe_out ev \<and> \<not> pe_error ev then (handshakes, s)
      else let (disconnect, handshakes1, s1) = serve_events ev handshakes c s;
               (disconnect1, s2) =
                 (if \<not> disconnect \<and> o_overflowed (sv_out s1 c)
                  then (True, upd_client c (\<lambda>cl. cl\<lparr>c_quit_reason := ''SendQ exceeded''\<rparr>) (sendq_exceeded c s1))
                  else (disconnect, s1))
           in (handshakes1,
               if disconnect1
               then server_disconnect c (if c_quit_reason (sv_client s2 c) \<noteq> [] then c_quit_reason (sv_client s2 c) else IRC_DEFAULT_QUIT_REASON) s2
               else s2))"

text \<open>The pass over the snapshot: an entry counts only while its id still leads to the same client.\<close>

fun serve_snapshot :: "(cref \<Rightarrow> poll_events) \<Rightarrow> (cref \<times> u64) list \<Rightarrow> nat \<Rightarrow> server \<Rightarrow> server" where
  "serve_snapshot events [] handshakes s = s"
| "serve_snapshot events ((c, i) # rest) handshakes s =
     (if server_find_client_by_id s i \<noteq> Some c then serve_snapshot events rest handshakes s
      else let (handshakes1, s1) = serve_client (events c) handshakes c s in serve_snapshot events rest handshakes1 s1)"

definition accept_clients :: "bool \<Rightarrow> accept_answer list \<Rightarrow> server \<Rightarrow> server" where
  "accept_clients use_tls answers s = fold (accept_client use_tls) (take SERVER_ACCEPT_BUDGET_PER_LISTENER answers) s"

text \<open>
  What the outside world answers in a turn: the clock, whether the two arrays for \<open>poll\<close> could be enlarged, whether \<open>poll\<close> failed, whether
  it reported events, the connections of the listeners that were ready (with the kind of the listener), the results of the two resolvers and
  the events of the clients.  \<open>ta_now\<close> is the time after the events have been handled.
\<close>

datatype growth = Grown | PollOverflow | PollAllocation | SnapshotOverflow | SnapshotAllocation

definition growth_text :: "growth \<Rightarrow> string" where
  "growth_text g = (case g of Grown \<Rightarrow> [] | PollOverflow \<Rightarrow> ''poll capacity overflow'' | PollAllocation \<Rightarrow> ''poll allocation failure''
     | SnapshotOverflow \<Rightarrow> ''snapshot capacity overflow'' | SnapshotAllocation \<Rightarrow> ''snapshot allocation failure'')"

record turn_answer =
  ta_clock :: time_t
  ta_growth :: growth
  ta_poll_failed :: bool
  ta_ready :: bool
  ta_accepts :: "(bool \<times> accept_answer list) list"
  ta_dns :: "dns_result list"
  ta_dnsbl :: "dnsbl_result list"
  ta_events :: "cref \<Rightarrow> poll_events"
  ta_now :: time_t

text \<open>The statics of the loop: the two cursors and the second of the last maintenance.\<close>

record loop_state =
  lp_input_cursor :: nat
  lp_tls_handshake_cursor :: nat
  lp_maintenance_second :: "time_t option"

definition poll_snapshot :: "nat \<Rightarrow> server \<Rightarrow> (cref \<times> u64) list" where
  "poll_snapshot cursor s =
     (let entries = map (\<lambda>c. (c, c_id (sv_client s c))) (sv_clients s) in rotate (cursor mod length entries) entries)"

definition handle_ready :: "turn_answer \<Rightarrow> (cref \<times> u64) list \<Rightarrow> server \<Rightarrow> server" where
  "handle_ready a snapshot s =
     (if \<not> ta_ready a then s
      else serve_snapshot (ta_events a) snapshot 0
             (drain_dnsbl_results (ta_dnsbl a)
               (drain_dns_results (ta_dns a)
                 (fold (\<lambda>(use_tls, answers). accept_clients use_tls answers) (ta_accepts a) s))))"

definition maintenance :: "turn_answer \<Rightarrow> loop_state \<Rightarrow> server \<Rightarrow> loop_state \<times> server" where
  "maintenance a lp s =
     (if lp_maintenance_second lp = Some (ta_now a) then (lp, s)
      else let s1 = s\<lparr>sv_clock := ta_now a\<rparr>;
               s2 = (if sv_restart_requested s1 then s1 else expire_connection_lookups s1);
               s3 = (if sv_restart_requested s2 then s2 else maintain_client_liveness s2)
           in (lp\<lparr>lp_maintenance_second := Some (ta_now a)\<rparr>, s3))"

text \<open>\<open>True\<close> when the loop goes on.\<close>

definition server_turn :: "line_handler \<Rightarrow> turn_answer \<Rightarrow> loop_state \<Rightarrow> server \<Rightarrow> bool \<times> loop_state \<times> server" where
  "server_turn handle a lp s =
     (let (pending, cursor, budget, s1) = drain_buffered_client_input handle (lp_input_cursor lp) SERVER_INPUT_LINE_BUDGET_GLOBAL s;
          lp1 = lp\<lparr>lp_input_cursor := cursor\<rparr>
      in if sv_restart_requested s1 then (False, lp1, s1)
         else if ta_growth a \<noteq> Grown
         then (False, lp1, snotice_broadcast SNOTICE_FLOOD (''Event-loop '' @ growth_text (ta_growth a) @ ''; stopping server loop'') s1)
         else if ta_poll_failed a then (False, lp1, s1)
         else
           let n = length (sv_clients s1);
               s2 = handle_ready a (poll_snapshot (lp_tls_handshake_cursor lp1) s1) (s1\<lparr>sv_clock := ta_clock a\<rparr>);
               lp2 = lp1\<lparr>lp_tls_handshake_cursor :=
                 (if n > 0 then (lp_tls_handshake_cursor lp1 mod n + SERVER_TLS_HANDSHAKE_BUDGET) mod n else 0)\<rparr>;
               (lp3, s3) = (if \<not> sv_restart_requested s2 \<and> budget > 0
                            then case drain_buffered_client_input handle (lp_input_cursor lp2) budget s2 of
                                   (_, cursor1, _, s3) \<Rightarrow> (lp2\<lparr>lp_input_cursor := cursor1\<rparr>, s3)
                            else (lp2, s2));
               (lp4, s4) = maintenance a lp3 s3
           in (True, lp4, s4))"

subsection \<open>Every part keeps the server well formed\<close>

lemma wf_id_lookup:
  assumes "server_wf s" "server_find_client_by_id s i = Some c"
  shows "c \<in> set (sv_clients s)"
proof -
  obtain n where "id_of s c = Some n"
    using assms unfolding server_find_client_by_id_def server_wf_def wf_index_def index_of_def by blast
  then show ?thesis by (simp add: id_of_def split: if_splits)
qed

lemma wf_of_keeps: "server_wf s \<Longrightarrow> c \<in> set (sv_clients s) \<Longrightarrow> keeps c s t \<Longrightarrow> server_wf t"
  by (simp add: keeps_def)

lemma dns_notice_io [simp, intro!]:
  "io_only s (NOTICE_STARTDNS c s)" "io_only s (NOTICE_GOTDNS c s)" "io_only s (NOTICE_FAILDNS c s)" "io_only s (sendq_exceeded c s)"
  by (simp_all add: NOTICE_STARTDNS_def NOTICE_GOTDNS_def NOTICE_FAILDNS_def dns_notice_def sendq_exceeded_def)

lemma dns_keeps:
  assumes "keeps c s t"
  shows "keeps c s (dns_verified d host t)" and "keeps c s (dns_failed st x d t)"
  using assms
  by (auto simp: dns_verified_def dns_failed_def Let_def plain_update_def intro!: keeps_io [OF _ dns_notice_io(2)] keeps_io [OF _ dns_notice_io(3)]
      keeps_upd_client keeps_sends)

lemma handle_dns_result_wf: "server_wf s \<Longrightarrow> server_wf (handle_dns_result r s)"
  unfolding handle_dns_result_def
  using wf_of_keeps [OF _ wf_id_lookup then_register_keeps, of s "dr_client_id r"] dns_keeps [OF keeps_refl]
  by (auto split: option.split)

lemma drain_dns_results_wf: "server_wf s \<Longrightarrow> server_wf (drain_dns_results rs s)"
  unfolding drain_dns_results_def
  by (rule fold_invariant [where P = server_wf and Q = "\<lambda>_. True"]) (simp_all add: handle_dns_result_wf)

lemma eline_policy_keeps: "keeps c s t \<Longrightarrow> keeps c s (snd (eline_policy_match_server ty i1 i2 t))"
  using open_bans_keeps [of c s t]
  by (auto simp: eline_policy_match_server_def split: prod.split bool.split option.split)

lemma dnsbl_zline_keeps: "keeps c s t \<Longrightarrow> keeps c s (dnsbl_zline d reason by t)"
  using open_bans_keeps [of c s t]
  by (auto simp: dnsbl_zline_def set_tables_keeps split: prod.split bool.split option.split)

lemma dnsbl_listed_keeps: "keeps c s (dnsbl_listed r c s)"
proof -
  define s1 where "s1 = upd_client c (\<lambda>cl. cl\<lparr>c_dnsbl_state := CLIENT_DNSBL_LISTED\<rparr>) s"
  have s1: "keeps c s s1" unfolding s1_def by (rule keeps_upd_client [OF keeps_refl]) (simp add: plain_update_def)
  obtain e s2 where e: "eline_policy_match_server BAN_EXCEPTION_DNSBL (c_real_ip (sv_client s1 c)) None s1 = (e, s2)" by fastforce
  have s2: "keeps c s s2" using eline_policy_keeps [OF s1] e by (metis snd_conv)
  have journal: "keeps c s (add_journal j t)" if "keeps c s t" for j t
    using keeps_fields [OF that] by (simp add: add_journal_def)
  show ?thesis
    unfolding dnsbl_listed_def s1_def [symmetric] Let_def e prod.case
    using s2
    by (auto simp: plain_update_def intro!: then_register_keeps journal keeps_upd_client keeps_sends dnsbl_zline_keeps)
qed

lemma handle_dnsbl_result_wf: "server_wf s \<Longrightarrow> server_wf (handle_dnsbl_result r s)"
proof -
  have "keeps c s (command_maybe_register c (upd_client c (\<lambda>cl. cl\<lparr>c_dnsbl_state := st\<rparr>) s))" for c st
    by (intro then_register_keeps keeps_upd_client keeps_refl) (simp add: plain_update_def)
  then show "server_wf s \<Longrightarrow> server_wf (handle_dnsbl_result r s)"
    unfolding handle_dnsbl_result_def
    using wf_of_keeps [OF _ wf_id_lookup, of s "br_client_id r"] dnsbl_listed_keeps by (auto split: option.split)
qed

lemma drain_dnsbl_wf: "server_wf s \<Longrightarrow> server_wf (drain_dnsbl_results rs s)"
proof -
  have "server_wf s \<Longrightarrow> server_wf (drain_dnsbl_loop h l rs s)" for h l
    by (induction h l rs s rule: drain_dnsbl_loop.induct) (simp_all add: handle_dnsbl_result_wf Let_def)
  then show "server_wf s \<Longrightarrow> server_wf (drain_dnsbl_results rs s)" by (simp add: drain_dnsbl_results_def)
qed

lemma time_out_shrunk:
  assumes "server_wf s" "d \<in> set (sv_clients s)"
  shows "shrunk s (time_out k x reason d s)" and "sv_clients (time_out k x reason d s) = swap_remove d (sv_clients s)"
    and "e \<noteq> d \<Longrightarrow> sv_client (time_out k x reason d s) e = sv_client s e"
proof -
  let ?t = "sendf d ('':'' @ server_name s @ '' ERROR :'' @ reason) (snotice_broadcast k x s)"
  have io: "io_only s ?t" by (rule io_only_trans [OF snotice_broadcast_io sendf_io])
  have t: "server_wf ?t" "d \<in> set (sv_clients ?t)" using server_wf_io [OF io assms(1)] io_fields [OF io] assms(2) by simp_all
  note gone = disconnect_shrunk [OF t]
  show "shrunk s (time_out k x reason d s)"
    unfolding time_out_def by (rule shrunk_trans [OF shrunk_io [OF assms(1) io] gone(1)])
  show "sv_clients (time_out k x reason d s) = swap_remove d (sv_clients s)"
    unfolding time_out_def using gone(2) io_fields [OF io] by simp
  show "sv_client (time_out k x reason d s) e = sv_client s e" if "e \<noteq> d"
  proof -
    obtain u where "aux_only u (server_disconnect d reason ?t)" "\<And>e. e \<noteq> d \<Longrightarrow> sv_client u e = sv_client ?t e"
      by (rule server_disconnect_core [OF t, where reason = reason]) blast
    then show ?thesis unfolding time_out_def using that aux_fields(4) io_fields [OF io] by simp
  qed
qed

lemma expire_keeps: "keeps c s t \<Longrightarrow> keeps c s (expire_dnsbl c (expire_dns c t))"
proof -
  assume "keeps c s t"
  then have "keeps c s (expire_dns c t)"
    by (simp add: expire_dns_def dns_keeps then_register_keeps)
  then show ?thesis
    by (auto simp: expire_dnsbl_def plain_update_def intro!: then_register_keeps keeps_upd_client keeps_sends)
qed

lemma register_clients [simp]: "sv_clients (command_maybe_register c s) = sv_clients s"
proof -
  have up: "sv_clients (upd_client d f t) = sv_clients t" for d f t by (simp add: upd_client_def)
  have folds: "sv_clients (fold (\<lambda>l. sendf c l) ls t) = sv_clients t" for ls t
    by (rule io_fields [OF io_only_fold]) simp
  have "sv_clients (refuse_registration d r t) = sv_clients t" for d r t
    by (simp add: refuse_registration_def Let_def add_journal_def up)
  then have policy: "sv_clients (snd (registration_ban_policy_error d t)) = sv_clients t" "sv_clients (exempted d n r t) = sv_clients t"
    "sv_clients (snd (rejected d n r t)) = sv_clients t" "sv_clients (snd (registration_geo_banned d t)) = sv_clients t" for d n r t
    by (simp_all add: registration_ban_policy_error_def exempted_def rejected_def registration_geo_banned_def Let_def split: option.split)
  then have kline: "sv_clients (snd (registration_kline d rows t)) = sv_clients t" for d rows t
    by (simp add: registration_kline_def Let_def split: option.split)
  have banned: "sv_clients (snd (registration_banned d t)) = sv_clients t" for d t
    by (simp add: registration_banned_def Let_def policy kline split: option.split)
  have completed: "sv_clients (complete_registration d t) = sv_clients t" if "d = c" for d t
    unfolding that complete_registration_def Let_def
    by (simp add: folds up io_fields(2) [OF send_isupport_io] io_fields(2) [OF send_motd_io])
  have steps: "sv_clients (registration_geoip d t) = sv_clients t" "sv_clients (snd (registration_dnsbl d t)) = sv_clients t" for d t
    by (simp_all add: registration_geoip_def registration_dnsbl_def up)
  show ?thesis
    by (simp add: command_maybe_register_def case_prod_beta Let_def policy banned completed steps)
qed

lemma expire_clients: "sv_clients (expire_dnsbl c (expire_dns c s)) = sv_clients s"
proof -
  have up: "sv_clients (upd_client d f t) = sv_clients t" for d f t by (simp add: upd_client_def)
  have "sv_clients (dns_failed st x c t) = sv_clients t" for st x t
    by (simp add: dns_failed_def Let_def up io_fields(2) [OF dns_notice_io(3)])
  then show ?thesis by (simp add: expire_dnsbl_def expire_dns_def up)
qed

interpretation expiry: client_loop expire_client
proof (unfold_locales, goal_cases)
  case (1 s d)
  then show ?case
    using time_out_shrunk(1) [OF 1] wf_of_keeps [OF 1 expire_keeps [OF keeps_refl]]
    by (simp add: expire_client_def Let_def shrunk_def)
next
  case (2 s d)
  then show ?case using time_out_shrunk(2) [OF 2] by (simp add: expire_client_def Let_def expire_clients)
qed

definition pinged :: "time_t \<Rightarrow> server_config \<Rightarrow> client \<Rightarrow> client \<Rightarrow> bool" where
  "pinged now cfg cl cl' \<longleftrightarrow>
     (let cl1 = (if c_registered cl \<and> \<not> c_ping_pending cl \<and> now < c_last_liveness_activity cl
                 then cl\<lparr>c_last_liveness_activity := now\<rparr> else cl);
          deadline = now + uint (cf_ping_timeout_seconds cfg)
      in if ping_due now cfg cl
         then \<exists>b. cl' = cl1\<lparr>c_ping_deadline := deadline, c_ping_token := take IRCD_PING_TOKEN_MAX (dec_int deadline), c_ping_pending := b\<rparr>
         else cl' = cl1)"

lemma send_ping_client:
  "sv_clients (send_ping d s) = sv_clients s" "e \<noteq> d \<Longrightarrow> sv_client (send_ping d s) e = sv_client s e"
  "sv_clock (send_ping d s) = sv_clock s" "sv_config (send_ping d s) = sv_config s"
  by (auto simp: send_ping_def Let_def case_prod_beta upd_client_def)

lemma send_ping_target:
  assumes "\<not> c_ping_pending (sv_client s d)" "deadline = sv_clock s + uint (cf_ping_timeout_seconds (sv_config s))"
  shows "\<exists>b. sv_client (send_ping d s) d = (sv_client s d)\<lparr>c_ping_deadline := deadline,
      c_ping_token := take IRCD_PING_TOKEN_MAX (dec_int deadline), c_ping_pending := b\<rparr>"
proof (cases "sendf_rc d (''PING :'' @ take IRCD_PING_TOKEN_MAX (dec_int deadline))
    (upd_client d (\<lambda>cl. cl\<lparr>c_ping_deadline := deadline, c_ping_token := take IRCD_PING_TOKEN_MAX (dec_int deadline)\<rparr>) s)")
  case (Pair rc t)
  then have "sv_client t = sv_client (upd_client d (\<lambda>cl. cl\<lparr>c_ping_deadline := deadline, c_ping_token := take IRCD_PING_TOKEN_MAX (dec_int deadline)\<rparr>) s)"
    using io_fields(4) [OF sendf_rc_io] by (metis snd_conv)
  then show ?thesis
    using assms(1) Pair by (cases "rc \<ge> 0") (auto simp: send_ping_def Let_def upd_client_def assms(2) intro: exI [of _ False] exI [of _ True])
qed

lemma send_ping_keeps: "keeps c s t \<Longrightarrow> keeps c s (send_ping d t)"
  by (auto simp: send_ping_def Let_def case_prod_beta plain_update_def intro!: keeps_upd_client keeps_io [OF _ sendf_rc_io])

interpretation liveness: client_visit liveness_client "\<lambda>now cfg cl. ping_expired now cl" pinged
proof (unfold_locales, goal_cases)
  case (1 s d)
  have "keeps d s (upd_client d (\<lambda>cl. cl\<lparr>c_last_liveness_activity := x\<rparr>) s)" for x
    by (rule keeps_upd_client [OF keeps_refl]) (simp add: plain_update_def)
  then show ?case
    using time_out_shrunk(1) [OF 1] wf_of_keeps [OF 1] send_ping_keeps [of d s] 1
    by (auto simp: liveness_client_def Let_def shrunk_def)
next
  case (2 s d)
  then show ?case
    using time_out_shrunk(2) [OF 2] by (auto simp: liveness_client_def Let_def send_ping_client upd_client_def)
next
  case (3 s d)
  then show ?case by (simp add: liveness_client_def Let_def ping_expired_def)
next
  case (4 s d e)
  then show ?case
    using time_out_shrunk(3) [OF 4(1,2,3)] by (auto simp: liveness_client_def Let_def send_ping_client upd_client_def)
next
  case (5 s d)
  then show ?case
    using time_out_shrunk(1) [OF 5] by (auto simp: liveness_client_def Let_def send_ping_client upd_client_def shrunk_def)
next
  case (6 s d)
  have "sv_clock (upd_client d f s) = sv_clock s" "sv_config (upd_client d f s) = sv_config s"
    "sv_client (upd_client d f s) d = f (sv_client s d)" for f by (simp_all add: upd_client_def)
  then show ?case
    using 6(3) send_ping_target [of s d] send_ping_target [of "upd_client d (\<lambda>cl. cl\<lparr>c_last_liveness_activity := sv_clock s\<rparr>) s" d]
    by (auto simp: liveness_client_def Let_def pinged_def ping_due_def split: if_splits)
qed

lemma set_tls_keeps: "keeps c s t \<Longrightarrow> keeps c s (set_tls d f t)"
  using keeps_fields(6) by (simp add: set_tls_def)

lemma read_client_keeps: "keeps c s t \<Longrightarrow> keeps c s (snd (read_client a d t))"
proof -
  assume k: "keeps c s t"
  then have "keeps c s (set_input_retry b w d t)" for b w
    using keeps_fields(6) [OF k] by (simp add: set_input_retry_def)
  then show ?thesis
    using k by (auto simp: read_client_def Let_def plain_update_def split: read_answer.split intro!: keeps_upd_client)
qed

lemma handshake_keeps: "keeps c s t \<Longrightarrow> keeps c s (snd (advance_tls_handshake a d t))"
  by (auto simp: advance_tls_handshake_def Let_def plain_update_def split: handshake_answer.split
      intro!: keeps_io [OF _ dns_notice_io(1)] keeps_io [OF _ dns_notice_io(2)] keeps_io [OF _ dns_notice_io(3)] keeps_upd_client set_tls_keeps keeps_sends)

lemma flush_keeps: "keeps c s t \<Longrightarrow> keeps c s (snd (flush_client d t))"
  using keeps_fields(7) [OF keeps_fields(6)] by (simp add: flush_client_def case_prod_beta)

lemma serve_events_keeps: "keeps c s (snd (snd (serve_events ev n d s)))"
  using handshake_keeps [OF keeps_refl] read_client_keeps [OF keeps_refl] flush_keeps [OF keeps_refl]
    read_client_keeps [OF flush_keeps [OF keeps_refl]]
  by (simp add: serve_events_def serve_plain_def Let_def case_prod_beta)

lemma serve_client_wf:
  assumes "server_wf s" "c \<in> set (sv_clients s)"
  shows "server_wf (snd (serve_client ev n c s))"
proof -
  have gone: "server_wf (server_disconnect c r t)" if "keeps c s t" for r t
    using disconnect_shrunk(1) [of t c r] that assms by (simp add: keeps_def shrunk_def)
  have sendq: "keeps c s (sendq_exceeded c t)" if "keeps c s t" for t by (rule keeps_io [OF that dns_notice_io(4)])
  have quit: "keeps c s (upd_client c (\<lambda>cl. cl\<lparr>c_quit_reason := x\<rparr>) t)" if "keeps c s t" for x t
    by (rule keeps_upd_client [OF that]) (simp add: plain_update_def)
  note served = serve_events_keeps [of c s ev n c]
  show ?thesis
    using gone [OF sendq [OF keeps_refl]] gone [OF quit [OF sendq [OF served]]] gone [OF served] wf_of_keeps [OF assms served] assms
      wf_of_keeps [OF assms quit [OF sendq [OF served]]]
    by (simp add: serve_client_def Let_def case_prod_beta)
qed

lemma serve_snapshot_wf: "server_wf s \<Longrightarrow> server_wf (serve_snapshot events entries n s)"
proof (induction events entries n s rule: serve_snapshot.induct)
  case (2 events c i rest n s)
  show ?case
  proof (cases "server_find_client_by_id s i = Some c")
    case True
    obtain m t where r: "serve_client (events c) n c s = (m, t)" by fastforce
    have "server_wf t" using serve_client_wf [OF 2(3) wf_id_lookup [OF 2(3) True], of "events c" n] r by simp
    then show ?thesis using 2(2) [of "(m, t)" m t] True r by simp
  qed (use 2(1,3) in simp)
qed simp

lemma accept_clients_wf: "server_wf s \<Longrightarrow> server_wf (accept_clients use_tls answers s)"
  unfolding accept_clients_def
  by (rule fold_invariant [where P = server_wf and Q = "\<lambda>_. True"]) (simp_all add: accept_client_step)

lemma handle_ready_wf: "server_wf s \<Longrightarrow> server_wf (handle_ready a entries s)"
proof -
  have "server_wf s \<Longrightarrow> server_wf (fold (\<lambda>(use_tls, answers). accept_clients use_tls answers) xs s)" for xs
    by (rule fold_invariant [where P = server_wf and Q = "\<lambda>_. True"]) (auto simp: accept_clients_wf)
  then show "server_wf s \<Longrightarrow> server_wf (handle_ready a entries s)"
    by (simp add: handle_ready_def serve_snapshot_wf drain_dnsbl_wf drain_dns_results_wf)
qed

lemma maintenance_wf: "server_wf s \<Longrightarrow> server_wf (snd (maintenance a lp s))"
  by (simp add: maintenance_def Let_def expire_connection_lookups_def maintain_client_liveness_def expiry.sweep_wf liveness.sweep_wf)

context command_handlers begin

lemma turn_wf: "server_wf s \<Longrightarrow> server_wf (snd (snd (server_turn (irc_handle_line handler) a lp s)))"
proof -
  assume wf: "server_wf s"
  have drain: "server_wf (snd (snd (snd (drain_buffered_client_input (irc_handle_line handler) cursor budget t))))" if "server_wf t" for cursor budget t
    using drain_loop_wf [OF that] that by (simp add: drain_buffered_client_input_def case_prod_beta Let_def)
  obtain p cu b s1 where d: "drain_buffered_client_input (irc_handle_line handler) (lp_input_cursor lp) SERVER_INPUT_LINE_BUDGET_GLOBAL s = (p, cu, b, s1)"
    by (metis prod_cases4)
  have s1: "server_wf s1" using drain [OF wf] d by (metis snd_conv)
  have clock: "server_wf (s1\<lparr>sv_clock := x\<rparr>)" for x using s1 by simp
  note ready = handle_ready_wf [OF clock]
  show ?thesis
    using s1 server_wf_io [OF snotice_broadcast_io s1] ready drain [OF ready] maintenance_wf
    by (auto simp: server_turn_def d Let_def case_prod_beta)
qed

end

subsection \<open>The life of the server\<close>

text \<open>
  \<open>server_init\<close>: everything zero, the four tables with their buckets.  The configuration, the answers of the libraries, the stores on disk and the
  clock are what the process finds; the listeners, the TLS context and the resolvers are not represented.
\<close>

definition server_init :: "server_config \<Rightarrow> out_env \<Rightarrow> world \<Rightarrow> cs_db \<Rightarrow> (string \<Rightarrow> string option) \<Rightarrow> (string \<Rightarrow> bool) \<Rightarrow> time_t \<Rightarrow> server" where
  "server_init cfg env w db canonical eline now =
     (server_blank 4093 cfg env)\<lparr>sv_world := w, sv_csdb := db, sv_canonical_ip := canonical, sv_eline_ip := eline, sv_clock := now\<rparr>"

definition loop_start :: loop_state where
  "loop_start = \<lparr>lp_input_cursor = 0, lp_tls_handshake_cursor = 0, lp_maintenance_second = None\<rparr>"

text \<open>
  The states of \<open>server_run\<close> at the head of its loop; the flag says whether the loop is still running.  Each turn meets its own answers \<open>e\<close> of the transport and of
  the allocator.
\<close>

inductive server_runs :: "line_handler \<Rightarrow> server \<Rightarrow> bool \<Rightarrow> loop_state \<Rightarrow> server \<Rightarrow> bool" for handle s0 where
  start: "server_runs handle s0 True loop_start s0"
| turn: "server_runs handle s0 True lp s \<Longrightarrow> \<not> sv_restart_requested s \<Longrightarrow> server_turn handle a lp (s\<lparr>sv_env := e\<rparr>) = (running, lp', s') \<Longrightarrow>
    server_runs handle s0 running lp' s'"

inductive_cases server_runs_running: "server_runs handle s0 True lp s"

lemma server_init_wf: "server_wf (server_init cfg env w db canonical eline now)"
proof -
  have blank: "hash_get (hash_blank 4093) key = None" "hash_inv (hash_blank 4093)" for key
    by (simp_all add: hash_blank_def hash_get_def hash_inv_def bucket_index_def)
  show ?thesis
    unfolding server_init_def server_blank_def
    by (simp add: wf_defs blank index_of_def id_of_def nick_of_def chan_of_def ip_clients_def)
qed

subsection \<open>Properties\<close>

lemma sendf_rc_upd:
  assumes "\<And>cl. c_capabilities (f cl) = c_capabilities cl"
  shows "fst (sendf_rc d l (upd_client d f s)) = fst (sendf_rc d l s)"
  by (simp add: sendf_rc_def upd_client_def assms case_prod_beta Let_def)

lemma sendf_rc_log: "sv_log (snd (sendf_rc d l s)) = sv_log s @ [(d, l)]"
  by (simp add: sendf_rc_def case_prod_beta Let_def)

lemma liveness_visit_due:
  assumes "ping_due (sv_clock v) (sv_config v) (sv_client v d)" "c_last_liveness_activity (sv_client v d) \<le> sv_clock v"
  defines "deadline \<equiv> sv_clock v + uint (cf_ping_timeout_seconds (sv_config v))"
  defines "line \<equiv> ''PING :'' @ take IRCD_PING_TOKEN_MAX (dec_int deadline)"
  shows "sv_log (snd (liveness_client d v)) = sv_log v @ [(d, line)]"
    and "c_ping_pending (sv_client (snd (liveness_client d v)) d) \<longleftrightarrow> 0 \<le> fst (sendf_rc d line v)"
proof -
  let ?f = "\<lambda>cl :: client. cl\<lparr>c_ping_deadline := deadline, c_ping_token := take IRCD_PING_TOKEN_MAX (dec_int deadline)\<rparr>"
  have r: "snd (liveness_client d v) = send_ping d v"
    using assms(1,2) by (simp add: liveness_client_def ping_due_def Let_def)
  have p: "send_ping d v = (let (rc, s2) = sendf_rc d line (upd_client d ?f v)
      in if rc \<ge> 0 then upd_client d (\<lambda>cl. cl\<lparr>c_ping_pending := True\<rparr>) s2 else s2)"
    by (simp add: send_ping_def Let_def line_def deadline_def upd_client_def)
  show "sv_log (snd (liveness_client d v)) = sv_log v @ [(d, line)]"
    unfolding r p by (simp add: case_prod_beta Let_def sendf_rc_log upd_client_def)
  have rc: "fst (sendf_rc d line (upd_client d ?f v)) = fst (sendf_rc d line v)" by (rule sendf_rc_upd) simp
  have "\<not> c_ping_pending (sv_client (snd (sendf_rc d line (upd_client d ?f v))) d)"
    using assms(1) by (simp add: ping_due_def upd_client_def)
  then show "c_ping_pending (sv_client (snd (liveness_client d v)) d) \<longleftrightarrow> 0 \<le> fst (sendf_rc d line v)"
    unfolding r p case_prod_beta Let_def rc by (simp add: upd_client_def [of d "\<lambda>cl. cl\<lparr>c_ping_pending := True\<rparr>"])
qed

text \<open>
  C26: a client that stops answering is disconnected, and only such a client.  The maintenance pass removes exactly the registered clients whose PING
  has passed its deadline unanswered.  A registered client that awaits no answer and has been idle for the interval stays; one pass of the loop visits it and sends it a PING whose token is
  the deadline, one timeout ahead, and it counts as waiting from then on exactly when the transport or its queue took that line.  In any later state whatever in which the client
  still waits for that PING, a maintenance pass at or after the deadline removes it.
\<close>

theorem silent_client_disconnected:
  assumes wf: "server_wf s" and d: "d \<in> set (sv_clients s)"
    and idle: "c_registered (sv_client s d)" "\<not> c_ping_pending (sv_client s d)" "c_last_liveness_activity (sv_client s d) \<le> sv_clock s"
      "c_last_liveness_activity (sv_client s d) + uint (cf_ping_interval_seconds (sv_config s)) \<le> sv_clock s"
  defines "deadline \<equiv> sv_clock s + uint (cf_ping_timeout_seconds (sv_config s))"
  defines "line \<equiv> ''PING :'' @ take IRCD_PING_TOKEN_MAX (dec_int deadline)"
  shows "set (sv_clients (maintain_client_liveness s)) =
      {e \<in> set (sv_clients s). \<not> (c_registered (sv_client s e) \<and> c_ping_pending (sv_client s e) \<and> c_ping_deadline (sv_client s e) \<le> sv_clock s)} \<and>
    d \<in> set (sv_clients (maintain_client_liveness s)) \<and> c_ping_deadline (sv_client (maintain_client_liveness s) d) = deadline \<and>
    (\<exists>j<length (sv_clients s). \<exists>i v. (sweep_pass liveness_client ^^ j) (0, s) = (i, v) \<and> sv_clients v ! i = d \<and>
       sv_log (snd (sweep_pass liveness_client (i, v))) = sv_log v @ [(d, line)] \<and>
       (c_ping_pending (sv_client (maintain_client_liveness s) d) \<longleftrightarrow> 0 \<le> fst (sendf_rc d line v))) \<and>
    (\<forall>u. server_wf u \<and> c_registered (sv_client u d) \<and> c_ping_pending (sv_client u d) \<and> c_ping_deadline (sv_client u d) = deadline \<and> deadline \<le> sv_clock u \<longrightarrow>
       d \<notin> set (sv_clients (maintain_client_liveness u)))"
proof (intro conjI)
  let ?t = "maintain_client_liveness s"
  have due: "ping_due (sv_clock s) (sv_config s) (sv_client s d)" using idle by (simp add: ping_due_def)
  note all = liveness.sweep_visits_all [folded maintain_client_liveness_def]
  note pass = all [OF wf]
  show "set (sv_clients ?t) =
      {e \<in> set (sv_clients s). \<not> (c_registered (sv_client s e) \<and> c_ping_pending (sv_client s e) \<and> c_ping_deadline (sv_client s e) \<le> sv_clock s)}"
    using pass(1) by (simp add: ping_expired_def)
  show stays: "d \<in> set (sv_clients ?t)" using pass(1) d due by (auto simp: ping_due_def ping_expired_def)
  have "pinged (sv_clock s) (sv_config s) (sv_client s d) (sv_client ?t d)" by (rule pass(2) [OF stays])
  then show "c_ping_deadline (sv_client ?t d) = deadline"
    using due by (auto simp: pinged_def Let_def deadline_def)
  have "\<not> ping_expired (sv_clock s) (sv_client s d)" using idle(2) by (simp add: ping_expired_def)
  from liveness.sweep_visits_one [OF wf, of 0 "length (sv_clients s)" d] d this obtain j i v where
    v: "j < length (sv_clients s)" "(sweep_pass liveness_client ^^ j) (0, s) = (i, v)" "sv_clients v ! i = d" "sv_client v d = sv_client s d"
      "sv_clock v = sv_clock s" "sv_config v = sv_config s" "sv_client ?t d = sv_client (snd (liveness_client d v)) d"
    by (auto simp: maintain_client_liveness_def)
  have p: "snd (sweep_pass liveness_client (i, v)) = snd (liveness_client d v)" using v(3) by (simp add: sweep_pass_def case_prod_beta)
  note visit = liveness_visit_due [of v d, unfolded v(4-6), OF due idle(3), folded deadline_def, folded line_def]
  show "\<exists>j<length (sv_clients s). \<exists>i v. (sweep_pass liveness_client ^^ j) (0, s) = (i, v) \<and> sv_clients v ! i = d \<and>
       sv_log (snd (sweep_pass liveness_client (i, v))) = sv_log v @ [(d, line)] \<and>
       (c_ping_pending (sv_client ?t d) \<longleftrightarrow> 0 \<le> fst (sendf_rc d line v))"
    using v(1-3) visit p v(7) by (intro exI [of _ j] conjI exI [of _ i] exI [of _ v]) simp_all
  show "\<forall>u. server_wf u \<and> c_registered (sv_client u d) \<and> c_ping_pending (sv_client u d) \<and> c_ping_deadline (sv_client u d) = deadline \<and> deadline \<le> sv_clock u \<longrightarrow>
       d \<notin> set (sv_clients (maintain_client_liveness u))"
    using all(1) by (auto simp: ping_expired_def)
qed

theorem silent_client_disconnected_witness:
  "0 \<in> set (sv_clients (maintain_client_liveness example_room)) \<and> c_ping_deadline (sv_client (maintain_client_liveness example_room) 0) = 1090 \<and>
   0 \<notin> set (sv_clients (maintain_client_liveness (upd_client 0 (\<lambda>cl. cl\<lparr>c_ping_pending := True, c_ping_deadline := 1090\<rparr>) example_room\<lparr>sv_clock := 1095\<rparr>)))"
proof -
  let ?u = "upd_client 0 (\<lambda>cl. cl\<lparr>c_ping_pending := True, c_ping_deadline := 1090\<rparr>) example_room\<lparr>sv_clock := 1095\<rparr>"
  have "server_wf ?u" using server_wf_upd_client [OF example_room_wf, of 0 "\<lambda>cl. cl\<lparr>c_ping_pending := True, c_ping_deadline := 1090\<rparr>"] by simp
  then show ?thesis
    using silent_client_disconnected [OF example_room_wf, of 0]
    by (simp add: config_blank_def example_client_def client_zero_def upd_client_def)
qed

end
