(* ===== verification/Commands.thy ===== *)
theory Commands
  imports Server_Info NickServ Event_Loop
begin

section \<open>The command table (src/commands/dispatch.c)\<close>

text \<open>
  The handlers that are modelled, under their names in \<open>command_table\<close>; \<open>services\<close> stands for the text commands of
  the services that PRIVMSG reaches and \<open>other\<close> for the handlers that are not modelled.
  The locale states what is asked of those: like the modelled handlers they keep the server well formed
  and leave the issuing client in place.  It gives the contract of theory \<open>Dispatch\<close> for the whole table,
  and with it the invariant of the input pass.
\<close>

definition handler_table :: "(string \<Rightarrow> cref \<Rightarrow> string \<Rightarrow> server \<Rightarrow> server) \<Rightarrow>
    (string \<times> (cref \<Rightarrow> string option \<Rightarrow> server \<Rightarrow> command_result \<times> server)) list" where
  "handler_table services =
     [(''ADMIN'', command_admin), (''AUTHENTICATE'', command_authenticate), (''AWAY'', command_away), (''CAP'', command_cap), (''DEAF'', command_deaf), (''DIE'', command_die), (''ELINE'', command_eline), (''FLASH'', command_flash),
      (''GEOBAN'', command_geoban), (''GLOBOPS'', command_globops), (''IDENTIFY'', command_identify), (''INFO'', command_info), (''INVITE'', command_invite), (''ISON'', command_ison),
      (''JOIN'', command_join), (''KICK'', command_kick), (''KILL'', command_kill), (''KLINE'', command_kline),
      (''KNOCK'', command_knock), (''LINKS'', command_links), (''LIST'', command_list),
      (''LOCOPS'', command_locops), (''LUSERS'', command_lusers), (''MEMOSERV'', command_memoserv), (''MODE'', command_mode), (''MOTD'', command_motd),
      (''MSINFO'', command_msinfo), (''MSPURGE'', command_mspurge),
      (''MUTE'', command_mute), (''NAMES'', command_names), (''NICK'', command_nick), (''NOTICE'', command_notice), (''OPER'', command_oper), (''OPERADD'', command_operadd),
      (''OPERDEL'', command_operdel), (''OPERLIST'', command_operlist), (''OPERSET'', command_operset), (''PART'', command_part), (''PASS'', command_pass),
      (''PING'', command_ping), (''PMSTATS'', command_pmstats), (''PONG'', command_pong), (''PRIVMSG'', command_privmsg services), (''QUIT'', command_quit),
      (''RESTART'', command_restart), (''RULES'', command_rules), (''SAJOIN'', command_sajoin), (''SAPART'', command_sapart), (''SETHOST'', command_sethost),
      (''SETIDENT'', command_setident), (''SETNAME'', command_setname), (''SILENCE'', command_silence),
      (''SNOTICE'', command_snotice), (''STATS'', command_stats), (''TAGMSG'', command_tagmsg), (''TIME'', command_time), (''TOPIC'', command_topic), (''UNGEOBAN'', command_ungeoban),
      (''USER'', command_user), (''USERHOST'', command_userhost), (''USERIP'', command_userip), (''VERSION'', command_version), (''WALLOPS'', command_wallops), (''WATCH'', command_watch),
      (''WHO'', command_who), (''WHOIS'', command_whois), (''WHOWAS'', command_whowas), (''ZLINE'', command_zline)]"

definition ircd_handler :: "(string \<Rightarrow> cref \<Rightarrow> string \<Rightarrow> server \<Rightarrow> server) \<Rightarrow> handler \<Rightarrow> handler" where
  "ircd_handler services other name =
     (case map_of (handler_table services) name of Some h \<Rightarrow> h | None \<Rightarrow> other name)"

lemmas keeps_of_io = keeps_io [OF keeps_refl]

locale unmodelled_handlers =
  fixes services :: "string \<Rightarrow> cref \<Rightarrow> string \<Rightarrow> server \<Rightarrow> server" and other :: handler
  assumes services_keep: "keeps c s (services name c txt s)"
    and other_keeps: "keeps c s (snd (other name c params s))"
begin

lemma handlers_keep: "(name, h) \<in> set (handler_table services) \<Longrightarrow> keeps c s (snd (h c params s))"
  unfolding handler_table_def
  by (auto simp: command_invite_keeps command_join_keeps command_kick_keeps command_names_keeps command_part_keeps
        command_topic_keeps command_mode_keeps command_motd_keeps command_rules_keeps command_away_keeps command_cap_keeps
        command_nick_keeps command_notice_keeps command_pass_keeps command_ping_keeps command_pong_keeps command_quit_keeps
        command_silence_keeps command_tagmsg_keeps command_user_keeps command_watch_keeps command_lusers_keeps
        command_kill_keeps command_snotice_keeps command_setname_keeps command_sethost_keeps command_setident_keeps
        command_sajoin_keeps command_sapart_keeps set_control_mode_keeps command_deaf_def command_mute_def command_globops_def
        command_locops_def keeps_of_io [OF command_wallops_io] keeps_of_io [OF send_oper_message_io] keeps_of_io [OF command_flash_io]
        command_privmsg_keeps [OF services_keep] keeps_of_io [OF command_knock_io] keeps_of_io [OF command_ison_io]
        keeps_of_io [OF command_list_io] keeps_of_io [OF command_userhost_io] keeps_of_io [OF command_userip_io]
        keeps_of_io [OF command_who_io] keeps_of_io [OF command_whois_io] keeps_of_io [OF command_whowas_io]
        command_kline_keeps command_zline_keeps command_eline_keeps command_geoban_keeps command_ungeoban_keeps
        command_oper_keeps operator_admin_keeps command_operlist_keeps restart_keeps command_memoserv_keeps memo_admin_keeps command_identify_keeps
        command_authenticate_keeps information_keeps command_stats_keeps command_pmstats_keeps)

lemma table_keeps: "keeps c s (snd (ircd_handler services other name c params s))"
  using handlers_keep map_of_SomeD [of "handler_table services" name]
  by (auto simp: ircd_handler_def other_keeps split: option.split)

end

sublocale unmodelled_handlers \<subseteq> table: command_handlers "ircd_handler services other"
  by unfold_locales (rule table_keeps)

text \<open>
  The server built from the modelled part of the table: MemoServ answers its messages, the text commands of the other services do nothing, and a command whose handler is not modelled
  (CHANSERV, CHATHISTORY, CSDROP, CSINFO, CSSET, NICKSERV, NSDROP, NSINFO, NSSET, REHASH, SAMODE, WEBIRC) is answered as the dispatcher answers an unknown one.
  \<open>command_nickserv\<close>, which is modelled, is not in the table: it keeps the server well formed only while memory lasts (\<open>command_nickserv_message_keeps\<close>).
\<close>

definition modelled_services :: "string \<Rightarrow> cref \<Rightarrow> string \<Rightarrow> server \<Rightarrow> server" where
  "modelled_services name c x s = (if name = ''MemoServ'' then command_memoserv_message c x s else s)"

definition unknown_command :: handler where
  "unknown_command name c params s = (COMMAND_KEEP_CLIENT, send_bounded_command_numeric c ''421'' name ''Unknown command'' s)"

definition modelled_handler :: handler where
  "modelled_handler = ircd_handler modelled_services unknown_command"

interpretation modelled: unmodelled_handlers modelled_services unknown_command
  using command_memoserv_message_run by unfold_locales (simp_all add: modelled_services_def unknown_command_def memo_run_def keeps_of_io)

subsection \<open>The commands reserved to operators\<close>

definition operator_table :: "(string \<times> (cref \<Rightarrow> string option \<Rightarrow> server \<Rightarrow> command_result \<times> server)) list" where
  "operator_table =
     [(''DEAF'', command_deaf), (''DIE'', command_die), (''ELINE'', command_eline), (''FLASH'', command_flash), (''GEOBAN'', command_geoban),
      (''GLOBOPS'', command_globops), (''KILL'', command_kill), (''KLINE'', command_kline), (''LOCOPS'', command_locops),
      (''MSINFO'', command_msinfo), (''MSPURGE'', command_mspurge), (''MUTE'', command_mute), (''OPERADD'', command_operadd), (''OPERDEL'', command_operdel),
      (''OPERLIST'', command_operlist), (''OPERSET'', command_operset), (''PMSTATS'', command_pmstats), (''RESTART'', command_restart), (''SAJOIN'', command_sajoin), (''SAPART'', command_sapart), (''SETHOST'', command_sethost),
      (''SETIDENT'', command_setident), (''SETNAME'', command_setname), (''SNOTICE'', command_snotice), (''UNGEOBAN'', command_ungeoban),
      (''USERIP'', command_userip), (''WALLOPS'', command_wallops), (''ZLINE'', command_zline)]"

text \<open>These are entries of the command table.\<close>

lemma operator_table_sound: "list_all (\<lambda>(name, h). map_of (handler_table services) name = Some h) operator_table"
  unfolding operator_table_def by (simp add: handler_table_def)

definition without_authority :: "client \<Rightarrow> bool" where
  "without_authority cl \<longleftrightarrow> c_oper_permissions cl = 0 \<and> \<not> client_mode_has (c_modes cl) (CLIENT_MODE_OPER OR CLIENT_MODE_NETADMIN)"

text \<open>One line to the client and no other effect.\<close>

definition refused :: "cref \<Rightarrow> server \<Rightarrow> command_result \<times> server \<Rightarrow> bool" where
  "refused c s r \<longleftrightarrow> (\<exists>l. r = (COMMAND_KEEP_CLIENT, sendf c l s))"

lemma refused_replies [simp]:
  "refused c s (COMMAND_KEEP_CLIENT, no_privileges c s)" "refused c s (ERR_NEEDMOREPARAMS c x s)"
  by (auto simp: refused_def no_privileges_def reply_def ERR_NEEDMOREPARAMS_def)

lemma refused_unregistered:
  assumes "refused c s (body s)"
  shows "refused c s (registered_only c body s)"
  using assms by (auto simp: refused_def registered_only_def command_require_registered_def reply_def)

lemma without_netadmin: "without_authority cl \<Longrightarrow> \<not> client_mode_has (c_modes cl) CLIENT_MODE_NETADMIN"
  by (auto simp: without_authority_def client_mode_has_def or_eq_0_iff bit.conj_disj_distrib)

lemma refused_guards:
  assumes "without_authority (sv_client s c)"
  shows "refused c s (permitted permission c body s)" and "refused c s (operators_only c body s)" and "refused c s (netadmins_only c body s)"
    and "refused c s (send_oper_message command c params s)"
    and "refused c s (kline_body c m rest s)" and "refused c s (eline_list c rest s)" and "refused c s (eline_add c m rest s)"
  using assms without_netadmin [OF assms]
  by (auto simp: permitted_def operators_only_def netadmins_only_def send_oper_message_def without_authority_def oper_permission_has_def kline_body_def
      eline_list_def eline_add_def Let_def case_prod_beta intro!: refused_unregistered split: option.split)

lemma refused_lines:
  assumes "without_authority (sv_client s c)"
  shows "refused c s (command_kline c params s)" and "refused c s (command_eline c params s)"
proof -
  note guards = refused_guards [OF assms]
  have perm: "\<not> oper_permission_has (c_oper_permissions (sv_client s c)) OPER_PERMISSION_ELINE"
    using assms by (simp add: without_authority_def oper_permission_has_def)
  show "refused c s (command_kline c params s)"
    unfolding command_kline_def by (rule refused_unregistered) (simp add: guards split: option.split)
  show "refused c s (command_eline c params s)"
    unfolding command_eline_def by (rule refused_unregistered) (simp add: guards perm split: option.split)
qed

lemma refused_pmstats: "without_authority (sv_client s c) \<Longrightarrow> refused c s (command_pmstats c params s)"
  using without_netadmin [of "sv_client s c"]
  by (auto simp: refused_def command_pmstats_def Let_def without_authority_def oper_permission_has_def)

lemma refused_userip: "without_authority (sv_client s c) \<Longrightarrow> refused c s (command_userip c params s)"
  unfolding command_userip_def by (rule refused_unregistered) (simp add: without_authority_def)

lemma operators_refused:
  assumes "without_authority (sv_client s c)"
  shows "list_all (\<lambda>(name, h). refused c s (h c params s)) operator_table"
  unfolding operator_table_def
  by (simp add: refused_guards [OF assms] refused_lines [OF assms] refused_pmstats [OF assms] refused_userip [OF assms] command_deaf_def command_mute_def set_control_mode_def command_flash_def
      command_geoban_def command_ungeoban_def command_globops_def command_locops_def command_kill_def command_sajoin_def
      command_sapart_def forced_channels_def command_sethost_def command_setident_def set_identity_def command_setname_def
      command_snotice_def command_wallops_def command_zline_def command_die_def command_restart_def command_operadd_def
      command_operdel_def command_operset_def command_operlist_def command_msinfo_def command_mspurge_def)

text \<open>
  C9: twenty-eight operator commands do nothing for other users.  For a client that has no operator permission and neither of the operator user
  modes, each of the commands of \<open>operator_table\<close> (DEAF, DIE, ELINE, FLASH, GEOBAN, GLOBOPS, KILL, KLINE, LOCOPS, MSINFO, MSPURGE, MUTE, OPERADD, OPERDEL, OPERLIST, OPERSET, PMSTATS,
  RESTART, SAJOIN, SAPART, SETHOST, SETIDENT, SETNAME, SNOTICE, UNGEOBAN, USERIP, WALLOPS, ZLINE), as the command table selects it, ends in one line of refusal to that
  client: no other client is sent anything, nobody is disconnected and no ban or user is changed.  The other commands that check for operators are outside: SAMODE, REHASH and
  NSDROP, NSINFO, NSSET, CSDROP, CSINFO and CSSET, whose handlers are not modelled, and STATS, which is open to users for some of its letters.
\<close>

theorem operator_commands_need_authority:
  assumes "without_authority (sv_client s c)" "name \<in> fst ` set operator_table"
  shows "refused c s (ircd_handler services other name c params s)"
proof -
  obtain h where h: "(name, h) \<in> set operator_table" using assms(2) by auto
  then have "map_of (handler_table services) name = Some h"
    using operator_table_sound [of services] by (auto simp: list_all_iff)
  moreover have "refused c s (h c params s)" using operators_refused [OF assms(1)] h by (auto simp: list_all_iff)
  ultimately show ?thesis by (simp add: ircd_handler_def)
qed

theorem operator_commands_need_authority_witness:
  "refused 1 example_room (ircd_handler (\<lambda>name c x s. s) (\<lambda>name c params s. (COMMAND_KEEP_CLIENT, s)) ''KILL'' 1 (Some ''alice :bye'') example_room)"
  by (rule operator_commands_need_authority)
     (simp_all add: without_authority_def operator_table_def client_mode_has_def example_client_def client_zero_def)

end
