(* ===== verification/Spec2Isabelle.thy ===== *)
theory Spec2Isabelle
  imports Commands
begin

text \<open>
  A verification development of ScratchIRCd, a single-process IRC server in C (src/src, headers in src/include).

  \<^bold>\<open>The program.\<close>  One event loop (\<open>server_run\<close>) polls the listeners, the resolver pipes and the client sockets.  It accepts connections, reads bytes into
  the input buffer of a client, cuts them into lines and hands each line to the command dispatcher, which charges it to the flood budgets and calls one
  of about a hundred handlers.  Handlers change the one \<open>Server\<close> structure: the clients, the channels with their members and mask lists, the
  indexes by nickname, id, channel name and address, and the SQLite tables of bans, operators, accounts, memos and registered channels.  They answer by
  appending lines to the output queues of clients, which the loop flushes.  Once per turn the loop ages out lookups, unregistered connections and
  silent clients.

  \<^bold>\<open>State.\<close>  \<open>Server_State.server\<close> is the \<open>Server\<close> structure as a record.  Pointers to clients and channels are references (\<open>cref\<close>, \<open>chref\<close>) into
  the stores \<open>sv_client\<close> and \<open>sv_channel\<close>; \<open>sv_clients\<close> and \<open>sv_live\<close> list what is allocated.  \<open>sv_out\<close> holds the output queues and \<open>sv_log\<close> records each line in
  the order in which it was handed to a client.  \<open>sv_world\<close> is what lies outside: the rows of the SQLite tables (\<open>None\<close> for a table that cannot be
  opened), the rows handed to the message history and the mails (\<open>w_journal\<close>), the queue of the channel log (\<open>w_channel_log\<close>), and the answers of the libraries (Argon2, HMAC and SHA-256, Base64, random bytes, address
  parsing, local time), which are functions or lists of answers to come and never fixed.  \<open>sv_env\<close> has the answers of \<open>send\<close>, \<open>SSL_write\<close> and of
  the allocator.  \<open>sv_clock\<close> is the time of the turn.  Bit sets and counters that C keeps in unsigned types are words of their width; sizes are
  naturals where a bound that the code checks keeps them in range.  Strings are lists of characters without the final NUL; buffers truncate by
  \<open>take\<close>.  Errors are results: \<open>option\<close> for \<open>NULL\<close> and \<open>-1\<close>, or the integer that the function returns.

  \<^bold>\<open>Theories\<close>, from the bottom up:
  \<^item> \<open>IRC_Prelude\<close>: case mapping, \<open>strtok\<close>, decimal numbers, list lemmas, the collections of theorems.
  \<^item> \<open>Hash\<close> (hash.c), \<open>Modes\<close> (modes.c), \<open>Oper\<close> (oper.c), \<open>Client_State\<close> (client.h), \<open>Output\<close> (client.c), \<open>Channel\<close> (channel.c), \<open>Glob\<close> and \<open>Channel_Policy\<close>
    (channel_policy.c): the data structures.
  \<^item> \<open>Server_State\<close> (server.h), \<open>Message_Policy\<close>, \<open>Visibility\<close>, \<open>Presence\<close>, \<open>IRCv3\<close>, \<open>Server_Core\<close> and \<open>Client_Loop\<close> (server.c), \<open>Server_Steps\<close>: the server, the invariant
    \<open>server_wf\<close> and what keeps it.
  \<^item> \<open>ChanServ_Store\<close>, \<open>ChanServ\<close>, \<open>Channel_Log\<close> (channel_log.c, chanserv_db_logging.c), \<open>Ban_Store\<close>, \<open>Geoban_Store\<close>, \<open>NickServ_Store\<close>, \<open>Auth_Limit\<close>: tables, policy of registered channels, queue of the channel log, limits on password work.
  \<^item> \<open>Replies\<close>, \<open>Join_Part\<close>, \<open>Channel_Commands\<close>, \<open>Channel_Mode\<close>, \<open>User_Mode\<close>, \<open>Messaging\<close>, \<open>Text_Files\<close>, \<open>Registration\<close>, \<open>User_Queries\<close>, \<open>Oper_Commands\<close>, \<open>Ban_Commands\<close>,
    \<open>Operators\<close>, \<open>MemoServ\<close>, \<open>NickServ\<close>, \<open>Server_Info\<close>: the command handlers of src/commands and the services behind them, one definition per handler with every early return.
  \<^item> \<open>Dispatch\<close> (dispatch.c, irc.c), \<open>Input\<close> and \<open>Event_Loop\<close> (server.c), \<open>Commands\<close> (the command table): how they are called.
  \<^item> \<open>Example_State\<close>: a room with two members for the witnesses.

  \<^bold>\<open>Interfaces.\<close>  \<open>ci_index\<close> (Hash) is the contract of an index keyed without regard to case, with the lemmas that keep an index in agreement with the objects it
  indexes; it is interpreted on the hash table.  \<open>command_handlers\<close> (Dispatch) asks of a handler that it keeps the server well formed and
  its client connected (\<open>keeps\<close>) and gives this for dispatch, for the input pass and for a turn of the loop.  \<open>unmodelled_handlers\<close> (Commands) reduces it for the
  whole table to the handlers that are parameters, and is interpreted on the server without them (\<open>modelled_handler\<close>).  \<open>client_loop\<close>, \<open>client_sweep\<close>, \<open>row_sweep\<close> and \<open>client_visit\<close> (Client_Loop) are the loops over
  the client array in which a visit may disconnect a client, which moves the last client into the free place; they are interpreted on the
  enforcement of bans, on the expiry of lookups and on PING.  \<open>fixed_window\<close> (Auth_Limit) is a rate limit by fixed windows, interpreted on
  the second and on the minute, and \<open>token_bucket\<close> (Dispatch) one by a bucket that refills, interpreted on the bucket of a client and on that of the server.

  \<^bold>\<open>What is shown.\<close>  The server with the modelled commands is well formed in every state the loop reaches (\<open>server_always_consistent\<close> below): indexes, memberships, counters and
  allocations agree.  Safety: disconnecting erases a client, limits on admission, JOIN, KICK, MODE, user modes and operator commands respect authority, OPER, IDENTIFY and
  SASL need the password, passwords change only by their owner or a reset token, bans are enforced exactly, refused messages reach nobody,
  handlers see clean lines only, queries do not disclose hidden details.  Function: messages are delivered once and in order,
  NAMES is complete, lines are dispatched in order.  Refinement and equivalence: hash table, ban table, output queue, WHOWAS ring and
  MemoServ against abstract ones; the matchers for masks, prefixes and patterns against what they denote.  Round trips of the channel store and
  of memos, bounds of the rate limits, termination of the loops, and the removal of silent clients.  A few theorems record behaviour that differs from what
  the code or its documentation intends.

  \<^bold>\<open>Loops and bounds.\<close>  Functions are total.  Loops over a list or a text are recursive functions with a measure; the matchers of masks, whose backtracking
  has none that is obvious, have a termination proof.  Loops that end when no client is left to disconnect carry the number of clients as
  fuel, and \<open>enforcement_loops_end\<close> shows of the loops that enforce bans that, run without fuel, they leave by their own test with the same result.  The budgets of lines and commands per turn are the
  constants of config.h, the tables of the server have the 4093 buckets of \<open>server_init\<close> and the lemmas hold for any number above zero.

  \<^bold>\<open>Not modelled.\<close>  Text commands of ChanServ (chanserv.c from the first command on, commands/chanserv.c, chanserv_admin.c), NickServ administration (nickserv_admin.c), the
  history query (chathistory.c, history_db.c), SAMODE, WEBIRC and REHASH: the command table takes their handlers as a parameter, and \<open>modelled_handler\<close> treats them as unknown commands, like NICKSERV,
  whose handler is modelled but keeps the server well formed only while memory lasts.  Of channel_log.c only what a message does is modelled; the records of JOIN, PART and QUIT, and writing, rotating and
  pruning the text files are not.  Reading the configuration file (runtime_config.c), start-up, signals, opening SQLite files and migrating their schemas, socket
  and TLS set-up, the child processes for DNS, DNSBL and mail, and the MaxMind library are operating-system work whose results are
  parameters.  \<open>server_destroy\<close> only frees.  The tables are opened anew by each command where the code may keep a connection open.
\<close>

section \<open>Properties that span components\<close>

text \<open>
  C1: the server with the modelled commands is consistent in every state it can reach.  Its command table has 68 of the 80 entries of \<open>command_table\<close>; the other twelve (CHANSERV, CHATHISTORY,
  CSDROP, CSINFO, CSSET, NICKSERV, NSDROP, NSINFO, NSSET, REHASH, SAMODE, WEBIRC) are answered as unknown commands, and messages to NickServ and ChanServ have no effect.
  From the state that \<open>server_init\<close> sets up, whatever the configuration, the stores and the
  libraries are, and whatever connections, bytes, lookup results, socket errors and times the turns of the event loop meet, whether or not memory can be allocated in a turn, the indexes,
  memberships, counters and allocations of this server are consistent: accepting, reading, framing, dispatching to the command handlers, the lookup results, the timeouts,
  PING and the disconnections all keep them so.
\<close>

theorem server_always_consistent:
  assumes "server_runs (irc_handle_line modelled_handler) (server_init cfg env w db canonical eline now) running lp s"
  shows "server_wf s"
  using assms
proof induction
  case (turn lp s a e running lp' s')
  have "server_wf (s\<lparr>sv_env := e\<rparr>)" using turn.IH by simp
  then show ?case using modelled.table.turn_wf [of "s\<lparr>sv_env := e\<rparr>" a lp] turn.hyps(3) by (simp add: modelled_handler_def)
qed (rule server_init_wf)

text \<open>A turn in which a connection is accepted.\<close>

definition accepting_turn :: turn_answer where
  "accepting_turn = \<lparr>ta_clock = 1001, ta_growth = Grown, ta_poll_failed = False, ta_ready = True,
     ta_accepts = [(False, [\<lparr>aa_ip = Some ''10.0.0.1'', aa_nonblocking = True, aa_ssl = False, aa_dns = True\<rparr>])], ta_dns = [], ta_dnsbl = [],
     ta_events = (\<lambda>_. \<lparr>pe_in = False, pe_out = False, pe_error = False, pe_read = ReadWantRead, pe_handshake = HandshakeDone\<rparr>), ta_now = 1001\<rparr>"

theorem server_always_consistent_witness:
  "server_wf (snd (snd (server_turn (irc_handle_line modelled_handler) accepting_turn loop_start
     (server_init config_blank env_blank world_blank (sv_csdb (server_blank 1 config_blank env_blank)) Some (\<lambda>_. False) 1000))))"
proof -
  let ?handle = "irc_handle_line modelled_handler"
  let ?s = "server_init config_blank env_blank world_blank (sv_csdb (server_blank 1 config_blank env_blank)) Some (\<lambda>_. False) 1000"
  have e: "?s\<lparr>sv_env := env_blank\<rparr> = ?s" by (simp add: server_init_def server_blank_def)
  obtain running lp s where t: "server_turn ?handle accepting_turn loop_start ?s = (running, lp, s)" by (metis prod_cases3)
  then have t': "server_turn ?handle accepting_turn loop_start (?s\<lparr>sv_env := env_blank\<rparr>) = (running, lp, s)" unfolding e .
  have "server_runs ?handle ?s running lp s"
    by (rule server_runs.turn [OF server_runs.start _ t']) (simp add: server_init_def server_blank_def)
  from server_always_consistent [OF this] t show ?thesis by simp
qed

end
